(* ===== verification/Go_Strings.thy ===== *)
theory Go_Strings
  imports Main "HOL-Library.List_Lexorder" "HOL-Library.Char_ord" "HOL-Library.Sublist"
begin

text \<open>
  Prelude: the part of Go's package strings that the program uses. A Go string is a byte
  sequence, here a list of characters (8-bit codes), so length counts bytes as Go's len does.
  strings.TrimSpace is modelled on UTF-8 text with every code point that unicode.IsSpace
  accepts; strings.ToLower and strings.ToUpper map the ASCII letters and leave bytes from 128 on
  as they are (Go consults the Unicode tables there, which the identifiers, tool names and error
  texts of this program never reach). String order is the byte-wise lexicographic order.
\<close>

named_theorems gostr \<open>equations that evaluate and normalise string operations\<close>

section \<open>White space\<close>

definition space_bytes :: "string list" where
  "space_bytes =
    [[CHR 0x09], [CHR 0x0A], [CHR 0x0B], [CHR 0x0C], [CHR 0x0D], [CHR 0x20],
     [CHR 0xC2, CHR 0x85], [CHR 0xC2, CHR 0xA0],
     [CHR 0xE1, CHR 0x9A, CHR 0x80],
     [CHR 0xE2, CHR 0x80, CHR 0x80], [CHR 0xE2, CHR 0x80, CHR 0x81],
     [CHR 0xE2, CHR 0x80, CHR 0x82], [CHR 0xE2, CHR 0x80, CHR 0x83],
     [CHR 0xE2, CHR 0x80, CHR 0x84], [CHR 0xE2, CHR 0x80, CHR 0x85],
     [CHR 0xE2, CHR 0x80, CHR 0x86], [CHR 0xE2, CHR 0x80, CHR 0x87],
     [CHR 0xE2, CHR 0x80, CHR 0x88], [CHR 0xE2, CHR 0x80, CHR 0x89],
     [CHR 0xE2, CHR 0x80, CHR 0x8A], [CHR 0xE2, CHR 0x80, CHR 0xA8],
     [CHR 0xE2, CHR 0x80, CHR 0xA9], [CHR 0xE2, CHR 0x80, CHR 0xAF],
     [CHR 0xE2, CHR 0x81, CHR 0x9F], [CHR 0xE3, CHR 0x80, CHR 0x80]]"

text \<open>
  \<open>strip_seqs ws s\<close> drops sequences of \<open>ws\<close> from the front of \<open>s\<close> while one is there.
\<close>

definition lead_seq :: "string list \<Rightarrow> string \<Rightarrow> nat" where
  "lead_seq ws s = (case find (\<lambda>w. prefix w s) ws of None \<Rightarrow> 0 | Some w \<Rightarrow> length w)"

function strip_seqs :: "string list \<Rightarrow> string \<Rightarrow> string" where
  "strip_seqs ws s = (let n = lead_seq ws s in
     if n = 0 \<or> s = [] then s else strip_seqs ws (drop n s))"
  by pat_completeness auto
termination
  by (relation "measure (\<lambda>(ws, s). length s)") auto

declare strip_seqs.simps [simp del]

definition trim_left :: "string \<Rightarrow> string" where
  "trim_left s = strip_seqs space_bytes s"

definition trim_right :: "string \<Rightarrow> string" where
  "trim_right s = rev (strip_seqs (map rev space_bytes) (rev s))"

definition trim_space :: "string \<Rightarrow> string" where
  "trim_space s = trim_right (trim_left s)"

lemma strip_seqs_Nil [simp]: "strip_seqs ws [] = []"
  by (simp add: strip_seqs.simps)

lemma strip_seqs_fix: "lead_seq ws (strip_seqs ws s) = 0 \<or> strip_seqs ws s = []"
proof (induction ws s rule: strip_seqs.induct)
  case (1 ws s)
  show ?case
  proof (cases "lead_seq ws s = 0 \<or> s = []")
    case True
    then have "strip_seqs ws s = s" by (simp add: strip_seqs.simps [of ws s])
    with True show ?thesis by auto
  next
    case False
    then have "strip_seqs ws s = strip_seqs ws (drop (lead_seq ws s) s)"
      by (simp add: strip_seqs.simps [of ws s] Let_def)
    with False "1.IH" [OF refl] show ?thesis by simp
  qed
qed

lemma strip_seqs_id: "lead_seq ws s = 0 \<Longrightarrow> strip_seqs ws s = s"
  by (simp add: strip_seqs.simps [of ws s])

lemma strip_seqs_idem [simp]: "strip_seqs ws (strip_seqs ws s) = strip_seqs ws s"
  using strip_seqs_fix [of ws s] by (auto simp: strip_seqs_id)

lemma suffix_strip_seqs: "suffix (strip_seqs ws s) s"
proof (induction ws s rule: strip_seqs.induct)
  case (1 ws s)
  show ?case
  proof (cases "lead_seq ws s = 0 \<or> s = []")
    case True
    then show ?thesis by (simp add: strip_seqs.simps [of ws s])
  next
    case False
    then have "suffix (strip_seqs ws (drop (lead_seq ws s) s)) (drop (lead_seq ws s) s)"
      using "1.IH" [OF refl] by simp
    then have "suffix (strip_seqs ws (drop (lead_seq ws s) s)) s"
      using suffix_drop suffix_order.trans by blast
    with False show ?thesis by (simp add: strip_seqs.simps [of ws s] Let_def)
  qed
qed

lemma lead_seq_prefix:
  assumes "lead_seq ws s = 0" and "prefix p s" and "[] \<notin> set ws"
  shows "lead_seq ws p = 0"
proof (cases "find (\<lambda>w. prefix w p) ws")
  case None
  then show ?thesis by (simp add: lead_seq_def)
next
  case (Some w)
  then have w: "prefix w p" "w \<in> set ws" by (auto simp: find_Some_iff)
  with assms(2) have "prefix w s" by (auto intro: prefix_order.trans)
  with w(2) obtain w' where w': "find (\<lambda>w. prefix w s) ws = Some w'"
    by (cases "find (\<lambda>w. prefix w s) ws") (auto simp: find_None_iff)
  then have "w' \<in> set ws" by (auto simp: find_Some_iff)
  with w' assms(1,3) show ?thesis by (auto simp: lead_seq_def)
qed

lemma no_empty_space [simp]: "[] \<notin> set space_bytes" "[] \<notin> set (map rev space_bytes)"
  by (simp_all add: space_bytes_def)

lemma prefix_trim_right: "prefix (trim_right s) s"
  using suffix_strip_seqs [of "map rev space_bytes" "rev s"]
  by (simp add: trim_right_def suffix_to_prefix)

lemma trim_left_idem [simp]: "trim_left (trim_left s) = trim_left s"
  by (simp add: trim_left_def)

lemma trim_right_idem [simp]: "trim_right (trim_right s) = trim_right s"
  by (simp add: trim_right_def)

lemma trim_left_trim_space [simp]: "trim_left (trim_space s) = trim_space s"
proof -
  have pre: "prefix (trim_space s) (trim_left s)"
    by (simp add: trim_space_def prefix_trim_right)
  have "lead_seq space_bytes (trim_left s) = 0 \<or> trim_left s = []"
    by (simp add: trim_left_def strip_seqs_fix)
  then show ?thesis
  proof
    assume "lead_seq space_bytes (trim_left s) = 0"
    then have "lead_seq space_bytes (trim_space s) = 0"
      using pre by (rule lead_seq_prefix) simp
    then show ?thesis by (simp add: trim_left_def strip_seqs_id)
  next
    assume "trim_left s = []"
    with pre have "trim_space s = []" by simp
    then show ?thesis by (simp add: trim_left_def)
  qed
qed

lemma trim_space_idem [simp]: "trim_space (trim_space s) = trim_space s"
  by (simp add: trim_space_def [of "trim_space s"]) (simp add: trim_space_def)

lemma trim_space_Nil [simp]: "trim_space [] = []"
  by (simp add: trim_space_def trim_left_def trim_right_def)

lemma length_trim_space: "length (trim_space s) \<le> length s"
proof -
  have "length (trim_left s) \<le> length s"
    by (simp add: trim_left_def suffix_strip_seqs suffix_length_le)
  moreover have "length (trim_space s) \<le> length (trim_left s)"
    by (simp add: trim_space_def prefix_trim_right prefix_length_le)
  ultimately show ?thesis by simp
qed

lemma trim_space_trim_left_space:
  assumes "lead_seq space_bytes s = 0" and "lead_seq (map rev space_bytes) (rev s) = 0"
  shows "trim_space s = s"
  using assms by (simp add: trim_space_def trim_left_def trim_right_def strip_seqs_id)

lemma set_strip_seqs: "set (strip_seqs ws s) \<subseteq> set s"
  using suffix_strip_seqs by (rule set_mono_suffix)

lemma set_trim_space: "set (trim_space s) \<subseteq> set s"
proof -
  have "set (trim_space s) \<subseteq> set (trim_left s)"
    using set_strip_seqs [of _ "rev (trim_left s)"] by (simp add: trim_space_def trim_right_def)
  also have "\<dots> \<subseteq> set s" by (simp add: trim_left_def set_strip_seqs)
  finally show ?thesis .
qed

lemma in_strip_seqs:
  "c \<in> set s \<Longrightarrow> c \<notin> \<Union> (set ` set ws) \<Longrightarrow> c \<in> set (strip_seqs ws s)"
proof (induction ws s rule: strip_seqs.induct)
  case (1 ws s)
  show ?case
  proof (cases "lead_seq ws s = 0 \<or> s = []")
    case True
    then show ?thesis using 1 by (simp add: strip_seqs.simps [of ws s])
  next
    case False
    then obtain w where w: "find (\<lambda>w. prefix w s) ws = Some w" "lead_seq ws s = length w"
      by (auto simp: lead_seq_def split: option.splits)
    then have "w \<in> set ws" "prefix w s" by (auto simp: find_Some_iff)
    then obtain t where "s = w @ t" "c \<notin> set w" using 1(3) by (auto simp: prefix_def)
    with 1(2) w have "c \<in> set (drop (lead_seq ws s) s)" by simp
    from "1.IH" [OF refl False this 1(3)] False show ?thesis
      by (simp add: strip_seqs.simps [of ws s] Let_def)
  qed
qed

lemma in_trim_space:
  assumes "c \<in> set s" and "c \<notin> \<Union> (set ` set space_bytes)"
  shows "c \<in> set (trim_space s)"
proof -
  have "c \<notin> \<Union> (set ` set (map rev space_bytes))" using assms(2) by simp
  with assms show ?thesis
    by (simp add: trim_space_def trim_left_def trim_right_def in_strip_seqs del: set_map)
qed

section \<open>Letter case\<close>

definition lower_char :: "char \<Rightarrow> char" where
  "lower_char c = (let n = of_char c :: nat in if 65 \<le> n \<and> n \<le> 90 then char_of (n + 32) else c)"

definition upper_char :: "char \<Rightarrow> char" where
  "upper_char c = (let n = of_char c :: nat in if 97 \<le> n \<and> n \<le> 122 then char_of (n - 32) else c)"

definition to_lower :: "string \<Rightarrow> string" where
  "to_lower s = map lower_char s"

definition to_upper :: "string \<Rightarrow> string" where
  "to_upper s = map upper_char s"

lemma of_char_lower_char:
  "(of_char (lower_char c) :: nat) =
     (if 65 \<le> (of_char c :: nat) \<and> (of_char c :: nat) \<le> 90 then of_char c + 32 else of_char c)"
  by (simp add: lower_char_def Let_def of_char_of)

lemma lower_char_idem [simp]: "lower_char (lower_char c) = lower_char c"
proof -
  have "(of_char (lower_char (lower_char c)) :: nat) = of_char (lower_char c)"
    by (simp only: of_char_lower_char) simp
  then show ?thesis by (simp only: of_char_eq_iff)
qed

lemma to_lower_idem [simp]: "to_lower (to_lower s) = to_lower s"
  by (simp add: to_lower_def)

lemma to_lower_Nil [simp]: "to_lower [] = []" "to_lower s = [] \<longleftrightarrow> s = []" "[] = to_lower s \<longleftrightarrow> s = []"
  by (simp_all add: to_lower_def)

lemma length_to_lower [simp]: "length (to_lower s) = length s"
  by (simp add: to_lower_def)

text \<open>Lower-casing neither makes nor removes white space, so it commutes with trimming.\<close>

lemma lower_char_eq_iff:
  assumes "\<not> (97 \<le> (of_char d :: nat) \<and> (of_char d :: nat) \<le> 122)"
    and "\<not> (65 \<le> (of_char d :: nat) \<and> (of_char d :: nat) \<le> 90)"
  shows "lower_char c = d \<longleftrightarrow> c = d"
proof -
  have "lower_char c = d \<longleftrightarrow> (of_char (lower_char c) :: nat) = of_char d"
    by simp
  also have "\<dots> \<longleftrightarrow> (of_char c :: nat) = of_char d"
    using assms by (auto simp: of_char_lower_char simp del: of_char_eq_iff split: if_splits)
  finally show ?thesis by simp
qed

text \<open>A map on bytes that neither makes nor removes a byte of \<open>ws\<close> commutes with stripping \<open>ws\<close>.\<close>

definition unmoved :: "(char \<Rightarrow> char) \<Rightarrow> string list \<Rightarrow> bool" where
  "unmoved f ws \<longleftrightarrow> (\<forall>w \<in> set ws. \<forall>d \<in> set w. \<forall>c. f c = d \<longleftrightarrow> c = d)"

lemma prefix_unmoved: "\<forall>d \<in> set w. \<forall>c. f c = d \<longleftrightarrow> c = d \<Longrightarrow> prefix w (map f s) \<longleftrightarrow> prefix w s"
proof (induction w arbitrary: s)
  case (Cons d w)
  then show ?case by (cases s) (auto simp: eq_commute [of d])
qed simp

lemma find_cong_list: "(\<And>x. x \<in> set xs \<Longrightarrow> P x = Q x) \<Longrightarrow> find P xs = find Q xs"
  by (induction xs) auto

lemma lead_seq_map: "unmoved f ws \<Longrightarrow> lead_seq ws (map f s) = lead_seq ws s"
proof -
  assume "unmoved f ws"
  then have "find (\<lambda>w. prefix w (map f s)) ws = find (\<lambda>w. prefix w s) ws"
    by (intro find_cong_list prefix_unmoved) (simp add: unmoved_def)
  then show ?thesis by (simp add: lead_seq_def)
qed

lemma strip_seqs_map: "unmoved f ws \<Longrightarrow> strip_seqs ws (map f s) = map f (strip_seqs ws s)"
proof (induction ws s rule: strip_seqs.induct)
  case (1 ws s)
  show ?case
  proof (cases "lead_seq ws s = 0 \<or> s = []")
    case True
    then show ?thesis using "1.prems"
      by (simp add: strip_seqs.simps [of ws s] strip_seqs.simps [of ws "map f s"] lead_seq_map)
  next
    case False
    with "1.IH" [OF refl] "1.prems" show ?thesis
      by (simp add: strip_seqs.simps [of ws s] strip_seqs.simps [of ws "map f s"]
          lead_seq_map Let_def drop_map)
  qed
qed

lemma trim_space_map: "unmoved f space_bytes \<Longrightarrow> trim_space (map f s) = map f (trim_space s)"
proof -
  assume u: "unmoved f space_bytes"
  then have "unmoved f (map rev space_bytes)" by (simp add: unmoved_def)
  with u show ?thesis by (simp add: trim_space_def trim_left_def trim_right_def strip_seqs_map rev_map)
qed

lemma unmoved_lower: "unmoved lower_char space_bytes"
proof -
  have "\<forall>w \<in> set space_bytes. \<forall>d \<in> set w. \<not> (97 \<le> (of_char d :: nat) \<and> (of_char d :: nat) \<le> 122) \<and>
      \<not> (65 \<le> (of_char d :: nat) \<and> (of_char d :: nat) \<le> 90)"
    by (simp add: space_bytes_def)
  then show ?thesis unfolding unmoved_def using lower_char_eq_iff by blast
qed

lemma trim_space_to_lower: "trim_space (to_lower s) = to_lower (trim_space s)"
  unfolding to_lower_def by (rule trim_space_map [OF unmoved_lower])

text \<open>Trimming drops bytes of white space at the ends only.\<close>

lemma strip_seqs_split: "\<exists>a. s = a @ strip_seqs ws s \<and> set a \<subseteq> \<Union> (set ` set ws)"
proof (induction ws s rule: strip_seqs.induct)
  case (1 ws s)
  show ?case
  proof (cases "lead_seq ws s = 0 \<or> s = []")
    case True
    then show ?thesis by (simp add: strip_seqs.simps [of ws s])
  next
    case False
    then obtain w where w: "w \<in> set ws" "prefix w s" "lead_seq ws s = length w"
      by (auto simp: lead_seq_def find_Some_iff split: option.splits intro: nth_mem)
    then have s: "s = w @ drop (lead_seq ws s) s" by (auto simp: prefix_def)
    from "1.IH" [OF refl False] obtain a where
      "drop (lead_seq ws s) s = a @ strip_seqs ws (drop (lead_seq ws s) s)" "set a \<subseteq> \<Union> (set ` set ws)" by blast
    moreover have "strip_seqs ws s = strip_seqs ws (drop (lead_seq ws s) s)"
      using False by (simp add: strip_seqs.simps [of ws s] Let_def)
    ultimately have "s = (w @ a) @ strip_seqs ws s \<and> set (w @ a) \<subseteq> \<Union> (set ` set ws)"
      using s w(1) by (metis (no_types, lifting) UN_upper append_assoc le_sup_iff set_append)
    then show ?thesis by blast
  qed
qed

lemma trim_space_split:
  "\<exists>a b. s = a @ trim_space s @ b \<and> set a \<union> set b \<subseteq> \<Union> (set ` set space_bytes)"
proof -
  obtain a where a: "s = a @ trim_left s" "set a \<subseteq> \<Union> (set ` set space_bytes)"
    using strip_seqs_split [of s space_bytes] by (auto simp: trim_left_def)
  obtain b where b: "rev (trim_left s) = b @ rev (trim_space s)" "set b \<subseteq> \<Union> (set ` set (map rev space_bytes))"
    using strip_seqs_split [of "rev (trim_left s)" "map rev space_bytes"] by (auto simp: trim_space_def trim_right_def)
  from b(1) have "trim_left s = trim_space s @ rev b" by (metis rev_append rev_rev_ident)
  with a b(2) show ?thesis by (intro exI [of _ a] exI [of _ "rev b"]) simp
qed

lemma empty_ends: "A = B \<union> (C \<union> D) \<Longrightarrow> B \<union> D \<subseteq> W \<Longrightarrow> A \<inter> W = {} \<Longrightarrow> B = {} \<and> D = {}"
  by blast

lemma trim_space_plain: "set s \<inter> \<Union> (set ` set space_bytes) = {} \<Longrightarrow> trim_space s = s"
proof -
  assume s: "set s \<inter> \<Union> (set ` set space_bytes) = {}"
  obtain a b where ab: "s = a @ trim_space s @ b" "set a \<union> set b \<subseteq> \<Union> (set ` set space_bytes)"
    using trim_space_split [of s] by blast
  have "set s = set a \<union> (set (trim_space s) \<union> set b)" using arg_cong [OF ab(1), of set] by simp
  from empty_ends [OF this ab(2) s] have "a = []" "b = []" by simp_all
  with ab(1) show ?thesis by simp
qed

section \<open>Searching, splitting and joining\<close>

text \<open>
  strings.HasPrefix is \<^const>\<open>prefix\<close> and strings.HasSuffix is \<^const>\<open>suffix\<close>.
  \<open>index_of\<close> is strings.Index with None for -1; \<open>contains\<close> is strings.Contains.
\<close>

fun index_of :: "string \<Rightarrow> string \<Rightarrow> nat option" where
  "index_of w [] = (if w = [] then Some 0 else None)"
| "index_of w (c # s) = (if prefix w (c # s) then Some 0 else map_option Suc (index_of w s))"

definition contains :: "string \<Rightarrow> string \<Rightarrow> bool" where
  "contains s w = (index_of w s \<noteq> None)"

definition contains_any :: "string \<Rightarrow> string list \<Rightarrow> bool" where
  "contains_any s ws = list_ex (contains s) ws"

lemma index_of_Some:
  "index_of w s = Some i \<Longrightarrow> i + length w \<le> length s \<and> take (length w) (drop i s) = w"
proof (induction w s arbitrary: i rule: index_of.induct)
  case (1 w)
  then show ?case by (auto split: if_splits)
next
  case (2 w c s)
  show ?case
  proof (cases "prefix w (c # s)")
    case True
    then show ?thesis using 2(2) prefix_length_le [OF True] by (auto simp: prefix_def)
  next
    case False
    with 2 show ?thesis by auto
  qed
qed

lemma contains_sublist: "contains s w \<longleftrightarrow> sublist w s"
proof (induction s)
  case Nil
  then show ?case by (simp add: contains_def)
next
  case (Cons c s)
  then show ?case by (auto simp: contains_def sublist_Cons_right)
qed

text \<open>strings.ReplaceAll for a non-empty old string.\<close>

function replace_all :: "string \<Rightarrow> string \<Rightarrow> string \<Rightarrow> string" where
  "replace_all old new [] = []"
| "replace_all old new (c # s) =
     (if old \<noteq> [] \<and> prefix old (c # s) then new @ replace_all old new (drop (length old) (c # s))
      else c # replace_all old new s)"
  by pat_completeness auto
termination
  by (relation "measure (\<lambda>(old, new, s). length s)") (auto simp: Suc_le_eq)

declare replace_all.simps(2) [simp del]

text \<open>strings.Split with a one-byte separator; the result is never empty.\<close>

fun split_on :: "char \<Rightarrow> string \<Rightarrow> string list" where
  "split_on d [] = [[]]"
| "split_on d (c # s) =
     (if c = d then [] # split_on d s
      else (case split_on d s of [] \<Rightarrow> [[c]] | p # ps \<Rightarrow> (c # p) # ps))"

text \<open>strings.Join\<close>

fun join_with :: "string \<Rightarrow> string list \<Rightarrow> string" where
  "join_with sep [] = []"
| "join_with sep [x] = x"
| "join_with sep (x # y # xs) = x @ sep @ join_with sep (y # xs)"

lemma split_on_nonempty [simp]: "split_on d s \<noteq> []"
  by (induction s) (auto split: list.splits)

lemma split_on_no_sep: "p \<in> set (split_on d s) \<Longrightarrow> d \<notin> set p"
  by (induction s arbitrary: p) (auto split: list.splits if_splits)

lemma join_split: "join_with [d] (split_on d s) = s"
proof (induction s)
  case Nil
  then show ?case by simp
next
  case (Cons c s)
  obtain p ps where sp: "split_on d s = p # ps"
    using split_on_nonempty by (cases "split_on d s") auto
  with Cons show ?case by (cases ps) auto
qed

text \<open>The parts of a split are what lies between separators.\<close>

lemma split_on_append_nosep:
  "d \<notin> set b \<Longrightarrow> split_on d (m @ b) = butlast (split_on d m) @ [last (split_on d m) @ b]"
proof (induction m)
  case Nil
  then show ?case by (induction b) auto
next
  case (Cons c m)
  obtain p ps where sp: "split_on d m = p # ps" using split_on_nonempty by (cases "split_on d m") auto
  with Cons show ?case by (cases ps) auto
qed

lemma split_on_prepend_nosep:
  "d \<notin> set a \<Longrightarrow> split_on d (a @ m) = (a @ hd (split_on d m)) # tl (split_on d m)"
proof (induction a)
  case (Cons c a)
  then show ?case by (auto split: list.split)
qed simp

lemma split_on_map_id:
  "(\<And>c. f c = d \<longleftrightarrow> c = d) \<Longrightarrow> split_on d (map f s) = map (map f) (split_on d s)"
proof (induction s)
  case (Cons c s)
  obtain p ps where sp: "split_on d s = p # ps" using split_on_nonempty by (cases "split_on d s") auto
  with Cons show ?case by auto
qed simp

lemma split_on_single: "d \<notin> set p \<Longrightarrow> split_on d p = [p]"
  by (induction p) auto

lemma split_on_append: "d \<notin> set p \<Longrightarrow> split_on d (p @ d # s) = p # split_on d s"
  by (induction p) auto

lemma split_join:
  "ps \<noteq> [] \<Longrightarrow> (\<And>p. p \<in> set ps \<Longrightarrow> d \<notin> set p) \<Longrightarrow> split_on d (join_with [d] ps) = ps"
  by (induction ps rule: induct_list012) (auto simp: split_on_single split_on_append)

section \<open>Numbers in decimal (strconv.Itoa)\<close>

fun nat_digits :: "nat \<Rightarrow> string" where
  "nat_digits n = (if n < 10 then [char_of (48 + n)]
     else nat_digits (n div 10) @ [char_of (48 + n mod 10)])"

declare nat_digits.simps [simp del]

definition itoa :: "int \<Rightarrow> string" where
  "itoa i = (if i < 0 then CHR ''-'' # nat_digits (nat (- i)) else nat_digits (nat i))"

definition digit_val :: "char \<Rightarrow> nat option" where
  "digit_val c = (let n = of_char c :: nat in if 48 \<le> n \<and> n \<le> 57 then Some (n - 48) else None)"

definition is_digit_char :: "char \<Rightarrow> bool" where
  "is_digit_char c = (48 \<le> (of_char c :: nat) \<and> (of_char c :: nat) \<le> 57)"

definition digits_val :: "string \<Rightarrow> nat" where
  "digits_val s = foldl (\<lambda>a c. 10 * a + ((of_char c :: nat) - 48)) 0 s"

lemma nat_digits_val: "digits_val (nat_digits n) = n"
proof (induction n rule: nat_digits.induct)
  case (1 n)
  show ?case
  proof (cases "n < 10")
    case True
    then show ?thesis by (simp add: nat_digits.simps [of n] digits_val_def of_char_of)
  next
    case False
    with 1 show ?thesis by (simp add: nat_digits.simps [of n] digits_val_def of_char_of)
  qed
qed

lemma nat_digits_inj: "nat_digits m = nat_digits n \<longleftrightarrow> m = n"
  by (metis nat_digits_val)

lemma nat_digits_nonempty [simp]: "nat_digits n \<noteq> []"
  by (simp add: nat_digits.simps [of n])

lemma nat_digits_digits: "c \<in> set (nat_digits n) \<Longrightarrow> is_digit_char c"
proof (induction n rule: nat_digits.induct)
  case (1 n)
  then show ?case
    by (auto simp: nat_digits.simps [of n] is_digit_char_def of_char_of split: if_splits)
qed

end
