(* ===== verification/Go_Map.thy ===== *)
theory Go_Map
  imports Go_Strings
begin

text \<open>
  Go's map[K]V. A map is kept as the list of its entries in strictly increasing key order, a
  canonical form: two maps with the same content are equal, as the reader of a Go map cannot see
  more than its content. Go's range visits the entries in an unspecified order; code whose
  result depends on that order takes the order as an extra argument in the model, and code
  that sorts afterwards (most of it) is modelled by the sorted list. The interface the
  components rely on is the locale \<open>go_map\<close>: a read after a write, a delete, the keys and the
  preservation of well-formedness.
\<close>

type_synonym ('k, 'v) gmap = "('k \<times> 'v) list"

named_theorems gmap \<open>the laws of Go maps\<close>

definition mempty :: "('k, 'v) gmap" where
  "mempty = []"

definition mget :: "('k, 'v) gmap \<Rightarrow> 'k \<Rightarrow> 'v option" where
  "mget m k = map_of m k"

fun mput :: "'k :: linorder \<Rightarrow> 'v \<Rightarrow> ('k, 'v) gmap \<Rightarrow> ('k, 'v) gmap" where
  "mput k v [] = [(k, v)]"
| "mput k v ((k', v') # m) =
     (if k < k' then (k, v) # (k', v') # m
      else if k = k' then (k, v) # m
      else (k', v') # mput k v m)"

definition mdel :: "'k \<Rightarrow> ('k, 'v) gmap \<Rightarrow> ('k, 'v) gmap" where
  "mdel k m = filter (\<lambda>e. fst e \<noteq> k) m"

definition mkeys :: "('k, 'v) gmap \<Rightarrow> 'k list" where
  "mkeys m = map fst m"

definition mvals :: "('k, 'v) gmap \<Rightarrow> 'v list" where
  "mvals m = map snd m"

definition mhas :: "('k, 'v) gmap \<Rightarrow> 'k \<Rightarrow> bool" where
  "mhas m k = (mget m k \<noteq> None)"

definition wf_gmap :: "('k :: linorder, 'v) gmap \<Rightarrow> bool" where
  "wf_gmap m = sorted_wrt (<) (map fst m)"

text \<open>Building a map from a list of entries, a later entry winning over an earlier one.\<close>

definition mput_all :: "('k :: linorder \<times> 'v) list \<Rightarrow> ('k, 'v) gmap \<Rightarrow> ('k, 'v) gmap" where
  "mput_all es m = fold (\<lambda>(k, v) m. mput k v m) es m"

lemma set_keys_mput: "fst ` set (mput k v m) = insert k (fst ` set m)"
  by (induction k v m rule: mput.induct) auto

lemma wf_mput [simp]: "wf_gmap m \<Longrightarrow> wf_gmap (mput k v m)"
proof (induction k v m rule: mput.induct)
  case (1 k v)
  then show ?case by (simp add: wf_gmap_def)
next
  case (2 k v k' v' m)
  then show ?case using set_keys_mput [of k v m]
    by (auto simp: wf_gmap_def)
qed

lemma mget_mput: "mget (mput k v m) k' = (if k' = k then Some v else mget m k')"
  by (induction k v m rule: mput.induct) (auto simp: mget_def)

lemma mget_mdel: "mget (mdel k m) k' = (if k' = k then None else mget m k')"
  by (induction m) (auto simp: mget_def mdel_def)

lemma wf_mdel [simp]: "wf_gmap m \<Longrightarrow> wf_gmap (mdel k m)"
  by (induction m) (auto simp: wf_gmap_def mdel_def)

lemma mput_mput [simp]: "mput k v (mput k v' m) = mput k v m"
  by (induction k v' m rule: mput.induct) auto

lemma mget_mempty [simp]: "mget mempty k = None"
  by (simp add: mget_def mempty_def)

lemma wf_mempty [simp]: "wf_gmap mempty"
  by (simp add: wf_gmap_def mempty_def)

lemma set_mkeys: "set (mkeys m) = dom (mget m)"
  by (simp add: mkeys_def mget_def [abs_def] dom_map_of_conv_image_fst)

lemma wf_distinct: "wf_gmap m \<Longrightarrow> distinct (mkeys m)"
  by (simp add: wf_gmap_def mkeys_def strict_sorted_iff)

lemma wf_sorted: "wf_gmap m \<Longrightarrow> sorted (mkeys m)"
  by (simp add: wf_gmap_def mkeys_def strict_sorted_iff)

lemma wf_mput_all [simp]: "wf_gmap m \<Longrightarrow> wf_gmap (mput_all es m)"
  by (induction es arbitrary: m) (auto simp: mput_all_def)

lemma mget_mput_all:
  "mget (mput_all es m) k = (case map_of (rev es) k of None \<Rightarrow> mget m k | Some v \<Rightarrow> Some v)"
proof (induction es arbitrary: m)
  case Nil
  then show ?case by (simp add: mput_all_def)
next
  case (Cons e es)
  obtain k1 v1 where e: "e = (k1, v1)" by force
  have "mput_all (e # es) m = mput_all es (mput k1 v1 m)"
    by (simp add: mput_all_def e)
  with Cons show ?case
    by (auto simp: e mget_mput map_add_def split: option.splits)
qed

lemma mget_mput_all_distinct:
  "distinct (map fst kvs) \<Longrightarrow> (k, v) \<in> set kvs \<Longrightarrow> mget (mput_all kvs m) k = Some v"
  using map_of_is_SomeI [of "rev kvs" k v] by (simp add: mget_mput_all rev_map [symmetric])

lemma mget_in: "mget m k = Some v \<Longrightarrow> (k, v) \<in> set m"
  by (simp add: mget_def map_of_SomeD)

lemma in_mget: "wf_gmap m \<Longrightarrow> (k, v) \<in> set m \<Longrightarrow> mget m k = Some v"
  by (simp add: wf_gmap_def mget_def strict_sorted_iff)

lemma mput_id: "wf_gmap m \<Longrightarrow> mget m k = Some v \<Longrightarrow> mput k v m = m"
proof (induction m)
  case Nil
  then show ?case by (simp add: mget_def)
next
  case (Cons e m)
  obtain k1 v1 where e: "e = (k1, v1)" by force
  show ?case
  proof (cases "k = k1")
    case True
    with Cons show ?thesis by (simp add: e mget_def)
  next
    case False
    with Cons.prems have g: "mget m k = Some v" by (simp add: e mget_def)
    then have "k1 < k" using Cons.prems(1) mget_in [OF g]
      by (force simp: e wf_gmap_def)
    with Cons g False show ?thesis by (auto simp: e wf_gmap_def)
  qed
qed

text \<open>Two well-formed maps with the same lookups are the same list.\<close>

lemma entries_by_keys:
  "distinct (map fst a) \<Longrightarrow> a = map (\<lambda>k. (k, the (mget a k))) (map fst a)"
proof -
  assume d: "distinct (map fst a)"
  have "map (\<lambda>k. (k, the (mget a k))) (map fst a) = map (\<lambda>e. (fst e, the (mget a (fst e)))) a"
    by simp
  also have "\<dots> = map (\<lambda>e. e) a"
  proof (rule map_cong [OF refl])
    fix e
    assume "e \<in> set a"
    then have "map_of a (fst e) = Some (snd e)"
      using d by (intro map_of_is_SomeI) auto
    then show "(fst e, the (mget a (fst e))) = e" by (simp add: mget_def)
  qed
  finally show ?thesis by simp
qed

lemma gmap_eqI:
  assumes "wf_gmap a" and "wf_gmap b" and "\<And>k. mget a k = mget b k"
  shows "a = b"
proof -
  have eq: "mget a = mget b" by (rule ext) (rule assms(3))
  then have "set (map fst a) = set (map fst b)"
    using set_mkeys [of a] set_mkeys [of b] by (simp add: mkeys_def)
  then have k: "map fst a = map fst b"
    using assms(1,2) strict_sorted_equal unfolding wf_gmap_def by blast
  have "a = map (\<lambda>k. (k, the (mget a k))) (map fst a)"
    using entries_by_keys wf_distinct [OF assms(1)] by (simp add: mkeys_def)
  also have "\<dots> = map (\<lambda>k. (k, the (mget b k))) (map fst b)"
    by (simp only: k eq)
  also have "\<dots> = b"
    using entries_by_keys [of b] wf_distinct [OF assms(2)] by (simp add: mkeys_def)
  finally show ?thesis .
qed

section \<open>The interface\<close>

locale go_map =
  fixes empty :: 'm
    and lookup :: "'m \<Rightarrow> 'k \<Rightarrow> 'v option"
    and store :: "'k \<Rightarrow> 'v \<Rightarrow> 'm \<Rightarrow> 'm"
    and delete :: "'k \<Rightarrow> 'm \<Rightarrow> 'm"
    and keys :: "'m \<Rightarrow> 'k list"
    and invar :: "'m \<Rightarrow> bool"
  assumes lookup_empty: "lookup empty k = None"
    and lookup_store: "lookup (store k v m) k' = (if k' = k then Some v else lookup m k')"
    and lookup_delete: "lookup (delete k m) k' = (if k' = k then None else lookup m k')"
    and keys_dom: "set (keys m) = dom (lookup m)"
    and keys_distinct: "invar m \<Longrightarrow> distinct (keys m)"
    and invar_empty: "invar empty"
    and invar_store: "invar m \<Longrightarrow> invar (store k v m)"
    and invar_delete: "invar m \<Longrightarrow> invar (delete k m)"
begin

lemma keys_store: "set (keys (store k v m)) = insert k (set (keys m))"
  by (auto simp: keys_dom dom_def lookup_store)

lemma keys_delete: "set (keys (delete k m)) = set (keys m) - {k}"
  by (auto simp: keys_dom dom_def lookup_delete)

lemma keys_empty: "keys empty = []"
  using keys_dom [of empty] by (simp add: lookup_empty dom_def)

text \<open>The number of entries: what len reports after an insert and a delete.\<close>

lemma len_store:
  assumes "invar m"
  shows "length (keys (store k v m)) =
    (if lookup m k = None then Suc (length (keys m)) else length (keys m))"
proof -
  have "length (keys (store k v m)) = card (insert k (set (keys m)))"
    using distinct_card keys_distinct invar_store assms keys_store by metis
  also have "\<dots> = (if k \<in> set (keys m) then card (set (keys m)) else Suc (card (set (keys m))))"
    by (simp add: card_insert_if)
  finally show ?thesis
    using distinct_card [OF keys_distinct [OF assms]] by (auto simp: keys_dom)
qed

lemma len_delete:
  assumes "invar m"
  shows "length (keys (delete k m)) =
    (if lookup m k = None then length (keys m) else length (keys m) - 1)"
proof -
  have "length (keys (delete k m)) = card (set (keys m) - {k})"
    using distinct_card keys_distinct invar_delete assms keys_delete by metis
  then show ?thesis
    using distinct_card [OF keys_distinct [OF assms]] by (auto simp: keys_dom card_Diff_singleton_if)
qed

lemma lookup_store_delete: "lookup (store k v (delete k m)) = lookup (store k v m)"
  by (rule ext) (simp add: lookup_store lookup_delete)

end

interpretation gm: go_map mempty mget mput mdel mkeys wf_gmap
  by unfold_locales
    (simp_all add: mget_mput mget_mdel set_mkeys wf_distinct)

lemmas gmap_laws = mget_mput mget_mdel mget_mempty wf_mput wf_mdel wf_mempty

declare gmap_laws [gmap]

end
