(* ===== verification/Go_Runes.thy ===== *)
theory Go_Runes
  imports Go_Strings
begin

text \<open>
  Runes: the conversions []rune(s) and string(rs) of Go. Bytes that are no UTF-8 count as one rune
  each, the replacement character U+FFFD.
\<close>

definition in_bytes :: "int \<Rightarrow> int \<Rightarrow> int \<Rightarrow> bool" where
  "in_bytes lo hi b \<longleftrightarrow> lo \<le> b \<and> b \<le> hi"

text \<open>The bytes after the first that belong to the rune, and their values; the second byte has limits of its own.\<close>

definition second_limits :: "int \<Rightarrow> int \<times> int" where
  "second_limits b =
    (if b = 0xE0 then (0xA0, 0xBF) else if b = 0xED then (0x80, 0x9F)
     else if b = 0xF0 then (0x90, 0xBF) else if b = 0xF4 then (0x80, 0x8F) else (0x80, 0xBF))"

text \<open>utf8.DecodeRune of a text that is not empty: the rune and its size.\<close>

definition decode_rune :: "string \<Rightarrow> int \<times> nat" where
  "decode_rune s =
    (let (lo, hi) = (case s of [] \<Rightarrow> (0, 0) | c # _ \<Rightarrow> second_limits (of_char c))
     in case map of_char (take 4 s) of
       b # rest \<Rightarrow>
         if b < 0x80 then (b, 1)
         else if in_bytes 0xC2 0xDF b then
           (case rest of c # _ \<Rightarrow> if in_bytes lo hi c then ((b - 0xC0) * 64 + (c - 0x80), 2) else (65533, 1) | _ \<Rightarrow> (65533, 1))
         else if in_bytes 0xE0 0xEF b then
           (case rest of
              c # d # _ \<Rightarrow>
                if in_bytes lo hi c \<and> in_bytes 0x80 0xBF d
                then ((b - 0xE0) * 4096 + (c - 0x80) * 64 + (d - 0x80), 3) else (65533, 1)
            | _ \<Rightarrow> (65533, 1))
         else if in_bytes 0xF0 0xF4 b then
           (case rest of
              [c, d, e] \<Rightarrow>
                if in_bytes lo hi c \<and> in_bytes 0x80 0xBF d \<and> in_bytes 0x80 0xBF e
                then ((b - 0xF0) * 262144 + (c - 0x80) * 4096 + (d - 0x80) * 64 + (e - 0x80), 4) else (65533, 1)
            | _ \<Rightarrow> (65533, 1))
         else (65533, 1)
     | [] \<Rightarrow> (65533, 1))"

function runes :: "string \<Rightarrow> int list" where
  "runes [] = []"
| "runes (c # s) = (case decode_rune (c # s) of (r, n) \<Rightarrow> r # runes (drop (n - 1) s))"
  by pat_completeness auto
termination
  by (relation "measure length") auto

text \<open>utf8.EncodeRune of what DecodeRune gives.\<close>

definition rune_text :: "int \<Rightarrow> string" where
  "rune_text r =
    (if r < 0x80 then [char_of r]
     else if r < 0x800 then [char_of (0xC0 + r div 64), char_of (0x80 + r mod 64)]
     else if r < 0x10000 then [char_of (0xE0 + r div 4096), char_of (0x80 + r div 64 mod 64), char_of (0x80 + r mod 64)]
     else [char_of (0xF0 + r div 262144), char_of (0x80 + r div 4096 mod 64), char_of (0x80 + r div 64 mod 64), char_of (0x80 + r mod 64)])"

definition of_runes :: "int list \<Rightarrow> string" where
  "of_runes rs = concat (map rune_text rs)"

text \<open>unicode/utf8.ValidString: no byte is decoded as a replacement.\<close>

function valid_utf8 :: "string \<Rightarrow> bool" where
  "valid_utf8 [] = True"
| "valid_utf8 (c # s) =
    (case decode_rune (c # s) of (r, n) \<Rightarrow> \<not> (r = 65533 \<and> n = 1) \<and> valid_utf8 (drop (n - 1) s))"
  by pat_completeness auto
termination
  by (relation "measure length") auto

text \<open>A text with every byte that is no UTF-8 replaced, as encoding/json and conversions leave it.\<close>

definition to_valid :: "string \<Rightarrow> string" where
  "to_valid s = of_runes (runes s)"

lemma runes_length: "length (runes s) \<le> length s"
proof (induction s rule: runes.induct)
  case (2 c s)
  obtain r n where d: "decode_rune (c # s) = (r, n)" by (rule prod.exhaust)
  have "length (runes (drop (n - 1) s)) \<le> length s - (n - 1)" using 2 [OF d [symmetric]] by simp
  then show ?case by (simp add: d)
qed simp

lemma runes_ascii: "list_all (\<lambda>c. (of_char c :: int) < 128) s \<Longrightarrow> runes s = map of_char s"
  by (induction s) (simp_all add: decode_rune_def Let_def split: prod.split)

section \<open>Decoding and encoding\<close>

definition scalar :: "int \<Rightarrow> bool" where
  "scalar r \<longleftrightarrow> 0 \<le> r \<and> r < 0x110000 \<and> \<not> (0xD800 \<le> r \<and> r < 0xE000)"

lemma byte_range: "0 \<le> (of_char c :: int)" "(of_char c :: int) < 256"
proof -
  have "(of_char c :: int) = int (of_char c)" by (simp add: of_nat_of_char)
  then show "0 \<le> (of_char c :: int)" "(of_char c :: int) < 256" using nat_of_char_less_256 [of c] by simp_all
qed

lemma split64: "r = x * 64 + y \<Longrightarrow> 0 \<le> y \<Longrightarrow> y < 64 \<Longrightarrow> r div 64 = x \<and> r mod 64 = (y :: int)"
  by simp

lemma div4096: "r div 4096 = r div 64 div (64 :: int)" "r div 262144 = r div 64 div 64 div (64 :: int)"
  using zdiv_zmult2_eq [of 64 r 64] zdiv_zmult2_eq [of 64 "r div 64" 64] zdiv_zmult2_eq [of 4096 r 64] by simp_all

lemma decode_cases:
  assumes "decode_rune (c # s) = (r, n)"
  obtains (bad) "r = 65533" "n = 1"
  | (ok) t where "c # s = rune_text r @ t" "n = length (rune_text r)" "scalar r"
proof -
  define b where "b = (of_char c :: int)"
  have c: "c = char_of b" by (simp add: b_def)
  have b: "0 \<le> b" "b < 256" using byte_range [of c] by (simp_all add: b_def)
  obtain lo hi where lim: "second_limits b = (lo, hi)" by force
  consider "b < 0x80" | "in_bytes 0xC2 0xDF b" | "in_bytes 0xE0 0xEF b" | "in_bytes 0xF0 0xF4 b"
    | "\<not> b < 0x80" "\<not> in_bytes 0xC2 0xDF b" "\<not> in_bytes 0xE0 0xEF b" "\<not> in_bytes 0xF0 0xF4 b" by blast
  then show thesis
  proof cases
    case 1
    then have "r = b" "n = 1" using assms b_def by (auto simp: decode_rune_def split: prod.splits)
    with 1 b show thesis by (intro ok [of s]) (simp_all add: rune_text_def c scalar_def)
  next
    case 2
    then have nb: "\<not> b < 0x80" by (simp add: in_bytes_def)
    show thesis
    proof (cases "\<exists>d t. s = d # t \<and> in_bytes lo hi (of_char d)")
      case False
      then have "r = 65533 \<and> n = 1" using assms 2 nb lim
        by (cases s) (auto simp: decode_rune_def b_def [symmetric] split: if_splits)
      then show thesis using bad by blast
    next
      case True
      then obtain d t where s: "s = d # t" "in_bytes lo hi (of_char d)" by blast
      define y where "y = (of_char d :: int) - 0x80"
      define x where "x = b - 0xC0"
      have lo: "lo = 0x80" "hi = 0xBF" using lim 2 by (auto simp: second_limits_def in_bytes_def split: if_splits)
      have y: "0 \<le> y" "y < 64" and x: "2 \<le> x" "x < 32" using s(2) 2 lo by (simp_all add: y_def x_def in_bytes_def)
      have r: "r = x * 64 + y" "n = 2" using assms 2 nb lim s
        by (auto simp: decode_rune_def b_def [symmetric] x_def y_def split: if_splits)
      have d: "d = char_of (0x80 + y)" "c = char_of (0xC0 + x)" by (simp_all add: y_def x_def b_def)
      have rt: "rune_text r = [c, d]" using x y by (simp add: rune_text_def r(1) d)
      show thesis using x y s r(2) rt by (intro ok [of t]) (simp_all add: rt, simp add: r(1) scalar_def)
    qed
  next
    case 3
    then have nb: "\<not> b < 0x80" "\<not> in_bytes 0xC2 0xDF b" by (simp_all add: in_bytes_def)
    show thesis
    proof (cases "\<exists>d e t. s = d # e # t \<and> in_bytes lo hi (of_char d) \<and> in_bytes 0x80 0xBF (of_char e)")
      case False
      then have "r = 65533 \<and> n = 1" using assms 3 nb lim
        by (cases s; cases "tl s") (auto simp: decode_rune_def b_def [symmetric] split: if_splits)
      then show thesis using bad by blast
    next
      case True
      then obtain d e t where s: "s = d # e # t" "in_bytes lo hi (of_char d)" "in_bytes 0x80 0xBF (of_char e)" by blast
      define x where "x = b - 0xE0"
      define y where "y = (of_char d :: int) - 0x80"
      define z where "z = (of_char e :: int) - 0x80"
      have z: "0 \<le> z" "z < 64" and x: "0 \<le> x" "x < 16" using s(3) 3 by (simp_all add: z_def x_def in_bytes_def)
      have y: "0 \<le> y" "y < 64" "x = 0 \<longrightarrow> 32 \<le> y" "x = 13 \<longrightarrow> y < 32" using s(2) lim 3
        by (auto simp: y_def x_def in_bytes_def second_limits_def split: if_splits)
      have r: "r = (x * 64 + y) * 64 + z" "n = 3" using assms 3 nb lim s
        by (auto simp: decode_rune_def b_def [symmetric] x_def y_def z_def algebra_simps split: if_splits)
      have q: "r mod 64 = z" "r div 64 = x * 64 + y" "r div 64 mod 64 = y" "r div 4096 = x"
        using split64 [OF r(1)] split64 [of "r div 64" x y] z y by (simp_all add: div4096)
      have d: "e = char_of (0x80 + z)" "d = char_of (0x80 + y)" "c = char_of (0xE0 + x)" by (simp_all add: y_def x_def z_def b_def)
      have rl: "r = 4096 * x + 64 * y + z" using r(1) by simp
      have small: "r < 0x10000" using x y(2) z rl by linarith
      have large: "0x800 \<le> r"
      proof (cases "x = 0")
        case True
        then show ?thesis using y(3) z rl by linarith
      next
        case False
        then have "1 \<le> x" using x by linarith
        then show ?thesis using y z rl by linarith
      qed
      have "\<not> (0xD800 \<le> r \<and> r < 0xE000)"
      proof (cases "x = 13")
        case True
        then show ?thesis using y(4) z rl by linarith
      next
        case False
        then consider "x \<le> 12" | "14 \<le> x" by linarith
        then show ?thesis using y(1,2) z rl by cases linarith+
      qed
      note big = large small this
      have rt: "rune_text r = [c, d, e]" using big q by (simp add: rune_text_def d)
      show thesis using s r(2) rt big by (intro ok [of t]) (simp_all add: rt scalar_def)
    qed
  next
    case 4
    then have nb: "\<not> b < 0x80" "\<not> in_bytes 0xC2 0xDF b" "\<not> in_bytes 0xE0 0xEF b" by (simp_all add: in_bytes_def)
    show thesis
    proof (cases "\<exists>d e f t. s = d # e # f # t \<and> in_bytes lo hi (of_char d) \<and> in_bytes 0x80 0xBF (of_char e) \<and> in_bytes 0x80 0xBF (of_char f)")
      case False
      then have "r = 65533 \<and> n = 1" using assms 4 nb lim
        by (cases s; cases "tl s"; cases "tl (tl s)") (auto simp: decode_rune_def b_def [symmetric] split: if_splits)
      then show thesis using bad by blast
    next
      case True
      then obtain d e f t where s: "s = d # e # f # t" "in_bytes lo hi (of_char d)" "in_bytes 0x80 0xBF (of_char e)"
        "in_bytes 0x80 0xBF (of_char f)" by blast
      define x where "x = b - 0xF0"
      define y where "y = (of_char d :: int) - 0x80"
      define z where "z = (of_char e :: int) - 0x80"
      define u where "u = (of_char f :: int) - 0x80"
      have z: "0 \<le> z" "z < 64" "0 \<le> u" "u < 64" and x: "0 \<le> x" "x < 5"
        using s(3,4) 4 by (simp_all add: z_def u_def x_def in_bytes_def)
      have y: "0 \<le> y" "y < 64" "x = 0 \<longrightarrow> 16 \<le> y" "x = 4 \<longrightarrow> y < 16" using s(2) lim 4
        by (auto simp: y_def x_def in_bytes_def second_limits_def split: if_splits)
      have r: "r = ((x * 64 + y) * 64 + z) * 64 + u" "n = 4" using assms 4 nb lim s
        by (auto simp: decode_rune_def b_def [symmetric] x_def y_def z_def u_def algebra_simps split: if_splits)
      have q: "r mod 64 = u" "r div 64 = (x * 64 + y) * 64 + z" "r div 64 mod 64 = z" "r div 4096 = x * 64 + y"
        "r div 4096 mod 64 = y" "r div 262144 = x"
        using split64 [OF r(1)] split64 [of "r div 64" "x * 64 + y" z] split64 [of "r div 64 div 64" x y] z y
        by (simp_all add: div4096)
      have d: "f = char_of (0x80 + u)" "e = char_of (0x80 + z)" "d = char_of (0x80 + y)" "c = char_of (0xF0 + x)"
        by (simp_all add: y_def x_def z_def u_def b_def)
      have rl: "r = 262144 * x + 4096 * y + 64 * z + u" using r(1) by simp
      have large: "0x10000 \<le> r"
      proof (cases "x = 0")
        case True
        then show ?thesis using y(3) z rl by linarith
      next
        case False
        then have "1 \<le> x" using x by linarith
        then show ?thesis using y z rl by linarith
      qed
      have "r < 0x110000"
      proof (cases "x = 4")
        case True
        then show ?thesis using y(4) z rl by linarith
      next
        case False
        then have "x \<le> 3" using x by linarith
        then show ?thesis using y(2) z rl by linarith
      qed
      note big = large this
      have rt: "rune_text r = [c, d, e, f]" using big q by (simp add: rune_text_def d)
      show thesis using s r(2) rt big by (intro ok [of t]) (simp_all add: rt scalar_def)
    qed
  next
    case 5
    then have "r = 65533 \<and> n = 1" using assms lim
      by (auto simp: decode_rune_def b_def [symmetric] split: if_splits)
    then show thesis using bad by blast
  qed
qed

lemma rune_text_some [simp]: "rune_text r \<noteq> []"
  by (simp add: rune_text_def)

lemma byte_of: "0 \<le> n \<Longrightarrow> n < 256 \<Longrightarrow> (of_char (char_of n) :: int) = n"
  by (simp add: of_char_of)

lemma decode_rune_text:
  assumes "scalar r"
  shows "decode_rune (rune_text r @ t) = (r, length (rune_text r))"
proof -
  have r: "0 \<le> r" "r < 0x110000" "\<not> (0xD800 \<le> r \<and> r < 0xE000)" using assms by (simp_all add: scalar_def)
  define z where "z = r mod 64"
  define y where "y = r div 64 mod 64"
  define x where "x = r div 4096"
  have z: "0 \<le> z" "z < 64" and y: "0 \<le> y" "y < 64" by (simp_all add: z_def y_def)
  have q: "r = r div 64 * 64 + z" "r div 64 = x * 64 + y"
    by (simp_all add: z_def y_def x_def div4096)
  consider "r < 0x80" | "0x80 \<le> r" "r < 0x800" | "0x800 \<le> r" "r < 0x10000" | "0x10000 \<le> r" by linarith
  then show ?thesis
  proof cases
    case 1
    then show ?thesis using r by (simp add: rune_text_def decode_rune_def byte_of split: prod.split)
  next
    case 2
    have "2 \<le> r div 64" "r div 64 < 32" using 2 q z by linarith+
    then show ?thesis using 2 z q(1) [symmetric]
      by (simp add: rune_text_def decode_rune_def byte_of in_bytes_def second_limits_def z_def [symmetric] split: prod.split)
  next
    case 3
    have x: "0 \<le> x" "x < 16" using 3 y z q by linarith+
    have rl: "r = 4096 * x + 64 * y + z" using q by linarith
    have lo: "x = 0 \<Longrightarrow> 32 \<le> y" using 3 rl z by linarith
    have "x = 13 \<Longrightarrow> y < 32"
    proof -
      assume "x = 13"
      then have "r < 0xE000" using rl y z by linarith
      then have "r < 0xD800" using r(3) by linarith
      then show "y < 32" using rl z \<open>x = 13\<close> by linarith
    qed
    note hi = this
    obtain a b where lim: "second_limits (0xE0 + x) = (a, b)" by force
    have "in_bytes a b (0x80 + y)" using lim lo hi x y by (auto simp: second_limits_def in_bytes_def split: if_splits)
    moreover have "rune_text r = [char_of (0xE0 + x), char_of (0x80 + y), char_of (0x80 + z)]"
      using 3 by (simp add: rune_text_def x_def y_def z_def)
    moreover have "in_bytes 0x80 0xBF (0x80 + z)" "\<not> in_bytes 0xC2 0xDF (0xE0 + x)" "in_bytes 0xE0 0xEF (0xE0 + x)"
      using x z by (simp_all add: in_bytes_def)
    ultimately show ?thesis using lim x y z rl by (simp add: decode_rune_def byte_of)
  next
    case 4
    define v where "v = r div 262144"
    define u where "u = x mod 64"
    have u: "0 \<le> u" "u < 64" and xv: "x = v * 64 + u" by (simp_all add: u_def v_def x_def div4096)
    have rl: "r = 262144 * v + 4096 * u + 64 * y + z" using q xv by linarith
    have v: "0 \<le> v" "v < 5" using 4 r u y z rl by linarith+
    have e: "v = 0 \<Longrightarrow> 16 \<le> u" "v = 4 \<Longrightarrow> u < 16" using 4 r(2) rl y z by linarith+
    obtain a b where lim: "second_limits (0xF0 + v) = (a, b)" by force
    have "in_bytes a b (0x80 + u)" using lim e v u by (auto simp: second_limits_def in_bytes_def split: if_splits)
    moreover have "rune_text r = [char_of (0xF0 + v), char_of (0x80 + u), char_of (0x80 + y), char_of (0x80 + z)]"
      using 4 by (simp add: rune_text_def v_def u_def x_def y_def z_def)
    moreover have "in_bytes 0x80 0xBF (0x80 + y)" "in_bytes 0x80 0xBF (0x80 + z)" "\<not> in_bytes 0xC2 0xDF (0xF0 + v)"
        "\<not> in_bytes 0xE0 0xEF (0xF0 + v)" "in_bytes 0xF0 0xF4 (0xF0 + v)"
      using v y z by (simp_all add: in_bytes_def)
    ultimately show ?thesis using lim v u y z rl by (simp add: decode_rune_def byte_of)
  qed
qed

lemma drop_rune: "c # s = rune_text r @ t \<Longrightarrow> drop (length (rune_text r) - 1) s = t"
  by (cases "rune_text r") auto

lemma rune_step:
  assumes "scalar r"
  shows "runes (rune_text r @ t) = r # runes t" "valid_utf8 (rune_text r @ t) = valid_utf8 t"
proof -
  obtain c s where cs: "rune_text r @ t = c # s" by (cases "rune_text r") auto
  have d: "decode_rune (c # s) = (r, length (rune_text r))" using decode_rune_text [OF assms, of t] by (simp add: cs)
  note t = drop_rune [OF cs [symmetric]]
  show "runes (rune_text r @ t) = r # runes t" by (simp only: cs runes.simps d prod.case t)
  have "\<not> (r = 65533 \<and> length (rune_text r) = 1)" by (auto simp: rune_text_def)
  then show "valid_utf8 (rune_text r @ t) = valid_utf8 t" by (simp only: cs valid_utf8.simps d prod.case t simp_thms)
qed

lemma runes_of_runes: "list_all scalar rs \<Longrightarrow> runes (of_runes rs) = rs \<and> valid_utf8 (of_runes rs)"
  by (induction rs) (simp_all add: of_runes_def rune_step)

lemma scalar_replacement: "scalar 65533"
  by (simp add: scalar_def)

text \<open>A text by its first rune, or its first byte if that is no UTF-8.\<close>

lemma rune_cases:
  obtains (Nil) "s = []"
  | (bad) c t where "s = c # t" "decode_rune s = (65533, 1)" "runes s = 65533 # runes t" "\<not> valid_utf8 s"
  | (ok) r t where "s = rune_text r @ t" "decode_rune s = (r, length (rune_text r))" "scalar r"
proof (cases s)
  case (Cons c t)
  obtain r n where d: "decode_rune (c # t) = (r, n)" by force
  then show ?thesis
  proof (cases rule: decode_cases)
    case bad
    then show ?thesis using that(2) [of c t] d Cons by simp
  next
    case (ok u)
    then show ?thesis using that(3) [of r u] d Cons by simp
  qed
qed (use that(1) in blast)

lemma runes_scalar: "list_all scalar (runes s)"
proof (induction "length s" arbitrary: s rule: less_induct)
  case less
  show ?case
  proof (cases s rule: rune_cases)
    case (bad c t)
    then show ?thesis using less [of t] by (simp add: scalar_replacement)
  next
    case (ok r t)
    then show ?thesis using less [of t] by (simp add: rune_step)
  qed simp
qed

lemma valid_same: "valid_utf8 s \<Longrightarrow> of_runes (runes s) = s"
proof (induction "length s" arbitrary: s rule: less_induct)
  case less
  show ?case
  proof (cases s rule: rune_cases)
    case (ok r t)
    then show ?thesis using less(1) [of t] less(2) by (simp add: rune_step of_runes_def)
  qed (use less(2) in \<open>simp_all add: of_runes_def\<close>)
qed

lemma to_valid: "valid_utf8 (to_valid s)" "valid_utf8 s \<Longrightarrow> to_valid s = s" "to_valid (to_valid s) = to_valid s"
  using runes_of_runes [OF runes_scalar, of s] valid_same [of s] by (simp_all add: to_valid_def)

lemma to_valid_Nil [simp]: "to_valid [] = []" "to_valid s = [] \<longleftrightarrow> s = []"
proof -
  have "runes s = [] \<longleftrightarrow> s = []" by (cases s) (auto split: prod.split)
  then show "to_valid [] = []" "to_valid s = [] \<longleftrightarrow> s = []" by (auto simp: to_valid_def of_runes_def)
qed

lemma valid_ascii: "list_all (\<lambda>c. (of_char c :: int) < 128) s \<Longrightarrow> valid_utf8 s"
  by (induction s) (auto simp: decode_rune_def Let_def split: prod.split)

lemma valid_append: "valid_utf8 s \<Longrightarrow> runes (s @ t) = runes s @ runes t \<and> valid_utf8 (s @ t) = valid_utf8 t"
proof (induction "length s" arbitrary: s rule: less_induct)
  case less
  show ?case
  proof (cases s rule: rune_cases)
    case (ok r u)
    then show ?thesis using less(1) [of u] less(2) by (simp add: rune_step)
  qed (use less(2) in simp_all)
qed

lemma rune_examples:
  "runes [CHR ''a'', CHR 0xC3, CHR 0xA4, CHR 0xE2, CHR 0x82, CHR 0xAC, CHR 0xF0, CHR 0x9F, CHR 0x98, CHR 0x80] = [97, 228, 8364, 128512]"
  "runes [CHR 0xC3, CHR ''a'', CHR 0xED, CHR 0xA0, CHR 0x80] = [65533, 97, 65533, 65533, 65533]"
  "of_runes [97, 228, 8364, 128512] =
     [CHR ''a'', CHR 0xC3, CHR 0xA4, CHR 0xE2, CHR 0x82, CHR 0xAC, CHR 0xF0, CHR 0x9F, CHR 0x98, CHR 0x80]"
  by code_simp+

end
