(* ===== verification/Go_Float.thy ===== *)
theory Go_Float
  imports Complex_Main Go_Strings
begin

text \<open>
  float64 as the program uses it (scores and confidences between 0 and a few hundred): a float is
  the rational it stands for, and every operation rounds its exact result to 53 significant bits,
  ties to even, as IEEE 754 hardware without fused multiply-add does. Infinities, NaN, the sign of
  zero and subnormal numbers do not occur in these computations and are left out.
\<close>

function bit_length :: "int \<Rightarrow> int" where
  "bit_length n = (if n \<le> 0 then 0 else bit_length (n div 2) + 1)"
  by pat_completeness auto
termination
  by (relation "measure nat") auto

declare bit_length.simps [simp del]

definition pow2 :: "int \<Rightarrow> rat" where
  "pow2 e = (if 0 \<le> e then 2 ^ nat e else 1 / 2 ^ nat (- e))"

definition round_even :: "rat \<Rightarrow> int" where
  "round_even y =
    (let n = \<lfloor>y\<rfloor>; d = y - of_int n in
     if d < 1 / 2 then n else if 1 / 2 < d then n + 1 else if even n then n else n + 1)"

text \<open>The exponent \<open>e\<close> with \<open>2 ^ e \<le> x < 2 ^ (e + 1)\<close>, for positive \<open>x\<close>.\<close>

definition float_exp :: "rat \<Rightarrow> int" where
  "float_exp x =
    (let (a, b) = quotient_of x;
         e = bit_length a - bit_length b
     in if pow2 e \<le> x then e else e - 1)"

definition fl :: "rat \<Rightarrow> rat" where
  "fl x =
    (if x = 0 then 0
     else (let p = pow2 (52 - float_exp \<bar>x\<bar>); m = of_int (round_even (\<bar>x\<bar> * p)) / p
           in if x < 0 then - m else m))"

definition fadd :: "rat \<Rightarrow> rat \<Rightarrow> rat" where "fadd a b = fl (a + b)"
definition fsub :: "rat \<Rightarrow> rat \<Rightarrow> rat" where "fsub a b = fl (a - b)"
definition fmul :: "rat \<Rightarrow> rat \<Rightarrow> rat" where "fmul a b = fl (a * b)"
definition fdiv :: "rat \<Rightarrow> rat \<Rightarrow> rat" where "fdiv a b = fl (a / b)"

text \<open>The verb %.2f, for numbers that are not negative.\<close>

definition fmt2 :: "rat \<Rightarrow> string" where
  "fmt2 x =
    (let n = round_even (x * 100) in
     itoa (n div 100) @ ''.'' @ itoa (n mod 100 div 10) @ itoa (n mod 10))"

lemma fl_examples:
  "fl (1 / 10) = 3602879701896397 / 36028797018963968"
  "fl 3 = 3" "fmt2 (fl (1 / 8)) = ''0.12''" "fmt2 (fl (2 / 3)) = ''0.67''"
  by code_simp+

end
