(* ===== verification/Go_Number.thy ===== *)
theory Go_Number
  imports Go_Float
begin

text \<open>
  Numbers of JSON texts: the float64 a literal is rounded to (strconv.ParseFloat), its shortest decimal
  (strconv.FormatFloat with precision -1) and the text that encoding/json writes for it. A float64 is the
  rational it stands for; NaN and the infinities do not occur in JSON, and the sign of zero is kept in texts only.
\<close>

section \<open>Literals\<close>

definition ten_to :: "int \<Rightarrow> rat" where
  "ten_to e = (if 0 \<le> e then 10 ^ nat e else 1 / 10 ^ nat (- e))"

text \<open>The number a JSON literal denotes.\<close>

definition literal_value :: "string \<Rightarrow> rat" where
  "literal_value s =
    (let neg = prefix ''-'' s; s = (if neg then drop 1 s else s);
         ip = takeWhile is_digit_char s; s = dropWhile is_digit_char s;
         fp = (if prefix ''.'' s then takeWhile is_digit_char (drop 1 s) else []);
         s = (if prefix ''.'' s then dropWhile is_digit_char (drop 1 s) else s);
         ex = drop 1 s; eneg = prefix ''-'' ex;
         ex = (if eneg \<or> prefix ''+'' ex then drop 1 ex else ex);
         e = (if eneg then - int (digits_val ex) else int (digits_val ex));
         x = of_nat (digits_val (ip @ fp)) * ten_to (e - int (length fp))
     in if neg then - x else x)"

section \<open>binary64\<close>

text \<open>
  Rounding to 53 bits, ties to even, and to multiples of 2^-1074 below 2^-1022; None when the result
  is too large.
\<close>

definition float64_of :: "rat \<Rightarrow> rat option" where
  "float64_of x =
    (if x = 0 then Some 0
     else
      (let p = pow2 (min 1074 (52 - float_exp \<bar>x\<bar>)); m = of_int (round_even (\<bar>x\<bar> * p)) / p
       in if m \<noteq> 0 \<and> 1024 \<le> float_exp m then None else Some (if x < 0 then - m else m)))"

text \<open>
  The position of the decimal point of a positive number: it is less than 10 ^ dp, and not less than a smaller
  power. No float64 is less than 10 ^ -400.
\<close>

fun leading_zeros :: "nat \<Rightarrow> rat \<Rightarrow> int" where
  "leading_zeros n x = (if 1 \<le> x * 10 then 0 else case n of 0 \<Rightarrow> 0 | Suc m \<Rightarrow> leading_zeros m (x * 10) + 1)"

declare leading_zeros.simps [simp del]

definition dec_point :: "rat \<Rightarrow> int" where
  "dec_point x = (if 1 \<le> x then int (length (itoa \<lfloor>x\<rfloor>)) else - leading_zeros 400 x)"

text \<open>The nearest number of \<open>n\<close> digits among the two around x that are rounded to x.\<close>

definition decimal_of :: "rat \<Rightarrow> int \<Rightarrow> nat \<Rightarrow> int option" where
  "decimal_of x dp n =
    (let scale = ten_to (int n - dp); y = x * scale; lo = \<lfloor>y\<rfloor>;
         ok = (\<lambda>c. float64_of (of_int c / scale) = Some x)
     in if of_int lo = y then Some lo
        else if ok lo \<and> (y - of_int lo \<le> 1 / 2 \<or> \<not> ok (lo + 1)) then Some lo
        else if ok (lo + 1) then Some (lo + 1) else None)"

text \<open>The shortest one; seventeen digits always suffice for a float64.\<close>

fun shortest_from :: "nat \<Rightarrow> rat \<Rightarrow> int \<Rightarrow> nat \<Rightarrow> nat \<times> int" where
  "shortest_from left x dp n =
    (case decimal_of x dp n of
       Some c \<Rightarrow> (n, c)
     | None \<Rightarrow> (case left of 0 \<Rightarrow> (n, 0) | Suc left' \<Rightarrow> shortest_from left' x dp (n + 1)))"

declare shortest_from.simps [simp del]

definition shortest_digits :: "rat \<Rightarrow> string \<times> int" where
  "shortest_digits x =
    (let dp = dec_point x; (n, c) = shortest_from 16 x dp 1; ds = itoa c in
     (rev (dropWhile (\<lambda>d. d = CHR ''0'') (rev ds)), dp + int (length ds) - int n))"

section \<open>The text of a number\<close>

definition exponent_text :: "int \<Rightarrow> string" where
  "exponent_text e =
    (if e < 0 then ''e-'' @ itoa (- e) else ''e+'' @ (if e < 10 then ''0'' else []) @ itoa e)"

text \<open>The formats f and e of digits with the decimal point at \<open>dp\<close>.\<close>

definition fixed_text :: "string \<Rightarrow> int \<Rightarrow> string" where
  "fixed_text ds dp =
    (if dp \<le> 0 then ''0.'' @ replicate (nat (- dp)) (CHR ''0'') @ ds
     else if int (length ds) \<le> dp then ds @ replicate (nat dp - length ds) (CHR ''0'')
     else take (nat dp) ds @ ''.'' @ drop (nat dp) ds)"

definition exp_text :: "string \<Rightarrow> int \<Rightarrow> string" where
  "exp_text ds dp =
    take 1 ds @ (if drop 1 ds = [] then [] else ''.'' @ drop 1 ds) @ exponent_text (dp - 1)"

text \<open>
  The text encoding/json writes for the float64 that a literal is read as; None when the literal is out of
  range. An exponent is written without a leading zero when it is negative.
\<close>

definition canon_number :: "string \<Rightarrow> string option" where
  "canon_number s =
    (case float64_of (literal_value s) of
       None \<Rightarrow> None
     | Some x \<Rightarrow>
       Some ((if prefix ''-'' s then ''-'' else []) @
        (if x = 0 then ''0''
         else (case shortest_digits \<bar>x\<bar> of
             (ds, dp) \<Rightarrow> if \<bar>x\<bar> < ten_to (-6) \<or> ten_to 21 \<le> \<bar>x\<bar> then exp_text ds dp else fixed_text ds dp))))"

lemma number_examples:
  "map canon_number [''1.0'', ''12'', ''-0'', ''0.10'', ''1e3'', ''15e-1''] =
     [Some ''1'', Some ''12'', Some ''-0'', Some ''0.1'', Some ''1000'', Some ''1.5'']"
  "canon_number ''0.0000001'' = Some ''1e-7''"
  by code_simp+

end
