(* ===== verification/Go_Json.thy ===== *)
theory Go_Json
  imports Go_Map Go_Runes Go_Number
begin

text \<open>
  The part of Go's encoding/json that the program uses: json.Unmarshal into an any and
  json.Marshal of such a value. A decoded value is a \<open>json\<close>: an object is a Go map (its entries
  in key order, a repeated key keeping its last value); a string is its bytes, valid UTF-8 after
  decoding, which replaces what is not. A number is a float64, kept as the text that json.Marshal
  writes for it: a literal is brought into that form when it is read, and one that is out of range
  is an error (\<open>canon_number\<close>). Decoding is a recursive descent over the bytes with Go's nesting
  limit of 10000; the checks that a call's rest is shorter make the recursion well-founded and never
  fail (\<open>p_reader_shorter\<close>).
\<close>

datatype json =
    JNull
  | JBool bool
  | JNum string
  | JStr string
  | JArr "json list"
  | JObj "(string \<times> json) list"

section \<open>Encoding\<close>

definition hex_digit :: "nat \<Rightarrow> char" where
  "hex_digit n = (if n < 10 then char_of (48 + n) else char_of (87 + n))"

definition u_escape :: "nat \<Rightarrow> string" where
  "u_escape n = [CHR 0x5C, CHR ''u'', hex_digit (n div 4096 mod 16), hex_digit (n div 256 mod 16),
     hex_digit (n div 16 mod 16), hex_digit (n mod 16)]"

definition enc_char :: "char \<Rightarrow> string" where
  "enc_char c = (let n = of_char c :: nat in
     if c = CHR 0x22 then [CHR 0x5C, CHR 0x22]
     else if c = CHR 0x5C then [CHR 0x5C, CHR 0x5C]
     else if c = CHR 0x08 then [CHR 0x5C, CHR ''b'']
     else if c = CHR 0x0C then [CHR 0x5C, CHR ''f'']
     else if c = CHR 0x0A then [CHR 0x5C, CHR ''n'']
     else if c = CHR 0x0D then [CHR 0x5C, CHR ''r'']
     else if c = CHR 0x09 then [CHR 0x5C, CHR ''t'']
     else if n < 32 \<or> c = CHR ''<'' \<or> c = CHR ''>'' \<or> c = CHR ''&'' then u_escape n
     else [c])"

text \<open>
  U+2028 and U+2029 are escaped too (they are line ends for JavaScript), and a byte that is no UTF-8 is
  written as the escape of the replacement character.
\<close>

definition enc_rune :: "int \<Rightarrow> nat \<Rightarrow> string" where
  "enc_rune r n = (if r = 65533 \<and> n = 1 \<or> r = 8232 \<or> r = 8233 then u_escape (nat r) else rune_text r)"

function enc_chars :: "string \<Rightarrow> string" where
  "enc_chars [] = []"
| "enc_chars (c # s) =
    (if (of_char c :: int) < 128 then enc_char c @ enc_chars s
     else (case decode_rune (c # s) of (r, n) \<Rightarrow> enc_rune r n @ enc_chars (drop (n - 1) s)))"
  by pat_completeness auto
termination
  by (relation "measure length") auto

definition enc_string :: "string \<Rightarrow> string" where
  "enc_string s = CHR 0x22 # enc_chars s @ [CHR 0x22]"

fun marshal :: "json \<Rightarrow> string" where
  "marshal JNull = ''null''"
| "marshal (JBool b) = (if b then ''true'' else ''false'')"
| "marshal (JNum s) = s"
| "marshal (JStr s) = enc_string s"
| "marshal (JArr vs) = ''['' @ join_with '','' (map marshal vs) @ '']''"
| "marshal (JObj es) =
     [CHR 0x7B] @ join_with '','' (map (\<lambda>(k, v). enc_string k @ '':'' @ marshal v) es) @ [CHR 0x7D]"

section \<open>Decoding\<close>

definition is_json_ws :: "char \<Rightarrow> bool" where
  "is_json_ws c = (c = CHR 0x20 \<or> c = CHR 0x09 \<or> c = CHR 0x0A \<or> c = CHR 0x0D)"

fun skip_ws :: "string \<Rightarrow> string" where
  "skip_ws [] = []"
| "skip_ws (c # s) = (if is_json_ws c then skip_ws s else c # s)"

definition hex_val :: "char \<Rightarrow> nat option" where
  "hex_val c = (let n = of_char c :: nat in
     if 48 \<le> n \<and> n \<le> 57 then Some (n - 48)
     else if 97 \<le> n \<and> n \<le> 102 then Some (n - 87)
     else if 65 \<le> n \<and> n \<le> 70 then Some (n - 55) else None)"

fun hex4 :: "string \<Rightarrow> (nat \<times> string) option" where
  "hex4 (a # b # c # d # s) =
    (case (hex_val a, hex_val b, hex_val c, hex_val d) of
       (Some w, Some x, Some y, Some z) \<Rightarrow> Some (((w * 16 + x) * 16 + y) * 16 + z, s)
     | _ \<Rightarrow> None)"
| "hex4 _ = None"

definition utf8 :: "nat \<Rightarrow> string" where
  "utf8 n =
    (if n < 128 then [char_of n]
     else if n < 2048 then [char_of (192 + n div 64), char_of (128 + n mod 64)]
     else if n < 65536 then
       [char_of (224 + n div 4096), char_of (128 + n div 64 mod 64), char_of (128 + n mod 64)]
     else [char_of (240 + n div 262144), char_of (128 + n div 4096 mod 64),
       char_of (128 + n div 64 mod 64), char_of (128 + n mod 64)])"

definition simple_escape :: "char \<Rightarrow> char option" where
  "simple_escape c =
    (if c = CHR 0x22 \<or> c = CHR 0x5C \<or> c = CHR ''/'' then Some c
     else if c = CHR ''b'' then Some CHR 0x08
     else if c = CHR ''f'' then Some CHR 0x0C
     else if c = CHR ''n'' then Some CHR 0x0A
     else if c = CHR ''r'' then Some CHR 0x0D
     else if c = CHR ''t'' then Some CHR 0x09 else None)"

text \<open>A surrogate pair written as two escapes is one code point; a lone surrogate is U+FFFD.\<close>

fun low_surrogate :: "string \<Rightarrow> (nat \<times> string) option" where
  "low_surrogate (b # u # s) =
    (if b = CHR 0x5C \<and> u = CHR ''u'' then
       (case hex4 s of Some (m, r) \<Rightarrow> if 56320 \<le> m \<and> m < 57344 then Some (m, r) else None
        | None \<Rightarrow> None)
     else None)"
| "low_surrogate _ = None"

definition u_code :: "nat \<Rightarrow> string \<Rightarrow> string \<times> string" where
  "u_code n r =
    (if 55296 \<le> n \<and> n < 56320 then
       (case low_surrogate r of
          Some (m, r') \<Rightarrow> (utf8 ((n - 55296) * 1024 + (m - 56320) + 65536), r')
        | None \<Rightarrow> (utf8 65533, r))
     else if 56320 \<le> n \<and> n < 57344 then (utf8 65533, r)
     else (utf8 n, r))"

text \<open>The body of a string, after its opening quote: its value and the text after the closing one.\<close>

function p_string :: "string \<Rightarrow> (string \<times> string) option" where
  "p_string s =
    (case s of [] \<Rightarrow> None
     | c # r \<Rightarrow>
       if c = CHR 0x22 then Some ([], r)
       else if (of_char c :: nat) < 32 then None
       else if c = CHR 0x5C then
         (case r of [] \<Rightarrow> None
          | e # r2 \<Rightarrow>
            if e = CHR ''u'' then
              (case hex4 r2 of None \<Rightarrow> None
               | Some (n, r3) \<Rightarrow>
                  let (bytes, r4) = u_code n r3 in
                  if length r4 < length s
                  then map_option (\<lambda>(v, r5). (bytes @ v, r5)) (p_string r4) else None)
            else (case simple_escape e of None \<Rightarrow> None
                  | Some b \<Rightarrow> map_option (\<lambda>(v, r5). (b # v, r5)) (p_string r2)))
       else if (of_char c :: int) < 128 then map_option (\<lambda>(v, r5). (c # v, r5)) (p_string r)
       else (case decode_rune s of
           (u, n) \<Rightarrow> map_option (\<lambda>(v, r5). (rune_text u @ v, r5)) (p_string (drop (n - 1) r))))"
  by pat_completeness auto
termination
  by (relation "measure length") auto

declare p_string.simps [simp del]

fun take_digits :: "string \<Rightarrow> string \<times> string" where
  "take_digits [] = ([], [])"
| "take_digits (c # s) =
    (if is_digit_char c then (let (d, r) = take_digits s in (c # d, r)) else ([], c # s))"

definition p_int_part :: "string \<Rightarrow> (string \<times> string) option" where
  "p_int_part s =
    (case s of [] \<Rightarrow> None
     | c # r \<Rightarrow> if c = CHR ''0'' then Some ([c], r)
         else if is_digit_char c then Some (take_digits s) else None)"

definition p_frac_part :: "string \<Rightarrow> (string \<times> string) option" where
  "p_frac_part s =
    (case s of
       c # r \<Rightarrow> if c = CHR ''.'' then
           (let (d, r') = take_digits r in if d = [] then None else Some (c # d, r'))
         else Some ([], s)
     | [] \<Rightarrow> Some ([], []))"

definition p_sign :: "string \<Rightarrow> string \<times> string" where
  "p_sign s = (case s of g # r \<Rightarrow> if g = CHR ''+'' \<or> g = CHR ''-'' then ([g], r) else ([], s)
               | [] \<Rightarrow> ([], []))"

definition p_exp_part :: "string \<Rightarrow> (string \<times> string) option" where
  "p_exp_part s =
    (case s of
       c # r \<Rightarrow> if c = CHR ''e'' \<or> c = CHR ''E'' then
           (let (sg, r1) = p_sign r; (d, r') = take_digits r1
            in if d = [] then None else Some (c # sg @ d, r'))
         else Some ([], s)
     | [] \<Rightarrow> Some ([], []))"

definition p_unsigned :: "string \<Rightarrow> (string \<times> string) option" where
  "p_unsigned s =
    (case p_int_part s of None \<Rightarrow> None
     | Some (i, s2) \<Rightarrow>
       (case p_frac_part s2 of None \<Rightarrow> None
        | Some (f, s3) \<Rightarrow>
          (case p_exp_part s3 of None \<Rightarrow> None
           | Some (e, s4) \<Rightarrow> Some (i @ f @ e, s4))))"

definition p_number :: "string \<Rightarrow> (string \<times> string) option" where
  "p_number s =
    (case s of c # r \<Rightarrow> if c = CHR ''-'' then map_option (\<lambda>(n, r'). (c # n, r')) (p_unsigned r)
                     else p_unsigned s
     | [] \<Rightarrow> None)"

definition p_literal :: "string \<Rightarrow> (json \<times> string) option" where
  "p_literal s =
    (if prefix ''true'' s then Some (JBool True, drop 4 s)
     else if prefix ''false'' s then Some (JBool False, drop 5 s)
     else if prefix ''null'' s then Some (JNull, drop 4 s)
     else (case p_number s of None \<Rightarrow> None
           | Some (n, r) \<Rightarrow> map_option (\<lambda>t. (JNum t, r)) (canon_number n)))"

text \<open>\<open>d\<close> is the number of further nested containers allowed.\<close>

function p_value :: "int \<Rightarrow> string \<Rightarrow> (json \<times> string) option"
  and p_elems :: "int \<Rightarrow> string \<Rightarrow> (json list \<times> string) option"
  and p_members :: "int \<Rightarrow> string \<Rightarrow> ((string \<times> json) list \<times> string) option" where
  "p_value d s =
    (case skip_ws s of [] \<Rightarrow> None
     | c # r \<Rightarrow>
       if c = CHR ''['' then
         (if d \<le> 0 \<or> \<not> length r < length s then None
          else if prefix '']'' (skip_ws r) then Some (JArr [], drop 1 (skip_ws r))
          else map_option (\<lambda>(vs, r'). (JArr vs, r')) (p_elems (d - 1) r))
       else if c = CHR 0x7B then
         (if d \<le> 0 \<or> \<not> length r < length s then None
          else if prefix [CHR 0x7D] (skip_ws r) then Some (JObj [], drop 1 (skip_ws r))
          else map_option (\<lambda>(es, r'). (JObj (mput_all es mempty), r')) (p_members (d - 1) r))
       else if c = CHR 0x22 then map_option (\<lambda>(v, r'). (JStr v, r')) (p_string r)
       else p_literal (c # r))"
| "p_elems d s =
    (case p_value d s of None \<Rightarrow> None
     | Some (v, r) \<Rightarrow>
       (case skip_ws r of [] \<Rightarrow> None
        | c # r' \<Rightarrow>
          if c = CHR '']'' then Some ([v], r')
          else if c = CHR '','' \<and> length r' < length s then
            map_option (\<lambda>(vs, r'). (v # vs, r')) (p_elems d r')
          else None))"
| "p_members d s =
    (case skip_ws s of [] \<Rightarrow> None
     | q # s1 \<Rightarrow>
       if q \<noteq> CHR 0x22 then None
       else (case p_string s1 of None \<Rightarrow> None
        | Some (k, s2) \<Rightarrow>
          (case skip_ws s2 of [] \<Rightarrow> None
           | e # s3 \<Rightarrow>
             if e \<noteq> CHR '':'' \<or> \<not> length s3 < length s then None
             else (case p_value d s3 of None \<Rightarrow> None
              | Some (v, r) \<Rightarrow>
                (case skip_ws r of [] \<Rightarrow> None
                 | c # r' \<Rightarrow>
                   if c = CHR 0x7D then Some ([(k, v)], r')
                   else if c = CHR '','' \<and> length r' < length s then
                     map_option (\<lambda>(es, r'). ((k, v) # es, r')) (p_members d r')
                   else None)))))"
  by pat_completeness auto
termination
  by (relation "measure (\<lambda>x. case x of Inl (d, s) \<Rightarrow> 2 * length s
        | Inr (Inl (d, s)) \<Rightarrow> 2 * length s + 1 | Inr (Inr (d, s)) \<Rightarrow> 2 * length s + 1)") auto

declare p_value.simps [simp del] p_elems.simps [simp del] p_members.simps [simp del]

definition unmarshal :: "string \<Rightarrow> json option" where
  "unmarshal s =
    (case p_value 10000 s of None \<Rightarrow> None
     | Some (v, r) \<Rightarrow> if skip_ws r = [] then Some v else None)"

text \<open>Reading a field of an object (Go's comma-ok map read followed by a type assertion).\<close>

fun as_object :: "json \<Rightarrow> (string, json) gmap option" where
  "as_object (JObj es) = Some es"
| "as_object _ = None"

fun as_string :: "json \<Rightarrow> string option" where
  "as_string (JStr s) = Some s"
| "as_string _ = None"

section \<open>Reading back what was written\<close>

lemma hex_val_digit: "n < 16 \<Longrightarrow> hex_val (hex_digit n) = Some n"
  by (simp add: hex_val_def hex_digit_def Let_def of_char_of)

lemma hex4_u_escape:
  assumes "n < 65536"
  shows "hex4 (drop 2 (u_escape n) @ s) = Some (n, s)"
proof -
  have "4096 * (n div 4096) + 256 * (n div 256 mod 16) + n div 16 mod 16 * 16 + n mod 16 = n"
  proof -
    have "n div 4096 mod 16 = n div 4096" using assms by simp
    moreover have "n div 256 div 16 = n div 4096" "n div 16 div 16 = n div 256"
      by (simp_all add: div_mult2_eq [symmetric])
    ultimately show ?thesis
      using div_mult_mod_eq [of "n div 256" 16] div_mult_mod_eq [of "n div 16" 16]
        div_mult_mod_eq [of n 16] by linarith
  qed
  moreover have "n div 4096 mod 16 = n div 4096" "n div 4096 < 16" using assms by simp_all
  ultimately show ?thesis by (simp only: u_escape_def) (simp add: hex_val_digit)
qed

lemma p_string_plain:
  "c \<noteq> CHR 0x22 \<Longrightarrow> c \<noteq> CHR 0x5C \<Longrightarrow> 32 \<le> (of_char c :: nat) \<Longrightarrow> (of_char c :: int) < 128 \<Longrightarrow>
   p_string (c # r) = map_option (\<lambda>(v, r5). (c # v, r5)) (p_string r)"
  by (simp add: p_string.simps [of "c # r"])

lemma p_string_simple:
  "simple_escape e = Some b \<Longrightarrow>
   p_string (CHR 0x5C # e # r) = map_option (\<lambda>(v, r5). (b # v, r5)) (p_string r)"
  by (auto simp: p_string.simps [of "CHR 0x5C # e # r"] simple_escape_def)

lemma p_string_u:
  assumes "n < 55296 \<or> 57344 \<le> n \<and> n < 65536"
  shows "p_string (u_escape n @ r) = map_option (\<lambda>(v, r5). (utf8 n @ v, r5)) (p_string r)"
proof -
  have "hex4 (drop 2 (u_escape n) @ r) = Some (n, r)" using assms by (intro hex4_u_escape) auto
  moreover have "u_code n r = (utf8 n, r)" using assms by (auto simp: u_code_def)
  ultimately show ?thesis
    by (simp add: p_string.simps [of "u_escape n @ r"]) (simp add: u_escape_def)
qed

lemma u_escape_split: "u_escape n = CHR 0x5C # CHR ''u'' # drop 2 (u_escape n)"
  by (simp add: u_escape_def)

lemma char_of_int: "char_of (numeral k :: int) = char_of (numeral k :: nat)"
  using char_of_nat [of "numeral k :: nat", where ?'a = int] by simp

lemma utf8_line_seps: "utf8 8232 = rune_text 8232" "utf8 8233 = rune_text 8233" "utf8 65533 = rune_text 65533"
  by (simp_all add: utf8_def rune_text_def char_of_int)

lemma small_byte: "(of_char c :: int) < n \<longleftrightarrow> int (of_char c) < n"
  by (simp add: of_nat_of_char)

lemma p_string_enc_char:
  assumes "(of_char c :: int) < 128"
  shows "p_string (enc_char c @ r) = map_option (\<lambda>(v, r5). (c # v, r5)) (p_string r)"
proof -
  define n where "n = (of_char c :: nat)"
  have c: "c = char_of n" by (simp add: n_def)
  let ?ctl = "c = CHR 0x08 \<or> c = CHR 0x0C \<or> c = CHR 0x0A \<or> c = CHR 0x0D \<or> c = CHR 0x09"
  consider (esc) "c = CHR 0x22 \<or> c = CHR 0x5C" | (ctl) "?ctl"
    | (u) "c \<noteq> CHR 0x22" "c \<noteq> CHR 0x5C" "\<not> ?ctl"
        "n < 32 \<or> c = CHR ''<'' \<or> c = CHR ''>'' \<or> c = CHR ''&''"
    | (plain) "c \<noteq> CHR 0x22" "c \<noteq> CHR 0x5C" "\<not> ?ctl" "\<not> n < 32"
        "\<not> (c = CHR ''<'' \<or> c = CHR ''>'' \<or> c = CHR ''&'')"
    by blast
  then show ?thesis
  proof cases
    case esc
    then show ?thesis by (auto simp: enc_char_def simple_escape_def p_string_simple)
  next
    case ctl
    then show ?thesis
      by (elim disjE) (simp_all add: enc_char_def simple_escape_def p_string_simple)
  next
    case u
    from u(4) have "n < 128" by (elim disjE) (simp_all add: n_def)
    moreover have "enc_char c = u_escape n" using u by (simp add: enc_char_def n_def)
    ultimately show ?thesis by (simp add: p_string_u utf8_def c)
  next
    case plain
    then show ?thesis using assms by (simp add: enc_char_def n_def p_string_plain)
  qed
qed

text \<open>A rune of more than one byte is read as it is.\<close>

lemma p_string_rune:
  assumes "scalar r" "128 \<le> r"
  shows "p_string (rune_text r @ t) = map_option (\<lambda>(v, r5). (rune_text r @ v, r5)) (p_string t)"
proof -
  obtain c s where cs: "rune_text r @ t = c # s" by (cases "rune_text r") auto
  have d: "decode_rune (c # s) = (r, length (rune_text r))" using decode_rune_text [OF assms(1), of t] by (simp add: cs)
  have "128 \<le> (of_char c :: int)"
  proof (rule ccontr)
    assume "\<not> 128 \<le> (of_char c :: int)"
    then have "decode_rune (c # s) = (of_char c, 1)" by (simp add: decode_rune_def split: prod.split)
    with d assms(2) \<open>\<not> 128 \<le> (of_char c :: int)\<close> show False by simp
  qed
  then have c: "\<not> (of_char c :: int) < 128" "c \<noteq> CHR 0x22" "c \<noteq> CHR 0x5C" "\<not> (of_char c :: nat) < 32"
    using of_nat_of_char [of c, where ?'a = int] by auto
  have "p_string (c # s) = map_option (\<lambda>(v, r5). (rune_text r @ v, r5)) (p_string (drop (length (rune_text r) - 1) s))"
    by (subst p_string.simps) (simp only: list.case c if_False d prod.case)
  then show ?thesis by (simp only: cs drop_rune [OF cs [symmetric]])
qed

lemma p_string_enc: "p_string (enc_chars s @ CHR 0x22 # t) = Some (to_valid s, t)"
proof (induction s rule: enc_chars.induct)
  case 1
  then show ?case by (simp add: p_string.simps)
next
  case (2 c s)
  show ?case
  proof (cases "(of_char c :: int) < 128")
    case True
    then have "runes (c # s) = of_char c # runes s" by (simp add: decode_rune_def split: prod.split)
    moreover have "rune_text (of_char c) = [c]" using True byte_range(1) [of c] by (simp add: rune_text_def)
    ultimately have "to_valid (c # s) = c # to_valid s" by (simp add: to_valid_def of_runes_def)
    with True 2(1) show ?thesis by (simp add: p_string_enc_char)
  next
    case False
    obtain r n where d: "decode_rune (c # s) = (r, n)" by force
    have v: "to_valid (c # s) = rune_text r @ to_valid (drop (n - 1) s)" by (simp add: d to_valid_def of_runes_def)
    have IH: "p_string (enc_chars (drop (n - 1) s) @ CHR 0x22 # t) = Some (to_valid (drop (n - 1) s), t)"
      using 2(2) [OF False d [symmetric]] .
    have e: "enc_chars (c # s) = enc_rune r n @ enc_chars (drop (n - 1) s)" using False by (simp add: d)
    from d have "p_string (enc_rune r n @ enc_chars (drop (n - 1) s) @ CHR 0x22 # t) =
        Some (rune_text r @ to_valid (drop (n - 1) s), t)"
    proof (cases rule: decode_cases)
      case bad
      then show ?thesis using p_string_u [of 65533] IH
        by (simp add: enc_rune_def utf8_line_seps)
    next
      case (ok u)
      have "128 \<le> r"
      proof (rule ccontr)
        assume "\<not> 128 \<le> r"
        then have "rune_text r = [char_of r]" by (simp add: rune_text_def)
        then have "(of_char c :: int) = r" using ok(1,3) \<open>\<not> 128 \<le> r\<close> byte_of [of r] by (simp add: scalar_def)
        with False \<open>\<not> 128 \<le> r\<close> show False by simp
      qed
      then show ?thesis using p_string_rune [OF ok(3)] p_string_u [of 8232] p_string_u [of 8233] p_string_u [of 65533] IH
        by (auto simp: enc_rune_def utf8_line_seps ok(2) split: if_splits)
    qed
    then show ?thesis by (simp only: e v append_assoc)
  qed
qed

text \<open>What may follow a number: nothing, a comma or a closing bracket.\<close>

definition delim :: "string \<Rightarrow> bool" where
  "delim r = (r = [] \<or> hd r = CHR '','' \<or> hd r = CHR '']'' \<or> hd r = CHR 0x7D)"

lemma delim_cases:
  "delim r \<Longrightarrow> (r = [] \<Longrightarrow> P) \<Longrightarrow> (\<And>t. r = CHR '','' # t \<Longrightarrow> P) \<Longrightarrow>
   (\<And>t. r = CHR '']'' # t \<Longrightarrow> P) \<Longrightarrow> (\<And>t. r = CHR 0x7D # t \<Longrightarrow> P) \<Longrightarrow> P"
  by (cases r) (auto simp: delim_def)

lemma take_digits_delim:
  "take_digits s = (d, s') \<Longrightarrow> delim r \<Longrightarrow> take_digits (s @ r) = (d, s' @ r)"
proof (induction s arbitrary: d)
  case Nil
  then show ?case by (auto elim!: delim_cases simp: is_digit_char_def)
next
  case (Cons c s)
  then show ?case by (auto split: if_splits prod.splits)
qed

lemma p_int_part_delim:
  "p_int_part s = Some (a, s') \<Longrightarrow> delim r \<Longrightarrow> p_int_part (s @ r) = Some (a, s' @ r)"
  by (cases s) (auto simp: p_int_part_def take_digits_delim
      dest!: take_digits_delim [of _ _ _ r] split: if_splits prod.splits)

lemma p_frac_part_delim:
  "p_frac_part s = Some (a, s') \<Longrightarrow> delim r \<Longrightarrow> p_frac_part (s @ r) = Some (a, s' @ r)"
  by (cases s) (auto simp: p_frac_part_def take_digits_delim elim!: delim_cases
      split: if_splits prod.splits)

lemma p_sign_app: "t \<noteq> [] \<Longrightarrow> p_sign t = (g, u) \<Longrightarrow> p_sign (t @ r) = (g, u @ r)"
  by (cases t) (auto simp: p_sign_def split: if_splits)

lemma p_exp_part_delim:
  assumes "p_exp_part s = Some (a, s')" and "delim r"
  shows "p_exp_part (s @ r) = Some (a, s' @ r)"
proof (cases s)
  case Nil
  with assms show ?thesis by (auto simp: p_exp_part_def elim!: delim_cases)
next
  case (Cons c t)
  show ?thesis
  proof (cases "c = CHR ''e'' \<or> c = CHR ''E''")
    case False
    with assms Cons show ?thesis by (auto simp: p_exp_part_def)
  next
    case True
    obtain g u where g: "p_sign t = (g, u)" by force
    obtain d v where d: "take_digits u = (d, v)" by force
    have ne: "d \<noteq> []" and a: "a = c # g @ d" "s' = v"
      using assms(1) Cons True g d by (auto simp: p_exp_part_def split: if_splits)
    have "t \<noteq> []" using ne g d by (auto simp: p_sign_def)
    then have "p_sign (t @ r) = (g, u @ r)" using g by (rule p_sign_app)
    moreover have "take_digits (u @ r) = (d, v @ r)" using d assms(2) by (rule take_digits_delim)
    ultimately show ?thesis using True ne a Cons by (simp add: p_exp_part_def)
  qed
qed

lemma p_unsigned_delim:
  assumes "p_unsigned s = Some (a, s')" and "delim r"
  shows "p_unsigned (s @ r) = Some (a, s' @ r)"
proof -
  from assms(1) obtain i s2 f s3 e where
    "p_int_part s = Some (i, s2)" "p_frac_part s2 = Some (f, s3)" "p_exp_part s3 = Some (e, s')"
    and a: "a = i @ f @ e"
    by (auto simp: p_unsigned_def split: option.splits)
  then have "p_int_part (s @ r) = Some (i, s2 @ r)" "p_frac_part (s2 @ r) = Some (f, s3 @ r)"
    "p_exp_part (s3 @ r) = Some (e, s' @ r)"
    using p_int_part_delim p_frac_part_delim p_exp_part_delim assms(2) by blast+
  then show ?thesis by (simp add: p_unsigned_def a)
qed

lemma p_number_delim:
  assumes "p_number s = Some (a, s')" and "delim r"
  shows "p_number (s @ r) = Some (a, s' @ r)"
proof (cases s)
  case Nil
  with assms show ?thesis by (simp add: p_number_def p_unsigned_def p_int_part_def)
next
  case (Cons c t)
  show ?thesis
  proof (cases "c = CHR ''-''")
    case True
    with assms Cons obtain b where "p_unsigned t = Some (b, s')" and a: "a = c # b"
      by (auto simp: p_number_def)
    from p_unsigned_delim [OF this(1) assms(2)] True Cons a show ?thesis by (simp add: p_number_def)
  next
    case False
    with assms Cons have "p_unsigned s = Some (a, s')" by (auto simp: p_number_def)
    from p_unsigned_delim [OF this assms(2)] False Cons show ?thesis by (simp add: p_number_def)
  qed
qed

text \<open>The texts of numbers as they are written.\<close>

definition num_lit :: "string \<Rightarrow> bool" where
  "num_lit n = (p_number n = Some (n, []) \<and> canon_number n = Some n)"

lemma num_lit_head: "num_lit n \<Longrightarrow> \<exists>c t. n = c # t \<and> (c = CHR ''-'' \<or> is_digit_char c)"
  by (cases n) (auto simp: num_lit_def p_number_def p_unsigned_def p_int_part_def is_digit_char_def
      split: if_splits option.splits prod.splits)

fun json_ok :: "int \<Rightarrow> json \<Rightarrow> bool" where
  "json_ok d JNull = True"
| "json_ok d (JBool b) = True"
| "json_ok d (JNum n) = num_lit n"
| "json_ok d (JStr s) = valid_utf8 s"
| "json_ok d (JArr vs) = (0 < d \<and> list_all (json_ok (d - 1)) vs)"
| "json_ok d (JObj es) = (0 < d \<and> wf_gmap es \<and> list_all (\<lambda>(k, v). valid_utf8 k \<and> json_ok (d - 1) v) es)"

definition val_head :: "char \<Rightarrow> bool" where
  "val_head c = (\<not> is_json_ws c \<and> c \<noteq> CHR '']'' \<and> c \<noteq> CHR 0x7D)"

lemma marshal_head:
  assumes "json_ok d v"
  shows "\<exists>c t. marshal v = c # t \<and> val_head c"
proof (cases v)
  case (JNum n)
  with assms num_lit_head [of n] show ?thesis
    by (auto simp: val_head_def is_json_ws_def is_digit_char_def)
qed (simp_all add: enc_string_def val_head_def is_json_ws_def)

lemma skip_ws_head: "val_head c \<Longrightarrow> skip_ws (c # t) = c # t"
  by (simp add: val_head_def)

lemma p_literal_num:
  assumes "num_lit n" and "delim r"
  shows "p_literal (n @ r) = Some (JNum n, r)"
proof -
  from num_lit_head [OF assms(1)] obtain c t where n: "n = c # t" and c: "c = CHR ''-'' \<or> is_digit_char c"
    by blast
  have "p_number (n @ r) = Some (n, r)"
    using p_number_delim [of n n "[]" r] assms by (simp add: num_lit_def)
  moreover have "c \<noteq> CHR ''t'' \<and> c \<noteq> CHR ''f'' \<and> c \<noteq> CHR ''n''" using c by (auto simp: is_digit_char_def)
  then have "\<not> prefix ''true'' (n @ r)" "\<not> prefix ''false'' (n @ r)" "\<not> prefix ''null'' (n @ r)"
    by (auto simp: n prefix_Cons)
  ultimately show ?thesis using assms(1) by (simp add: p_literal_def num_lit_def)
qed

lemma p_value_scalar:
  "delim r \<Longrightarrow> p_value d (''null'' @ r) = Some (JNull, r)"
  "delim r \<Longrightarrow> p_value d (''true'' @ r) = Some (JBool True, r)"
  "delim r \<Longrightarrow> p_value d (''false'' @ r) = Some (JBool False, r)"
  "p_value d (enc_string s @ r) = Some (JStr (to_valid s), r)"
  by (simp_all add: p_value.simps is_json_ws_def p_literal_def enc_string_def p_string_enc)

lemma p_value_num:
  assumes "num_lit n" and "delim r"
  shows "p_value d (n @ r) = Some (JNum n, r)"
proof -
  from num_lit_head [OF assms(1)] obtain c t where n: "n = c # t" and c: "c = CHR ''-'' \<or> is_digit_char c"
    by blast
  then have "\<not> is_json_ws c" "c \<noteq> CHR ''[''" "c \<noteq> CHR 0x7B" "c \<noteq> CHR 0x22"
    by (auto simp: is_json_ws_def is_digit_char_def)
  then show ?thesis using p_literal_num [OF assms] by (simp add: n p_value.simps)
qed

lemma delim_simps [simp]: "delim (CHR '','' # r)" "delim (CHR '']'' # r)" "delim (CHR 0x7D # r)"
  by (simp_all add: delim_def)

lemma p_elems_join:
  "vs \<noteq> [] \<Longrightarrow> (\<And>v r. v \<in> set vs \<Longrightarrow> delim r \<Longrightarrow> p_value d (marshal v @ r) = Some (v, r)) \<Longrightarrow>
   p_elems d (join_with '','' (map marshal vs) @ CHR '']'' # r) = Some (vs, r)"
proof (induction vs rule: induct_list012)
  case 1
  then show ?case by simp
next
  case (2 v)
  then show ?case by (simp add: p_elems.simps is_json_ws_def)
next
  case (3 v w vs)
  then show ?case by (simp add: p_elems.simps [of d "marshal v @ _"] is_json_ws_def)
qed

definition enc_member :: "string \<times> json \<Rightarrow> string" where
  "enc_member e = enc_string (fst e) @ '':'' @ marshal (snd e)"

lemma enc_member_app:
  "enc_member e @ r = CHR 0x22 # enc_chars (fst e) @ CHR 0x22 # CHR '':'' # marshal (snd e) @ r"
  by (simp add: enc_member_def enc_string_def)

lemma p_members_join:
  "es \<noteq> [] \<Longrightarrow> (\<And>e. e \<in> set es \<Longrightarrow> valid_utf8 (fst e)) \<Longrightarrow>
   (\<And>e r. e \<in> set es \<Longrightarrow> delim r \<Longrightarrow> p_value d (marshal (snd e) @ r) = Some (snd e, r)) \<Longrightarrow>
   p_members d (join_with '','' (map enc_member es) @ CHR 0x7D # r) = Some (es, r)"
proof (induction es rule: induct_list012)
  case 1
  then show ?case by simp
next
  case (2 e)
  then show ?case
    by (simp add: enc_member_app p_members.simps is_json_ws_def p_string_enc to_valid)
next
  case (3 e f es)
  let ?rest = "join_with '','' (map enc_member (f # es)) @ CHR 0x7D # r"
  have "p_value d (marshal (snd e) @ CHR '','' # ?rest) = Some (snd e, CHR '','' # ?rest)"
    using 3 by simp
  moreover have "p_members d ?rest = Some (f # es, r)"
    using 3 by simp
  moreover have "join_with '','' (map enc_member (e # f # es)) @ CHR 0x7D # r =
      CHR 0x22 # enc_chars (fst e) @ CHR 0x22 # CHR '':'' # marshal (snd e) @ CHR '','' # ?rest"
    by (simp add: enc_member_app)
  ultimately show ?case
    by (simp only:) (simp add: p_members.simps [of d "CHR 0x22 # _"] is_json_ws_def p_string_enc to_valid "3.prems"(2))
qed

lemma mput_all_wf: "wf_gmap es \<Longrightarrow> mput_all es mempty = es"
proof (rule gmap_eqI)
  fix k
  assume wf: "wf_gmap es"
  then have "distinct (map fst es)" using wf_distinct by (simp add: mkeys_def)
  then have "map_of (rev es) k = map_of es k"
    by (cases "map_of es k")
      (auto simp: map_of_eq_None_iff rev_map [symmetric] dest!: map_of_SomeD intro!: map_of_is_SomeI,
       metis image_eqI list.set_map map_of_eq_None_iff set_rev)
  then show "mget (mput_all es mempty) k = mget es k"
    by (simp add: mget_mput_all split: option.splits) (simp add: mget_def)
qed simp_all

lemma join_head: "\<exists>t. join_with sep ((c # p) # ps) @ r = c # t"
  by (cases ps) auto

lemma p_value_marshal:
  "json_ok d v \<Longrightarrow> delim r \<Longrightarrow> p_value d (marshal v @ r) = Some (v, r)"
proof (induction v arbitrary: d r rule: marshal.induct)
  case (5 vs)
  show ?case
  proof (cases "vs = []")
    case True
    with 5 show ?thesis by (simp add: p_value.simps is_json_ws_def)
  next
    case False
    let ?j = "join_with '','' (map marshal vs) @ CHR '']'' # r"
    obtain v vs' where vs: "vs = v # vs'" using False by (cases vs) auto
    from 5 have "json_ok (d - 1) v" by (simp add: vs)
    then obtain c t where m: "marshal v = c # t" "val_head c" using marshal_head by blast
    then obtain t' where j: "?j = c # t'"
      using join_head [of "'',''" c t "map marshal vs'" "CHR '']'' # r"] by (auto simp: vs)
    have "p_elems (d - 1) ?j = Some (vs, r)"
      by (rule p_elems_join [OF False]) (use 5 in \<open>auto simp: list_all_iff\<close>)
    with j m(2) 5 show ?thesis
      by (auto simp: p_value.simps [of d "CHR ''['' # _"] is_json_ws_def skip_ws_head val_head_def)
  qed
next
  case (6 es)
  show ?case
  proof (cases "es = []")
    case True
    with 6 show ?thesis by (simp add: p_value.simps is_json_ws_def)
  next
    case False
    have eq: "map (\<lambda>(k, v). enc_string k @ '':'' @ marshal v) es = map enc_member es"
      by (simp add: enc_member_def case_prod_unfold)
    let ?j = "join_with '','' (map enc_member es) @ CHR 0x7D # r"
    obtain t' where j: "?j = CHR 0x22 # t'"
      using join_head [of "'',''" "CHR 0x22" _ "map enc_member (tl es)" "CHR 0x7D # r"] False
      by (cases es) (auto simp: enc_member_def enc_string_def)
    have "p_members (d - 1) ?j = Some (es, r)"
      by (rule p_members_join [OF False]) (use 6 in \<open>auto simp: list_all_iff\<close>)
    with j 6(2) have "p_value d (CHR 0x7B # ?j) = Some (JObj es, r)"
      by (simp add: p_value.simps [of d "CHR 0x7B # _"] is_json_ws_def mput_all_wf)
    moreover have "marshal (JObj es) @ r = CHR 0x7B # ?j"
      by (simp only: marshal.simps eq append_assoc) simp
    ultimately show ?thesis by simp
  qed
qed (simp_all add: p_value_scalar [simplified] p_value_num to_valid)

lemma unmarshal_marshal: "json_ok 10000 v \<Longrightarrow> unmarshal (marshal v) = Some v"
  using p_value_marshal [of 10000 v "[]"] by (simp add: unmarshal_def delim_def)

section \<open>The rest is always shorter\<close>

lemma hex4_shorter: "hex4 s = Some (n, r) \<Longrightarrow> length r < length s"
  by (induction s rule: hex4.induct) (auto split: option.splits)

lemma low_surrogate_shorter: "low_surrogate s = Some (m, r) \<Longrightarrow> length r < length s"
  by (induction s rule: low_surrogate.induct)
    (auto split: if_splits option.splits dest: hex4_shorter)

lemma u_code_rest: "u_code n r = (b, r') \<Longrightarrow> length r' \<le> length r"
  by (auto simp: u_code_def dest: low_surrogate_shorter split: if_splits option.splits)

lemma p_string_shorter: "p_string s = Some (v, r) \<Longrightarrow> length r < length s"
proof (induction s arbitrary: v rule: p_string.induct)
  case (1 s)
  show ?case
  proof (cases s)
    case Nil
    with 1 show ?thesis by (simp add: p_string.simps)
  next
    case (Cons c t)
    show ?thesis
    proof (cases "c = CHR 0x5C")
      case plain: False
      obtain u n where u: "decode_rune (c # t) = (u, n)" by force
      consider (quote) "c = CHR 0x22" | (ascii) w where "c \<noteq> CHR 0x22" "\<not> (of_char c :: nat) < 32"
          "(of_char c :: int) < 128" "p_string t = Some (w, r)"
        | (rune) w where "c \<noteq> CHR 0x22" "\<not> (of_char c :: nat) < 32"
          "\<not> (of_char c :: int) < 128" "p_string (drop (n - 1) t) = Some (w, r)"
        using 1(5) Cons plain u by (auto simp: p_string.simps [of "c # t"] split: if_splits)
      then show ?thesis
      proof cases
        case quote
        with 1(5) Cons show ?thesis by (simp add: p_string.simps [of "CHR 0x22 # t"])
      next
        case ascii
        from 1(3) [OF Cons ascii(1,2) plain ascii(3,4)] Cons show ?thesis by simp
      next
        case rune
        from 1(4) [OF Cons rune(1,2) plain rune(3) u [folded Cons, symmetric] rune(4)] Cons show ?thesis
          by simp
      qed
    next
      case True
      with 1(5) Cons obtain e u where t: "t = e # u"
        by (cases t) (auto simp: p_string.simps [of "[CHR 0x5C]"] p_string.simps [of "c # t"])
      show ?thesis
      proof (cases "e = CHR ''u''")
        case False
        with 1(5) Cons True t obtain b w where "simple_escape e = Some b" "p_string u = Some (w, r)"
          by (auto simp: p_string.simps [of "CHR 0x5C # e # u"] split: option.splits)
        with 1(2) [OF Cons _ _ True t False] True Cons t show ?thesis by fastforce
      next
        case eu: True
        with 1(5) Cons True t obtain n r3 b r4 w where
          h: "hex4 u = Some (n, r3)" "u_code n r3 = (b, r4)" "length r4 < length s"
            "p_string r4 = Some (w, r)"
          by (auto simp: p_string.simps [of "CHR 0x5C # CHR ''u'' # u"] split: option.splits if_splits prod.splits)
        with 1(1) [OF Cons _ _ True t eu h(1) refl refl h(2) [symmetric] h(3) h(4)] True show ?thesis by auto
      qed
    qed
  qed
qed

lemma skip_ws_shorter: "length (skip_ws s) \<le> length s"
  by (induction s) auto

lemma skip_ws_Cons: "skip_ws s = c # r \<Longrightarrow> length r < length s"
  using skip_ws_shorter [of s] by simp

lemma take_digits_app: "take_digits s = (d, r) \<Longrightarrow> s = d @ r"
  by (induction s arbitrary: d) (auto split: if_splits prod.splits)

lemma p_int_part_shorter: "p_int_part s = Some (a, r) \<Longrightarrow> length r < length s"
  by (cases s) (auto simp: p_int_part_def split: if_splits prod.splits dest!: take_digits_app)

lemma p_frac_part_shorter: "p_frac_part s = Some (a, r) \<Longrightarrow> length r \<le> length s"
  by (cases s) (auto simp: p_frac_part_def split: if_splits prod.splits dest!: take_digits_app)

lemma p_exp_part_shorter: "p_exp_part s = Some (a, r) \<Longrightarrow> length r \<le> length s"
  by (cases s) (auto simp: p_exp_part_def p_sign_def split: if_splits prod.splits list.splits
      dest!: take_digits_app)

lemma p_unsigned_shorter: "p_unsigned s = Some (a, r) \<Longrightarrow> length r < length s"
  by (auto simp: p_unsigned_def split: option.splits
      dest!: p_int_part_shorter p_frac_part_shorter p_exp_part_shorter)

lemma p_literal_shorter: "p_literal s = Some (v, r) \<Longrightarrow> length r < length s"
proof -
  have n: "p_number s = Some (n, r) \<Longrightarrow> length r < length s" for n r
    by (cases s) (auto simp: p_number_def split: if_splits dest!: p_unsigned_shorter)
  assume "p_literal s = Some (v, r)"
  then show ?thesis
    by (auto simp: p_literal_def prefix_def split: if_splits option.splits dest: n)
qed

text \<open>Every reader consumes at least one byte, so the length guards above never refuse.\<close>

lemma p_reader_shorter:
  "(\<forall>v r. p_value d s = Some (v, r) \<longrightarrow> length r < length s)"
  "(\<forall>vs r. p_elems d' s' = Some (vs, r) \<longrightarrow> length r < length s')"
  "(\<forall>es r. p_members d'' s'' = Some (es, r) \<longrightarrow> length r < length s'')"
proof (induction d s and d' s' and d'' s'' rule: p_value_p_elems_p_members.induct)
  case (1 d s)
  show ?case
  proof (intro allI impI)
    fix v r
    assume v: "p_value d s = Some (v, r)"
    then obtain c t where ct: "skip_ws s = c # t" by (cases "skip_ws s") (auto simp: p_value.simps [of d s])
    note lt = skip_ws_Cons [OF ct]
    have lw: "length (drop 1 (skip_ws t)) \<le> length t" using skip_ws_shorter [of t] by simp
    consider (arr) vs where "p_elems (d - 1) t = Some (vs, r)" "c = CHR ''[''" "\<not> prefix '']'' (skip_ws t)" "\<not> d \<le> 0"
      | (obj) es where "p_members (d - 1) t = Some (es, r)" "c = CHR 0x7B" "\<not> prefix [CHR 0x7D] (skip_ws t)" "\<not> d \<le> 0"
      | (nil) "r = drop 1 (skip_ws t)" | (str) w where "p_string t = Some (w, r)" | (lit) "p_literal (c # t) = Some (v, r)"
      using v ct by (auto simp: p_value.simps [of d s] split: if_splits)
    then show "length r < length s"
    proof cases
      case arr
      with 1(1) [OF ct] lt show ?thesis by fastforce
    next
      case obj
      with 1(2) [OF ct] lt show ?thesis by fastforce
    next
      case nil
      with lw lt show ?thesis by simp
    next
      case str
      with p_string_shorter lt show ?thesis by fastforce
    next
      case lit
      from p_literal_shorter [OF lit] lt show ?thesis by simp
    qed
  qed
next
  case (2 d s)
  show ?case
  proof (intro allI impI)
    fix vs r
    assume e: "p_elems d s = Some (vs, r)"
    then obtain v r1 where v: "p_value d s = Some (v, r1)"
      by (auto simp: p_elems.simps [of d s] split: option.splits)
    with e obtain c r2 where c: "skip_ws r1 = c # r2"
      by (cases "skip_ws r1") (auto simp: p_elems.simps [of d s])
    have l1: "length r1 < length s" using 2(1) v by blast
    consider "r = r2" | ws where "p_elems d r2 = Some (ws, r)" "c \<noteq> CHR '']''" "c = CHR '','' \<and> length r2 < length s"
      using e v c by (auto simp: p_elems.simps [of d s] split: if_splits)
    then show "length r < length s"
      using 2(2) [OF v refl c] skip_ws_Cons [OF c] l1 by cases fastforce+
  qed
next
  case (3 d s)
  show ?case
  proof (intro allI impI)
    fix es r
    assume e: "p_members d s = Some (es, r)"
    then obtain q s1 where q: "skip_ws s = q # s1" "\<not> q \<noteq> CHR 0x22"
      by (cases "skip_ws s") (auto simp: p_members.simps [of d s] split: if_splits)
    with e obtain k s2 where k: "p_string s1 = Some (k, s2)"
      by (auto simp: p_members.simps [of d s] split: option.splits)
    with e q obtain x s3 where x: "skip_ws s2 = x # s3" "\<not> (x \<noteq> CHR '':'' \<or> \<not> length s3 < length s)"
      by (cases "skip_ws s2") (auto simp: p_members.simps [of d s] split: if_splits)
    with e q k obtain v r1 where v: "p_value d s3 = Some (v, r1)"
      by (auto simp: p_members.simps [of d s] split: option.splits)
    with e q k x obtain c r2 where c: "skip_ws r1 = c # r2"
      by (cases "skip_ws r1") (auto simp: p_members.simps [of d s])
    have l1: "length r1 < length s3" using 3(1) [OF q k refl x] v by blast
    consider "r = r2" | ws where "p_members d r2 = Some (ws, r)" "c \<noteq> CHR 0x7D" "c = CHR '','' \<and> length r2 < length s"
      using e q k x v c by (auto simp: p_members.simps [of d s] split: if_splits)
    then show "length r < length s"
      using 3(2) [OF q k refl x v refl c] skip_ws_Cons [OF c] l1 x(2) by cases fastforce+
  qed
qed

end
