(* ===== verification/Tool_Args.thy ===== *)
theory Tool_Args
  imports Go_Json
begin

text \<open>
  Arguments of tools, as internal/tools/builtins.go reads them, and the parts of package strconv behind
  it. Arguments are decoded JSON, so a number is a float64, and fmt's verb %v writes one below 10^6 with its
  digits and a larger one with an exponent (1e+06), which strconv.Atoi refuses.
\<close>

definition lf :: string where "lf = [CHR 0x0A]"

section \<open>Numbers\<close>

definition max_int64 :: int where "max_int64 = 9223372036854775807"
definition min_int64 :: int where "min_int64 = - 9223372036854775808"

definition all_digits :: "string \<Rightarrow> bool" where
  "all_digits s = (s \<noteq> [] \<and> list_all is_digit_char s)"

definition in_int64 :: "int \<Rightarrow> int option" where
  "in_int64 n = (if min_int64 \<le> n \<and> n \<le> max_int64 then Some n else None)"

text \<open>strconv.Atoi\<close>

definition atoi :: "string \<Rightarrow> int option" where
  "atoi s =
    (case s of
       [] \<Rightarrow> None
     | c # r \<Rightarrow>
       if c = CHR ''-'' then (if all_digits r then in_int64 (- int (digits_val r)) else None)
       else if c = CHR ''+'' then (if all_digits r then in_int64 (int (digits_val r)) else None)
       else if all_digits s then in_int64 (int (digits_val s)) else None)"

text \<open>The number strconv.Atoi returns for digits, next to an error when it is too large.\<close>

definition atoi_digits :: "string \<Rightarrow> int" where
  "atoi_digits s = min (int (digits_val s)) max_int64"

text \<open>strconv.Atoi of what fmt writes for a number.\<close>

definition number_int :: "string \<Rightarrow> int option" where
  "number_int s =
    (case float64_of (literal_value s) of
       None \<Rightarrow> None
     | Some x \<Rightarrow> if of_int \<lfloor>x\<rfloor> = x \<and> \<bar>x\<bar> < 1000000 then Some \<lfloor>x\<rfloor> else None)"

lemma number_int_range: "number_int s = Some n \<Longrightarrow> - 1000000 < n \<and> n < 1000000"
proof -
  assume "number_int s = Some n"
  then obtain x where "of_int n = (x :: rat)" "\<bar>x\<bar> < 1000000"
    by (auto simp: number_int_def split: option.splits if_splits)
  then have "of_int \<bar>n\<bar> < (of_int 1000000 :: rat)" by auto
  then show ?thesis by (simp only: of_int_less_iff) linarith
qed

section \<open>Reading arguments\<close>

definition getString :: "(string, json) gmap \<Rightarrow> string \<Rightarrow> string + string" where
  "getString args key =
    (case mget args key of
       None \<Rightarrow> Inl (''missing argument: '' @ key)
     | Some (JStr s) \<Rightarrow> Inr s
     | Some _ \<Rightarrow> Inl (''argument must be string: '' @ key))"

definition getIntArg :: "(string, json) gmap \<Rightarrow> string \<Rightarrow> int \<Rightarrow> int" where
  "getIntArg args key fallback =
    (case mget args key of
       Some (JNum t) \<Rightarrow> (case number_int t of Some n \<Rightarrow> n | None \<Rightarrow> fallback)
     | Some (JStr s) \<Rightarrow> (case atoi s of Some n \<Rightarrow> n | None \<Rightarrow> fallback)
     | _ \<Rightarrow> fallback)"

definition getBoolArg :: "(string, json) gmap \<Rightarrow> string \<Rightarrow> bool \<Rightarrow> bool" where
  "getBoolArg args key fallback = (case mget args key of Some (JBool b) \<Rightarrow> b | _ \<Rightarrow> fallback)"

lemma getIntArg_range: "min_int64 \<le> n \<and> n \<le> max_int64 \<Longrightarrow> min_int64 \<le> getIntArg args key n \<and> getIntArg args key n \<le> max_int64"
  by (auto simp: getIntArg_def atoi_def in_int64_def Let_def min_int64_def max_int64_def
      split: option.splits json.splits list.splits if_splits dest!: number_int_range)

text \<open>So an argument of a million or more that is given as a number is not read: the fallback is used.\<close>

lemma large_number_ignored:
  "mget args key = Some (JNum t) \<Longrightarrow> getIntArg args key n = n \<or> \<bar>getIntArg args key n\<bar> < 1000000"
  by (auto simp: getIntArg_def split: option.splits dest!: number_int_range)

lemma args_examples:
  "map number_int [''12'', ''1.5e1'', ''-3'', ''2.5'', ''120e-1''] = [Some 12, Some 15, Some (-3), None, Some 12]"
  "map atoi [''12'', ''-7'', ''+3'', ''1.0'', '''', ''-''] = [Some 12, Some (-7), Some 3, None, None, None]"
  by code_simp+

end
