(* ===== verification/Reverse_Scanner.thy ===== *)
theory Reverse_Scanner
  imports Tool_Args
begin

text \<open>
  The scanner of internal/chatstore/reverse_scanner.go, which reads the lines of a file from the last to
  the first in chunks. The file is its bytes; reading a chunk of it does not fail here.
\<close>

section \<open>The scanner\<close>

datatype scan_error = ErrTooLong

record rev_scanner =
  sc_file :: string
  sc_pos :: nat
  sc_bufSize :: nat
  sc_maxSize :: nat
  sc_fileSize :: nat
  sc_pending :: "string list"
  sc_leftover :: "string list"
  sc_leftoverSize :: nat
  sc_err :: "scan_error option"
  sc_line :: string

definition newReverseScanner :: "string \<Rightarrow> nat \<Rightarrow> nat \<Rightarrow> rev_scanner" where
  "newReverseScanner file bufSize maxSize =
    \<lparr>sc_file = file, sc_pos = length file, sc_bufSize = max bufSize 4096, sc_maxSize = maxSize,
     sc_fileSize = length file, sc_pending = [], sc_leftover = [], sc_leftoverSize = 0, sc_err = None, sc_line = []\<rparr>"

definition joinLeftover :: "rev_scanner \<Rightarrow> string \<Rightarrow> string" where
  "joinLeftover s front = front @ concat (rev (sc_leftover s))"

definition dropCR :: "string \<Rightarrow> string" where
  "dropCR d = (if d \<noteq> [] \<and> last d = CHR 0x0D then butlast d else d)"

text \<open>bytes.LastIndexByte\<close>

definition last_index :: "char \<Rightarrow> string \<Rightarrow> nat option" where
  "last_index c s = (if c \<in> set s then Some (length s - 1 - length (takeWhile (\<lambda>x. x \<noteq> c) (rev s))) else None)"

lemma last_index_Some:
  assumes "last_index c s = Some i"
  shows "s = take i s @ c # drop (i + 1) s" "c \<notin> set (drop (i + 1) s)" "i < length s"
proof -
  obtain w where w: "w = takeWhile (\<lambda>x. x \<noteq> c) (rev s)" by simp
  have "c \<in> set (rev s)" and i: "i = length s - 1 - length w" using assms by (auto simp: last_index_def w split: if_splits)
  then obtain rest where "rev s = w @ c # rest" unfolding w
    by (metis (mono_tags, lifting) dropWhile_eq_Cons_conv dropWhile_eq_Nil_conv list.exhaust takeWhile_dropWhile_id)
  then have s: "s = rev rest @ c # rev w" by (metis append.assoc append_Cons append_Nil rev.simps(2) rev_append rev_rev_ident)
  have "c \<notin> set w" unfolding w by (auto dest: set_takeWhileD)
  moreover have n: "i = length rest" unfolding i by (simp add: s)
  moreover have "take i s = rev rest" "drop (i + 1) s = rev w" "i < length s" unfolding n by (simp_all add: s)
  ultimately show "s = take i s @ c # drop (i + 1) s" "c \<notin> set (drop (i + 1) s)" "i < length s"
    using s by simp_all
qed

lemma last_index_None: "last_index c s = None \<longleftrightarrow> c \<notin> set s"
  by (simp add: last_index_def)

lemma last_index_less: "last_index c (take r s) = Some i \<Longrightarrow> i < r \<and> i < length s"
  using last_index_Some(3) [of c "take r s" i] by simp

text \<open>The chunk from right to left; False is the return with an error.\<close>

function chunk_loop :: "string \<Rightarrow> nat \<Rightarrow> rev_scanner \<Rightarrow> bool \<times> rev_scanner" where
  "chunk_loop chunk right s =
    (case last_index (CHR 0x0A) (take right chunk) of
       None \<Rightarrow>
         (let remaining = take right chunk in
          if remaining \<noteq> []
          then (let s = s\<lparr>sc_leftover := sc_leftover s @ [remaining], sc_leftoverSize := sc_leftoverSize s + length remaining\<rparr> in
                if sc_maxSize s < sc_leftoverSize s then (False, s\<lparr>sc_err := Some ErrTooLong\<rparr>) else (True, s))
          else (True, s))
     | Some idx \<Rightarrow>
         (let linePart = drop (idx + 1) (take right chunk) in
          if sc_pos s + length chunk = sc_fileSize s \<and> right = length chunk \<and> idx + 1 = length chunk \<and> sc_leftoverSize s = 0
          then chunk_loop chunk idx s
          else chunk_loop chunk idx
            (s\<lparr>sc_pending := sc_pending s @ [dropCR (joinLeftover s linePart)], sc_leftover := [], sc_leftoverSize := 0\<rparr>)))"
  by pat_completeness auto
termination
proof (relation "measure (\<lambda>(chunk, right, s). right)")
  show "\<And>chunk right s x2 x. last_index CHR 0x0A (take right chunk) = Some x2 \<Longrightarrow> x = drop (x2 + 1) (take right chunk) \<Longrightarrow>
       sc_pos s + length chunk = sc_fileSize s \<and> right = length chunk \<and> x2 + 1 = length chunk \<and> sc_leftoverSize s = 0 \<Longrightarrow>
       ((chunk, x2, s), chunk, right, s) \<in> measure (\<lambda>(chunk, right, s). right)"
    using last_index_less by auto
  show "\<And>chunk right s x2 x. last_index CHR 0x0A (take right chunk) = Some x2 \<Longrightarrow> x = drop (x2 + 1) (take right chunk) \<Longrightarrow>
       \<not> (sc_pos s + length chunk = sc_fileSize s \<and> right = length chunk \<and> x2 + 1 = length chunk \<and> sc_leftoverSize s = 0) \<Longrightarrow>
       ((chunk, x2, s\<lparr>sc_pending := sc_pending s @ [dropCR (joinLeftover s x)], sc_leftover := [], sc_leftoverSize := 0\<rparr>),
        chunk, right, s) \<in> measure (\<lambda>(chunk, right, s). right)"
    using last_index_less by auto
qed simp

declare chunk_loop.simps [simp del]

definition pop_pending :: "rev_scanner \<Rightarrow> rev_scanner" where
  "pop_pending s = s\<lparr>sc_line := hd (sc_pending s), sc_pending := tl (sc_pending s)\<rparr>"

definition read_chunk :: "rev_scanner \<Rightarrow> bool \<times> rev_scanner" where
  "read_chunk s =
    (let readSize = min (sc_bufSize s) (sc_pos s); s = s\<lparr>sc_pos := sc_pos s - readSize\<rparr>;
         chunk = take readSize (drop (sc_pos s) (sc_file s))
     in chunk_loop chunk (length chunk) s)"

lemma chunk_loop_pos: "sc_pos (snd (chunk_loop chunk right s)) = sc_pos s"
  by (induction chunk right s rule: chunk_loop.induct) (subst chunk_loop.simps, auto simp: Let_def split: option.splits)

text \<open>The constructor makes the buffer no smaller than 4096 bytes; without one the loop would not end.\<close>

function scan_loop :: "rev_scanner \<Rightarrow> bool \<times> rev_scanner" where
  "scan_loop s =
    (if sc_pos s = 0
     then (if 0 < sc_leftoverSize s
           then (if sc_maxSize s < sc_leftoverSize s then (False, s\<lparr>sc_err := Some ErrTooLong\<rparr>)
                 else (True, s\<lparr>sc_line := dropCR (joinLeftover s []), sc_leftover := [], sc_leftoverSize := 0\<rparr>))
           else (False, s))
     else if sc_bufSize s = 0 then (False, s)
     else (case read_chunk s of
         (False, s1) \<Rightarrow> (False, s1)
       | (True, s1) \<Rightarrow> if sc_pending s1 \<noteq> [] then (True, pop_pending s1) else scan_loop s1))"
  by pat_completeness auto
termination
proof (relation "measure sc_pos")
  fix s x s1 b
  assume "sc_pos s \<noteq> 0" "sc_bufSize s \<noteq> 0" "(b, s1) = read_chunk s"
  then have "sc_pos s1 = sc_pos s - min (sc_bufSize s) (sc_pos s)"
    using chunk_loop_pos by (metis (no_types, lifting) read_chunk_def rev_scanner.select_convs(2) rev_scanner.surjective
        rev_scanner.update_convs(2) snd_conv)
  then show "(s1, s) \<in> measure sc_pos" using \<open>sc_pos s \<noteq> 0\<close> \<open>sc_bufSize s \<noteq> 0\<close> by simp
qed simp

declare scan_loop.simps [simp del]

definition scan :: "rev_scanner \<Rightarrow> bool \<times> rev_scanner" where
  "scan s =
    (if sc_pending s \<noteq> [] then (True, pop_pending s)
     else if sc_err s \<noteq> None then (False, s)
     else scan_loop s)"

section \<open>All the lines\<close>

text \<open>What is left to read and to return, which every line that is returned makes less.\<close>

definition scan_size :: "rev_scanner \<Rightarrow> nat" where
  "scan_size s = sc_pos s + sc_leftoverSize s + length (sc_pending s)"

lemma chunk_loop_None:
  "last_index (CHR 0x0A) (take right chunk) = None \<Longrightarrow> chunk_loop chunk right s =
    (if take right chunk = [] then (True, s)
     else let s1 = s\<lparr>sc_leftover := sc_leftover s @ [take right chunk],
                    sc_leftoverSize := sc_leftoverSize s + length (take right chunk)\<rparr>
          in if sc_maxSize s < sc_leftoverSize s1 then (False, s1\<lparr>sc_err := Some ErrTooLong\<rparr>) else (True, s1))"
  by (simp add: chunk_loop.simps [of chunk right s] Let_def)

lemma chunk_loop_Some:
  "last_index (CHR 0x0A) (take right chunk) = Some idx \<Longrightarrow> chunk_loop chunk right s =
    (if sc_pos s + length chunk = sc_fileSize s \<and> right = length chunk \<and> idx + 1 = length chunk \<and> sc_leftoverSize s = 0
     then chunk_loop chunk idx s
     else chunk_loop chunk idx
       (s\<lparr>sc_pending := sc_pending s @ [dropCR (joinLeftover s (drop (idx + 1) (take right chunk)))],
          sc_leftover := [], sc_leftoverSize := 0\<rparr>))"
  by (simp add: chunk_loop.simps [of chunk right s] Let_def)

lemma chunk_loop_size:
  "sc_leftoverSize (snd (chunk_loop chunk right s)) + length (sc_pending (snd (chunk_loop chunk right s)))
   \<le> sc_leftoverSize s + length (sc_pending s) + right"
proof (induction chunk right s rule: chunk_loop.induct)
  case (1 chunk right s)
  show ?case
  proof (cases "last_index (CHR 0x0A) (take right chunk)")
    case None
    then show ?thesis by (simp add: chunk_loop_None Let_def)
  next
    case (Some idx)
    let ?c = "sc_pos s + length chunk = sc_fileSize s \<and> right = length chunk \<and> idx + 1 = length chunk \<and> sc_leftoverSize s = 0"
    let ?s = "s\<lparr>sc_pending := sc_pending s @ [dropCR (joinLeftover s (drop (idx + 1) (take right chunk)))],
                 sc_leftover := [], sc_leftoverSize := 0\<rparr>"
    have less: "idx < right" using last_index_less [OF Some] by simp
    show ?thesis
    proof (cases ?c)
      case True
      have eq: "chunk_loop chunk right s = chunk_loop chunk idx s" unfolding chunk_loop_Some [OF Some] by (rule if_P [OF True])
      show ?thesis unfolding eq using 1(1) [OF Some refl True] less by linarith
    next
      case False
      have eq: "chunk_loop chunk right s = chunk_loop chunk idx ?s" unfolding chunk_loop_Some [OF Some] by (rule if_not_P [OF False])
      have "sc_leftoverSize ?s + length (sc_pending ?s) = length (sc_pending s) + 1" by simp
      then show ?thesis unfolding eq using 1(2) [OF Some refl False] less by linarith
    qed
  qed
qed

lemma read_chunk_size: "scan_size (snd (read_chunk s)) \<le> scan_size s"
proof -
  obtain n where n: "n = min (sc_bufSize s) (sc_pos s)" by simp
  obtain s0 where s0: "s0 = s\<lparr>sc_pos := sc_pos s - n\<rparr>" by simp
  obtain c where c: "c = take n (drop (sc_pos s - n) (sc_file s))" by simp
  have r: "read_chunk s = chunk_loop c (length c) s0" by (simp add: read_chunk_def Let_def c s0 n)
  have "length c \<le> n" unfolding c length_take by (rule min.cobounded2)
  moreover have "n \<le> sc_pos s" unfolding n by (rule min.cobounded2)
  moreover have "sc_pos (snd (chunk_loop c (length c) s0)) = sc_pos s - n" using chunk_loop_pos [of c "length c" s0] by (simp add: s0)
  moreover have "sc_leftoverSize s0 = sc_leftoverSize s" "length (sc_pending s0) = length (sc_pending s)" by (simp_all add: s0)
  ultimately show ?thesis using chunk_loop_size [of c "length c" s0] unfolding r scan_size_def by linarith
qed

lemma pop_size: "sc_pending s \<noteq> [] \<Longrightarrow> scan_size (pop_pending s) < scan_size s"
  by (cases "sc_pending s") (auto simp: pop_pending_def scan_size_def)

lemma scan_loop_size: "scan_loop s = (True, s') \<Longrightarrow> scan_size s' < scan_size s"
proof (induction s rule: scan_loop.induct)
  case (1 s)
  show ?case
  proof (cases "sc_pos s = 0 \<or> sc_bufSize s = 0")
    case True
    with 1(2) show ?thesis by (auto simp: scan_loop.simps [of s] scan_size_def split: if_splits)
  next
    case False
    obtain b s1 where r: "read_chunk s = (b, s1)" by (rule prod.exhaust)
    then have le: "scan_size s1 \<le> scan_size s" using read_chunk_size [of s] by simp
    from 1(2) False r have b: b by (auto simp: scan_loop.simps [of s] split: if_splits bool.splits)
    show ?thesis
    proof (cases "sc_pending s1 = []")
      case True
      then have "scan_loop s1 = (True, s')" using 1(2) False r b by (simp add: scan_loop.simps [of s])
      moreover have "sc_pos s \<noteq> 0" "sc_bufSize s \<noteq> 0" "\<not> sc_pending s1 \<noteq> []" using False True by simp_all
      ultimately have "scan_size s' < scan_size s1" using 1(1) r b by (metis (no_types))
      with le show ?thesis by simp
    next
      case ne: False
      then have "s' = pop_pending s1" using 1(2) False r b by (simp add: scan_loop.simps [of s])
      with pop_size [OF ne] le show ?thesis by simp
    qed
  qed
qed

lemma scan_size_less: "scan s = (True, s') \<Longrightarrow> scan_size s' < scan_size s"
  using scan_loop_size pop_size by (auto simp: scan_def split: if_splits)

text \<open>The loop of a caller: the lines it gets, and the error the scanner then reports.\<close>

function scan_all :: "rev_scanner \<Rightarrow> string list \<times> scan_error option" where
  "scan_all s =
    (case scan s of
       (False, s') \<Rightarrow> ([], sc_err s')
     | (True, s') \<Rightarrow> (case scan_all s' of (ls, e) \<Rightarrow> (sc_line s' # ls, e)))"
  by pat_completeness auto
termination
  by (relation "measure scan_size") (auto dest: scan_size_less [OF sym])

declare scan_all.simps [simp del]

lemma scanner_examples:
  "let s = newReverseScanner (join_with lf [''ab'', [], ''c'' @ [CHR 0x0D], []]) 1 9
   in scan_all (s\<lparr>sc_bufSize := 2\<rparr>) = ([''c'', [], ''ab''], None)"
  "let s = newReverseScanner (join_with lf [''abcdef'', ''x'']) 1 3
   in scan_all (s\<lparr>sc_bufSize := 2\<rparr>) = ([''x''], Some ErrTooLong)"
  by code_simp+

end
