(* ===== verification/Go_Text.thy ===== *)
theory Go_Text
  imports Go_Strings
begin

text \<open>More of package strings: Fields, Trim with a set of bytes, and the verb %q of package fmt.\<close>

text \<open>strings.Fields: the pieces between white space.\<close>

primrec word_len :: "string \<Rightarrow> nat" where
  "word_len [] = 0"
| "word_len (c # s) = (if lead_seq space_bytes (c # s) = 0 then Suc (word_len s) else 0)"

function go_fields :: "string \<Rightarrow> string list" where
  "go_fields s =
    (let t = trim_left s; n = word_len t in
     if t = [] \<or> n = 0 then [] else take n t # go_fields (drop n t))"
  by pat_completeness auto
termination
  by (relation "measure length")
    (auto simp: trim_left_def Let_def intro!: less_le_trans [OF diff_less suffix_length_le [OF suffix_strip_seqs]])

declare go_fields.simps [simp del]

text \<open>strings.Trim and TrimRight with a set of ASCII bytes.\<close>

definition trim_set_right :: "string \<Rightarrow> string \<Rightarrow> string" where
  "trim_set_right cs s = rev (dropWhile (\<lambda>c. c \<in> set cs) (rev s))"

definition trim_set :: "string \<Rightarrow> string \<Rightarrow> string" where
  "trim_set cs s = trim_set_right cs (dropWhile (\<lambda>c. c \<in> set cs) s)"

text \<open>
  The verb %q (strconv.Quote): ASCII control bytes are escaped, and bytes from 128 on are taken to
  be those of printable characters, which stay.
\<close>

definition quote_char :: "char \<Rightarrow> string" where
  "quote_char c =
    (let n = of_char c :: nat; hex = (\<lambda>d. if d < 10 then char_of (48 + d) else char_of (87 + d)) in
     if c = CHR 0x22 \<or> c = CHR 0x5C then [CHR 0x5C, c]
     else if c = CHR 0x07 then [CHR 0x5C, CHR ''a''] else if c = CHR 0x08 then [CHR 0x5C, CHR ''b'']
     else if c = CHR 0x09 then [CHR 0x5C, CHR ''t''] else if c = CHR 0x0A then [CHR 0x5C, CHR ''n'']
     else if c = CHR 0x0B then [CHR 0x5C, CHR ''v''] else if c = CHR 0x0C then [CHR 0x5C, CHR ''f'']
     else if c = CHR 0x0D then [CHR 0x5C, CHR ''r'']
     else if n < 32 \<or> n = 127 then [CHR 0x5C, CHR ''x'', hex (n div 16), hex (n mod 16)]
     else [c])"

definition go_quote :: "string \<Rightarrow> string" where
  "go_quote s = CHR 0x22 # concat (map quote_char s) @ [CHR 0x22]"

lemma text_examples:
  "go_fields '' ab  c '' = [''ab'', ''c'']" "go_fields []  = []"
  "trim_set ''*_'' ''*a_b*_'' = ''a_b''"
  "go_quote [CHR ''a'', CHR 0x22, CHR 0x0A, CHR 0x01] =
     [CHR 0x22, CHR ''a'', CHR 0x5C, CHR 0x22, CHR 0x5C, CHR ''n'', CHR 0x5C, CHR ''x'', CHR ''0'', CHR ''1'', CHR 0x22]"
  by code_simp+

end
