(* ===== verification/Chat_Limits.thy ===== *)
theory Chat_Limits
  imports Go_Map
begin

text \<open>
  The admission checks of the chat channels: the sliding-window rate limiter
  (internal/channels/chat/ratelimiter.go) and the allowlist (allowlist.go). Times are
  nanoseconds since Go's zero time, as unbounded integers; durations are nanoseconds. The clock
  is an argument of each call, as the code's now function is. The difference of two times
  saturates at the 64-bit bounds as Time.Sub does.
\<close>

section \<open>Times and durations\<close>

type_synonym time = int
type_synonym duration = int

definition time_millisecond :: duration where "time_millisecond = 1000000"
definition time_second :: duration where "time_second = 1000000000"
definition min_duration :: duration where "min_duration = - (2 ^ 63)"
definition max_duration :: duration where "max_duration = 2 ^ 63 - 1"

definition time_sub :: "time \<Rightarrow> time \<Rightarrow> duration" where
  "time_sub t u = max min_duration (min max_duration (t - u))"

lemma time_sub_ge: "d \<le> max_duration \<Longrightarrow> min_duration < d \<Longrightarrow> d \<le> time_sub t u \<longleftrightarrow> d \<le> t - u"
  by (auto simp: time_sub_def)

section \<open>The rate limiter\<close>

record rate_limiter =
  rl_limit :: int
  rl_window :: duration
  rl_events :: "(string, time list) gmap"

definition newRateLimiterWithClock :: "int \<Rightarrow> duration \<Rightarrow> rate_limiter" where
  "newRateLimiterWithClock lim win =
     \<lparr>rl_limit = (if lim < 1 then 1 else lim),
      rl_window = (if win \<le> 0 then time_second else win),
      rl_events = mempty\<rparr>"

definition rl_kept :: "rate_limiter \<Rightarrow> string \<Rightarrow> time \<Rightarrow> time list" where
  "rl_kept r key now =
     filter (\<lambda>ts. now - rl_window r < ts)
       (case mget (rl_events r) key of None \<Rightarrow> [] | Some evs \<Rightarrow> evs)"

definition allowWithDetails ::
    "rate_limiter \<Rightarrow> string \<Rightarrow> time \<Rightarrow> (bool \<times> duration) \<times> rate_limiter" where
  "allowWithDetails r key now =
    (let kept = rl_kept r key now in
     if rl_limit r \<le> int (length kept)
     then (let retryAfter = time_sub (hd kept + rl_window r) now;
               retryAfter = (if retryAfter < time_millisecond then time_millisecond else retryAfter)
           in ((False, retryAfter), r\<lparr>rl_events := mput key kept (rl_events r)\<rparr>))
     else ((True, 0), r\<lparr>rl_events := mput key (kept @ [now]) (rl_events r)\<rparr>))"

definition allow :: "rate_limiter \<Rightarrow> string \<Rightarrow> time \<Rightarrow> bool \<times> rate_limiter" where
  "allow r key now = (let ((ok, _), r') = allowWithDetails r key now in (ok, r'))"

text \<open>Running the limiter over a list of requests; the result is the list of admitted ones.\<close>

fun rl_run :: "rate_limiter \<Rightarrow> (string \<times> time) list \<Rightarrow> (string \<times> time) list" where
  "rl_run r [] = []"
| "rl_run r ((k, t) # reqs) =
     (let (ok, r') = allow r k t in (if ok then [(k, t)] else []) @ rl_run r' reqs)"

text \<open>The admitted times of one key, and those of them in the window that ends at \<open>t\<close>.\<close>

definition times_of :: "string \<Rightarrow> (string \<times> time) list \<Rightarrow> time list" where
  "times_of k es = map snd (filter (\<lambda>e. fst e = k) es)"

definition in_window :: "duration \<Rightarrow> time \<Rightarrow> time list \<Rightarrow> time list" where
  "in_window w t ts = filter (\<lambda>u. t - w < u \<and> u \<le> t) ts"

definition rl_wf :: "rate_limiter \<Rightarrow> bool" where
  "rl_wf r \<longleftrightarrow> 1 \<le> rl_limit r \<and> 0 < rl_window r"

lemma rl_wf_new [simp]: "rl_wf (newRateLimiterWithClock lim win)"
  by (simp add: rl_wf_def newRateLimiterWithClock_def time_second_def)

lemma allow_config [simp]:
  "rl_limit (snd (allow r k t)) = rl_limit r" "rl_window (snd (allow r k t)) = rl_window r"
  by (simp_all add: allow_def allowWithDetails_def Let_def split: if_splits)

text \<open>
  What the limiter remembers: for each key, all admitted times that some later request can
  still see, given the latest time \<open>t\<close> at which the key was asked for.
\<close>

definition rl_hist :: "rate_limiter \<Rightarrow> (string \<times> time) list \<Rightarrow> time \<Rightarrow> bool" where
  "rl_hist r adm t \<longleftrightarrow>
     (\<forall>k. \<forall>u \<ge> t. rl_kept r k u = filter (\<lambda>ts. u - rl_window r < ts) (times_of k adm)) \<and>
     (\<forall>e \<in> set adm. snd e \<le> t)"

lemma rl_kept_put:
  "rl_kept (r\<lparr>rl_events := mput k evs (rl_events r)\<rparr>) k' u =
     (if k' = k then filter (\<lambda>ts. u - rl_window r < ts) evs else rl_kept r k' u)"
  by (simp add: rl_kept_def gmap)

lemma filter_window_mono:
  "u \<le> (v::int) \<Longrightarrow> filter (\<lambda>ts. v - w < ts) (filter (\<lambda>ts. u - w < ts) xs) = filter (\<lambda>ts. v - w < ts) xs"
  by (induction xs) auto

lemma allow_kept:
  assumes "t \<le> u"
  shows "rl_kept (snd (allow r k t)) k' u =
    (if k' = k then filter (\<lambda>ts. u - rl_window r < ts)
        (rl_kept r k t @ (if fst (allow r k t) then [t] else []))
     else rl_kept r k' u)"
  by (simp add: allow_def allowWithDetails_def Let_def rl_kept_put)

lemma rl_hist_step:
  assumes h: "rl_hist r adm s" and st: "s \<le> t"
  shows "rl_hist (snd (allow r k t)) (adm @ (if fst (allow r k t) then [(k, t)] else [])) t"
proof -
  have "rl_kept (snd (allow r k t)) k' u =
      filter (\<lambda>ts. u - rl_window r < ts)
        (times_of k' (adm @ (if fst (allow r k t) then [(k, t)] else [])))"
    if "t \<le> u" for k' u
  proof (cases "k' = k")
    case True
    have "rl_kept r k t = filter (\<lambda>ts. t - rl_window r < ts) (times_of k adm)"
      using h st by (simp add: rl_hist_def)
    with True that show ?thesis
      by (simp add: allow_kept filter_window_mono times_of_def del: filter_filter)
  next
    case False
    with that h st show ?thesis by (simp add: allow_kept rl_hist_def times_of_def)
  qed
  moreover have "\<forall>e \<in> set (adm @ (if fst (allow r k t) then [(k, t)] else [])). snd e \<le> t"
    using h st by (auto simp: rl_hist_def)
  ultimately show ?thesis by (simp add: rl_hist_def)
qed

lemma allow_iff:
  "fst (allow r k t) \<longleftrightarrow> int (length (rl_kept r k t)) < rl_limit r"
  by (simp add: allow_def allowWithDetails_def Let_def)

text \<open>Every window of an admitted prefix holds at most the limit: the inductive form.\<close>

definition windows_ok :: "rate_limiter \<Rightarrow> (string \<times> time) list \<Rightarrow> bool" where
  "windows_ok r adm \<longleftrightarrow> (\<forall>k t. int (length (in_window (rl_window r) t (times_of k adm))) \<le> rl_limit r)"

lemma in_window_append:
  "in_window w t (xs @ ys) = in_window w t xs @ in_window w t ys"
  by (simp add: in_window_def)

lemma length_filter_le_filter:
  "(\<And>x. x \<in> set xs \<Longrightarrow> P x \<Longrightarrow> Q x) \<Longrightarrow> length (filter P xs) \<le> length (filter Q xs)"
  by (induction xs) (auto simp: le_SucI)

lemma windows_ok_step:
  assumes wf: "rl_wf r" and h: "rl_hist r adm s" and st: "s \<le> t" and ok: "windows_ok r adm"
  shows "windows_ok r (adm @ (if fst (allow r k t) then [(k, t)] else []))"
proof (cases "fst (allow r k t)")
  case False
  then show ?thesis using ok by simp
next
  case True
  have kept: "rl_kept r k t = filter (\<lambda>ts. t - rl_window r < ts) (times_of k adm)"
    using h st by (simp add: rl_hist_def)
  have lt: "int (length (rl_kept r k t)) < rl_limit r" using True by (simp add: allow_iff)
  have "int (length (in_window (rl_window r) u (times_of k' (adm @ [(k, t)])))) \<le> rl_limit r" for k' u
  proof (cases "k' = k \<and> u - rl_window r < t \<and> t \<le> u")
    case False
    then have "in_window (rl_window r) u (times_of k' (adm @ [(k, t)])) =
        in_window (rl_window r) u (times_of k' adm)"
      by (auto simp: times_of_def in_window_def)
    then show ?thesis using ok by (simp add: windows_ok_def)
  next
    case T: True
    have "length (in_window (rl_window r) u (times_of k adm)) \<le> length (rl_kept r k t)"
      unfolding kept in_window_def using T by (intro length_filter_le_filter) auto
    with T lt show ?thesis
      by (simp add: times_of_def in_window_append) (simp add: in_window_def)
  qed
  then show ?thesis using True by (simp add: windows_ok_def)
qed

lemma rl_run_windows:
  "rl_wf r \<Longrightarrow> rl_hist r adm s \<Longrightarrow> windows_ok r adm \<Longrightarrow> sorted (s # map snd reqs) \<Longrightarrow>
   windows_ok r (adm @ rl_run r reqs)"
proof (induction reqs arbitrary: r adm s)
  case Nil
  then show ?case by simp
next
  case (Cons req reqs)
  obtain k t where req: "req = (k, t)" by force
  obtain ok r' where a: "allow r k t = (ok, r')" by force
  let ?adm = "adm @ (if ok then [(k, t)] else [])"
  have st: "s \<le> t" and so: "sorted (t # map snd reqs)" using Cons.prems(4) by (auto simp: req)
  have cfg: "rl_limit r' = rl_limit r" "rl_window r' = rl_window r"
    using allow_config [of r k t] by (simp_all add: a)
  have h: "rl_hist r' ?adm t" using rl_hist_step [OF Cons.prems(2) st, of k] by (simp add: a)
  have w: "windows_ok r ?adm"
    using windows_ok_step [OF Cons.prems(1,2) st Cons.prems(3), of k] by (simp add: a)
  have wf: "rl_wf r'" using Cons.prems(1) by (simp add: rl_wf_def cfg)
  have "windows_ok r' (?adm @ rl_run r' reqs)"
    by (rule Cons.IH [OF wf h _ so]) (use w in \<open>simp add: windows_ok_def cfg\<close>)
  then show ?case by (simp add: req a windows_ok_def cfg)
qed

text \<open>
  A new rate limiter never admits more than its limit in any window: whatever requests
  arrive, in time order, for every key and every instant t the admitted requests of that key
  in the window that ends at t (length: the configured one, or a second) are at most the
  configured limit (at least one).
\<close>

theorem rate_limit_window:
  assumes "sorted (map snd reqs)"
  shows "int (length (in_window (rl_window (newRateLimiterWithClock lim win)) t
      (times_of k (rl_run (newRateLimiterWithClock lim win) reqs))))
    \<le> rl_limit (newRateLimiterWithClock lim win)"
proof (cases reqs)
  case Nil
  then show ?thesis by (simp add: in_window_def times_of_def newRateLimiterWithClock_def)
next
  case (Cons req rest)
  let ?r = "newRateLimiterWithClock lim win"
  have h: "rl_hist ?r [] (snd req)"
    by (simp add: rl_hist_def rl_kept_def newRateLimiterWithClock_def times_of_def)
  have w: "windows_ok ?r []"
    by (simp add: windows_ok_def times_of_def in_window_def newRateLimiterWithClock_def)
  have "windows_ok ?r ([] @ rl_run ?r reqs)"
    by (rule rl_run_windows [OF rl_wf_new h w]) (use assms Cons in simp)
  then show ?thesis by (simp add: windows_ok_def)
qed

theorem rate_limit_window_witness:
  "times_of ''u'' (rl_run (newRateLimiterWithClock 2 10) [(''u'', 100), (''u'', 101), (''u'', 105), (''u'', 111)])
      = [100, 101, 111] \<and>
   int (length (in_window (rl_window (newRateLimiterWithClock 2 10)) 105
      (times_of ''u'' (rl_run (newRateLimiterWithClock 2 10)
         [(''u'', 100), (''u'', 101), (''u'', 105), (''u'', 111)])))) \<le> 2"
proof -
  have s: "sorted (map snd [(''u'', 100::int), (''u'', 101), (''u'', 105), (''u'', 111)])" by simp
  have "rl_limit (newRateLimiterWithClock 2 10) = 2" by (simp add: newRateLimiterWithClock_def)
  with rate_limit_window [OF s, of 2 10 105 "''u''"] show ?thesis by simp code_simp
qed

text \<open>
  A refused request is told how long to wait: waiting at least that long (with no other
  request of the key in between) is enough for one more to be admitted, and the advice is never
  below a millisecond. This holds when the stored times are in order and lie in the past.
\<close>

theorem retry_after_admits:
  assumes wf: "rl_wf r" and win: "rl_window r \<le> max_duration"
    and evs: "mget (rl_events r) k = Some evs" "sorted evs" "\<forall>e \<in> set evs. e \<le> t"
    and cap: "int (length evs) \<le> rl_limit r"
    and ref: "allowWithDetails r k t = ((False, d), r')"
    and u: "t + d \<le> u"
  shows "fst (allow r' k u) \<and> time_millisecond \<le> d"
proof -
  let ?kept = "rl_kept r k t"
  from ref have full: "rl_limit r \<le> int (length ?kept)"
    and r': "r' = r\<lparr>rl_events := mput k ?kept (rl_events r)\<rparr>"
    and d: "d = max time_millisecond (time_sub (hd ?kept + rl_window r) t)"
    by (auto simp: allowWithDetails_def Let_def max_def split: if_splits)
  have ne: "?kept \<noteq> []" using full wf by (auto simp: rl_wf_def)
  have kept: "?kept = filter (\<lambda>ts. t - rl_window r < ts) evs" using evs by (simp add: rl_kept_def)
  have hd_le: "hd ?kept \<le> t" using ne evs(3) hd_in_set [OF ne] by (auto simp: kept)
  have "hd ?kept + rl_window r - t \<le> max_duration" using win hd_le by linarith
  then have "hd ?kept + rl_window r - t \<le> time_sub (hd ?kept + rl_window r) t"
    by (simp add: time_sub_def)
  then have le: "hd ?kept + rl_window r \<le> u" using u d by linarith
  have "length (filter (\<lambda>ts. u - rl_window r < ts) ?kept) < length ?kept"
    using ne le by (cases ?kept) (auto simp: less_Suc_eq_le)
  moreover have "length ?kept \<le> length evs" by (simp add: kept)
  with cap have "int (length ?kept) \<le> rl_limit r" by linarith
  moreover have "rl_kept r' k u = filter (\<lambda>ts. u - rl_window r < ts) ?kept"
    by (simp add: r' rl_kept_put)
  ultimately show ?thesis by (simp add: allow_iff d r')
qed

theorem retry_after_admits_witness:
  "(let r = newRateLimiterWithClock 1 5000000; r1 = snd (allow r ''u'' 100)
    in fst (allowWithDetails r1 ''u'' 2000100) = (False, 3000000) \<and>
       fst (allow (snd (allowWithDetails r1 ''u'' 2000100)) ''u'' 5000100))"
proof -
  let ?r = "newRateLimiterWithClock 1 5000000"
  let ?r1 = "snd (allow ?r ''u'' 100)"
  have a: "fst (allowWithDetails ?r1 ''u'' 2000100) = (False, 3000000)" by code_simp
  then have ref: "allowWithDetails ?r1 ''u'' 2000100 =
      ((False, 3000000), snd (allowWithDetails ?r1 ''u'' 2000100))"
    by (metis prod.collapse)
  have wf: "rl_wf ?r1" and win: "rl_window ?r1 \<le> max_duration"
    by (simp_all add: rl_wf_def newRateLimiterWithClock_def max_duration_def)
  have evs: "mget (rl_events ?r1) ''u'' = Some [100]" by code_simp
  have cap: "int (length [100 :: int]) \<le> rl_limit ?r1" by (simp add: newRateLimiterWithClock_def)
  from retry_after_admits [OF wf win evs _ _ cap ref, of 5000100] a show ?thesis
    by (simp add: Let_def)
qed

section \<open>The allowlist\<close>

record allowlist =
  al_users :: "(string, unit) gmap"
  al_rooms :: "(string, unit) gmap"

definition normalizeAllowlistID :: "string \<Rightarrow> string" where
  "normalizeAllowlistID value = to_lower (trim_space value)"

definition add_ids :: "string list \<Rightarrow> (string, unit) gmap" where
  "add_ids ids = fold (\<lambda>i m. let i = normalizeAllowlistID i in if i \<noteq> [] then mput i () m else m)
     ids mempty"

definition newAllowlist :: "string list \<Rightarrow> string list \<Rightarrow> allowlist" where
  "newAllowlist userIDs roomIDs = \<lparr>al_users = add_ids userIDs, al_rooms = add_ids roomIDs\<rparr>"

definition userAllowed :: "allowlist \<Rightarrow> string \<Rightarrow> bool" where
  "userAllowed a userID =
    (if mkeys (al_users a) = [] then False else mhas (al_users a) (normalizeAllowlistID userID))"

definition roomAllowed :: "allowlist \<Rightarrow> string \<Rightarrow> bool" where
  "roomAllowed a roomID =
    (if mkeys (al_rooms a) = [] then True else mhas (al_rooms a) (normalizeAllowlistID roomID))"

definition messageAllowed :: "allowlist \<Rightarrow> string \<Rightarrow> string \<Rightarrow> bool" where
  "messageAllowed a userID roomID = (userAllowed a userID \<and> roomAllowed a roomID)"

lemma add_ids_keys:
  "dom (mget (add_ids ids)) = {normalizeAllowlistID i | i. i \<in> set ids \<and> normalizeAllowlistID i \<noteq> []}"
proof -
  have "dom (mget (fold (\<lambda>i m. let i = normalizeAllowlistID i in if i \<noteq> [] then mput i () m else m) ids m))
      = dom (mget m) \<union> {normalizeAllowlistID i | i. i \<in> set ids \<and> normalizeAllowlistID i \<noteq> []}" for m
    by (induction ids arbitrary: m) (auto simp: Let_def gmap split: if_splits)
  then show ?thesis by (simp add: add_ids_def dom_def)
qed

lemma mhas_add_ids:
  "mhas (add_ids ids) (normalizeAllowlistID x) \<longleftrightarrow>
     normalizeAllowlistID x \<noteq> [] \<and> (\<exists>i \<in> set ids. normalizeAllowlistID i = normalizeAllowlistID x)"
proof -
  have "mhas (add_ids ids) (normalizeAllowlistID x) \<longleftrightarrow> normalizeAllowlistID x \<in> dom (mget (add_ids ids))"
    by (simp add: mhas_def dom_def)
  then show ?thesis by (simp add: add_ids_keys) metis
qed

lemma mkeys_Nil_dom: "mkeys m = [] \<longleftrightarrow> dom (mget m) = {}"
  using set_mkeys [of m] by (metis set_empty)

text \<open>
  The allowlist is deny-by-default for users and open-by-default for rooms: a message passes
  exactly when its user id is, up to surrounding white space and letter case, one of the
  configured non-blank user ids, and either every configured room id is blank (no room
  restriction) or its room id is one of them in the same sense.
\<close>

theorem allowlist_exact:
  "messageAllowed (newAllowlist userIDs roomIDs) u rm \<longleftrightarrow>
    (trim_space u \<noteq> [] \<and> (\<exists>i \<in> set userIDs. to_lower (trim_space i) = to_lower (trim_space u))) \<and>
    (list_all (\<lambda>i. trim_space i = []) roomIDs \<or>
     (trim_space rm \<noteq> [] \<and> (\<exists>i \<in> set roomIDs. to_lower (trim_space i) = to_lower (trim_space rm))))"
proof -
  have ne: "normalizeAllowlistID x \<noteq> [] \<longleftrightarrow> trim_space x \<noteq> []" for x
    by (simp add: normalizeAllowlistID_def)
  have empty: "mkeys (add_ids ids) = [] \<longleftrightarrow> \<not> (\<exists>i \<in> set ids. trim_space i \<noteq> [])" for ids
    by (auto simp: mkeys_Nil_dom add_ids_keys ne)
  have users: "userAllowed (newAllowlist userIDs roomIDs) u \<longleftrightarrow>
      trim_space u \<noteq> [] \<and> (\<exists>i \<in> set userIDs. to_lower (trim_space i) = to_lower (trim_space u))"
    unfolding userAllowed_def newAllowlist_def
    by (simp add: empty mhas_add_ids ne) (auto simp: normalizeAllowlistID_def)
  have rooms: "roomAllowed (newAllowlist userIDs roomIDs) rm \<longleftrightarrow>
      \<not> (\<exists>i \<in> set roomIDs. trim_space i \<noteq> []) \<or>
      (trim_space rm \<noteq> [] \<and> (\<exists>i \<in> set roomIDs. to_lower (trim_space i) = to_lower (trim_space rm)))"
    unfolding roomAllowed_def newAllowlist_def
    by (simp add: empty mhas_add_ids ne) (auto simp: normalizeAllowlistID_def)
  show ?thesis by (simp add: messageAllowed_def users rooms list_all_iff)
qed

end
