(* ===== verification/Chat_Bridge.thy ===== *)
theory Chat_Bridge
  imports Reverse_Scanner Go_Text Chat_Limits
begin

text \<open>
  What the bots share: internal/channels/chat/bridge_helpers.go and errors.go, with the thinking modes of
  internal/config/config.go. The status of a run and the context are asked of a world \<open>'w\<close>.
  FormatToolActivity is left out.
\<close>

section \<open>Inbound messages\<close>

definition normalizeInboundMessage :: "string \<Rightarrow> string \<Rightarrow> string" where
  "normalizeInboundMessage content commandPrefix =
    (if content = [] then []
     else if prefix ''/'' content then trim_space content
     else if commandPrefix = [] then trim_space content
     else if \<not> prefix commandPrefix content then []
     else trim_space (drop (length commandPrefix) content))"

definition ThinkingModeNever :: string where "ThinkingModeNever = ''never''"
definition ThinkingModeOnError :: string where "ThinkingModeOnError = ''on_error''"
definition ThinkingModeAlways :: string where "ThinkingModeAlways = ''always''"

definition normalizeThinkingMode :: "string \<Rightarrow> string" where
  "normalizeThinkingMode mode = (let value = to_lower (trim_space mode) in if value = [] then ThinkingModeNever else value)"

definition isValidThinkingMode :: "string \<Rightarrow> bool" where
  "isValidThinkingMode mode \<longleftrightarrow> normalizeThinkingMode mode \<in> {ThinkingModeNever, ThinkingModeOnError, ThinkingModeAlways}"

datatype thinking_error = MessageRequired | InvalidThinkingMode

definition trim_prefix :: "string \<Rightarrow> string \<Rightarrow> string" where
  "trim_prefix p s = (if prefix p s then drop (length p) s else s)"

definition parseThinkingOverride :: "string \<Rightarrow> thinking_error + (string \<times> string)" where
  "parseThinkingOverride content =
    (let clean = trim_space content in
     if clean = [] then Inl MessageRequired
     else if prefix ''/'' clean then Inr (clean, [])
     else (case go_fields clean of
         [] \<Rightarrow> Inl MessageRequired
       | word # _ \<Rightarrow>
         if \<not> prefix ''thinking='' (to_lower (trim_space word)) then Inr (clean, [])
         else
          (let normalized = normalizeThinkingMode (trim_space (trim_prefix ''thinking='' word)) in
           if \<not> isValidThinkingMode normalized then Inl InvalidThinkingMode
           else
            (let rest = trim_space (trim_prefix word clean) in
             if rest = [] then Inl MessageRequired else Inr (rest, normalized)))))"

section \<open>Errors\<close>

record rate_limit_error =
  re_scope :: string
  re_retryAfterSeconds :: int
  re_retryAfterDur :: duration

definition ceil_seconds :: "duration \<Rightarrow> int" where
  "ceil_seconds d =
    (let seconds = d div time_second; seconds = (if d mod time_second \<noteq> 0 then seconds + 1 else seconds)
     in if seconds < 1 then 1 else seconds)"

definition newRateLimitError :: "string \<Rightarrow> duration \<Rightarrow> rate_limit_error" where
  "newRateLimitError scope retryAfter =
    (let retryAfter = (if retryAfter < time_millisecond then time_millisecond else retryAfter)
     in \<lparr>re_scope = trim_space scope, re_retryAfterSeconds = ceil_seconds retryAfter, re_retryAfterDur = retryAfter\<rparr>)"

definition rate_limit_text :: "rate_limit_error \<Rightarrow> string" where
  "rate_limit_text e =
    (let scope = trim_space (re_scope e); scope = (if scope = [] then ''sender'' else scope)
     in if 0 < re_retryAfterSeconds e
        then ''chat '' @ scope @ '' is rate limited; retry in '' @ itoa (re_retryAfterSeconds e) @ ''s''
        else ''chat '' @ scope @ '' is rate limited'')"

definition rate_limit_retryAfter :: "rate_limit_error \<Rightarrow> duration" where
  "rate_limit_retryAfter e =
    (if 0 < re_retryAfterDur e then re_retryAfterDur e
     else if 0 < re_retryAfterSeconds e then re_retryAfterSeconds e * time_second
     else 0)"

text \<open>An error as the bots see it: its text, and the rate limit error it wraps if it does.\<close>

record bridge_error =
  be_text :: string
  be_rateLimit :: "rate_limit_error option"

definition retryAfterFromError :: "bridge_error \<Rightarrow> duration" where
  "retryAfterFromError e = (case be_rateLimit e of None \<Rightarrow> 0 | Some r \<Rightarrow> rate_limit_retryAfter r)"

definition formatRateLimit :: "duration \<Rightarrow> string" where
  "formatRateLimit retryAfter =
    (if retryAfter \<le> 0 then ''rate limited, try again soon''
     else ''rate limited, retry in '' @ itoa (ceil_seconds retryAfter) @ ''s'')"

definition formatBridgeError :: "bridge_error option \<Rightarrow> string \<Rightarrow> string" where
  "formatBridgeError err allowlistScope =
    (case err of
       None \<Rightarrow> ''request failed''
     | Some e \<Rightarrow>
       if 0 < retryAfterFromError e then formatRateLimit (retryAfterFromError e)
       else
        (let msg = trim_space (be_text e); msg = (if msg = [] then ''request failed'' else msg); lower = to_lower msg in
         if contains lower ''rate limited'' then ''rate limited, try again soon''
         else if contains lower ''not allowlisted''
         then (let scope = trim_space allowlistScope in
               ''not allowed in this '' @ (if scope = [] then ''channel or user scope'' else scope))
         else if contains lower ''run queue is full'' then ''run queue is full, retry shortly''
         else if contains msg ''request.invalid_thinking_mode''
         then ''error[request.invalid_thinking_mode]: thinking must be one of never|on_error|always''
         else ''request failed: '' @ msg))"

section \<open>Waiting for a run\<close>

record run_status =
  rs_status :: string
  rs_output :: string
  rs_error :: string

text \<open>An error is its text and whether it is context.DeadlineExceeded.\<close>

type_synonym ctx_error = "string \<times> bool"

record 'w waiter =
  wt_status :: "string \<Rightarrow> 'w \<Rightarrow> (ctx_error + run_status) \<times> 'w"
  wt_ctxErr :: "'w \<Rightarrow> ctx_error option"
  wt_pause :: "'w \<Rightarrow> ctx_error option \<times> 'w"

definition terminal_status :: "string \<Rightarrow> bool" where
  "terminal_status status \<longleftrightarrow> to_lower (trim_space status) \<in> {''completed'', ''failed'', ''timeout'', ''cancelled''}"

definition timeout_status :: "string \<Rightarrow> run_status" where
  "timeout_status e = \<lparr>rs_status = ''timeout'', rs_output = [], rs_error = e\<rparr>"

text \<open>
  One round of the loop: it ends the wait, or it leaves the world after the pause. The pause ends with
  the interval, or with the error of the context when the context ends it.
\<close>

datatype 'w wait_step = Ended "ctx_error + run_status" 'w | GoesOn 'w

definition wait_round :: "'w waiter \<Rightarrow> string \<Rightarrow> 'w \<Rightarrow> 'w wait_step" where
  "wait_round t runID w =
    (case wt_status t runID w of
       (Inl e, w1) \<Rightarrow>
         (case wt_ctxErr t w1 of
            Some c \<Rightarrow> if snd e \<and> snd c then Ended (Inr (timeout_status (fst e))) w1 else Ended (Inl e) w1
          | None \<Rightarrow> Ended (Inl e) w1)
     | (Inr run, w1) \<Rightarrow>
         if terminal_status (rs_status run) then Ended (Inr run) w1
         else
          (case wt_pause t w1 of
             (Some c, w2) \<Rightarrow> if snd c then Ended (Inr (timeout_status (fst c))) w2 else Ended (Inl c) w2
           | (None, w2) \<Rightarrow> GoesOn w2))"

partial_function (option) wait_loop :: "'w waiter \<Rightarrow> string \<Rightarrow> 'w \<Rightarrow> ((ctx_error + run_status) \<times> 'w) option" where
  "wait_loop t runID w = (case wait_round t runID w of Ended r w' \<Rightarrow> Some (r, w') | GoesOn w' \<Rightarrow> wait_loop t runID w')"

definition waitForTerminalRun :: "'w waiter option \<Rightarrow> string \<Rightarrow> 'w \<Rightarrow> ((ctx_error + run_status) \<times> 'w) option" where
  "waitForTerminalRun waiter runID w =
    (case waiter of
       None \<Rightarrow> Some (Inl (''run status lookup is not configured'', False), w)
     | Some t \<Rightarrow> wait_loop t runID w)"

section \<open>Outbound messages\<close>

definition message_cut :: "nat \<Rightarrow> string \<Rightarrow> nat" where
  "message_cut maxLen remaining =
    (case last_index (CHR 0x0A) (take maxLen remaining) of
       None \<Rightarrow> maxLen | Some n \<Rightarrow> if n = 0 then maxLen else n)"

lemma message_cut_bounds: "0 < maxLen \<Longrightarrow> 0 < message_cut maxLen s \<and> message_cut maxLen s \<le> maxLen"
  by (auto simp: message_cut_def dest!: last_index_less split: option.split)

lemma split_shorter:
  assumes "\<not> (maxLen = 0 \<or> length s \<le> maxLen)"
  shows "length (trim_space (drop (message_cut maxLen s) s)) < length s"
proof -
  have "0 < message_cut maxLen s" using assms message_cut_bounds by blast
  moreover have "length (trim_space (drop (message_cut maxLen s) s)) \<le> length s - message_cut maxLen s"
    using length_trim_space [of "drop (message_cut maxLen s) s"] by simp
  ultimately show ?thesis using assms by linarith
qed

text \<open>The loop, and what it leaves. A length of 0 does not occur: the caller replaces it.\<close>

function split_loop :: "nat \<Rightarrow> string \<Rightarrow> string list" where
  "split_loop maxLen remaining =
    (if maxLen = 0 \<or> length remaining \<le> maxLen then (if remaining \<noteq> [] then [remaining] else [])
     else
      (let n = message_cut maxLen remaining; part = trim_space (take n remaining) in
       (if part \<noteq> [] then [part] else []) @ split_loop maxLen (trim_space (drop n remaining))))"
  by pat_completeness auto
termination
  by (relation "measure (\<lambda>(maxLen, remaining). length remaining)") (auto simp: split_shorter)

declare split_loop.simps [simp del]

definition splitMessage :: "string \<Rightarrow> int \<Rightarrow> string list" where
  "splitMessage text maxLen =
    (let trimmed = trim_space text in
     if trimmed = [] then [''(empty)'']
     else
      (let maxLen = (if maxLen \<le> 0 then 1900 else maxLen); out = split_loop (nat maxLen) trimmed in
       if out = [] then [''(empty)''] else out))"

lemma bridge_examples:
  "normalizeInboundMessage ''!ask hello '' ''!ask'' = ''hello''"
  "parseThinkingOverride ''thinking=always what is it'' = Inr (''what is it'', ''always'')"
  "parseThinkingOverride ''Thinking=always what is it'' = Inl InvalidThinkingMode"
  "splitMessage (''ab cd'' @ lf @ ''ef'') 6 = [''ab cd'', ''ef'']"
  by code_simp+

end
