(* ===== verification/Message_Content.thy ===== *)
theory Message_Content
  imports Go_Strings
begin

text \<open>
  Parts of a message (internal/messagecontent/messagecontent.go): text and images. What base64 text
  decodes to (encoding/base64, the standard alphabet with padding) is written out; line ends in it
  are skipped. Normalising twice changes nothing.
\<close>

section \<open>base64\<close>

definition b64_val :: "char \<Rightarrow> nat option" where
  "b64_val c =
    (let n = of_char c :: nat in
     if 65 \<le> n \<and> n \<le> 90 then Some (n - 65)
     else if 97 \<le> n \<and> n \<le> 122 then Some (n - 71)
     else if 48 \<le> n \<and> n \<le> 57 then Some (n + 4)
     else if c = CHR ''+'' then Some 62
     else if c = CHR ''/'' then Some 63
     else None)"

fun b64_quads :: "string \<Rightarrow> string option" where
  "b64_quads [] = Some []"
| "b64_quads (a # b # c # d # s) =
     (case (b64_val a, b64_val b) of
        (Some va, Some vb) \<Rightarrow>
          (case (b64_val c, b64_val d) of
             (Some vc, Some vd) \<Rightarrow>
               map_option (\<lambda>t. char_of (va * 4 + vb div 16) # char_of (vb mod 16 * 16 + vc div 4) # char_of (vc mod 4 * 64 + vd) # t)
                 (b64_quads s)
           | (Some vc, None) \<Rightarrow>
               (if d = CHR ''='' \<and> s = [] then Some [char_of (va * 4 + vb div 16), char_of (vb mod 16 * 16 + vc div 4)] else None)
           | (None, _) \<Rightarrow>
               (if c = CHR ''='' \<and> d = CHR ''='' \<and> s = [] then Some [char_of (va * 4 + vb div 16)] else None))
      | _ \<Rightarrow> None)"
| "b64_quads _ = None"

definition b64_decode :: "string \<Rightarrow> string option" where
  "b64_decode s = b64_quads (filter (\<lambda>c. c \<noteq> CHR 0x0A \<and> c \<noteq> CHR 0x0D) s)"

section \<open>Parts\<close>

definition TypeText :: string where "TypeText = ''text''"
definition TypeImage :: string where "TypeImage = ''image''"

definition allowedImageMIMETypes :: "string list" where
  "allowedImageMIMETypes = [''image/gif'', ''image/jpeg'', ''image/png'', ''image/webp'']"

record content_part =
  cp_type :: string
  cp_text :: string
  cp_mimeType :: string
  cp_data :: string

text \<open>None stands for an error; an empty prefix decodes to nothing.\<close>

definition decodeImageHeaderPrefix :: "string \<Rightarrow> nat \<Rightarrow> string option" where
  "decodeImageHeaderPrefix data maxBytes =
    (let trimmed = trim_space data in
     if trimmed = [] \<or> maxBytes = 0 then Some []
     else (let full = (maxBytes + 2) div 3 * 4;
               n = (if length trimmed < full then length trimmed
                    else (let m = full - full mod 4 in if m = 0 then length trimmed - length trimmed mod 4 else m))
           in if n = 0 then Some [] else b64_decode (take n trimmed)))"

definition png_header :: string where
  "png_header = [CHR 0x89, CHR ''P'', CHR ''N'', CHR ''G'', CHR 0x0D, CHR 0x0A, CHR 0x1A, CHR 0x0A]"

definition sanitizeImageMIMEType :: "string \<Rightarrow> string \<Rightarrow> string" where
  "sanitizeImageMIMEType mimeType data =
    (let mt = to_lower (trim_space mimeType) in
     if mt \<in> set allowedImageMIMETypes then mt
     else case decodeImageHeaderPrefix data 16 of
         None \<Rightarrow> []
       | Some body \<Rightarrow>
         if body = [] then []
         else if prefix png_header body then ''image/png''
         else if 12 \<le> length body \<and> prefix ''RIFF'' body \<and> take 4 (drop 8 body) = ''WEBP'' then ''image/webp''
         else if prefix [CHR 0xFF, CHR 0xD8, CHR 0xFF] body then ''image/jpeg''
         else if prefix ''GIF87a'' body \<or> prefix ''GIF89a'' body then ''image/gif''
         else [])"

definition text_part :: "string \<Rightarrow> content_part" where
  "text_part t = \<lparr>cp_type = TypeText, cp_text = t, cp_mimeType = [], cp_data = []\<rparr>"

definition image_part :: "string \<Rightarrow> string \<Rightarrow> content_part" where
  "image_part mt d = \<lparr>cp_type = TypeImage, cp_text = [], cp_mimeType = mt, cp_data = d\<rparr>"

definition normalize_part :: "content_part \<Rightarrow> content_part list" where
  "normalize_part part =
    (let ty = to_lower (trim_space (cp_type part)) in
     if ty = TypeText then
       (let text = trim_space (cp_text part) in if text = [] then [] else [text_part text])
     else if ty = TypeImage then
       (let mt = sanitizeImageMIMEType (cp_mimeType part) (cp_data part); d = trim_space (cp_data part) in
        if mt = [] \<or> d = [] then [] else [image_part mt d])
     else [])"

definition normalize_parts :: "content_part list \<Rightarrow> content_part list" where
  "normalize_parts parts = concat (map normalize_part parts)"

text \<open>strings.EqualFold with an ASCII lower-case constant, on text without the two letters outside ASCII
  that fold to k and s.\<close>

definition visibleText :: "content_part list \<Rightarrow> string" where
  "visibleText parts =
    trim_space (join_with [CHR 0x0A]
      (filter (\<lambda>t. t \<noteq> []) (map (\<lambda>p. trim_space (cp_text p))
        (filter (\<lambda>p. to_lower (trim_space (cp_type p)) = TypeText) parts))))"

definition hasImage :: "content_part list \<Rightarrow> bool" where
  "hasImage parts = list_ex (\<lambda>p. to_lower (trim_space (cp_type p)) = TypeImage) parts"

lemma content_examples:
  "b64_decode ''iVBORw0KGgo='' = Some png_header"
  "map cp_mimeType (normalize_parts [image_part ''application/octet-stream'' ''/9j/2w=='']) = [''image/jpeg'']"
  "normalize_parts [image_part ''text/plain'' ''***not-base64***''] = []"
  by code_simp+

lemma sanitize_allowed: "sanitizeImageMIMEType m d \<noteq> [] \<Longrightarrow> sanitizeImageMIMEType m d \<in> set allowedImageMIMETypes"
  by (auto simp: sanitizeImageMIMEType_def Let_def allowedImageMIMETypes_def split: option.splits if_splits)

lemma allowed_fixed: "m \<in> set allowedImageMIMETypes \<Longrightarrow> sanitizeImageMIMEType m d = m"
proof -
  have "list_all (\<lambda>m. to_lower (trim_space m) = m) allowedImageMIMETypes" by code_simp
  then show "m \<in> set allowedImageMIMETypes \<Longrightarrow> sanitizeImageMIMEType m d = m"
    by (simp add: list_all_iff sanitizeImageMIMEType_def)
qed

lemma part_types: "to_lower (trim_space TypeText) = TypeText" "to_lower (trim_space TypeImage) = TypeImage"
  "TypeText \<noteq> TypeImage"
  by code_simp+

lemma normalize_part_idem: "q \<in> set (normalize_part p) \<Longrightarrow> normalize_part q = [q]"
proof -
  assume "q \<in> set (normalize_part p)"
  then consider t where "q = text_part (trim_space t)" "trim_space t \<noteq> []"
    | m d where "q = image_part (sanitizeImageMIMEType m d) (trim_space d)"
        "sanitizeImageMIMEType m d \<noteq> []" "trim_space d \<noteq> []"
    by (auto simp: normalize_part_def Let_def split: if_splits)
  then show ?thesis
  proof cases
    case 1
    then show ?thesis using part_types by (simp add: normalize_part_def text_part_def)
  next
    case 2
    then show ?thesis using part_types allowed_fixed [OF sanitize_allowed [OF 2(2)]]
      by (simp add: normalize_part_def image_part_def)
  qed
qed

lemma normalize_parts_idem: "normalize_parts (normalize_parts ps) = normalize_parts ps"
proof -
  have "map normalize_part (normalize_parts ps) = map (\<lambda>q. [q]) (normalize_parts ps)"
    using normalize_part_idem by (auto simp: normalize_parts_def)
  then have "concat (map normalize_part (normalize_parts ps)) = concat (map (\<lambda>q. [q]) (normalize_parts ps))"
    by (rule arg_cong)
  then show ?thesis by (simp add: normalize_parts_def [of "normalize_parts ps"])
qed

end
