(* ===== verification/Go_Time.thy ===== *)
theory Go_Time
  imports Go_Float "HOL-Library.Monad_Syntax"
begin

text \<open>
  Package time as the program uses it. A time is the number of nanoseconds since
  0001-01-01T00:00:00Z, Go's zero time; a duration is an int64 number of nanoseconds. Modelled are
  Sub with its saturation, the calendar, Parse and Format with the layout RFC3339 (in UTC), and
  ParseDuration. Parse follows the general parser of the package, which also accepts a one-digit
  hour, a fraction of a second after a point or comma, and offsets up to 24:60.
\<close>

type_synonym time = int

definition ns_per_sec :: int where "ns_per_sec = 1000000000"
definition max_duration :: int where "max_duration = 9223372036854775807"
definition min_duration :: int where "min_duration = - 9223372036854775808"

definition time_sub :: "time \<Rightarrow> time \<Rightarrow> int" where
  "time_sub t u = max min_duration (min max_duration (t - u))"

section \<open>The calendar\<close>

definition is_leap :: "int \<Rightarrow> bool" where
  "is_leap y = (y mod 4 = 0 \<and> (y mod 100 \<noteq> 0 \<or> y mod 400 = 0))"

definition days_before_year :: "int \<Rightarrow> int" where
  "days_before_year y = (let n = y - 1 in 365 * n + n div 4 - n div 100 + n div 400)"

definition days_before :: "int list" where
  "days_before = [0, 31, 59, 90, 120, 151, 181, 212, 243, 273, 304, 334, 365]"

definition days_in :: "int \<Rightarrow> int \<Rightarrow> int" where
  "days_in m y =
    (if m = 2 \<and> is_leap y then 29 else days_before ! nat m - days_before ! nat (m - 1))"

text \<open>The number of days from 0001-01-01 to a date.\<close>

definition date_days :: "int \<Rightarrow> int \<Rightarrow> int \<Rightarrow> int" where
  "date_days y m d =
    days_before_year y + days_before ! nat (m - 1) + (if is_leap y \<and> 3 \<le> m then 1 else 0) + d - 1"

text \<open>The year of a day and the day in the year, from zero.\<close>

definition year_day :: "int \<Rightarrow> int \<times> int" where
  "year_day d =
    (let n400 = d div 146097; r = d mod 146097;
         n100 = min 3 (r div 36524); r1 = r - 36524 * n100;
         n4 = r1 div 1461; r2 = r1 mod 1461;
         n1 = min 3 (r2 div 365)
     in (400 * n400 + 100 * n100 + 4 * n4 + n1 + 1, r2 - 365 * n1))"

definition month_day :: "bool \<Rightarrow> int \<Rightarrow> int \<times> int" where
  "month_day leap yday =
    (if leap \<and> yday = 59 then (2, 29)
     else let day = (if leap \<and> 59 < yday then yday - 1 else yday);
              m = day div 31;
              e = days_before ! nat (m + 1)
          in if e \<le> day then (m + 2, day - e + 1) else (m + 1, day - days_before ! nat m + 1))"

definition civil :: "int \<Rightarrow> int \<times> int \<times> int" where
  "civil d = (case year_day d of (y, yday) \<Rightarrow> (case month_day (is_leap y) yday of (m, day) \<Rightarrow> (y, m, day)))"

section \<open>Format\<close>

definition zero_pad :: "nat \<Rightarrow> int \<Rightarrow> string" where
  "zero_pad w n = (let s = nat_digits (nat n) in replicate (w - length s) (CHR ''0'') @ s)"

definition format_year :: "int \<Rightarrow> string" where
  "format_year y = (if y < 0 then ''-'' @ zero_pad 4 (- y) else zero_pad 4 y)"

definition format_rfc3339 :: "time \<Rightarrow> string" where
  "format_rfc3339 t =
    (let secs = t div ns_per_sec; sod = secs mod 86400 in
     case civil (secs div 86400) of (y, m, d) \<Rightarrow>
       format_year y @ ''-'' @ zero_pad 2 m @ ''-'' @ zero_pad 2 d @ ''T'' @ zero_pad 2 (sod div 3600) @
       '':'' @ zero_pad 2 (sod mod 3600 div 60) @ '':'' @ zero_pad 2 (sod mod 60) @ ''Z'')"

section \<open>Parse\<close>

definition p_lit :: "char \<Rightarrow> string \<Rightarrow> string option" where
  "p_lit c s = (case s of d # r \<Rightarrow> if d = c then Some r else None | [] \<Rightarrow> None)"

fun p_num2 :: "string \<Rightarrow> (int \<times> string) option" where
  "p_num2 (a # b # r) =
     (if is_digit_char a \<and> is_digit_char b then Some (int (digits_val [a, b]), r) else None)"
| "p_num2 _ = None"

text \<open>The hour may have one digit.\<close>

fun p_num12 :: "string \<Rightarrow> (int \<times> string) option" where
  "p_num12 (a # b # r) =
     (if is_digit_char a
      then if is_digit_char b then Some (int (digits_val [a, b]), r) else Some (int (digits_val [a]), b # r)
      else None)"
| "p_num12 [a] = (if is_digit_char a then Some (int (digits_val [a]), []) else None)"
| "p_num12 [] = None"

definition p_num4 :: "string \<Rightarrow> (int \<times> string) option" where
  "p_num4 s =
    (if 4 \<le> length s \<and> list_all is_digit_char (take 4 s)
     then Some (int (digits_val (take 4 s)), drop 4 s) else None)"

definition in_range :: "int \<Rightarrow> int \<Rightarrow> int \<Rightarrow> unit option" where
  "in_range lo hi n = (if lo \<le> n \<and> n \<le> hi then Some () else None)"

text \<open>A fraction of a second: its first nine digits count.\<close>

definition p_fraction :: "string \<Rightarrow> int \<times> string" where
  "p_fraction s =
    (case s of
       c # d # r \<Rightarrow>
         if (c = CHR ''.'' \<or> c = CHR '','') \<and> is_digit_char d
         then let ds = takeWhile is_digit_char (d # r); fs = take 9 ds
              in (int (digits_val fs) * 10 ^ (9 - length fs), drop (length ds) (d # r))
         else (0, s)
     | _ \<Rightarrow> (0, s))"

definition p_zone :: "string \<Rightarrow> (int \<times> string) option" where
  "p_zone s =
    (if prefix ''Z'' s then Some (0, drop 1 s)
     else case s of
       [] \<Rightarrow> None
     | sign # s1 \<Rightarrow>
       do {
         (hh, s2) \<leftarrow> p_num2 s1;
         s3 \<leftarrow> p_lit (CHR '':'') s2;
         (mm, s4) \<leftarrow> p_num2 s3;
         in_range 0 24 hh;
         in_range 0 60 mm;
         if sign = CHR ''+'' then Some ((hh * 60 + mm) * 60, s4)
         else if sign = CHR ''-'' then Some (- ((hh * 60 + mm) * 60), s4)
         else None
       })"

definition parse_rfc3339 :: "string \<Rightarrow> time option" where
  "parse_rfc3339 s =
    do {
      (y, s) \<leftarrow> p_num4 s;
      s \<leftarrow> p_lit (CHR ''-'') s;
      (m, s) \<leftarrow> p_num2 s;
      in_range 1 12 m;
      s \<leftarrow> p_lit (CHR ''-'') s;
      (d, s) \<leftarrow> p_num2 s;
      s \<leftarrow> p_lit (CHR ''T'') s;
      (h, s) \<leftarrow> p_num12 s;
      in_range 0 23 h;
      s \<leftarrow> p_lit (CHR '':'') s;
      (mi, s) \<leftarrow> p_num2 s;
      in_range 0 59 mi;
      s \<leftarrow> p_lit (CHR '':'') s;
      (sec, s) \<leftarrow> p_num2 s;
      in_range 0 59 sec;
      let (ns, s) = p_fraction s;
      (off, s) \<leftarrow> p_zone s;
      in_range 1 (days_in m y) d;
      if s = [] then
        Some ((date_days y m d * 86400 + h * 3600 + mi * 60 + sec - off) * ns_per_sec + ns)
      else None
    }"

section \<open>ParseDuration\<close>

definition two63 :: int where "two63 = 9223372036854775808"

text \<open>leadingInt: the digits' value, None when it exceeds \<open>2 ^ 63\<close>.\<close>

fun leading_int :: "int \<Rightarrow> string \<Rightarrow> (int \<times> string) option" where
  "leading_int x [] = Some (x, [])"
| "leading_int x (c # s) =
     (if \<not> is_digit_char c then Some (x, c # s)
      else if two63 div 10 < x then None
      else let y = x * 10 + int (digits_val [c]) in if two63 < y then None else leading_int y s)"

text \<open>leadingFraction: digits that would overflow are read and dropped.\<close>

fun leading_fraction :: "bool \<Rightarrow> int \<Rightarrow> int \<Rightarrow> string \<Rightarrow> int \<times> int \<times> string" where
  "leading_fraction over x scale [] = (x, scale, [])"
| "leading_fraction over x scale (c # s) =
     (if \<not> is_digit_char c then (x, scale, c # s)
      else if over \<or> (two63 - 1) div 10 < x then leading_fraction True x scale s
      else let y = x * 10 + int (digits_val [c])
           in if two63 < y then leading_fraction True x scale s
              else leading_fraction False y (scale * 10) s)"

definition duration_unit :: "string \<Rightarrow> int option" where
  "duration_unit u =
    (if u = ''ns'' then Some 1
     else if u = ''us'' \<or> u = [CHR 0xC2, CHR 0xB5, CHR ''s''] \<or> u = [CHR 0xCE, CHR 0xBC, CHR ''s''] then Some 1000
     else if u = ''ms'' then Some 1000000
     else if u = ''s'' then Some 1000000000
     else if u = ''m'' then Some 60000000000
     else if u = ''h'' then Some 3600000000000
     else None)"

definition unit_char :: "char \<Rightarrow> bool" where
  "unit_char c = (c \<noteq> CHR ''.'' \<and> \<not> is_digit_char c)"

text \<open>One number with its unit: what it adds, and the rest.\<close>

definition duration_item :: "string \<Rightarrow> (int \<times> string) option" where
  "duration_item s =
    do {
      (v, s1) \<leftarrow> leading_int 0 s;
      let pre = (length s1 \<noteq> length s);
      let (f, scale, s2, post) =
        (case s1 of
           c # r \<Rightarrow> if c = CHR ''.'' then
               (case leading_fraction False 0 1 r of (f, scale, r') \<Rightarrow> (f, scale, r', length r' \<noteq> length r))
             else (0, 1, s1, False)
         | [] \<Rightarrow> (0, 1, s1, False));
      (if pre \<or> post then Some () else None);
      unit \<leftarrow> duration_unit (takeWhile unit_char s2);
      (if two63 div unit < v then None else Some ());
      let v = v * unit + (if 0 < f then \<lfloor>fmul (fl (of_int f)) (fdiv (of_int unit) (of_int scale))\<rfloor> else 0);
      if two63 < v then None else Some (v, dropWhile unit_char s2)
    }"

function duration_items :: "int \<Rightarrow> string \<Rightarrow> int option" where
  "duration_items d s =
    (if s = [] then Some d
     else case duration_item s of
       None \<Rightarrow> None
     | Some (v, r) \<Rightarrow>
       if two63 < d + v then None
       else if length r < length s then duration_items (d + v) r else None)"
  by pat_completeness auto
termination
  by (relation "measure (\<lambda>(d, s). length s)") auto

declare duration_items.simps [simp del]

definition parse_duration :: "string \<Rightarrow> int option" where
  "parse_duration s0 =
    (let neg = prefix ''-'' s0;
         s = (if neg \<or> prefix ''+'' s0 then drop 1 s0 else s0)
     in if s = ''0'' then Some 0
        else if s = [] then None
        else do {
          d \<leftarrow> duration_items 0 s;
          if neg then Some (- d) else if two63 - 1 < d then None else Some d
        })"

lemma time_examples:
  "format_rfc3339 0 = ''0001-01-01T00:00:00Z''"
  "parse_rfc3339 ''2024-02-29T23:59:59.5+01:00'' = Some 63844844399500000000"
  "parse_rfc3339 ''2023-02-29T00:00:00Z'' = None"
  "map_option format_rfc3339 (parse_rfc3339 ''2024-12-31T3:04:05-02:30'') = Some ''2024-12-31T05:34:05Z''"
  "parse_duration ''1h30m'' = Some 5400000000000" "parse_duration ''-1.5s'' = Some (- 1500000000)"
  "parse_duration ''1'' = None" "parse_duration ''3000000h'' = None"
  by code_simp+

section \<open>What is written is read back\<close>

lemma div_floor:
  fixes n k :: int
  assumes "0 < k"
  shows "k * (n div k) \<le> n" "n \<le> k * (n div k) + (k - 1)"
proof -
  have "n = k * (n div k) + n mod k" "0 \<le> n mod k" "n mod k < k" using assms by simp_all
  then show "k * (n div k) \<le> n" "n \<le> k * (n div k) + (k - 1)" by linarith+
qed

lemma full_part_mod: "0 < x \<Longrightarrow> x \<le> k \<Longrightarrow> (k * q + x) mod k = 0 \<longleftrightarrow> x = (k :: int)"
  by (cases "x = k") simp_all

lemma year_sum:
  fixes a b c e :: int
  assumes "0 \<le> b" "b \<le> 3" "0 \<le> c" "c \<le> 24" "0 \<le> e" "e \<le> 3"
    and y: "y = 400 * a + 100 * b + 4 * c + e + 1"
  shows "days_before_year y = 146097 * a + 36524 * b + 1461 * c + 365 * e"
    and "is_leap y \<longleftrightarrow> e = 3 \<and> (c = 24 \<longrightarrow> b = 3)"
proof -
  have "(y - 1) div 4 = 100 * a + 25 * b + c"
    by (rule int_div_pos_eq [where r = e]) (use assms in auto)
  moreover have "(y - 1) div 100 = 4 * a + b"
    by (rule int_div_pos_eq [where r = "4 * c + e"]) (use assms in auto)
  moreover have "(y - 1) div 400 = a"
    by (rule int_div_pos_eq [where r = "100 * b + 4 * c + e"]) (use assms in auto)
  ultimately show "days_before_year y = 146097 * a + 36524 * b + 1461 * c + 365 * e"
    by (simp add: days_before_year_def Let_def y)
  have "y mod 4 = 0 \<longleftrightarrow> e = 3"
    using full_part_mod [of "e + 1" 4 "100 * a + 25 * b + c"] assms(5,6) by (simp add: y algebra_simps)
  moreover have "y mod 100 = 0 \<longleftrightarrow> c = 24" if "e = 3"
    using full_part_mod [of "4 * c + 4" 100 "4 * a + b"] assms(3,4) that by (simp add: y algebra_simps)
  moreover have "y mod 400 = 0 \<longleftrightarrow> b = 3" if "e = 3" "c = 24"
    using full_part_mod [of "100 * b + 100" 400 a] assms(1,2) that by (simp add: y algebra_simps)
  ultimately show "is_leap y \<longleftrightarrow> e = 3 \<and> (c = 24 \<longrightarrow> b = 3)"
    unfolding is_leap_def by (cases "e = 3"; cases "c = 24") simp_all
qed

text \<open>A quotient that is capped at 3 takes in the rest of the last part.\<close>

lemma capped_quotient:
  fixes q p k r :: int
  assumes "0 \<le> q" "q \<le> 4" "0 \<le> p" "p < k" "r = k * q + p" "r \<le> 4 * k"
  shows "0 \<le> min 3 q \<and> 0 \<le> r - k * min 3 q \<and> r - k * min 3 q \<le> k \<and>
    (r - k * min 3 q = k \<longrightarrow> r = 4 * k) \<and> (min 3 q < 3 \<longrightarrow> r - k * min 3 q < k)"
proof -
  consider "q = 0" | "q = 1" | "q = 2" | "q = 3" | "q = 4" using assms(1,2) by linarith
  then show ?thesis using assms(3-6) by cases auto
qed

lemma capped_div:
  fixes r k :: int
  assumes "0 < k" "0 \<le> r" "r \<le> 4 * k"
  shows "0 \<le> min 3 (r div k)" "0 \<le> r - k * min 3 (r div k)" "r - k * min 3 (r div k) \<le> k"
    "r - k * min 3 (r div k) = k \<Longrightarrow> r = 4 * k"
    "min 3 (r div k) < 3 \<Longrightarrow> r - k * min 3 (r div k) < k"
proof -
  have "0 \<le> r div k" using assms by (simp add: pos_imp_zdiv_nonneg_iff)
  moreover have "r div k \<le> 4" using zdiv_mono1 [OF assms(3,1)] assms(1) by simp
  moreover have "0 \<le> r mod k" "r mod k < k" "r = k * (r div k) + r mod k" using assms(1) by simp_all
  ultimately show "0 \<le> min 3 (r div k)" "0 \<le> r - k * min 3 (r div k)" "r - k * min 3 (r div k) \<le> k"
    "r - k * min 3 (r div k) = k \<Longrightarrow> r = 4 * k"
    "min 3 (r div k) < 3 \<Longrightarrow> r - k * min 3 (r div k) < k"
    using capped_quotient [of "r div k" "r mod k" k r] assms(3) by blast+
qed

lemma year_day_correct:
  assumes "year_day d = (y, yday)"
  shows "days_before_year y + yday = d" "0 \<le> yday" "yday \<le> 365" "yday = 365 \<Longrightarrow> is_leap y"
    "0 \<le> d \<Longrightarrow> 1 \<le> y"
proof -
  define r where "r = d mod 146097"
  define b where "b = min 3 (r div 36524)"
  define r1 where "r1 = r - 36524 * b"
  define c where "c = r1 div 1461"
  define r2 where "r2 = r1 mod 1461"
  define e where "e = min 3 (r2 div 365)"
  have y: "y = 400 * (d div 146097) + 100 * b + 4 * c + e + 1" and yday: "yday = r2 - 365 * e"
    using assms by (simp_all add: year_day_def Let_def r_def b_def r1_def c_def r2_def e_def)
  have "0 \<le> r" "r \<le> 4 * 36524" "r < 146097" by (simp_all add: r_def)
  then have b: "0 \<le> b" "b \<le> 3" "0 \<le> r1" "r1 \<le> 36524" "b < 3 \<Longrightarrow> r1 < 36524"
    using capped_div [of 36524 r] by (simp_all add: b_def r1_def)
  have r1: "1461 * c + r2 = r1" "0 \<le> r2" "r2 \<le> 4 * 365" by (simp_all add: c_def r2_def)
  then have e: "0 \<le> e" "e \<le> 3" "0 \<le> yday" "yday \<le> 365" "yday = 365 \<Longrightarrow> r2 = 1460" "e < 3 \<Longrightarrow> yday < 365"
    using capped_div [of 365 r2] by (simp_all add: e_def yday)
  have c: "0 \<le> c" "c \<le> 24" using b(3,4) r1 by (simp_all add: c_def pos_imp_zdiv_nonneg_iff)
  note sum = year_sum [OF b(1,2) c e(1,2) y]
  have "146097 * (d div 146097) + r = d" by (simp add: r_def)
  then show "days_before_year y + yday = d" using r1(1) by (simp add: sum(1) yday r1_def)
  show "0 \<le> yday" "yday \<le> 365" by (rule e)+
  show "1 \<le> y" if "0 \<le> d" using that b(1) c(1) e(1) by (simp add: y pos_imp_zdiv_nonneg_iff)
  show "is_leap y" if "yday = 365"
  proof -
    have "e = 3" using e(2,6) that by linarith
    moreover have "b = 3" if "c = 24"
    proof -
      have "r1 = 36524" using r1(1) that e(5) \<open>yday = 365\<close> by simp
      then show ?thesis using b(2,5) by linarith
    qed
    ultimately show ?thesis by (simp add: sum(2))
  qed
qed

lemma month_cases:
  fixes m :: int
  assumes "0 \<le> m" "m < 12"
  shows "m = 0 \<or> m = 1 \<or> m = 2 \<or> m = 3 \<or> m = 4 \<or> m = 5 \<or> m = 6 \<or> m = 7 \<or> m = 8 \<or> m = 9 \<or> m = 10 \<or> m = 11"
  using assms by presburger

text \<open>The day in a year of 365 days.\<close>

lemma month_day_common:
  assumes "0 \<le> yday" "yday < 365" "month_day False yday = (m, d)"
  shows "1 \<le> m \<and> m \<le> 12 \<and> 1 \<le> d \<and> d \<le> days_before ! nat m - days_before ! nat (m - 1) \<and>
    days_before ! nat (m - 1) + d - 1 = yday"
proof -
  have q: "31 * (yday div 31) \<le> yday" "yday < 31 * (yday div 31) + 31" "0 \<le> yday div 31" "yday div 31 < 12"
    using assms(1,2) div_floor [of 31 yday] by (simp_all add: pos_imp_zdiv_nonneg_iff)
  from month_cases [OF q(3,4)] show ?thesis
    using assms q(1,2)
    by (elim disjE) (auto simp: month_day_def Let_def days_before_def nat_diff_distrib eval_nat_numeral split: if_splits)
qed

lemma month_day_correct:
  assumes "0 \<le> yday" "yday \<le> 365" "yday = 365 \<Longrightarrow> is_leap y" "month_day (is_leap y) yday = (m, d)"
  shows "1 \<le> m \<and> m \<le> 12 \<and> 1 \<le> d \<and> d \<le> days_in m y \<and>
    days_before ! nat (m - 1) + (if is_leap y \<and> 3 \<le> m then 1 else 0) + d - 1 = yday"
proof (cases "is_leap y \<and> 59 \<le> yday")
  case False
  then have "month_day False yday = (m, d)" using assms(4) by (auto simp: month_day_def)
  from month_day_common [OF assms(1) _ this] have c: "1 \<le> m \<and> m \<le> 12 \<and> 1 \<le> d \<and>
      d \<le> days_before ! nat m - days_before ! nat (m - 1) \<and> days_before ! nat (m - 1) + d - 1 = yday"
    using False assms(2,3) by linarith
  have "m - 1 = 0 \<or> m - 1 = 1" if "is_leap y"
  proof -
    have "0 \<le> m - 1" "m - 1 < 12" using c by linarith+
    from month_cases [OF this] show ?thesis
      using c False that by (elim disjE) (simp_all add: days_before_def)
  qed
  then show ?thesis using c by (auto simp: days_in_def days_before_def)
next
  case True
  show ?thesis
  proof (cases "yday = 59")
    case yd: True
    with True assms(4) show ?thesis by (auto simp: month_day_def days_in_def days_before_def)
  next
    case False
    with True have "month_day False (yday - 1) = (m, d)" using assms(4) by (auto simp: month_day_def)
    from month_day_common [OF _ _ this] have c: "1 \<le> m \<and> m \<le> 12 \<and> 1 \<le> d \<and>
        d \<le> days_before ! nat m - days_before ! nat (m - 1) \<and> days_before ! nat (m - 1) + d - 1 = yday - 1"
      using False True assms(2) by linarith
    have "m - 1 \<noteq> 0" "m - 1 \<noteq> 1" using c False True by (auto simp: days_before_def)
    then have "3 \<le> m" using c by linarith
    with c True show ?thesis by (simp add: days_in_def)
  qed
qed

lemma civil_correct:
  assumes "civil day = (y, m, d)"
  shows "date_days y m d = day" "1 \<le> m" "m \<le> 12" "1 \<le> d" "d \<le> days_in m y" "days_before_year y \<le> day"
    "0 \<le> day \<Longrightarrow> 1 \<le> y"
proof -
  obtain yday where yd: "year_day day = (y, yday)" "month_day (is_leap y) yday = (m, d)"
    using assms by (auto simp: civil_def split: prod.splits)
  note year = year_day_correct [OF yd(1)]
  note month = month_day_correct [OF year(2,3,4) yd(2)]
  from month show "1 \<le> m" "m \<le> 12" "1 \<le> d" "d \<le> days_in m y" by simp_all
  from year(5) show "1 \<le> y" if "0 \<le> day" using that by simp
  from month year(1,2) show "date_days y m d = day" "days_before_year y \<le> day"
    by (simp_all add: date_days_def)
qed

lemma length_nat_digits: "0 < w \<Longrightarrow> n < 10 ^ w \<Longrightarrow> length (nat_digits n) \<le> w"
proof (induction n arbitrary: w rule: nat_digits.induct)
  case (1 n)
  show ?case
  proof (cases "n < 10")
    case True
    with 1(2) show ?thesis by (simp add: nat_digits.simps [of n])
  next
    case False
    with 1(3) have "w \<noteq> 1" by (cases "w = 1") auto
    with 1(2) obtain v where v: "w = Suc v" "0 < v" by (cases w) auto
    with 1(3) have "n div 10 < 10 ^ v" by (simp add: less_mult_imp_div_less mult.commute)
    from 1(1) [OF False v(2) this] False v(1) show ?thesis by (simp add: nat_digits.simps [of n])
  qed
qed

lemma zero_pad:
  assumes "0 \<le> n" "n < 10 ^ w" "0 < w"
  shows "length (zero_pad w n) = w" "int (digits_val (zero_pad w n)) = n"
    "list_all is_digit_char (zero_pad w n)"
proof -
  have "nat n < 10 ^ w" using assms(1,2) by (simp add: nat_less_iff)
  then have "length (nat_digits (nat n)) \<le> w" by (rule length_nat_digits [OF assms(3)])
  then show "length (zero_pad w n) = w" by (simp add: zero_pad_def Let_def)
  have "digits_val (replicate k (CHR ''0'') @ s) = digits_val s" for k s
    by (induction k) (simp_all add: digits_val_def)
  then show "int (digits_val (zero_pad w n)) = n"
    using assms(1) by (simp add: zero_pad_def Let_def nat_digits_val)
  show "list_all is_digit_char (zero_pad w n)"
    by (auto simp: zero_pad_def Let_def list_all_iff nat_digits_digits) (simp add: is_digit_char_def)
qed

lemma read_zero_pad2:
  assumes "0 \<le> n" "n < 100"
  shows "p_num2 (zero_pad 2 n @ s) = Some (n, s)" "p_num12 (zero_pad 2 n @ s) = Some (n, s)"
proof -
  have n: "n < 10 ^ 2" using assms(2) by simp
  note z = zero_pad [OF assms(1) n]
  obtain a b where "zero_pad 2 n = [a, b]"
    using z(1) by (auto simp: numeral_2_eq_2 length_Suc_conv)
  with z(2,3) show "p_num2 (zero_pad 2 n @ s) = Some (n, s)" "p_num12 (zero_pad 2 n @ s) = Some (n, s)"
    by simp_all
qed

lemma read_year: "0 \<le> y \<Longrightarrow> y < 10000 \<Longrightarrow> p_num4 (format_year y @ s) = Some (y, s)"
  using zero_pad [of y 4] by (simp add: p_num4_def format_year_def)

lemma p_lit_same [simp]: "p_lit c (c # s) = Some s"
  by (simp add: p_lit_def)

lemma in_range_ok: "lo \<le> n \<Longrightarrow> n \<le> hi \<Longrightarrow> in_range lo hi n = Some ()"
  by (simp add: in_range_def)

lemma div_bound:
  fixes t k m :: int
  assumes "0 < k" "t < m * k"
  shows "t div k < m"
proof (rule ccontr)
  assume "\<not> t div k < m"
  then have "m * k \<le> t div k * k" using assms(1) by (intro mult_right_mono) auto
  also have "\<dots> \<le> t" using assms(1) by (simp add: minus_mod_eq_div_mult [symmetric])
  finally show False using assms(2) by simp
qed

text \<open>The times of the years 1 to 9999, which RFC3339 can write.\<close>

definition four_digit_year :: "time \<Rightarrow> bool" where
  "four_digit_year t \<longleftrightarrow> 0 \<le> t \<and> t < 315537897600 * ns_per_sec"

lemma days_before_10000: "10000 \<le> y \<Longrightarrow> 3652059 \<le> days_before_year y"
proof (cases "y = 10000")
  case False
  assume "10000 \<le> y"
  with False have n: "10000 \<le> y - 1" by simp
  have "4 * ((y - 1) div 4) + 3 \<ge> y - 1" "100 * ((y - 1) div 100) \<le> y - 1" "400 * ((y - 1) div 400) + 399 \<ge> y - 1"
    using div_floor [of 4 "y - 1"] div_floor [of 100 "y - 1"] div_floor [of 400 "y - 1"] by simp_all
  moreover have "3652059 \<le> 365 * n + a - b + c" if "10000 \<le> n" "4 * a + 3 \<ge> n" "100 * b \<le> n" "400 * c + 399 \<ge> n"
    for n a b c :: int
    using that by linarith
  ultimately show ?thesis using n unfolding days_before_year_def Let_def by blast
qed (simp add: days_before_year_def)

lemma civil_year:
  assumes "0 \<le> d" "d < 3652059" "civil d = (y, m, dd)"
  shows "1 \<le> y" "y \<le> 9999"
proof -
  note c = civil_correct [OF assms(3)]
  show "1 \<le> y" by (rule c(7) [OF assms(1)])
  show "y \<le> 9999" using days_before_10000 [of y] c(6) assms(2) by linarith
qed

theorem parse_format_rfc3339:
  assumes "four_digit_year t"
  shows "parse_rfc3339 (format_rfc3339 t) = Some (t - t mod ns_per_sec)"
proof -
  define secs where "secs = t div ns_per_sec"
  define sod where "sod = secs mod 86400"
  obtain y m d where c: "civil (secs div 86400) = (y, m, d)" by (cases "civil (secs div 86400)") auto
  have "0 \<le> secs" "secs < 315537897600"
    using assms by (simp_all add: four_digit_year_def secs_def ns_per_sec_def pos_imp_zdiv_nonneg_iff div_bound)
  then have day: "0 \<le> secs div 86400" "secs div 86400 < 3652059" by (simp_all add: pos_imp_zdiv_nonneg_iff div_bound)
  note cc = civil_correct [OF c] and yy = civil_year [OF day c]
  have "0 \<le> m - 1" "m - 1 < 12" using cc(2,3) by linarith+
  from month_cases [OF this] have "d \<le> 31"
    using cc(5) by (elim disjE) (simp_all add: days_in_def days_before_def split: if_splits)
  then have r: "in_range 1 12 m = Some ()" "in_range 1 (days_in m y) d = Some ()" "0 \<le> m" "m < 100" "0 \<le> d" "d < 100"
    using cc(2-5) by (simp_all add: in_range_ok)
  have h: "0 \<le> sod div 3600" "sod div 3600 \<le> 23" "0 \<le> sod mod 3600 div 60" "sod mod 3600 div 60 \<le> 59"
    "0 \<le> sod mod 60" "sod mod 60 \<le> 59"
    by (simp_all add: sod_def)
  have fr: "p_fraction ''Z'' = (0, ''Z'')" "p_zone ''Z'' = Some (0, [])" by code_simp+
  have "parse_rfc3339 (format_rfc3339 t) =
      Some ((date_days y m d * 86400 + sod div 3600 * 3600 + sod mod 3600 div 60 * 60 + sod mod 60) * ns_per_sec)"
    unfolding format_rfc3339_def Let_def secs_def [symmetric] sod_def [symmetric] c prod.case append_assoc
    unfolding parse_rfc3339_def Let_def
    using yy r h by (simp add: read_year read_zero_pad2 in_range_ok fr)
  also have "date_days y m d * 86400 + sod div 3600 * 3600 + sod mod 3600 div 60 * 60 + sod mod 60 = secs"
  proof -
    have "sod div 3600 * 3600 + sod mod 3600 div 60 * 60 + sod mod 60 = sod"
    proof -
      have "sod mod 60 = sod mod 3600 mod 60" by (simp add: mod_mod_cancel)
      then have "sod mod 3600 div 60 * 60 + sod mod 60 = sod mod 3600" by (simp only: div_mult_mod_eq)
      then show ?thesis using div_mult_mod_eq [of sod 3600] by linarith
    qed
    then show ?thesis unfolding cc(1) using div_mult_mod_eq [of secs 86400] sod_def by linarith
  qed
  finally show ?thesis by (simp add: secs_def minus_mod_eq_div_mult)
qed

end
