(* ===== verification/Http_Runs.thy ===== *)
theory Http_Runs
  imports Message_Content Go_Time Go_Json "HOL-Library.Product_Lexorder"
begin

text \<open>
  Runs and their stores: internal/channels/http/store.go (the record Run and the store in memory) and
  filestore.go (the store with a file, which drops old finished runs when it saves). The file is a
  record of two functions on a world \<open>'w\<close>; its content is kept as the document encoded in it.
\<close>

section \<open>Runs\<close>

record http_run =
  run_id :: string
  run_instanceID :: string
  run_agentID :: string
  run_parentRunID :: string
  run_message :: string
  run_contentParts :: "content_part list"
  run_thinkingMode :: string
  run_source :: string
  run_sessionID :: string
  run_status :: string
  run_output :: string
  run_artifactPath :: string
  run_durationMS :: int
  run_toolCalls :: int
  run_provider :: string
  run_model :: string
  run_trace :: "(string, json) gmap"
  run_decompositionPlan :: "(string, json) gmap"
  run_error :: string
  run_createdAt :: time
  run_updatedAt :: time

datatype run_store_error = ErrRunNotFound | RunsPathRequired | ReadRuns | ParseRuns | WriteRuns

text \<open>A nil map is an empty one.\<close>

definition cloneJSONMap :: "(string, json) gmap \<Rightarrow> (string, json) gmap" where
  "cloneJSONMap raw =
    (if raw = [] then []
     else case unmarshal (marshal (JObj raw)) of
         Some (JObj m) \<Rightarrow> m
       | Some JNull \<Rightarrow> []
       | _ \<Rightarrow> raw)"

definition extractDecompositionPlanFromTrace :: "(string, json) gmap \<Rightarrow> (string, json) gmap" where
  "extractDecompositionPlanFromTrace trace =
    (case mget trace ''decomposition_plan'' of
       Some (JObj plan) \<Rightarrow> cloneJSONMap plan
     | _ \<Rightarrow> [])"

definition normalizeRunDerivedFields :: "http_run \<Rightarrow> http_run" where
  "normalizeRunDerivedFields r =
    (let plan = extractDecompositionPlanFromTrace (run_trace r) in
     r\<lparr>run_decompositionPlan := (if plan \<noteq> [] then plan else cloneJSONMap (run_decompositionPlan r))\<rparr>)"

definition matchesRunIdentity :: "http_run \<Rightarrow> string \<Rightarrow> string \<Rightarrow> bool" where
  "matchesRunIdentity r instanceID agentID =
    ((trim_space instanceID = [] \<or> trim_space (run_instanceID r) = trim_space instanceID) \<and>
     (trim_space agentID = [] \<or> trim_space (run_agentID r) = trim_space agentID))"

section \<open>The store in memory\<close>

type_synonym run_table = "(string, http_run) gmap"

definition mem_create :: "http_run \<Rightarrow> run_table \<Rightarrow> http_run \<times> run_table" where
  "mem_create r s = (let r = normalizeRunDerivedFields r in (r, mput (run_id r) r s))"

definition mem_get :: "string \<Rightarrow> run_table \<Rightarrow> run_store_error + http_run" where
  "mem_get i s =
    (case mget s i of None \<Rightarrow> Inl ErrRunNotFound | Some r \<Rightarrow> Inr (normalizeRunDerivedFields r))"

definition mem_getByIdentity :: "string \<Rightarrow> string \<Rightarrow> string \<Rightarrow> run_table \<Rightarrow> run_store_error + http_run" where
  "mem_getByIdentity instanceID agentID i s =
    (case (case mget s i of
             Some r \<Rightarrow> if matchesRunIdentity r instanceID agentID then Some r else None
           | None \<Rightarrow> None) of
       Some r \<Rightarrow> Inr (normalizeRunDerivedFields r)
     | None \<Rightarrow>
       (case find (\<lambda>c. run_id c = i \<and> matchesRunIdentity c instanceID agentID) (mvals s) of
          Some c \<Rightarrow> Inr (normalizeRunDerivedFields c)
        | None \<Rightarrow> Inl ErrRunNotFound))"

definition mem_update :: "http_run \<Rightarrow> run_table \<Rightarrow> run_store_error option \<times> run_table" where
  "mem_update r s =
    (if mhas s (run_id r) then (let r = normalizeRunDerivedFields r in (None, mput (run_id r) r s))
     else (Some ErrRunNotFound, s))"

definition mem_list :: "run_table \<Rightarrow> http_run list" where
  "mem_list s = map normalizeRunDerivedFields (mvals s)"

section \<open>The store with a file\<close>

datatype runs_file = NoRunsFile | UnreadableRuns | EmptyRuns | MalformedRuns | RunsDocument "http_run list"

record 'w runs_disk =
  rd_read :: "string \<Rightarrow> 'w \<Rightarrow> runs_file"
  rd_write :: "string \<Rightarrow> http_run list \<Rightarrow> 'w \<Rightarrow> bool \<times> 'w"

record file_run_store =
  fs_path :: string
  fs_runs :: run_table

definition fileRunStoreMaxPersistedRuns :: int where
  "fileRunStoreMaxPersistedRuns = 2000"

definition load_runs :: "http_run list \<Rightarrow> run_table" where
  "load_runs rs = mput_all (map (\<lambda>r. (run_id r, normalizeRunDerivedFields r)) rs) mempty"

definition newFileRunStore :: "'w runs_disk \<Rightarrow> string \<Rightarrow> 'w \<Rightarrow> run_store_error + file_run_store" where
  "newFileRunStore dk path w =
    (if path = [] then Inl RunsPathRequired
     else case rd_read dk path w of
         NoRunsFile \<Rightarrow> Inr \<lparr>fs_path = path, fs_runs = mempty\<rparr>
       | UnreadableRuns \<Rightarrow> Inl ReadRuns
       | EmptyRuns \<Rightarrow> Inr \<lparr>fs_path = path, fs_runs = mempty\<rparr>
       | MalformedRuns \<Rightarrow> Inl ParseRuns
       | RunsDocument rs \<Rightarrow> Inr \<lparr>fs_path = path, fs_runs = load_runs rs\<rparr>)"

definition terminal_run :: "http_run \<Rightarrow> bool" where
  "terminal_run r =
    (to_lower (trim_space (run_status r)) \<in> {''completed'', ''failed'', ''canceled'', ''cancelled''})"

text \<open>
  The runs in the order in which they may go: by last update, then by creation; runs equal in both
  keep the order of their ids here (Go leaves it open).
\<close>

definition removal_order :: "http_run list \<Rightarrow> http_run list" where
  "removal_order rs = sort_key (\<lambda>r. (run_updatedAt r, run_createdAt r)) (filter terminal_run rs)"

definition compactLocked :: "int \<Rightarrow> run_table \<Rightarrow> run_table" where
  "compactLocked maxRuns s =
    (if maxRuns \<le> 0 \<or> int (length s) \<le> maxRuns then s
     else fold (\<lambda>r s. mdel (run_id r) s) (take (nat (int (length s) - maxRuns)) (removal_order (mvals s))) s)"

definition runs_saveLocked ::
  "'w runs_disk \<Rightarrow> int \<Rightarrow> file_run_store \<Rightarrow> 'w \<Rightarrow> run_store_error option \<times> file_run_store \<times> 'w" where
  "runs_saveLocked dk maxRuns s w =
    (let runs = compactLocked maxRuns (fs_runs s); s = s\<lparr>fs_runs := runs\<rparr>;
         out = sort_key run_createdAt (map normalizeRunDerivedFields (mvals runs))
     in case rd_write dk (fs_path s) out w of (ok, w') \<Rightarrow> (if ok then None else Some WriteRuns, s, w'))"

definition file_create ::
  "'w runs_disk \<Rightarrow> int \<Rightarrow> http_run \<Rightarrow> file_run_store \<Rightarrow> 'w \<Rightarrow> http_run \<times> run_store_error option \<times> file_run_store \<times> 'w" where
  "file_create dk maxRuns r s w =
    (case mem_create r (fs_runs s) of (r', runs) \<Rightarrow> (r', runs_saveLocked dk maxRuns (s\<lparr>fs_runs := runs\<rparr>) w))"

definition file_get :: "string \<Rightarrow> file_run_store \<Rightarrow> run_store_error + http_run" where
  "file_get i s = mem_get i (fs_runs s)"

definition file_getByIdentity :: "string \<Rightarrow> string \<Rightarrow> string \<Rightarrow> file_run_store \<Rightarrow> run_store_error + http_run" where
  "file_getByIdentity instanceID agentID i s = mem_getByIdentity instanceID agentID i (fs_runs s)"

definition file_update ::
  "'w runs_disk \<Rightarrow> int \<Rightarrow> http_run \<Rightarrow> file_run_store \<Rightarrow> 'w \<Rightarrow> run_store_error option \<times> file_run_store \<times> 'w" where
  "file_update dk maxRuns r s w =
    (case mem_update r (fs_runs s) of
       (Some e, runs) \<Rightarrow> (Some e, s, w)
     | (None, runs) \<Rightarrow> runs_saveLocked dk maxRuns (s\<lparr>fs_runs := runs\<rparr>) w)"

text \<open>The newest first.\<close>

definition file_list :: "file_run_store \<Rightarrow> http_run list" where
  "file_list s = sort_key (\<lambda>r. - run_createdAt r) (mem_list (fs_runs s))"

end
