(* ===== verification/Http_Events.thy ===== *)
theory Http_Events
  imports Go_Time Go_Json
begin

text \<open>
  The run event bus of internal/channels/http/events.go: events of a run are numbered, kept for replay
  and sent to the subscribers' channels. A channel is its capacity, its buffer and, as history, what its
  reader has received. A channel belongs to the run's subscribers until it is closed; closed channels,
  which their readers may still drain, are in \<open>eb_done\<close>.
\<close>

section \<open>Events and channels\<close>

definition RunEventStatus :: string where "RunEventStatus = ''status''"
definition RunEventToolEnd :: string where "RunEventToolEnd = ''tool_end''"
definition RunEventModelText :: string where "RunEventModelText = ''model_text''"
definition RunEventCompleted :: string where "RunEventCompleted = ''completed''"
definition RunEventCanceled :: string where "RunEventCanceled = ''canceled''"
definition RunEventFailed :: string where "RunEventFailed = ''failed''"

lemmas event_types = RunEventStatus_def RunEventToolEnd_def RunEventModelText_def RunEventCompleted_def
  RunEventCanceled_def RunEventFailed_def

record run_event =
  re_id :: int
  re_type :: string
  re_runID :: string
  re_instanceID :: string
  re_agentID :: string
  re_timestamp :: time
  re_data :: "(string, json) gmap"

definition isTerminalRunEventType :: "string \<Rightarrow> bool" where
  "isTerminalRunEventType t = (t = RunEventCompleted \<or> t = RunEventCanceled \<or> t = RunEventFailed)"

record event_chan =
  ec_cap :: nat
  ec_buf :: "run_event list"
  ec_got :: "run_event list"

text \<open>The reader takes up to \<open>n\<close> events.\<close>

definition take_events :: "nat \<Rightarrow> event_chan \<Rightarrow> event_chan" where
  "take_events n ch = ch\<lparr>ec_buf := drop n (ec_buf ch), ec_got := ec_got ch @ take n (ec_buf ch)\<rparr>"

definition push_event :: "run_event \<Rightarrow> event_chan \<Rightarrow> event_chan" where
  "push_event e ch = ch\<lparr>ec_buf := ec_buf ch @ [e]\<rparr>"

text \<open>
  A full channel loses its oldest event. The reader is not stopped by the bus's mutex: \<open>gap\<close> is the
  number of events it takes between the first attempt to send and the removal.
\<close>

definition enqueueRunEvent :: "nat \<Rightarrow> event_chan \<Rightarrow> run_event \<Rightarrow> bool \<times> event_chan" where
  "enqueueRunEvent gap ch event =
    (if length (ec_buf ch) < ec_cap ch then (True, push_event event ch)
     else (let ch1 = take_events gap ch; ch2 = ch1\<lparr>ec_buf := drop 1 (ec_buf ch1)\<rparr> in
           if length (ec_buf ch2) < ec_cap ch2 then (True, push_event event ch2) else (False, ch2)))"

section \<open>The bus\<close>

record run_event_state =
  es_nextID :: int
  es_nextSubID :: int
  es_replay :: "run_event list"
  es_subscribers :: "(int, event_chan) gmap"
  es_terminal :: bool
  es_terminalEvents :: "run_event list"
  es_dropped :: int

record event_bus =
  eb_runs :: "(string, run_event_state) gmap"
  eb_runOrder :: "string list"
  eb_replayLimit :: nat
  eb_subscriberBuffer :: nat
  eb_maxRuns :: nat
  eb_done :: "event_chan list"

definition newRunEventBus :: "int \<Rightarrow> event_bus" where
  "newRunEventBus replayLimit =
    \<lparr>eb_runs = mempty, eb_runOrder = [], eb_replayLimit = (if replayLimit \<le> 0 then 128 else nat replayLimit),
     eb_subscriberBuffer = 32, eb_maxRuns = 2048, eb_done = []\<rparr>"

definition runEventCompositeKey :: "string \<Rightarrow> string \<Rightarrow> string \<Rightarrow> string" where
  "runEventCompositeKey instanceID agentID runID =
    (let r = trim_space runID; i = trim_space instanceID; a = trim_space agentID in
     if r = [] then []
     else if i = [] \<and> a = [] then r
     else i @ '':'' @ a @ '':'' @ r)"

definition new_run_state :: run_event_state where
  "new_run_state = \<lparr>es_nextID = 0, es_nextSubID = 0, es_replay = [], es_subscribers = mempty, es_terminal = False,
     es_terminalEvents = [], es_dropped = 0\<rparr>"

definition prunable :: "(string, run_event_state) gmap \<Rightarrow> string \<Rightarrow> bool" where
  "prunable runs k =
    (case mget runs k of None \<Rightarrow> True | Some st \<Rightarrow> es_terminal st \<and> es_subscribers st = [])"

text \<open>The loop of pruneRunsLocked: while there are too many runs, the oldest one that can go, goes.\<close>

function prune_loop ::
  "nat \<Rightarrow> (string, run_event_state) gmap \<Rightarrow> string list \<Rightarrow> (string, run_event_state) gmap \<times> string list" where
  "prune_loop maxRuns runs order =
    (if length runs \<le> maxRuns then (runs, order)
     else (case dropWhile (\<lambda>k. \<not> prunable runs k) order of
             [] \<Rightarrow> (runs, order)
           | k # rest \<Rightarrow> prune_loop maxRuns (mdel k runs) (takeWhile (\<lambda>k. \<not> prunable runs k) order @ rest)))"
  by pat_completeness auto
termination
proof (relation "measure (\<lambda>(m, r, order). length order)")
  fix maxRuns :: nat and runs :: "(string, run_event_state) gmap" and order k rest
  assume "dropWhile (\<lambda>k. \<not> prunable runs k) order = k # rest"
  then have "length (takeWhile (\<lambda>k. \<not> prunable runs k) order) + length (k # rest) = length order"
    by (metis length_append takeWhile_dropWhile_id)
  then show "((maxRuns, mdel k runs, takeWhile (\<lambda>k. \<not> prunable runs k) order @ rest), maxRuns, runs, order)
      \<in> measure (\<lambda>(m, r, order). length order)" by simp
qed simp

declare prune_loop.simps [simp del]

definition pruneRunsLocked :: "event_bus \<Rightarrow> event_bus" where
  "pruneRunsLocked b =
    (if eb_maxRuns b = 0 then b
     else (case prune_loop (eb_maxRuns b) (eb_runs b) (eb_runOrder b) of
             (runs, order) \<Rightarrow> b\<lparr>eb_runs := runs, eb_runOrder := order\<rparr>))"

definition ensureRunLocked :: "string \<Rightarrow> event_bus \<Rightarrow> run_event_state \<times> event_bus" where
  "ensureRunLocked runID b =
    (case mget (eb_runs b) runID of
       Some st \<Rightarrow> (st, b)
     | None \<Rightarrow>
       (new_run_state,
        pruneRunsLocked (b\<lparr>eb_runs := mput runID new_run_state (eb_runs b), eb_runOrder := eb_runOrder b @ [runID]\<rparr>)))"

definition put_run :: "string \<Rightarrow> run_event_state \<Rightarrow> event_bus \<Rightarrow> event_bus" where
  "put_run k st b = b\<lparr>eb_runs := mput k st (eb_runs b)\<rparr>"

text \<open>What a reader holds: a subscription of a run, or a closed channel.\<close>

datatype chan_ref = LiveChan string int | DoneChan nat

definition add_done :: "event_chan \<Rightarrow> event_bus \<Rightarrow> chan_ref \<times> event_bus" where
  "add_done ch b = (DoneChan (length (eb_done b)), b\<lparr>eb_done := eb_done b @ [ch]\<rparr>)"

definition subscribe :: "string \<Rightarrow> int \<Rightarrow> event_bus \<Rightarrow> chan_ref \<times> event_bus" where
  "subscribe runID lastEventID b =
    (let k = trim_space runID in
     if k = [] then add_done \<lparr>ec_cap = 0, ec_buf = [], ec_got = []\<rparr> b
     else (case ensureRunLocked k b of
         (st, b1) \<Rightarrow>
           let replay = filter (\<lambda>e. lastEventID < re_id e) (es_replay st);
               replay = (if es_terminal st \<and> replay = [] \<and> es_terminalEvents st \<noteq> [] then es_terminalEvents st else replay);
               capacity = max 1 (max (eb_subscriberBuffer b1) (length replay + eb_subscriberBuffer b1));
               ch = \<lparr>ec_cap = capacity, ec_buf = replay, ec_got = []\<rparr>
           in if es_terminal st then add_done ch b1
              else (let subID = es_nextSubID st + 1 in
                    (LiveChan k subID,
                     put_run k (st\<lparr>es_nextSubID := subID, es_subscribers := mput subID ch (es_subscribers st)\<rparr>) b1))))"

text \<open>A 64-bit counter.\<close>

definition next_id :: "int \<Rightarrow> int" where
  "next_id n = (if n = max_duration then min_duration else n + 1)"

text \<open>The event as it is kept and sent: numbered unless it has a number, with the public id of its run.\<close>

definition number_event :: "run_event_state \<Rightarrow> string \<Rightarrow> time \<Rightarrow> run_event \<Rightarrow> int \<times> run_event" where
  "number_event st r now event =
    (let n = (if re_id event \<le> 0 then next_id (es_nextID st) else max (es_nextID st) (re_id event)) in
     (n, event\<lparr>re_runID := r,
        re_timestamp := (if re_timestamp event = 0 then now else re_timestamp event),
        re_id := (if re_id event \<le> 0 then n else re_id event)\<rparr>))"

definition accept_event :: "(int \<Rightarrow> nat) \<Rightarrow> nat \<Rightarrow> int \<Rightarrow> run_event \<Rightarrow> run_event_state \<Rightarrow> run_event_state" where
  "accept_event gaps limit n e st =
    (let replay = es_replay st @ [e];
         replay = (if limit < length replay then drop (length replay - limit) replay else replay);
         sent = map (\<lambda>(sid, ch). (sid, enqueueRunEvent (gaps sid) ch e)) (es_subscribers st);
         term = isTerminalRunEventType (re_type e)
     in st\<lparr>es_nextID := n, es_replay := replay,
          es_terminal := (es_terminal st \<or> term),
          es_terminalEvents := (if term then [e] else es_terminalEvents st),
          es_subscribers := map (\<lambda>(sid, ok, ch). (sid, ch)) sent,
          es_dropped := (es_dropped st + int (length (filter (\<lambda>(sid, ok, ch). \<not> ok) sent))) mod 18446744073709551616\<rparr>)"

definition publish :: "(int \<Rightarrow> nat) \<Rightarrow> string \<Rightarrow> string \<Rightarrow> run_event \<Rightarrow> time \<Rightarrow> event_bus \<Rightarrow> event_bus" where
  "publish gaps stateKey publicRunID event now b =
    (let k = trim_space stateKey; r = trim_space publicRunID in
     if k = [] \<or> r = [] then b
     else (case ensureRunLocked k b of
         (st, b1) \<Rightarrow>
           (case number_event st r now event of
              (n, e) \<Rightarrow> put_run k (accept_event gaps (eb_replayLimit b1) n e st) b1)))"

definition publishRun :: "(int \<Rightarrow> nat) \<Rightarrow> string \<Rightarrow> run_event \<Rightarrow> time \<Rightarrow> event_bus \<Rightarrow> event_bus" where
  "publishRun gaps runID event now b = publish gaps runID runID event now b"

definition publishComposite ::
  "(int \<Rightarrow> nat) \<Rightarrow> string \<Rightarrow> string \<Rightarrow> string \<Rightarrow> run_event \<Rightarrow> time \<Rightarrow> event_bus \<Rightarrow> event_bus" where
  "publishComposite gaps instanceID agentID runID event now b =
    publish gaps (runEventCompositeKey instanceID agentID runID) (trim_space runID) event now b"

definition subscribeComposite ::
  "string \<Rightarrow> string \<Rightarrow> string \<Rightarrow> int \<Rightarrow> event_bus \<Rightarrow> chan_ref \<times> event_bus" where
  "subscribeComposite instanceID agentID runID lastEventID b =
    subscribe (runEventCompositeKey instanceID agentID runID) lastEventID b"

definition closeRun :: "string \<Rightarrow> event_bus \<Rightarrow> event_bus" where
  "closeRun runID b =
    (let k = trim_space runID in
     if k = [] then b
     else (case mget (eb_runs b) k of
         None \<Rightarrow> b
       | Some st \<Rightarrow>
         put_run k (st\<lparr>es_terminal := True, es_subscribers := mempty\<rparr>)
           (b\<lparr>eb_done := eb_done b @ mvals (es_subscribers st)\<rparr>)))"

definition closeComposite :: "string \<Rightarrow> string \<Rightarrow> string \<Rightarrow> event_bus \<Rightarrow> event_bus" where
  "closeComposite instanceID agentID runID b = closeRun (runEventCompositeKey instanceID agentID runID) b"

definition unsubscribe :: "string \<Rightarrow> int \<Rightarrow> event_bus \<Rightarrow> event_bus" where
  "unsubscribe runID subID b =
    (case mget (eb_runs b) runID of
       None \<Rightarrow> b
     | Some st \<Rightarrow>
       (case mget (es_subscribers st) subID of
          None \<Rightarrow> b
        | Some ch \<Rightarrow>
          put_run runID (st\<lparr>es_subscribers := mdel subID (es_subscribers st)\<rparr>) (b\<lparr>eb_done := eb_done b @ [ch]\<rparr>)))"

text \<open>A reader receives one event.\<close>

definition receive :: "chan_ref \<Rightarrow> event_bus \<Rightarrow> event_bus" where
  "receive ref b =
    (case ref of
       DoneChan n \<Rightarrow> (if n < length (eb_done b) then b\<lparr>eb_done := (eb_done b)[n := take_events 1 (eb_done b ! n)]\<rparr> else b)
     | LiveChan k sid \<Rightarrow>
       (case mget (eb_runs b) k of
          None \<Rightarrow> b
        | Some st \<Rightarrow>
          (case mget (es_subscribers st) sid of
             None \<Rightarrow> b
           | Some ch \<Rightarrow> put_run k (st\<lparr>es_subscribers := mput sid (take_events 1 ch) (es_subscribers st)\<rparr>) b)))"

end
