(* ===== verification/Run_Trackers.thy ===== *)
theory Run_Trackers
  imports Go_Map
begin

text \<open>
  The two registries of running runs: RunTracker (internal/runtime/run_tracker.go) and
  ActiveRunTracker (internal/channels/http/run_cancel_tracker.go). Each keeps a map from a run
  key to the cancel function of the run's context. A cancel function is a value of the type
  parameter \<open>'c\<close>, None being Go's nil function; a nil tracker is None too. Calling a cancel
  function is the outcome \<open>CancelCalled c\<close>; calling a nil one is a panic. The locale
  \<open>run_tracking\<close> is the contract both registries share and is interpreted on each.
\<close>

datatype 'c cancel_outcome = NotTracked | CancelCalled 'c | CancelPanic

record 'c tracker =
  cancels :: "(string, 'c option) gmap"

section \<open>RunTracker\<close>

definition newRunTracker :: "'c tracker" where
  "newRunTracker = \<lparr>cancels = mempty\<rparr>"

definition compositeRunKey :: "string \<Rightarrow> string \<Rightarrow> string \<Rightarrow> string" where
  "compositeRunKey instanceID agentID runID =
    (let instanceID = trim_space instanceID;
         agentID = trim_space agentID;
         runID = trim_space runID
     in if instanceID = [] \<or> agentID = [] \<or> runID = [] then []
        else instanceID @ '':'' @ agentID @ '':'' @ runID)"

definition rt_track :: "string \<Rightarrow> 'c option \<Rightarrow> 'c tracker option \<Rightarrow> 'c tracker option" where
  "rt_track runID cancel rt =
    (case rt of None \<Rightarrow> None
     | Some t \<Rightarrow> Some (t\<lparr>cancels := mput runID cancel (cancels t)\<rparr>))"

definition rt_trackComposite ::
    "string \<Rightarrow> string \<Rightarrow> string \<Rightarrow> 'c option \<Rightarrow> 'c tracker option \<Rightarrow> 'c tracker option" where
  "rt_trackComposite instanceID agentID runID cancel rt =
     rt_track (compositeRunKey instanceID agentID runID) cancel rt"

definition call_cancel :: "'c option \<Rightarrow> 'c cancel_outcome" where
  "call_cancel f = (case f of None \<Rightarrow> CancelPanic | Some c \<Rightarrow> CancelCalled c)"

definition rt_cancel :: "string \<Rightarrow> 'c tracker option \<Rightarrow> 'c cancel_outcome" where
  "rt_cancel runID rt =
    (case rt of None \<Rightarrow> NotTracked
     | Some t \<Rightarrow> (case mget (cancels t) runID of
         None \<Rightarrow> NotTracked
       | Some cancel \<Rightarrow> call_cancel cancel))"

definition rt_cancelComposite ::
    "string \<Rightarrow> string \<Rightarrow> string \<Rightarrow> 'c tracker option \<Rightarrow> 'c cancel_outcome" where
  "rt_cancelComposite instanceID agentID runID rt =
     rt_cancel (compositeRunKey instanceID agentID runID) rt"

definition rt_remove :: "string \<Rightarrow> 'c tracker option \<Rightarrow> 'c tracker option" where
  "rt_remove runID rt =
    (case rt of None \<Rightarrow> None
     | Some t \<Rightarrow> Some (t\<lparr>cancels := mdel runID (cancels t)\<rparr>))"

definition rt_removeComposite ::
    "string \<Rightarrow> string \<Rightarrow> string \<Rightarrow> 'c tracker option \<Rightarrow> 'c tracker option" where
  "rt_removeComposite instanceID agentID runID rt =
     rt_remove (compositeRunKey instanceID agentID runID) rt"

definition rt_isTracked :: "string \<Rightarrow> 'c tracker option \<Rightarrow> bool" where
  "rt_isTracked runID rt =
    (case rt of None \<Rightarrow> False | Some t \<Rightarrow> mhas (cancels t) runID)"

definition rt_isTrackedComposite ::
    "string \<Rightarrow> string \<Rightarrow> string \<Rightarrow> 'c tracker option \<Rightarrow> bool" where
  "rt_isTrackedComposite instanceID agentID runID rt =
     rt_isTracked (compositeRunKey instanceID agentID runID) rt"

definition rt_count :: "'c tracker option \<Rightarrow> nat" where
  "rt_count rt = (case rt of None \<Rightarrow> 0 | Some t \<Rightarrow> length (mkeys (cancels t)))"

section \<open>ActiveRunTracker\<close>

definition newActiveRunTracker :: "'c tracker" where
  "newActiveRunTracker = \<lparr>cancels = mempty\<rparr>"

definition trackedRunKey :: "string \<Rightarrow> string \<Rightarrow> string \<Rightarrow> string" where
  "trackedRunKey instanceID agentID runID =
    (if trim_space instanceID = [] then trim_space runID
     else trim_space instanceID @ '':'' @ trim_space agentID @ '':'' @ trim_space runID)"

definition art_track :: "string \<Rightarrow> 'c option \<Rightarrow> 'c tracker option \<Rightarrow> 'c tracker option" where
  "art_track runID cancel t =
    (case t of None \<Rightarrow> None
     | Some tr \<Rightarrow> if cancel = None \<or> runID = [] then Some tr
         else Some (tr\<lparr>cancels := mput runID cancel (cancels tr)\<rparr>))"

definition art_trackComposite ::
    "string \<Rightarrow> string \<Rightarrow> string \<Rightarrow> 'c option \<Rightarrow> 'c tracker option \<Rightarrow> 'c tracker option" where
  "art_trackComposite instanceID agentID runID cancel t =
    (if t = None \<or> cancel = None then t
     else let key = trackedRunKey instanceID agentID runID
          in if key = [] \<or> key = trim_space runID then t else art_track key cancel t)"

definition art_cancel :: "string \<Rightarrow> 'c tracker option \<Rightarrow> 'c cancel_outcome" where
  "art_cancel runID t =
    (case t of None \<Rightarrow> NotTracked
     | Some tr \<Rightarrow> (case mget (cancels tr) runID of
         None \<Rightarrow> NotTracked
       | Some cancel \<Rightarrow> call_cancel cancel))"

definition art_cancelComposite ::
    "string \<Rightarrow> string \<Rightarrow> string \<Rightarrow> 'c tracker option \<Rightarrow> 'c cancel_outcome" where
  "art_cancelComposite instanceID agentID runID t =
    (let key = trackedRunKey instanceID agentID runID
     in if key = [] then NotTracked else art_cancel key t)"

definition art_remove :: "string \<Rightarrow> 'c tracker option \<Rightarrow> 'c tracker option" where
  "art_remove runID t =
    (case t of None \<Rightarrow> None
     | Some tr \<Rightarrow> if runID = [] then Some tr
         else Some (tr\<lparr>cancels := mdel runID (cancels tr)\<rparr>))"

definition art_removeComposite ::
    "string \<Rightarrow> string \<Rightarrow> string \<Rightarrow> 'c tracker option \<Rightarrow> 'c tracker option" where
  "art_removeComposite instanceID agentID runID t =
    (let key = trackedRunKey instanceID agentID runID
     in if key = [] \<or> key = trim_space runID then t else art_remove key t)"

definition art_isTracked :: "string \<Rightarrow> 'c tracker option \<Rightarrow> bool" where
  "art_isTracked runID t =
    (case t of None \<Rightarrow> False
     | Some tr \<Rightarrow> runID \<noteq> [] \<and> mhas (cancels tr) runID)"

definition art_isTrackedComposite ::
    "string \<Rightarrow> string \<Rightarrow> string \<Rightarrow> 'c tracker option \<Rightarrow> bool" where
  "art_isTrackedComposite instanceID agentID runID t =
    (let key = trackedRunKey instanceID agentID runID
     in if key = [] then False else art_isTracked key t)"

section \<open>The shared contract\<close>

locale run_tracking =
  fixes track :: "string \<Rightarrow> 'c option \<Rightarrow> 't \<Rightarrow> 't"
    and cancel :: "string \<Rightarrow> 't \<Rightarrow> 'c cancel_outcome"
    and remove :: "string \<Rightarrow> 't \<Rightarrow> 't"
    and tracked :: "string \<Rightarrow> 't \<Rightarrow> bool"
    and accepts :: "string \<Rightarrow> 'c option \<Rightarrow> bool"
    and inv :: "'t \<Rightarrow> bool"
  assumes cancel_track: "inv t \<Longrightarrow> accepts k c \<Longrightarrow>
      cancel k' (track k c t) = (if k' = k then call_cancel c else cancel k' t)"
    and cancel_remove: "inv t \<Longrightarrow>
      cancel k' (remove k t) = (if k' = k then NotTracked else cancel k' t)"
    and tracked_cancel: "inv t \<Longrightarrow> tracked k t \<longleftrightarrow> cancel k t \<noteq> NotTracked"
    and inv_track: "inv t \<Longrightarrow> inv (track k c t)"
    and inv_remove: "inv t \<Longrightarrow> inv (remove k t)"
begin

lemma tracked_track:
  "inv t \<Longrightarrow> accepts k c \<Longrightarrow> tracked k' (track k c t) \<longleftrightarrow> k' = k \<or> tracked k' t"
  by (simp add: tracked_cancel inv_track cancel_track call_cancel_def split: option.splits)

lemma tracked_remove: "inv t \<Longrightarrow> tracked k' (remove k t) \<longleftrightarrow> k' \<noteq> k \<and> tracked k' t"
  by (simp add: tracked_cancel inv_remove cancel_remove)

text \<open>A run's whole life leaves every other run as it was, and the run itself untracked.\<close>

lemma lifecycle:
  "inv t \<Longrightarrow> accepts k c \<Longrightarrow>
    cancel k' (remove k (track k c t)) = (if k' = k then NotTracked else cancel k' t)"
  by (simp add: cancel_remove cancel_track inv_track)

text \<open>Two runs started one after the other are cancelled independently.\<close>

lemma independent:
  assumes "inv t" and "accepts k c" and "accepts k' c'" and "k \<noteq> k'"
  shows "cancel k (remove k' (track k' c' (track k c t))) = call_cancel c"
  using assms by (simp add: cancel_remove cancel_track inv_track)

end

definition rt_inv :: "'c tracker option \<Rightarrow> bool" where
  "rt_inv rt = (\<exists>t. rt = Some t \<and> wf_gmap (cancels t))"

definition art_inv :: "'c tracker option \<Rightarrow> bool" where
  "art_inv t = (\<exists>tr. t = Some tr \<and> wf_gmap (cancels tr) \<and> mget (cancels tr) [] = None \<and>
     (\<forall>k. mget (cancels tr) k \<noteq> Some None))"

interpretation rt: run_tracking rt_track rt_cancel rt_remove rt_isTracked "\<lambda>_ _. True" rt_inv
  by unfold_locales
    (auto simp: rt_track_def rt_cancel_def rt_remove_def rt_isTracked_def rt_inv_def mhas_def
      call_cancel_def gmap split: option.splits)

interpretation art: run_tracking art_track art_cancel art_remove art_isTracked
    "\<lambda>k c. k \<noteq> [] \<and> c \<noteq> None" art_inv
  by unfold_locales
    (auto simp: art_track_def art_cancel_def art_remove_def art_isTracked_def art_inv_def mhas_def
      call_cancel_def gmap split: option.splits)

section \<open>Keys\<close>

lemma colon_split_unique:
  assumes "a @ '':'' @ b = a' @ '':'' @ b'" and "CHR '':'' \<notin> set a" and "CHR '':'' \<notin> set a'"
  shows "a = a' \<and> b = b'"
proof -
  have "takeWhile (\<lambda>c. c \<noteq> CHR '':'') (a @ '':'' @ b) = a"
    using assms(2) by (induction a) auto
  moreover have "takeWhile (\<lambda>c. c \<noteq> CHR '':'') (a' @ '':'' @ b') = a'"
    using assms(3) by (induction a') auto
  ultimately show ?thesis using assms(1) by auto
qed

lemma compositeRunKey_inj:
  assumes "compositeRunKey i a r \<noteq> []"
    and "compositeRunKey i a r = compositeRunKey i' a' r'"
    and "CHR '':'' \<notin> set (i @ a @ i' @ a')"
  shows "trim_space i = trim_space i' \<and> trim_space a = trim_space a' \<and> trim_space r = trim_space r'"
proof -
  have no: "CHR '':'' \<notin> set (trim_space x)" if "CHR '':'' \<notin> set x" for x
    using that set_trim_space by blast
  from assms(1,2) have eq: "trim_space i @ '':'' @ trim_space a @ '':'' @ trim_space r =
      trim_space i' @ '':'' @ trim_space a' @ '':'' @ trim_space r'"
    by (auto simp: compositeRunKey_def Let_def split: if_splits)
  from colon_split_unique [OF eq] assms(3) no
  have 1: "trim_space i = trim_space i'"
    and eq2: "trim_space a @ '':'' @ trim_space r = trim_space a' @ '':'' @ trim_space r'"
    by auto
  from colon_split_unique [OF eq2] assms(3) no 1 show ?thesis by auto
qed

text \<open>
  In the runtime registry, a run tracked under a complete composite identity is the only
  one its composite cancellation reaches: cancelling any identity whose instance and agent ids
  hold no colon either calls this run's cancel function (and then the identities agree up to
  surrounding white space) or does what it did before the run was tracked. Removing the run
  leaves every other identity as it was.
\<close>

theorem composite_cancel_exact:
  assumes "rt_inv rt" and "compositeRunKey i a r \<noteq> []"
    and "CHR '':'' \<notin> set (i @ a @ i' @ a')"
  shows "(let tracked = rt_trackComposite i a r (Some c) rt;
              same = (trim_space i = trim_space i' \<and> trim_space a = trim_space a' \<and>
                      trim_space r = trim_space r')
          in rt_cancelComposite i' a' r' tracked =
               (if same then CancelCalled c else rt_cancelComposite i' a' r' rt) \<and>
             rt_cancelComposite i' a' r' (rt_removeComposite i a r tracked) =
               (if same then NotTracked else rt_cancelComposite i' a' r' rt))"
proof -
  have key: "compositeRunKey i' a' r' = compositeRunKey i a r \<longleftrightarrow>
      trim_space i = trim_space i' \<and> trim_space a = trim_space a' \<and> trim_space r = trim_space r'"
    using compositeRunKey_inj [OF assms(2) _ assms(3), of r'] by (auto simp: compositeRunKey_def)
  show ?thesis
    using rt.cancel_track [OF assms(1), where k = "compositeRunKey i a r" and c = "Some c"
        and k' = "compositeRunKey i' a' r'"]
      rt.lifecycle [OF assms(1), where k = "compositeRunKey i a r" and c = "Some c"
        and k' = "compositeRunKey i' a' r'"]
    by (simp add: rt_cancelComposite_def rt_trackComposite_def rt_removeComposite_def key
        call_cancel_def Let_def)
qed

theorem composite_cancel_exact_witness:
  "rt_cancelComposite ''i1'' ''ag'' ''r1'' (rt_trackComposite '' i1'' ''ag'' ''r1'' (Some (7::nat))
     (Some newRunTracker)) = CancelCalled 7 \<and>
   rt_cancelComposite ''i2'' ''ag'' ''r1'' (rt_trackComposite '' i1'' ''ag'' ''r1'' (Some (7::nat))
     (Some newRunTracker)) = NotTracked"
proof -
  have inv: "rt_inv (Some (newRunTracker :: nat tracker))"
    by (simp add: rt_inv_def newRunTracker_def)
  have key: "compositeRunKey '' i1'' ''ag'' ''r1'' \<noteq> []" by code_simp
  have t: "trim_space '' i1'' = trim_space ''i1''" "trim_space '' i1'' \<noteq> trim_space ''i2''"
    by code_simp+
  have z: "rt_cancelComposite ''i2'' ''ag'' ''r1'' (Some (newRunTracker :: nat tracker)) = NotTracked"
    by (simp add: rt_cancelComposite_def rt_cancel_def newRunTracker_def)
  show ?thesis
    using composite_cancel_exact [OF inv key, of "''i1''" "''ag''" 7 "''r1''"]
      composite_cancel_exact [OF inv key, of "''i2''" "''ag''" 7 "''r1''"] t z
    by (simp add: Let_def)
qed

definition art_ok :: "'c tracker option \<Rightarrow> bool" where
  "art_ok t = (t = None \<or> art_inv t)"

datatype 'c art_op =
    ArtTrack string "'c option"
  | ArtTrackComposite string string string "'c option"
  | ArtRemove string
  | ArtRemoveComposite string string string

fun art_apply :: "'c tracker option \<Rightarrow> 'c art_op \<Rightarrow> 'c tracker option" where
  "art_apply t (ArtTrack r c) = art_track r c t"
| "art_apply t (ArtTrackComposite i a r c) = art_trackComposite i a r c t"
| "art_apply t (ArtRemove r) = art_remove r t"
| "art_apply t (ArtRemoveComposite i a r) = art_removeComposite i a r t"

lemma art_inv_new: "art_inv (Some newActiveRunTracker)"
  by (simp add: art_inv_def newActiveRunTracker_def)

lemma art_inv_apply: "art_inv t \<Longrightarrow> art_inv (art_apply t op)"
  by (cases op)
    (simp_all add: art.inv_track art.inv_remove art_trackComposite_def art_removeComposite_def Let_def)

lemma art_registered:
  "art_inv t \<Longrightarrow> mget (cancels (the (fold (\<lambda>op t. art_apply t op) ops t))) k = Some (Some c) \<Longrightarrow>
   mget (cancels (the t)) k = Some (Some c) \<or>
   (\<exists>op \<in> set ops. (\<exists>r. op = ArtTrack r (Some c)) \<or> (\<exists>i a r. op = ArtTrackComposite i a r (Some c)))"
proof (induction ops arbitrary: t)
  case Nil
  then show ?case by simp
next
  case (Cons op ops)
  obtain tr where tr: "t = Some tr" using Cons.prems(1) by (auto simp: art_inv_def)
  have step: "mget (cancels (the (art_apply t op))) k = Some (Some c) \<Longrightarrow>
      mget (cancels (the t)) k = Some (Some c) \<or>
      (\<exists>r. op = ArtTrack r (Some c)) \<or> (\<exists>i a r. op = ArtTrackComposite i a r (Some c))"
    by (cases op) (auto simp: tr art_track_def art_trackComposite_def art_remove_def
        art_removeComposite_def Let_def gmap split: if_splits)
  show ?case
    using Cons.IH [OF art_inv_apply [OF Cons.prems(1)]] Cons.prems(2) step by auto
qed

lemma art_inv_fold: "art_inv t \<Longrightarrow> art_inv (fold (\<lambda>op t. art_apply t op) ops t)"
  by (induction ops arbitrary: t) (simp_all add: art_inv_apply)

text \<open>
  The registry of the HTTP channel never calls a nil cancel function: after any sequence of
  tracking and removing operations on a new registry, plain or composite, with nil functions and
  empty ids among the arguments, cancelling any run either reports that it is not tracked or
  calls a function that some operation of the sequence registered.
\<close>

theorem active_cancel_never_panics:
  "art_cancel k (fold (\<lambda>op t. art_apply t op) ops (Some newActiveRunTracker)) \<in>
     {NotTracked} \<union> CancelCalled ` {c. \<exists>op \<in> set ops.
        (\<exists>r. op = ArtTrack r (Some c)) \<or> (\<exists>i a r. op = ArtTrackComposite i a r (Some c))}"
proof -
  let ?t = "fold (\<lambda>op t. art_apply t op) ops (Some newActiveRunTracker)"
  have inv: "art_inv ?t" by (rule art_inv_fold [OF art_inv_new])
  then obtain tr where tr: "?t = Some tr" by (auto simp: art_inv_def)
  show ?thesis
  proof (cases "mget (cancels tr) k")
    case None
    then show ?thesis by (simp add: tr art_cancel_def)
  next
    case (Some f)
    with inv obtain c where f: "f = Some c" by (cases f) (auto simp: tr art_inv_def)
    have "mget (cancels (the ?t)) k = Some (Some c)" using Some f tr by simp
    from art_registered [OF art_inv_new this]
    have "\<exists>op \<in> set ops. (\<exists>r. op = ArtTrack r (Some c)) \<or> (\<exists>i a r. op = ArtTrackComposite i a r (Some c))"
      by (simp add: newActiveRunTracker_def)
    moreover have "art_cancel k ?t = CancelCalled c"
      by (simp add: tr art_cancel_def Some f call_cancel_def)
    ultimately show ?thesis by simp
  qed
qed

end
