(* ===== verification/Http_Queue.thy ===== *)
theory Http_Queue
  imports Http_Runs Http_Events Run_Trackers
begin

text \<open>
  Queued runs: internal/channels/http/pipeline.go. The goroutine of a run is the sequence of actions it
  takes on what is shared, the store, the event bus, the tracker of cancel functions and the queue
  counter. The executor is a parameter: for each attempt, the progress it reports in order, its result
  and its error.
\<close>

section \<open>The queue counter\<close>

record queued_tracker =
  qt_inFlight :: int
  qt_maxInFlight :: int
  qt_idle :: bool

text \<open>\<open>qt_idle\<close>: the channel the waiters wait for is closed.\<close>

definition newQueuedRunTracker :: queued_tracker where
  "newQueuedRunTracker = \<lparr>qt_inFlight = 0, qt_maxInFlight = 64, qt_idle = True\<rparr>"

definition tryBegin :: "queued_tracker \<Rightarrow> bool \<times> queued_tracker" where
  "tryBegin t =
    (if 0 < qt_maxInFlight t \<and> qt_maxInFlight t \<le> qt_inFlight t then (False, t)
     else (True, t\<lparr>qt_idle := (if qt_inFlight t = 0 then False else qt_idle t), qt_inFlight := qt_inFlight t + 1\<rparr>))"

definition queue_done :: "queued_tracker \<Rightarrow> queued_tracker" where
  "queue_done t =
    (if qt_inFlight t \<le> 0 then t
     else t\<lparr>qt_inFlight := qt_inFlight t - 1, qt_idle := (if qt_inFlight t = 1 then True else qt_idle t)\<rparr>)"

text \<open>Whether wait returns at once, were nothing else to happen.\<close>

definition queue_wait :: "queued_tracker \<Rightarrow> bool" where
  "queue_wait t = (qt_inFlight t = 0 \<or> qt_idle t)"

section \<open>The executor\<close>

record execution_input =
  xi_instanceID :: string
  xi_runID :: string
  xi_agentID :: string
  xi_message :: string
  xi_contentParts :: "content_part list"
  xi_source :: string
  xi_sessionID :: string
  xi_thinkingMode :: string

text \<open>A nil trace is None.\<close>

record execution_result =
  xr_instanceID :: string
  xr_agentID :: string
  xr_parentRunID :: string
  xr_output :: string
  xr_artifactPath :: string
  xr_durationMS :: int
  xr_toolCalls :: int
  xr_provider :: string
  xr_model :: string
  xr_trace :: "(string, json) gmap option"

text \<open>An error: its text, and what errors.Is says of it.\<close>

record execution_error =
  xe_text :: string
  xe_canceled :: bool
  xe_deadline :: bool
  xe_eof :: bool

type_synonym progress = "(string \<times> (string, json) gmap) list"
type_synonym executor_run = "execution_input \<Rightarrow> nat \<Rightarrow> progress \<times> execution_result \<times> execution_error option"

definition withRetryMeta :: "(string, json) gmap option \<Rightarrow> int \<Rightarrow> (string, json) gmap option" where
  "withRetryMeta trace retries =
    (if retries \<le> 0 then trace
     else Some (mput ''queue_retry_attempts'' (JNum (itoa retries)) (case trace of None \<Rightarrow> mempty | Some m \<Rightarrow> m)))"

definition isRetryableExecutionError :: "execution_error option \<Rightarrow> bool" where
  "isRetryableExecutionError err =
    (case err of
       None \<Rightarrow> False
     | Some e \<Rightarrow>
       if xe_canceled e then False
       else if xe_deadline e \<or> xe_eof e then True
       else contains_any (to_lower (trim_space (xe_text e))) [''timeout'', ''deadline exceeded'', ''unexpected eof''])"

definition queuedRunMaxAttempts :: nat where
  "queuedRunMaxAttempts = 2"

text \<open>The loop over the attempts, \<open>left\<close> of which are left.\<close>

fun retry_loop ::
  "(nat \<Rightarrow> progress \<times> execution_result \<times> execution_error option) \<Rightarrow> nat \<Rightarrow> nat \<Rightarrow>
   progress \<times> execution_result \<times> execution_error option" where
  "retry_loop execute attempt left =
    (case execute attempt of
       (ps, result, None) \<Rightarrow>
         (ps, (if 1 < attempt then result\<lparr>xr_trace := withRetryMeta (xr_trace result) (int attempt - 1)\<rparr> else result), None)
     | (ps, result, Some err) \<Rightarrow>
         (case left of
            0 \<Rightarrow> (ps, result, Some err)
          | Suc left' \<Rightarrow>
            if \<not> isRetryableExecutionError (Some err) then (ps, result, Some err)
            else (case retry_loop execute (attempt + 1) left' of (qs, r) \<Rightarrow> (ps @ qs, r))))"

definition executeWithRetry :: "executor_run \<Rightarrow> execution_input \<Rightarrow> progress \<times> execution_result \<times> execution_error option" where
  "executeWithRetry executor inp =
    (case retry_loop (executor inp) 1 (queuedRunMaxAttempts - 1) of
       (ps, result, None) \<Rightarrow> (ps, result, None)
     | (ps, result, Some err) \<Rightarrow>
       (ps, (if xr_trace result \<noteq> None then result\<lparr>xr_trace := withRetryMeta (xr_trace result) 1\<rparr> else result), Some err))"

definition isContextCanceledExecutionError :: "execution_error option \<Rightarrow> bool" where
  "isContextCanceledExecutionError err =
    (case err of
       None \<Rightarrow> False
     | Some e \<Rightarrow> xe_canceled e \<or>
         contains_any (to_lower (trim_space (xe_text e))) [''context canceled'', ''context cancelled''])"

definition context_canceled :: execution_error where
  "context_canceled = \<lparr>xe_text = ''context canceled'', xe_canceled = True, xe_deadline = False, xe_eof = False\<rparr>"

text \<open>\<open>ctx_canceled\<close>: the run's context has been cancelled by now.\<close>

definition coerceContextCancellation :: "bool \<Rightarrow> execution_error option \<Rightarrow> execution_error option" where
  "coerceContextCancellation ctx_canceled err =
    (if isContextCanceledExecutionError err then Some context_canceled
     else if err \<noteq> None then err
     else if ctx_canceled then Some context_canceled else None)"

definition progressEventType :: "string \<Rightarrow> string option" where
  "progressEventType eventType =
    (let t = to_lower (trim_space eventType) in
     if t = ''status'' then Some RunEventStatus
     else if t = ''tool_end'' then Some RunEventToolEnd
     else if t = ''model_text'' then Some RunEventModelText
     else if t = ''completed'' then Some RunEventCompleted
     else if t = ''failed'' then Some RunEventFailed
     else None)"

definition firstNonEmptyHTTPString :: "string list \<Rightarrow> string" where
  "firstNonEmptyHTTPString values = (case find (\<lambda>v. trim_space v \<noteq> []) values of None \<Rightarrow> [] | Some v \<Rightarrow> trim_space v)"

section \<open>The actions of a run\<close>

datatype queue_action =
    StoreUpdate http_run
  | BusPublish string string run_event
  | BusClose string
  | TrackerRemove string
  | TrackerRemoveComposite string string string
  | QueueDone

definition new_event :: "http_run \<Rightarrow> string \<Rightarrow> (string, json) gmap \<Rightarrow> run_event" where
  "new_event r eventType data =
    \<lparr>re_id = 0, re_type = eventType, re_runID = [], re_instanceID = run_instanceID r, re_agentID = run_agentID r,
     re_timestamp = 0, re_data = data\<rparr>"

definition publishQueueRunEvent :: "bool \<Rightarrow> http_run \<Rightarrow> string \<Rightarrow> (string, json) gmap \<Rightarrow> queue_action list" where
  "publishQueueRunEvent has_bus r eventType data =
    (if \<not> has_bus then []
     else (let e = new_event r eventType data in
           BusPublish (run_id r) (run_id r) e #
           (if trim_space (run_instanceID r) \<noteq> [] \<or> trim_space (run_agentID r) \<noteq> []
            then [BusPublish (runEventCompositeKey (run_instanceID r) (run_agentID r) (run_id r)) (trim_space (run_id r)) e]
            else [])))"

definition progress_actions :: "bool \<Rightarrow> http_run \<Rightarrow> progress \<Rightarrow> queue_action list" where
  "progress_actions has_bus r ps =
    concat (map (\<lambda>(ty, data). case progressEventType ty of
        None \<Rightarrow> [] | Some kind \<Rightarrow> publishQueueRunEvent has_bus r kind data) ps)"

definition trace_map :: "(string, json) gmap option \<Rightarrow> (string, json) gmap" where
  "trace_map t = (case t of None \<Rightarrow> [] | Some m \<Rightarrow> m)"

text \<open>The fields every outcome takes from the result.\<close>

definition run_of_result :: "http_run \<Rightarrow> execution_result \<Rightarrow> http_run" where
  "run_of_result r res =
    r\<lparr>run_instanceID := firstNonEmptyHTTPString [trim_space (xr_instanceID res), run_instanceID r],
      run_agentID := firstNonEmptyHTTPString [trim_space (xr_agentID res), run_agentID r],
      run_parentRunID := firstNonEmptyHTTPString [trim_space (xr_parentRunID res), run_parentRunID r],
      run_trace := trace_map (xr_trace res), run_provider := xr_provider res, run_model := xr_model res,
      run_toolCalls := xr_toolCalls res\<rparr>"

definition failure_data :: "http_run \<Rightarrow> (string, json) gmap" where
  "failure_data r = mput_all
    [(''status'', JStr (run_status r)), (''error'', JStr (run_error r)), (''provider'', JStr (run_provider r)),
     (''model'', JStr (run_model r)), (''tool_calls'', JNum (itoa (run_toolCalls r)))] mempty"

definition completion_data :: "http_run \<Rightarrow> (string, json) gmap" where
  "completion_data r = mput_all
    [(''status'', JStr ''completed''), (''output'', JStr (run_output r)), (''artifact_path'', JStr (run_artifactPath r)),
     (''duration_ms'', JNum (itoa (run_durationMS r))), (''tool_calls'', JNum (itoa (run_toolCalls r))),
     (''provider'', JStr (run_provider r)), (''model'', JStr (run_model r))] mempty"

text \<open>The run after its execution, and the event that ends it.\<close>

definition finished_run :: "http_run \<Rightarrow> execution_result \<Rightarrow> execution_error option \<Rightarrow> http_run \<times> string \<times> (string, json) gmap" where
  "finished_run r res err =
    (case err of
       Some e \<Rightarrow>
         (if xe_canceled e then
            (let r' = (run_of_result r res)\<lparr>run_status := ''canceled'', run_error := ''run canceled''\<rparr>
             in (r', RunEventCanceled, failure_data r'))
          else
            (let r' = (run_of_result r res)\<lparr>run_status := ''failed'', run_error := xe_text e\<rparr>
             in (r', RunEventFailed, failure_data r')))
     | None \<Rightarrow>
         (let out = trim_space (xr_output res);
              r' = (run_of_result r res)\<lparr>run_status := ''completed'',
                 run_output := (if out = [] then ''Run completed without assistant output. Check run trace/tool activity for details.'' else out),
                 run_artifactPath := xr_artifactPath res, run_durationMS := xr_durationMS res\<rparr>
          in (r', RunEventCompleted, completion_data r')))"

definition input_of :: "http_run \<Rightarrow> execution_input" where
  "input_of r =
    \<lparr>xi_instanceID = run_instanceID r, xi_runID = run_id r, xi_agentID = run_agentID r, xi_message = run_message r,
     xi_contentParts = run_contentParts r, xi_source = run_source r, xi_sessionID = run_sessionID r,
     xi_thinkingMode = run_thinkingMode r\<rparr>"

text \<open>
  executeQueuedRun, with the deferred calls at its end in the reverse order of their defer statements;
  their arguments are those of the run before its execution.
\<close>

definition executeQueuedRun ::
  "bool \<Rightarrow> bool \<Rightarrow> executor_run \<Rightarrow> bool \<Rightarrow> time \<Rightarrow> time \<Rightarrow> http_run \<Rightarrow> queue_action list" where
  "executeQueuedRun has_bus has_tracker executor ctx_canceled started ended r0 =
    (let r = r0\<lparr>run_status := ''running'', run_updatedAt := started\<rparr> in
     case executeWithRetry executor (input_of r) of
       (ps, res, err) \<Rightarrow>
         (case finished_run r res (coerceContextCancellation ctx_canceled err) of
            (r', eventType, data) \<Rightarrow>
              [StoreUpdate r] @
              publishQueueRunEvent has_bus r RunEventStatus (mput ''status'' (JStr ''running'') mempty) @
              progress_actions has_bus r ps @
              publishQueueRunEvent has_bus r' eventType data @
              [StoreUpdate (r'\<lparr>run_updatedAt := ended\<rparr>)] @
              (if has_bus
               then [BusClose (runEventCompositeKey (run_instanceID r0) (run_agentID r0) (run_id r0)), BusClose (run_id r0)]
               else []) @
              (if has_tracker
               then [TrackerRemoveComposite (run_instanceID r0) (run_agentID r0) (run_id r0), TrackerRemove (run_id r0)]
               else []) @
              [QueueDone]))"

section \<open>What is shared\<close>

record ('s, 'c) service =
  sv_store :: 's
  sv_bus :: event_bus
  sv_tracker :: "'c tracker option"
  sv_queue :: queued_tracker

text \<open>\<open>update\<close> is the store's Update, whose error is ignored; \<open>gaps\<close> and \<open>now\<close> are those of the bus.\<close>

definition apply_action ::
  "(http_run \<Rightarrow> 's \<Rightarrow> run_store_error option \<times> 's) \<Rightarrow> (int \<Rightarrow> nat) \<Rightarrow> time \<Rightarrow> queue_action \<Rightarrow>
   ('s, 'c) service \<Rightarrow> ('s, 'c) service" where
  "apply_action update gaps now act sv =
    (case act of
       StoreUpdate r \<Rightarrow> sv\<lparr>sv_store := snd (update r (sv_store sv))\<rparr>
     | BusPublish k r e \<Rightarrow> sv\<lparr>sv_bus := publish gaps k r e now (sv_bus sv)\<rparr>
     | BusClose k \<Rightarrow> sv\<lparr>sv_bus := closeRun k (sv_bus sv)\<rparr>
     | TrackerRemove k \<Rightarrow> sv\<lparr>sv_tracker := art_remove k (sv_tracker sv)\<rparr>
     | TrackerRemoveComposite i a r \<Rightarrow> sv\<lparr>sv_tracker := art_removeComposite i a r (sv_tracker sv)\<rparr>
     | QueueDone \<Rightarrow> sv\<lparr>sv_queue := queue_done (sv_queue sv)\<rparr>)"

fun apply_actions ::
  "(http_run \<Rightarrow> 's \<Rightarrow> run_store_error option \<times> 's) \<Rightarrow> (nat \<Rightarrow> int \<Rightarrow> nat) \<Rightarrow> (nat \<Rightarrow> time) \<Rightarrow> nat \<Rightarrow> queue_action list \<Rightarrow>
   ('s, 'c) service \<Rightarrow> ('s, 'c) service" where
  "apply_actions update gaps now i [] sv = sv"
| "apply_actions update gaps now i (act # acts) sv =
     apply_actions update gaps now (Suc i) acts (apply_action update (gaps i) (now i) act sv)"

section \<open>Queueing\<close>

datatype queue_error = ErrQueueFull | CreateRun run_store_error

record run_request =
  rq_agentID :: string
  rq_message :: string
  rq_contentParts :: "content_part list"
  rq_source :: string
  rq_sessionID :: string
  rq_thinkingMode :: string
  rq_instanceID :: string

definition new_run :: "string \<Rightarrow> time \<Rightarrow> run_request \<Rightarrow> http_run" where
  "new_run runID now q =
    \<lparr>run_id = runID, run_instanceID = trim_space (rq_instanceID q), run_agentID = rq_agentID q, run_parentRunID = [],
     run_message = rq_message q, run_contentParts = normalize_parts (rq_contentParts q),
     run_thinkingMode = trim_space (rq_thinkingMode q), run_source = rq_source q, run_sessionID = rq_sessionID q,
     run_status = ''queued'', run_output = [], run_artifactPath = [], run_durationMS = 0, run_toolCalls = 0,
     run_provider = [], run_model = [], run_trace = [], run_decompositionPlan = [], run_error = [],
     run_createdAt = now, run_updatedAt = now\<rparr>"

text \<open>The id is that of newRunID; \<open>cancel\<close> is the cancel function of the run's context.\<close>

definition queueRunWithOptions ::
  "(http_run \<Rightarrow> 's \<Rightarrow> http_run \<times> run_store_error option \<times> 's) \<Rightarrow> string \<Rightarrow> time \<Rightarrow> 'c \<Rightarrow> run_request \<Rightarrow>
   ('s, 'c) service \<Rightarrow> (queue_error + http_run) \<times> ('s, 'c) service" where
  "queueRunWithOptions create runID now cancel q sv =
    (case tryBegin (sv_queue sv) of
       (False, _) \<Rightarrow> (Inl ErrQueueFull, sv)
     | (True, queue) \<Rightarrow>
       (case create (new_run runID now q) (sv_store sv) of
          (_, Some e, s) \<Rightarrow> (Inl (CreateRun e), sv\<lparr>sv_store := s, sv_queue := queue_done queue\<rparr>)
        | (created, None, s) \<Rightarrow>
          (Inr created,
           sv\<lparr>sv_store := s, sv_queue := queue,
             sv_tracker := art_trackComposite (run_instanceID created) (run_agentID created) (run_id created) (Some cancel)
               (art_track (run_id created) (Some cancel) (sv_tracker sv))\<rparr>)))"

definition queueRun ::
  "(http_run \<Rightarrow> 's \<Rightarrow> http_run \<times> run_store_error option \<times> 's) \<Rightarrow> string \<Rightarrow> time \<Rightarrow> 'c \<Rightarrow> run_request \<Rightarrow>
   ('s, 'c) service \<Rightarrow> (queue_error + http_run) \<times> ('s, 'c) service" where
  "queueRun create runID now cancel q sv =
    (case queueRunWithOptions create runID now cancel (q\<lparr>rq_instanceID := []\<rparr>) (sv\<lparr>sv_tracker := None\<rparr>) of
       (r, sv') \<Rightarrow> (r, sv'\<lparr>sv_tracker := sv_tracker sv\<rparr>))"

end
