(* ===== verification/Http_Events_Facts.thy ===== *)
theory Http_Events_Facts
  imports Http_Events
begin

text \<open>
  What the event bus promises in any interleaving of publishers, subscribers and readers: the states it
  can be in are \<open>reachable_bus\<close>. A reader sees the events of its run in order and each once, buffers
  and replays are bounded, and a reader that is at most 32 events behind misses none.
\<close>

section \<open>Channels\<close>

definition stream :: "event_chan \<Rightarrow> run_event list" where
  "stream ch = ec_got ch @ ec_buf ch"

definition stream_ids :: "event_chan \<Rightarrow> int list" where
  "stream_ids ch = map re_id (stream ch)"

definition chan_ok :: "int \<Rightarrow> event_chan \<Rightarrow> bool" where
  "chan_ok n ch \<longleftrightarrow> sorted_wrt (<) (stream_ids ch) \<and> (\<forall>i \<in> set (stream_ids ch). i \<le> n) \<and>
    length (ec_buf ch) \<le> ec_cap ch"

lemma stream_take [simp]: "stream (take_events n ch) = stream ch" "ec_cap (take_events n ch) = ec_cap ch"
  by (simp_all add: stream_def take_events_def)

lemma chan_ok_take: "chan_ok n ch \<Longrightarrow> chan_ok n (take_events m ch)"
  by (auto simp: chan_ok_def stream_ids_def) (simp add: take_events_def)

lemma chan_ok_mono: "chan_ok n ch \<Longrightarrow> n \<le> m \<Longrightarrow> chan_ok m ch"
  by (auto simp: chan_ok_def)

lemma chan_ok_push:
  assumes "chan_ok n ch" "n < re_id e" "length (ec_buf ch) < ec_cap ch"
  shows "chan_ok (re_id e) (push_event e ch)"
proof -
  have "stream_ids (push_event e ch) = stream_ids ch @ [re_id e]"
    by (simp add: stream_ids_def stream_def push_event_def)
  moreover have "\<forall>i \<in> set (stream_ids ch). i < re_id e" using assms(1,2) by (auto simp: chan_ok_def)
  ultimately show ?thesis using assms(1,3)
    by (auto simp: chan_ok_def sorted_wrt_append push_event_def less_imp_le)
qed

lemma chan_ok_drop:
  assumes "chan_ok n ch"
  shows "chan_ok n (ch\<lparr>ec_buf := drop 1 (ec_buf ch)\<rparr>)"
proof (cases "ec_buf ch")
  case (Cons e es)
  with assms show ?thesis
    by (auto simp: chan_ok_def stream_ids_def stream_def sorted_wrt_append)
qed (use assms in \<open>simp add: chan_ok_def stream_ids_def stream_def\<close>)

lemma enqueue_ok:
  assumes "chan_ok n ch" "n < re_id e"
  shows "chan_ok (re_id e) (snd (enqueueRunEvent gap ch e))"
proof -
  let ?ch1 = "take_events gap ch"
  let ?ch2 = "?ch1\<lparr>ec_buf := drop 1 (ec_buf ?ch1)\<rparr>"
  have "chan_ok n ?ch2" using assms(1) by (intro chan_ok_drop chan_ok_take)
  then show ?thesis using assms chan_ok_push [OF _ assms(2)] chan_ok_mono [of n ?ch2 "re_id e"]
    by (auto simp: enqueueRunEvent_def Let_def)
qed

lemma enqueue_cap [simp]: "ec_cap (snd (enqueueRunEvent gap ch e)) = ec_cap ch"
  by (simp add: enqueueRunEvent_def Let_def push_event_def)

lemma enqueue_free:
  "length (ec_buf ch) < ec_cap ch \<Longrightarrow> enqueueRunEvent gap ch e = (True, push_event e ch)"
  by (simp add: enqueueRunEvent_def)

text \<open>The newest event is never the one that is lost.\<close>

lemma enqueue_newest:
  "0 < ec_cap ch \<Longrightarrow> length (ec_buf ch) \<le> ec_cap ch \<Longrightarrow>
   fst (enqueueRunEvent gap ch e) \<and> last (stream (snd (enqueueRunEvent gap ch e))) = e"
  by (auto simp: enqueueRunEvent_def Let_def push_event_def stream_def take_events_def)

section \<open>The invariant\<close>

definition state_ok :: "nat \<Rightarrow> run_event_state \<Rightarrow> bool" where
  "state_ok limit st \<longleftrightarrow>
    0 \<le> es_nextID st \<and> es_nextID st \<le> max_duration \<and>
    map re_id (es_replay st) = [es_nextID st - int (length (es_replay st)) + 1..es_nextID st] \<and>
    int (length (es_replay st)) = min (int limit) (es_nextID st) \<and>
    wf_gmap (es_subscribers st) \<and>
    (\<forall>(sid, ch) \<in> set (es_subscribers st). chan_ok (es_nextID st) ch \<and> 0 < ec_cap ch) \<and>
    length (es_terminalEvents st) \<le> 1 \<and> (\<forall>e \<in> set (es_terminalEvents st). re_id e \<le> es_nextID st)"

definition bus_ok :: "event_bus \<Rightarrow> bool" where
  "bus_ok b \<longleftrightarrow> wf_gmap (eb_runs b) \<and> 0 < eb_replayLimit b \<and> eb_subscriberBuffer b = 32 \<and>
    (\<forall>(k, st) \<in> set (eb_runs b). state_ok (eb_replayLimit b) st) \<and>
    (\<forall>ch \<in> set (eb_done b). \<exists>n. chan_ok n ch)"

lemma state_ok_subs:
  "state_ok limit st \<Longrightarrow> wf_gmap subs \<Longrightarrow>
   (\<And>sid ch. (sid, ch) \<in> set subs \<Longrightarrow> chan_ok (es_nextID st) ch \<and> 0 < ec_cap ch) \<Longrightarrow>
   state_ok limit (st\<lparr>es_subscribers := subs\<rparr>)"
  by (auto simp: state_ok_def)

lemma state_ok_subID: "state_ok limit (st\<lparr>es_nextSubID := j\<rparr>) = state_ok limit st"
  by (simp add: state_ok_def)

lemma bus_ok_state: "bus_ok b \<Longrightarrow> mget (eb_runs b) k = Some st \<Longrightarrow> state_ok (eb_replayLimit b) st"
  by (auto simp: bus_ok_def dest: mget_in)

lemma set_mput: "wf_gmap m \<Longrightarrow> set (mput k v m) \<subseteq> insert (k, v) (set m)"
  by (auto dest!: in_mget [OF wf_mput] simp: mget_mput dest: mget_in split: if_splits)

lemma state_ok_put:
  assumes "state_ok limit st" "chan_ok (es_nextID st) ch" "0 < ec_cap ch"
  shows "state_ok limit (st\<lparr>es_subscribers := mput sid ch (es_subscribers st)\<rparr>)"
proof (rule state_ok_subs [OF assms(1)])
  have wf: "wf_gmap (es_subscribers st)" using assms(1) by (simp add: state_ok_def)
  then show "wf_gmap (mput sid ch (es_subscribers st))" by simp
  fix sid' ch'
  assume "(sid', ch') \<in> set (mput sid ch (es_subscribers st))"
  then have "(sid', ch') = (sid, ch) \<or> (sid', ch') \<in> set (es_subscribers st)" using set_mput [OF wf] by blast
  then show "chan_ok (es_nextID st) ch' \<and> 0 < ec_cap ch'" using assms by (auto simp: state_ok_def)
qed

lemma bus_ok_put: "bus_ok b \<Longrightarrow> state_ok (eb_replayLimit b) st \<Longrightarrow> bus_ok (put_run k st b)"
  using set_mput [of "eb_runs b" k st] by (auto simp: bus_ok_def put_run_def)

lemma bus_ok_done: "bus_ok b \<Longrightarrow> (\<And>ch. ch \<in> set chs \<Longrightarrow> \<exists>n. chan_ok n ch) \<Longrightarrow> bus_ok (b\<lparr>eb_done := eb_done b @ chs\<rparr>)"
  by (auto simp: bus_ok_def)

lemma add_done_ok: "bus_ok b \<Longrightarrow> chan_ok n ch \<Longrightarrow> bus_ok (snd (add_done ch b))"
  by (auto simp: add_done_def intro!: bus_ok_done)

lemma new_state_ok: "state_ok limit new_run_state"
  by (simp add: state_ok_def new_run_state_def max_duration_def mempty_def wf_gmap_def)

lemma prune_loop_subset:
  "wf_gmap runs \<Longrightarrow> wf_gmap (fst (prune_loop m runs order)) \<and> set (fst (prune_loop m runs order)) \<subseteq> set runs"
proof (induction m runs order rule: prune_loop.induct)
  case (1 m runs order)
  show ?case
  proof (cases "length runs \<le> m \<or> dropWhile (\<lambda>k. \<not> prunable runs k) order = []")
    case True
    then have "prune_loop m runs order = (runs, order)" by (auto simp only: prune_loop.simps [of m runs order] list.case if_True split: if_splits)
    then show ?thesis using 1(2) by simp
  next
    case False
    then obtain k rest where k: "dropWhile (\<lambda>k. \<not> prunable runs k) order = k # rest"
      by (cases "dropWhile (\<lambda>k. \<not> prunable runs k) order") auto
    with False 1 have "wf_gmap (fst (prune_loop m (mdel k runs) (takeWhile (\<lambda>k. \<not> prunable runs k) order @ rest)))"
      "set (fst (prune_loop m (mdel k runs) (takeWhile (\<lambda>k. \<not> prunable runs k) order @ rest))) \<subseteq> set (mdel k runs)"
      by auto
    moreover have "set (mdel k runs) \<subseteq> set runs" by (auto simp: mdel_def)
    ultimately show ?thesis using False k by (auto simp: prune_loop.simps [of m runs order])
  qed
qed

lemma prune_ok: "bus_ok b \<Longrightarrow> bus_ok (pruneRunsLocked b)"
  using prune_loop_subset [of "eb_runs b" "eb_maxRuns b" "eb_runOrder b"]
  by (auto simp: bus_ok_def pruneRunsLocked_def split: prod.split)

lemma prune_keeps [simp]: "eb_replayLimit (pruneRunsLocked b) = eb_replayLimit b"
  "eb_subscriberBuffer (pruneRunsLocked b) = eb_subscriberBuffer b" "eb_done (pruneRunsLocked b) = eb_done b"
  by (simp_all add: pruneRunsLocked_def split: prod.split)

lemma ensure_ok:
  assumes "bus_ok b" "ensureRunLocked k b = (st, b1)"
  shows "bus_ok b1" "state_ok (eb_replayLimit b1) st" "eb_replayLimit b1 = eb_replayLimit b"
proof -
  have "bus_ok b1 \<and> state_ok (eb_replayLimit b1) st \<and> eb_replayLimit b1 = eb_replayLimit b"
  proof (cases "mget (eb_runs b) k")
    case None
    have "bus_ok (put_run k new_run_state b)" using assms(1) new_state_ok by (rule bus_ok_put)
    then have "bus_ok (b\<lparr>eb_runs := mput k new_run_state (eb_runs b), eb_runOrder := eb_runOrder b @ [k]\<rparr>)"
      by (simp add: bus_ok_def put_run_def)
    then show ?thesis using assms(2) None new_state_ok prune_ok by (auto simp: ensureRunLocked_def)
  next
    case (Some st')
    with assms bus_ok_state show ?thesis by (auto simp: ensureRunLocked_def)
  qed
  then show "bus_ok b1" "state_ok (eb_replayLimit b1) st" "eb_replayLimit b1 = eb_replayLimit b" by auto
qed

lemma upto_filter: "filter (\<lambda>i. n < i) [a..b] = [max (n + 1) a..b]" for n a b :: int
proof (cases "n < a \<or> b \<le> n")
  case True
  then show ?thesis by (auto simp: filter_id_conv filter_empty_conv max_def)
next
  case False
  then have "[a..b] = [a..n] @ [n + 1..b]" using upto_split1 [of a "n + 1" b] by simp
  moreover have "filter (\<lambda>i. n < i) [a..n] = []" "filter (\<lambda>i. n < i) [n + 1..b] = [n + 1..b]"
    by (auto simp: filter_empty_conv filter_id_conv)
  ultimately show ?thesis using False by (simp add: max_def)
qed


text \<open>What a new subscriber is sent.\<close>

definition replay_after :: "int \<Rightarrow> run_event_state \<Rightarrow> run_event list" where
  "replay_after n st =
    (let replay = filter (\<lambda>e. n < re_id e) (es_replay st) in
     if es_terminal st \<and> replay = [] \<and> es_terminalEvents st \<noteq> [] then es_terminalEvents st else replay)"

definition replay_chan :: "int \<Rightarrow> run_event_state \<Rightarrow> event_chan" where
  "replay_chan n st = \<lparr>ec_cap = length (replay_after n st) + 32, ec_buf = replay_after n st, ec_got = []\<rparr>"

lemma subscribe_eq:
  "eb_subscriberBuffer (snd (ensureRunLocked (trim_space k) b)) = 32 \<Longrightarrow> trim_space k \<noteq> [] \<Longrightarrow>
   subscribe k n b =
     (case ensureRunLocked (trim_space k) b of
        (st, b1) \<Rightarrow>
          if es_terminal st then add_done (replay_chan n st) b1
          else (LiveChan (trim_space k) (es_nextSubID st + 1),
                put_run (trim_space k)
                  (st\<lparr>es_nextSubID := es_nextSubID st + 1,
                     es_subscribers := mput (es_nextSubID st + 1) (replay_chan n st) (es_subscribers st)\<rparr>) b1))"
  by (auto simp: subscribe_def Let_def replay_chan_def replay_after_def split: prod.split)

lemma replay_ids:
  "state_ok limit st \<Longrightarrow>
   map re_id (filter (\<lambda>e. n < re_id e) (es_replay st)) =
     [max (n + 1) (es_nextID st - min (int limit) (es_nextID st) + 1)..es_nextID st]"
proof -
  assume ok: "state_ok limit st"
  have "map re_id (filter (\<lambda>e. n < re_id e) (es_replay st)) = filter (\<lambda>i. n < i) (map re_id (es_replay st))"
    by (simp add: filter_map comp_def)
  with ok show ?thesis by (simp add: state_ok_def upto_filter)
qed

lemma replay_chan_ok:
  assumes "state_ok limit st"
  shows "chan_ok (es_nextID st) (replay_chan n st)"
proof (cases "es_terminal st \<and> filter (\<lambda>e. n < re_id e) (es_replay st) = [] \<and> es_terminalEvents st \<noteq> []")
  case True
  then have r: "replay_after n st = es_terminalEvents st" by (simp add: replay_after_def)
  obtain e where "es_terminalEvents st = [e]" "re_id e \<le> es_nextID st"
    using True assms by (cases "es_terminalEvents st") (auto simp: state_ok_def)
  then show ?thesis by (simp add: chan_ok_def stream_ids_def stream_def replay_chan_def r)
next
  case False
  then have "map re_id (replay_after n st) = [max (n + 1) (es_nextID st - min (int limit) (es_nextID st) + 1)..es_nextID st]"
    using replay_ids [OF assms, of n] by (auto simp: replay_after_def Let_def)
  then show ?thesis by (simp add: chan_ok_def stream_ids_def stream_def replay_chan_def)
qed

lemma subscribe_ok:
  assumes "bus_ok b"
  shows "bus_ok (snd (subscribe k n b))"
proof (cases "trim_space k = []")
  case True
  have "chan_ok 0 \<lparr>ec_cap = 0, ec_buf = [], ec_got = []\<rparr>" by (simp add: chan_ok_def stream_ids_def stream_def)
  then show ?thesis using True add_done_ok [OF assms] by (simp add: subscribe_def)
next
  case False
  obtain st b1 where e: "ensureRunLocked (trim_space k) b = (st, b1)" by (rule prod.exhaust)
  note ok = ensure_ok [OF assms e]
  have sb: "eb_subscriberBuffer b1 = 32" using ok(1) by (simp add: bus_ok_def)
  note ch = replay_chan_ok [OF ok(2), of n]
  have "state_ok (eb_replayLimit b1) (st\<lparr>es_nextSubID := es_nextSubID st + 1,
      es_subscribers := mput (es_nextSubID st + 1) (replay_chan n st) (es_subscribers st)\<rparr>)"
    using state_ok_put [of "eb_replayLimit b1" "st\<lparr>es_nextSubID := es_nextSubID st + 1\<rparr>" "replay_chan n st"] ok(2) ch
    by (simp add: state_ok_subID) (simp add: replay_chan_def)
  then show ?thesis using e sb False ok(1) ch
    by (auto simp: subscribe_eq intro: bus_ok_put add_done_ok)
qed

text \<open>Publishing an event that has no number yet, while the counter has room.\<close>

definition published :: "(int \<Rightarrow> nat) \<Rightarrow> run_event \<Rightarrow> nat \<Rightarrow> run_event_state \<Rightarrow> run_event_state" where
  "published gaps e limit st =
    st\<lparr>es_nextID := re_id e,
       es_replay := drop (length (es_replay st) + 1 - limit) (es_replay st @ [e]),
       es_terminal := (es_terminal st \<or> isTerminalRunEventType (re_type e)),
       es_terminalEvents := (if isTerminalRunEventType (re_type e) then [e] else es_terminalEvents st),
       es_subscribers := map (\<lambda>(sid, ch). (sid, snd (enqueueRunEvent (gaps sid) ch e))) (es_subscribers st),
       es_dropped := (es_dropped st +
         int (length (filter (\<lambda>(sid, ch). \<not> fst (enqueueRunEvent (gaps sid) ch e)) (es_subscribers st)))) mod 18446744073709551616\<rparr>"

lemma published_rest:
  "es_nextID (published gaps e limit st) = re_id e"
  "es_subscribers (published gaps e limit st) =
     map (\<lambda>(sid, ch). (sid, snd (enqueueRunEvent (gaps sid) ch e))) (es_subscribers st)"
  "es_terminalEvents (published gaps e limit st) =
     (if isTerminalRunEventType (re_type e) then [e] else es_terminalEvents st)"
  by (simp_all add: published_def)

lemma publish_eq:
  assumes "trim_space k \<noteq> []" "trim_space r \<noteq> []" "re_id event \<le> 0"
    and e: "ensureRunLocked (trim_space k) b = (st, b1)" and room: "es_nextID st < max_duration"
  obtains e where "re_id e = es_nextID st + 1" "re_type e = re_type event" "re_data e = re_data event"
    "publish gaps k r event now b = put_run (trim_space k) (published gaps e (eb_replayLimit b1) st) b1"
proof
  let ?e = "event\<lparr>re_runID := trim_space r,
    re_timestamp := (if re_timestamp event = 0 then now else re_timestamp event), re_id := es_nextID st + 1\<rparr>"
  show "publish gaps k r event now b = put_run (trim_space k) (published gaps ?e (eb_replayLimit b1) st) b1"
    using assms by (auto simp: publish_def number_event_def accept_event_def published_def Let_def next_id_def comp_def
        case_prod_unfold filter_map)
qed simp_all

lemma upto_drop: "drop k [a..b] = [a + int k..b]" for a b :: int
proof (induction k arbitrary: a)
  case (Suc k)
  then show ?case by (cases "a \<le> b") (simp_all add: upto_rec1 algebra_simps)
qed simp

lemma published_ok:
  assumes ok: "state_ok limit st" and e: "re_id e = es_nextID st + 1" and room: "es_nextID st < max_duration"
    and limit: "0 < limit"
  shows "state_ok limit (published gaps e limit st)"
proof -
  let ?r = "es_replay st" and ?n = "es_nextID st"
  have n: "0 \<le> ?n" "int (length ?r) = min (int limit) ?n" "map re_id ?r = [?n - int (length ?r) + 1..?n]"
    using ok by (auto simp: state_ok_def)
  have "map re_id (?r @ [e]) = [?n - int (length ?r) + 1..?n + 1]"
    using n(2,3) e upto_rec2 [of "?n - int (length ?r) + 1" "?n + 1"] by simp
  then have ids: "map re_id (drop (length ?r + 1 - limit) (?r @ [e]))
      = [?n - int (length ?r) + 1 + int (length ?r + 1 - limit)..?n + 1]"
    by (simp only: drop_map [symmetric] upto_drop)
  have cut: "int (length ?r + 1 - limit) = max 0 (int (length ?r) + 1 - int limit)" by simp
  obtain R where R: "R = drop (length ?r + 1 - limit) (?r @ [e])" by simp
  have len: "int (length R) = min (int limit) (?n + 1)"
    using n(1,2) limit by (simp add: R del: drop_append)
  have lo: "?n - int (length ?r) + 1 + int (length ?r + 1 - limit) = ?n + 1 - int (length R) + 1"
    unfolding cut len using n(1,2) limit by (simp add: min_def max_def)
  have idsR: "map re_id R = [?n + 1 - int (length R) + 1..?n + 1]"
    using ids unfolding lo R [symmetric] .
  have chans: "chan_ok (?n + 1) (snd (enqueueRunEvent (gaps sid) ch e)) \<and> 0 < ec_cap ch"
    if "(sid, ch) \<in> set (es_subscribers st)" for sid ch
    using ok that enqueue_ok [of ?n ch e "gaps sid"] e by (auto simp: state_ok_def)
  have "wf_gmap (map (\<lambda>(sid, ch). (sid, snd (enqueueRunEvent (gaps sid) ch e))) (es_subscribers st))"
    using ok by (simp add: state_ok_def wf_gmap_def comp_def case_prod_unfold)
  moreover have "es_replay (published gaps e limit st) = R" by (simp add: published_def R)
  moreover have "length (es_terminalEvents st) \<le> 1" "\<forall>e \<in> set (es_terminalEvents st). re_id e \<le> ?n"
    using ok by (auto simp: state_ok_def)
  ultimately show ?thesis using e room n(1) len idsR chans
    by (auto simp: state_ok_def published_rest)
qed

section \<open>Every reachable bus\<close>

text \<open>The counter of a run has room for another event: it is a 64-bit number.\<close>

definition counter_room :: "nat \<Rightarrow> string \<Rightarrow> event_bus \<Rightarrow> bool" where
  "counter_room m k b =
    (case mget (eb_runs b) (trim_space k) of None \<Rightarrow> True | Some st \<Rightarrow> es_nextID st + int m \<le> max_duration)"

inductive reachable_bus :: "event_bus \<Rightarrow> bool" where
  fresh: "reachable_bus (newRunEventBus limit)"
| subscribed: "reachable_bus b \<Longrightarrow> reachable_bus (snd (subscribe k n b))"
| sent: "reachable_bus b \<Longrightarrow> re_id e \<le> 0 \<Longrightarrow> counter_room 1 k b \<Longrightarrow> reachable_bus (publish gaps k r e now b)"
| closed: "reachable_bus b \<Longrightarrow> reachable_bus (closeRun k b)"
| unsubscribed: "reachable_bus b \<Longrightarrow> reachable_bus (unsubscribe k sid b)"
| received: "reachable_bus b \<Longrightarrow> reachable_bus (receive ref b)"

lemma ensure_room:
  "counter_room 1 k b \<Longrightarrow> ensureRunLocked (trim_space k) b = (st, b1) \<Longrightarrow> es_nextID st < max_duration"
  by (auto simp: counter_room_def ensureRunLocked_def new_run_state_def max_duration_def split: option.splits)

lemma publish_ok:
  assumes "bus_ok b" "re_id e \<le> 0" "counter_room 1 k b"
  shows "bus_ok (publish gaps k r e now b)"
proof (cases "trim_space k = [] \<or> trim_space r = []")
  case True
  then show ?thesis using assms(1) by (auto simp: publish_def Let_def)
next
  case False
  obtain st b1 where en: "ensureRunLocked (trim_space k) b = (st, b1)" by (rule prod.exhaust)
  note ok = ensure_ok [OF assms(1) en] and room = ensure_room [OF assms(3) en]
  obtain e' where "re_id e' = es_nextID st + 1"
    "publish gaps k r e now b = put_run (trim_space k) (published gaps e' (eb_replayLimit b1) st) b1"
    using publish_eq [OF _ _ assms(2) en room, of r gaps now] False by blast
  moreover have "0 < eb_replayLimit b1" using ok(1) by (simp add: bus_ok_def)
  ultimately show ?thesis using bus_ok_put [OF ok(1)] published_ok [OF ok(2) _ room] by simp
qed

lemma close_ok:
  assumes "bus_ok b"
  shows "bus_ok (closeRun k b)"
proof (cases "mget (eb_runs b) (trim_space k)")
  case None
  then show ?thesis using assms by (simp add: closeRun_def Let_def)
next
  case (Some st)
  note st = bus_ok_state [OF assms Some]
  have "bus_ok (b\<lparr>eb_done := eb_done b @ mvals (es_subscribers st)\<rparr>)"
    using st by (intro bus_ok_done [OF assms]) (fastforce simp: mvals_def state_ok_def)
  moreover have "state_ok (eb_replayLimit b) (st\<lparr>es_terminal := True, es_subscribers := mempty\<rparr>)"
    using st by (simp add: state_ok_def mempty_def wf_gmap_def)
  ultimately show ?thesis using Some assms by (auto simp: closeRun_def Let_def intro: bus_ok_put)
qed

lemma unsubscribe_ok:
  assumes "bus_ok b"
  shows "bus_ok (unsubscribe k sid b)"
proof (cases "mget (eb_runs b) k")
  case (Some st)
  note st = bus_ok_state [OF assms Some]
  show ?thesis
  proof (cases "mget (es_subscribers st) sid")
    case ch: (Some ch)
    have "bus_ok (b\<lparr>eb_done := eb_done b @ [ch]\<rparr>)"
      using st mget_in [OF ch] by (intro bus_ok_done [OF assms]) (auto simp: state_ok_def)
    moreover have "state_ok (eb_replayLimit b) (st\<lparr>es_subscribers := mdel sid (es_subscribers st)\<rparr>)"
      using st by (intro state_ok_subs [OF st] wf_mdel) (auto simp: state_ok_def mdel_def)
    ultimately show ?thesis using Some ch by (auto simp: unsubscribe_def intro: bus_ok_put)
  qed (use Some assms in \<open>simp add: unsubscribe_def\<close>)
qed (use assms in \<open>simp add: unsubscribe_def\<close>)

lemma receive_ok:
  assumes "bus_ok b"
  shows "bus_ok (receive ref b)"
proof (cases ref)
  case (DoneChan n)
  have "\<exists>m. chan_ok m ch"
    if ch: "ch \<in> set ((eb_done b)[n := take_events 1 (eb_done b ! n)])" "n < length (eb_done b)" for ch
  proof -
    obtain m where "chan_ok m (eb_done b ! n)"
      using assms nth_mem [OF ch(2)] unfolding bus_ok_def by blast
    then have "chan_ok m (take_events 1 (eb_done b ! n))" by (rule chan_ok_take)
    moreover have "ch = take_events 1 (eb_done b ! n) \<or> ch \<in> set (eb_done b)"
      using ch(1) set_update_subset_insert [of "eb_done b" n "take_events 1 (eb_done b ! n)"] by blast
    ultimately show ?thesis using assms by (auto simp: bus_ok_def)
  qed
  then show ?thesis using assms DoneChan by (auto simp: receive_def bus_ok_def)
next
  case (LiveChan k sid)
  show ?thesis
  proof (cases "mget (eb_runs b) k")
    case (Some st)
    note st = bus_ok_state [OF assms Some]
    show ?thesis
    proof (cases "mget (es_subscribers st) sid")
      case ch: (Some ch)
      have "chan_ok (es_nextID st) (take_events 1 ch) \<and> 0 < ec_cap (take_events 1 ch)"
        using st mget_in [OF ch] by (auto simp: state_ok_def intro: chan_ok_take)
      then show ?thesis using state_ok_put [OF st] Some ch assms LiveChan by (auto simp: receive_def intro: bus_ok_put)
    qed (use Some assms LiveChan in \<open>simp add: receive_def\<close>)
  qed (use assms LiveChan in \<open>simp add: receive_def\<close>)
qed

lemma reachable_ok: "reachable_bus b \<Longrightarrow> bus_ok b"
proof (induction rule: reachable_bus.induct)
  case (fresh limit)
  show ?case by (simp add: bus_ok_def newRunEventBus_def mempty_def wf_gmap_def)
qed (simp_all add: subscribe_ok publish_ok close_ok unsubscribe_ok receive_ok)

text \<open>
  C32: However publishing, subscribing, closing and reading are interleaved, every subscriber gets the
  events of its run in increasing order of their numbers and none twice, its buffer never exceeds its
  capacity, and a run keeps no more events for replay than the limit. This also holds for the channels
  that are closed already. (Numbers are given by the bus, and a run has fewer than 2^63 events.)
\<close>

theorem streams_ordered:
  assumes "reachable_bus b"
  shows "(\<forall>(k, st) \<in> set (eb_runs b). length (es_replay st) \<le> eb_replayLimit b \<and>
      (\<forall>(sid, ch) \<in> set (es_subscribers st). sorted_wrt (<) (stream_ids ch) \<and> length (ec_buf ch) \<le> ec_cap ch)) \<and>
    (\<forall>ch \<in> set (eb_done b). sorted_wrt (<) (stream_ids ch) \<and> length (ec_buf ch) \<le> ec_cap ch)"
  using reachable_ok [OF assms] by (fastforce simp: bus_ok_def state_ok_def chan_ok_def)

text \<open>A subscriber that is behind by no more than its channel can hold.\<close>

definition publish_all ::
  "string \<Rightarrow> string \<Rightarrow> ((int \<Rightarrow> nat) \<times> run_event \<times> time) list \<Rightarrow> event_bus \<Rightarrow> event_bus" where
  "publish_all k r es b = fold (\<lambda>(gaps, e, now) b. publish gaps k r e now b) es b"

definition channel_of :: "event_bus \<Rightarrow> string \<Rightarrow> int \<Rightarrow> event_chan option" where
  "channel_of b k sid = Option.bind (mget (eb_runs b) k) (\<lambda>st. mget (es_subscribers st) sid)"

lemma mget_map: "mget (map (\<lambda>(k, v). (k, f k v)) m) k = map_option (f k) (mget m k)"
  by (induction m) (auto simp: mget_def)

lemma publish_all_stream:
  assumes "bus_ok b" "mget (eb_runs b) (trim_space k) = Some st" "mget (es_subscribers st) sid = Some ch"
    "length (ec_buf ch) + length es \<le> ec_cap ch" "es_nextID st + int (length es) \<le> max_duration"
    "trim_space k \<noteq> []" "trim_space r \<noteq> []" "list_all (\<lambda>(g, e, t). re_id e \<le> 0) es"
  shows "\<exists>ch'. channel_of (publish_all k r es b) (trim_space k) sid = Some ch' \<and>
    stream_ids ch' = stream_ids ch @ [es_nextID st + 1..es_nextID st + int (length es)]"
  using assms
proof (induction es arbitrary: b st ch)
  case Nil
  then show ?case by (simp add: publish_all_def channel_of_def)
next
  case (Cons x es)
  obtain g e t where x: "x = (g, e, t)" by (rule prod_cases3)
  have en: "ensureRunLocked (trim_space k) b = (st, b)" using Cons.prems(2) by (simp add: ensureRunLocked_def)
  obtain e' where e': "re_id e' = es_nextID st + 1"
    "publish g k r e t b = put_run (trim_space k) (published g e' (eb_replayLimit b) st) b"
    using publish_eq [OF Cons.prems(6,7) _ en, of e g t] Cons.prems(5,8) by (auto simp: x)
  let ?st = "published g e' (eb_replayLimit b) st"
  have free: "snd (enqueueRunEvent (g sid) ch e') = push_event e' ch"
    using Cons.prems(4) by (simp add: enqueue_free)
  have "bus_ok (publish g k r e t b)"
    using Cons.prems by (intro publish_ok) (auto simp: counter_room_def x)
  moreover have "mget (eb_runs (publish g k r e t b)) (trim_space k) = Some ?st"
    by (simp add: e'(2) put_run_def mget_mput)
  moreover have "mget (es_subscribers ?st) sid = Some (push_event e' ch)"
    using Cons.prems(3) free by (simp add: published_def mget_map)
  moreover have "length (ec_buf (push_event e' ch)) + length es \<le> ec_cap (push_event e' ch)"
    "es_nextID ?st + int (length es) \<le> max_duration" "list_all (\<lambda>(g, e, t). re_id e \<le> 0) es"
    using Cons.prems e'(1) by (simp_all add: push_event_def published_def)
  ultimately obtain ch' where ch': "channel_of (publish_all k r es (publish g k r e t b)) (trim_space k) sid = Some ch'"
    "stream_ids ch' = stream_ids (push_event e' ch) @ [es_nextID ?st + 1..es_nextID ?st + int (length es)]"
    using Cons.IH Cons.prems(6,7) by blast
  have "stream_ids (push_event e' ch) = stream_ids ch @ [es_nextID st + 1]"
    by (simp add: stream_ids_def stream_def push_event_def e'(1))
  then have "stream_ids ch' = stream_ids ch @ [es_nextID st + 1..es_nextID st + int (length (x # es))]"
    using ch'(2) e'(1) by (simp add: published_def upto_rec1 algebra_simps)
  moreover have "publish_all k r (x # es) b = publish_all k r es (publish g k r e t b)"
    by (simp add: publish_all_def x)
  ultimately show ?case using ch'(1) by simp
qed



section \<open>Concrete buses\<close>

definition sample_event :: "string \<Rightarrow> run_event" where
  "sample_event t = \<lparr>re_id = 0, re_type = t, re_runID = [], re_instanceID = [], re_agentID = [],
     re_timestamp = 1, re_data = mempty\<rparr>"

definition sample_bus :: event_bus where
  "sample_bus = publish_all ''r'' ''r'' (replicate 3 (\<lambda>_. 0, sample_event RunEventStatus, 1)) (newRunEventBus 2)"

lemma sample_reachable: "reachable_bus sample_bus"
proof -
  let ?p = "publish (\<lambda>_. 0) ''r'' ''r'' (sample_event RunEventStatus) 1"
  let ?b = "newRunEventBus 2"
  have "counter_room 1 ''r'' ?b" "counter_room 1 ''r'' (?p ?b)" "counter_room 1 ''r'' (?p (?p ?b))" by code_simp+
  then have "reachable_bus (?p (?p (?p ?b)))"
    by (intro reachable_bus.intros) (simp_all add: sample_event_def)
  then show ?thesis by (simp add: sample_bus_def publish_all_def numeral_3_eq_3)
qed

theorem streams_ordered_witness:
  "list_all (\<lambda>(k, st). length (es_replay st) \<le> eb_replayLimit sample_bus) (eb_runs sample_bus)"
  using streams_ordered [OF sample_reachable] by (auto simp: list_all_iff)


text \<open>
  What a reader holds after its run was closed, pruned and started anew is another reader's
  subscription: the numbers of subscriptions start again, and a late unsubscribe closes the new one.
\<close>

lemma stale_unsubscribe:
  "let b = (newRunEventBus 0)\<lparr>eb_maxRuns := 1\<rparr>;
       (ref1, b) = subscribe ''r'' 0 b;
       b = closeRun ''r'' b;
       (_, b) = subscribe ''other'' 0 b;
       b = closeRun ''other'' b;
       (ref2, b) = subscribe ''r'' 0 b
   in ref1 = ref2 \<and> channel_of b ''r'' 1 \<noteq> None \<and> channel_of (unsubscribe ''r'' 1 b) ''r'' 1 = None"
  by code_simp

lemma composite_keys_collide:
  "runEventCompositeKey ''a'' ''b:c'' ''d'' = runEventCompositeKey ''a:b'' ''c'' ''d''"
  by code_simp

end
