(* ===== verification/Http_Runs_Facts.thy ===== *)
theory Http_Runs_Facts
  imports Http_Runs
begin

text \<open>
  What a save of the run store with a file drops: only finished runs, only as many as are too many, and
  the ones updated first. The contract both stores share is the locale \<open>run_store\<close>.
\<close>

section \<open>The table of a store\<close>

definition keyed_runs :: "run_table \<Rightarrow> bool" where
  "keyed_runs s \<longleftrightarrow> wf_gmap s \<and> (\<forall>(k, r) \<in> set s. run_id r = k)"

lemma keyed_mput: "keyed_runs s \<Longrightarrow> keyed_runs (mput (run_id r) r s)"
proof -
  assume k: "keyed_runs s"
  then have wf: "wf_gmap s" by (simp add: keyed_runs_def)
  have "run_id r' = k'" if "(k', r') \<in> set (mput (run_id r) r s)" for k' r'
    using in_mget [OF wf_mput [OF wf] that] k by (auto simp: mget_mput keyed_runs_def dest: mget_in split: if_splits)
  with wf show ?thesis by (auto simp: keyed_runs_def)
qed

lemma keyed_mdel: "keyed_runs s \<Longrightarrow> keyed_runs (mdel k s)"
  by (auto simp: keyed_runs_def mdel_def [of k s] intro: wf_mdel [unfolded mdel_def])

lemma id_normalize [simp]: "run_id (normalizeRunDerivedFields r) = run_id r"
  "run_status (normalizeRunDerivedFields r) = run_status r"
  "run_updatedAt (normalizeRunDerivedFields r) = run_updatedAt r"
  "run_createdAt (normalizeRunDerivedFields r) = run_createdAt r"
  by (simp_all add: normalizeRunDerivedFields_def Let_def)

lemma keyed_put_normal: "keyed_runs m \<Longrightarrow> keyed_runs (mput (run_id r) (normalizeRunDerivedFields r) m)"
  using keyed_mput [of m "normalizeRunDerivedFields r"] by simp

lemma keyed_load: "keyed_runs (load_runs rs)"
proof -
  have "keyed_runs m \<Longrightarrow> keyed_runs (mput_all (map (\<lambda>r. (run_id r, normalizeRunDerivedFields r)) rs) m)" for m
  proof (induction rs arbitrary: m)
    case (Cons r rs)
    from Cons.IH [OF keyed_put_normal [OF Cons.prems]] show ?case by (simp add: mput_all_def)
  qed (simp add: mput_all_def)
  from this [of mempty] show ?thesis by (simp add: load_runs_def keyed_runs_def mempty_def wf_gmap_def)
qed

lemma keyed_mget: "keyed_runs s \<Longrightarrow> mget s k = Some r \<Longrightarrow> run_id r = k"
  by (auto simp: keyed_runs_def dest: mget_in)

section \<open>Compaction\<close>

definition age :: "http_run \<Rightarrow> time \<times> time" where
  "age r = (run_updatedAt r, run_createdAt r)"

lemma removal_order_sorted: "sorted (map age (removal_order rs))"
  by (simp add: removal_order_def age_def [abs_def] sorted_sort_key)

lemma removal_order_set [simp]: "set (removal_order rs) = {r \<in> set rs. terminal_run r}"
  "length (removal_order rs) = length (filter terminal_run rs)"
  by (auto simp: removal_order_def)

lemma mget_fold_mdel: "mget (fold (\<lambda>r s. mdel (run_id r) s) rs s) k = (if k \<in> run_id ` set rs then None else mget s k)"
  by (induction rs arbitrary: s) (auto simp: mget_mdel)

lemma mvals_entry: "keyed_runs s \<Longrightarrow> r \<in> set (mvals s) \<longleftrightarrow> (run_id r, r) \<in> set s"
  by (auto simp: keyed_runs_def mvals_def intro: image_eqI [of _ _ "(run_id r, r)"])

lemma mvals_keyed: "keyed_runs s \<Longrightarrow> r \<in> set (mvals s) \<longleftrightarrow> mget s (run_id r) = Some r"
  using in_mget [of s "run_id r" r] mget_in [of s "run_id r" r] by (auto simp: mvals_entry keyed_runs_def)

lemma ids_distinct: "keyed_runs s \<Longrightarrow> distinct (map run_id (mvals s))"
proof -
  assume k: "keyed_runs s"
  then have "map run_id (mvals s) = mkeys s" by (auto simp: keyed_runs_def mvals_def mkeys_def)
  with k wf_distinct show ?thesis by (auto simp: keyed_runs_def)
qed

lemma removal_ids_distinct: "keyed_runs s \<Longrightarrow> distinct (map run_id (removal_order (mvals s)))"
proof -
  assume "keyed_runs s"
  then have "distinct (map run_id (filter terminal_run (mvals s)))"
    using ids_distinct distinct_map_filter by blast
  then show ?thesis by (simp add: removal_order_def distinct_map)
qed

lemma length_mdel: "distinct (map fst s) \<Longrightarrow> k \<in> fst ` set s \<Longrightarrow> length (mdel k s) + 1 = length s"
proof (induction s)
  case (Cons e s)
  show ?case
  proof (cases "fst e = k")
    case True
    then have "k \<notin> fst ` set s" using Cons.prems(1) by simp
    then have "\<forall>x \<in> set s. fst x \<noteq> k" by (metis imageI)
    then have "filter (\<lambda>x. fst x \<noteq> k) s = s" by (rule filter_True)
    with True show ?thesis by (simp add: mdel_def)
  next
    case False
    with Cons show ?thesis by (simp add: mdel_def image_iff)
  qed
qed simp

lemma compact_length:
  "keyed_runs s \<Longrightarrow> set rs \<subseteq> set (mvals s) \<Longrightarrow> distinct (map run_id rs) \<Longrightarrow>
   length (fold (\<lambda>r s. mdel (run_id r) s) rs s) + length rs = length s"
proof (induction rs arbitrary: s)
  case (Cons r rs)
  let ?s = "mdel (run_id r) s"
  have "(run_id r, r) \<in> set s" using Cons.prems(2) mvals_entry [OF Cons.prems(1)] by simp
  then have "fst (run_id r, r) \<in> fst ` set s" by (rule imageI)
  moreover have "distinct (map fst s)" using Cons.prems(1) wf_distinct by (auto simp: keyed_runs_def mkeys_def)
  ultimately have one: "length ?s + 1 = length s" by (intro length_mdel) simp_all
  have "set rs \<subseteq> set (mvals ?s)"
  proof
    fix x
    assume x: "x \<in> set rs"
    then have "(run_id x, x) \<in> set s" using Cons.prems(2) mvals_entry [OF Cons.prems(1)] by auto
    moreover have "run_id x \<noteq> run_id r" using Cons.prems(3) imageI [OF x, of run_id] by (auto simp del: image_eqI)
    ultimately show "x \<in> set (mvals ?s)" using mvals_entry [OF keyed_mdel [OF Cons.prems(1)]] by (simp add: mdel_def)
  qed
  with Cons.IH [OF keyed_mdel [OF Cons.prems(1)]] Cons.prems(3) one show ?case by simp
qed simp

lemma compact_drops:
  assumes k: "keyed_runs s" and m: "0 < maxRuns"
  shows "\<And>k r. mget (compactLocked maxRuns s) k = Some r \<Longrightarrow> mget s k = Some r"
    "\<And>k r k' r'. mget s k = Some r \<Longrightarrow> mget (compactLocked maxRuns s) k = None \<Longrightarrow>
       terminal_run r \<and> (mget (compactLocked maxRuns s) k' = Some r' \<longrightarrow> terminal_run r' \<longrightarrow> age r \<le> age r')"
    "int (length (compactLocked maxRuns s)) =
       max (int (length s) - int (length (filter terminal_run (mvals s)))) (min (int (length s)) maxRuns)"
proof -
  let ?o = "removal_order (mvals s)"
  let ?n = "nat (int (length s) - maxRuns)"
  have c: "compactLocked maxRuns s = fold (\<lambda>r s. mdel (run_id r) s) (take ?n ?o) s"
    using m by (auto simp: compactLocked_def)
  note get = mget_fold_mdel [of "take ?n ?o" s, folded c]
  show "mget s k = Some r" if "mget (compactLocked maxRuns s) k = Some r" for k r
    using that by (simp add: get split: if_splits)
  show "terminal_run r \<and> (mget (compactLocked maxRuns s) k' = Some r' \<longrightarrow> terminal_run r' \<longrightarrow> age r \<le> age r')"
    if "mget s k = Some r" "mget (compactLocked maxRuns s) k = None" for k r k' r'
  proof -
    from that obtain x where x: "x \<in> set (take ?n ?o)" "run_id x = k" by (auto simp: get split: if_splits)
    have xo: "x \<in> set ?o" using x(1) by (rule in_set_takeD)
    then have "mget s k = Some x" using mvals_keyed [OF k] x(2) by auto
    then have r: "r = x" using that(1) by simp
    have "age r \<le> age r'" if r': "mget (compactLocked maxRuns s) k' = Some r'" "terminal_run r'"
    proof -
      have g: "mget s k' = Some r'" "k' \<notin> run_id ` set (take ?n ?o)" using r'(1) by (auto simp: get split: if_splits)
      then have "run_id r' = k'" using keyed_mget [OF k] by blast
      then have "r' \<in> set ?o" "r' \<notin> set (take ?n ?o)" using g r'(2) mvals_keyed [OF k, of r'] by auto
      then have "r' \<in> set (drop ?n ?o)" by (metis Un_iff append_take_drop_id set_append)
      moreover have "sorted (map age (take ?n ?o @ drop ?n ?o))" by (simp add: removal_order_sorted)
      ultimately show ?thesis using x(1) r by (simp only: map_append sorted_append) auto
    qed
    then show ?thesis using xo r by simp
  qed
  have "set (take ?n ?o) \<subseteq> set (mvals s)" by (auto dest: in_set_takeD)
  moreover have "distinct (map run_id (take ?n ?o))"
    using distinct_take [OF removal_ids_distinct [OF k], of ?n] by (simp add: take_map)
  ultimately have "length (compactLocked maxRuns s) + length (take ?n ?o) = length s"
    unfolding c by (rule compact_length [OF k])
  then have "int (length (compactLocked maxRuns s)) = int (length s) - int (length (take ?n ?o))" by simp
  also have "int (length (take ?n ?o)) = min (int (length (filter terminal_run (mvals s)))) (max 0 (int (length s) - maxRuns))"
    by simp
  finally have "int (length (compactLocked maxRuns s)) =
    int (length s) - min (int (length (filter terminal_run (mvals s)))) (max 0 (int (length s) - maxRuns))" .
  moreover have "length (filter terminal_run (mvals s)) \<le> length s"
    using length_filter_le [of terminal_run "mvals s"] by (simp add: mvals_def)
  ultimately show "int (length (compactLocked maxRuns s)) =
       max (int (length s) - int (length (filter terminal_run (mvals s)))) (min (int (length s)) maxRuns)"
    using m by arith
qed

lemma compact_keyed: "keyed_runs s \<Longrightarrow> keyed_runs (compactLocked maxRuns s)"
proof -
  have "keyed_runs s \<Longrightarrow> keyed_runs (fold (\<lambda>r s. mdel (run_id r) s) rs s)" for rs :: "http_run list" and s
    by (induction rs arbitrary: s) (auto intro: keyed_mdel)
  then show "keyed_runs s \<Longrightarrow> keyed_runs (compactLocked maxRuns s)" by (simp add: compactLocked_def)
qed


section \<open>The contract of the stores\<close>

text \<open>
  What the code that runs requests relies on: a run that was created or updated is found with the same
  status, and the others are not touched. The store with a file gives this only for runs that its
  compaction spares.
\<close>

locale run_store =
  fixes create :: "http_run \<Rightarrow> 's \<Rightarrow> 's" and update :: "http_run \<Rightarrow> 's \<Rightarrow> run_store_error option \<times> 's"
    and lookup :: "string \<Rightarrow> 's \<Rightarrow> run_store_error + http_run" and spared :: "http_run \<Rightarrow> 's \<Rightarrow> bool" and ok :: "'s \<Rightarrow> bool"
  assumes created: "ok s \<Longrightarrow> spared r s \<Longrightarrow> \<exists>r'. lookup (run_id r) (create r s) = Inr r' \<and> run_status r' = run_status r"
    and create_ok: "ok s \<Longrightarrow> ok (create r s)"
    and updated: "ok s \<Longrightarrow> spared r s \<Longrightarrow> lookup (run_id r) s = Inr r0 \<Longrightarrow>
      \<exists>r'. lookup (run_id r) (snd (update r s)) = Inr r' \<and> run_status r' = run_status r"
    and update_ok: "ok s \<Longrightarrow> ok (snd (update r s))"
begin

lemma create_then_update:
  assumes "ok s" "spared r s" "spared r' (create r s)" "run_id r' = run_id r"
  shows "\<exists>r''. lookup (run_id r) (snd (update r' (create r s))) = Inr r'' \<and> run_status r'' = run_status r'"
proof -
  obtain r0 where "lookup (run_id r') (create r s) = Inr r0" using created [OF assms(1,2)] assms(4) by auto
  from updated [OF create_ok [OF assms(1)] assms(3) this] assms(4) show ?thesis by simp
qed

end

lemma mem_lookup: "mem_get i (mput i r s) = Inr (normalizeRunDerivedFields r)"
  by (simp add: mem_get_def mget_mput)

interpretation mem: run_store "\<lambda>r s. snd (mem_create r s)" mem_update mem_get "\<lambda>r s. True" keyed_runs
proof
  fix s :: run_table and r r0 :: http_run
  show "\<exists>r'. mem_get (run_id r) (snd (mem_create r s)) = Inr r' \<and> run_status r' = run_status r"
    by (simp add: mem_create_def Let_def mem_lookup)
  show "keyed_runs s \<Longrightarrow> keyed_runs (snd (mem_create r s))"
    using keyed_put_normal by (simp add: mem_create_def Let_def)
  show "mem_get (run_id r) s = Inr r0 \<Longrightarrow>
      \<exists>r'. mem_get (run_id r) (snd (mem_update r s)) = Inr r' \<and> run_status r' = run_status r"
    by (auto simp: mem_update_def Let_def mhas_def mem_get_def mget_mput split: option.splits)
  show "keyed_runs s \<Longrightarrow> keyed_runs (snd (mem_update r s))"
    using keyed_put_normal by (simp add: mem_update_def Let_def)
qed

text \<open>Create and Update of the store with a file, with the writes of a given disk.\<close>

definition file_created :: "'w runs_disk \<Rightarrow> int \<Rightarrow> http_run \<Rightarrow> file_run_store \<times> 'w \<Rightarrow> file_run_store \<times> 'w" where
  "file_created dk m r sw = snd (snd (file_create dk m r (fst sw) (snd sw)))"

definition file_keyed :: "file_run_store \<times> 'w \<Rightarrow> bool" where
  "file_keyed sw \<longleftrightarrow> keyed_runs (fs_runs (fst sw))"

lemma saved_runs: "fs_runs (fst (snd (runs_saveLocked dk m s w))) = compactLocked m (fs_runs s)"
  by (simp add: runs_saveLocked_def Let_def split: prod.split)

lemma unfinished_kept:
  assumes "keyed_runs s" "0 < m" "mget s k = Some r" "\<not> terminal_run r"
  shows "mget (compactLocked m s) k = Some r"
proof (cases "mget (compactLocked m s) k")
  case None
  with compact_drops(2) [OF assms(1,2,3)] assms(4) show ?thesis by blast
next
  case (Some r')
  with compact_drops(1) [OF assms(1,2)] assms(3) show ?thesis by fastforce
qed

lemma terminal_normalize [simp]: "terminal_run (normalizeRunDerivedFields r) = terminal_run r"
  by (simp add: terminal_run_def)

interpretation filed: run_store "file_created dk 2000"
    "\<lambda>r sw. (fst (file_update dk 2000 r (fst sw) (snd sw)), snd (file_update dk 2000 r (fst sw) (snd sw)))"
    "\<lambda>i sw. file_get i (fst sw)" "\<lambda>r sw. \<not> terminal_run r" file_keyed for dk :: "'w runs_disk"
proof
  fix sw :: "file_run_store \<times> 'w" and r r0 :: http_run
  let ?put = "mput (run_id r) (normalizeRunDerivedFields r) (fs_runs (fst sw))"
  have get: "mem_get (run_id r) (compactLocked 2000 ?put) = Inr (normalizeRunDerivedFields (normalizeRunDerivedFields r))"
    if "file_keyed sw" "\<not> terminal_run r"
    using unfinished_kept [of ?put 2000 "run_id r" "normalizeRunDerivedFields r"] that keyed_put_normal
    by (simp add: mget_mput file_keyed_def mem_get_def)
  have runs: "fs_runs (fst (file_created dk 2000 r sw)) = compactLocked 2000 ?put"
    by (simp add: file_created_def file_create_def mem_create_def Let_def saved_runs)
  show "file_keyed sw \<Longrightarrow> \<not> terminal_run r \<Longrightarrow>
      \<exists>r'. file_get (run_id r) (fst (file_created dk 2000 r sw)) = Inr r' \<and> run_status r' = run_status r"
    using get by (simp add: file_get_def runs)
  show "file_keyed sw \<Longrightarrow> file_keyed (file_created dk 2000 r sw)"
    using keyed_put_normal compact_keyed by (simp add: file_keyed_def runs)
  have upd: "fs_runs (fst (snd (file_update dk 2000 r (fst sw) (snd sw)))) =
      (if mhas (fs_runs (fst sw)) (run_id r) then compactLocked 2000 ?put else fs_runs (fst sw))"
    by (simp add: file_update_def mem_update_def Let_def saved_runs)
  show "file_keyed sw \<Longrightarrow> \<not> terminal_run r \<Longrightarrow> file_get (run_id r) (fst sw) = Inr r0 \<Longrightarrow>
      \<exists>r'. file_get (run_id r) (fst (snd (fst (file_update dk 2000 r (fst sw) (snd sw)), snd (file_update dk 2000 r (fst sw) (snd sw)))))
        = Inr r' \<and> run_status r' = run_status r"
    using get by (auto simp: file_get_def upd mhas_def mem_get_def [of _ "fs_runs (fst sw)"] split: option.splits)
  show "file_keyed sw \<Longrightarrow>
      file_keyed (snd (fst (file_update dk 2000 r (fst sw) (snd sw)), snd (file_update dk 2000 r (fst sw) (snd sw))))"
    using keyed_put_normal compact_keyed by (simp add: file_keyed_def upd)
qed

text \<open>
  C34: A save of the run store drops only what it has to: a run that has not finished is never dropped,
  no more runs go than there are above the limit, and a finished run that goes was not updated later
  than any finished run that stays. (The table of a store has every run under its id.)
\<close>

theorem save_drops_oldest_finished:
  assumes "keyed_runs (fs_runs s)" "0 < maxRuns" "runs_saveLocked dk maxRuns s w = (e, s', w')"
  shows "(\<forall>k r. mget (fs_runs s') k = Some r \<longrightarrow> mget (fs_runs s) k = Some r) \<and>
    (\<forall>k r. mget (fs_runs s) k = Some r \<longrightarrow> mget (fs_runs s') k = None \<longrightarrow>
       terminal_run r \<and>
       (\<forall>k' r'. mget (fs_runs s') k' = Some r' \<longrightarrow> terminal_run r' \<longrightarrow> age r \<le> age r')) \<and>
    int (length (fs_runs s')) =
      max (int (length (fs_runs s)) - int (length (filter terminal_run (mvals (fs_runs s)))))
        (min (int (length (fs_runs s))) maxRuns)"
proof -
  have eq: "fs_runs s' = compactLocked maxRuns (fs_runs s)"
    using saved_runs [of dk maxRuns s w] assms(3) by simp
  note drops = compact_drops [OF assms(1,2)]
  show ?thesis unfolding eq
  proof (intro conjI allI impI)
    show "terminal_run r" if "mget (fs_runs s) k = Some r" "mget (compactLocked maxRuns (fs_runs s)) k = None" for k r
      using drops(2) [OF that] by blast
    show "age r \<le> age r'"
      if "mget (fs_runs s) k = Some r" "mget (compactLocked maxRuns (fs_runs s)) k = None"
        "mget (compactLocked maxRuns (fs_runs s)) k' = Some r'" "terminal_run r'" for k r k' r'
      using drops(2) [OF that(1,2), of k' r'] that(3,4) by blast
  qed (rule drops(1), assumption, rule drops(3))
qed

definition sample_run :: "string \<Rightarrow> string \<Rightarrow> time \<Rightarrow> http_run" where
  "sample_run i st t = \<lparr>run_id = i, run_instanceID = [], run_agentID = ''a'', run_parentRunID = [], run_message = ''m'',
     run_contentParts = [], run_thinkingMode = [], run_source = [], run_sessionID = [], run_status = st, run_output = [],
     run_artifactPath = [], run_durationMS = 0, run_toolCalls = 0, run_provider = [], run_model = [], run_trace = [],
     run_decompositionPlan = [], run_error = [], run_createdAt = t, run_updatedAt = t\<rparr>"

definition unit_disk :: "unit runs_disk" where
  "unit_disk = \<lparr>rd_read = (\<lambda>p w. NoRunsFile), rd_write = (\<lambda>p rs w. (True, w))\<rparr>"

definition table_of :: "http_run list \<Rightarrow> run_table" where
  "table_of rs = map (\<lambda>r. (run_id r, r)) rs"

definition busy_store :: file_run_store where
  "busy_store = \<lparr>fs_path = ''runs'', fs_runs = table_of [sample_run ''1'' ''running'' 1, sample_run ''2'' ''running'' 2,
     sample_run ''3'' ''completed'' 3, sample_run ''4'' ''failed'' 4]\<rparr>"

lemma sample_terminal: "\<not> terminal_run (sample_run i ''running'' t)" "terminal_run (sample_run i ''completed'' t)"
  "terminal_run (sample_run i ''failed'' t)"
proof -
  have "to_lower (trim_space ''running'') = ''running''" "to_lower (trim_space ''completed'') = ''completed''"
    "to_lower (trim_space ''failed'') = ''failed''" by code_simp+
  then show "\<not> terminal_run (sample_run i ''running'' t)" "terminal_run (sample_run i ''completed'' t)"
    "terminal_run (sample_run i ''failed'' t)" by (simp_all add: terminal_run_def sample_run_def)
qed

lemma sample_ids [simp]: "run_id (sample_run i st t) = i"
  by (simp add: sample_run_def)

theorem save_drops_oldest_finished_witness:
  "int (length (fs_runs (fst (snd (runs_saveLocked unit_disk 3 busy_store ()))))) = 3"
proof -
  have k: "keyed_runs (fs_runs busy_store)"
    by (simp add: busy_store_def table_of_def keyed_runs_def wf_gmap_def)
  have n: "length (fs_runs busy_store) = 4" "length (filter terminal_run (mvals (fs_runs busy_store))) = 2"
    by (simp_all add: busy_store_def table_of_def mvals_def sample_terminal)
  obtain e s' w' where "runs_saveLocked unit_disk 3 busy_store () = (e, s', w')" by (rule prod_cases3)
  with save_drops_oldest_finished [OF k _ this] n show ?thesis by simp
qed

text \<open>
  When unfinished runs fill the store (those of a process that died stay so for ever), a run is dropped
  by the very save that records its end.
\<close>

lemma finished_run_lost:
  "let s = \<lparr>fs_path = ''runs'', fs_runs = table_of [sample_run ''1'' ''running'' 1, sample_run ''2'' ''running'' 2]\<rparr>
   in file_get ''2'' (fst (snd (file_update unit_disk 1 (sample_run ''2'' ''completed'' 4) s ()))) = Inl ErrRunNotFound"
  by code_simp

end
