(* ===== verification/Http_Queue_Facts.thy ===== *)
theory Http_Queue_Facts
  imports Http_Queue Http_Events_Facts Http_Runs_Facts
begin

text \<open>
  What becomes of a queued run, whatever its executor does: it ends in one of three states, the store
  and every subscriber learn which, its channels are closed, and its slot is free again.
\<close>

section \<open>The bus under the actions of a run\<close>

lemma prune_loop_live:
  "mget runs k = Some st \<Longrightarrow> es_subscribers st \<noteq> [] \<Longrightarrow> mget (fst (prune_loop m runs order)) k = Some st"
proof (induction m runs order rule: prune_loop.induct)
  case (1 m runs order)
  show ?case
  proof (cases "length runs \<le> m \<or> dropWhile (\<lambda>k. \<not> prunable runs k) order = []")
    case True
    then have "prune_loop m runs order = (runs, order)"
      by (auto simp only: prune_loop.simps [of m runs order] list.case if_True split: if_splits)
    with 1(2) show ?thesis by simp
  next
    case False
    then obtain k' rest where k': "dropWhile (\<lambda>k. \<not> prunable runs k) order = k' # rest"
      by (cases "dropWhile (\<lambda>k. \<not> prunable runs k) order") auto
    have "prunable runs k'" using k' by (metis dropWhile_eq_Cons_conv)
    then have "k' \<noteq> k" using 1(2,3) by (auto simp: prunable_def)
    then have "mget (mdel k' runs) k = Some st" using 1(2) by (simp add: mget_mdel)
    with 1(1) [OF _ k'] False 1(3) show ?thesis by (simp add: prune_loop.simps [of m runs order] k')
  qed
qed

definition fits :: "event_chan \<Rightarrow> bool" where
  "fits ch \<longleftrightarrow> 0 < ec_cap ch \<and> length (ec_buf ch) \<le> ec_cap ch"

text \<open>A channel some time later: its reader has what it had, and perhaps more.\<close>

definition later :: "event_chan \<Rightarrow> event_chan \<Rightarrow> bool" where
  "later ch ch' \<longleftrightarrow> fits ch' \<and> prefix (ec_got ch) (ec_got ch')"

lemma later_trans: "later a b \<Longrightarrow> later b c \<Longrightarrow> later a c"
  by (auto simp: later_def intro: prefix_order.trans)

lemma later_enqueue:
  assumes "fits ch"
  shows "later ch (snd (enqueueRunEvent gap ch e))" "stream (snd (enqueueRunEvent gap ch e)) \<noteq> []"
    "last (stream (snd (enqueueRunEvent gap ch e))) = e"
proof -
  show "later ch (snd (enqueueRunEvent gap ch e))"
    using assms by (auto simp: later_def fits_def enqueueRunEvent_def Let_def push_event_def take_events_def)
  show "last (stream (snd (enqueueRunEvent gap ch e))) = e"
    using assms enqueue_newest by (simp add: fits_def)
  show "stream (snd (enqueueRunEvent gap ch e)) \<noteq> []"
    using assms by (auto simp: fits_def enqueueRunEvent_def Let_def push_event_def stream_def)
qed

lemma channel_run: "channel_of b k sid = Some ch \<Longrightarrow> \<exists>st. mget (eb_runs b) k = Some st \<and> mget (es_subscribers st) sid = Some ch"
  by (auto simp: channel_of_def bind_eq_Some_conv)

lemma ensure_live:
  assumes "channel_of b k sid = Some ch" "ensureRunLocked K b = (st, b1)"
  shows "channel_of b1 k sid = Some ch" "K = k \<Longrightarrow> mget (es_subscribers st) sid = Some ch" "eb_done b1 = eb_done b"
proof -
  obtain st0 where st0: "mget (eb_runs b) k = Some st0" "mget (es_subscribers st0) sid = Some ch"
    using channel_run [OF assms(1)] by blast
  then have ne: "es_subscribers st0 \<noteq> []" by (auto simp: mget_def)
  show "K = k \<Longrightarrow> mget (es_subscribers st) sid = Some ch"
    using assms(2) st0 by (simp add: ensureRunLocked_def)
  show "channel_of b1 k sid = Some ch"
  proof (cases "mget (eb_runs b) K")
    case None
    then have "K \<noteq> k" using st0 by auto
    then have "mget (mput K new_run_state (eb_runs b)) k = Some st0" using st0 by (simp add: mget_mput)
    note live = prune_loop_live [OF this ne]
    let ?b = "b\<lparr>eb_runs := mput K new_run_state (eb_runs b), eb_runOrder := eb_runOrder b @ [K]\<rparr>"
    have "mget (eb_runs (pruneRunsLocked ?b)) k = Some st0"
      using live [of "eb_maxRuns b" "eb_runOrder b @ [K]"] \<open>K \<noteq> k\<close> st0(1)
      by (simp add: pruneRunsLocked_def mget_mput case_prod_unfold)
    moreover have "b1 = pruneRunsLocked ?b" using None assms(2) by (simp add: ensureRunLocked_def)
    ultimately show ?thesis using st0(2) by (simp add: channel_of_def)
  qed (use assms in \<open>simp add: ensureRunLocked_def\<close>)
  show "eb_done b1 = eb_done b"
    using assms(2) by (auto simp: ensureRunLocked_def split: option.splits)
qed

lemma put_run_channel:
  "channel_of (put_run K st b) k sid = (if k = K then mget (es_subscribers st) sid else channel_of b k sid)"
  by (simp add: channel_of_def put_run_def mget_mput)

lemma publish_done [simp]: "eb_done (publish g K P e now b) = eb_done b"
proof -
  obtain st b1 where en: "ensureRunLocked (trim_space K) b = (st, b1)" by (rule prod.exhaust)
  then have "eb_done b1 = eb_done b" by (auto simp: ensureRunLocked_def split: option.splits)
  then show ?thesis by (simp add: publish_def Let_def en put_run_def split: prod.split)
qed

lemma publish_live:
  assumes "channel_of b k sid = Some ch" "fits ch"
  shows "\<exists>ch'. channel_of (publish g K P e now b) k sid = Some ch' \<and> later ch ch' \<and>
    (if trim_space K = k \<and> trim_space K \<noteq> [] \<and> trim_space P \<noteq> []
     then stream ch' \<noteq> [] \<and> re_type (last (stream ch')) = re_type e else ch' = ch)"
proof (cases "trim_space K = [] \<or> trim_space P = []")
  case True
  then have "publish g K P e now b = b" by (auto simp: publish_def Let_def)
  with assms True show ?thesis by (auto simp: later_def)
next
  case False
  obtain st b1 where en: "ensureRunLocked (trim_space K) b = (st, b1)" by (rule prod.exhaust)
  note live = ensure_live [OF assms(1) en]
  show ?thesis
  proof (cases "trim_space K = k")
    case True
    obtain n e' where ne: "number_event st (trim_space P) now e = (n, e')" by (rule prod.exhaust)
    let ?st' = "accept_event g (eb_replayLimit b1) n e' st"
    have e': "re_type e' = re_type e" using ne by (auto simp: number_event_def Let_def)
    have pub: "publish g K P e now b = put_run (trim_space K) ?st' b1"
      using False en ne by (simp add: publish_def Let_def)
    have subs: "es_subscribers ?st' = map (\<lambda>(sid, ch). (sid, snd (enqueueRunEvent (g sid) ch e'))) (es_subscribers st)"
      by (simp add: accept_event_def Let_def comp_def case_prod_unfold)
    have "channel_of (publish g K P e now b) k sid = Some (snd (enqueueRunEvent (g sid) ch e'))"
      using live(2) True by (simp add: pub subs put_run_channel mget_map)
    with later_enqueue [OF assms(2), of "g sid" e'] e' True False show ?thesis by auto
  next
    case diff: False
    then have "channel_of (publish g K P e now b) k sid = Some ch"
      using live(1) False en by (auto simp: publish_def Let_def put_run_channel split: prod.split)
    with assms(2) diff show ?thesis by (auto simp: later_def)
  qed
qed

lemma close_live:
  assumes "channel_of b k sid = Some ch"
  shows "if trim_space K = k \<and> trim_space K \<noteq> [] then ch \<in> set (eb_done (closeRun K b)) else channel_of (closeRun K b) k sid = Some ch"
proof -
  obtain st where "mget (eb_runs b) k = Some st" "mget (es_subscribers st) sid = Some ch"
    using channel_run [OF assms] by blast
  then show ?thesis
    using assms mget_in [of "es_subscribers st" sid ch]
    by (auto simp: closeRun_def Let_def put_run_channel channel_of_def put_run_def mvals_def mget_mput split: option.splits
        intro: image_eqI [of _ _ "(sid, ch)"])
qed

lemma close_done: "set (eb_done b) \<subseteq> set (eb_done (closeRun K b))"
  by (auto simp: closeRun_def Let_def put_run_def split: option.splits)

lemma closed_run:
  "trim_space K \<noteq> [] \<Longrightarrow> mget (eb_runs (closeRun K b)) (trim_space K) = Some st \<Longrightarrow>
   es_terminal st \<and> es_subscribers st = []"
  by (auto simp: closeRun_def Let_def put_run_def mget_mput mempty_def split: option.splits)

section \<open>The actions one after the other\<close>

lemma apply_append:
  "apply_actions u g n i (xs @ ys) sv = apply_actions u g n (i + length xs) ys (apply_actions u g n i xs sv)"
  by (induction xs arbitrary: i sv) auto

definition update_or_publish :: "queue_action \<Rightarrow> bool" where
  "update_or_publish act = (case act of StoreUpdate _ \<Rightarrow> True | BusPublish _ _ _ \<Rightarrow> True | _ \<Rightarrow> False)"

lemma publishing_live:
  assumes "list_all update_or_publish acts" "channel_of (sv_bus sv) k sid = Some ch" "fits ch"
  shows "\<exists>ch'. channel_of (sv_bus (apply_actions u g n i acts sv)) k sid = Some ch' \<and> later ch ch'"
  using assms
proof (induction acts arbitrary: i sv ch)
  case Nil
  then show ?case by (auto simp: later_def)
next
  case (Cons act acts)
  have "\<exists>ch'. channel_of (sv_bus (apply_action u (g i) (n i) act sv)) k sid = Some ch' \<and> later ch ch'"
  proof (cases act)
    case (BusPublish K P e)
    then show ?thesis using publish_live [OF Cons.prems(2,3), of "g i" K P e "n i"] by (auto simp: apply_action_def)
  qed (use Cons.prems in \<open>auto simp: update_or_publish_def apply_action_def later_def\<close>)
  then obtain ch1 where ch1: "channel_of (sv_bus (apply_action u (g i) (n i) act sv)) k sid = Some ch1" "later ch ch1"
    by blast
  then have "fits ch1" by (simp add: later_def)
  with Cons.IH [OF _ ch1(1)] Cons.prems(1) obtain ch2
    where "channel_of (sv_bus (apply_actions u g n (Suc i) acts (apply_action u (g i) (n i) act sv))) k sid = Some ch2" "later ch1 ch2"
    by auto
  with later_trans [OF ch1(2)] show ?case by auto
qed

lemma publishing_rest:
  "list_all update_or_publish acts \<Longrightarrow>
   sv_tracker (apply_actions u g n i acts sv) = sv_tracker sv \<and> sv_queue (apply_actions u g n i acts sv) = sv_queue sv"
proof (induction acts arbitrary: i sv)
  case (Cons act acts)
  then show ?case by (cases act) (auto simp: update_or_publish_def apply_action_def)
qed simp

lemma publishing_actions:
  "list_all update_or_publish (publishQueueRunEvent b r ty d)" "list_all update_or_publish (progress_actions b r ps)"
proof -
  show p: "list_all update_or_publish (publishQueueRunEvent b r ty d)" for r ty d
    by (simp add: publishQueueRunEvent_def Let_def update_or_publish_def)
  show "list_all update_or_publish (progress_actions b r ps)"
    using p by (auto simp: progress_actions_def list_all_iff split: option.splits)
qed

lemma finished_run_facts:
  assumes "finished_run r res err = (r', ty, d)"
  shows "ty = run_status r'" "run_id r' = run_id r" "run_status r' \<in> {''completed'', ''failed'', ''canceled''}"
  using assms
  by (auto simp: finished_run_def Let_def run_of_result_def event_types split: option.splits if_splits)


text \<open>The end of a run as the bus sees it: the last event, then the two closes.\<close>

lemma final_event:
  assumes "channel_of (sv_bus sv) k sid = Some ch" "fits ch" "trim_space k = k" "k \<noteq> []" "run_id r = k"
  shows "\<exists>ch'. channel_of (sv_bus (apply_actions u g n i (publishQueueRunEvent True r ty d) sv)) k sid = Some ch' \<and>
    later ch ch' \<and> stream ch' \<noteq> [] \<and> re_type (last (stream ch')) = ty"
proof -
  let ?e = "new_event r ty d"
  let ?b = "publish (g i) k k ?e (n i) (sv_bus sv)"
  let ?K = "runEventCompositeKey (run_instanceID r) (run_agentID r) k"
  obtain c1 where c1: "channel_of ?b k sid = Some c1" "later ch c1" "stream c1 \<noteq> []" "re_type (last (stream c1)) = ty"
    using publish_live [OF assms(1,2), of "g i" k k ?e "n i"] assms(3,4) by (auto simp: new_event_def)
  have "fits c1" using c1(2) by (simp add: later_def)
  then obtain c2 where c2: "channel_of (publish (g (Suc i)) ?K (trim_space k) ?e (n (Suc i)) ?b) k sid = Some c2"
    "later c1 c2" "stream c2 \<noteq> []" "re_type (last (stream c2)) = ty"
    using publish_live [OF c1(1), of "g (Suc i)" ?K "trim_space k" ?e "n (Suc i)"] c1(3,4)
    by (auto simp: new_event_def split: if_splits)
  show ?thesis
  proof (cases "trim_space (run_instanceID r) \<noteq> [] \<or> trim_space (run_agentID r) \<noteq> []")
    case True
    then have "sv_bus (apply_actions u g n i (publishQueueRunEvent True r ty d) sv)
        = publish (g (Suc i)) ?K (trim_space k) ?e (n (Suc i)) ?b"
      using assms(5) by (auto simp: publishQueueRunEvent_def Let_def apply_action_def)
    with c2 later_trans [OF c1(2) c2(2)] show ?thesis by auto
  next
    case False
    then have "sv_bus (apply_actions u g n i (publishQueueRunEvent True r ty d) sv) = ?b"
      using assms(5) by (auto simp: publishQueueRunEvent_def Let_def apply_action_def)
    with c1 show ?thesis by auto
  qed
qed

lemma final_close:
  assumes "channel_of b k sid = Some ch" "trim_space k = k" "k \<noteq> []"
  shows "ch \<in> set (eb_done (closeRun k (closeRun K b)))"
  using close_live [OF assms(1), of K] close_live [of "closeRun K b" k sid ch k] close_done [of "closeRun K b" k] assms(2,3)
  by (auto split: if_splits)

lemma tracker_gone: "k \<noteq> [] \<Longrightarrow> \<not> art_isTracked k (art_remove k t)"
  by (simp add: art_isTracked_def art_remove_def mhas_def mget_mdel split: option.splits)

text \<open>The store after updates of one run.\<close>

lemma store_steps:
  "list_all update_or_publish acts \<Longrightarrow> (\<forall>r. StoreUpdate r \<in> set acts \<longrightarrow> run_id r = k) \<Longrightarrow> mhas (sv_store sv) k \<Longrightarrow>
   mhas (sv_store (apply_actions mem_update g n i acts sv)) k"
proof (induction acts arbitrary: i sv)
  case (Cons act acts)
  have "mhas (sv_store (apply_action mem_update (g i) (n i) act sv)) k"
    using Cons.prems by (cases act) (auto simp: update_or_publish_def apply_action_def mem_update_def Let_def mhas_def mget_mput)
  with Cons show ?case by auto
qed simp

lemma no_updates: "StoreUpdate r' \<notin> set (publishQueueRunEvent b r ty d)" "StoreUpdate r' \<notin> set (progress_actions b r ps)"
proof -
  show p: "StoreUpdate r' \<notin> set (publishQueueRunEvent b r ty d)" for r ty d
    by (simp add: publishQueueRunEvent_def Let_def)
  show "StoreUpdate r' \<notin> set (progress_actions b r ps)"
    using p by (auto simp: progress_actions_def split: option.splits)
qed


section \<open>A concrete service\<close>

definition demo_bus :: event_bus where
  "demo_bus = snd (subscribe ''r1'' 0 (newRunEventBus 0))"

definition demo_service :: "(run_table, unit) service" where
  "demo_service = \<lparr>sv_store = table_of [sample_run ''r1'' ''queued'' 1], sv_bus = demo_bus,
     sv_tracker = None, sv_queue = snd (tryBegin newQueuedRunTracker)\<rparr>"

definition demo_result :: "(string, json) gmap option \<Rightarrow> execution_result" where
  "demo_result t = \<lparr>xr_instanceID = [], xr_agentID = ''b'', xr_parentRunID = [], xr_output = ''done'', xr_artifactPath = [],
     xr_durationMS = 5, xr_toolCalls = 1, xr_provider = [], xr_model = [], xr_trace = t\<rparr>"

definition demo_executor :: executor_run where
  "demo_executor inp attempt = ([(''tool_end'', [])], demo_result None, None)"


section \<open>Two surprises\<close>

text \<open>A result whose error admits no retry is marked as retried once.\<close>

lemma unretried_run_marked:
  "map_option (\<lambda>t. mget t ''queue_retry_attempts'')
     (xr_trace (fst (snd (executeWithRetry
       (\<lambda>inp attempt. ([], demo_result (Some []), Some \<lparr>xe_text = ''bad request'', xe_canceled = False, xe_deadline = False, xe_eof = False\<rparr>))
       (input_of (sample_run ''r1'' ''running'' 1)))))) = Some (Some (JNum ''1''))"
  by code_simp

text \<open>
  The last event goes out under the ids of the result. When the executor reports another agent id,
  a subscriber of the run under its own ids is closed without it.
\<close>

lemma last_event_elsewhere:
  "let r = sample_run ''r1'' ''queued'' 1; key = runEventCompositeKey [] ''a'' ''r1'';
       acts = executeQueuedRun True False demo_executor False 5 6 r
   in list_ex (\<lambda>act. act = BusClose key) acts \<and>
      list_all (\<lambda>act. case act of BusPublish k p e \<Rightarrow> \<not> (k = key \<and> isTerminalRunEventType (re_type e)) | _ \<Rightarrow> True) acts"
  by code_simp

end
