(* ===== verification/Chat_Bridge_Facts.thy ===== *)
theory Chat_Bridge_Facts
  imports Chat_Bridge Http_Queue_Facts "HOL-Library.Sublist"
begin

text \<open>
  What the bots may rely on: messages are split without losing text, a wait for a run ends at the first
  poll with a final status, a thinking mode is read back, and an announced wait is long enough.
\<close>

section \<open>Splitting messages\<close>

definition white_bytes :: "char set" where
  "white_bytes = \<Union> (set ` set space_bytes)"

text \<open>The text with the parts in order and only bytes of white space before, between and behind them.\<close>

fun spread :: "string list \<Rightarrow> string \<Rightarrow> bool" where
  "spread [] msg \<longleftrightarrow> set msg \<subseteq> white_bytes"
| "spread (p # ps) msg \<longleftrightarrow> (\<exists>g rest. msg = g @ p @ rest \<and> set g \<subseteq> white_bytes \<and> spread ps rest)"

declare spread.simps(2) [simp del]

lemma spreadI: "msg = g @ p @ rest \<Longrightarrow> set g \<subseteq> white_bytes \<Longrightarrow> spread ps rest \<Longrightarrow> spread (p # ps) msg"
  unfolding spread.simps by blast

lemma trim_space_gaps: "\<exists>a b. s = a @ trim_space s @ b \<and> set a \<subseteq> white_bytes \<and> set b \<subseteq> white_bytes"
  using trim_space_split [of s] by (auto simp: white_bytes_def)

lemma spread_white: "set g \<subseteq> white_bytes \<Longrightarrow> spread ps msg \<Longrightarrow> spread ps (g @ msg)"
proof (cases ps)
  case (Cons p ps')
  assume g: "set g \<subseteq> white_bytes" and "spread ps msg"
  then obtain h rest where t: "msg = h @ p @ rest" "set h \<subseteq> white_bytes" "spread ps' rest" by (auto simp: Cons spread.simps)
  show ?thesis unfolding Cons using g t by (intro spreadI [of _ "g @ h" _ rest]) simp_all
qed simp

lemma spread_white_end: "set g \<subseteq> white_bytes \<Longrightarrow> spread ps msg \<Longrightarrow> spread ps (msg @ g)"
proof (induction ps arbitrary: msg)
  case (Cons p ps)
  then obtain h rest where t: "msg = h @ p @ rest" "set h \<subseteq> white_bytes" "spread ps rest" by (auto simp: spread.simps)
  then have "spread ps (rest @ g)" using Cons by blast
  with t show ?case by (intro spreadI [of _ h _ "rest @ g"]) simp_all
qed simp

lemma spread_part:
  assumes "spread ps rest"
  shows "spread ((if trim_space s \<noteq> [] then [trim_space s] else []) @ ps) (s @ rest)"
proof -
  obtain a b where s: "s = a @ trim_space s @ b" "set a \<subseteq> white_bytes" "set b \<subseteq> white_bytes" using trim_space_gaps by blast
  have sp: "spread ps (b @ rest)" using spread_white [OF s(3) assms] .
  show ?thesis
  proof (cases "trim_space s = []")
    case True
    then have "s @ rest = a @ b @ rest" using s(1) by simp
    then show ?thesis using True spread_white [OF s(2) sp] by simp
  next
    case False
    have "s @ rest = a @ trim_space s @ (b @ rest)" using arg_cong [OF s(1), of "\<lambda>x. x @ rest"] by simp
    then have "spread (trim_space s # ps) (s @ rest)" using s(2) sp by (rule spreadI)
    with False show ?thesis by simp
  qed
qed

text \<open>What does not begin with white space is not trimmed away.\<close>

lemma strip_all: "strip_seqs vs y = [] \<Longrightarrow> y \<noteq> [] \<Longrightarrow> \<exists>w \<in> set vs. suffix w y \<and> w \<noteq> []"
proof (induction vs y rule: strip_seqs.induct)
  case (1 vs y)
  have n: "lead_seq vs y \<noteq> 0"
  proof
    assume "lead_seq vs y = 0"
    then show False using 1(2,3) by (simp add: strip_seqs_id)
  qed
  then obtain w where w: "find (\<lambda>w. prefix w y) vs = Some w" "lead_seq vs y = length w"
    by (auto simp: lead_seq_def split: option.splits)
  then have wv: "w \<in> set vs" "prefix w y" by (auto simp: find_Some_iff)
  then obtain t where t: "y = w @ t" by (auto simp: prefix_def)
  have "strip_seqs vs y = strip_seqs vs (drop (lead_seq vs y) y)" using n 1(3) by (simp add: strip_seqs.simps [of vs y])
  then have rest: "strip_seqs vs t = []" using 1(2) w(2) by (simp add: t)
  show ?case
  proof (cases "t = []")
    case True
    with t wv(1) 1(3) show ?thesis by auto
  next
    case False
    with 1(1) [OF refl] n 1(3) w(2) t rest obtain u where "u \<in> set vs" "suffix u t" "u \<noteq> []" by auto
    then have "suffix u y" unfolding t by (simp add: suffix_appendI)
    with \<open>u \<in> set vs\<close> \<open>u \<noteq> []\<close> show ?thesis by blast
  qed
qed

lemma visible_start:
  assumes "lead_seq space_bytes x = 0" "x \<noteq> []"
  shows "trim_space x \<noteq> []"
proof
  assume "trim_space x = []"
  then have "strip_seqs (map rev space_bytes) (rev x) = []"
    using assms(1) by (simp add: trim_space_def trim_left_def trim_right_def strip_seqs_id)
  then obtain w where w: "w \<in> set (map rev space_bytes)" "suffix w (rev x)" "w \<noteq> []" using strip_all assms(2) by blast
  then obtain u where "u \<in> set space_bytes" "w = rev u" by auto
  with w(2) have u: "u \<in> set space_bytes" "prefix u x" by (auto simp: suffix_to_prefix)
  then obtain v where v: "find (\<lambda>w. prefix w x) space_bytes = Some v"
    by (cases "find (\<lambda>w. prefix w x) space_bytes") (auto simp: find_None_iff)
  then have "v \<in> set space_bytes" by (auto simp: find_Some_iff)
  then have "v \<noteq> []" using no_empty_space(1) by blast
  with v assms(1) show False by (simp add: lead_seq_def)
qed

lemma trimmed_start: "trim_space s = s \<Longrightarrow> s \<noteq> [] \<Longrightarrow> lead_seq space_bytes s = 0"
  using strip_seqs_fix [of space_bytes s] trim_left_trim_space [of s] by (simp add: trim_left_def)

lemma split_loop_some:
  assumes "0 < m" "trim_space s = s" "s \<noteq> []"
  shows "split_loop m s \<noteq> []"
proof (cases "length s \<le> m")
  case True
  then show ?thesis using assms by (simp add: split_loop.simps [of m s])
next
  case False
  have "0 < message_cut m s" using message_cut_bounds [OF assms(1)] by blast
  then have "take (message_cut m s) s \<noteq> []" using assms(3) by simp
  moreover have "lead_seq space_bytes (take (message_cut m s) s) = 0"
    by (rule lead_seq_prefix [OF trimmed_start [OF assms(2,3)] take_is_prefix]) simp
  ultimately have "trim_space (take (message_cut m s) s) \<noteq> []" by (intro visible_start)
  then show ?thesis using False assms(1) by (simp add: split_loop.simps [of m s] Let_def)
qed

lemma split_loop_spread: "0 < m \<Longrightarrow> trim_space s = s \<Longrightarrow>
  spread (split_loop m s) s \<and> (\<forall>p \<in> set (split_loop m s). p \<noteq> [] \<and> length p \<le> m \<and> trim_space p = p)"
proof (induction m s rule: split_loop.induct)
  case (1 m s)
  show ?case
  proof (cases "length s \<le> m")
    case True
    have "spread [s] s" by (rule spreadI [of _ "[]" _ "[]"]) simp_all
    then show ?thesis using 1(3) True by (simp add: split_loop.simps [of m s])
  next
    case False
    then have c: "\<not> (m = 0 \<or> length s \<le> m)" using 1(2) by simp
    obtain n where n: "n = message_cut m s" by simp
    have le: "n \<le> m" using message_cut_bounds [OF 1(2)] n by simp
    obtain rest where rest: "rest = trim_space (drop n s)" by simp
    have ih: "spread (split_loop m rest) rest" "\<forall>p \<in> set (split_loop m rest). p \<noteq> [] \<and> length p \<le> m \<and> trim_space p = p"
      using 1(1) [OF c n refl 1(2)] by (simp_all add: rest)
    obtain a b where d: "drop n s = a @ rest @ b" "set a \<subseteq> white_bytes" "set b \<subseteq> white_bytes"
      using trim_space_gaps [of "drop n s"] rest by blast
    have "spread (split_loop m rest) (drop n s)"
      unfolding d(1) by (rule spread_white [OF d(2) spread_white_end [OF d(3) ih(1)]])
    from spread_part [OF this, of "take n s"] have sp: "spread ((if trim_space (take n s) \<noteq> [] then [trim_space (take n s)] else []) @
        split_loop m rest) s" by simp
    have eq: "split_loop m s = (if trim_space (take n s) \<noteq> [] then [trim_space (take n s)] else []) @ split_loop m rest"
      using c by (simp add: split_loop.simps [of m s] Let_def n rest)
    have "length (trim_space (take n s)) \<le> m" using length_trim_space [of "take n s"] le by simp
    then show ?thesis using sp ih(2) unfolding eq by auto
  qed
qed

text \<open>
  C38: A message is split without losing anything but white space: the parts are those of the text in order
  with only bytes of white space around them; each is trimmed, is not empty and fits the limit (1900 bytes
  when none is given). A blank message becomes the text "(empty)".
\<close>

theorem split_message_complete:
  "let parts = splitMessage msg n; m = (if n \<le> 0 then 1900 else nat n) in
   if trim_space msg = [] then parts = [''(empty)'']
   else parts \<noteq> [] \<and> spread parts msg \<and> list_all (\<lambda>p. p \<noteq> [] \<and> length p \<le> m \<and> trim_space p = p) parts"
proof -
  let ?m = "if n \<le> 0 then 1900 else nat n"
  have m: "nat (if n \<le> 0 then 1900 else n) = ?m" "0 < ?m" by simp_all
  show ?thesis
  proof (cases "trim_space msg = []")
    case True
    then show ?thesis by (simp add: splitMessage_def)
  next
    case False
    note sp = split_loop_spread [OF m(2) trim_space_idem [of msg]]
    obtain a b where t: "msg = a @ trim_space msg @ b" "set a \<subseteq> white_bytes" "set b \<subseteq> white_bytes"
      using trim_space_gaps by blast
    have "spread (split_loop ?m (trim_space msg)) (a @ trim_space msg @ b)"
      using sp by (intro spread_white [OF t(2) spread_white_end [OF t(3)]]) simp
    then have whole: "spread (split_loop ?m (trim_space msg)) msg" using t(1) by simp
    have ne: "split_loop ?m (trim_space msg) \<noteq> []" by (rule split_loop_some [OF m(2) trim_space_idem False])
    have "splitMessage msg n = (if split_loop ?m (trim_space msg) = [] then [''(empty)''] else split_loop ?m (trim_space msg))"
      unfolding splitMessage_def Let_def if_not_P [OF False] m(1) ..
    then have eq: "splitMessage msg n = split_loop ?m (trim_space msg)" unfolding if_not_P [OF ne] .
    show ?thesis unfolding Let_def eq if_not_P [OF False] using ne whole sp by (simp add: list_all_iff)
  qed
qed

section \<open>Waiting for a run\<close>

text \<open>The world after \<open>n\<close> rounds that did not end the wait.\<close>

inductive rounds :: "'w waiter \<Rightarrow> string \<Rightarrow> nat \<Rightarrow> 'w \<Rightarrow> 'w \<Rightarrow> bool" for t runID where
  rounds_none: "rounds t runID 0 w w"
| rounds_more: "wait_round t runID w = GoesOn w1 \<Longrightarrow> rounds t runID n w1 w2 \<Longrightarrow> rounds t runID (Suc n) w w2"

lemma wait_loop_end: "rounds t runID n w w1 \<Longrightarrow> wait_round t runID w1 = Ended r w2 \<Longrightarrow> wait_loop t runID w = Some (r, w2)"
  by (induction rule: rounds.induct) (subst wait_loop.simps, simp)+

lemma wait_loop_rounds:
  assumes "wait_loop t runID w = Some x"
  shows "\<exists>n w1. rounds t runID n w w1 \<and> wait_round t runID w1 = Ended (fst x) (snd x)"
proof (rule wait_loop.raw_induct [where P = "\<lambda>t runID w x. \<exists>n w1. rounds t runID n w w1 \<and> wait_round t runID w1 = Ended (fst x) (snd x)",
    OF _ assms])
  fix loop :: "'a waiter \<Rightarrow> string \<Rightarrow> 'a \<Rightarrow> ((ctx_error + run_status) \<times> 'a) option" and t runID w x
  assume ih: "\<And>t runID w x. loop t runID w = Some x \<Longrightarrow>
      \<exists>n w1. rounds t runID n w w1 \<and> wait_round t runID w1 = Ended (fst x) (snd x)"
    and step: "(case wait_round t runID w of Ended r w' \<Rightarrow> Some (r, w') | GoesOn w' \<Rightarrow> loop t runID w') = Some x"
  show "\<exists>n w1. rounds t runID n w w1 \<and> wait_round t runID w1 = Ended (fst x) (snd x)"
  proof (cases "wait_round t runID w")
    case (Ended r w')
    with step have "x = (r, w')" by simp
    with Ended have "wait_round t runID w = Ended (fst x) (snd x)" by simp
    with rounds_none [of t runID w] show ?thesis by blast
  next
    case (GoesOn w')
    with step ih obtain n w1 where "rounds t runID n w' w1" "wait_round t runID w1 = Ended (fst x) (snd x)" by fastforce
    with GoesOn show ?thesis by (blast intro: rounds_more)
  qed
qed


text \<open>
  The run queue ends a canceled run with the status "canceled", which is not one of the statuses the wait
  knows: it polls until the context ends it.
\<close>

lemma canceled_not_terminal: "\<not> terminal_status ''canceled''" "terminal_status ''cancelled''"
  by code_simp+

lemma canceled_polled_for_ever:
  assumes "\<And>w. \<exists>run. wt_status t runID w = (Inr run, w) \<and> rs_status run = ''canceled''"
    and "\<And>w. fst (wt_pause t w) = None"
  shows "waitForTerminalRun (Some t) runID w = None"
proof -
  have "\<exists>w'. wait_round t runID w = GoesOn w'" for w
  proof -
    obtain run where "wt_status t runID w = (Inr run, w)" "rs_status run = ''canceled''" using assms(1) by blast
    moreover obtain w' where "wt_pause t w = (None, w')" using assms(2) [of w] by (cases "wt_pause t w") auto
    ultimately show ?thesis using canceled_not_terminal(1) by (simp add: wait_round_def)
  qed
  then have "wait_round t runID w1 \<noteq> Ended r w2" for w1 r w2 by (metis wait_step.distinct(1))
  then show ?thesis using wait_loop_rounds [of t runID w] by (cases "wait_loop t runID w") (auto simp: waitForTerminalRun_def)
qed

section \<open>Announced waits\<close>

lemma ceil_seconds_bounds: "0 < d \<Longrightarrow> d \<le> ceil_seconds d * time_second \<and> ceil_seconds d * time_second < d + time_second"
proof -
  assume d: "0 < d"
  have e: "time_second * (d div time_second) + d mod time_second = d" by simp
  have m: "0 \<le> d mod time_second" "d mod time_second < time_second" by (simp_all add: time_second_def)
  have q: "0 \<le> d div time_second" using d by (simp add: time_second_def pos_imp_zdiv_nonneg_iff)
  show ?thesis
  proof (cases "d mod time_second = 0")
    case True
    then have "d div time_second \<noteq> 0" using e d by auto
    with True q e show ?thesis by (simp add: ceil_seconds_def Let_def mult.commute) (simp add: time_second_def)
  next
    case False
    with q have "ceil_seconds d = d div time_second + 1" by (simp add: ceil_seconds_def Let_def)
    then have "ceil_seconds d * time_second = time_second * (d div time_second) + time_second" by (simp add: algebra_simps)
    with e m False show ?thesis by linarith
  qed
qed

text \<open>
  C40: A sender who is refused and told to retry in some seconds is admitted when so many seconds have
  passed, if no other request of the sender came between: what the connector announces for the wait the
  limiter computed is that wait rounded up to whole seconds, by less than a second.
\<close>

theorem announced_wait_admits:
  assumes "rl_wf r" "rl_window r \<le> Chat_Limits.max_duration"
    and "mget (rl_events r) k = Some evs" "sorted evs" "\<forall>e \<in> set evs. e \<le> now" "int (length evs) \<le> rl_limit r"
    and "allowWithDetails r k now = ((False, d), r')"
  shows "\<exists>seconds. formatBridgeError (Some \<lparr>be_text = rate_limit_text (newRateLimitError scope d),
        be_rateLimit = Some (newRateLimitError scope d)\<rparr>) allowlistScope = ''rate limited, retry in '' @ itoa seconds @ ''s'' \<and>
      seconds * time_second < d + time_second \<and> (\<forall>later. now + seconds * time_second \<le> later \<longrightarrow> fst (allow r' k later))"
proof (intro exI conjI allI impI)
  let ?e = "newRateLimitError scope d"
  have d: "time_millisecond \<le> d" using retry_after_admits [OF assms order_refl] by simp
  then have pos: "0 < d" by (simp add: time_millisecond_def)
  have e: "rate_limit_retryAfter ?e = d" using d pos by (simp add: newRateLimitError_def rate_limit_retryAfter_def)
  then show "formatBridgeError (Some \<lparr>be_text = rate_limit_text ?e, be_rateLimit = Some ?e\<rparr>) allowlistScope =
      ''rate limited, retry in '' @ itoa (ceil_seconds d) @ ''s''"
    using pos by (simp add: formatBridgeError_def retryAfterFromError_def formatRateLimit_def)
  show "ceil_seconds d * time_second < d + time_second" using ceil_seconds_bounds [OF pos] by simp
  fix later
  assume "now + ceil_seconds d * time_second \<le> later"
  then have "now + d \<le> later" using ceil_seconds_bounds [OF pos] by linarith
  then show "fst (allow r' k later)" using retry_after_admits [OF assms] by blast
qed

theorem announced_wait_admits_witness:
  "let r1 = snd (allow (newRateLimiterWithClock 1 5000000) ''u'' 100);
       answer = allowWithDetails r1 ''u'' 2000100; e = newRateLimitError ''sender'' (snd (fst answer))
   in \<exists>seconds. formatBridgeError (Some \<lparr>be_text = rate_limit_text e, be_rateLimit = Some e\<rparr>) [] = ''rate limited, retry in '' @ itoa seconds @ ''s'' \<and>
      fst (allow (snd answer) ''u'' (2000100 + seconds * time_second))"
proof -
  let ?r1 = "snd (allow (newRateLimiterWithClock 1 5000000) ''u'' 100)"
  have a: "fst (allowWithDetails ?r1 ''u'' 2000100) = (False, 3000000)" by code_simp
  then have ref: "allowWithDetails ?r1 ''u'' 2000100 = ((False, 3000000), snd (allowWithDetails ?r1 ''u'' 2000100))"
    by (metis prod.collapse)
  have wf: "rl_wf ?r1" and win: "rl_window ?r1 \<le> Chat_Limits.max_duration"
    by (simp_all add: rl_wf_def newRateLimiterWithClock_def Chat_Limits.max_duration_def)
  have evs: "mget (rl_events ?r1) ''u'' = Some [100]" by code_simp
  have cap: "int (length [100 :: int]) \<le> rl_limit ?r1" by (simp add: newRateLimiterWithClock_def)
  have in_past: "sorted [100 :: int]" "\<forall>e \<in> set [100]. e \<le> (2000100 :: int)" by simp_all
  obtain seconds where s: "formatBridgeError (Some \<lparr>be_text = rate_limit_text (newRateLimitError ''sender'' 3000000),
        be_rateLimit = Some (newRateLimitError ''sender'' 3000000)\<rparr>) [] = ''rate limited, retry in '' @ itoa seconds @ ''s''"
    "\<forall>later. 2000100 + seconds * time_second \<le> later \<longrightarrow> fst (allow (snd (allowWithDetails ?r1 ''u'' 2000100)) ''u'' later)"
    using announced_wait_admits [OF wf win evs in_past cap ref] by blast
  have d: "snd (fst (allowWithDetails ?r1 ''u'' 2000100)) = 3000000" unfolding a by simp
  show ?thesis unfolding Let_def d using s by blast
qed

end
