(* ===== verification/Go_Path.thy ===== *)
theory Go_Path
  imports Go_Strings
begin

text \<open>
  path and path/filepath as the program uses them on Unix: Clean, Join, Dir, Base, Rel and IsAbs.
  Clean works on the elements of a path, the result of splitting it at slashes. What follows shows
  that a cleaned rooted path is its list of plain elements, and that Rel between such paths tells
  exactly whether one lies below the other.
\<close>

abbreviation slash :: char where "slash \<equiv> CHR ''/''"

definition is_abs :: "string \<Rightarrow> bool" where
  "is_abs p = (p \<noteq> [] \<and> hd p = slash)"

fun clean_elems :: "bool \<Rightarrow> string list \<Rightarrow> string list \<Rightarrow> string list" where
  "clean_elems rooted acc [] = rev acc"
| "clean_elems rooted acc (e # es) =
    (if e = [] \<or> e = ''.'' then clean_elems rooted acc es
     else if e = ''..'' then
       (if acc \<noteq> [] \<and> hd acc \<noteq> ''..'' then clean_elems rooted (tl acc) es
        else if rooted then clean_elems rooted acc es
        else clean_elems rooted (''..'' # acc) es)
     else clean_elems rooted (e # acc) es)"

definition path_clean :: "string \<Rightarrow> string" where
  "path_clean p =
    (let body = join_with [slash] (clean_elems (is_abs p) [] (split_on slash p))
     in if is_abs p then slash # body else if body = [] then ''.'' else body)"

definition path_join :: "string list \<Rightarrow> string" where
  "path_join es =
    (case dropWhile (\<lambda>e. e = []) es of [] \<Rightarrow> [] | e # r \<Rightarrow> path_clean (join_with [slash] (e # r)))"

definition path_dir :: "string \<Rightarrow> string" where
  "path_dir p = path_clean (rev (dropWhile (\<lambda>c. c \<noteq> slash) (rev p)))"

definition path_base :: "string \<Rightarrow> string" where
  "path_base p =
    (if p = [] then ''.''
     else (let b = rev (takeWhile (\<lambda>c. c \<noteq> slash) (dropWhile (\<lambda>c. c = slash) (rev p)))
           in if b = [] then [slash] else b))"

text \<open>The elements of a clean path: those below the root, none for the current directory.\<close>

definition elems_of :: "string \<Rightarrow> string list" where
  "elems_of p = (let b = (if is_abs p then tl p else p) in if b = [] then [] else split_on slash b)"

fun drop_common :: "string list \<Rightarrow> string list \<Rightarrow> string list \<times> string list" where
  "drop_common (b # bs) (t # ts) = (if b = t then drop_common bs ts else (b # bs, t # ts))"
| "drop_common bs ts = (bs, ts)"

definition path_rel :: "string \<Rightarrow> string \<Rightarrow> string option" where
  "path_rel basepath targpath =
    (let base = path_clean basepath; targ = path_clean targpath in
     if targ = base then Some ''.''
     else
      (let base = (if base = ''.'' then [] else base);
           (bs, ts) = drop_common (elems_of base) (elems_of targ)
       in if is_abs base \<noteq> is_abs targ then None
          else if bs \<noteq> [] \<and> ts \<noteq> [] \<and> hd bs = ''..'' then None
          else if bs \<noteq> [] then Some (join_with [slash] (replicate (length bs) ''..'' @ ts))
          else Some (join_with [slash] ts)))"

section \<open>Clean paths\<close>

definition plain_elem :: "string \<Rightarrow> bool" where
  "plain_elem e \<longleftrightarrow> e \<noteq> [] \<and> e \<noteq> ''.'' \<and> e \<noteq> ''..'' \<and> slash \<notin> set e"

definition rooted_path :: "string list \<Rightarrow> string" where
  "rooted_path es = slash # join_with [slash] es"

lemma clean_elems_plain:
  "list_all plain_elem acc \<Longrightarrow> \<forall>e \<in> set es. slash \<notin> set e \<Longrightarrow> list_all plain_elem (clean_elems True acc es)"
proof (induction "True" acc es rule: clean_elems.induct)
  case (2 acc e es)
  then show ?case by (cases acc) (auto simp: plain_elem_def)
qed simp

lemma clean_elems_id:
  "list_all plain_elem es \<Longrightarrow> clean_elems r acc es = rev acc @ es"
  by (induction es arbitrary: acc) (auto simp: plain_elem_def)

lemma clean_rooted:
  assumes "is_abs p"
  obtains es where "path_clean p = rooted_path es" "list_all plain_elem es"
proof
  show "path_clean p = rooted_path (clean_elems True [] (split_on slash p))"
    using assms by (simp add: path_clean_def rooted_path_def Let_def)
  show "list_all plain_elem (clean_elems True [] (split_on slash p))"
    by (rule clean_elems_plain) (auto dest: split_on_no_sep)
qed

lemma is_abs_rooted [simp]: "is_abs (rooted_path es)"
  by (simp add: is_abs_def rooted_path_def)

lemma join_Nil_iff: "\<forall>e \<in> set es. e \<noteq> [] \<Longrightarrow> join_with [slash] es = [] \<longleftrightarrow> es = []"
  by (induction es rule: induct_list012) auto

lemma elems_of_rooted: "list_all plain_elem es \<Longrightarrow> elems_of (rooted_path es) = es"
proof -
  assume p: "list_all plain_elem es"
  then have "\<forall>e \<in> set es. e \<noteq> []" "\<And>e. e \<in> set es \<Longrightarrow> slash \<notin> set e" by (auto simp: list_all_iff plain_elem_def)
  then show ?thesis
    using join_Nil_iff [of es] split_join [of es slash]
    by (cases "es = []") (simp_all add: elems_of_def rooted_path_def is_abs_def Let_def)
qed

lemma clean_rooted_id: "list_all plain_elem es \<Longrightarrow> path_clean (rooted_path es) = rooted_path es"
proof -
  assume p: "list_all plain_elem es"
  have "clean_elems True [] (split_on slash (rooted_path es)) = es"
  proof (cases "es = []")
    case True
    then show ?thesis by (simp add: rooted_path_def)
  next
    case False
    have "split_on slash (rooted_path es) = [] # es"
      unfolding rooted_path_def using False p split_join [of es slash]
      by (simp add: list_all_iff plain_elem_def)
    with clean_elems_id [OF p, of True "[]"] show ?thesis by simp
  qed
  then show ?thesis by (simp add: path_clean_def rooted_path_def [symmetric] Let_def)
qed

lemma rooted_path_inj:
  "list_all plain_elem es \<Longrightarrow> list_all plain_elem fs \<Longrightarrow> rooted_path es = rooted_path fs \<longleftrightarrow> es = fs"
  using elems_of_rooted by metis

lemma drop_common_prefix:
  "drop_common bs ts = (bs', ts') \<Longrightarrow>
   (\<exists>c. bs = c @ bs' \<and> ts = c @ ts') \<and> (bs' = [] \<longleftrightarrow> prefix bs ts)"
proof (induction bs ts rule: drop_common.induct)
  case (1 b bs t ts)
  show ?case
  proof (cases "b = t")
    case True
    with 1 obtain c where "bs = c @ bs'" "ts = c @ ts'" "bs' = [] \<longleftrightarrow> prefix bs ts" by auto
    with True show ?thesis by (intro conjI exI [of _ "b # c"]) auto
  next
    case False
    with 1(2) show ?thesis by auto
  qed
qed auto

lemma path_rel_below:
  assumes "list_all plain_elem ws" "list_all plain_elem ps"
  shows "path_rel (rooted_path ws) (rooted_path ps) =
    (case drop_common ws ps of (bs, ts) \<Rightarrow>
       Some (if bs = [] \<and> ts = [] then ''.'' else join_with [slash] (replicate (length bs) ''..'' @ ts)))"
proof -
  obtain bs ts where d: "drop_common ws ps = (bs, ts)" by force
  then obtain c where c: "ws = c @ bs" "ps = c @ ts" using drop_common_prefix by blast
  have dots: "bs \<noteq> [] \<Longrightarrow> hd bs \<noteq> ''..''" using assms(1) c(1) by (cases bs) (auto simp: plain_elem_def)
  have ne: "rooted_path ws \<noteq> ''.''" by (simp add: rooted_path_def)
  have eq: "rooted_path ps = rooted_path ws \<longleftrightarrow> bs = [] \<and> ts = []"
    using rooted_path_inj [OF assms(2,1)] c d drop_common_prefix [OF d] by (cases "bs = []") auto
  show ?thesis
    using d dots ne eq assms
    by (simp add: path_rel_def clean_rooted_id elems_of_rooted Let_def)
qed

end
