(* ===== verification/Go_Regexp.thy ===== *)
theory Go_Regexp
  imports Go_Strings
begin

text \<open>
  Package regexp as the program uses it. \<open>re\<close> compiles a pattern that is written as in the source,
  with a percent sign for the backslash (no pattern of the program has a percent sign); \<open>rx\<close> lists
  the ways a pattern matches at a position in the order of preference of Go's leftmost-first
  matching, so the first one is the match. Text is matched byte by byte: that is the same on ASCII
  text, and on other text unless a pattern counts the characters of a negated class. The
  functions that search assume what holds of the patterns used with them, that no match is empty.
\<close>

section \<open>Expressions and matching\<close>

datatype regex =
    REps
  | RSet bool "(nat \<times> nat) list"
  | RSeq regex regex
  | RAlt regex regex
  | RStar bool regex
  | RBegin | REnd | RBeginLine | REndLine | RWordB
  | RCap nat regex

text \<open>A position: the byte before it, the text after it, and the groups captured so far.\<close>

record rx_state =
  rs_prev :: "char option"
  rs_rest :: string
  rs_caps :: "(nat \<times> string) list"

definition in_set :: "bool \<Rightarrow> (nat \<times> nat) list \<Rightarrow> char \<Rightarrow> bool" where
  "in_set neg ranges c = (list_ex (\<lambda>(a, b). a \<le> of_char c \<and> of_char c \<le> b) ranges \<noteq> neg)"

definition word_ranges :: "(nat \<times> nat) list" where
  "word_ranges = [(48, 57), (65, 90), (95, 95), (97, 122)]"

definition is_word :: "char option \<Rightarrow> bool" where
  "is_word c = (case c of None \<Rightarrow> False | Some c \<Rightarrow> in_set False word_ranges c)"

definition next_char :: "string \<Rightarrow> char option" where
  "next_char s = (case s of [] \<Rightarrow> None | c # _ \<Rightarrow> Some c)"

function star_of :: "bool \<Rightarrow> (rx_state \<Rightarrow> rx_state list) \<Rightarrow> rx_state \<Rightarrow> rx_state list" where
  "star_of greedy f s =
    (let more = concat (map (\<lambda>t. if length (rs_rest t) < length (rs_rest s) then star_of greedy f t else []) (f s))
     in if greedy then more @ [s] else s # more)"
  by pat_completeness auto
termination
  by (relation "measure (\<lambda>(greedy, f, s). length (rs_rest s))") auto

declare star_of.simps [simp del]

definition when_at :: "bool \<Rightarrow> rx_state \<Rightarrow> rx_state list" where
  "when_at b s = (if b then [s] else [])"

primrec rx :: "regex \<Rightarrow> rx_state \<Rightarrow> rx_state list" where
  "rx REps s = [s]"
| "rx (RSet neg ranges) s =
     (case rs_rest s of
        [] \<Rightarrow> []
      | c # r \<Rightarrow> if in_set neg ranges c then [s\<lparr>rs_prev := Some c, rs_rest := r\<rparr>] else [])"
| "rx (RSeq a b) s = concat (map (rx b) (rx a s))"
| "rx (RAlt a b) s = rx a s @ rx b s"
| "rx (RStar greedy a) s = star_of greedy (rx a) s"
| "rx RBegin s = when_at (rs_prev s = None) s"
| "rx REnd s = when_at (rs_rest s = []) s"
| "rx RBeginLine s = when_at (rs_prev s = None \<or> rs_prev s = Some (CHR 0x0A)) s"
| "rx REndLine s = when_at (rs_rest s = [] \<or> hd (rs_rest s) = CHR 0x0A) s"
| "rx RWordB s = when_at (is_word (rs_prev s) \<noteq> is_word (next_char (rs_rest s))) s"
| "rx (RCap n a) s =
     map (\<lambda>t. t\<lparr>rs_caps := (n, take (length (rs_rest s) - length (rs_rest t)) (rs_rest s)) # rs_caps t\<rparr>) (rx a s)"

section \<open>Searching\<close>

record rx_found =
  rf_before :: string
  rf_match :: string
  rf_caps :: "(nat \<times> string) list"
  rf_rest :: string

definition rx_at :: "regex \<Rightarrow> char option \<Rightarrow> string \<Rightarrow> rx_found option" where
  "rx_at r prev s =
    (case rx r \<lparr>rs_prev = prev, rs_rest = s, rs_caps = []\<rparr> of
       [] \<Rightarrow> None
     | t # _ \<Rightarrow>
       Some \<lparr>rf_before = [], rf_match = take (length s - length (rs_rest t)) s, rf_caps = rs_caps t,
         rf_rest = rs_rest t\<rparr>)"

fun rx_find :: "regex \<Rightarrow> char option \<Rightarrow> string \<Rightarrow> rx_found option" where
  "rx_find r prev [] = rx_at r prev []"
| "rx_find r prev (c # s) =
     (case rx_at r prev (c # s) of
        Some m \<Rightarrow> Some m
      | None \<Rightarrow> map_option (\<lambda>m. m\<lparr>rf_before := c # rf_before m\<rparr>) (rx_find r (Some c) s))"

text \<open>Regexp.MatchString and FindStringSubmatch\<close>

definition rx_test :: "regex \<Rightarrow> string \<Rightarrow> bool" where
  "rx_test r s = (rx_find r None s \<noteq> None)"

definition rx_group :: "nat \<Rightarrow> rx_found \<Rightarrow> string" where
  "rx_group n m = (case map_of (rf_caps m) n of None \<Rightarrow> [] | Some t \<Rightarrow> t)"

definition last_opt :: "char option \<Rightarrow> string \<Rightarrow> char option" where
  "last_opt prev s = (if s = [] then prev else Some (last s))"

text \<open>The matches one after the other, as FindAll and ReplaceAll visit them.\<close>

function rx_all :: "regex \<Rightarrow> char option \<Rightarrow> string \<Rightarrow> rx_found list" where
  "rx_all r prev s =
    (case rx_find r prev s of
       None \<Rightarrow> []
     | Some m \<Rightarrow>
       if length (rf_rest m) < length s
       then m # rx_all r (last_opt prev (rf_before m @ rf_match m)) (rf_rest m) else [m])"
  by pat_completeness auto
termination
  by (relation "measure (\<lambda>(r, prev, s). length s)") auto

declare rx_all.simps [simp del]

definition find_all :: "regex \<Rightarrow> string \<Rightarrow> string list" where
  "find_all r s = map rf_match (rx_all r None s)"

text \<open>Regexp.ReplaceAllStringFunc, and ReplaceAllString with a replacement without dollar signs.\<close>

definition replace_from :: "regex \<Rightarrow> (rx_found \<Rightarrow> string) \<Rightarrow> char option \<Rightarrow> string \<Rightarrow> string" where
  "replace_from r f prev s =
    (let ms = rx_all r prev s in
     concat (map (\<lambda>m. rf_before m @ f m) ms) @ (if ms = [] then s else rf_rest (last ms)))"

definition replace_func :: "regex \<Rightarrow> (rx_found \<Rightarrow> string) \<Rightarrow> string \<Rightarrow> string" where
  "replace_func r f s = replace_from r f None s"

definition replace_rx :: "regex \<Rightarrow> string \<Rightarrow> string \<Rightarrow> string" where
  "replace_rx r by s = replace_func r (\<lambda>_. by) s"

section \<open>Patterns\<close>

record rx_flags =
  fl_ci :: bool
  fl_dotall :: bool
  fl_multi :: bool

definition escape_char :: char where "escape_char = CHR ''%''"

text \<open>A letter under the flag i stands for both cases.\<close>

definition char_ranges :: "bool \<Rightarrow> nat \<Rightarrow> (nat \<times> nat) list" where
  "char_ranges ci n =
    (if ci \<and> 65 \<le> n \<and> n \<le> 90 then [(n, n), (n + 32, n + 32)]
     else if ci \<and> 97 \<le> n \<and> n \<le> 122 then [(n, n), (n - 32, n - 32)]
     else [(n, n)])"

definition range_ranges :: "bool \<Rightarrow> nat \<Rightarrow> nat \<Rightarrow> (nat \<times> nat) list" where
  "range_ranges ci a b =
    (if ci \<and> 97 \<le> a \<and> b \<le> 122 then [(a, b), (a - 32, b - 32)]
     else if ci \<and> 65 \<le> a \<and> b \<le> 90 then [(a, b), (a + 32, b + 32)]
     else [(a, b)])"

definition class_of :: "char \<Rightarrow> (nat \<times> nat) list option" where
  "class_of c =
    (if c = CHR ''s'' then Some [(9, 10), (12, 13), (32, 32)]
     else if c = CHR ''d'' then Some [(48, 57)]
     else if c = CHR ''w'' then Some word_ranges
     else None)"

text \<open>The byte an escape in a pattern or a class stands for.\<close>

definition escaped :: "char \<Rightarrow> nat" where
  "escaped c =
    (if c = CHR ''n'' then 10 else if c = CHR ''t'' then 9 else if c = CHR ''r'' then 13 else of_char c)"

definition compl_ranges :: "(nat \<times> nat) list \<Rightarrow> (nat \<times> nat) list" where
  "compl_ranges rs =
    map (\<lambda>n. (n, n)) (filter (\<lambda>n. \<not> list_ex (\<lambda>(a, b). a \<le> n \<and> n \<le> b) rs) [0..<256])"

fun p_class :: "nat \<Rightarrow> bool \<Rightarrow> string \<Rightarrow> ((nat \<times> nat) list \<times> string) option" where
  "p_class 0 ci s = None"
| "p_class (Suc k) ci s =
     (case s of
        [] \<Rightarrow> None
      | c # r \<Rightarrow>
        if c = CHR '']'' then Some ([], r)
        else if c = escape_char then
          (case r of
             [] \<Rightarrow> None
           | d # r' \<Rightarrow>
             let rs = (if d = CHR ''S'' then compl_ranges [(9, 10), (12, 13), (32, 32)]
                       else case class_of d of Some rs \<Rightarrow> rs | None \<Rightarrow> char_ranges ci (escaped d))
             in map_option (\<lambda>(rs', t). (rs @ rs', t)) (p_class k ci r'))
        else
          (case r of
             d # e # r' \<Rightarrow>
               if d = CHR ''-'' \<and> e \<noteq> CHR '']'' \<and> e \<noteq> escape_char
               then map_option (\<lambda>(rs', t). (range_ranges ci (of_char c) (of_char e) @ rs', t)) (p_class k ci r')
               else map_option (\<lambda>(rs', t). (char_ranges ci (of_char c) @ rs', t)) (p_class k ci r)
           | _ \<Rightarrow> map_option (\<lambda>(rs', t). (char_ranges ci (of_char c) @ rs', t)) (p_class k ci r)))"

definition r_opt :: "bool \<Rightarrow> regex \<Rightarrow> regex" where
  "r_opt greedy r = (if greedy then RAlt r REps else RAlt REps r)"

text \<open>At most \<open>n\<close> times.\<close>

fun r_upto :: "bool \<Rightarrow> nat \<Rightarrow> regex \<Rightarrow> regex" where
  "r_upto greedy 0 r = REps"
| "r_upto greedy (Suc n) r = r_opt greedy (RSeq r (r_upto greedy n r))"

fun r_times :: "nat \<Rightarrow> regex \<Rightarrow> regex \<Rightarrow> regex" where
  "r_times 0 r e = e"
| "r_times (Suc n) r e = RSeq r (r_times n r e)"

definition p_number_prefix :: "string \<Rightarrow> nat \<times> string" where
  "p_number_prefix s = (digits_val (takeWhile is_digit_char s), dropWhile is_digit_char s)"

definition lazy_mark :: "string \<Rightarrow> bool \<times> string" where
  "lazy_mark s = (case s of c # r \<Rightarrow> if c = CHR ''?'' then (False, r) else (True, s) | [] \<Rightarrow> (True, []))"

text \<open>The quantifiers: star, plus, question mark and counts.\<close>

definition p_quant :: "regex \<Rightarrow> string \<Rightarrow> regex \<times> string" where
  "p_quant a s =
    (case s of
       [] \<Rightarrow> (a, [])
     | c # r \<Rightarrow>
       if c = CHR ''*'' then (case lazy_mark r of (g, r') \<Rightarrow> (RStar g a, r'))
       else if c = CHR ''+'' then (case lazy_mark r of (g, r') \<Rightarrow> (RSeq a (RStar g a), r'))
       else if c = CHR ''?'' then (case lazy_mark r of (g, r') \<Rightarrow> (r_opt g a, r'))
       else if c = CHR ''{'' then
         (case p_number_prefix r of
            (m, d # r1) \<Rightarrow>
              if d = CHR ''}'' then (r_times m a REps, r1)
              else (case p_number_prefix r1 of
                  (n, r2) \<Rightarrow> if r2 = r1 then (r_times m a (RStar True a), drop 1 r1)
                    else (r_times m a (r_upto True (n - m) a), drop 1 r2))
          | _ \<Rightarrow> (a, s))
       else (a, s))"

fun p_alt :: "nat \<Rightarrow> rx_flags \<Rightarrow> nat \<Rightarrow> string \<Rightarrow> (regex \<times> nat \<times> string) option"
  and p_seq :: "nat \<Rightarrow> rx_flags \<Rightarrow> nat \<Rightarrow> string \<Rightarrow> (regex \<times> nat \<times> string) option"
  and p_atom :: "nat \<Rightarrow> rx_flags \<Rightarrow> nat \<Rightarrow> string \<Rightarrow> (regex \<times> nat \<times> string) option" where
  "p_alt 0 fl n s = None"
| "p_alt (Suc k) fl n s =
     (case p_seq k fl n s of
        None \<Rightarrow> None
      | Some (a, n1, s1) \<Rightarrow>
        if prefix ''|'' s1
        then map_option (\<lambda>(b, n2, s2). (RAlt a b, n2, s2)) (p_alt k fl n1 (drop 1 s1))
        else Some (a, n1, s1))"
| "p_seq 0 fl n s = None"
| "p_seq (Suc k) fl n s =
     (if s = [] \<or> prefix '')'' s \<or> prefix ''|'' s then Some (REps, n, s)
      else case p_atom k fl n s of
          None \<Rightarrow> None
        | Some (a, n1, s1) \<Rightarrow>
          (case p_quant a s1 of
             (q, s2) \<Rightarrow> map_option (\<lambda>(b, n3, s3). (RSeq q b, n3, s3)) (p_seq k fl n1 s2)))"
| "p_atom 0 fl n s = None"
| "p_atom (Suc k) fl n s =
     (case s of
        [] \<Rightarrow> None
      | c # r \<Rightarrow>
        if c = CHR ''('' then
          (let plain = prefix ''?:'' r in
           case p_alt k fl (if plain then n else n + 1) (if plain then drop 2 r else r) of
             Some (a, n1, s1) \<Rightarrow>
               if prefix '')'' s1 then Some (if plain then a else RCap n a, n1, drop 1 s1) else None
           | None \<Rightarrow> None)
        else if c = CHR ''['' then
          (let neg = prefix [CHR 0x5E] r in
           map_option (\<lambda>(rs, t). (RSet neg rs, n, t)) (p_class (length r + 1) (fl_ci fl) (if neg then drop 1 r else r)))
        else if c = CHR ''.'' then Some (RSet True (if fl_dotall fl then [] else [(10, 10)]), n, r)
        else if c = CHR 0x5E then Some (if fl_multi fl then RBeginLine else RBegin, n, r)
        else if c = CHR 0x24 then Some (if fl_multi fl then REndLine else REnd, n, r)
        else if c = escape_char then
          (case r of
             [] \<Rightarrow> None
           | d # r' \<Rightarrow>
             if d = CHR ''b'' then Some (RWordB, n, r')
             else if d = CHR ''S'' then Some (RSet True [(9, 10), (12, 13), (32, 32)], n, r')
             else (case class_of d of
                 Some rs \<Rightarrow> Some (RSet False rs, n, r')
               | None \<Rightarrow> Some (RSet False (char_ranges (fl_ci fl) (escaped d)), n, r')))
        else Some (RSet False (char_ranges (fl_ci fl) (of_char c)), n, r))"

text \<open>Flags stand in front of the pattern, as in (?i).\<close>

definition split_flags :: "string \<Rightarrow> rx_flags \<times> string" where
  "split_flags s =
    (let letters = takeWhile (\<lambda>c. c \<noteq> CHR '')'') (drop 2 s) in
     if prefix ''(?'' s \<and> \<not> prefix ''(?:'' s
     then (\<lparr>fl_ci = CHR ''i'' \<in> set letters, fl_dotall = CHR ''s'' \<in> set letters,
            fl_multi = CHR ''m'' \<in> set letters\<rparr>, drop (length letters + 3) s)
     else (\<lparr>fl_ci = False, fl_dotall = False, fl_multi = False\<rparr>, s))"

definition compile :: "string \<Rightarrow> regex option" where
  "compile s =
    (case split_flags s of
       (fl, body) \<Rightarrow>
         (case p_alt (3 * length body + 3) fl 1 body of
            Some (r, _, []) \<Rightarrow> Some r
          | _ \<Rightarrow> None))"

text \<open>regexp.MustCompile panics where \<open>compile\<close> fails; the patterns of the program compile.\<close>

definition re :: "string \<Rightarrow> regex" where
  "re s = (case compile s of None \<Rightarrow> RSet False [] | Some r \<Rightarrow> r)"

lemma regexp_examples:
  "map_option rf_match (rx_find (re ''a+?b'') None ''xaab'') = Some ''aab''"
  "find_all (re ''%b[a-z]+(?:%.[a-z]+)+%b'') ''use fs.read, not x.y.z or q.'' = [''fs.read'', ''x.y.z'']"
  "rx_test (re ''(?i)^(v%d+|retry)$'') ''V12'' \<and> \<not> rx_test (re ''(?i)^(v%d+|retry)$'') ''v1x''"
  "map_option (rx_group 1) (rx_find (re ''k%s*[:=]%s*([^%s,]+)'') None ''k = v7, w'') = Some ''v7''"
  "replace_rx (re ''%d{2,3}'') ''#'' ''1 22 4444 5'' = ''1 # #4 5''"
  "find_all (re ''(a|ab)(c|bcd)'') ''abcd'' = [''abcd'']"
  by code_simp+

section \<open>What a match is\<close>

text \<open>A match moves over a piece of the text.\<close>

definition moves :: "rx_state \<Rightarrow> rx_state \<Rightarrow> bool" where
  "moves s t = (\<exists>w. rs_rest s = w @ rs_rest t \<and> rs_prev t = last_opt (rs_prev s) w)"

lemma moves_refl [simp]: "moves s s"
  by (simp add: moves_def last_opt_def)

lemma moves_trans: "moves s t \<Longrightarrow> moves t u \<Longrightarrow> moves s u"
proof -
  assume "moves s t" "moves t u"
  then obtain v w where "rs_rest s = v @ w @ rs_rest u" "rs_prev u = last_opt (last_opt (rs_prev s) v) w"
    by (auto simp: moves_def)
  then show ?thesis unfolding moves_def by (intro exI [of _ "v @ w"]) (auto simp: last_opt_def)
qed

lemma star_of_moves:
  "(\<And>s t. t \<in> set (f s) \<Longrightarrow> moves s t) \<Longrightarrow> t \<in> set (star_of g f s) \<Longrightarrow> moves s t"
proof (induction g f s rule: star_of.induct)
  case (1 greedy f s)
  from 1(3) consider "t = s"
    | u where "u \<in> set (f s)" "length (rs_rest u) < length (rs_rest s)" "t \<in> set (star_of greedy f u)"
    unfolding star_of.simps [of greedy f s] by (auto simp: Let_def split: if_splits)
  then show ?case
  proof cases
    case 2
    have "moves u t" using 1(1) [OF 2(1,2) 1(2) 2(3)] by blast
    then show ?thesis by (rule moves_trans [OF 1(2) [OF 2(1)]])
  qed simp
qed

lemma rx_moves: "t \<in> set (rx r s) \<Longrightarrow> moves s t"
proof (induction r arbitrary: s t)
  case (RSet neg ranges)
  then obtain c r where "rs_rest s = c # r" "t = s\<lparr>rs_prev := Some c, rs_rest := r\<rparr>"
    by (cases "rs_rest s") (auto split: if_splits)
  then show ?case unfolding moves_def by (intro exI [of _ "[c]"]) (simp add: last_opt_def)
next
  case (RSeq a b)
  then obtain u where "u \<in> set (rx a s)" "t \<in> set (rx b u)" by auto
  then show ?case by (rule moves_trans [OF RSeq.IH])
next
  case (RStar greedy a)
  then show ?case using star_of_moves [of "rx a" t greedy s] by auto
next
  case (RCap n a)
  then show ?case by (auto simp: moves_def)
qed (auto simp: when_at_def split: if_splits)

lemma star_of_self: "s \<in> set (star_of g f s)"
  unfolding star_of.simps [of g f s] by (simp add: Let_def)

lemma star_of_step:
  "u \<in> set (f s) \<Longrightarrow> length (rs_rest u) < length (rs_rest s) \<Longrightarrow> t \<in> set (star_of g f u) \<Longrightarrow>
   t \<in> set (star_of g f s)"
  unfolding star_of.simps [of g f s] by (auto simp: Let_def)

lemma rx_at_None: "rx_at r p s = None \<longleftrightarrow> rx r \<lparr>rs_prev = p, rs_rest = s, rs_caps = []\<rparr> = []"
  by (simp add: rx_at_def split: list.splits)

lemma rx_at_Some:
  assumes "rx_at r p s = Some m"
  obtains t where "t \<in> set (rx r \<lparr>rs_prev = p, rs_rest = s, rs_caps = []\<rparr>)" "rf_before m = []"
    "s = rf_match m @ rf_rest m" "rf_rest m = rs_rest t" "rs_prev t = last_opt p (rf_match m)"
    "rf_caps m = rs_caps t"
proof -
  from assms obtain t ts where t: "rx r \<lparr>rs_prev = p, rs_rest = s, rs_caps = []\<rparr> = t # ts"
    by (auto simp: rx_at_def split: list.splits)
  then have "moves \<lparr>rs_prev = p, rs_rest = s, rs_caps = []\<rparr> t" by (intro rx_moves [of t r]) simp
  then obtain w where "s = w @ rs_rest t" "rs_prev t = last_opt p w" by (auto simp: moves_def)
  with t assms show thesis by (intro that [of t]) (auto simp: rx_at_def)
qed

text \<open>The search finds the leftmost match.\<close>

lemma rx_find_None: "rx_find r p (a @ b) = None \<Longrightarrow> rx_at r (last_opt p a) b = None"
proof (induction a arbitrary: p)
  case Nil
  then show ?case by (cases b) (auto simp: last_opt_def split: option.splits)
next
  case (Cons c a)
  then show ?case using Cons.IH [of "Some c"] by (auto simp: last_opt_def split: option.splits if_splits)
qed

lemma rx_find_Some:
  "rx_find r p s = Some m \<Longrightarrow>
   s = rf_before m @ rf_match m @ rf_rest m \<and>
   rx_at r (last_opt p (rf_before m)) (rf_match m @ rf_rest m) = Some (m\<lparr>rf_before := []\<rparr>) \<and>
   (\<forall>a b. rf_before m = a @ b \<longrightarrow> b \<noteq> [] \<longrightarrow> rx_at r (last_opt p a) (b @ rf_match m @ rf_rest m) = None)"
proof (induction s arbitrary: p m)
  case Nil
  then have m: "rx_at r p [] = Some m" by simp
  then show ?case by (elim rx_at_Some) (auto simp: last_opt_def m)
next
  case (Cons c s)
  show ?case
  proof (cases "rx_at r p (c # s)")
    case (Some m')
    with Cons.prems have "rx_at r p (c # s) = Some m" by simp
    moreover from this have "rf_before m = []" "c # s = rf_match m @ rf_rest m" by (elim rx_at_Some; simp)+
    ultimately show ?thesis by (auto simp: last_opt_def)
  next
    case None
    with Cons.prems obtain m' where m': "rx_find r (Some c) s = Some m'" "m = m'\<lparr>rf_before := c # rf_before m'\<rparr>"
      by auto
    have lo: "last_opt p (c # x) = last_opt (Some c) x" for x by (simp add: last_opt_def)
    from Cons.IH [OF m'(1)] None show ?thesis
      by (auto simp: m'(2) lo Cons_eq_append_conv) (simp add: last_opt_def)
  qed
qed

lemma replace_from_rec:
  "replace_from r f p s =
     (case rx_find r p s of
        None \<Rightarrow> s
      | Some m \<Rightarrow>
        rf_before m @ f m @
          (if length (rf_rest m) < length s
           then replace_from r f (last_opt p (rf_before m @ rf_match m)) (rf_rest m) else rf_rest m))"
  unfolding replace_from_def by (subst rx_all.simps) (auto simp: Let_def split: option.splits)

end
