(* ===== verification/File_Edits.thy ===== *)
theory File_Edits
  imports Tool_Args Go_Regexp
begin

text \<open>
  The edits of the tool fs.edit (internal/tools/builtins.go): replacing a text once, replacing ranges of
  lines, and applying a unified diff. An error is its message.
\<close>

section \<open>Line edits\<close>

record line_edit =
  le_startLine :: int
  le_endLine :: int
  le_newText :: string

definition parse_edit :: "json \<Rightarrow> string + line_edit" where
  "parse_edit row =
    (case row of
       JObj obj \<Rightarrow>
         (let s = getIntArg obj ''startLine'' 0; e = getIntArg obj ''endLine'' 0;
              t = (case mget obj ''newText'' of Some (JStr t) \<Rightarrow> t | _ \<Rightarrow> [])
          in if s \<le> 0 \<or> e < s then Inl (''invalid edit range: '' @ itoa s @ ''-'' @ itoa e)
             else Inr \<lparr>le_startLine = s, le_endLine = e, le_newText = t\<rparr>)
     | _ \<Rightarrow> Inl ''each edit must be an object'')"

fun parse_edits :: "json list \<Rightarrow> string + line_edit list" where
  "parse_edits [] = Inr []"
| "parse_edits (row # rows) =
     (case parse_edit row of
        Inl e \<Rightarrow> Inl e
      | Inr x \<Rightarrow> (case parse_edits rows of Inl e \<Rightarrow> Inl e | Inr xs \<Rightarrow> Inr (x # xs)))"

fun edits_overlap :: "line_edit list \<Rightarrow> bool" where
  "edits_overlap (a # b # es) = (le_startLine b \<le> le_endLine a \<or> edits_overlap (b # es))"
| "edits_overlap _ = False"

definition parseLineEdits :: "json \<Rightarrow> string + line_edit list" where
  "parseLineEdits raw =
    (case raw of
       JArr rows \<Rightarrow>
         (case parse_edits rows of
            Inl e \<Rightarrow> Inl e
          | Inr es \<Rightarrow>
            (let es = sort_key le_startLine es in
             if edits_overlap es then Inl ''overlapping edits are not allowed'' else Inr es))
     | _ \<Rightarrow> Inl ''edits must be an array'')"

text \<open>The lines from number \<open>i\<close> to the one before \<open>stop\<close>.\<close>

function copy_lines :: "string list \<Rightarrow> int \<Rightarrow> int \<Rightarrow> string list" where
  "copy_lines lines i stop = (if i < stop then lines ! nat (i - 1) # copy_lines lines (i + 1) stop else [])"
  by pat_completeness auto
termination by (relation "measure (\<lambda>(lines, i, stop). nat (stop - i))") auto

declare copy_lines.simps [simp del]

fun line_edits_loop ::
  "string list \<Rightarrow> line_edit list \<Rightarrow> int \<Rightarrow> string list \<Rightarrow> int \<Rightarrow> string + (string list \<times> int)" where
  "line_edits_loop lines [] lineIdx out applied = Inr (out @ copy_lines lines lineIdx (int (length lines) + 1), applied)"
| "line_edits_loop lines (e # es) lineIdx out applied =
     (if int (length lines) < le_endLine e
      then Inl (''edit range out of bounds: '' @ itoa (le_startLine e) @ ''-'' @ itoa (le_endLine e))
      else line_edits_loop lines es (le_endLine e + 1)
        (out @ copy_lines lines lineIdx (le_startLine e) @
           (if le_newText e \<noteq> [] then split_on (CHR 0x0A) (le_newText e) else []))
        (applied + 1))"

definition applyLineEdits :: "string \<Rightarrow> line_edit list \<Rightarrow> string + (string \<times> int)" where
  "applyLineEdits content edits =
    (case line_edits_loop (split_on (CHR 0x0A) content) edits 1 [] 0 of
       Inl e \<Rightarrow> Inl e | Inr (out, applied) \<Rightarrow> Inr (join_with lf out, applied))"

section \<open>Unified diffs\<close>

record diff_hunk =
  dh_oldStart :: int
  dh_oldCount :: int
  dh_newStart :: int
  dh_newCount :: int
  dh_lines :: "string list"

definition unifiedDiffHeaderPattern :: regex where
  "unifiedDiffHeaderPattern = re ''^@@ -(%d+)(?:,(%d+))? %+(%d+)(?:,(%d+))? @@(?: .*)?$''"

definition no_newline_mark :: string where
  "no_newline_mark = CHR 0x5C # '' No newline at end of file''"

definition header_count :: "string \<Rightarrow> int" where
  "header_count s = (if trim_space s \<noteq> [] then atoi_digits s else 1)"

definition parse_header :: "string \<Rightarrow> diff_hunk option" where
  "parse_header line =
    (case rx_find unifiedDiffHeaderPattern None line of
       None \<Rightarrow> None
     | Some m \<Rightarrow> Some \<lparr>dh_oldStart = atoi_digits (rx_group 1 m), dh_oldCount = header_count (rx_group 2 m),
         dh_newStart = atoi_digits (rx_group 3 m), dh_newCount = header_count (rx_group 4 m), dh_lines = []\<rparr>)"

text \<open>The rows of hunk \<open>no\<close> after its header, how many of them are old and new lines, and the rows left.\<close>

fun hunk_body :: "nat \<Rightarrow> string list \<Rightarrow> string + (string list \<times> int \<times> int \<times> string list)" where
  "hunk_body no [] = Inr ([], 0, 0, [])"
| "hunk_body no (body # rows) =
     (if prefix ''@@'' body then Inr ([], 0, 0, body # rows)
      else if body = [] \<or> body = no_newline_mark then hunk_body no rows
      else if hd body \<notin> set '' +-''
      then Inl (''invalid unified diff line prefix at hunk '' @ itoa (int no) @ '': '' @ body)
      else (case hunk_body no rows of
          Inl e \<Rightarrow> Inl e
        | Inr (ls, oldSeen, newSeen, rest) \<Rightarrow>
          Inr (body # ls, oldSeen + (if hd body \<in> set '' -'' then 1 else 0),
            newSeen + (if hd body \<in> set '' +'' then 1 else 0), rest)))"

lemma hunk_body_shrinks: "hunk_body no rows = Inr (ls, o', n, rest) \<Longrightarrow> length rest \<le> length rows"
  by (induction no rows arbitrary: ls o' n rule: hunk_body.induct) (fastforce split: if_splits sum.splits)+

function parse_hunks :: "nat \<Rightarrow> string list \<Rightarrow> string + diff_hunk list" where
  "parse_hunks done [] = Inr []"
| "parse_hunks done (line # rows) =
     (if trim_space line = [] \<or> \<not> prefix ''@@'' line then parse_hunks done rows
      else (case parse_header line of
          None \<Rightarrow> Inl (''invalid unified diff hunk header: '' @ line)
        | Some h \<Rightarrow>
          (case hunk_body (done + 1) rows of
             Inl e \<Rightarrow> Inl e
           | Inr (ls, oldSeen, newSeen, rest) \<Rightarrow>
             if oldSeen \<noteq> dh_oldCount h \<or> newSeen \<noteq> dh_newCount h
             then Inl (''hunk line counts do not match header at hunk '' @ itoa (int done + 1))
             else (case parse_hunks (done + 1) rest of
                 Inl e \<Rightarrow> Inl e | Inr hs \<Rightarrow> Inr (h\<lparr>dh_lines := ls\<rparr> # hs)))))"
  by pat_completeness auto
termination
  by (relation "measure (\<lambda>(d, rows). length rows)") (auto dest: hunk_body_shrinks)

declare parse_hunks.simps(2) [simp del]

definition parseUnifiedDiff :: "string \<Rightarrow> string + diff_hunk list" where
  "parseUnifiedDiff patch =
    (case parse_hunks 0 (split_on (CHR 0x0A) (replace_all [CHR 0x0D, CHR 0x0A] lf patch)) of
       Inl e \<Rightarrow> Inl e
     | Inr hs \<Rightarrow> if hs = [] then Inl ''patch does not contain any @@ hunks'' else Inr hs)"

definition splitFileLines :: "string \<Rightarrow> string list \<times> bool" where
  "splitFileLines content =
    (if content = [] then ([], False)
     else (let trailing = suffix lf content; body = (if trailing then butlast content else content) in
           if body = [] then ([], trailing) else (split_on (CHR 0x0A) body, trailing)))"

definition mismatch :: "int \<Rightarrow> string" where
  "mismatch cursor = ''hunk context mismatch at old line '' @ itoa cursor"

fun apply_rows :: "string list \<Rightarrow> string list \<Rightarrow> int \<Rightarrow> string list \<Rightarrow> string + (int \<times> string list)" where
  "apply_rows src [] cursor out = Inr (cursor, out)"
| "apply_rows src (row # rows) cursor out =
     (let p = hd row; t = tl row in
      if p = CHR '' '' then
        (if int (length src) < cursor \<or> src ! nat (cursor - 1) \<noteq> t then Inl (mismatch cursor)
         else apply_rows src rows (cursor + 1) (out @ [t]))
      else if p = CHR ''-'' then
        (if int (length src) < cursor \<or> src ! nat (cursor - 1) \<noteq> t then Inl (mismatch cursor)
         else apply_rows src rows (cursor + 1) out)
      else if p = CHR ''+'' then apply_rows src rows cursor (out @ [t])
      else apply_rows src rows cursor out)"

fun apply_hunks :: "string list \<Rightarrow> nat \<Rightarrow> diff_hunk list \<Rightarrow> int \<Rightarrow> string list \<Rightarrow> string + string list" where
  "apply_hunks src idx [] cursor out = Inr (out @ copy_lines src cursor (int (length src) + 1))"
| "apply_hunks src idx (h # hs) cursor out =
     (let target = (if dh_oldStart h = 0 \<and> dh_oldCount h = 0 then 1 else dh_oldStart h) in
      if target \<le> 0 then Inl (''hunk start out of bounds at old line '' @ itoa (dh_oldStart h))
      else if target < cursor then Inl (''hunks out of order or overlapping at hunk '' @ itoa (int idx + 1))
      else if int (length src) + 1 < target then Inl (''hunk start out of bounds at old line '' @ itoa (dh_oldStart h))
      else (case apply_rows src (dh_lines h) target (out @ copy_lines src cursor target) of
          Inl e \<Rightarrow> Inl e
        | Inr (cursor', out') \<Rightarrow> apply_hunks src (idx + 1) hs cursor' out'))"

definition applyUnifiedDiff :: "string \<Rightarrow> diff_hunk list \<Rightarrow> string + (string \<times> int)" where
  "applyUnifiedDiff content hunks =
    (case splitFileLines content of
       (src, trailing) \<Rightarrow>
         (case apply_hunks src 0 hunks 1 [] of
            Inl e \<Rightarrow> Inl e
          | Inr out \<Rightarrow> Inr (join_with lf out @ (if trailing then lf else []), int (length hunks))))"

section \<open>The three modes\<close>

text \<open>strings.Replace for one occurrence\<close>

definition replace_once :: "string \<Rightarrow> string \<Rightarrow> string \<Rightarrow> string" where
  "replace_once old new s =
    (case index_of old s of None \<Rightarrow> s | Some i \<Rightarrow> take i s @ new @ drop (i + length old) s)"

type_synonym edit_result = "string + (string \<times> (string, json) gmap)"

definition edit_info :: "int option \<Rightarrow> string \<Rightarrow> (string, json) gmap" where
  "edit_info applied mode = mput_all
    ([(''updated'', JBool True), (''mode'', JStr mode)] @
     (case applied of None \<Rightarrow> [] | Some n \<Rightarrow> [(''applied_edits'', JNum (itoa n))])) mempty"

definition handleReplaceMode :: "string \<Rightarrow> (string, json) gmap \<Rightarrow> edit_result" where
  "handleReplaceMode content args =
    (case mget args ''old'' of
       None \<Rightarrow> Inl ''missing argument: old''
     | Some (JStr oldS) \<Rightarrow>
       (case getString args ''new'' of
          Inl e \<Rightarrow> Inl e
        | Inr newS \<Rightarrow>
          (let updated = replace_once oldS newS content in
           if updated = content then Inl ''edit pattern not found'' else Inr (updated, edit_info None ''replace_once'')))
     | Some _ \<Rightarrow> Inl ''old must be string'')"

definition handleUnifiedDiffMode :: "string \<Rightarrow> (string, json) gmap \<Rightarrow> edit_result" where
  "handleUnifiedDiffMode content args =
    (case getString args ''patch'' of
       Inl e \<Rightarrow> Inl e
     | Inr patch \<Rightarrow>
       if trim_space patch = [] then Inl ''patch must not be empty''
       else (case parseUnifiedDiff patch of
           Inl e \<Rightarrow> Inl e
         | Inr hunks \<Rightarrow>
           (case applyUnifiedDiff content hunks of
              Inl e \<Rightarrow> Inl e
            | Inr (updated, applied) \<Rightarrow> Inr (updated, edit_info (Some applied) ''unified_diff''))))"

definition handleLineEditsMode :: "string \<Rightarrow> (string, json) gmap \<Rightarrow> edit_result" where
  "handleLineEditsMode content args =
    (case mget args ''edits'' of
       None \<Rightarrow> Inl ''missing argument: edits''
     | Some raw \<Rightarrow>
       (case parseLineEdits raw of
          Inl e \<Rightarrow> Inl e
        | Inr edits \<Rightarrow>
          (case applyLineEdits content edits of
             Inl e \<Rightarrow> Inl e
           | Inr (updated, applied) \<Rightarrow> Inr (updated, edit_info (Some applied) ''line_patch''))))"

lemma edit_examples:
  "parse_header ''@@ -3,0 +4,12 @@ fun'' = Some \<lparr>dh_oldStart = 3, dh_oldCount = 0, dh_newStart = 4, dh_newCount = 12, dh_lines = []\<rparr>"
  "parse_header ''@@ -3 +4 @'' = None"
  "replace_once ''ab'' ''x'' ''cabab'' = ''cxab''"
  "applyLineEdits (join_with lf [''a'', ''b'', ''c'']) [\<lparr>le_startLine = 2, le_endLine = 2, le_newText = ''x'' @ lf @ ''y''\<rparr>]
     = Inr (join_with lf [''a'', ''x'', ''y'', ''c''], 1)"
  by code_simp+

end
