(* ===== verification/Tool_Parse.thy ===== *)
theory Tool_Parse
  imports Go_Json
begin

text \<open>
  The parser of tool calls in a model's reply (internal/toolparse/parser.go): canonical tool
  names, the allowlist check, the search for candidate JSON texts (fenced blocks first, then
  balanced JSON in the rest), the repair of slightly broken JSON, and the checks each call object
  passes. The regular expression of the fences is the hand-written scan \<open>scan_fences\<close>. Rejection
  reasons are constructors; the texts that embed the decoder's own message carry none of it.
\<close>

section \<open>Tool names\<close>

definition toolAliases :: "(string \<times> string) list" where
  "toolAliases =
    [(''fs.read'', ''fs.read''),
     (''fs.list'', ''fs.list''),
     (''fs.write'', ''fs.write''),
     (''fs.append'', ''fs.append''),
     (''fs.delete'', ''fs.delete''),
     (''fs.move'', ''fs.move''),
     (''fs.rename'', ''fs.move''),
     (''fs.edit'', ''fs.edit''),
     (''fs.mkdir'', ''fs.mkdir''),
     (''code.search'', ''code.search''),
     (''config.get'', ''config.get''),
     (''config.set'', ''config.set''),
     (''secrets.set'', ''secrets.set''),
     (''secrets.list'', ''secrets.list''),
     (''skill.list'', ''skill.list''),
     (''skill.read'', ''skill.read''),
     (''skill.get'', ''skill.read''),
     (''scheduler.list'', ''scheduler.list''),
     (''scheduler.add'', ''scheduler.add''),
     (''scheduler.remove'', ''scheduler.remove''),
     (''scheduler.pause'', ''scheduler.pause''),
     (''scheduler.resume'', ''scheduler.resume''),
     (''session.list'', ''session.list''),
     (''session.close'', ''session.close''),
     (''agent.list'', ''agent.list''),
     (''agent.create'', ''agent.create''),
     (''agent.switch'', ''agent.switch''),
     (''agent.profile.get'', ''agent.profile.get''),
     (''agent.profile.set'', ''agent.profile.set''),
     (''agent.message.send'', ''agent.message.send''),
     (''agent.message.inbox'', ''agent.message.inbox''),
     (''agent.run'', ''agent.run''),
     (''agent.prompt.read'', ''agent.prompt.read''),
     (''agent.prompt.update'', ''agent.prompt.update''),
     (''agent.prompt.suggest'', ''agent.prompt.suggest''),
     (''agent.identity.set'', ''agent.identity.set''),
     (''policy.list'', ''policy.list''),
     (''policy.grant'', ''policy.grant''),
     (''policy.revoke'', ''policy.revoke''),
     (''run.list'', ''run.list''),
     (''run.get'', ''run.get''),
     (''run.cancel'', ''run.cancel''),
     (''metrics.get'', ''metrics.get''),
     (''memory.search'', ''memory.search''),
     (''memory.write'', ''memory.write''),
     (''memory.update'', ''memory.update''),
     (''memory.forget'', ''memory.forget''),
     (''memory.health'', ''memory.health''),
     (''memory.checkpoint'', ''memory.checkpoint''),
     (''memory.maintenance'', ''memory.maintenance''),
     (''decision.log'', ''decision.log''),
     (''http.request'', ''http.request''),
     (''net.fetch'', ''http.request''),
     (''time.now'', ''time.now''),
     (''shell.exec'', ''shell.exec''),
     (''bash.exec'', ''shell.exec''),
     (''terminal.exec'', ''shell.exec''),
     (''terminal.run'', ''shell.exec''),
     (''becomussy.resume'', ''becomussy.resume''),
     (''becomussy.memory.create'', ''becomussy.memory.create''),
     (''becomussy.memory.search'', ''becomussy.memory.search''),
     (''becomussy.memory.get'', ''becomussy.memory.get''),
     (''becomussy.memory.reinforce'', ''becomussy.memory.reinforce''),
     (''becomussy.journal.create'', ''becomussy.journal.create''),
     (''becomussy.journal.search'', ''becomussy.journal.search''),
     (''becomussy.threads.list'', ''becomussy.threads.list''),
     (''becomussy.threads.create'', ''becomussy.threads.create''),
     (''becomussy.projects.list'', ''becomussy.projects.list''),
     (''becomussy.projects.create'', ''becomussy.projects.create''),
     (''becomussy.selfmodel.current'', ''becomussy.selfmodel.current''),
     (''becomussy.selfmodel.history'', ''becomussy.selfmodel.history''),
     (''becomussy.selfmodel.propose'', ''becomussy.selfmodel.propose''),
     (''becomussy.commitments.list'', ''becomussy.commitments.list''),
     (''becomussy.commitments.create'', ''becomussy.commitments.create''),
     (''becomussy.approvals.pending'', ''becomussy.approvals.pending''),
     (''becomussy.audit.list'', ''becomussy.audit.list''),
     (''continuity.resume'', ''becomussy.resume''),
     (''becomussy.memory.store'', ''becomussy.memory.create''),
     (''becomussy.journal.write'', ''becomussy.journal.create''),
     (''becomussy.reflect'', ''becomussy.journal.create'')]"

definition canonicalToolName :: "string \<Rightarrow> string option" where
  "canonicalToolName name =
    (let candidate = to_lower (trim_space name) in
     if candidate = [] then None
     else case map_of toolAliases candidate of
        Some toolName \<Rightarrow> Some toolName
      | None \<Rightarrow>
          if contains candidate ''__'' then map_of toolAliases (replace_all ''__'' ''.'' candidate)
          else None)"

definition isAllowed :: "string \<Rightarrow> string list \<Rightarrow> bool" where
  "isAllowed toolName allowed =
    (if trim_space toolName = [] \<or> toolName = ''tool.result'' then False
     else if allowed = [] then True
     else list_ex (\<lambda>raw. (case canonicalToolName raw of Some c \<Rightarrow> c
                         | None \<Rightarrow> to_lower (trim_space raw)) = toolName) allowed)"

section \<open>Calls and extractions\<close>

record tool_call =
  tc_id :: string
  tc_name :: string
  tc_arguments :: string

datatype reject_reason =
    NoReason
  | EmptyCandidate
  | InvalidJson
  | InvalidJsonRepairFailed
  | EmptyToolCallArray
  | ElementNotObject nat
  | NotObjectOrArray
  | MissingToolName
  | InvalidToolName
  | UnsupportedToolName
  | OutputOnly
  | ToolNotAllowed string
  | MissingArguments
  | ArgumentsNotObject
  | BadId

record extraction =
  ex_raw :: string
  ex_tool :: string
  ex_args :: string
  ex_accepted :: bool
  ex_reason :: reject_reason

definition rejected :: "string \<Rightarrow> reject_reason \<Rightarrow> extraction" where
  "rejected raw reason =
     \<lparr>ex_raw = raw, ex_tool = [], ex_args = [], ex_accepted = False, ex_reason = reason\<rparr>"

section \<open>Candidates\<close>

text \<open>The white space of a Go regular expression's backslash-s.\<close>

definition is_re_space :: "char \<Rightarrow> bool" where
  "is_re_space c = (c = CHR 0x09 \<or> c = CHR 0x0A \<or> c = CHR 0x0C \<or> c = CHR 0x0D \<or> c = CHR 0x20)"

text \<open>
  A fenced block at the front of \<open>s\<close>: its whole text, its inner text and the rest. The opening
  is three backquotes and json or tool in any letter case, white space is skipped, and the
  block ends at the next three backquotes.
\<close>

definition fence_at :: "string \<Rightarrow> (string \<times> string \<times> string) option" where
  "fence_at s =
    (if prefix ''```'' s \<and> (prefix ''json'' (to_lower (drop 3 s)) \<or> prefix ''tool'' (to_lower (drop 3 s)))
     then (let body = dropWhile is_re_space (drop 7 s) in
       case index_of ''```'' body of None \<Rightarrow> None
       | Some i \<Rightarrow> Some (take (length s - length body + i + 3) s, take i body, drop (i + 3) body))
     else None)"

lemma fence_at_shorter: "fence_at s = Some (w, b, r) \<Longrightarrow> length r < length s"
proof -
  assume f: "fence_at s = Some (w, b, r)"
  then have p: "prefix ''```'' s" by (auto simp: fence_at_def split: if_splits)
  have "length r \<le> length (dropWhile is_re_space (drop 7 s))"
    using f by (auto simp: fence_at_def Let_def split: if_splits option.splits)
  also have "\<dots> \<le> length (drop 7 s)" by (rule length_dropWhile_le)
  finally show ?thesis using prefix_length_le [OF p] by simp
qed

text \<open>All fenced blocks from left to right, and the text with each replaced by a blank.\<close>

function scan_fences :: "string \<Rightarrow> (string \<times> string) list \<times> string" where
  "scan_fences s =
    (case fence_at s of
       Some (w, b, r) \<Rightarrow> (let (ms, t) = scan_fences r in ((w, b) # ms, CHR '' '' # t))
     | None \<Rightarrow> (case s of [] \<Rightarrow> ([], [])
                | c # s' \<Rightarrow> (let (ms, t) = scan_fences s' in (ms, c # t))))"
  by pat_completeness auto
termination
  by (relation "measure length") (auto dest: fence_at_shorter)

declare scan_fences.simps [simp del]

definition maxJSONNestingDepth :: nat where
  "maxJSONNestingDepth = 64"

record scan_state =
  sc_start :: "nat option"
  sc_stack :: "char list"
  sc_inString :: bool
  sc_escaped :: bool
  sc_found :: "string list"

definition scan_init :: scan_state where
  "scan_init = \<lparr>sc_start = None, sc_stack = [], sc_inString = False, sc_escaped = False, sc_found = []\<rparr>"

text \<open>The stack's top is the head of the list here.\<close>

definition closes :: "char \<Rightarrow> char \<Rightarrow> bool" where
  "closes ch lst = (ch = CHR 0x7D \<and> lst = CHR 0x7B \<or> ch = CHR '']'' \<and> lst = CHR ''['')"

definition is_open :: "char \<Rightarrow> bool" where
  "is_open c = (c = CHR 0x7B \<or> c = CHR ''['')"

definition is_close :: "char \<Rightarrow> bool" where
  "is_close c = (c = CHR 0x7D \<or> c = CHR '']'')"

definition scan_step :: "string \<Rightarrow> nat \<Rightarrow> char \<Rightarrow> scan_state \<Rightarrow> scan_state" where
  "scan_step content i r st =
    (if sc_inString st then
       (if sc_escaped st then st\<lparr>sc_escaped := False\<rparr>
        else if r = CHR 0x5C then st\<lparr>sc_escaped := True\<rparr>
        else if r = CHR 0x22 then st\<lparr>sc_inString := False\<rparr>
        else st)
     else if r = CHR 0x22 then st\<lparr>sc_inString := True\<rparr>
     else if is_open r then
       (let st = (if sc_stack st = [] then st\<lparr>sc_start := Some i\<rparr> else st);
            st = st\<lparr>sc_stack := r # sc_stack st\<rparr>
        in if maxJSONNestingDepth < length (sc_stack st)
           then st\<lparr>sc_stack := [], sc_start := None, sc_inString := False, sc_escaped := False\<rparr>
           else st)
     else if is_close r then
       (case sc_stack st of [] \<Rightarrow> st
        | lst # rest \<Rightarrow>
          if closes r lst then
            (case sc_start st of
               Some s \<Rightarrow> if rest = []
                 then st\<lparr>sc_stack := rest, sc_start := None,
                    sc_found := sc_found st @ [trim_space (drop s (take (Suc i) content))]\<rparr>
                 else st\<lparr>sc_stack := rest\<rparr>
             | None \<Rightarrow> st\<lparr>sc_stack := rest\<rparr>)
          else st\<lparr>sc_stack := [], sc_start := None\<rparr>)
     else st)"

fun scan_from :: "string \<Rightarrow> nat \<Rightarrow> string \<Rightarrow> scan_state \<Rightarrow> scan_state" where
  "scan_from content i [] st = st"
| "scan_from content i (c # cs) st = scan_from content (Suc i) cs (scan_step content i c st)"

definition extractBalancedJSONCandidates :: "string \<Rightarrow> string list" where
  "extractBalancedJSONCandidates content =
    (if trim_space content = [] then [] else sc_found (scan_from content 0 content scan_init))"

text \<open>A candidate is its raw snippet and its JSON text.\<close>

definition collectCandidates :: "string \<Rightarrow> (string \<times> string) list" where
  "collectCandidates content =
    (let (matches, withoutFences) = scan_fences content in
     map (\<lambda>(w, b). (trim_space w, trim_space b)) matches @
     map (\<lambda>c. (c, c)) (filter (\<lambda>c. c \<noteq> []) (map trim_space (extractBalancedJSONCandidates withoutFences))))"

section \<open>Repair\<close>

fun strip_commas :: "bool \<Rightarrow> bool \<Rightarrow> string \<Rightarrow> string" where
  "strip_commas inString escaped [] = []"
| "strip_commas inString escaped (ch # rest) =
    (if inString then
       (if escaped then ch # strip_commas True False rest
        else if ch = CHR 0x5C then ch # strip_commas True True rest
        else if ch = CHR 0x22 then ch # strip_commas False False rest
        else ch # strip_commas True False rest)
     else if ch = CHR 0x22 then ch # strip_commas True escaped rest
     else if ch = CHR '','' \<and>
        (case dropWhile is_json_ws rest of [] \<Rightarrow> False | d # _ \<Rightarrow> is_close d)
       then strip_commas False escaped rest
     else ch # strip_commas False escaped rest)"

definition stripTrailingCommas :: "string \<Rightarrow> string" where
  "stripTrailingCommas text = strip_commas False False text"

text \<open>What is open at the end of a text: the open brackets, innermost first, and whether a string is.\<close>

fun open_delims :: "bool \<Rightarrow> bool \<Rightarrow> char list \<Rightarrow> string \<Rightarrow> char list \<times> bool" where
  "open_delims inString escaped stack [] = (stack, inString)"
| "open_delims inString escaped stack (ch # rest) =
    (if inString then
       (if escaped then open_delims True False stack rest
        else if ch = CHR 0x5C then open_delims True True stack rest
        else if ch = CHR 0x22 then open_delims False escaped stack rest
        else open_delims True escaped stack rest)
     else if ch = CHR 0x22 then open_delims True escaped stack rest
     else if is_open ch then open_delims False escaped (ch # stack) rest
     else if is_close ch then
       (case stack of [] \<Rightarrow> open_delims False escaped stack rest
        | lst # below \<Rightarrow> open_delims False escaped (if closes ch lst then below else stack) rest)
     else open_delims False escaped stack rest)"

definition closer :: "char \<Rightarrow> string" where
  "closer c = (if c = CHR 0x7B then [CHR 0x7D] else if c = CHR ''['' then '']'' else [])"

definition closeOpenDelimiters :: "string \<Rightarrow> string" where
  "closeOpenDelimiters text =
    (case trim_space text of [] \<Rightarrow> text
     | c # _ \<Rightarrow> if \<not> is_open c then text
         else (let (stack, inString) = open_delims False False [] text
               in text @ (if inString then [CHR 0x22] else []) @ concat (map closer stack)))"

definition trim_suffix :: "string \<Rightarrow> string \<Rightarrow> string" where
  "trim_suffix s sfx = (if suffix sfx s then take (length s - length sfx) s else s)"

definition unwrapFence :: "string \<Rightarrow> string" where
  "unwrapFence text =
    (let trimmed = trim_space text in
     if \<not> prefix ''```'' trimmed \<or> \<not> suffix ''```'' trimmed then trimmed
     else case index_of [CHR 0x0A] trimmed of None \<Rightarrow> trimmed
      | Some firstNewline \<Rightarrow>
        (let body = trim_space (drop (Suc firstNewline) trimmed)
         in if \<not> suffix ''```'' body then trimmed
            else trim_space (trim_suffix body ''```'')))"

definition extractSingleTopLevelJSON :: "string \<Rightarrow> string option" where
  "extractSingleTopLevelJSON text =
    (case extractBalancedJSONCandidates text of [c] \<Rightarrow> Some (trim_space c) | _ \<Rightarrow> None)"

definition repairJSONText :: "string \<Rightarrow> string" where
  "repairJSONText text =
    (let repaired = trim_space text in
     if repaired = [] then []
     else (let repaired = unwrapFence repaired;
               repaired = (case extractSingleTopLevelJSON repaired of Some e \<Rightarrow> e | None \<Rightarrow> repaired);
               repaired = stripTrailingCommas repaired;
               repaired = closeOpenDelimiters repaired
           in trim_space repaired))"

definition decodeJSONCandidate :: "string \<Rightarrow> reject_reason + json" where
  "decodeJSONCandidate jsonText =
    (case unmarshal jsonText of
       Some decoded \<Rightarrow> Inr decoded
     | None \<Rightarrow>
        (let repaired = repairJSONText jsonText in
         if repaired = [] \<or> repaired = jsonText then Inl InvalidJson
         else case unmarshal repaired of
            None \<Rightarrow> Inl InvalidJsonRepairFailed
          | Some decoded \<Rightarrow> Inr decoded))"

section \<open>Call objects\<close>

text \<open>\<open>nextID\<close> is threaded through; the result is the id or the refusal, and the next number.\<close>

definition parseCallID :: "(string, json) gmap \<Rightarrow> int \<Rightarrow> string option \<times> int" where
  "parseCallID obj nextID =
    (case mget obj ''id'' of
       Some rawID \<Rightarrow>
         (case as_string rawID of
            None \<Rightarrow> (None, nextID)
          | Some i \<Rightarrow> if trim_space i = [] then (None, nextID) else (Some (trim_space i), nextID))
     | None \<Rightarrow> (Some (''tool-json-'' @ itoa nextID), nextID + 1))"

definition parseToolObject ::
    "string \<Rightarrow> (string, json) gmap \<Rightarrow> string list \<Rightarrow> int \<Rightarrow> (extraction \<times> tool_call option) \<times> int" where
  "parseToolObject rawSnippet obj allowedTools nextID =
    (let entry = rejected (trim_space rawSnippet) NoReason in
     case mget obj ''tool_name'' of
       None \<Rightarrow> ((entry\<lparr>ex_reason := MissingToolName\<rparr>, None), nextID)
     | Some rawName \<Rightarrow>
       (case as_string rawName of
          None \<Rightarrow> ((entry\<lparr>ex_reason := InvalidToolName\<rparr>, None), nextID)
        | Some toolNameInput \<Rightarrow>
          (case canonicalToolName toolNameInput of
             None \<Rightarrow> ((entry\<lparr>ex_tool := trim_space toolNameInput, ex_reason := UnsupportedToolName\<rparr>, None), nextID)
           | Some toolName \<Rightarrow>
             if toolName = [] then
               ((entry\<lparr>ex_tool := trim_space toolNameInput, ex_reason := UnsupportedToolName\<rparr>, None), nextID)
             else
             (let entry = entry\<lparr>ex_tool := toolName\<rparr> in
              if toolName = ''tool.result'' then ((entry\<lparr>ex_reason := OutputOnly\<rparr>, None), nextID)
              else if \<not> isAllowed toolName allowedTools then
                ((entry\<lparr>ex_reason := ToolNotAllowed toolName\<rparr>, None), nextID)
              else case mget obj ''arguments'' of
                None \<Rightarrow> ((entry\<lparr>ex_reason := MissingArguments\<rparr>, None), nextID)
              | Some argsValue \<Rightarrow>
                (case as_object argsValue of
                   None \<Rightarrow> ((entry\<lparr>ex_reason := ArgumentsNotObject\<rparr>, None), nextID)
                 | Some typedArgs \<Rightarrow>
                   (let argBytes = marshal (JObj typedArgs) in
                    case parseCallID obj nextID of
                      (None, nextID) \<Rightarrow> ((entry\<lparr>ex_reason := BadId\<rparr>, None), nextID)
                    | (Some callID, nextID) \<Rightarrow>
                      ((entry\<lparr>ex_args := argBytes, ex_accepted := True\<rparr>,
                        Some \<lparr>tc_id = callID, tc_name = toolName, tc_arguments = argBytes\<rparr>), nextID)))))))"

fun parse_items ::
    "nat \<Rightarrow> json list \<Rightarrow> string list \<Rightarrow> int \<Rightarrow> (extraction list \<times> tool_call list) \<times> int" where
  "parse_items i [] allowedTools nextID = (([], []), nextID)"
| "parse_items i (item # items) allowedTools nextID =
    (let ((entry, call), nextID) =
        (case as_object item of
           None \<Rightarrow> ((rejected (marshal item) (ElementNotObject (Suc i)), None), nextID)
         | Some obj \<Rightarrow> parseToolObject (marshal item) obj allowedTools nextID);
         ((entries, calls), nextID) = parse_items (Suc i) items allowedTools nextID
     in ((entry # entries, (case call of None \<Rightarrow> calls | Some c \<Rightarrow> c # calls)), nextID))"

definition parseCandidateBlock ::
    "string \<times> string \<Rightarrow> string list \<Rightarrow> int \<Rightarrow> (extraction list \<times> tool_call list) \<times> int" where
  "parseCandidateBlock candidate allowedTools nextID =
    (let rawSnippet = trim_space (fst candidate);
         jsonText = trim_space (snd candidate);
         rawSnippet = (if rawSnippet = [] then jsonText else rawSnippet)
     in if jsonText = [] then (([rejected rawSnippet EmptyCandidate], []), nextID)
        else case decodeJSONCandidate jsonText of
          Inl reason \<Rightarrow> (([rejected rawSnippet reason], []), nextID)
        | Inr (JObj value) \<Rightarrow>
            (let ((entry, call), nextID) = parseToolObject rawSnippet value allowedTools nextID
             in (([entry], (case call of None \<Rightarrow> [] | Some c \<Rightarrow> [c])), nextID))
        | Inr (JArr value) \<Rightarrow>
            if value = [] then (([rejected rawSnippet EmptyToolCallArray], []), nextID)
            else parse_items 0 value allowedTools nextID
        | Inr _ \<Rightarrow> (([rejected rawSnippet NotObjectOrArray], []), nextID))"

fun parse_blocks ::
    "(string \<times> string) list \<Rightarrow> string list \<Rightarrow> int \<Rightarrow> extraction list \<times> tool_call list" where
  "parse_blocks [] allowedTools nextID = ([], [])"
| "parse_blocks (candidate # candidates) allowedTools nextID =
    (let ((entries, parsedCalls), nextID) = parseCandidateBlock candidate allowedTools nextID;
         (entries', calls') = parse_blocks candidates allowedTools nextID
     in (entries @ entries', parsedCalls @ calls'))"

record parse_diagnostics =
  pd_candidates :: "extraction list"
  pd_rejected :: "extraction list"

definition parseToolCallsMax ::
    "string \<Rightarrow> string list \<Rightarrow> int \<Rightarrow> tool_call list \<times> parse_diagnostics" where
  "parseToolCallsMax content allowedTools maxCalls =
    (let maxCalls = (if maxCalls \<le> 0 then 1 else maxCalls);
         (entries, calls) = parse_blocks (collectCandidates content) allowedTools 1
     in (take (nat maxCalls) calls,
         \<lparr>pd_candidates = entries, pd_rejected = filter (\<lambda>e. \<not> ex_accepted e) entries\<rparr>))"

definition defaultMaxToolCallsPerReply :: int where
  "defaultMaxToolCallsPerReply = 6"

definition parseToolCalls :: "string \<Rightarrow> string list \<Rightarrow> tool_call list \<times> parse_diagnostics" where
  "parseToolCalls text allowedTools = parseToolCallsMax text allowedTools defaultMaxToolCallsPerReply"

definition parseStrict :: "string \<Rightarrow> string list \<Rightarrow> int \<Rightarrow> tool_call list \<times> extraction list" where
  "parseStrict content allowedTools maxCalls =
    (let maxCalls = (if maxCalls \<le> 0 then 1 else maxCalls);
         (calls, diag) = parseToolCallsMax content allowedTools maxCalls
     in (calls, pd_candidates diag))"

section \<open>Names are canonical\<close>

definition name_char :: "char \<Rightarrow> bool" where
  "name_char c = (c \<in> set ''abcdefghijklmnopqrstuvwxyz._'')"

lemma alias_targets_self:
  "list_all (\<lambda>p. map_of toolAliases (snd p) = Some (snd p)) toolAliases"
  by code_simp

lemma alias_targets_plain:
  "list_all (\<lambda>p. list_all name_char (snd p) \<and> snd p \<noteq> []) toolAliases"
  by code_simp

lemma name_chars_no_space: "name_char c \<Longrightarrow> prefix w (c # s) \<Longrightarrow> w \<in> set space_bytes \<Longrightarrow> False"
  by (auto simp: space_bytes_def name_char_def)

lemma name_chars_no_space_rev:
  "name_char c \<Longrightarrow> prefix w (c # s) \<Longrightarrow> w \<in> set (map rev space_bytes) \<Longrightarrow> False"
  by (auto simp: space_bytes_def name_char_def)

lemma lead_seq_name:
  "list_all name_char s \<Longrightarrow> lead_seq space_bytes s = 0"
  "list_all name_char s \<Longrightarrow> lead_seq (map rev space_bytes) s = 0"
proof -
  assume s: "list_all name_char s"
  have "\<not> prefix w s" if w: "w \<in> set space_bytes \<union> set (map rev space_bytes)" for w
  proof (cases s)
    case Nil
    with w no_empty_space show ?thesis by auto
  next
    case (Cons c t)
    with w s name_chars_no_space [of c w t] name_chars_no_space_rev [of c w t] show ?thesis by auto
  qed
  then have "find (\<lambda>w. prefix w s) space_bytes = None" "find (\<lambda>w. prefix w s) (map rev space_bytes) = None"
    unfolding find_None_iff by auto
  then show "lead_seq space_bytes s = 0" "lead_seq (map rev space_bytes) s = 0"
    by (simp_all add: lead_seq_def)
qed

lemma trim_name: "list_all name_char s \<Longrightarrow> trim_space s = s"
  by (rule trim_space_trim_left_space) (simp_all add: lead_seq_name list_all_rev)

lemma lower_name: "list_all name_char s \<Longrightarrow> to_lower s = s"
proof -
  have "lower_char c = c" if "name_char c" for c
    using that by (auto simp: name_char_def lower_char_def)
  then show "list_all name_char s \<Longrightarrow> to_lower s = s"
    by (simp add: to_lower_def list_all_iff map_idI)
qed

lemma canonical_alias:
  assumes "canonicalToolName n = Some c"
  shows "map_of toolAliases c = Some c \<and> list_all name_char c \<and> c \<noteq> []"
proof -
  from assms obtain k where "map_of toolAliases k = Some c"
    by (auto simp: canonicalToolName_def Let_def split: if_splits option.splits)
  then have "(k, c) \<in> set toolAliases" by (rule map_of_SomeD)
  with alias_targets_self alias_targets_plain show ?thesis
    by (force simp: list_all_iff)
qed

lemma canonical_idem: "canonicalToolName n = Some c \<Longrightarrow> canonicalToolName c = Some c"
  using canonical_alias [of n c] by (auto simp: canonicalToolName_def trim_name lower_name)

text \<open>Spelling variants do not matter: white space around a name and its letter case.\<close>

lemma canonical_lower_trim: "canonicalToolName (to_lower (trim_space n)) = canonicalToolName n"
  by (simp add: canonicalToolName_def trim_space_to_lower)

section \<open>What a parsed call satisfies\<close>

definition call_ok :: "string list \<Rightarrow> tool_call \<Rightarrow> bool" where
  "call_ok allowed c \<longleftrightarrow>
     isAllowed (tc_name c) allowed \<and> canonicalToolName (tc_name c) = Some (tc_name c) \<and>
     (\<exists>args. tc_arguments c = marshal (JObj args)) \<and> tc_id c \<noteq> []"

lemma parseCallID_nonempty: "parseCallID obj n = (Some i, n') \<Longrightarrow> i \<noteq> []"
  by (auto simp: parseCallID_def split: option.splits if_splits)

lemma parseToolObject_ok:
  "parseToolObject raw obj allowed n = ((e, Some c), n') \<Longrightarrow> call_ok allowed c \<and> ex_accepted e"
  by (auto simp: parseToolObject_def Let_def call_ok_def
      split: option.splits if_splits prod.splits dest: canonical_idem parseCallID_nonempty)

lemma parse_items_ok:
  "parse_items i items allowed n = ((es, cs), n') \<Longrightarrow> c \<in> set cs \<Longrightarrow> call_ok allowed c"
proof (induction i items allowed n arbitrary: es cs n' rule: parse_items.induct)
  case (1 i allowed n)
  then show ?case by simp
next
  case (2 i item items allowed n)
  obtain e co n1 where a: "(case as_object item of
           None \<Rightarrow> ((rejected (marshal item) (ElementNotObject (Suc i)), None), n)
         | Some obj \<Rightarrow> parseToolObject (marshal item) obj allowed n) = ((e, co), n1)"
    by (metis prod.exhaust)
  obtain es' cs' n2 where b: "parse_items (Suc i) items allowed n1 = ((es', cs'), n2)"
    by (metis prod.exhaust)
  have cs: "cs = (case co of None \<Rightarrow> cs' | Some c \<Rightarrow> c # cs')" using 2(2) a b by simp
  show ?case
  proof (cases "c \<in> set cs'")
    case True
    show ?thesis by (rule 2(1) [OF a [symmetric] refl refl b True])
  next
    case False
    with cs 2(3) have "co = Some c" by (auto split: option.splits)
    with a show ?thesis by (auto split: option.splits dest: parseToolObject_ok)
  qed
qed

lemma parseCandidateBlock_ok:
  "parseCandidateBlock cand allowed n = ((es, cs), n') \<Longrightarrow> c \<in> set cs \<Longrightarrow> call_ok allowed c"
  by (auto simp: parseCandidateBlock_def Let_def dest: parseToolObject_ok parse_items_ok
      split: if_splits sum.splits json.splits prod.splits option.splits)

lemma parse_blocks_ok:
  "parse_blocks cands allowed n = (es, cs) \<Longrightarrow> c \<in> set cs \<Longrightarrow> call_ok allowed c"
  by (induction cands arbitrary: n es cs)
    (fastforce split: prod.splits dest: parseCandidateBlock_ok)+

text \<open>
  C3: Whatever text a model produces, every tool call the parser returns has a tool name that is
  allowed by the agent's list and is its own canonical name (never tool.result), its arguments are
  the encoding of a JSON object, its id is not empty, and there are at most maxCalls of them (one,
  when maxCalls is not positive).
\<close>

theorem parsed_calls_admissible:
  "(\<forall>c \<in> set (fst (parseToolCallsMax content allowed maxCalls)).
      isAllowed (tc_name c) allowed \<and> canonicalToolName (tc_name c) = Some (tc_name c) \<and>
      tc_name c \<noteq> ''tool.result'' \<and> (\<exists>args. tc_arguments c = marshal (JObj args)) \<and> tc_id c \<noteq> []) \<and>
   int (length (fst (parseToolCallsMax content allowed maxCalls))) \<le> max 1 maxCalls"
proof (intro conjI ballI)
  fix c
  assume "c \<in> set (fst (parseToolCallsMax content allowed maxCalls))"
  then have ok: "call_ok allowed c"
    by (auto simp: parseToolCallsMax_def Let_def split: prod.splits
        dest: in_set_takeD parse_blocks_ok)
  then show "isAllowed (tc_name c) allowed" "canonicalToolName (tc_name c) = Some (tc_name c)"
    "\<exists>args. tc_arguments c = marshal (JObj args)" "tc_id c \<noteq> []"
    by (simp_all add: call_ok_def)
  then show "tc_name c \<noteq> ''tool.result''" by (auto simp: isAllowed_def)
next
  show "int (length (fst (parseToolCallsMax content allowed maxCalls))) \<le> max 1 maxCalls"
    by (auto simp: parseToolCallsMax_def Let_def split: prod.splits)
qed

theorem parsed_calls_admissible_witness:
  "map tc_name (fst (parseToolCallsMax
      ''[{\"tool_name\":\" Time__Now\",\"arguments\":{}},{\"tool_name\":\"shell.exec\",\"arguments\":{}}]''
      [''time.now''] 3)) = [''time.now''] \<and>
   \<not> isAllowed ''shell.exec'' [''time.now''] \<and> isAllowed ''time.now'' [''time.now'']"
proof -
  let ?cs = "fst (parseToolCallsMax
      ''[{\"tool_name\":\" Time__Now\",\"arguments\":{}},{\"tool_name\":\"shell.exec\",\"arguments\":{}}]''
      [''time.now''] 3)"
  have cs: "map tc_name ?cs = [''time.now'']" by code_simp
  then obtain c where c: "c \<in> set ?cs" "tc_name c = ''time.now''" by auto
  have "isAllowed ''time.now'' [''time.now'']"
    using bspec [OF conjunct1 [OF parsed_calls_admissible] c(1)] c(2) by simp
  moreover have "\<not> isAllowed ''shell.exec'' [''time.now'']" by code_simp
  ultimately show ?thesis using cs by simp
qed

end
