(* ===== verification/Policy.thy ===== *)
theory Policy
  imports Go_Path Tool_Parse
begin

text \<open>
  The policy of internal/policy: capabilities of agents (capability.go, grants.go) and the guard of
  workspace paths (pathguard.go). The file system is a snapshot given by a record of the functions
  the guard calls: filepath.Abs, filepath.EvalSymlinks, and whether os.Stat and os.Lstat find a path.
\<close>

section \<open>Capabilities\<close>

definition canonicalCapabilityTool :: "string \<Rightarrow> string" where
  "canonicalCapabilityTool tool =
    (let candidate = trim_space tool in
     if candidate = [] then []
     else case canonicalToolName candidate of Some c \<Rightarrow> c | None \<Rightarrow> to_lower candidate)"

record enforcer =
  en_workspace :: string
  en_capabilities :: "(string, (string, bool) gmap) gmap"

definition capability_set :: "string list \<Rightarrow> (string, bool) gmap" where
  "capability_set tools =
     mput_all (map (\<lambda>c. (c, True)) (filter (\<lambda>c. c \<noteq> []) (map canonicalCapabilityTool tools))) mempty"

definition newEnforcer :: "string \<Rightarrow> (string, string list) gmap \<Rightarrow> enforcer" where
  "newEnforcer workspace grants =
     \<lparr>en_workspace = workspace,
      en_capabilities = mput_all (map (\<lambda>(agent, tools). (agent, capability_set tools)) grants) mempty\<rparr>"

definition granted :: "(string, bool) gmap \<Rightarrow> string \<Rightarrow> bool" where
  "granted caps c = (mget caps c = Some True)"

text \<open>An error names the agent and the canonical tool.\<close>

definition checkTool :: "enforcer \<Rightarrow> string \<Rightarrow> string \<Rightarrow> (string \<times> string) option" where
  "checkTool e agentID tool =
    (let canonical = canonicalCapabilityTool tool in
     case mget (en_capabilities e) agentID of
       None \<Rightarrow> Some (agentID, canonical)
     | Some caps \<Rightarrow> if granted caps canonical then None else Some (agentID, canonical))"

definition hasCapability :: "enforcer \<Rightarrow> string \<Rightarrow> string \<Rightarrow> bool" where
  "hasCapability e agentID capability =
    (let canonical = canonicalCapabilityTool capability in
     if canonical = [] then False
     else case mget (en_capabilities e) agentID of None \<Rightarrow> False | Some caps \<Rightarrow> granted caps canonical)"

definition setCapabilities :: "string \<Rightarrow> string list \<Rightarrow> enforcer \<Rightarrow> enforcer" where
  "setCapabilities agentID capabilities e =
    (if trim_space agentID = [] then e
     else e\<lparr>en_capabilities := mput agentID (capability_set capabilities) (en_capabilities e)\<rparr>)"

definition listCapabilities :: "enforcer \<Rightarrow> string \<Rightarrow> string list" where
  "listCapabilities e agentID =
    (case mget (en_capabilities e) agentID of None \<Rightarrow> []
     | Some caps \<Rightarrow> sort (map fst (filter snd caps)))"

definition normalizeCapabilities :: "string list \<Rightarrow> string list" where
  "normalizeCapabilities capabilities =
     sort (mkeys (mput_all (map (\<lambda>c. (c, ())) (filter (\<lambda>c. c \<noteq> []) (map canonicalCapabilityTool capabilities))) mempty))"

text \<open>
  The agents of a grants document, read or written; Go ranges over them in any order, and when two
  ids trim to the same one the last in that order wins, so the order is an argument.
\<close>

definition clean_grants :: "(string list \<Rightarrow> string list) \<Rightarrow> (string, string list) gmap \<Rightarrow> (string, string list) gmap" where
  "clean_grants order agents =
    fold (\<lambda>agentID out.
        if trim_space agentID = [] then out
        else mput (trim_space agentID)
          (normalizeCapabilities (case mget agents agentID of Some cs \<Rightarrow> cs | None \<Rightarrow> [])) out)
      (order (mkeys agents)) mempty"

section \<open>Paths\<close>

definition to_slashes :: "string \<Rightarrow> string" where
  "to_slashes s = map (\<lambda>c. if c = CHR 0x5C then slash else c) s"

definition hasWindowsDrivePrefix :: "string \<Rightarrow> bool" where
  "hasWindowsDrivePrefix v =
    (2 \<le> length v \<and>
     (let n = of_char (v ! 0) :: nat in (97 \<le> n \<and> n \<le> 122) \<or> (65 \<le> n \<and> n \<le> 90)) \<and> v ! 1 = CHR '':'')"

text \<open>What follows the second slash of a share name: the third part of strings.SplitN.\<close>

definition third_part :: "string \<Rightarrow> string option" where
  "third_part rest =
    (case split_on slash rest of a # b # c # cs \<Rightarrow> Some (join_with [slash] (c # cs)) | _ \<Rightarrow> None)"

definition stripWindowsPathRoot :: "string \<Rightarrow> string" where
  "stripWindowsPathRoot v =
    (let t = trim_space v;
         t = (if prefix ''//?/'' t \<or> prefix ''//./'' t then drop 4 t else t);
         t = (if hasWindowsDrivePrefix t then drop 2 t else t)
     in if prefix ''//'' t
        then (case third_part (drop 2 t) of Some p \<Rightarrow> slash # p | None \<Rightarrow> [slash]) else t)"

definition hasTraversal :: "string \<Rightarrow> bool" where
  "hasTraversal targetPath =
    (let n = trim_space targetPath in
     if n = [] then False
     else
      (let n = stripWindowsPathRoot (to_slashes n); clean = path_clean n in
       clean = ''..'' \<or> prefix ''../'' clean \<or> ''..'' \<in> set (split_on slash n)))"

definition isAbsoluteTarget :: "string \<Rightarrow> bool" where
  "isAbsoluteTarget target =
    (let clean = trim_space target in
     if clean = [] then False
     else is_abs clean \<or>
       (let n = to_slashes clean in
        (hasWindowsDrivePrefix n \<and> 2 < length n \<and> n ! 2 = slash) \<or> prefix ''//'' n))"

definition isWindowsDriveRelative :: "string \<Rightarrow> bool" where
  "isWindowsDriveRelative target =
    (let n = to_slashes (trim_space target) in
     hasWindowsDrivePrefix n \<and> (length n = 2 \<or> n ! 2 \<noteq> slash))"

definition protectedControlFiles :: "string list" where
  "protectedControlFiles =
     [''config.json'', ''master.key'', ''secrets.enc'', ''SOUL.md'', ''RULES.md'', ''SPECPLAN.md'']"

text \<open>
  The two tests of a protected base name in the code's loop are the same test, so the second (below
  agents) never decides.
\<close>

definition isProtectedControlPath :: "string \<Rightarrow> bool" where
  "isProtectedControlPath absPath =
    (let parts = split_on slash absPath in
     list_ex (\<lambda>i. parts ! i = ''.openclawssy'' \<and>
       (length parts \<le> i + 1 \<or> path_base absPath \<in> set protectedControlFiles)) [0..<length parts])"

definition isWithinWorkspace :: "string \<Rightarrow> string \<Rightarrow> bool" where
  "isWithinWorkspace workspaceReal pathReal =
    (case path_rel workspaceReal pathReal of None \<Rightarrow> False
     | Some rel \<Rightarrow> if rel = ''.'' then True
         else if rel = ''..'' \<or> prefix ''../'' rel then False else \<not> is_abs rel)"

record file_system =
  fs_abs :: "string \<Rightarrow> string option"
  fs_eval :: "string \<Rightarrow> string option"
  fs_exists :: "string \<Rightarrow> bool"
  fs_lexists :: "string \<Rightarrow> bool"

datatype path_error = WorkspaceRequired | PathDenied string string | FileSystemError

definition target_error :: "string \<Rightarrow> string \<Rightarrow> path_error option" where
  "target_error workspace target =
    (if workspace = [] then Some WorkspaceRequired
     else if target = [] then Some (PathDenied target ''empty path'')
     else if isWindowsDriveRelative target then Some (PathDenied target ''invalid path'')
     else if hasTraversal target then Some (PathDenied target ''path traversal'')
     else None)"

definition real_workspace :: "file_system \<Rightarrow> string \<Rightarrow> string option" where
  "real_workspace fs workspace = (case fs_abs fs workspace of None \<Rightarrow> None | Some a \<Rightarrow> fs_eval fs a)"

definition target_abs :: "string \<Rightarrow> string \<Rightarrow> string" where
  "target_abs wsReal target =
     path_clean (if isAbsoluteTarget target then to_slashes target else path_join [wsReal, target])"

definition write_candidate :: "file_system \<Rightarrow> string \<Rightarrow> string option" where
  "write_candidate fs targetAbs =
    (case fs_eval fs (path_dir targetAbs) of None \<Rightarrow> None
     | Some parentReal \<Rightarrow>
       (let candidate = path_join [parentReal, path_base targetAbs] in
        if fs_lexists fs candidate
        then (case fs_eval fs candidate of Some p \<Rightarrow> Some p | None \<Rightarrow> Some candidate)
        else Some candidate))"

definition resolvePath :: "file_system \<Rightarrow> string \<Rightarrow> string \<Rightarrow> bool \<Rightarrow> path_error + string" where
  "resolvePath fs workspace target write =
    (case target_error workspace target of Some e \<Rightarrow> Inl e
     | None \<Rightarrow>
       (case real_workspace fs workspace of None \<Rightarrow> Inl FileSystemError
        | Some wsReal \<Rightarrow>
          (let targetAbs = target_abs wsReal target in
           case (if write then write_candidate fs targetAbs else fs_eval fs targetAbs) of
             None \<Rightarrow> Inl (PathDenied target (if write then ''write parent does not exist or is invalid''
                 else ''read path does not exist or is invalid''))
           | Some candidate \<Rightarrow>
             if \<not> isWithinWorkspace wsReal candidate then Inl (PathDenied target ''outside workspace'')
             else if write \<and> isProtectedControlPath candidate
             then Inl (PathDenied target ''protected control-plane path'')
             else Inr candidate)))"

text \<open>
  Walking up to the nearest existing ancestor. The code stops when a directory is its own parent;
  a clean path gets shorter with every step, so its length is enough fuel.
\<close>

fun existing_ancestor :: "file_system \<Rightarrow> nat \<Rightarrow> string \<Rightarrow> string option" where
  "existing_ancestor fs n p =
    (if fs_exists fs p then Some p
     else if path_dir p = p then None
     else case n of 0 \<Rightarrow> None | Suc n \<Rightarrow> existing_ancestor fs n (path_dir p))"

declare existing_ancestor.simps [simp del]

definition resolveMkdirPath :: "file_system \<Rightarrow> string \<Rightarrow> string \<Rightarrow> path_error + string" where
  "resolveMkdirPath fs workspace target =
    (case target_error workspace target of Some e \<Rightarrow> Inl e
     | None \<Rightarrow>
       (case real_workspace fs workspace of None \<Rightarrow> Inl FileSystemError
        | Some wsReal \<Rightarrow>
          (let targetAbs = target_abs wsReal target in
           case existing_ancestor fs (length targetAbs) targetAbs of
             None \<Rightarrow> Inl (PathDenied target ''no existing ancestor directory'')
           | Some ancestor \<Rightarrow>
             (case fs_eval fs ancestor of None \<Rightarrow> Inl (PathDenied target ''cannot resolve ancestor'')
              | Some ancestorReal \<Rightarrow>
                if \<not> isWithinWorkspace wsReal ancestorReal then Inl (PathDenied target ''outside workspace'')
                else
                 (case path_rel ancestor targetAbs of
                    None \<Rightarrow> Inl (PathDenied target ''cannot compute relative path'')
                  | Some rel \<Rightarrow>
                    (let candidate = path_join [ancestorReal, rel] in
                     if \<not> isWithinWorkspace wsReal candidate then Inl (PathDenied target ''outside workspace'')
                     else if isProtectedControlPath candidate
                     then Inl (PathDenied target ''protected control-plane path'')
                     else Inr candidate))))))"

end
