(* ===== verification/File_Tools.thy ===== *)
theory File_Tools
  imports File_Edits Policy
begin

text \<open>
  The file tools of internal/tools/builtins.go: fs.read, fs.list, fs.write, fs.append, fs.delete,
  fs.move, fs.edit and fs.mkdir. What they ask of the host or of the sandbox is the record \<open>files\<close>
  over a world \<open>'w\<close>; the policy sees a snapshot of the world as in Policy. An error is its text.
\<close>

section \<open>The file system asked\<close>

datatype os_error = NotExist string | OsFailure string

fun os_text :: "os_error \<Rightarrow> string" where
  "os_text (NotExist t) = t"
| "os_text (OsFailure t) = t"

text \<open>Entries and files are told from directories by a boolean; mode bits are left out.\<close>

record 'w files =
  fl_read :: "string \<Rightarrow> 'w \<Rightarrow> os_error + string"
  fl_list :: "string \<Rightarrow> 'w \<Rightarrow> os_error + (string \<times> bool) list"
  fl_lstat :: "string \<Rightarrow> 'w \<Rightarrow> os_error + bool"
  fl_write :: "string \<Rightarrow> string \<Rightarrow> 'w \<Rightarrow> os_error option \<times> 'w"
  fl_append :: "string \<Rightarrow> string \<Rightarrow> 'w \<Rightarrow> os_error option \<times> 'w"
  fl_mkdir :: "string \<Rightarrow> 'w \<Rightarrow> os_error option \<times> 'w"
  fl_remove :: "string \<Rightarrow> bool \<Rightarrow> 'w \<Rightarrow> os_error option \<times> 'w"
  fl_rename :: "string \<Rightarrow> string \<Rightarrow> 'w \<Rightarrow> os_error option \<times> 'w"

record 'w fs_request =
  tr_agentID :: string
  tr_workspace :: string
  tr_args :: "(string, json) gmap"
  tr_policy :: "('w \<Rightarrow> file_system) option"
  tr_sandbox :: bool
  tr_files :: "'w files"

type_synonym 'w outcome = "(string + (string, json) gmap) \<times> 'w"

section \<open>Paths\<close>

definition path_error_text :: "path_error \<Rightarrow> string" where
  "path_error_text e =
    (case e of
       WorkspaceRequired \<Rightarrow> ''workspace is required''
     | PathDenied p reason \<Rightarrow> ''path denied: '' @ p @ '' ('' @ reason @ '')''
     | FileSystemError \<Rightarrow> ''file system error'')"

definition isParentMissingError :: "path_error \<Rightarrow> bool" where
  "isParentMissingError e = contains (path_error_text e) ''write parent does not exist''"

definition workspaceControlPlaneFilenames :: "string list" where
  "workspaceControlPlaneFilenames = [''SOUL.MD'', ''RULES.MD'', ''TOOLS.MD'', ''HANDOFF.MD'', ''DEVPLAN.MD'', ''SPECPLAN.MD'']"

text \<open>isWithinWorkspace of the tools package; None for an error.\<close>

definition tools_isWithinWorkspace :: "file_system \<Rightarrow> string \<Rightarrow> string \<Rightarrow> bool option" where
  "tools_isWithinWorkspace fs workspace target =
    (case (fs_abs fs workspace, fs_abs fs target) of
       (Some wsAbs, Some targetAbs) \<Rightarrow>
         (case path_rel wsAbs targetAbs of
            None \<Rightarrow> None
          | Some rel \<Rightarrow>
            Some (if rel = ''.'' then True else if rel = ''..'' \<or> prefix ''../'' rel then False else \<not> is_abs rel))
     | _ \<Rightarrow> None)"

definition control_plane_error :: "string \<Rightarrow> string \<Rightarrow> string" where
  "control_plane_error file agentID =
    file @ '' in workspace does not control agent behavior. Control-plane files live at .openclawssy/agents/<agent_id>/'' @
    file @ '' (for this run: .openclawssy/agents/'' @ (if agentID = [] then ''<agent_id>'' else agentID) @ ''/'' @ file @
    ''). Edit it via dashboard Agent Files''"

definition guardWorkspaceControlPlaneFilename :: "file_system \<Rightarrow> string \<Rightarrow> string \<Rightarrow> string \<Rightarrow> string option" where
  "guardWorkspaceControlPlaneFilename fs workspace targetAbs agentID =
    (if to_upper (path_base targetAbs) \<notin> set workspaceControlPlaneFilenames then None
     else (case tools_isWithinWorkspace fs workspace targetAbs of
         None \<Rightarrow> Some ''file system error''
       | Some False \<Rightarrow> None
       | Some True \<Rightarrow>
         (case path_rel workspace targetAbs of
            None \<Rightarrow> None
          | Some rel \<Rightarrow>
            if 2 < length (split_on slash rel) then None
            else Some (control_plane_error (path_base targetAbs) agentID))))"

section \<open>Common steps\<close>

text \<open>The string argument, the policy and the resolved path, or the first error among them.\<close>

definition with_policy ::
  "'w fs_request \<Rightarrow> 'w \<Rightarrow> (file_system \<Rightarrow> 'w outcome) \<Rightarrow> 'w outcome" where
  "with_policy r w f = (case tr_policy r of None \<Rightarrow> (Inl ''policy is required'', w) | Some view \<Rightarrow> f (view w))"

definition with_string ::
  "'w fs_request \<Rightarrow> string \<Rightarrow> 'w \<Rightarrow> (string \<Rightarrow> 'w outcome) \<Rightarrow> 'w outcome" where
  "with_string r key w f = (case getString (tr_args r) key of Inl e \<Rightarrow> (Inl e, w) | Inr s \<Rightarrow> f s)"

definition with_path :: "path_error + string \<Rightarrow> 'w \<Rightarrow> (string \<Rightarrow> 'w outcome) \<Rightarrow> 'w outcome" where
  "with_path res w f = (case res of Inl e \<Rightarrow> (Inl (path_error_text e), w) | Inr p \<Rightarrow> f p)"

definition guarded :: "'w fs_request \<Rightarrow> file_system \<Rightarrow> string \<Rightarrow> 'w \<Rightarrow> 'w outcome \<Rightarrow> 'w outcome" where
  "guarded r fs p w next =
    (case guardWorkspaceControlPlaneFilename fs (tr_workspace r) p (tr_agentID r) of
       Some e \<Rightarrow> (Inl e, w) | None \<Rightarrow> next)"

text \<open>After an operation on the files.\<close>

definition after_op :: "os_error option \<times> 'w \<Rightarrow> ('w \<Rightarrow> 'w outcome) \<Rightarrow> 'w outcome" where
  "after_op res f = (case res of (Some e, w) \<Rightarrow> (Inl (os_text e), w) | (None, w) \<Rightarrow> f w)"

definition info :: "(string \<times> json) list \<Rightarrow> (string, json) gmap" where
  "info kvs = mput_all kvs mempty"

definition line_count :: "string \<Rightarrow> int" where
  "line_count content = (if content = [] then 0 else int (count_list content (CHR 0x0A)) + 1)"

section \<open>Reading\<close>

definition defaultFSReadMaxBytes :: int where
  "defaultFSReadMaxBytes = 262144"

definition fsRead :: "'w fs_request \<Rightarrow> 'w \<Rightarrow> 'w outcome" where
  "fsRead r w =
    with_string r ''path'' w (\<lambda>path.
    with_policy r w (\<lambda>fs.
    with_path (resolvePath fs (tr_workspace r) path False) w (\<lambda>p.
      case fl_read (tr_files r) p w of
        Inl e \<Rightarrow> (Inl (os_text e), w)
      | Inr b \<Rightarrow>
        (let m = getIntArg (tr_args r) ''max_bytes'' defaultFSReadMaxBytes; m = (if m \<le> 0 then defaultFSReadMaxBytes else m);
             b = (if m < int (length b) then take (nat m) b else b)
         in (Inr (info [(''path'', JStr path), (''content'', JStr b), (''truncated'', JBool (int (length b) = m))]), w)))))"

definition fsList :: "'w fs_request \<Rightarrow> 'w \<Rightarrow> 'w outcome" where
  "fsList r w =
    with_string r ''path'' w (\<lambda>path.
    with_policy r w (\<lambda>fs.
    with_path (resolvePath fs (tr_workspace r) path False) w (\<lambda>p.
      case fl_list (tr_files r) p w of
        Inl e \<Rightarrow> (Inl (os_text e), w)
      | Inr es \<Rightarrow>
        (Inr (info [(''path'', JStr path),
           (''entries'', JArr (map JStr (sort (map (\<lambda>(name, dir). if dir then name @ ''/'' else name) es))))]), w))))"

section \<open>Writing\<close>

definition write_info :: "string \<Rightarrow> string \<Rightarrow> (string, json) gmap" where
  "write_info path content =
    info [(''path'', JStr path), (''bytes'', JNum (itoa (int (length content)))), (''lines'', JNum (itoa (line_count content))),
      (''summary'', JStr (''wrote '' @ itoa (line_count content) @ '' line(s) to '' @ path))]"

definition fsWrite :: "'w fs_request \<Rightarrow> 'w \<Rightarrow> 'w outcome" where
  "fsWrite r w =
    with_string r ''path'' w (\<lambda>path.
    with_string r ''content'' w (\<lambda>content.
    with_policy r w (\<lambda>fs.
      let finish = (\<lambda>p w. guarded r fs p w
            (after_op (fl_write (tr_files r) p content w) (\<lambda>w. (Inr (write_info path content), w))))
      in case resolvePath fs (tr_workspace r) path True of
           Inr p \<Rightarrow> finish p w
         | Inl e \<Rightarrow>
           if isParentMissingError e
           then with_path (resolveMkdirPath fs (tr_workspace r) path) w (\<lambda>p.
             after_op (fl_mkdir (tr_files r) (path_dir p) w) (finish p))
           else (Inl (path_error_text e), w))))"

definition fsMkdir :: "'w fs_request \<Rightarrow> 'w \<Rightarrow> 'w outcome" where
  "fsMkdir r w =
    with_string r ''path'' w (\<lambda>path.
    with_policy r w (\<lambda>fs.
    with_path (resolveMkdirPath fs (tr_workspace r) path) w (\<lambda>p.
    after_op (fl_mkdir (tr_files r) p w) (\<lambda>w.
      (Inr (info [(''path'', JStr path), (''summary'', JStr (''created directory '' @ path))]), w)))))"

text \<open>A sandbox cannot append: the file is read and written whole.\<close>

definition append_op :: "'w fs_request \<Rightarrow> string \<Rightarrow> string \<Rightarrow> 'w \<Rightarrow> os_error option \<times> 'w" where
  "append_op r p content w =
    (if tr_sandbox r
     then (case fl_read (tr_files r) p w of
         Inl (OsFailure t) \<Rightarrow> (Some (OsFailure t), w)
       | Inl (NotExist t) \<Rightarrow> fl_write (tr_files r) p content w
       | Inr old \<Rightarrow> fl_write (tr_files r) p (old @ content) w)
     else fl_append (tr_files r) p content w)"

definition fsAppend :: "'w fs_request \<Rightarrow> 'w \<Rightarrow> 'w outcome" where
  "fsAppend r w =
    with_string r ''path'' w (\<lambda>path.
    with_string r ''content'' w (\<lambda>content.
    with_policy r w (\<lambda>fs.
    with_path (resolvePath fs (tr_workspace r) path True) w (\<lambda>p.
    guarded r fs p w (after_op (append_op r p content w) (\<lambda>w.
      (Inr (info [(''path'', JStr path), (''bytes_appended'', JNum (itoa (int (length content)))),
         (''lines_appended'', JNum (itoa (line_count content))),
         (''summary'', JStr (''appended '' @ itoa (line_count content) @ '' line(s) to '' @ path))]), w)))))))"

definition skipped_delete :: "string \<Rightarrow> (string, json) gmap" where
  "skipped_delete path =
    info [(''path'', JStr path), (''deleted'', JBool False), (''skipped'', JStr ''not_found''),
      (''summary'', JStr (''path not found, skipped delete: '' @ path))]"

definition fsDelete :: "'w fs_request \<Rightarrow> 'w \<Rightarrow> 'w outcome" where
  "fsDelete r w =
    with_string r ''path'' w (\<lambda>path.
    with_policy r w (\<lambda>fs.
    with_path (resolvePath fs (tr_workspace r) path True) w (\<lambda>p.
    guarded r fs p w
      (let recursive = getBoolArg (tr_args r) ''recursive'' False; force = getBoolArg (tr_args r) ''force'' False in
       case fl_lstat (tr_files r) p w of
         Inl (NotExist t) \<Rightarrow> if force then (Inr (skipped_delete path), w) else (Inl t, w)
       | Inl (OsFailure t) \<Rightarrow> (Inl t, w)
       | Inr isDir \<Rightarrow>
         if isDir \<and> \<not> recursive then (Inl ''path is a directory; set recursive=true to delete directories'', w)
         else (case fl_remove (tr_files r) p (if tr_sandbox r then recursive else isDir) w of
             (Some (NotExist t), w') \<Rightarrow>
               if force \<and> \<not> tr_sandbox r then (Inr (skipped_delete path), w') else (Inl t, w')
           | (Some (OsFailure t), w') \<Rightarrow> (Inl t, w')
           | (None, w') \<Rightarrow>
             (Inr (info [(''path'', JStr path), (''deleted'', JBool True),
                (''type'', JStr (if isDir then ''dir'' else ''file'')), (''recursive'', JBool recursive),
                (''summary'', JStr (''deleted '' @ path))]), w'))))))"

definition move_info :: "string \<Rightarrow> string \<Rightarrow> bool \<Rightarrow> (string \<times> json) list \<Rightarrow> (string, json) gmap" where
  "move_info src dst overwrite extra =
    info ([(''src'', JStr src), (''dst'', JStr dst), (''moved'', JBool True), (''overwrite'', JBool overwrite),
      (''summary'', JStr (''moved '' @ src @ '' to '' @ dst))] @ extra)"

definition fsMove :: "'w fs_request \<Rightarrow> 'w \<Rightarrow> 'w outcome" where
  "fsMove r w =
    with_string r ''src'' w (\<lambda>src.
    with_string r ''dst'' w (\<lambda>dst.
    with_policy r w (\<lambda>fs.
    with_path (resolvePath fs (tr_workspace r) src True) w (\<lambda>s.
    with_path (resolvePath fs (tr_workspace r) dst True) w (\<lambda>d.
    guarded r fs s w (guarded r fs d w
      (let overwrite = getBoolArg (tr_args r) ''overwrite'' False in
       case fl_lstat (tr_files r) s w of
         Inl e \<Rightarrow> (Inl (os_text e), w)
       | Inr isDir \<Rightarrow>
         if s = d then (Inr (move_info src dst overwrite []), w)
         else
          (let rename = (\<lambda>w. after_op (fl_rename (tr_files r) s d w) (\<lambda>w.
                 (Inr (move_info src dst overwrite [(''type'', JStr (if isDir then ''dir'' else ''file''))]), w)))
           in case fl_lstat (tr_files r) d w of
                Inr dstDir \<Rightarrow>
                  if \<not> overwrite then (Inl (''destination already exists: '' @ dst), w)
                  else after_op (fl_remove (tr_files r) d dstDir w) rename
              | Inl (NotExist t) \<Rightarrow> rename w
              | Inl (OsFailure t) \<Rightarrow> (Inl t, w)))))))))"

definition edit_content :: "string \<Rightarrow> (string, json) gmap \<Rightarrow> edit_result" where
  "edit_content content args =
    (let replace = mhas args ''old'' \<or> mhas args ''new''; edits = mhas args ''edits''; patch = mhas args ''patch'';
         modes = length (filter id [replace, edits, patch])
     in if modes = 0 then Inl ''fs.edit requires one edit mode: old/new, edits, or patch''
        else if 1 < modes then Inl ''fs.edit accepts exactly one edit mode: old/new, edits, or patch''
        else if replace then handleReplaceMode content args
        else if patch then handleUnifiedDiffMode content args
        else handleLineEditsMode content args)"

definition fsEdit :: "'w fs_request \<Rightarrow> 'w \<Rightarrow> 'w outcome" where
  "fsEdit r w =
    with_string r ''path'' w (\<lambda>path.
    with_policy r w (\<lambda>fs.
    with_path (resolvePath fs (tr_workspace r) path True) w (\<lambda>p.
    guarded r fs p w
      (case fl_read (tr_files r) p w of
         Inl e \<Rightarrow> (Inl (os_text e), w)
       | Inr b \<Rightarrow>
         (case edit_content b (tr_args r) of
            Inl e \<Rightarrow> (Inl e, w)
          | Inr (updated, res) \<Rightarrow>
            after_op (fl_write (tr_files r) p updated w) (\<lambda>w. (Inr (mput ''path'' (JStr path) res), w)))))))"

end
