(* ===== verification/Chat_Store.thy ===== *)
theory Chat_Store
  imports Reverse_Scanner Message_Content Go_Path Go_Time File_Tools "HOL-Library.Product_Lexorder"
begin

text \<open>
  The chat store of internal/chatstore/store.go with the lock of lock_unix.go: sessions, their logs of
  messages and the pointers to what is active, all in files. The files are a record \<open>chat_disk\<close> of
  operations on a world \<open>'w\<close>; the JSON texts of a session and of a message are a record \<open>codec\<close>.
  Every operation answers with the store and the world it leaves.
\<close>

section \<open>Data\<close>

record session =
  ss_sessionID :: string
  ss_agentID :: string
  ss_channel :: string
  ss_userID :: string
  ss_roomID :: string
  ss_title :: string
  ss_createdAt :: Go_Time.time
  ss_updatedAt :: Go_Time.time
  ss_closedAt :: Go_Time.time

definition isClosed :: "session \<Rightarrow> bool" where
  "isClosed s \<longleftrightarrow> ss_closedAt s \<noteq> 0"

record stored_message =
  cm_role :: string
  cm_content :: string
  cm_contentParts :: "content_part list"
  cm_ts :: Go_Time.time
  cm_messageID :: string
  cm_status :: string
  cm_instanceID :: string
  cm_fromAgentID :: string
  cm_toAgentID :: string
  cm_taskID :: string
  cm_subject :: string
  cm_channel :: string
  cm_userID :: string
  cm_sourceSessionID :: string
  cm_relatedRunID :: string
  cm_note :: string
  cm_error :: string
  cm_updatedAt :: Go_Time.time
  cm_runID :: string
  cm_toolCallID :: string
  cm_toolName :: string

datatype chat_error = ErrSessionNotFound | ErrSessionClosed | ErrMessageNotFound | ChatError string

record codec =
  en_session :: "session \<Rightarrow> string"
  de_session :: "string \<Rightarrow> session option"
  en_message :: "stored_message \<Rightarrow> string option"
  de_message :: "string \<Rightarrow> stored_message option"

record 'w chat_disk =
  cd_abs :: "string \<Rightarrow> 'w \<Rightarrow> os_error + string"
  cd_read :: "string \<Rightarrow> 'w \<Rightarrow> os_error + string"
  cd_write :: "string \<Rightarrow> string \<Rightarrow> 'w \<Rightarrow> os_error option \<times> 'w"
  cd_replace :: "string \<Rightarrow> string \<Rightarrow> 'w \<Rightarrow> os_error option \<times> 'w"
  cd_append :: "string \<Rightarrow> string \<Rightarrow> 'w \<Rightarrow> os_error option \<times> 'w"
  cd_create :: "string \<Rightarrow> 'w \<Rightarrow> os_error option \<times> 'w"
  cd_mkdir :: "string \<Rightarrow> 'w \<Rightarrow> os_error option \<times> 'w"
  cd_stat :: "string \<Rightarrow> 'w \<Rightarrow> os_error + Go_Time.time"
  cd_list :: "string \<Rightarrow> 'w \<Rightarrow> os_error + (string \<times> bool) list"
  cd_glob :: "string \<Rightarrow> 'w \<Rightarrow> string + string list"
  cd_lock :: "string \<Rightarrow> 'w \<Rightarrow> os_error option \<times> 'w"
  cd_unlock :: "string \<Rightarrow> 'w \<Rightarrow> 'w"

record chat_store =
  st_agentsRoot :: string
  st_index :: "(string, string) gmap"
  st_metaCache :: "(string, session \<times> Go_Time.time) gmap"

type_synonym ('a, 'w) answer = "(chat_error + 'a) \<times> chat_store \<times> 'w"

section \<open>Paths and identifiers\<close>

definition DefaultMaxHistoryCount :: int where "DefaultMaxHistoryCount = 200"
definition messageScanBufferInit :: nat where "messageScanBufferInit = 256 * 1024"
definition messageScanBufferMax :: nat where "messageScanBufferMax = 8 * 1024 * 1024"
definition maxMetaCacheSize :: nat where "maxMetaCacheSize = 10000"

definition clampHistoryCount :: "int \<Rightarrow> int \<Rightarrow> int" where
  "clampHistoryCount requested most =
    (let most = (if most \<le> 0 then DefaultMaxHistoryCount else most)
     in if requested \<le> 0 \<or> most < requested then most else requested)"

definition validateSegment :: "string \<Rightarrow> string \<Rightarrow> chat_error option" where
  "validateSegment name value =
    (let trimmed = trim_space value in
     if trimmed = [] then Some (ChatError (''chatstore: '' @ name @ '' is required''))
     else if contains trimmed ''..'' \<or> slash \<in> set trimmed \<or> CHR 0x5C \<in> set trimmed
     then Some (ChatError (''chatstore: invalid '' @ name))
     else None)"

text \<open>The first error of several checks.\<close>

fun first_error :: "chat_error option list \<Rightarrow> chat_error option" where
  "first_error [] = None"
| "first_error (None # cs) = first_error cs"
| "first_error (Some e # cs) = Some e"

definition chatRoot :: "chat_store \<Rightarrow> string \<Rightarrow> string" where
  "chatRoot st agentID = path_join [st_agentsRoot st, agentID, ''memory'', ''chats'']"

definition sessionDir :: "chat_store \<Rightarrow> string \<Rightarrow> string \<Rightarrow> string" where
  "sessionDir st agentID sessionID = path_join [chatRoot st agentID, sessionID]"

definition activePointerPath :: "chat_store \<Rightarrow> string \<Rightarrow> string \<Rightarrow> string \<Rightarrow> string \<Rightarrow> string" where
  "activePointerPath st agentID channel userID roomID =
    path_join [chatRoot st agentID, ''_active'', channel, userID, roomID @ ''.json'']"

definition activeAgentPointerPath :: "chat_store \<Rightarrow> string \<Rightarrow> string \<Rightarrow> string \<Rightarrow> string" where
  "activeAgentPointerPath st channel userID roomID =
    path_join [st_agentsRoot st, ''_routing'', ''active_agents'', channel, userID, roomID @ ''.json'']"

definition meta_path :: "string \<Rightarrow> string" where "meta_path dir = path_join [dir, ''meta.json'']"
definition messages_path :: "string \<Rightarrow> string" where "messages_path dir = path_join [dir, ''messages.jsonl'']"
definition lock_path :: "string \<Rightarrow> string" where "lock_path dir = path_join [dir, ''.chatstore.lock'']"

text \<open>The time of the Unix epoch, as int64 nanoseconds from it, and hexadecimal text.\<close>

definition unix_nano :: "Go_Time.time \<Rightarrow> int" where
  "unix_nano t = (t - 62135596800 * ns_per_sec + 2 ^ 63) mod 2 ^ 64 - 2 ^ 63"

definition hex_text :: "string \<Rightarrow> string" where
  "hex_text bytes = concat (map (\<lambda>c. let n = of_char c :: nat in [hex_digit (n div 16), hex_digit (n mod 16)]) bytes)"

definition newSessionID :: "Go_Time.time \<Rightarrow> os_error + string \<Rightarrow> chat_error + string" where
  "newSessionID now randBytes =
    (case randBytes of
       Inl e \<Rightarrow> Inl (ChatError (''chatstore: generate session id: '' @ os_text e))
     | Inr bytes \<Rightarrow> Inr (''chat_'' @ itoa (unix_nano now) @ ''_'' @ hex_text bytes))"

section \<open>Files\<close>

definition with_lock :: "'w chat_disk \<Rightarrow> string \<Rightarrow> ('w \<Rightarrow> (chat_error + 'a) \<times> 'w) \<Rightarrow> 'w \<Rightarrow> (chat_error + 'a) \<times> 'w" where
  "with_lock d path f w =
    (case cd_lock d path w of
       (Some e, w1) \<Rightarrow> (Inl (ChatError (os_text e)), w1)
     | (None, w1) \<Rightarrow> (case f w1 of (r, w2) \<Rightarrow> (r, cd_unlock d path w2)))"

text \<open>One operation after another, the first error ending them; the error gets the text in front.\<close>

definition then_do ::
  "string \<Rightarrow> os_error option \<times> 'w \<Rightarrow> ('w \<Rightarrow> (chat_error + 'a) \<times> 'w) \<Rightarrow> (chat_error + 'a) \<times> 'w" where
  "then_do what r f = (case r of (Some e, w) \<Rightarrow> (Inl (ChatError (what @ os_text e)), w) | (None, w) \<Rightarrow> f w)"

definition writeJSONFile :: "'w chat_disk \<Rightarrow> string \<Rightarrow> string \<Rightarrow> 'w \<Rightarrow> (chat_error + unit) \<times> 'w" where
  "writeJSONFile d path json w =
    then_do ''chatstore: create parent dir: '' (cd_mkdir d (path_dir path) w) (\<lambda>w.
      let w = (case cd_read d path w of
                 Inr existing \<Rightarrow> if existing \<noteq> [] then snd (cd_write d (path @ ''.bak'') existing w) else w
               | Inl _ \<Rightarrow> w)
      in then_do [] (cd_replace d path (json @ lf) w) (\<lambda>w. (Inr (), w)))"

definition json_valid :: "string \<Rightarrow> bool" where
  "json_valid b \<longleftrightarrow> unmarshal b \<noteq> None"

definition valid_backup :: "'w chat_disk \<Rightarrow> string \<Rightarrow> 'w \<Rightarrow> string option" where
  "valid_backup d path w =
    (case cd_read d (path @ ''.bak'') w of Inr backup \<Rightarrow> if json_valid backup then Some backup else None | Inl _ \<Rightarrow> None)"

definition readFileWithBackup :: "'w chat_disk \<Rightarrow> string \<Rightarrow> 'w \<Rightarrow> os_error + string" where
  "readFileWithBackup d path w =
    (case cd_read d path w of
       Inr b \<Rightarrow>
         if json_valid b then Inr b
         else (case valid_backup d path w of
             Some backup \<Rightarrow> Inr backup | None \<Rightarrow> Inl (OsFailure (''chatstore: invalid json at '' @ path)))
     | Inl (OsFailure t) \<Rightarrow> Inl (OsFailure t)
     | Inl (NotExist t) \<Rightarrow> (case valid_backup d path w of Some backup \<Rightarrow> Inr backup | None \<Rightarrow> Inl (NotExist t)))"

definition readSessionMeta :: "'w chat_disk \<Rightarrow> codec \<Rightarrow> string \<Rightarrow> 'w \<Rightarrow> chat_error + session" where
  "readSessionMeta d c path w =
    (case readFileWithBackup d path w of
       Inl (NotExist _) \<Rightarrow> Inl ErrSessionNotFound
     | Inl (OsFailure t) \<Rightarrow> Inl (ChatError (''chatstore: read session meta: '' @ t))
     | Inr b \<Rightarrow>
       (case de_session c b of
          None \<Rightarrow> Inl (ChatError ''chatstore: parse session meta'')
        | Some s \<Rightarrow> if ss_sessionID s = [] then Inl (ChatError ''chatstore: invalid session meta'') else Inr s))"

section \<open>Finding sessions\<close>

text \<open>The index is filled by loadIndex and by sessionDirByIDLocked.\<close>

definition index_entry :: "string \<Rightarrow> (string, string) gmap \<Rightarrow> (string, string) gmap" where
  "index_entry p index =
    (let dir = path_dir p; sessionID = path_base dir in
     if sessionID = ''_active'' \<or> sessionID = [] then index else mput sessionID dir index)"

definition loadIndex :: "'w chat_disk \<Rightarrow> chat_store \<Rightarrow> 'w \<Rightarrow> chat_error + chat_store" where
  "loadIndex d st w =
    (case cd_glob d (path_join [st_agentsRoot st, ''*'', ''memory'', ''chats'', ''*'', ''meta.json'']) w of
       Inl e \<Rightarrow> Inl (ChatError (''chatstore: build index glob: '' @ e))
     | Inr paths \<Rightarrow> Inr (st\<lparr>st_index := fold index_entry paths (st_index st)\<rparr>))"

definition newChatStore :: "'w chat_disk \<Rightarrow> string \<Rightarrow> 'w \<Rightarrow> (chat_error + chat_store) \<times> 'w" where
  "newChatStore d agentsRoot w =
    (if trim_space agentsRoot = [] then (Inl (ChatError ''chatstore: agents root is required''), w)
     else (case cd_abs d agentsRoot w of
         Inl e \<Rightarrow> (Inl (ChatError (''chatstore: resolve agents root: '' @ os_text e)), w)
       | Inr absRoot \<Rightarrow>
         then_do ''chatstore: create agents root: '' (cd_mkdir d absRoot w) (\<lambda>w.
           (loadIndex d \<lparr>st_agentsRoot = absRoot, st_index = mempty, st_metaCache = mempty\<rparr> w, w))))"

fun first_with_meta :: "'w chat_disk \<Rightarrow> string list \<Rightarrow> 'w \<Rightarrow> string option" where
  "first_with_meta d [] w = None"
| "first_with_meta d (p # ps) w =
     (case cd_stat d (meta_path p) w of Inr _ \<Rightarrow> Some p | Inl _ \<Rightarrow> first_with_meta d ps w)"

definition sessionDirByIDLocked :: "'w chat_disk \<Rightarrow> string \<Rightarrow> chat_store \<Rightarrow> 'w \<Rightarrow> (chat_error + string) \<times> chat_store" where
  "sessionDirByIDLocked d sessionID st w =
    (case mget (st_index st) sessionID of
       Some dir \<Rightarrow> (Inr dir, st)
     | None \<Rightarrow>
       (case cd_glob d (path_join [st_agentsRoot st, ''*'', ''memory'', ''chats'', sessionID]) w of
          Inl e \<Rightarrow> (Inl (ChatError (''chatstore: find session: '' @ e)), st)
        | Inr paths \<Rightarrow>
          (case first_with_meta d paths w of
             None \<Rightarrow> (Inl ErrSessionNotFound, st)
           | Some p \<Rightarrow> (Inr p, st\<lparr>st_index := mput sessionID p (st_index st)\<rparr>))))"

section \<open>Operations on sessions\<close>

text \<open>The checks of an operation, then its body.\<close>

definition checked :: "chat_error option list \<Rightarrow> chat_store \<Rightarrow> 'w \<Rightarrow> ('a, 'w) answer \<Rightarrow> ('a, 'w) answer" where
  "checked checks st w body = (case first_error checks of Some e \<Rightarrow> (Inl e, st, w) | None \<Rightarrow> body)"

definition with_dir ::
  "'w chat_disk \<Rightarrow> string \<Rightarrow> chat_store \<Rightarrow> 'w \<Rightarrow> (string \<Rightarrow> chat_store \<Rightarrow> ('a, 'w) answer) \<Rightarrow> ('a, 'w) answer" where
  "with_dir d sessionID st w f =
    (case sessionDirByIDLocked d sessionID st w of (Inl e, st1) \<Rightarrow> (Inl e, st1, w) | (Inr dir, st1) \<Rightarrow> f dir st1)"

definition required :: "string \<Rightarrow> string \<Rightarrow> chat_error option" where
  "required name value = (if trim_space value = [] then Some (ChatError (''chatstore: '' @ name @ '' is required'')) else None)"

record session_input =
  si_agentID :: string
  si_channel :: string
  si_userID :: string
  si_roomID :: string
  si_title :: string

definition new_session :: "session_input \<Rightarrow> string \<Rightarrow> Go_Time.time \<Rightarrow> session" where
  "new_session i sessionID now =
    \<lparr>ss_sessionID = sessionID, ss_agentID = si_agentID i, ss_channel = si_channel i, ss_userID = si_userID i,
     ss_roomID = si_roomID i, ss_title = trim_space (si_title i), ss_createdAt = now, ss_updatedAt = now, ss_closedAt = 0\<rparr>"

definition createSession ::
  "'w chat_disk \<Rightarrow> codec \<Rightarrow> session_input \<Rightarrow> Go_Time.time \<Rightarrow> os_error + string \<Rightarrow> chat_store \<Rightarrow> 'w \<Rightarrow> (session, 'w) answer" where
  "createSession d c i now randBytes st w =
    checked [validateSegment ''agent_id'' (si_agentID i), validateSegment ''channel'' (si_channel i),
      required ''user_id'' (si_userID i), required ''room_id'' (si_roomID i)] st w
     (case newSessionID now randBytes of
        Inl e \<Rightarrow> (Inl e, st, w)
      | Inr sessionID \<Rightarrow>
        (let s = new_session i sessionID now; dir = sessionDir st (si_agentID i) sessionID in
         case with_lock d (lock_path (chatRoot st (si_agentID i))) (\<lambda>w.
             then_do ''chatstore: create session dir: '' (cd_mkdir d dir w) (\<lambda>w.
               case writeJSONFile d (meta_path dir) (en_session c s) w of
                 (Inl e, w) \<Rightarrow> (Inl e, w)
               | (Inr _, w) \<Rightarrow> then_do ''chatstore: init messages file: '' (cd_create d (messages_path dir) w) (\<lambda>w. (Inr (), w)))) w of
           (Inl e, w) \<Rightarrow> (Inl e, st, w)
         | (Inr _, w) \<Rightarrow> (Inr s, st\<lparr>st_index := mput sessionID dir (st_index st)\<rparr>, w)))"

text \<open>The cached session of an entry if the file has not changed, else the one read, which is then cached.\<close>

definition cache_put :: "(string list \<Rightarrow> string) \<Rightarrow> string \<Rightarrow> session \<times> Go_Time.time \<Rightarrow> chat_store \<Rightarrow> chat_store" where
  "cache_put evict sessionID v st =
    (let cache = st_metaCache st;
         cache = (if maxMetaCacheSize \<le> length (mkeys cache) then mdel (evict (mkeys cache)) cache else cache)
     in st\<lparr>st_metaCache := mput sessionID v cache\<rparr>)"

definition cached_meta ::
  "'w chat_disk \<Rightarrow> codec \<Rightarrow> (string list \<Rightarrow> string) \<Rightarrow> string \<Rightarrow> string \<Rightarrow> Go_Time.time \<Rightarrow> chat_store \<Rightarrow> 'w \<Rightarrow>
   (chat_error + session) \<times> chat_store" where
  "cached_meta d c evict sessionID path modTime st w =
    (case mget (st_metaCache st) sessionID of
       Some (s, t) \<Rightarrow>
         if modTime = t then (Inr s, st)
         else (case readSessionMeta d c path w of
             Inl e \<Rightarrow> (Inl e, st) | Inr s \<Rightarrow> (Inr s, cache_put evict sessionID (s, modTime) st))
     | None \<Rightarrow>
         (case readSessionMeta d c path w of
            Inl e \<Rightarrow> (Inl e, st) | Inr s \<Rightarrow> (Inr s, cache_put evict sessionID (s, modTime) st)))"

definition session_matches :: "string \<Rightarrow> string \<Rightarrow> string \<Rightarrow> session \<Rightarrow> bool" where
  "session_matches userID roomID channel s \<longleftrightarrow>
    (userID = [] \<or> ss_userID s = userID) \<and> (roomID = [] \<or> ss_roomID s = roomID) \<and> (channel = [] \<or> ss_channel s = channel)"

fun list_loop ::
  "'w chat_disk \<Rightarrow> codec \<Rightarrow> (string list \<Rightarrow> string) \<Rightarrow> string \<Rightarrow> (session \<Rightarrow> bool) \<Rightarrow> (string \<times> bool) list \<Rightarrow> chat_store \<Rightarrow> 'w \<Rightarrow>
   session list \<Rightarrow> (chat_error + session list) \<times> chat_store" where
  "list_loop d c evict croot keep [] st w out = (Inr out, st)"
| "list_loop d c evict croot keep ((name, isDir) # es) st w out =
     (if \<not> isDir \<or> name = ''_active'' then list_loop d c evict croot keep es st w out
      else
       (let path = path_join [croot, name, ''meta.json''] in
        case cd_stat d path w of
          Inl (NotExist _) \<Rightarrow> list_loop d c evict croot keep es st w out
        | Inl (OsFailure t) \<Rightarrow> (Inl (ChatError (''chatstore: list sessions stat: '' @ t)), st)
        | Inr modTime \<Rightarrow>
          (case cached_meta d c evict name path modTime st w of
             (Inl e, st1) \<Rightarrow> if e = ErrSessionNotFound then list_loop d c evict croot keep es st1 w out else (Inl e, st1)
           | (Inr s, st1) \<Rightarrow> list_loop d c evict croot keep es st1 w (if keep s then out @ [s] else out))))"

text \<open>The last updated first, then the last created; Go leaves the order of equal ones open.\<close>

definition sort_sessions :: "session list \<Rightarrow> session list" where
  "sort_sessions ss = sort_key (\<lambda>s. (- ss_updatedAt s, - ss_createdAt s)) ss"

definition listSessions ::
  "'w chat_disk \<Rightarrow> codec \<Rightarrow> (string list \<Rightarrow> string) \<Rightarrow> string \<Rightarrow> string \<Rightarrow> string \<Rightarrow> string \<Rightarrow> chat_store \<Rightarrow> 'w \<Rightarrow>
   (chat_error + session list) \<times> chat_store" where
  "listSessions d c evict agentID userID roomID channel st w =
    (case validateSegment ''agent_id'' agentID of
       Some e \<Rightarrow> (Inl e, st)
     | None \<Rightarrow>
       (case cd_list d (chatRoot st agentID) w of
          Inl (NotExist _) \<Rightarrow> (Inr [], st)
        | Inl (OsFailure t) \<Rightarrow> (Inl (ChatError (''chatstore: list sessions: '' @ t)), st)
        | Inr entries \<Rightarrow>
          (case list_loop d c evict (chatRoot st agentID) (session_matches userID roomID channel) entries st w [] of
             (Inl e, st1) \<Rightarrow> (Inl e, st1) | (Inr out, st1) \<Rightarrow> (Inr (sort_sessions out), st1))))"

definition getSession :: "'w chat_disk \<Rightarrow> codec \<Rightarrow> string \<Rightarrow> chat_store \<Rightarrow> 'w \<Rightarrow> (session, 'w) answer" where
  "getSession d c sessionID st w =
    checked [validateSegment ''session_id'' sessionID] st w
     (with_dir d sessionID st w (\<lambda>dir st. (readSessionMeta d c (meta_path dir) w, st, w)))"

definition closeSession :: "'w chat_disk \<Rightarrow> codec \<Rightarrow> string \<Rightarrow> Go_Time.time \<Rightarrow> chat_store \<Rightarrow> 'w \<Rightarrow> (unit, 'w) answer" where
  "closeSession d c sessionID now st w =
    checked [validateSegment ''session_id'' sessionID] st w
     (with_dir d sessionID st w (\<lambda>dir st.
       case with_lock d (lock_path dir) (\<lambda>w.
           case readSessionMeta d c (meta_path dir) w of
             Inl e \<Rightarrow> (Inl e, w)
           | Inr s \<Rightarrow>
             if isClosed s then (Inr (), w)
             else writeJSONFile d (meta_path dir)
               (en_session c (s\<lparr>ss_closedAt := now, ss_updatedAt := (if ss_updatedAt s < now then now else ss_updatedAt s)\<rparr>)) w) w of
         (r, w) \<Rightarrow> (r, st, w)))"

section \<open>Messages\<close>

text \<open>What AppendMessage makes of a message before it is written; \<open>now\<close> is asked when it has no time.\<close>

definition prepare_message :: "Go_Time.time \<Rightarrow> stored_message \<Rightarrow> chat_error + stored_message" where
  "prepare_message now msg =
    (if trim_space (cm_role msg) = [] then Inl (ChatError ''chatstore: message role is required'')
     else
      (let parts = normalize_parts (cm_contentParts msg); msg = msg\<lparr>cm_contentParts := parts\<rparr>;
           msg = (if trim_space (cm_content msg) = [] then msg\<lparr>cm_content := visibleText parts\<rparr> else msg)
       in if trim_space (cm_content msg) = [] \<and> parts = [] then Inl (ChatError ''chatstore: message content is required'')
          else Inr (if cm_ts msg = 0 then msg\<lparr>cm_ts := now\<rparr> else msg)))"

definition touch_session ::
  "'w chat_disk \<Rightarrow> codec \<Rightarrow> string \<Rightarrow> Go_Time.time \<Rightarrow> Go_Time.time \<Rightarrow> 'w \<Rightarrow> (chat_error + unit) \<times> 'w" where
  "touch_session d c dir ts now w =
    (case readSessionMeta d c (meta_path dir) w of
       Inl e \<Rightarrow> (Inl e, w)
     | Inr s \<Rightarrow>
       writeJSONFile d (meta_path dir) (en_session c (s\<lparr>ss_updatedAt := (if ss_updatedAt s < ts then ts else now)\<rparr>)) w)"

definition appendMessage ::
  "'w chat_disk \<Rightarrow> codec \<Rightarrow> string \<Rightarrow> stored_message \<Rightarrow> Go_Time.time \<Rightarrow> Go_Time.time \<Rightarrow> chat_store \<Rightarrow> 'w \<Rightarrow> (unit, 'w) answer" where
  "appendMessage d c sessionID msg now later st w =
    checked [validateSegment ''session_id'' sessionID] st w
     (case prepare_message now msg of
        Inl e \<Rightarrow> (Inl e, st, w)
      | Inr msg \<Rightarrow>
        with_dir d sessionID st w (\<lambda>dir st.
          case with_lock d (lock_path dir) (\<lambda>w.
              case en_message c msg of
                None \<Rightarrow> (Inl (ChatError ''chatstore: marshal message''), w)
              | Some line \<Rightarrow>
                then_do ''chatstore: append message: '' (cd_append d (messages_path dir) (line @ lf) w)
                  (touch_session d c dir (cm_ts msg) later)) w of
            (r, w) \<Rightarrow> (r, st, w)))"

text \<open>The loop of ReadRecentMessages over the lines from the last on.\<close>

definition decode_line :: "codec \<Rightarrow> string \<Rightarrow> stored_message option" where
  "decode_line c l = (let line = trim_space l in if line = [] then None else de_message c line)"

function collect_recent :: "codec \<Rightarrow> int \<Rightarrow> stored_message list \<Rightarrow> rev_scanner \<Rightarrow> stored_message list \<times> scan_error option" where
  "collect_recent c limit all s =
    (case scan s of
       (False, s') \<Rightarrow> (all, sc_err s')
     | (True, s') \<Rightarrow>
       (case decode_line c (sc_line s') of
          None \<Rightarrow> collect_recent c limit all s'
        | Some m \<Rightarrow> if limit \<le> int (length all) + 1 then (all @ [m], sc_err s') else collect_recent c limit (all @ [m]) s'))"
  by pat_completeness auto
termination
  by (relation "measure (\<lambda>(c, limit, all, s). scan_size s)") (auto dest: scan_size_less [OF sym])

declare collect_recent.simps [simp del]

definition scan_error_text :: string where
  "scan_error_text = ''chatstore: scan messages: message exceeds '' @ itoa (int messageScanBufferMax) @ '' bytes''"

text \<open>The log of a session as the scanner gets it; a missing one has no lines.\<close>

definition with_log ::
  "'w chat_disk \<Rightarrow> string \<Rightarrow> 'a \<Rightarrow> (rev_scanner \<Rightarrow> 'a \<times> scan_error option) \<Rightarrow> 'w \<Rightarrow> (chat_error + 'a) \<times> 'w" where
  "with_log d dir none f w =
    (case cd_read d (messages_path dir) w of
       Inl (NotExist _) \<Rightarrow> (Inr none, w)
     | Inl (OsFailure t) \<Rightarrow> (Inl (ChatError (''chatstore: open messages: '' @ t)), w)
     | Inr bytes \<Rightarrow>
       (case f (newReverseScanner bytes messageScanBufferInit messageScanBufferMax) of
          (r, None) \<Rightarrow> (Inr r, w) | (_, Some ErrTooLong) \<Rightarrow> (Inl (ChatError scan_error_text), w)))"

definition readRecentMessages ::
  "'w chat_disk \<Rightarrow> codec \<Rightarrow> string \<Rightarrow> int \<Rightarrow> chat_store \<Rightarrow> 'w \<Rightarrow> (stored_message list, 'w) answer" where
  "readRecentMessages d c sessionID limit st w =
    checked [validateSegment ''session_id'' sessionID] st w
     (let limit = clampHistoryCount limit DefaultMaxHistoryCount in
      with_dir d sessionID st w (\<lambda>dir st.
        case with_lock d (lock_path dir) (with_log d dir [] (collect_recent c limit [])) w of
          (Inl e, w) \<Rightarrow> (Inl e, st, w) | (Inr all, w) \<Rightarrow> (Inr (rev all), st, w)))"

function find_message :: "codec \<Rightarrow> string \<Rightarrow> rev_scanner \<Rightarrow> stored_message option \<times> scan_error option" where
  "find_message c messageID s =
    (case scan s of
       (False, s') \<Rightarrow> (None, sc_err s')
     | (True, s') \<Rightarrow>
       (case decode_line c (sc_line s') of
          None \<Rightarrow> find_message c messageID s'
        | Some m \<Rightarrow> if trim_space (cm_messageID m) \<noteq> messageID then find_message c messageID s' else (Some m, None)))"
  by pat_completeness auto
termination
  by (relation "measure (\<lambda>(c, messageID, s). scan_size s)") (auto dest: scan_size_less [OF sym])

declare find_message.simps [simp del]

definition findLatestMessageInSession ::
  "'w chat_disk \<Rightarrow> codec \<Rightarrow> string \<Rightarrow> string \<Rightarrow> chat_store \<Rightarrow> 'w \<Rightarrow> (stored_message option, 'w) answer" where
  "findLatestMessageInSession d c sessionID messageID st w =
    checked [validateSegment ''session_id'' sessionID] st w
     (with_dir d sessionID st w (\<lambda>dir st.
       case with_lock d (lock_path dir) (with_log d dir None (find_message c messageID)) w of (r, w) \<Rightarrow> (r, st, w)))"

fun find_in_sessions ::
  "'w chat_disk \<Rightarrow> codec \<Rightarrow> string \<Rightarrow> session list \<Rightarrow> chat_store \<Rightarrow> 'w \<Rightarrow> (session \<times> stored_message, 'w) answer" where
  "find_in_sessions d c messageID [] st w = (Inl ErrMessageNotFound, st, w)"
| "find_in_sessions d c messageID (s # ss) st w =
     (case findLatestMessageInSession d c (ss_sessionID s) messageID st w of
        (Inl e, st, w) \<Rightarrow> (Inl e, st, w)
      | (Inr (Some m), st, w) \<Rightarrow> (Inr (s, m), st, w)
      | (Inr None, st, w) \<Rightarrow> find_in_sessions d c messageID ss st w)"

definition findLatestMessage ::
  "'w chat_disk \<Rightarrow> codec \<Rightarrow> (string list \<Rightarrow> string) \<Rightarrow> string \<Rightarrow> string \<Rightarrow> chat_store \<Rightarrow> 'w \<Rightarrow> (session \<times> stored_message, 'w) answer" where
  "findLatestMessage d c evict agentID messageID st w =
    checked [validateSegment ''agent_id'' agentID, validateSegment ''message_id'' messageID] st w
     (case listSessions d c evict agentID [] [] ''agent-mail'' st w of
        (Inl e, st) \<Rightarrow> (Inl e, st, w) | (Inr ss, st) \<Rightarrow> find_in_sessions d c messageID ss st w)"

section \<open>Pointers to what is active\<close>

text \<open>json.MarshalIndent of a map with one string, and the string under a name when it is read.\<close>

definition pointer_json :: "string \<Rightarrow> string \<Rightarrow> string" where
  "pointer_json key value = CHR 0x7B # lf @ ''  '' @ enc_string key @ '': '' @ enc_string value @ lf @ [CHR 0x7D]"

definition pointer_value :: "string \<Rightarrow> string \<Rightarrow> string option" where
  "pointer_value key b =
    (case unmarshal b of
       Some (JObj m) \<Rightarrow>
         (case mget m key of None \<Rightarrow> Some [] | Some JNull \<Rightarrow> Some [] | Some (JStr s) \<Rightarrow> Some s | Some _ \<Rightarrow> None)
     | Some JNull \<Rightarrow> Some []
     | _ \<Rightarrow> None)"

definition setActiveSessionPointer ::
  "'w chat_disk \<Rightarrow> codec \<Rightarrow> string \<Rightarrow> string \<Rightarrow> string \<Rightarrow> string \<Rightarrow> string \<Rightarrow> chat_store \<Rightarrow> 'w \<Rightarrow> (unit, 'w) answer" where
  "setActiveSessionPointer d c agentID channel userID roomID sessionID st w =
    checked [validateSegment ''agent_id'' agentID, validateSegment ''channel'' channel, validateSegment ''user_id'' userID,
      validateSegment ''room_id'' roomID, validateSegment ''session_id'' sessionID] st w
     (with_dir d sessionID st w (\<lambda>dir st.
       case readSessionMeta d c (meta_path dir) w of
         Inl e \<Rightarrow> (Inl e, st, w)
       | Inr s \<Rightarrow>
         if ss_agentID s \<noteq> agentID then (Inl ErrSessionNotFound, st, w)
         else if isClosed s then (Inl ErrSessionClosed, st, w)
         else
          (let path = activePointerPath st agentID channel userID roomID in
           case with_lock d (path @ ''.lock'') (writeJSONFile d path (pointer_json ''session_id'' sessionID)) w of
             (r, w) \<Rightarrow> (r, st, w))))"

definition setActiveAgentPointer ::
  "'w chat_disk \<Rightarrow> string \<Rightarrow> string \<Rightarrow> string \<Rightarrow> string \<Rightarrow> chat_store \<Rightarrow> 'w \<Rightarrow> (unit, 'w) answer" where
  "setActiveAgentPointer d channel userID roomID agentID st w =
    checked [validateSegment ''channel'' channel, validateSegment ''user_id'' userID, validateSegment ''room_id'' roomID,
      validateSegment ''agent_id'' agentID] st w
     (let path = activeAgentPointerPath st channel userID roomID in
      case with_lock d (path @ ''.lock'') (writeJSONFile d path (pointer_json ''agent_id'' agentID)) w of (r, w) \<Rightarrow> (r, st, w))"

definition read_pointer :: "'w chat_disk \<Rightarrow> string \<Rightarrow> string \<Rightarrow> string \<Rightarrow> 'w \<Rightarrow> (chat_error + string) \<times> 'w" where
  "read_pointer d what key path w =
    (case with_lock d (path @ ''.lock'') (\<lambda>w.
         case readFileWithBackup d path w of
           Inr b \<Rightarrow> (Inr b, w)
         | Inl (NotExist _) \<Rightarrow> (Inl ErrSessionNotFound, w)
         | Inl (OsFailure t) \<Rightarrow> (Inl (ChatError (''chatstore: read '' @ what @ '': '' @ t)), w)) w of
       (Inl e, w) \<Rightarrow> (Inl e, w)
     | (Inr b, w) \<Rightarrow>
       (case pointer_value key b of None \<Rightarrow> (Inl (ChatError (''chatstore: parse '' @ what)), w) | Some v \<Rightarrow> (Inr v, w)))"

definition getActiveAgentPointer ::
  "'w chat_disk \<Rightarrow> string \<Rightarrow> string \<Rightarrow> string \<Rightarrow> chat_store \<Rightarrow> 'w \<Rightarrow> (string, 'w) answer" where
  "getActiveAgentPointer d channel userID roomID st w =
    checked [validateSegment ''channel'' channel, validateSegment ''user_id'' userID, validateSegment ''room_id'' roomID] st w
     (case read_pointer d ''active agent pointer'' ''agent_id'' (activeAgentPointerPath st channel userID roomID) w of
        (Inl e, w) \<Rightarrow> (Inl e, st, w)
      | (Inr v, w) \<Rightarrow> if trim_space v = [] then (Inl ErrSessionNotFound, st, w) else (Inr v, st, w))"

definition getActiveSessionPointer ::
  "'w chat_disk \<Rightarrow> string \<Rightarrow> string \<Rightarrow> string \<Rightarrow> string \<Rightarrow> chat_store \<Rightarrow> 'w \<Rightarrow> (string, 'w) answer" where
  "getActiveSessionPointer d agentID channel userID roomID st w =
    checked [validateSegment ''agent_id'' agentID, validateSegment ''channel'' channel, validateSegment ''user_id'' userID,
      validateSegment ''room_id'' roomID] st w
     (case read_pointer d ''active pointer'' ''session_id'' (activePointerPath st agentID channel userID roomID) w of
        (Inl e, w) \<Rightarrow> (Inl e, st, w)
      | (Inr v, w) \<Rightarrow> if v = [] then (Inl ErrSessionNotFound, st, w) else (Inr v, st, w))"

definition listAgents :: "'w chat_disk \<Rightarrow> chat_store \<Rightarrow> 'w \<Rightarrow> chat_error + string list" where
  "listAgents d st w =
    (case cd_list d (st_agentsRoot st) w of
       Inl (NotExist _) \<Rightarrow> Inr []
     | Inl (OsFailure t) \<Rightarrow> Inl (ChatError t)
     | Inr entries \<Rightarrow>
       Inr (sort (filter (\<lambda>name. name \<noteq> [] \<and> \<not> prefix ''_'' name) (map (\<lambda>(name, isDir). trim_space name) (filter snd entries)))))"

end
