(* ===== verification/Chat_Connector.thy ===== *)
theory Chat_Connector
  imports Chat_Store Chat_Bridge
begin

text \<open>
  The connector of internal/channels/chat/connector.go, which takes a message of a chat: it refuses it, answers
  a command, or stores it in the active session of its sender and queues a run. The limiters and the store
  are its state, the queue is a parameter.
\<close>

section \<open>Data\<close>

record chat_in =
  ci_instanceID :: string
  ci_userID :: string
  ci_roomID :: string
  ci_agentID :: string
  ci_source :: string
  ci_text :: string
  ci_contentParts :: "content_part list"
  ci_thinkingMode :: string

record chat_result =
  cr_instanceID :: string
  cr_agentID :: string
  cr_id :: string
  cr_status :: string
  cr_response :: string
  cr_sessionID :: string

record queued_run =
  qd_instanceID :: string
  qd_agentID :: string
  qd_id :: string
  qd_status :: string

datatype connector_error =
    QueueNotConfigured | StoreNotConfigured | ContentRequired | ErrNotAllowlisted
  | RateLimited rate_limit_error | StoreFailed chat_error | QueueFailed string

record queue_request =
  qe_instanceID :: string
  qe_agentID :: string
  qe_message :: string
  qe_parts :: "content_part list"
  qe_source :: string
  qe_sessionID :: string
  qe_thinkingMode :: string

type_synonym 'w queue_func = "queue_request \<Rightarrow> 'w \<Rightarrow> (string + queued_run) \<times> 'w"

record connector =
  cn_allowlist :: "allowlist option"
  cn_rateLimiter :: "rate_limiter option"
  cn_globalLimiter :: "rate_limiter option"
  cn_defaultAgentID :: string
  cn_store :: "chat_store option"

text \<open>What a call reads of the clock and of the source of random bytes, and the parts it is wired to.\<close>

record call_inputs =
  ca_limitTime :: Chat_Limits.time
  ca_createTime :: Go_Time.time
  ca_random :: "os_error + string"
  ca_appendTime :: Go_Time.time
  ca_touchTime :: Go_Time.time

record 'w wiring =
  wi_disk :: "'w chat_disk"
  wi_codec :: codec
  wi_evict :: "string list \<Rightarrow> string"

type_synonym 'w reply = "(connector_error + chat_result) \<times> chat_store \<times> 'w"

section \<open>Replies\<close>

definition firstNonEmptyResult :: "string list \<Rightarrow> string" where
  "firstNonEmptyResult values = (case filter (\<lambda>t. t \<noteq> []) (map trim_space values) of [] \<Rightarrow> [] | t # _ \<Rightarrow> t)"

definition queuedStatusMessage :: "string \<Rightarrow> string \<Rightarrow> string" where
  "queuedStatusMessage runID status =
    (let runID = trim_space runID; status = trim_space status; status = (if status = [] then ''queued'' else status)
     in if runID = [] then ''Working on it now. I will follow up here when it completes or if it fails.''
        else ''Working on it now. Run '' @ runID @ '' is '' @ status @ ''. I will follow up here when it completes or if it fails.'')"

definition reply :: "chat_in \<Rightarrow> string \<Rightarrow> string \<Rightarrow> string \<Rightarrow> chat_result" where
  "reply msg agentID response sessionID =
    \<lparr>cr_instanceID = trim_space (ci_instanceID msg), cr_agentID = agentID, cr_id = [], cr_status = [],
     cr_response = response, cr_sessionID = sessionID\<rparr>"

text \<open>Store answers that are passed on when they are errors.\<close>

definition from_store :: "('a, 'w) answer \<Rightarrow> ('a \<Rightarrow> chat_store \<Rightarrow> 'w \<Rightarrow> 'w reply) \<Rightarrow> 'w reply" where
  "from_store a f = (case a of (Inl e, st, w) \<Rightarrow> (Inl (StoreFailed e), st, w) | (Inr x, st, w) \<Rightarrow> f x st w)"

section \<open>Sessions\<close>

text \<open>Who chats where: the agent, the channel, the user and the room.\<close>

record chat_scope =
  sc_agentID :: string
  sc_source :: string
  sc_userID :: string
  sc_roomID :: string

definition in_scope :: "chat_scope \<Rightarrow> session \<Rightarrow> bool" where
  "in_scope p s \<longleftrightarrow> ss_agentID s = sc_agentID p \<and> ss_channel s = sc_source p \<and> ss_userID s = sc_userID p \<and> ss_roomID s = sc_roomID p"

definition createAndSetActiveSession ::
  "'w wiring \<Rightarrow> call_inputs \<Rightarrow> chat_scope \<Rightarrow> chat_store \<Rightarrow> 'w \<Rightarrow> (session, 'w) answer" where
  "createAndSetActiveSession wi ca p st w =
    (case createSession (wi_disk wi) (wi_codec wi)
         \<lparr>si_agentID = sc_agentID p, si_channel = sc_source p, si_userID = sc_userID p, si_roomID = sc_roomID p, si_title = []\<rparr>
         (ca_createTime ca) (ca_random ca) st w of
       (Inl e, st, w) \<Rightarrow> (Inl e, st, w)
     | (Inr s, st, w) \<Rightarrow>
       (case setActiveSessionPointer (wi_disk wi) (wi_codec wi) (sc_agentID p) (sc_source p) (sc_userID p) (sc_roomID p)
            (ss_sessionID s) st w of
          (Inl e, st, w) \<Rightarrow> (Inl e, st, w) | (Inr _, st, w) \<Rightarrow> (Inr s, st, w)))"

definition resolveOrCreateActiveSession ::
  "'w wiring \<Rightarrow> call_inputs \<Rightarrow> chat_scope \<Rightarrow> chat_store \<Rightarrow> 'w \<Rightarrow> (session, 'w) answer" where
  "resolveOrCreateActiveSession wi ca p st w =
    (case getActiveSessionPointer (wi_disk wi) (sc_agentID p) (sc_source p) (sc_userID p) (sc_roomID p) st w of
       (Inl e, st, w) \<Rightarrow> if e = ErrSessionNotFound then createAndSetActiveSession wi ca p st w else (Inl e, st, w)
     | (Inr activeID, st, w) \<Rightarrow>
       (case getSession (wi_disk wi) (wi_codec wi) activeID st w of
          (Inl e, st, w) \<Rightarrow> if e = ErrSessionNotFound then createAndSetActiveSession wi ca p st w else (Inl e, st, w)
        | (Inr s, st, w) \<Rightarrow>
          if \<not> in_scope p s then createAndSetActiveSession wi ca p st w
          else if isClosed s then createAndSetActiveSession wi ca p st w
          else (Inr s, st, w)))"

section \<open>Commands\<close>

definition agents_command :: "'w wiring \<Rightarrow> chat_in \<Rightarrow> string \<Rightarrow> chat_store \<Rightarrow> 'w \<Rightarrow> 'w reply" where
  "agents_command wi msg agentID st w =
    (case listAgents (wi_disk wi) st w of
       Inl e \<Rightarrow> (Inl (StoreFailed e), st, w)
     | Inr [] \<Rightarrow> (Inr (reply msg agentID ''No agents found'' []), st, w)
     | Inr agents \<Rightarrow>
       (Inr (reply msg agentID
          (join_with lf (''Available agents:'' # map (\<lambda>a. if a = agentID then ''- '' @ a @ '' (active)'' else ''- '' @ a) agents)) []), st, w))"

definition agent_command :: "'w wiring \<Rightarrow> chat_in \<Rightarrow> string \<Rightarrow> string \<Rightarrow> chat_scope \<Rightarrow> chat_store \<Rightarrow> 'w \<Rightarrow> 'w reply" where
  "agent_command wi msg command agentID p st w =
    (case go_fields command of
       [_, word] \<Rightarrow>
         (let nextAgent = trim_space word in
          if nextAgent = [] \<or> contains nextAgent ''..'' \<or> slash \<in> set nextAgent \<or> CHR 0x5C \<in> set nextAgent
          then (Inr (reply msg agentID ''Invalid agent id'' []), st, w)
          else (case listAgents (wi_disk wi) st w of
              Inl e \<Rightarrow> (Inl (StoreFailed e), st, w)
            | Inr agents \<Rightarrow>
              if nextAgent \<notin> set agents
              then (Inr (reply msg agentID (''Agent not found: '' @ nextAgent @ '' (create it first or run /agents)'') []), st, w)
              else from_store (setActiveAgentPointer (wi_disk wi) (sc_source p) (sc_userID p) (sc_roomID p) nextAgent st w)
                (\<lambda>_ st w. (Inr (reply msg nextAgent (''Switched active agent to: '' @ nextAgent) []), st, w))))
     | _ \<Rightarrow> (Inr (reply msg agentID ''Usage: /agent <agent_id>'' []), st, w))"

definition resume_command :: "'w wiring \<Rightarrow> chat_in \<Rightarrow> string \<Rightarrow> string \<Rightarrow> chat_scope \<Rightarrow> chat_store \<Rightarrow> 'w \<Rightarrow> 'w reply" where
  "resume_command wi msg command agentID p st w =
    (case go_fields command of
       [_, sessionID] \<Rightarrow>
         (case getSession (wi_disk wi) (wi_codec wi) sessionID st w of
            (Inl e, st, w) \<Rightarrow>
              if e = ErrSessionNotFound then (Inr (reply msg agentID (''Session not found: '' @ sessionID) []), st, w)
              else (Inl (StoreFailed e), st, w)
          | (Inr s, st, w) \<Rightarrow>
            if \<not> in_scope p s then (Inr (reply msg agentID ''Session not available in this chat context'' []), st, w)
            else if isClosed s
            then (Inr (reply msg agentID (''Session is closed: '' @ sessionID @ '' (use /new to continue)'') []), st, w)
            else from_store (setActiveSessionPointer (wi_disk wi) (wi_codec wi) agentID (sc_source p) (sc_userID p) (sc_roomID p) sessionID st w)
              (\<lambda>_ st w. (Inr (reply msg agentID (''Resumed chat: '' @ sessionID) sessionID), st, w)))
     | _ \<Rightarrow>
       (Inr \<lparr>cr_instanceID = [], cr_agentID = [], cr_id = [], cr_status = [], cr_response = ''Usage: /resume <session_id>'',
          cr_sessionID = []\<rparr>, st, w))"

text \<open>The sessions numbered from i.\<close>

fun session_lines :: "nat \<Rightarrow> session list \<Rightarrow> string list" where
  "session_lines i [] = []"
| "session_lines i (s # ss) =
     (itoa (int i) @ ''. '' @ ss_sessionID s @ (if isClosed s then '' (closed)'' else [])) # session_lines (i + 1) ss"

definition chats_command :: "'w wiring \<Rightarrow> chat_in \<Rightarrow> string \<Rightarrow> chat_scope \<Rightarrow> chat_store \<Rightarrow> 'w \<Rightarrow> 'w reply" where
  "chats_command wi msg agentID p st w =
    (case listSessions (wi_disk wi) (wi_codec wi) (wi_evict wi) agentID (sc_userID p) (sc_roomID p) (sc_source p) st w of
       (Inl e, st) \<Rightarrow> (Inl (StoreFailed e), st, w)
     | (Inr [], st) \<Rightarrow> (Inr (reply msg agentID ''No chats found'' []), st, w)
     | (Inr ss, st) \<Rightarrow> (Inr (reply msg agentID (join_with lf (''Recent chats:'' # session_lines 1 (take 10 ss))) []), st, w))"

definition user_message :: "string \<Rightarrow> content_part list \<Rightarrow> stored_message" where
  "user_message content parts =
    \<lparr>cm_role = ''user'', cm_content = content, cm_contentParts = parts, cm_ts = 0, cm_messageID = [], cm_status = [], cm_instanceID = [],
     cm_fromAgentID = [], cm_toAgentID = [], cm_taskID = [], cm_subject = [], cm_channel = [], cm_userID = [], cm_sourceSessionID = [],
     cm_relatedRunID = [], cm_note = [], cm_error = [], cm_updatedAt = 0, cm_runID = [], cm_toolCallID = [], cm_toolName = []\<rparr>"

definition send_message ::
  "'w wiring \<Rightarrow> 'w queue_func \<Rightarrow> call_inputs \<Rightarrow> chat_in \<Rightarrow> content_part list \<Rightarrow> chat_scope \<Rightarrow> chat_store \<Rightarrow> 'w \<Rightarrow> 'w reply" where
  "send_message wi queue ca msg parts p st w =
    from_store (resolveOrCreateActiveSession wi ca p st w) (\<lambda>s st w.
    from_store (appendMessage (wi_disk wi) (wi_codec wi) (ss_sessionID s) (user_message (ci_text msg) parts)
        (ca_appendTime ca) (ca_touchTime ca) st w) (\<lambda>_ st w.
    case queue \<lparr>qe_instanceID = trim_space (ci_instanceID msg), qe_agentID = sc_agentID p, qe_message = ci_text msg, qe_parts = parts,
        qe_source = sc_source p, qe_sessionID = ss_sessionID s, qe_thinkingMode = ci_thinkingMode msg\<rparr> w of
      (Inl e, w) \<Rightarrow> (Inl (QueueFailed e), st, w)
    | (Inr q, w) \<Rightarrow>
      (Inr \<lparr>cr_instanceID = firstNonEmptyResult [qd_instanceID q, ci_instanceID msg],
         cr_agentID = firstNonEmptyResult [qd_agentID q, sc_agentID p], cr_id = qd_id q, cr_status = qd_status q,
         cr_response = queuedStatusMessage (qd_id q) (qd_status q), cr_sessionID = ss_sessionID s\<rparr>, st, w)))"

section \<open>A message\<close>

definition chosen_agent :: "'w wiring \<Rightarrow> connector \<Rightarrow> chat_in \<Rightarrow> string \<Rightarrow> string \<Rightarrow> chat_store \<Rightarrow> 'w \<Rightarrow> string \<times> chat_store \<times> 'w" where
  "chosen_agent wi cn msg source roomID st w =
    (let agentID = trim_space (ci_agentID msg);
         fallback = (\<lambda>a. let a = (if a = [] then trim_space (cn_defaultAgentID cn) else a) in if a = [] then ''default'' else a)
     in if agentID \<noteq> [] then (agentID, st, w)
        else (case getActiveAgentPointer (wi_disk wi) source (ci_userID msg) roomID st w of
            (Inl _, st, w) \<Rightarrow> (fallback [], st, w) | (Inr a, st, w) \<Rightarrow> (fallback (trim_space a), st, w)))"

definition dispatch ::
  "'w wiring \<Rightarrow> 'w queue_func \<Rightarrow> call_inputs \<Rightarrow> connector \<Rightarrow> chat_in \<Rightarrow> content_part list \<Rightarrow> chat_store \<Rightarrow> 'w \<Rightarrow> 'w reply" where
  "dispatch wi queue ca cn msg parts st w =
    (let source = (if trim_space (ci_source msg) = [] then ''chat'' else trim_space (ci_source msg));
         roomID = (if trim_space (ci_roomID msg) = [] then source else trim_space (ci_roomID msg));
         command = trim_space (ci_text msg)
     in case chosen_agent wi cn msg source roomID st w of
          (agentID, st, w) \<Rightarrow>
            (let p = \<lparr>sc_agentID = agentID, sc_source = source, sc_userID = ci_userID msg, sc_roomID = roomID\<rparr> in
             if command = ''/agents'' then agents_command wi msg agentID st w
             else if command = ''/agent'' then (Inr (reply msg agentID (''Active agent: '' @ agentID) []), st, w)
             else if prefix ''/agent '' command then agent_command wi msg command agentID p st w
             else if command = ''/new''
             then from_store (createAndSetActiveSession wi ca p st w)
               (\<lambda>s st w. (Inr (reply msg agentID (''Started new chat: '' @ ss_sessionID s) (ss_sessionID s)), st, w))
             else if prefix ''/resume'' command then resume_command wi msg command agentID p st w
             else if command = ''/chats'' \<or> command = ''/sessions'' then chats_command wi msg agentID p st w
             else send_message wi queue ca msg parts p st w))"

definition check_limit :: "rate_limiter option \<Rightarrow> string \<Rightarrow> string \<Rightarrow> Chat_Limits.time \<Rightarrow> rate_limit_error option \<times> rate_limiter option" where
  "check_limit limiter key scope now =
    (case limiter of
       None \<Rightarrow> (None, None)
     | Some r \<Rightarrow>
       (case allowWithDetails r key now of
          ((True, _), r') \<Rightarrow> (None, Some r') | ((False, wait), r') \<Rightarrow> (Some (newRateLimitError scope wait), Some r')))"

definition handleMessage ::
  "'w wiring \<Rightarrow> 'w queue_func option \<Rightarrow> call_inputs \<Rightarrow> chat_in \<Rightarrow> connector \<Rightarrow> 'w \<Rightarrow> (connector_error + chat_result) \<times> connector \<times> 'w" where
  "handleMessage wi queue ca msg cn w =
    (case queue of
       None \<Rightarrow> (Inl QueueNotConfigured, cn, w)
     | Some q \<Rightarrow>
     (case cn_store cn of
       None \<Rightarrow> (Inl StoreNotConfigured, cn, w)
     | Some st \<Rightarrow>
       (let parts = normalize_parts (ci_contentParts msg);
            msg = (if trim_space (ci_text msg) = [] then msg\<lparr>ci_text := visibleText parts\<rparr> else msg)
        in if trim_space (ci_userID msg) = [] \<or> trim_space (ci_text msg) = [] \<and> parts = [] then (Inl ContentRequired, cn, w)
           else if (case cn_allowlist cn of None \<Rightarrow> False | Some a \<Rightarrow> \<not> messageAllowed a (ci_userID msg) (ci_roomID msg))
           then (Inl ErrNotAllowlisted, cn, w)
           else (case check_limit (cn_globalLimiter cn) ''global'' ''global'' (ca_limitTime ca) of
               (Some e, g) \<Rightarrow> (Inl (RateLimited e), cn\<lparr>cn_globalLimiter := g\<rparr>, w)
             | (None, g) \<Rightarrow>
               (case check_limit (cn_rateLimiter cn) (ci_userID msg @ '':'' @ ci_roomID msg) ''sender'' (ca_limitTime ca) of
                  (Some e, l) \<Rightarrow> (Inl (RateLimited e), cn\<lparr>cn_globalLimiter := g, cn_rateLimiter := l\<rparr>, w)
                | (None, l) \<Rightarrow>
                  (case dispatch wi q ca cn msg parts st w of
                     (r, st', w') \<Rightarrow> (r, cn\<lparr>cn_globalLimiter := g, cn_rateLimiter := l, cn_store := Some st'\<rparr>, w')))))))"

end
