(* ===== verification/Reverse_Scanner_Facts.thy ===== *)
theory Reverse_Scanner_Facts
  imports Reverse_Scanner "HOL-Library.Sublist"
begin

text \<open>
  What the reverse scanner returns, against the lines of the file: whatever the chunks, the lines come out
  from the last to the first, without the empty one behind a final line feed.
\<close>

section \<open>The lines of a text from its end\<close>

abbreviation line_feed :: char where "line_feed \<equiv> CHR 0x0A"

text \<open>The lines of a text and the beginning of a line behind it, the first of all only if it is not empty.\<close>

definition lines_back :: "string \<Rightarrow> string \<Rightarrow> string list" where
  "lines_back x t = rev (if hd (split_on line_feed (x @ t)) = [] then tl (split_on line_feed (x @ t))
                         else split_on line_feed (x @ t))"

definition ends_line :: "string \<Rightarrow> bool" where
  "ends_line x \<longleftrightarrow> x \<noteq> [] \<and> last x = line_feed"

definition scanned :: "string \<Rightarrow> string list" where
  "scanned c = map dropCR (if ends_line c then tl (lines_back c []) else lines_back c [])"

lemma split_snoc: "split_on d (x @ d # s) = split_on d x @ split_on d s"
proof (induction x)
  case (Cons c x)
  obtain p ps where "split_on d x = p # ps" using split_on_nonempty by (cases "split_on d x") auto
  with Cons show ?case by simp
qed simp

lemma lines_back_lf:
  assumes "line_feed \<notin> set y" "line_feed \<notin> set t"
  shows "lines_back (x @ line_feed # y) t = (y @ t) # lines_back x []"
proof -
  have "split_on line_feed (y @ t) = [y @ t]" using assms by (intro split_on_single) simp
  then have "split_on line_feed ((x @ line_feed # y) @ t) = split_on line_feed x @ [y @ t]" using split_snoc [of line_feed x "y @ t"] by simp
  moreover obtain p ps where "split_on line_feed x = p # ps" using split_on_nonempty by (cases "split_on line_feed x") auto
  ultimately show ?thesis by (simp add: lines_back_def)
qed

lemma lines_back_append: "lines_back (x @ y) t = lines_back x (y @ t)"
  by (simp add: lines_back_def)

lemma lines_back_Nil: "line_feed \<notin> set t \<Longrightarrow> lines_back [] t = (if t = [] then [] else [t])"
  by (simp add: lines_back_def split_on_single)

section \<open>What is left to return\<close>

text \<open>The text left of the position in the chunk, and the line that is being built from the right.\<close>

definition text_left :: "rev_scanner \<Rightarrow> nat \<Rightarrow> string" where
  "text_left s right = take (sc_pos s + right) (sc_file s)"

definition built :: "rev_scanner \<Rightarrow> string" where
  "built s = concat (rev (sc_leftover s))"

definition scan_inv :: "nat \<Rightarrow> rev_scanner \<Rightarrow> bool" where
  "scan_inv right s \<longleftrightarrow> sc_fileSize s = length (sc_file s) \<and> sc_leftoverSize s = length (built s) \<and>
     line_feed \<notin> set (built s) \<and> sc_pos s + right \<le> length (sc_file s) \<and>
     (text_left s right @ built s = [] \<or> set (split_on line_feed (text_left s right @ built s)) \<subseteq> set (split_on line_feed (sc_file s)))"

definition at_end :: "nat \<Rightarrow> rev_scanner \<Rightarrow> bool" where
  "at_end right s \<longleftrightarrow> sc_pos s + right = sc_fileSize s \<and> sc_leftoverSize s = 0 \<and> ends_line (sc_file s)"

definition to_return :: "nat \<Rightarrow> rev_scanner \<Rightarrow> string list" where
  "to_return right s = sc_pending s @ map dropCR
     (if at_end right s then tl (lines_back (text_left s right) (built s)) else lines_back (text_left s right) (built s))"

lemma scan_invI:
  assumes "sc_fileSize s = length (sc_file s)" "sc_leftoverSize s = length (built s)" "line_feed \<notin> set (built s)"
    "sc_pos s + right \<le> length (sc_file s)"
    "text_left s right @ built s = [] \<or> set (split_on line_feed (text_left s right @ built s)) \<subseteq> set (split_on line_feed (sc_file s))"
  shows "scan_inv right s"
  using assms by (simp add: scan_inv_def)

lemma scan_invD:
  assumes "scan_inv right s"
  shows "sc_fileSize s = length (sc_file s)" "sc_leftoverSize s = length (built s)" "line_feed \<notin> set (built s)"
    "sc_pos s + right \<le> length (sc_file s)"
    "text_left s right @ built s = [] \<or> set (split_on line_feed (text_left s right @ built s)) \<subseteq> set (split_on line_feed (sc_file s))"
  using assms by (simp_all add: scan_inv_def)

text \<open>The chunk that was read, and where it lies in the file.\<close>

definition chunk_at :: "rev_scanner \<Rightarrow> string \<Rightarrow> bool" where
  "chunk_at s chunk \<longleftrightarrow> (\<exists>n. chunk = take n (drop (sc_pos s) (sc_file s)))"

lemma text_left_chunk:
  assumes "chunk_at s chunk" "right \<le> length chunk"
  shows "text_left s right = text_left s 0 @ take right chunk"
proof -
  obtain n where c: "chunk = take n (drop (sc_pos s) (sc_file s))" using assms(1) chunk_at_def by blast
  then have "right \<le> n" using assms(2) by simp
  then have "take right chunk = take right (drop (sc_pos s) (sc_file s))" unfolding c by (simp add: min_absorb1)
  then show ?thesis by (simp add: text_left_def take_add)
qed

lemma chunk_at_length: "chunk_at s chunk \<Longrightarrow> sc_pos s \<le> length (sc_file s) \<Longrightarrow> sc_pos s + length chunk \<le> length (sc_file s)"
  by (auto simp: chunk_at_def)

text \<open>The step to the line feed at idx in the chunk.\<close>

lemma text_left_lf:
  assumes "chunk_at s chunk" "right \<le> length chunk" "last_index line_feed (take right chunk) = Some idx"
  shows "text_left s right = text_left s idx @ line_feed # drop (idx + 1) (take right chunk)"
    "line_feed \<notin> set (drop (idx + 1) (take right chunk))" "idx < right"
proof -
  note l = last_index_Some [OF assms(3)]
  show less: "idx < right" using last_index_less [OF assms(3)] by simp
  have "text_left s right = text_left s 0 @ take idx (take right chunk) @ line_feed # drop (idx + 1) (take right chunk)"
    using text_left_chunk [OF assms(1,2)] l(1) by simp
  moreover have "text_left s idx = text_left s 0 @ take idx (take right chunk)"
    using text_left_chunk [OF assms(1), of idx] less assms(2) by (simp add: min_def)
  ultimately show "text_left s right = text_left s idx @ line_feed # drop (idx + 1) (take right chunk)" by simp
  show "line_feed \<notin> set (drop (idx + 1) (take right chunk))" by (rule l(2))
qed

lemma ends_line_snoc: "ends_line (x @ line_feed # y) \<longleftrightarrow> y = [] \<or> last y = line_feed"
  by (auto simp: ends_line_def)

lemma skip_step:
  assumes "chunk_at s chunk" "right \<le> length chunk" "last_index line_feed (take right chunk) = Some idx" "scan_inv right s"
    "sc_pos s + length chunk = sc_fileSize s \<and> right = length chunk \<and> idx + 1 = length chunk \<and> sc_leftoverSize s = 0"
  shows "scan_inv idx s" "to_return idx s = to_return right s"
proof -
  note inv = scan_invD [OF assms(4)] and t = text_left_lf [OF assms(1-3)]
  have y: "drop (idx + 1) (take right chunk) = []" and b: "built s = []" using assms(5) inv(2) by simp_all
  have f: "text_left s right = sc_file s" using assms(5) inv(1) by (simp add: text_left_def)
  have left: "sc_file s = text_left s idx @ [line_feed]" using t(1) f y by simp
  have sp: "split_on line_feed (sc_file s) = split_on line_feed (text_left s idx) @ [[]]"
    using left split_snoc [of line_feed "text_left s idx" "[]"] by simp
  show "scan_inv idx s" using inv t(3) b sp by (intro scan_invI) auto
  have "at_end right s" using assms(5) left ends_line_snoc [of "text_left s idx" "[]"] by (simp add: at_end_def)
  moreover have "\<not> at_end idx s" using assms(5) t(3) by (simp add: at_end_def)
  moreover have "lines_back (text_left s right) [] = [] # lines_back (text_left s idx) []"
    using lines_back_lf [of "[]" "[]" "text_left s idx"] f left by simp
  ultimately show "to_return idx s = to_return right s" by (simp add: to_return_def b)
qed

definition with_line :: "string \<Rightarrow> rev_scanner \<Rightarrow> rev_scanner" where
  "with_line y s = s\<lparr>sc_pending := sc_pending s @ [dropCR (joinLeftover s y)], sc_leftover := [], sc_leftoverSize := 0\<rparr>"

lemma with_line_simps [simp]:
  "sc_file (with_line y s) = sc_file s" "sc_pos (with_line y s) = sc_pos s" "sc_fileSize (with_line y s) = sc_fileSize s"
  "sc_maxSize (with_line y s) = sc_maxSize s" "sc_bufSize (with_line y s) = sc_bufSize s" "sc_err (with_line y s) = sc_err s"
  "built (with_line y s) = []" "sc_leftoverSize (with_line y s) = 0" "text_left (with_line y s) r = text_left s r"
  "chunk_at (with_line y s) c = chunk_at s c" "sc_pending (with_line y s) = sc_pending s @ [dropCR (y @ built s)]"
  by (simp_all add: with_line_def built_def text_left_def chunk_at_def joinLeftover_def)

lemma line_step:
  assumes "chunk_at s chunk" "right \<le> length chunk" "last_index line_feed (take right chunk) = Some idx" "scan_inv right s"
    "\<not> (sc_pos s + length chunk = sc_fileSize s \<and> right = length chunk \<and> idx + 1 = length chunk \<and> sc_leftoverSize s = 0)"
    "sc_pos s + length chunk \<le> length (sc_file s)"
  shows "scan_inv idx (with_line (drop (idx + 1) (take right chunk)) s)"
    "to_return idx (with_line (drop (idx + 1) (take right chunk)) s) = to_return right s"
proof -
  note inv = scan_invD [OF assms(4)]
  obtain y where y: "y = drop (idx + 1) (take right chunk)" by simp
  note t = text_left_lf [OF assms(1-3), folded y]
  have sp: "split_on line_feed (text_left s right @ built s) = split_on line_feed (text_left s idx) @ split_on line_feed (y @ built s)"
    unfolding t(1) using split_snoc [of line_feed "text_left s idx" "y @ built s"] by simp
  have "scan_inv idx (with_line y s)" using inv t(1,3) sp by (intro scan_invI) auto
  moreover have "\<not> at_end right s"
  proof
    assume e: "at_end right s"
    then have "text_left s right = sc_file s" using inv(1) by (simp add: at_end_def text_left_def)
    then have "y = [] \<or> last y = line_feed" using e t(1) ends_line_snoc [of "text_left s idx" y] by (simp add: at_end_def)
    then have "y = []" using t(2) last_in_set by fastforce
    then have "right = idx + 1" using t(3) assms(2) by (simp add: y)
    then show False using e assms(2,5,6) inv(1) by (simp add: at_end_def)
  qed
  moreover have "\<not> at_end idx (with_line y s)" using t(3) inv(1,4) by (simp add: at_end_def)
  moreover have "lines_back (text_left s right) (built s) = (y @ built s) # lines_back (text_left s idx) []"
    unfolding t(1) using lines_back_lf [OF t(2) inv(3)] .
  ultimately show "scan_inv idx (with_line (drop (idx + 1) (take right chunk)) s)"
    "to_return idx (with_line (drop (idx + 1) (take right chunk)) s) = to_return right s"
    unfolding y [symmetric] by (simp_all add: to_return_def)
qed

definition with_rest :: "string \<Rightarrow> rev_scanner \<Rightarrow> rev_scanner" where
  "with_rest w s = s\<lparr>sc_leftover := sc_leftover s @ [w], sc_leftoverSize := sc_leftoverSize s + length w\<rparr>"

lemma with_rest_simps [simp]:
  "sc_file (with_rest w s) = sc_file s" "sc_pos (with_rest w s) = sc_pos s" "sc_fileSize (with_rest w s) = sc_fileSize s"
  "sc_maxSize (with_rest w s) = sc_maxSize s" "sc_bufSize (with_rest w s) = sc_bufSize s" "sc_err (with_rest w s) = sc_err s"
  "built (with_rest w s) = w @ built s" "sc_leftoverSize (with_rest w s) = sc_leftoverSize s + length w"
  "text_left (with_rest w s) r = text_left s r" "sc_pending (with_rest w s) = sc_pending s"
  by (simp_all add: with_rest_def built_def text_left_def)

lemma rest_step:
  assumes "chunk_at s chunk" "right \<le> length chunk" "last_index line_feed (take right chunk) = None" "scan_inv right s"
    "take right chunk \<noteq> []"
  shows "scan_inv 0 (with_rest (take right chunk) s)" "to_return 0 (with_rest (take right chunk) s) = to_return right s"
proof -
  note inv = scan_invD [OF assms(4)]
  obtain w where w: "w = take right chunk" by simp
  have t: "text_left s right = text_left s 0 @ w" unfolding w by (rule text_left_chunk [OF assms(1,2)])
  have n: "line_feed \<notin> set w" "w \<noteq> []" using assms(3,5) by (simp_all add: last_index_None w)
  have "scan_inv 0 (with_rest w s)" using inv n t by (intro scan_invI) simp_all
  moreover have "\<not> at_end right s"
  proof
    assume e: "at_end right s"
    then have "sc_file s = text_left s 0 @ w" using inv(1) t by (simp add: at_end_def text_left_def)
    then show False using e n last_in_set [of w] by (auto simp: at_end_def ends_line_def)
  qed
  moreover have "\<not> at_end 0 (with_rest w s)" using n by (simp add: at_end_def)
  ultimately show "scan_inv 0 (with_rest (take right chunk) s)" "to_return 0 (with_rest (take right chunk) s) = to_return right s"
    unfolding w [symmetric] by (simp_all add: to_return_def t lines_back_append)
qed

section \<open>The chunks and the calls\<close>

definition too_long :: "nat \<Rightarrow> string \<Rightarrow> bool" where
  "too_long m c \<longleftrightarrow> (\<exists>l \<in> set (split_on line_feed c). m < length l)"

lemma split_last_longer: "d \<notin> set t \<Longrightarrow> \<exists>l \<in> set (split_on d (x @ t)). length t \<le> length l"
  by (subst split_on_append_nosep) auto

lemma built_too_long:
  assumes "scan_inv right s" "sc_maxSize s < length (built s)"
  shows "too_long (sc_maxSize s) (sc_file s)"
proof -
  obtain l where "l \<in> set (split_on line_feed (text_left s right @ built s))" "length (built s) \<le> length l"
    using split_last_longer [OF scan_invD(3) [OF assms(1)]] by blast
  moreover have "built s \<noteq> []" using assms(2) by auto
  ultimately have "l \<in> set (split_on line_feed (sc_file s))" "sc_maxSize s < length l"
    using scan_invD(5) [OF assms(1)] assms(2) by auto
  then show ?thesis unfolding too_long_def by blast
qed

text \<open>Part of a call that ends without an error, or with one that a line of the file explains.\<close>

definition part_ok :: "nat \<Rightarrow> rev_scanner \<Rightarrow> bool \<times> rev_scanner \<Rightarrow> bool" where
  "part_ok right s r \<longleftrightarrow> sc_file (snd r) = sc_file s \<and> sc_maxSize (snd r) = sc_maxSize s \<and> sc_bufSize (snd r) = sc_bufSize s \<and>
     (if fst r then scan_inv 0 (snd r) \<and> to_return 0 (snd r) = to_return right s \<and> sc_err (snd r) = None
      else sc_err (snd r) = Some ErrTooLong \<and> too_long (sc_maxSize s) (sc_file s))"

lemma part_ok_same:
  "part_ok r1 s1 r \<Longrightarrow> sc_file s1 = sc_file s \<Longrightarrow> sc_maxSize s1 = sc_maxSize s \<Longrightarrow> sc_bufSize s1 = sc_bufSize s \<Longrightarrow>
   to_return r1 s1 = to_return right s \<Longrightarrow> part_ok right s r"
  by (simp add: part_ok_def split: if_splits)

lemma chunk_loop_rest:
  assumes "chunk_at s chunk" "right \<le> length chunk" "last_index line_feed (take right chunk) = None" "scan_inv right s"
    "sc_err s = None"
  shows "part_ok right s (chunk_loop chunk right s)"
proof (cases "take right chunk = []")
  case True
  with assms(2) have "right = 0" by auto
  moreover from True have "chunk_loop chunk right s = (True, s)" using assms(3) by (simp add: chunk_loop_None)
  ultimately show ?thesis using assms(4,5) by (simp add: part_ok_def)
next
  case False
  let ?s = "with_rest (take right chunk) s"
  have "chunk_loop chunk right s =
      (if sc_maxSize s < sc_leftoverSize ?s then (False, ?s\<lparr>sc_err := Some ErrTooLong\<rparr>) else (True, ?s))"
    unfolding chunk_loop_None [OF assms(3)] Let_def if_not_P [OF False] with_rest_def [symmetric] with_rest_simps(4) ..
  moreover note rest_step [OF assms(1-4) False]
  moreover have "sc_maxSize s < sc_leftoverSize ?s \<Longrightarrow> too_long (sc_maxSize s) (sc_file s)"
    using built_too_long [OF rest_step(1) [OF assms(1-4) False]] scan_invD(2) [OF assms(4)] by simp
  moreover have "sc_err ?s = None" using assms(5) by simp
  ultimately show ?thesis by (simp add: part_ok_def del: with_rest_simps) (simp add: with_rest_simps)
qed

lemma chunk_loop_ok:
  "chunk_at s chunk \<Longrightarrow> right \<le> length chunk \<Longrightarrow> scan_inv right s \<Longrightarrow> sc_err s = None \<Longrightarrow>
   sc_pos s + length chunk \<le> length (sc_file s) \<Longrightarrow> part_ok right s (chunk_loop chunk right s)"
proof (induction chunk right s rule: chunk_loop.induct)
  case (1 chunk right s)
  show ?case
  proof (cases "last_index line_feed (take right chunk)")
    case None
    then show ?thesis using chunk_loop_rest 1(3-6) by blast
  next
    case (Some idx)
    let ?c = "sc_pos s + length chunk = sc_fileSize s \<and> right = length chunk \<and> idx + 1 = length chunk \<and> sc_leftoverSize s = 0"
    let ?y = "drop (idx + 1) (take right chunk)"
    have less: "idx \<le> length chunk" using last_index_less [OF Some] 1(4) by simp
    show ?thesis
    proof (cases ?c)
      case True
      have eq: "chunk_loop chunk right s = chunk_loop chunk idx s" unfolding chunk_loop_Some [OF Some] by (rule if_P [OF True])
      note st = skip_step [OF 1(3,4) Some 1(5) True]
      show ?thesis unfolding eq
        using part_ok_same [OF 1(1) [OF Some refl True 1(3) less st(1) 1(6,7)]] st(2) by simp
    next
      case False
      have eq: "chunk_loop chunk right s = chunk_loop chunk idx (with_line ?y s)"
        unfolding chunk_loop_Some [OF Some] with_line_def [symmetric] by (rule if_not_P [OF False])
      note st = line_step [OF 1(3,4) Some 1(5) False 1(7)]
      have "part_ok idx (with_line ?y s) (chunk_loop chunk idx (with_line ?y s))"
        by (rule 1(2) [OF Some refl False, folded with_line_def]) (use 1(3,6,7) less st(1) in simp_all)
      then show ?thesis unfolding eq by (rule part_ok_same) (simp_all only: st(2) with_line_simps)
    qed
  qed
qed

lemma read_chunk_ok:
  assumes "scan_inv 0 s" "sc_err s = None"
  shows "part_ok 0 s (read_chunk s)"
proof -
  note inv = scan_invD [OF assms(1)]
  obtain n where n: "n = min (sc_bufSize s) (sc_pos s)" by simp
  obtain s0 where s0: "s0 = s\<lparr>sc_pos := sc_pos s - n\<rparr>" by simp
  obtain c where c: "c = take n (drop (sc_pos s - n) (sc_file s))" by simp
  have r: "read_chunk s = chunk_loop c (length c) s0" by (simp add: read_chunk_def Let_def c s0 n)
  have "n \<le> sc_pos s" unfolding n by (rule min.cobounded2)
  then have lc: "length c = n" using inv(4) unfolding c length_take length_drop by linarith
  have same: "sc_file s0 = sc_file s" "sc_maxSize s0 = sc_maxSize s" "sc_bufSize s0 = sc_bufSize s" "sc_err s0 = None"
    "sc_fileSize s0 = sc_fileSize s" "sc_leftoverSize s0 = sc_leftoverSize s" "built s0 = built s" "sc_pending s0 = sc_pending s"
    using assms(2) by (simp_all add: s0 built_def)
  have pos: "sc_pos s0 + length c = sc_pos s" unfolding lc s0 using \<open>n \<le> sc_pos s\<close> by simp
  then have left: "text_left s0 (length c) = text_left s 0" by (simp add: text_left_def same)
  have "scan_inv (length c) s0" using inv by (simp add: scan_inv_def same left pos)
  moreover have "to_return (length c) s0 = to_return 0 s" by (simp add: to_return_def at_end_def same left pos)
  moreover have "chunk_at s0 c" unfolding chunk_at_def c s0 by auto
  moreover have "sc_pos s0 + length c \<le> length (sc_file s0)" using pos inv(4) same by simp
  ultimately show ?thesis unfolding r using chunk_loop_ok [of s0 c "length c"] part_ok_same same by simp
qed

lemma pop_ok:
  assumes "scan_inv 0 s" "sc_pending s \<noteq> []"
  shows "scan_inv 0 (pop_pending s)" "to_return 0 s = sc_line (pop_pending s) # to_return 0 (pop_pending s)"
    "sc_err (pop_pending s) = sc_err s" "sc_file (pop_pending s) = sc_file s" "sc_maxSize (pop_pending s) = sc_maxSize s"
    "sc_bufSize (pop_pending s) = sc_bufSize s"
  using assms by (auto simp: pop_pending_def scan_inv_def to_return_def at_end_def built_def text_left_def)

definition call_ok :: "rev_scanner \<Rightarrow> bool \<times> rev_scanner \<Rightarrow> bool" where
  "call_ok s r \<longleftrightarrow> sc_file (snd r) = sc_file s \<and> sc_maxSize (snd r) = sc_maxSize s \<and> sc_bufSize (snd r) = sc_bufSize s \<and>
     (if fst r then scan_inv 0 (snd r) \<and> to_return 0 s = sc_line (snd r) # to_return 0 (snd r) \<and> sc_err (snd r) = None
      else sc_err (snd r) = None \<and> to_return 0 s = [] \<or> sc_err (snd r) = Some ErrTooLong \<and> too_long (sc_maxSize s) (sc_file s))"

lemma pop_call_ok: "scan_inv 0 s \<Longrightarrow> sc_err s = None \<Longrightarrow> sc_pending s \<noteq> [] \<Longrightarrow> call_ok s (True, pop_pending s)"
  by (simp add: call_ok_def pop_ok)

lemma scan_loop_start:
  assumes "scan_inv 0 s" "sc_err s = None" "sc_pending s = []" "sc_pos s = 0"
  shows "call_ok s (scan_loop s)"
proof -
  note inv = scan_invD [OF assms(1)]
  have "\<not> at_end 0 s" using assms(4) inv(1) by (auto simp: at_end_def ends_line_def)
  then have t: "to_return 0 s = map dropCR (if built s = [] then [] else [built s])"
    using assms(3,4) lines_back_Nil [OF inv(3)] by (simp add: to_return_def text_left_def)
  show ?thesis
  proof (cases "sc_leftoverSize s = 0")
    case True
    then show ?thesis using assms(2,4) t inv(2) by (simp add: scan_loop.simps [of s] call_ok_def)
  next
    case False
    show ?thesis
    proof (cases "sc_maxSize s < sc_leftoverSize s")
      case True
      with False show ?thesis using assms(4) inv(2) built_too_long [OF assms(1)] by (simp add: scan_loop.simps [of s] call_ok_def)
    next
      case le: False
      obtain s1 where s1: "s1 = s\<lparr>sc_line := dropCR (joinLeftover s []), sc_leftover := [], sc_leftoverSize := 0\<rparr>" by simp
      then have "scan_loop s = (True, s1)" using False le assms(4) by (simp add: scan_loop.simps [of s])
      moreover have "built s1 = []" "text_left s1 0 = []" using assms(4) by (simp_all add: s1 built_def text_left_def)
      moreover from this have "scan_inv 0 s1" using inv
        by (intro scan_invI) (auto simp: s1 assms(4) text_left_def)
      moreover have "\<not> at_end 0 s1" using assms(4) inv(1) by (auto simp: at_end_def ends_line_def s1)
      ultimately show ?thesis using False inv(2) assms(2,3) t
        by (simp add: call_ok_def to_return_def lines_back_Nil) (simp add: s1 joinLeftover_def built_def)
    qed
  qed
qed

lemma scan_loop_ok: "scan_inv 0 s \<Longrightarrow> sc_err s = None \<Longrightarrow> sc_pending s = [] \<Longrightarrow> 0 < sc_bufSize s \<Longrightarrow> call_ok s (scan_loop s)"
proof (induction s rule: scan_loop.induct)
  case (1 s)
  show ?case
  proof (cases "sc_pos s = 0")
    case True
    then show ?thesis using scan_loop_start 1(2-4) by blast
  next
    case False
    obtain b s1 where r: "read_chunk s = (b, s1)" by (rule prod.exhaust)
    have ok: "part_ok 0 s (b, s1)" using read_chunk_ok [OF 1(2,3)] r by simp
    have unf: "scan_loop s = (if b then if sc_pending s1 \<noteq> [] then (True, pop_pending s1) else scan_loop s1 else (False, s1))"
      using False 1(5) r by (simp add: scan_loop.simps [of s] split: bool.splits)
    consider "\<not> b" | "b" "sc_pending s1 \<noteq> []" | "b" "sc_pending s1 = []" by blast
    then show ?thesis
    proof cases
      case 1
      with ok show ?thesis unfolding unf by (simp add: part_ok_def call_ok_def)
    next
      case 2
      with ok have "call_ok s1 (True, pop_pending s1)" by (intro pop_call_ok) (simp_all add: part_ok_def)
      with ok 2 show ?thesis unfolding unf by (simp add: part_ok_def call_ok_def)
    next
      case b: 3
      have "sc_bufSize s \<noteq> 0" "\<not> sc_pending s1 \<noteq> []" using 1(5) b by simp_all
      moreover have "scan_inv 0 s1" "sc_err s1 = None" "0 < sc_bufSize s1" using ok b 1(5) by (simp_all add: part_ok_def)
      ultimately have "call_ok s1 (scan_loop s1)" using 1(1) [OF False] r b by (metis (no_types))
      moreover have "scan_loop s = scan_loop s1" using b unf by simp
      ultimately show ?thesis using ok b by (simp add: part_ok_def call_ok_def split: if_splits)
    qed
  qed
qed

lemma scan_ok: "scan_inv 0 s \<Longrightarrow> sc_err s = None \<Longrightarrow> 0 < sc_bufSize s \<Longrightarrow> call_ok s (scan s)"
  using scan_loop_ok pop_call_ok by (simp add: scan_def)

section \<open>All the lines of a file\<close>

definition lines_ok :: "string list \<Rightarrow> nat \<Rightarrow> string \<Rightarrow> string list \<times> scan_error option \<Rightarrow> bool" where
  "lines_ok expected m c r \<longleftrightarrow>
     (case r of (ls, None) \<Rightarrow> ls = expected | (ls, Some e) \<Rightarrow> prefix ls expected \<and> too_long m c)"

lemma scan_all_ok:
  "scan_inv 0 s \<Longrightarrow> sc_err s = None \<Longrightarrow> 0 < sc_bufSize s \<Longrightarrow> lines_ok (to_return 0 s) (sc_maxSize s) (sc_file s) (scan_all s)"
proof (induction s rule: scan_all.induct)
  case (1 s)
  obtain b s1 where r: "scan s = (b, s1)" by (rule prod.exhaust)
  have ok: "call_ok s (b, s1)" using scan_ok [OF 1(2-4)] r by simp
  show ?case
  proof (cases b)
    case False
    with ok r show ?thesis by (auto simp: scan_all.simps [of s] lines_ok_def call_ok_def)
  next
    case True
    have "scan_inv 0 s1" "sc_err s1 = None" "0 < sc_bufSize s1" using ok True 1(4) by (simp_all add: call_ok_def)
    then have "lines_ok (to_return 0 s1) (sc_maxSize s1) (sc_file s1) (scan_all s1)" using 1(1) r True by (metis (no_types))
    then show ?thesis using ok r True
      by (auto simp: scan_all.simps [of s] lines_ok_def call_ok_def split: prod.splits option.splits)
  qed
qed

lemma scanner_start:
  "scan_inv 0 (newReverseScanner c b m) \<and> sc_err (newReverseScanner c b m) = None \<and> 0 < sc_bufSize (newReverseScanner c b m)"
proof -
  let ?s = "newReverseScanner c b m"
  have b: "built ?s = []" "text_left ?s 0 = c" by (simp_all add: newReverseScanner_def built_def text_left_def)
  have "scan_inv 0 ?s" by (intro scan_invI) (simp_all add: b, simp_all add: newReverseScanner_def)
  then show ?thesis by (simp add: newReverseScanner_def)
qed

lemma scanner_ok: "lines_ok (scanned c) m c (scan_all (newReverseScanner c b m))"
proof -
  let ?s = "newReverseScanner c b m"
  have b: "built ?s = []" "text_left ?s 0 = c" by (simp_all add: newReverseScanner_def built_def text_left_def)
  have "to_return 0 ?s = scanned c"
    by (simp add: to_return_def scanned_def b at_end_def) (simp add: newReverseScanner_def)
  moreover have "sc_maxSize ?s = m" "sc_file ?s = c" by (simp_all add: newReverseScanner_def)
  ultimately show ?thesis using scan_all_ok [of ?s] scanner_start [of c b m] by simp
qed

text \<open>
  C16: The reverse scanner returns the lines of the file from the last to the first, each without a final
  carriage return, whatever the sizes of the file and of the buffer and wherever the chunks cut the lines;
  the empty line behind a final line feed is left out, and so is a first line that is empty. Only with a line
  longer than the maximum does it report an error, and then the lines it did return are the last ones.
\<close>

theorem scanner_reads_back:
  "case scan_all (newReverseScanner c b m) of
     (ls, None) \<Rightarrow> ls = scanned c
   | (ls, Some e) \<Rightarrow> prefix ls (scanned c) \<and> (\<exists>l \<in> set (split_on line_feed c). m < length l)"
  using scanner_ok [of c m b] unfolding lines_ok_def too_long_def .

end
