(* ===== verification/Chat_Store_Facts.thy ===== *)
theory Chat_Store_Facts
  imports Chat_Store Reverse_Scanner_Facts
begin

text \<open>
  What the log of a session keeps: the messages that were appended are the ones that are read, in their
  order. The locale \<open>log_disk\<close> has the laws of the files, the locale \<open>message_codec\<close> those of the texts.
\<close>

section \<open>The files of a session\<close>

definition file_name :: "string \<Rightarrow> string" where
  "file_name p = rev (takeWhile (\<lambda>c. c \<noteq> slash) (rev p))"

definition plain_name :: "string \<Rightarrow> bool" where
  "plain_name n \<longleftrightarrow> n \<noteq> [] \<and> n \<noteq> ''.'' \<and> n \<noteq> ''..'' \<and> slash \<notin> set n"

lemma clean_elems_name: "plain_name n \<Longrightarrow> clean_elems r acc (es @ [n]) = clean_elems r acc es @ [n]"
  by (induction r acc es rule: clean_elems.induct) (auto simp: plain_name_def)

lemma join_snoc: "join_with [d] (es @ [n]) = (if es = [] then [] else join_with [d] es @ [d]) @ n"
  by (induction es rule: induct_list012) auto

lemma path_join_ends:
  assumes "plain_name n"
  shows "\<exists>a. path_join [dir, n] = a @ n \<and> (a = [] \<or> last a = slash)"
proof -
  have n: "split_on slash n = [n]" using assms by (simp add: plain_name_def split_on_single)
  have rel: "\<exists>a. path_clean p = a @ n \<and> (a = [] \<or> last a = slash)" if p: "split_on slash p = es @ [n]" for p es
  proof -
    let ?c = "clean_elems (is_abs p) [] es"
    have "n \<noteq> []" using assms by (simp add: plain_name_def)
    then show ?thesis using clean_elems_name [OF assms, of "is_abs p" "[]" es]
      by (auto simp: path_clean_def p join_snoc Let_def intro: exI [of _ "[slash]"])
  qed
  show ?thesis
  proof (cases "dir = []")
    case True
    then show ?thesis using rel [of n "[]"] n assms by (simp add: path_join_def plain_name_def)
  next
    case False
    have "split_on slash (dir @ slash # n) = split_on slash dir @ [n]" using split_snoc [of slash dir n] n by simp
    then show ?thesis using False rel by (simp add: path_join_def)
  qed
qed

lemma takeWhile_rev_end: "\<lbrakk>d \<notin> set n; a = [] \<or> last a = d\<rbrakk> \<Longrightarrow> takeWhile (\<lambda>c. c \<noteq> d) (rev (a @ n)) = rev n"
  by (cases a rule: rev_cases) (auto simp: takeWhile_append takeWhile_eq_all_conv)

lemma file_name_join: "plain_name n \<Longrightarrow> slash \<notin> set e \<Longrightarrow> file_name (path_join [dir, n] @ e) = n @ e"
proof -
  assume n: "plain_name n" and e: "slash \<notin> set e"
  obtain a where a: "path_join [dir, n] = a @ n" "a = [] \<or> last a = slash" using path_join_ends [OF n] by blast
  have "slash \<notin> set (n @ e)" using n e by (simp add: plain_name_def)
  from takeWhile_rev_end [OF this a(2)] show ?thesis by (simp add: file_name_def a(1))
qed

lemma file_names [simp]:
  "file_name (meta_path dir) = ''meta.json''" "file_name (meta_path dir @ ''.bak'') = ''meta.json.bak''"
  "file_name (messages_path dir) = ''messages.jsonl''" "file_name (lock_path dir) = ''.chatstore.lock''"
  using file_name_join [of "''meta.json''" "[]" dir] file_name_join [of "''meta.json''" "''.bak''" dir]
    file_name_join [of "''messages.jsonl''" "[]" dir] file_name_join [of "''.chatstore.lock''" "[]" dir]
  by (simp_all add: meta_path_def messages_path_def lock_path_def plain_name_def)

lemma name_differs: "file_name p \<noteq> file_name q \<Longrightarrow> p \<noteq> q"
  by auto

lemma log_alone: "messages_path dir \<noteq> meta_path dir" "messages_path dir \<noteq> meta_path dir @ ''.bak''" "messages_path dir \<noteq> lock_path dir"
  by (rule name_differs, simp)+

section \<open>The laws\<close>

locale message_codec =
  fixes c :: codec
  assumes encoded: "en_message c m = Some l \<Longrightarrow> l \<noteq> [] \<and> line_feed \<notin> set l \<and> decode_line c (dropCR l) = Some m"

text \<open>
  \<open>content w p\<close> is what the file p has in the world w. An append that succeeds adds its bytes; no other
  operation touches another file than its own, and making directories and locks touch no other file.
\<close>

locale log_disk =
  fixes d :: "'w chat_disk" and content :: "'w \<Rightarrow> string \<Rightarrow> string option"
  assumes read_some: "content w p = Some b \<Longrightarrow> cd_read d p w = Inr b"
    and read_none: "content w p = None \<Longrightarrow> \<exists>t. cd_read d p w = Inl (NotExist t)"
    and append: "cd_append d p b w = (None, w') \<Longrightarrow> content w' p = Some ((case content w p of None \<Rightarrow> [] | Some x \<Rightarrow> x) @ b)"
    and append_other: "q \<noteq> p \<Longrightarrow> content (snd (cd_append d p b w)) q = content w q"
    and write_other: "q \<noteq> p \<Longrightarrow> content (snd (cd_write d p b w)) q = content w q"
    and replace_other: "q \<noteq> p \<Longrightarrow> content (snd (cd_replace d p b w)) q = content w q"
    and mkdir_other: "content (snd (cd_mkdir d p w)) q = content w q"
    and lock_other: "q \<noteq> p \<Longrightarrow> content (snd (cd_lock d p w)) q = content w q"
    and unlock_other: "q \<noteq> p \<Longrightarrow> content (cd_unlock d p w) q = content w q"
begin

lemma write_json_other:
  assumes "q \<noteq> p" "q \<noteq> p @ ''.bak''"
  shows "content (snd (writeJSONFile d p j w)) q = content w q"
proof -
  obtain r w1 where m: "cd_mkdir d (path_dir p) w = (r, w1)" by (rule prod.exhaust)
  have c1: "content w1 q = content w q" using mkdir_other [of "path_dir p" w q] m by simp
  obtain w2 where w2: "w2 = (case cd_read d p w1 of
      Inr existing \<Rightarrow> if existing \<noteq> [] then snd (cd_write d (p @ ''.bak'') existing w1) else w1 | Inl _ \<Rightarrow> w1)" by simp
  have c2: "content w2 q = content w1 q" unfolding w2 using write_other [OF assms(2)] by (simp split: sum.split)
  obtain r3 w3 where r: "cd_replace d p (j @ lf) w2 = (r3, w3)" by (rule prod.exhaust)
  have "content w3 q = content w2 q" using replace_other [OF assms(1), of "j @ lf" w2] r by simp
  with c1 c2 show ?thesis
    unfolding writeJSONFile_def Let_def m by (cases r; cases r3) (simp_all add: then_do_def r flip: w2)
qed

lemma touch_other: "q \<noteq> meta_path dir \<Longrightarrow> q \<noteq> meta_path dir @ ''.bak'' \<Longrightarrow> content (snd (touch_session d cc dir ts now w)) q = content w q"
  unfolding touch_session_def by (simp add: write_json_other split: sum.split)

end

section \<open>The lines of a log\<close>

text \<open>The messages in the bytes of a log, the first ones first; a complete log ends with a line feed.\<close>

definition messages_in :: "codec \<Rightarrow> string \<Rightarrow> stored_message list" where
  "messages_in c b = rev (List.map_filter (decode_line c) (scanned b))"

definition complete_log :: "string \<Rightarrow> bool" where
  "complete_log b \<longleftrightarrow> b = [] \<or> last b = line_feed"

lemma scanned_Nil: "scanned [] = []"
  by (simp add: scanned_def lines_back_Nil ends_line_def)

lemma scanned_snoc:
  assumes "complete_log b" "l \<noteq> []" "line_feed \<notin> set l"
  shows "scanned (b @ l @ [line_feed]) = dropCR l # scanned b"
proof -
  have "ends_line (b @ l @ [line_feed])" by (simp add: ends_line_def)
  moreover have "lines_back (b @ l @ [line_feed]) [] = [] # lines_back (b @ l) []"
    using lines_back_lf [of "[]" "[]" "b @ l"] by simp
  moreover have "lines_back (b @ l) [] = lines_back b l" by (simp add: lines_back_append)
  ultimately have sc: "scanned (b @ l @ [line_feed]) = map dropCR (lines_back b l)" by (simp add: scanned_def)
  show ?thesis
  proof (cases b rule: rev_cases)
    case Nil
    have "lines_back [] l = [l]" using assms(2,3) by (simp add: lines_back_Nil)
    then show ?thesis unfolding sc by (simp add: Nil scanned_Nil)
  next
    case (snoc x z)
    then have b: "b = x @ line_feed # []" using assms(1) by (simp add: complete_log_def)
    have "lines_back b l = l # lines_back x []" unfolding b using lines_back_lf [of "[]" l x] assms(3) by simp
    moreover have "lines_back b [] = [] # lines_back x []" unfolding b using lines_back_lf [of "[]" "[]" x] by simp
    moreover have "ends_line b" unfolding b by (simp add: ends_line_def)
    ultimately show ?thesis unfolding sc by (simp add: scanned_def)
  qed
qed

lemma messages_snoc:
  "complete_log b \<Longrightarrow> l \<noteq> [] \<Longrightarrow> line_feed \<notin> set l \<Longrightarrow> decode_line c (dropCR l) = Some m \<Longrightarrow>
   messages_in c (b @ l @ [line_feed]) = messages_in c b @ [m]"
  by (simp add: messages_in_def scanned_snoc List.map_filter_simps)

text \<open>The loop of ReadRecentMessages, against all the lines of the scanner.\<close>

lemma collect_all:
  "scan_inv 0 s \<Longrightarrow> sc_err s = None \<Longrightarrow> 0 < sc_bufSize s \<Longrightarrow> int (length all) < limit \<Longrightarrow> scan_all s = (ls, None) \<Longrightarrow>
   collect_recent c limit all s = (all @ take (nat limit - length all) (List.map_filter (decode_line c) ls), None)"
proof (induction s arbitrary: all ls rule: scan_all.induct)
  case (1 s)
  obtain b s1 where r: "scan s = (b, s1)" by (rule prod.exhaust)
  have ok: "call_ok s (b, s1)" using scan_ok [OF 1(2-4)] r by simp
  show ?case
  proof (cases b)
    case False
    then show ?thesis using r 1(6) by (simp add: collect_recent.simps [of c limit all s] scan_all.simps [of s] List.map_filter_simps)
  next
    case True
    obtain ls1 where ls: "scan_all s1 = (ls1, None)" "ls = sc_line s1 # ls1"
      using 1(6) r True by (auto simp: scan_all.simps [of s] split: prod.splits)
    have inv: "scan_inv 0 s1" "sc_err s1 = None" "0 < sc_bufSize s1" using ok True 1(4) by (simp_all add: call_ok_def)
    have ih: "int (length all') < limit \<Longrightarrow> collect_recent c limit all' s1 =
        (all' @ take (nat limit - length all') (List.map_filter (decode_line c) ls1), None)" for all'
      using 1(1) [OF r [unfolded True, symmetric] _ inv] ls(1) True by simp
    show ?thesis
    proof (cases "decode_line c (sc_line s1)")
      case None
      then show ?thesis using r True ls(2) ih [OF 1(5)] by (simp add: collect_recent.simps [of c limit all s] List.map_filter_simps)
    next
      case (Some m)
      show ?thesis
      proof (cases "limit \<le> int (length all) + 1")
        case stop: True
        then have "nat limit - length all = 1" using 1(5) by linarith
        then show ?thesis using r True Some ls(2) stop inv(2)
          by (simp add: collect_recent.simps [of c limit all s] List.map_filter_simps)
      next
        case False
        then have "nat limit - length all = Suc (nat limit - length (all @ [m]))" by simp
        then show ?thesis using r True Some ls(2) False ih [of "all @ [m]"]
          by (simp add: collect_recent.simps [of c limit all s] List.map_filter_simps)
      qed
    qed
  qed
qed

lemma recent_messages:
  assumes "\<not> too_long m b" "0 < limit"
  shows "collect_recent c limit [] (newReverseScanner b n m) = (take (nat limit) (rev (messages_in c b)), None)"
proof -
  let ?s = "newReverseScanner b n m"
  obtain ls e where all: "scan_all ?s = (ls, e)" by (rule prod.exhaust)
  have ok: "lines_ok (scanned b) m b (scan_all ?s)" by (rule scanner_ok)
  then have e: "e = None" "ls = scanned b" using assms(1) all by (auto simp: lines_ok_def split: option.splits)
  have start: "scan_inv 0 ?s" "sc_err ?s = None" "0 < sc_bufSize ?s" using scanner_start [of b n m] by simp_all
  show ?thesis using collect_all [OF start, of "[]" limit ls c] all e assms(2) by (simp add: messages_in_def)
qed

section \<open>What was appended is read\<close>

definition log_bytes :: "('w \<Rightarrow> string \<Rightarrow> string option) \<Rightarrow> string \<Rightarrow> 'w \<Rightarrow> string" where
  "log_bytes content dir w = (case content w (messages_path dir) of None \<Rightarrow> [] | Some b \<Rightarrow> b)"

fun append_all ::
  "'w chat_disk \<Rightarrow> codec \<Rightarrow> string \<Rightarrow> (stored_message \<times> Go_Time.time \<times> Go_Time.time) list \<Rightarrow> chat_store \<Rightarrow> 'w \<Rightarrow> (chat_store \<times> 'w) option" where
  "append_all d c sid [] st w = Some (st, w)"
| "append_all d c sid ((msg, now, later) # items) st w =
     (case appendMessage d c sid msg now later st w of
        (Inl _, _, _) \<Rightarrow> None | (Inr _, st, w) \<Rightarrow> append_all d c sid items st w)"

definition prepared :: "stored_message \<times> Go_Time.time \<times> Go_Time.time \<Rightarrow> stored_message list" where
  "prepared item = (case prepare_message (fst (snd item)) (fst item) of Inl _ \<Rightarrow> [] | Inr m \<Rightarrow> [m])"

definition last_ones :: "nat \<Rightarrow> 'a list \<Rightarrow> 'a list" where
  "last_ones n xs = drop (length xs - n) xs"

lemma last_ones_rev: "rev (take n (rev xs)) = last_ones n xs"
  by (simp add: last_ones_def take_rev)

locale chat_log = log_disk d content + message_codec c
  for d :: "'w chat_disk" and content :: "'w \<Rightarrow> string \<Rightarrow> string option" and c :: codec
begin

lemma append_adds:
  assumes "mget (st_index st) sid = Some dir" "complete_log (log_bytes content dir w)"
    and "appendMessage d c sid msg now later st w = (Inr (), st', w')"
  shows "\<exists>m. prepare_message now msg = Inr m \<and> st' = st \<and> complete_log (log_bytes content dir w') \<and>
    messages_in c (log_bytes content dir w') = messages_in c (log_bytes content dir w) @ [m]"
proof -
  have dir: "sessionDirByIDLocked d sid st w = (Inr dir, st)" using assms(1) by (simp add: sessionDirByIDLocked_def)
  obtain m where m: "prepare_message now msg = Inr m" and st: "st' = st"
    and locked: "with_lock d (lock_path dir) (\<lambda>w.
        case en_message c m of
          None \<Rightarrow> (Inl (ChatError ''chatstore: marshal message''), w)
        | Some line \<Rightarrow> then_do ''chatstore: append message: '' (cd_append d (messages_path dir) (line @ lf) w)
            (touch_session d c dir (cm_ts m) later)) w = (Inr (), w')"
    using assms(3) by (auto simp: appendMessage_def checked_def with_dir_def dir split: option.splits sum.splits prod.splits)
  obtain w1 where w1: "cd_lock d (lock_path dir) w = (None, w1)"
    using locked by (auto simp: with_lock_def split: prod.splits option.splits)
  obtain l where l: "en_message c m = Some l"
    using locked w1 by (auto simp: with_lock_def split: prod.splits option.splits)
  obtain w2 where w2: "cd_append d (messages_path dir) (l @ lf) w1 = (None, w2)"
    using locked w1 l by (auto simp: with_lock_def then_do_def split: prod.splits option.splits)
  obtain r w3 where t: "touch_session d c dir (cm_ts m) later w2 = (r, w3)" by (rule prod.exhaust)
  have locked_other: "content (snd (cd_lock d (lock_path dir) w)) (messages_path dir) = content w (messages_path dir)"
    by (rule lock_other [OF log_alone(3)])
  have touched: "content (snd (touch_session d c dir (cm_ts m) later w2)) (messages_path dir) = content w2 (messages_path dir)"
    by (rule touch_other [OF log_alone(1,2)])
  have w': "w' = cd_unlock d (lock_path dir) w3" using locked w1 l w2 t by (simp add: with_lock_def then_do_def)
  have "content w' (messages_path dir) = content w2 (messages_path dir)"
    unfolding w' using unlock_other [OF log_alone(3)] touched t by simp
  moreover have "content w1 (messages_path dir) = content w (messages_path dir)"
    using locked_other w1 by simp
  ultimately have bytes: "log_bytes content dir w' = log_bytes content dir w @ l @ [line_feed]"
    using append [OF w2] by (simp add: log_bytes_def lf_def split: option.splits)
  have "messages_in c (log_bytes content dir w') = messages_in c (log_bytes content dir w) @ [m]"
    unfolding bytes using encoded [OF l] assms(2) by (intro messages_snoc) simp_all
  moreover have "complete_log (log_bytes content dir w')" by (simp add: bytes complete_log_def)
  ultimately show ?thesis using m st by blast
qed

lemma recent_read:
  assumes "mget (st_index st) sid = Some dir" "validateSegment ''session_id'' sid = None" "fst (cd_lock d (lock_path dir) w) = None"
    and "\<not> too_long messageScanBufferMax (log_bytes content dir w)"
  shows "fst (readRecentMessages d c sid limit st w) =
    Inr (rev (take (nat (clampHistoryCount limit DefaultMaxHistoryCount)) (rev (messages_in c (log_bytes content dir w)))))"
proof -
  have dir: "sessionDirByIDLocked d sid st w = (Inr dir, st)" using assms(1) by (simp add: sessionDirByIDLocked_def)
  obtain w1 where w1: "cd_lock d (lock_path dir) w = (None, w1)" using assms(3) by (cases "cd_lock d (lock_path dir) w") auto
  have locked_other: "content (snd (cd_lock d (lock_path dir) w)) (messages_path dir) = content w (messages_path dir)"
    by (rule lock_other [OF log_alone(3)])
  have same: "content w1 (messages_path dir) = content w (messages_path dir)"
    using locked_other w1 by simp
  obtain lim where lim: "lim = clampHistoryCount limit DefaultMaxHistoryCount" by simp
  have pos: "0 < lim" unfolding lim by (simp add: clampHistoryCount_def DefaultMaxHistoryCount_def)
  have "fst (with_log d dir [] (collect_recent c lim []) w1) = Inr (take (nat lim) (rev (messages_in c (log_bytes content dir w))))"
  proof (cases "content w (messages_path dir)")
    case None
    then obtain t where "cd_read d (messages_path dir) w1 = Inl (NotExist t)" using read_none [of w1] same by auto
    then show ?thesis using None by (simp add: with_log_def log_bytes_def messages_in_def scanned_Nil List.map_filter_simps)
  next
    case (Some b)
    then have "cd_read d (messages_path dir) w1 = Inr b" using read_some [of w1] same by simp
    moreover have "log_bytes content dir w = b" using Some by (simp add: log_bytes_def)
    ultimately show ?thesis using recent_messages [OF _ pos, of messageScanBufferMax b c messageScanBufferInit] assms(4)
      by (simp add: with_log_def)
  qed
  then show ?thesis
    by (auto simp: readRecentMessages_def checked_def assms(2) Let_def with_dir_def dir with_lock_def w1 lim split: prod.splits sum.splits)
qed

lemma appends_add:
  "mget (st_index st) sid = Some dir \<Longrightarrow> complete_log (log_bytes content dir w) \<Longrightarrow> append_all d c sid items st w = Some (st', w') \<Longrightarrow>
   st' = st \<and> messages_in c (log_bytes content dir w') = messages_in c (log_bytes content dir w) @ concat (map prepared items)"
proof (induction items arbitrary: w)
  case (Cons item items)
  obtain msg now later where item: "item = (msg, now, later)" by (rule prod_cases3)
  obtain st1 w1 where a: "appendMessage d c sid msg now later st w = (Inr (), st1, w1)" "append_all d c sid items st1 w1 = Some (st', w')"
    using Cons(4) by (auto simp: item split: prod.splits sum.splits)
  obtain m where m: "prepare_message now msg = Inr m" "st1 = st" "complete_log (log_bytes content dir w1)"
    "messages_in c (log_bytes content dir w1) = messages_in c (log_bytes content dir w) @ [m]"
    using append_adds [OF Cons(2,3) a(1)] by blast
  have "st' = st \<and> messages_in c (log_bytes content dir w') = messages_in c (log_bytes content dir w1) @ concat (map prepared items)"
    using Cons(1) [OF Cons(2) m(3)] a(2) m(2) by simp
  moreover have "prepared item = [m]" by (simp add: item prepared_def m(1))
  ultimately show ?case using m(4) by simp
qed simp

end


section \<open>Files as a map\<close>

definition map_files :: "(string, string) gmap chat_disk" where
  "map_files =
    \<lparr>cd_abs = (\<lambda>p w. Inr p), cd_read = (\<lambda>p w. case mget w p of None \<Rightarrow> Inl (NotExist ''no such file'') | Some b \<Rightarrow> Inr b),
     cd_write = (\<lambda>p b w. (None, mput p b w)), cd_replace = (\<lambda>p b w. (None, mput p b w)),
     cd_append = (\<lambda>p b w. (None, mput p ((case mget w p of None \<Rightarrow> [] | Some x \<Rightarrow> x) @ b) w)),
     cd_create = (\<lambda>p w. (None, case mget w p of None \<Rightarrow> mput p [] w | Some _ \<Rightarrow> w)), cd_mkdir = (\<lambda>p w. (None, w)),
     cd_stat = (\<lambda>p w. if mhas w p then Inr 0 else Inl (NotExist ''no such file'')), cd_list = (\<lambda>p w. Inr []),
     cd_glob = (\<lambda>p w. Inr []), cd_lock = (\<lambda>p w. (None, w)), cd_unlock = (\<lambda>p w. w)\<rparr>"

definition plain_message :: "string \<Rightarrow> stored_message" where
  "plain_message t =
    \<lparr>cm_role = ''user'', cm_content = t, cm_contentParts = [], cm_ts = 1, cm_messageID = [], cm_status = [], cm_instanceID = [],
     cm_fromAgentID = [], cm_toAgentID = [], cm_taskID = [], cm_subject = [], cm_channel = [], cm_userID = [], cm_sourceSessionID = [],
     cm_relatedRunID = [], cm_note = [], cm_error = [], cm_updatedAt = 0, cm_runID = [], cm_toolCallID = [], cm_toolName = []\<rparr>"

definition plain_session :: session where
  "plain_session = new_session \<lparr>si_agentID = ''a'', si_channel = ''c'', si_userID = ''u'', si_roomID = ''r'', si_title = []\<rparr> ''s1'' 0"

text \<open>A codec of messages that are nothing but a text without white space around it.\<close>

definition text_codec :: codec where
  "text_codec =
    \<lparr>en_session = (\<lambda>s. ''{}''), de_session = (\<lambda>b. Some plain_session),
     en_message = (\<lambda>m. if m = plain_message (cm_content m) \<and> trim_space (cm_content m) = cm_content m \<and> cm_content m \<noteq> [] \<and>
         line_feed \<notin> set (cm_content m) \<and> last (cm_content m) \<noteq> CHR 0x0D then Some (cm_content m) else None),
     de_message = (\<lambda>b. Some (plain_message b))\<rparr>"

interpretation mapped_log: chat_log map_files mget text_codec
proof
  fix m l assume "en_message text_codec m = Some l"
  then show "l \<noteq> [] \<and> line_feed \<notin> set l \<and> decode_line text_codec (dropCR l) = Some m"
    by (auto simp: text_codec_def decode_line_def dropCR_def split: if_splits)
qed (auto simp: map_files_def mget_mput)

definition sample_store :: chat_store where
  "sample_store = \<lparr>st_agentsRoot = ''/a'', st_index = [(''s1'', ''/a/s1'')], st_metaCache = mempty\<rparr>"

definition sample_log :: "(string, string) gmap" where
  "sample_log = [(''/a/s1/messages.jsonl'', ''old'' @ lf), (''/a/s1/meta.json'', ''{}'' @ lf)]"

definition sample_appended :: "(string, string) gmap" where
  "sample_appended = [(''/a/s1/messages.jsonl'', ''old'' @ lf @ ''hello'' @ lf @ ''world'' @ lf), (''/a/s1/meta.json'', ''{}'' @ lf),
     (''/a/s1/meta.json.bak'', ''{}'' @ lf)]"


text \<open>
  A session id is put into a glob pattern: when no session of that name is in the index, the id "*" finds
  the first session there is, of any agent, and stays in the index for it.
\<close>

definition globbing :: "(string, string) gmap chat_disk" where
  "globbing = map_files\<lparr>cd_glob := (\<lambda>p w. if p = ''/a/*/memory/chats/*'' then Inr [''/a/x/memory/chats/s1''] else Inr [])\<rparr>"

lemma star_finds_session:
  "let w = [(''/a/x/memory/chats/s1/meta.json'', ''{}'' @ lf)];
       st = \<lparr>st_agentsRoot = ''/a'', st_index = mempty, st_metaCache = mempty\<rparr>
   in validateSegment ''session_id'' ''*'' = None \<and>
      fst (getSession globbing text_codec ''*'' st w) = Inr plain_session \<and>
      fst (getSession globbing text_codec ''none'' st w) = Inl ErrSessionNotFound"
  by code_simp

text \<open>After a write that was cut off, the next message is glued to what was written: one line holds both.\<close>

lemma torn_line_swallows: "messages_in text_codec (''one'' @ lf @ ''tw'' @ ''three'' @ lf) = [plain_message ''one'', plain_message ''twthree'']"
  by code_simp

end
