(* ===== verification/Chat_Connector_Facts.thy ===== *)
theory Chat_Connector_Facts
  imports Chat_Connector Chat_Store_Facts
begin

text \<open>
  What the connector lets through: who is refused reaches neither the store nor the queue, and a run is
  queued only for an open session of the sender's own chat, which is the active one or one made for the message.
\<close>

section \<open>Sessions of a chat\<close>

definition scope_input :: "chat_scope \<Rightarrow> session_input" where
  "scope_input p =
    \<lparr>si_agentID = sc_agentID p, si_channel = sc_source p, si_userID = sc_userID p, si_roomID = sc_roomID p, si_title = []\<rparr>"

text \<open>The session the pointer of the chat names, as the store reads it.\<close>

definition active_session :: "'w wiring \<Rightarrow> chat_scope \<Rightarrow> chat_store \<Rightarrow> 'w \<Rightarrow> session \<Rightarrow> bool" where
  "active_session wi p st w s \<longleftrightarrow>
    (case getActiveSessionPointer (wi_disk wi) (sc_agentID p) (sc_source p) (sc_userID p) (sc_roomID p) st w of
       (Inl _, _) \<Rightarrow> False
     | (Inr sid, st1, w1) \<Rightarrow> fst (getSession (wi_disk wi) (wi_codec wi) sid st1 w1) = Inr s)"

text \<open>The session a chat gets that has no usable active one.\<close>

definition fresh_session :: "call_inputs \<Rightarrow> chat_scope \<Rightarrow> session \<Rightarrow> bool" where
  "fresh_session ca p s \<longleftrightarrow>
    (case newSessionID (ca_createTime ca) (ca_random ca) of
       Inl _ \<Rightarrow> False | Inr sid \<Rightarrow> s = new_session (scope_input p) sid (ca_createTime ca))"

definition own_session :: "'w wiring \<Rightarrow> call_inputs \<Rightarrow> chat_scope \<Rightarrow> chat_store \<Rightarrow> 'w \<Rightarrow> session \<Rightarrow> bool" where
  "own_session wi ca p st w s \<longleftrightarrow> in_scope p s \<and> \<not> isClosed s \<and> (fresh_session ca p s \<or> active_session wi p st w s)"

lemma created_session:
  assumes "createSession d c (scope_input p) (ca_createTime ca) (ca_random ca) st w = (Inr s, st', w')"
  shows "fresh_session ca p s"
  using assms by (auto simp: createSession_def checked_def fresh_session_def Let_def split: option.splits sum.splits prod.splits)

lemma fresh_own: "fresh_session ca p s \<Longrightarrow> own_session wi ca p st w s"
  by (auto simp: own_session_def fresh_session_def scope_input_def new_session_def in_scope_def isClosed_def split: sum.splits)

lemma created_own:
  assumes "createAndSetActiveSession wi ca p st1 w1 = (Inr s, st', w')"
  shows "own_session wi ca p st w s"
proof -
  obtain st2 w2 where "createSession (wi_disk wi) (wi_codec wi) (scope_input p) (ca_createTime ca) (ca_random ca) st1 w1 = (Inr s, st2, w2)"
    using assms by (auto simp: createAndSetActiveSession_def scope_input_def split: sum.splits prod.splits)
  from fresh_own [OF created_session [OF this]] show ?thesis .
qed

lemma resolved_own:
  assumes "resolveOrCreateActiveSession wi ca p st w = (Inr s, st', w')"
  shows "own_session wi ca p st w s"
proof -
  consider st1 w1 where "createAndSetActiveSession wi ca p st1 w1 = (Inr s, st', w')"
    | "active_session wi p st w s" "in_scope p s" "\<not> isClosed s"
    using assms unfolding resolveOrCreateActiveSession_def active_session_def by (auto split: sum.splits prod.splits if_splits)
  then show ?thesis
  proof cases
    case 1
    then show ?thesis by (rule created_own)
  next
    case 2
    then show ?thesis unfolding own_session_def by blast
  qed
qed

section \<open>What is queued\<close>

definition allowed_message :: "connector \<Rightarrow> chat_in \<Rightarrow> bool" where
  "allowed_message cn msg \<longleftrightarrow>
    trim_space (ci_userID msg) \<noteq> [] \<and>
    (case cn_allowlist cn of None \<Rightarrow> True | Some a \<Rightarrow> messageAllowed a (ci_userID msg) (ci_roomID msg))"

definition message_source :: "chat_in \<Rightarrow> string" where
  "message_source msg = (if trim_space (ci_source msg) = [] then ''chat'' else trim_space (ci_source msg))"

definition message_room :: "chat_in \<Rightarrow> string" where
  "message_room msg = (if trim_space (ci_roomID msg) = [] then message_source msg else trim_space (ci_roomID msg))"

text \<open>The requests that may be queued for a message.\<close>

definition may_queue :: "'w wiring \<Rightarrow> call_inputs \<Rightarrow> connector \<Rightarrow> chat_in \<Rightarrow> 'w \<Rightarrow> queue_request \<Rightarrow> bool" where
  "may_queue wi ca cn msg w rq \<longleftrightarrow>
    allowed_message cn msg \<and>
    (case cn_store cn of
       None \<Rightarrow> False
     | Some st \<Rightarrow>
       (case chosen_agent wi cn msg (message_source msg) (message_room msg) st w of
          (agentID, st1, w1) \<Rightarrow>
            qe_agentID rq = agentID \<and> qe_source rq = message_source msg \<and>
            (\<exists>s. qe_sessionID rq = ss_sessionID s \<and>
               own_session wi ca \<lparr>sc_agentID = agentID, sc_source = message_source msg, sc_userID = ci_userID msg,
                 sc_roomID = message_room msg\<rparr> st1 w1 s)))"

definition same_queue :: "(queue_request \<Rightarrow> bool) \<Rightarrow> 'w queue_func \<Rightarrow> 'w queue_func \<Rightarrow> bool" where
  "same_queue ok q1 q2 \<longleftrightarrow> (\<forall>rq. ok rq \<longrightarrow> q1 rq = q2 rq)"

lemma send_same:
  assumes "\<And>s. own_session wi ca p st w s \<Longrightarrow> ok \<lparr>qe_instanceID = trim_space (ci_instanceID msg), qe_agentID = sc_agentID p,
      qe_message = ci_text msg, qe_parts = parts, qe_source = sc_source p, qe_sessionID = ss_sessionID s,
      qe_thinkingMode = ci_thinkingMode msg\<rparr>" and "same_queue ok q1 q2"
  shows "send_message wi q1 ca msg parts p st w = send_message wi q2 ca msg parts p st w"
proof (cases "resolveOrCreateActiveSession wi ca p st w")
  case (fields r st1 w1)
  show ?thesis
  proof (cases r)
    case (Inl e)
    then show ?thesis by (simp add: send_message_def from_store_def fields)
  next
    case (Inr s)
    then have "own_session wi ca p st w s" using resolved_own fields by metis
    from assms(1) [OF this] show ?thesis using assms(2)
      by (simp add: send_message_def from_store_def fields Inr same_queue_def split: prod.split sum.split)
  qed
qed

lemma dispatch_same:
  assumes "same_queue (may_queue wi ca cn msg w) q1 q2" "allowed_message cn msg" "cn_store cn = Some st"
  shows "dispatch wi q1 ca cn msg parts st w = dispatch wi q2 ca cn msg parts st w"
proof -
  obtain a st1 w1 where chosen: "chosen_agent wi cn msg (message_source msg) (message_room msg) st w = (a, st1, w1)"
    by (rule prod_cases3)
  have "send_message wi q1 ca msg parts \<lparr>sc_agentID = a, sc_source = message_source msg, sc_userID = ci_userID msg,
        sc_roomID = message_room msg\<rparr> st1 w1 =
      send_message wi q2 ca msg parts \<lparr>sc_agentID = a, sc_source = message_source msg, sc_userID = ci_userID msg,
        sc_roomID = message_room msg\<rparr> st1 w1"
    by (rule send_same [OF _ assms(1)]) (use assms(2) in \<open>auto simp: may_queue_def assms(3) chosen\<close>)
  then show ?thesis
    unfolding dispatch_def Let_def message_source_def [symmetric] message_room_def [symmetric] chosen by simp
qed

lemma text_set: "(if b then msg\<lparr>ci_text := t\<rparr> else msg) = msg\<lparr>ci_text := if b then t else ci_text msg\<rparr>"
  by simp

lemma fields_text:
  "ci_userID (msg\<lparr>ci_text := t\<rparr>) = ci_userID msg" "ci_roomID (msg\<lparr>ci_text := t\<rparr>) = ci_roomID msg"
  "ci_agentID (msg\<lparr>ci_text := t\<rparr>) = ci_agentID msg"
  by simp_all

lemma source_text: "message_source (msg\<lparr>ci_text := t\<rparr>) = message_source msg"
  by (simp add: message_source_def)

lemma room_text: "message_room (msg\<lparr>ci_text := t\<rparr>) = message_room msg"
  by (simp add: message_room_def source_text)

lemma chosen_text: "chosen_agent wi cn (msg\<lparr>ci_text := t\<rparr>) = chosen_agent wi cn msg"
  by (intro ext) (simp only: chosen_agent_def fields_text)

lemma allowed_text: "allowed_message cn (msg\<lparr>ci_text := t\<rparr>) = allowed_message cn msg"
  by (simp only: allowed_message_def fields_text)

lemma may_queue_text: "may_queue wi ca cn (msg\<lparr>ci_text := t\<rparr>) w = may_queue wi ca cn msg w"
  by (rule ext) (simp only: may_queue_def source_text room_text chosen_text allowed_text fields_text)

lemma refused_message:
  assumes "\<not> allowed_message cn msg \<or> cn_store cn = None"
  shows "handleMessage wi (Some q1) ca msg cn w = handleMessage wi (Some q2) ca msg cn w"
  using assms by (auto simp: handleMessage_def allowed_message_def Let_def split: option.splits)

text \<open>
  C14: The connector queues a run only for a user on the allow list, for the agent the chat has chosen, and only in
  an open session of the very chat of the message (its agent, channel, user and room): the one the pointer of the
  chat names or one made for this message. Whatever else a queue would do with other requests makes no difference:
  two queues that agree on such requests cannot be told apart.
\<close>

theorem queues_own_open_sessions:
  assumes "same_queue (may_queue wi ca cn msg w) q1 q2"
  shows "handleMessage wi (Some q1) ca msg cn w = handleMessage wi (Some q2) ca msg cn w"
proof (cases "\<not> allowed_message cn msg \<or> cn_store cn = None")
  case True
  then show ?thesis by (rule refused_message)
next
  case False
  then obtain st where st: "cn_store cn = Some st" by auto
  have same: "dispatch wi q1 ca cn (msg\<lparr>ci_text := t\<rparr>) parts st w = dispatch wi q2 ca cn (msg\<lparr>ci_text := t\<rparr>) parts st w" for t parts
    by (rule dispatch_same) (use assms False st in \<open>simp_all add: may_queue_text allowed_text\<close>)
  show ?thesis by (simp only: handleMessage_def Let_def text_set option.case st same)
qed

section \<open>A message to another room\<close>

text \<open>The pointer of room r2 names the session s1, which is one of room r: the run gets a new session.\<close>

definition sample_wiring :: "(string, string) gmap wiring" where
  "sample_wiring = \<lparr>wi_disk = map_files, wi_codec = text_codec, wi_evict = hd\<rparr>"

definition sample_call :: call_inputs where
  "sample_call = \<lparr>ca_limitTime = 0, ca_createTime = 62135596800000000005, ca_random = Inr ''ab'', ca_appendTime = 1, ca_touchTime = 2\<rparr>"

definition sample_connector :: connector where
  "sample_connector =
    \<lparr>cn_allowlist = Some (newAllowlist [''u''] []), cn_rateLimiter = None, cn_globalLimiter = None, cn_defaultAgentID = ''a'',
     cn_store = Some sample_store\<rparr>"

definition sample_message :: chat_in where
  "sample_message =
    \<lparr>ci_instanceID = [], ci_userID = ''u'', ci_roomID = ''r2'', ci_agentID = ''a'', ci_source = ''c'', ci_text = ''hello'',
     ci_contentParts = [], ci_thinkingMode = []\<rparr>"

definition sample_files :: "(string, string) gmap" where
  "sample_files =
    [(''/a/a/memory/chats/_active/c/u/r2.json'', pointer_json ''session_id'' ''s1''), (''/a/s1/meta.json'', ''{}'' @ lf)]"

definition accept :: "(string, string) gmap queue_func" where
  "accept rq w = (Inr \<lparr>qd_instanceID = [], qd_agentID = qe_agentID rq, qd_id = qe_sessionID rq, qd_status = []\<rparr>, w)"

definition refuse_foreign :: "(string, string) gmap queue_func" where
  "refuse_foreign rq w = (if qe_sessionID rq = ''s1'' then (Inl ''a session of another room'', w) else accept rq w)"

lemma sample_unforeign: "same_queue (may_queue sample_wiring sample_call sample_connector sample_message sample_files) accept refuse_foreign"
proof -
  let ?p = "\<lparr>sc_agentID = ''a'', sc_source = ''c'', sc_userID = ''u'', sc_roomID = ''r2''\<rparr>"
  have chosen: "chosen_agent sample_wiring sample_connector sample_message ''c'' ''r2'' sample_store sample_files =
      (''a'', sample_store, sample_files)" by code_simp
  have active: "getActiveSessionPointer map_files ''a'' ''c'' ''u'' ''r2'' sample_store sample_files = (Inr ''s1'', sample_store, sample_files)"
    by code_simp
  have stored: "fst (getSession map_files text_codec ''s1'' sample_store sample_files) = Inr plain_session" by code_simp
  have foreign: "\<not> in_scope ?p plain_session" by code_simp
  have new: "newSessionID (ca_createTime sample_call) (ca_random sample_call) = Inr ''chat_5_6162''" by code_simp
  have "ss_sessionID s \<noteq> ''s1''" if "own_session sample_wiring sample_call ?p sample_store sample_files s" for s
    using that foreign
    by (auto simp: own_session_def fresh_session_def new active_session_def sample_wiring_def active stored new_session_def)
  moreover have "message_source sample_message = ''c''" "message_room sample_message = ''r2''" by code_simp+
  moreover have "cn_store sample_connector = Some sample_store" "ci_userID sample_message = ''u''"
    by (simp_all add: sample_connector_def sample_message_def)
  ultimately show ?thesis by (auto simp: same_queue_def may_queue_def chosen refuse_foreign_def)
qed

theorem queues_own_open_sessions_witness:
  "handleMessage sample_wiring (Some refuse_foreign) sample_call sample_message sample_connector sample_files =
     handleMessage sample_wiring (Some accept) sample_call sample_message sample_connector sample_files \<and>
   map_sum id cr_id (fst (handleMessage sample_wiring (Some accept) sample_call sample_message sample_connector sample_files)) =
     Inr ''chat_5_6162''"
proof
  show "handleMessage sample_wiring (Some refuse_foreign) sample_call sample_message sample_connector sample_files =
      handleMessage sample_wiring (Some accept) sample_call sample_message sample_connector sample_files"
    by (rule queues_own_open_sessions [OF sample_unforeign, symmetric])
  show "map_sum id cr_id (fst (handleMessage sample_wiring (Some accept) sample_call sample_message sample_connector sample_files)) =
      Inr ''chat_5_6162''" by code_simp
qed

end
