(* ===== verification/Shell_Tool.thy ===== *)
theory Shell_Tool
  imports Tool_Args Go_Regexp
begin

text \<open>
  The tool shell.exec of internal/tools/builtins.go: the allow list of command patterns and the call of
  the shell. Patterns become regular expressions; as in Go_Regexp a percent sign stands for the
  backslash, so one in a pattern is written as an escaped percent sign. The shell is a parameter.
\<close>

section \<open>Patterns of commands\<close>

definition regex_special :: "char \<Rightarrow> bool" where
  "regex_special c = (c \<in> set ''.+*?()|[]{}'' \<or> c \<in> {CHR 0x5C, CHR 0x5E, CHR 0x24})"

definition quote_unit :: "char \<Rightarrow> string" where
  "quote_unit c = (if regex_special c \<or> c = escape_char then [escape_char, c] else [c])"

text \<open>regexp.QuoteMeta\<close>

definition quoteMeta :: "string \<Rightarrow> string" where
  "quoteMeta s = concat (map quote_unit s)"

text \<open>The pair is whether the invocation matches and whether the pattern is well-formed.\<close>

definition commandMatchesPattern :: "string \<Rightarrow> string \<Rightarrow> bool \<times> bool" where
  "commandMatchesPattern invocation pattern =
    (let inv = trim_space invocation; pat = trim_space pattern in
     if inv = [] \<or> pat = [] then (False, True)
     else
      (let escaped = replace_all [escape_char, CHR ''?''] ''.'' (replace_all [escape_char, CHR ''*''] ''.*'' (quoteMeta pat));
           escaped = (if suffix '' .*'' escaped then take (length escaped - 3) escaped @ ''( .*)?'' else escaped)
       in case compile (''(?s)'' @ [CHR 0x5E] @ escaped @ [CHR 0x24]) of
            None \<Rightarrow> (False, False)
          | Some r \<Rightarrow> (rx_test r inv, True)))"

section \<open>Executing\<close>

record shell_result =
  sh_stdout :: string
  sh_stderr :: string
  sh_exitCode :: int
  sh_error :: "string option"

type_synonym 'w shell = "string \<Rightarrow> string list \<Rightarrow> string \<Rightarrow> 'w \<Rightarrow> shell_result \<times> 'w"

datatype shell_error = ShellNotConfigured | BadCommand string | CommandNotAllowed

definition isExecutableNotFound :: "string option \<Rightarrow> bool" where
  "isExecutableNotFound err =
    (case err of
       None \<Rightarrow> False
     | Some e \<Rightarrow>
       (let text = to_lower (trim_space e) in
        text \<noteq> [] \<and> contains_any text [''executable file not found'', ''not found in $path'', ''no such file or directory'']))"

text \<open>The other shells, tried in turn while none is found.\<close>

fun shell_fallback :: "'w shell \<Rightarrow> string list \<Rightarrow> string \<Rightarrow> string list \<Rightarrow> 'w \<Rightarrow> (string \<times> shell_result) option \<times> 'w" where
  "shell_fallback exec args dir [] w = (None, w)"
| "shell_fallback exec args dir (cmd # cmds) w =
     (case exec cmd args dir w of
        (r, w1) \<Rightarrow>
          if sh_error r = None \<or> \<not> isExecutableNotFound (sh_error r) then (Some (cmd, r), w1)
          else shell_fallback exec args dir cmds w1)"

definition command_allowed :: "string list \<Rightarrow> string \<Rightarrow> bool" where
  "command_allowed patterns invocation = list_ex (\<lambda>p. commandMatchesPattern invocation p = (True, True)) patterns"

definition shell_output :: "bool \<Rightarrow> int \<Rightarrow> string \<Rightarrow> shell_result \<Rightarrow> (string, json) gmap" where
  "shell_output allowEmpty timeoutMS fallback r = mput_all
    ([(''stdout'', JStr (sh_stdout r)), (''stderr'', JStr (sh_stderr r)), (''exit_code'', JNum (itoa (sh_exitCode r))),
      (''captured'', JBool True)] @
     (if fallback \<noteq> [] then [(''shell_fallback'', JStr fallback)] else []) @
     (case sh_error r of None \<Rightarrow> [] | Some e \<Rightarrow> [(''error'', JStr e)]) @
     (if trim_space (sh_stdout r) = [] \<and> trim_space (sh_stderr r) = [] \<and> sh_exitCode r = 0 \<and> \<not> allowEmpty
      then [(''error'', JStr ''output_capture_bug: command exited 0 with empty stdout/stderr''),
            (''error_code'', JStr ''output_capture_bug'')] else []) @
     (if 0 < timeoutMS then [(''timeout_ms'', JNum (itoa timeoutMS))] else [])) mempty"

definition shellExec ::
  "'w shell option \<Rightarrow> string list \<Rightarrow> (string, json) gmap \<Rightarrow> 'w \<Rightarrow> (shell_error + (string, json) gmap) \<times> 'w" where
  "shellExec shell patterns args w =
    (case shell of
       None \<Rightarrow> (Inl ShellNotConfigured, w)
     | Some exec \<Rightarrow>
       (case getString args ''command'' of
          Inl e \<Rightarrow> (Inl (BadCommand e), w)
        | Inr command \<Rightarrow>
          (let dir = (case getString args ''workdir'' of Inl _ \<Rightarrow> [] | Inr d \<Rightarrow> d); argv = [''-lc'', command] in
           if \<not> command_allowed patterns (trim_space command) then (Inl CommandNotAllowed, w)
           else
            (let out = shell_output (getBoolArg args ''allow_empty_output'' False) (getIntArg args ''timeout_ms'' 0) in
             case exec ''bash'' argv dir w of
               (r, w1) \<Rightarrow>
                 if sh_error r \<noteq> None \<and> isExecutableNotFound (sh_error r)
                 then (case shell_fallback exec argv dir [''/bin/bash'', ''/usr/bin/bash'', ''sh''] w1 of
                     (Some (cmd, r'), w2) \<Rightarrow> (Inr (out cmd r'), w2)
                   | (None, w2) \<Rightarrow> (Inr (out [] r), w2))
                 else (Inr (out [] r), w1)))))"

lemma shell_examples:
  "commandMatchesPattern '' git '' ''git *'' = (True, True)"
  "commandMatchesPattern ''git log a.b'' ''git *'' = (True, True)"
  "commandMatchesPattern ''gitk'' ''git *'' = (False, True)"
  "commandMatchesPattern ''ls -la'' ''ls -?a'' = (True, True)"
  "commandMatchesPattern ''axb'' ''a.b'' = (False, True)"
  by code_simp+

end
