(* ===== verification/Tool_Registry.thy ===== *)
theory Tool_Registry
  imports Go_Json Policy
begin

text \<open>
  The tool registry of internal/tools/registry.go with errors.go: registration, and the path of a
  call through Execute: audit, repair of corrupted keys, validation, policy, handler, audit. The
  world \<open>'w\<close> is what the auditor and the handlers act on; arguments and results are JSON objects.
  The shell executor, the sandbox provider and the request context are handed on unread, so the
  handler of the model closes over them.
\<close>

section \<open>Data\<close>

datatype arg_type = ArgTypeString | ArgTypeNumber | ArgTypeBool | ArgTypeObject | ArgTypeArray | ArgTypeOther string

definition arg_type_text :: "arg_type \<Rightarrow> string" where
  "arg_type_text t =
    (case t of ArgTypeString \<Rightarrow> ''string'' | ArgTypeNumber \<Rightarrow> ''number'' | ArgTypeBool \<Rightarrow> ''bool''
     | ArgTypeObject \<Rightarrow> ''object'' | ArgTypeArray \<Rightarrow> ''array'' | ArgTypeOther s \<Rightarrow> s)"

record tool_spec =
  sp_name :: string
  sp_description :: string
  sp_required :: "string list"
  sp_argTypes :: "(string, arg_type) gmap"

text \<open>
  An error: either a plain one (its text, whether it is context.DeadlineExceeded, what it wraps) or
  a ToolError. \<open>error_text\<close> is Error().
\<close>

datatype tool_err =
    PlainError string bool "tool_err option"
  | ToolError string string string "tool_err option"

definition ErrCodeNotFound :: string where "ErrCodeNotFound = ''tool.not_found''"
definition ErrCodeInvalidInput :: string where "ErrCodeInvalidInput = ''tool.input_invalid''"
definition ErrCodePolicyDenied :: string where "ErrCodePolicyDenied = ''policy.denied''"
definition ErrCodeTimeout :: string where "ErrCodeTimeout = ''timeout''"
definition ErrCodeExecution :: string where "ErrCodeExecution = ''internal.error''"

fun error_text :: "tool_err \<Rightarrow> string" where
  "error_text (PlainError t _ _) = t"
| "error_text (ToolError code tool msg _) =
     (if tool = [] then code @ '': '' @ msg else code @ '' ('' @ tool @ ''): '' @ msg)"

definition wrapError :: "string \<Rightarrow> string \<Rightarrow> tool_err \<Rightarrow> tool_err" where
  "wrapError code tool e = ToolError code tool (error_text e) (Some e)"

text \<open>errors.As for a ToolError, and errors.Is for context.DeadlineExceeded.\<close>

fun first_tool_code :: "tool_err \<Rightarrow> string option" where
  "first_tool_code (ToolError code _ _ _) = Some code"
| "first_tool_code (PlainError _ _ (Some e)) = first_tool_code e"
| "first_tool_code (PlainError _ _ None) = None"

fun is_deadline :: "tool_err \<Rightarrow> bool" where
  "is_deadline (PlainError _ d None) = d"
| "is_deadline (PlainError _ d (Some e)) = (d \<or> is_deadline e)"
| "is_deadline (ToolError _ _ _ (Some e)) = is_deadline e"
| "is_deadline (ToolError _ _ _ None) = False"

definition classifyToolErrorCode :: "tool_err \<Rightarrow> string" where
  "classifyToolErrorCode e =
    (case first_tool_code e of
       Some (c # code) \<Rightarrow> c # code
     | _ \<Rightarrow>
       if is_deadline e then ErrCodeTimeout
       else if contains_any (to_lower (trim_space (error_text e)))
         [''invalid'', ''must be'', ''required'', ''missing''] then ErrCodeInvalidInput
       else ErrCodeExecution)"

type_synonym args = "(string, json) gmap"

record tool_request =
  rq_agentID :: string
  rq_tool :: string
  rq_workspace :: string
  rq_args :: args

type_synonym 'w handler = "tool_request \<Rightarrow> 'w \<Rightarrow> (tool_err + args) \<times> 'w"
type_synonym 'w auditor = "string \<Rightarrow> args \<Rightarrow> 'w \<Rightarrow> 'w"

record 'w registry =
  rg_policy :: "(string \<Rightarrow> string \<Rightarrow> tool_err option) option"
  rg_audit :: "'w auditor option"
  rg_tools :: "(string, tool_spec \<times> 'w handler) gmap"

section \<open>Registration\<close>

definition newRegistry ::
  "(string \<Rightarrow> string \<Rightarrow> tool_err option) option \<Rightarrow> 'w auditor option \<Rightarrow> 'w registry" where
  "newRegistry policy audit = \<lparr>rg_policy = policy, rg_audit = audit, rg_tools = mempty\<rparr>"

datatype register_error = NameRequired | HandlerRequired | AlreadyRegistered string

definition register ::
  "tool_spec \<Rightarrow> 'w handler option \<Rightarrow> 'w registry \<Rightarrow> register_error + 'w registry" where
  "register spec handler r =
    (if sp_name spec = [] then Inl NameRequired
     else case handler of
       None \<Rightarrow> Inl HandlerRequired
     | Some h \<Rightarrow>
       if mhas (rg_tools r) (sp_name spec) then Inl (AlreadyRegistered (sp_name spec))
       else Inr (r\<lparr>rg_tools := mput (sp_name spec) (spec, h) (rg_tools r)\<rparr>))"

text \<open>The specs in the order of the map range \<open>ord\<close>.\<close>

definition list_tools :: "(string list \<Rightarrow> string list) \<Rightarrow> 'w registry \<Rightarrow> tool_spec list" where
  "list_tools ord r = map fst (List.map_filter (mget (rg_tools r)) (ord (mkeys (rg_tools r))))"

section \<open>Repair of corrupted keys\<close>

text \<open>strings.Trim with the cutset of a quote and a blank.\<close>

definition quote_or_blank :: "char \<Rightarrow> bool" where
  "quote_or_blank c = (c = CHR 0x22 \<or> c = CHR '' '')"

definition trim_quotes :: "string \<Rightarrow> string" where
  "trim_quotes s = rev (dropWhile quote_or_blank (rev (dropWhile quote_or_blank s)))"

definition corrupt_mark :: string where "corrupt_mark = [CHR '','', CHR 0x22]"
definition corrupt_mark_blank :: string where "corrupt_mark_blank = [CHR '','', CHR '' '', CHR 0x22]"

definition corrupted_key :: "string \<Rightarrow> bool" where
  "corrupted_key k = (contains k corrupt_mark \<or> contains k corrupt_mark_blank)"

text \<open>The two ranges that look for the field of a stray element visit the keys in the order \<open>ks\<close>.\<close>

fun merge_into_array ::
  "(string, arg_type) gmap \<Rightarrow> string \<Rightarrow> string \<Rightarrow> string list \<Rightarrow> args \<Rightarrow> args option" where
  "merge_into_array types sfx pre [] args = None"
| "merge_into_array types sfx pre (k # ks) args =
     (if k \<noteq> sfx \<and> mget types k = Some ArgTypeArray then
        (case mget args k of
           Some (JStr ev) \<Rightarrow> Some (mput k (JArr [JStr ev, JStr pre]) args)
         | Some (JArr ev) \<Rightarrow> Some (mput k (JArr (ev @ [JStr pre])) args)
         | _ \<Rightarrow> merge_into_array types sfx pre ks args)
      else merge_into_array types sfx pre ks args)"

definition short_text :: "string \<Rightarrow> bool" where
  "short_text s = (length s < 80 \<and> CHR 0x0A \<notin> set s)"

fun merge_into_short :: "string \<Rightarrow> string \<Rightarrow> string list \<Rightarrow> args \<Rightarrow> args" where
  "merge_into_short sfx pre [] args = args"
| "merge_into_short sfx pre (k # ks) args =
     (case mget args k of
        Some (JStr ev) \<Rightarrow>
          if k \<noteq> sfx \<and> short_text pre \<and> short_text ev
          then mput k (JArr [JStr ev, JStr pre]) args
          else merge_into_short sfx pre ks args
      | _ \<Rightarrow> merge_into_short sfx pre ks args)"

definition bad_key_index :: "string \<Rightarrow> nat option" where
  "bad_key_index k =
    (case index_of corrupt_mark k of Some i \<Rightarrow> Some i | None \<Rightarrow> index_of corrupt_mark_blank k)"

definition repair_key ::
  "(string list \<Rightarrow> string list) \<Rightarrow> (string, arg_type) gmap \<Rightarrow> string \<Rightarrow> args \<Rightarrow> args" where
  "repair_key ord types bad args =
    (case bad_key_index bad of
       None \<Rightarrow> args
     | Some i \<Rightarrow>
       let pre = trim_space (take i bad);
           sfx = trim_quotes (trim_space (drop (i + 1) bad))
       in if sfx = [] then args
          else
            let v = (case mget args bad of None \<Rightarrow> JNull | Some v \<Rightarrow> v);
                args' = mput sfx v (mdel bad args)
            in if pre = [] then args'
               else case merge_into_array types sfx pre (ord (mkeys args')) args' of
                   Some args'' \<Rightarrow> args''
                 | None \<Rightarrow> merge_into_short sfx pre (ord (mkeys args')) args')"

definition repairCorruptedArgKeys ::
  "(string list \<Rightarrow> string list) \<Rightarrow> args \<Rightarrow> (string, arg_type) gmap \<Rightarrow> args" where
  "repairCorruptedArgKeys ord args types =
    fold (repair_key ord types) (ord (filter corrupted_key (mkeys args))) args"

section \<open>Validation\<close>

fun matchesArgType :: "json \<Rightarrow> arg_type \<Rightarrow> bool" where
  "matchesArgType v ArgTypeString = (case v of JStr _ \<Rightarrow> True | _ \<Rightarrow> False)"
| "matchesArgType v ArgTypeNumber = (case v of JNum _ \<Rightarrow> True | _ \<Rightarrow> False)"
| "matchesArgType v ArgTypeBool = (case v of JBool _ \<Rightarrow> True | _ \<Rightarrow> False)"
| "matchesArgType v ArgTypeObject = (case v of JObj _ \<Rightarrow> True | _ \<Rightarrow> False)"
| "matchesArgType v ArgTypeArray = (case v of JArr _ \<Rightarrow> True | _ \<Rightarrow> False)"
| "matchesArgType v (ArgTypeOther _) = True"

definition invalid_type :: "string \<Rightarrow> string \<Rightarrow> arg_type \<Rightarrow> tool_err" where
  "invalid_type tool field t =
    ToolError ErrCodeInvalidInput tool
      (''invalid type for field '' @ field @ '': expected '' @ arg_type_text t) None"

text \<open>The two loops of Execute over the required fields and over the typed fields.\<close>

fun check_required :: "string \<Rightarrow> (string, arg_type) gmap \<Rightarrow> args \<Rightarrow> string list \<Rightarrow> tool_err option" where
  "check_required tool types args [] = None"
| "check_required tool types args (f # fs) =
     (case mget args f of
        None \<Rightarrow> Some (ToolError ErrCodeInvalidInput tool (''missing required field: '' @ f) None)
      | Some v \<Rightarrow>
        (case mget types f of
           Some t \<Rightarrow> if matchesArgType v t then check_required tool types args fs
                     else Some (invalid_type tool f t)
         | None \<Rightarrow> check_required tool types args fs))"

fun check_types :: "string \<Rightarrow> (string, arg_type) gmap \<Rightarrow> args \<Rightarrow> string list \<Rightarrow> tool_err option" where
  "check_types tool types args [] = None"
| "check_types tool types args (f # fs) =
     (case (mget args f, mget types f) of
        (Some v, Some t) \<Rightarrow>
          if matchesArgType v t then check_types tool types args fs else Some (invalid_type tool f t)
      | _ \<Rightarrow> check_types tool types args fs)"

section \<open>Audit\<close>

definition secret_tool :: "string \<Rightarrow> bool" where
  "secret_tool tool = prefix ''secrets.'' (trim_space tool)"

definition redact_value :: "args \<Rightarrow> args" where
  "redact_value m = (if mhas m ''value'' then mput ''value'' (JStr ''[REDACTED]'') m else m)"

definition sanitizeAuditArgs :: "string \<Rightarrow> args \<Rightarrow> args" where
  "sanitizeAuditArgs tool args = (if secret_tool tool then redact_value args else args)"

definition sanitizeAuditResult :: "string \<Rightarrow> args \<Rightarrow> args" where
  "sanitizeAuditResult tool result = (if secret_tool tool then redact_value result else result)"

definition emit :: "'w registry \<Rightarrow> string \<Rightarrow> args \<Rightarrow> 'w \<Rightarrow> 'w" where
  "emit r event fs w = (case rg_audit r of None \<Rightarrow> w | Some sink \<Rightarrow> sink event fs w)"

definition call_fields :: "string \<Rightarrow> string \<Rightarrow> args \<Rightarrow> args" where
  "call_fields agent tool args =
    mput_all [(''agent_id'', JStr agent), (''tool'', JStr tool),
      (''args'', JObj (sanitizeAuditArgs tool args))] mempty"

definition error_fields :: "string \<Rightarrow> string \<Rightarrow> tool_err \<Rightarrow> args" where
  "error_fields agent tool e =
    mput_all [(''agent_id'', JStr agent), (''tool'', JStr tool), (''error'', JStr (error_text e))] mempty"

definition result_fields :: "string \<Rightarrow> string \<Rightarrow> args \<Rightarrow> args" where
  "result_fields agent tool res =
    mput_all [(''agent_id'', JStr agent), (''tool'', JStr tool),
      (''result'', JObj (sanitizeAuditResult tool res))] mempty"

definition emit_result :: "'w registry \<Rightarrow> string \<Rightarrow> string \<Rightarrow> (tool_err + args) \<Rightarrow> 'w \<Rightarrow> 'w" where
  "emit_result r agent tool res w =
    emit r ''tool.result''
      (case res of Inl e \<Rightarrow> error_fields agent tool e | Inr m \<Rightarrow> result_fields agent tool m) w"

section \<open>Execute\<close>

definition policy_error :: "'w registry \<Rightarrow> string \<Rightarrow> string \<Rightarrow> tool_err option" where
  "policy_error r agent tool =
    (case rg_policy r of
       None \<Rightarrow> None
     | Some check \<Rightarrow> map_option (wrapError ErrCodePolicyDenied tool) (check agent tool))"

definition run_handler ::
  "'w handler \<Rightarrow> string \<Rightarrow> string \<Rightarrow> string \<Rightarrow> args \<Rightarrow> 'w \<Rightarrow> (tool_err + args) \<times> 'w" where
  "run_handler h agent tool ws args w =
    (case h \<lparr>rq_agentID = agent, rq_tool = tool, rq_workspace = ws, rq_args = args\<rparr> w of
       (Inl e, w') \<Rightarrow> (Inl (wrapError (classifyToolErrorCode e) tool e), w')
     | (Inr m, w') \<Rightarrow> (Inr m, w'))"

definition execute ::
  "(string list \<Rightarrow> string list) \<Rightarrow> 'w registry \<Rightarrow> string \<Rightarrow> string \<Rightarrow> string \<Rightarrow> args \<Rightarrow> 'w \<Rightarrow>
   (tool_err + args) \<times> 'w" where
  "execute ord r agent tool ws args w =
    (let w1 = emit r ''tool.call'' (call_fields agent tool args) w;
         fail = (\<lambda>e w. (Inl e, emit_result r agent tool (Inl e) w))
     in case mget (rg_tools r) tool of
       None \<Rightarrow> fail (ToolError ErrCodeNotFound tool ''tool not registered'' None) w1
     | Some (spec, handler) \<Rightarrow>
       let args' = repairCorruptedArgKeys ord args (sp_argTypes spec) in
       case check_required tool (sp_argTypes spec) args' (sp_required spec) of
         Some e \<Rightarrow> fail e w1
       | None \<Rightarrow>
         (case check_types tool (sp_argTypes spec) args' (ord (mkeys (sp_argTypes spec))) of
            Some e \<Rightarrow> fail e w1
          | None \<Rightarrow>
            (case policy_error r agent tool of
               Some e \<Rightarrow> fail e (emit r ''policy.denied'' (error_fields agent tool e) w1)
             | None \<Rightarrow>
               (case run_handler handler agent tool ws args' w1 of
                  (res, w2) \<Rightarrow> (res, emit_result r agent tool res w2)))))"

end
