(* ===== verification/Core_Tools.thy ===== *)
theory Core_Tools
  imports File_Tools Shell_Tool Tool_Registry
begin

text \<open>
  The registration of the file tools and of shell.exec by RegisterCoreWithOptions in
  internal/tools/builtins.go: their specs and their handlers over what the registry hands on, the record
  \<open>host\<close>. The other tools that it registers are left out.
\<close>

section \<open>Handlers\<close>

record 'w host =
  ho_policy :: "('w \<Rightarrow> file_system) option"
  ho_sandbox :: bool
  ho_files :: "'w files"
  ho_shell :: "'w shell option"
  ho_allowed :: "string list"

definition fs_request_of :: "'w host \<Rightarrow> tool_request \<Rightarrow> 'w fs_request" where
  "fs_request_of h rq =
    \<lparr>tr_agentID = rq_agentID rq, tr_workspace = rq_workspace rq, tr_args = rq_args rq, tr_policy = ho_policy h,
     tr_sandbox = ho_sandbox h, tr_files = ho_files h\<rparr>"

definition file_handler :: "'w host \<Rightarrow> ('w fs_request \<Rightarrow> 'w \<Rightarrow> 'w outcome) \<Rightarrow> 'w handler" where
  "file_handler h tool rq w =
    (case tool (fs_request_of h rq) w of
       (Inl e, w') \<Rightarrow> (Inl (PlainError e False None), w')
     | (Inr m, w') \<Rightarrow> (Inr m, w'))"

definition shell_tool_error :: "string \<Rightarrow> shell_error \<Rightarrow> tool_err" where
  "shell_tool_error tool e =
    (case e of
       ShellNotConfigured \<Rightarrow> PlainError ''shell executor is not configured'' False None
     | BadCommand t \<Rightarrow> PlainError t False None
     | CommandNotAllowed \<Rightarrow> ToolError ErrCodePolicyDenied tool ''command is not allowed'' None)"

definition shell_handler :: "'w host \<Rightarrow> 'w handler" where
  "shell_handler h rq w =
    (case shellExec (ho_shell h) (ho_allowed h) (rq_args rq) w of
       (Inl e, w') \<Rightarrow> (Inl (shell_tool_error (rq_tool rq) e), w')
     | (Inr m, w') \<Rightarrow> (Inr m, w'))"

section \<open>Specs\<close>

definition core_spec :: "string \<Rightarrow> string \<Rightarrow> string list \<Rightarrow> (string \<times> arg_type) list \<Rightarrow> tool_spec" where
  "core_spec name description required types =
    \<lparr>sp_name = name, sp_description = description, sp_required = required, sp_argTypes = mput_all types mempty\<rparr>"

definition file_tools :: "(tool_spec \<times> ('w fs_request \<Rightarrow> 'w \<Rightarrow> 'w outcome)) list" where
  "file_tools =
    [(core_spec ''fs.read'' ''Read text file'' [''path''] [(''path'', ArgTypeString), (''max_bytes'', ArgTypeNumber)], fsRead),
     (core_spec ''fs.list'' ''List directory entries'' [''path''] [(''path'', ArgTypeString)], fsList),
     (core_spec ''fs.write'' ''Write text file'' [''path'', ''content''] [(''path'', ArgTypeString), (''content'', ArgTypeString)], fsWrite),
     (core_spec ''fs.append'' ''Append text to file'' [''path'', ''content''] [(''path'', ArgTypeString), (''content'', ArgTypeString)], fsAppend),
     (core_spec ''fs.delete'' ''Delete file or directory'' [''path'']
        [(''path'', ArgTypeString), (''recursive'', ArgTypeBool), (''force'', ArgTypeBool)], fsDelete),
     (core_spec ''fs.move'' ''Move or rename file or directory'' [''src'', ''dst'']
        [(''src'', ArgTypeString), (''dst'', ArgTypeString), (''overwrite'', ArgTypeBool)], fsMove),
     (core_spec ''fs.edit'' ''Apply file edits (replace, line patch, unified diff)'' [''path'']
        [(''path'', ArgTypeString), (''old'', ArgTypeString), (''new'', ArgTypeString), (''edits'', ArgTypeArray),
         (''patch'', ArgTypeString)], fsEdit),
     (core_spec ''fs.mkdir'' ''Create directory (with parents)'' [''path''] [(''path'', ArgTypeString)], fsMkdir)]"

definition shell_description :: string where
  "shell_description =
    ''Executes a given bash command in the sandbox with optional timeout, workdir, and description. Use workdir instead of 'cd <dir> && <cmd>' patterns. For terminal operations (git, npm, build scripts) only '' @
    [CHR 0xE2, CHR 0x80, CHR 0x94] @ '' use fs.* tools for file operations.''"

definition shell_spec :: tool_spec where
  "shell_spec = core_spec ''shell.exec'' shell_description [''command'']
     [(''command'', ArgTypeString), (''workdir'', ArgTypeString), (''description'', ArgTypeString), (''timeout_ms'', ArgTypeNumber)]"

section \<open>Registration\<close>

fun register_all :: "(tool_spec \<times> 'w handler) list \<Rightarrow> 'w registry \<Rightarrow> register_error + 'w registry" where
  "register_all [] r = Inr r"
| "register_all ((s, h) # ts) r = (case register s (Some h) r of Inl e \<Rightarrow> Inl e | Inr r' \<Rightarrow> register_all ts r')"

definition registerCoreTools :: "'w host \<Rightarrow> bool \<Rightarrow> 'w registry \<Rightarrow> register_error + 'w registry" where
  "registerCoreTools h enableShell r = register_all
    (map (\<lambda>(s, tool). (s, file_handler h tool)) file_tools @ (if enableShell then [(shell_spec, shell_handler h)] else [])) r"

end
