(* ===== verification/Policy_Facts.thy ===== *)
theory Policy_Facts
  imports Policy
begin

text \<open>
  What the policy guarantees: capabilities are granted exactly as listed, up to the spelling of tool
  names, and no resolved path leaves the workspace, whatever the symbolic links.
\<close>

section \<open>Capabilities\<close>

lemma mget_const_all:
  "mget (mput_all (map (\<lambda>c. (c, v)) xs) mempty) k = (if k \<in> set xs then Some v else None)"
proof -
  have "map_of (map (\<lambda>c. (c, v)) ys) k = (if k \<in> set ys then Some v else None)" for ys
    by (induction ys) auto
  from this [of "rev xs"] show ?thesis by (simp add: mget_mput_all rev_map split: option.split)
qed

lemma granted_set: "granted (capability_set tools) c \<longleftrightarrow> c \<noteq> [] \<and> c \<in> canonicalCapabilityTool ` set tools"
  by (auto simp: granted_def capability_set_def mget_const_all)

lemma mget_map_values:
  "wf_gmap m \<Longrightarrow> mget (mput_all (map (\<lambda>(k, v). (k, f v)) m) mempty) k = map_option f (mget m k)"
proof -
  assume wf: "wf_gmap m"
  have keys: "map fst (map (\<lambda>(k, v). (k, f v)) m) = mkeys m" by (simp add: mkeys_def case_prod_beta o_def)
  show ?thesis
  proof (cases "mget m k")
    case None
    then have "k \<notin> set (mkeys m)" by (simp add: set_mkeys domIff)
    then have "k \<notin> fst ` set (rev (map (\<lambda>(k, v). (k, f v)) m))" using keys by (metis set_map set_rev)
    then have "map_of (rev (map (\<lambda>(k, v). (k, f v)) m)) k = None" by (rule map_of_eq_None_iff [THEN iffD2])
    with None show ?thesis by (simp add: mget_mput_all)
  next
    case (Some v)
    then have "(k, f v) \<in> set (map (\<lambda>(k, v). (k, f v)) m)" using mget_in by force
    with Some keys wf_distinct [OF wf] show ?thesis by (simp only: mget_mput_all_distinct option.map)
  qed
qed

text \<open>
  An agent may use a tool exactly when one of the names granted to it denotes the same
  canonical tool; an agent without an entry may use none.
\<close>

theorem check_tool_exact:
  "checkTool (newEnforcer ws (mput_all grants mempty)) agent tool = None \<longleftrightarrow>
   canonicalCapabilityTool tool \<noteq> [] \<and>
   (\<exists>tools. mget (mput_all grants mempty) agent = Some tools \<and>
      canonicalCapabilityTool tool \<in> canonicalCapabilityTool ` set tools)"
proof -
  have "mget (en_capabilities (newEnforcer ws (mput_all grants mempty))) agent =
      map_option capability_set (mget (mput_all grants mempty) agent)"
    unfolding newEnforcer_def enforcer.select_convs by (rule mget_map_values) simp
  then show ?thesis
    by (cases "mget (mput_all grants mempty) agent") (auto simp: checkTool_def Let_def granted_set)
qed

lemma sorted_keys_eq:
  assumes "wf_gmap m" "wf_gmap n" "set (mkeys m) = set (mkeys n)"
  shows "mkeys m = mkeys n"
  using assms(3)
  by (rule sorted_distinct_set_unique [OF wf_sorted [OF assms(1)] wf_distinct [OF assms(1)]
        wf_sorted [OF assms(2)] wf_distinct [OF assms(2)]])

lemma keys_const_all: "set (mkeys (mput_all (map (\<lambda>c. (c, v)) xs) mempty)) = set xs"
  by (auto simp: set_mkeys mget_const_all dom_def)

lemma list_capability_set:
  "sort (map fst (filter snd (capability_set cs))) = normalizeCapabilities cs"
proof -
  let ?xs = "filter (\<lambda>c. c \<noteq> []) (map canonicalCapabilityTool cs)"
  let ?m = "mput_all (map (\<lambda>c. (c, True)) ?xs) mempty"
  have "v" if "(k, v) \<in> set ?m" for k v
    using in_mget [OF _ that] by (simp add: mget_const_all split: if_splits)
  then have "filter snd ?m = ?m" by (auto simp: filter_id_conv)
  then have "map fst (filter snd ?m) = mkeys ?m" by (simp add: mkeys_def)
  also have "\<dots> = mkeys (mput_all (map (\<lambda>c. (c, ())) ?xs) mempty)"
    by (rule sorted_keys_eq) (simp_all only: wf_mput_all wf_mempty keys_const_all)
  finally show ?thesis by (simp add: capability_set_def normalizeCapabilities_def)
qed

text \<open>
  Setting the capabilities of an agent changes that agent's list only, to the sorted canonical
  names without duplicates or blanks; a blank agent id changes nothing.
\<close>

theorem set_capabilities_listed:
  "listCapabilities (setCapabilities agent cs e) other =
     (if other = agent \<and> trim_space agent \<noteq> [] then normalizeCapabilities cs else listCapabilities e other)"
  using list_capability_set [of cs] by (simp add: listCapabilities_def setCapabilities_def gmap_laws)

section \<open>Paths stay inside the workspace\<close>

lemma join_hd:
  "ts \<noteq> [] \<Longrightarrow> list_all plain_elem ts \<Longrightarrow>
   \<exists>r. join_with [slash] ts = hd ts @ r \<and> (r = [] \<or> hd r = slash)"
  by (cases ts; cases "tl ts") auto

lemma plain_not_up:
  assumes "plain_elem e" "r = [] \<or> hd r = slash"
  shows "e @ r \<noteq> ''..''" "\<not> prefix ''../'' (e @ r)" "\<not> is_abs (e @ r)" "e @ r \<noteq> ''.''"
proof -
  have e: "e \<noteq> []" "e \<noteq> ''.''" "e \<noteq> ''..''" "slash \<notin> set e" using assms(1) by (auto simp: plain_elem_def)
  show "e @ r \<noteq> ''..''" using e assms(2) by (cases e; cases "tl e"; cases r) (auto simp: append_eq_Cons_conv)
  show "\<not> prefix ''../'' (e @ r)"
    using e assms(2) by (cases e; cases "tl e"; cases "tl (tl e)"; cases r) auto
  show "\<not> is_abs (e @ r)" using e by (cases e) (auto simp: is_abs_def)
  show "e @ r \<noteq> ''.''" using e assms(2) by (cases e; cases r) auto
qed

lemma within_iff:
  assumes "list_all plain_elem ws" "list_all plain_elem ps"
  shows "isWithinWorkspace (rooted_path ws) (rooted_path ps) \<longleftrightarrow> prefix ws ps"
proof -
  obtain bs ts where d: "drop_common ws ps = (bs, ts)" by force
  note c = drop_common_prefix [OF d]
  have ts: "list_all plain_elem ts" using c assms(2) by auto
  have rel: "path_rel (rooted_path ws) (rooted_path ps) =
      Some (if bs = [] \<and> ts = [] then ''.'' else join_with [slash] (replicate (length bs) ''..'' @ ts))"
    using d by (simp add: path_rel_below [OF assms])
  show ?thesis
  proof (cases "bs = []")
    case True
    show ?thesis
    proof (cases "ts = []")
      case True
      with c \<open>bs = []\<close> rel show ?thesis by (simp add: isWithinWorkspace_def)
    next
      case False
      then obtain r where r: "join_with [slash] ts = hd ts @ r" "r = [] \<or> hd r = slash"
        using join_hd [OF _ ts] by blast
      have "plain_elem (hd ts)" using False ts by (cases ts) auto
      note up = plain_not_up [OF this r(2)]
      from False \<open>bs = []\<close> rel c r up show ?thesis by (simp add: isWithinWorkspace_def)
    qed
  next
    case False
    obtain n where n: "length bs = Suc n" using False by (cases bs) auto
    have "join_with [slash] (replicate (length bs) ''..'' @ ts) = ''..'' \<or>
        prefix ''../'' (join_with [slash] (replicate (length bs) ''..'' @ ts))"
      by (cases "replicate n ''..'' @ ts") (auto simp: n)
    with False rel c show ?thesis by (auto simp: isWithinWorkspace_def is_abs_def)
  qed
qed

lemma rooted_prefix_below:
  assumes "prefix ws ps"
  shows "rooted_path ps = rooted_path ws \<or> prefix (rooted_path ws @ [slash]) (rooted_path ps) \<or> rooted_path ws = [slash]"
proof -
  obtain ts where ps: "ps = ws @ ts" using assms by (auto simp: prefix_def)
  have "join_with [slash] (ws @ ts) = join_with [slash] ws @ [slash] @ join_with [slash] ts"
    if "ws \<noteq> []" "ts \<noteq> []"
    using that by (induction ws rule: induct_list012) (auto simp: neq_Nil_conv)
  then show ?thesis
    using ps by (cases "ws = []"; cases "ts = []") (auto simp: rooted_path_def prefix_def)
qed

definition real_path :: "string \<Rightarrow> bool" where
  "real_path p \<longleftrightarrow> is_abs p \<and> path_clean p = p"

lemma real_path_rooted:
  assumes "real_path p"
  obtains es where "p = rooted_path es" "list_all plain_elem es"
  using assms clean_rooted [of p] unfolding real_path_def by metis

lemma clean_real: "is_abs p \<Longrightarrow> real_path (path_clean p)"
  using clean_rooted [of p] clean_rooted_id unfolding real_path_def by (metis is_abs_rooted)

lemma hd_join: "a \<noteq> [] \<Longrightarrow> join_with [slash] (a # es) \<noteq> [] \<and> hd (join_with [slash] (a # es)) = hd a"
  by (cases es) simp_all

lemma join_real: "is_abs a \<Longrightarrow> real_path (path_join (a # es))"
proof -
  assume a: "is_abs a"
  then have "a \<noteq> []" "is_abs (join_with [slash] (a # es))" using hd_join [of a es] by (simp_all add: is_abs_def)
  then show ?thesis by (simp add: path_join_def clean_real)
qed

lemma rooted_no_dotdot: "list_all plain_elem es \<Longrightarrow> ''..'' \<notin> set (split_on slash (rooted_path es))"
proof -
  assume p: "list_all plain_elem es"
  then have "split_on slash (rooted_path es) = (if es = [] then [[], []] else [] # es)"
    using split_join [of es slash] by (auto simp: rooted_path_def list_all_iff plain_elem_def)
  then show ?thesis using p by (auto simp: list_all_iff plain_elem_def)
qed

text \<open>filepath.EvalSymlinks returns an absolute clean path: all that is asked of the file system.\<close>

definition evaluates_cleanly :: "file_system \<Rightarrow> bool" where
  "evaluates_cleanly fs \<longleftrightarrow> (\<forall>q p. fs_eval fs q = Some p \<longrightarrow> real_path p)"

definition below :: "string \<Rightarrow> string \<Rightarrow> bool" where
  "below ws p \<longleftrightarrow> p = ws \<or> prefix (ws @ [slash]) p \<or> ws = [slash]"

lemma within_below:
  assumes "real_path ws" "real_path p" "isWithinWorkspace ws p"
  shows "below ws p \<and> ''..'' \<notin> set (split_on slash p)"
proof -
  obtain es ps where e: "ws = rooted_path es" "list_all plain_elem es" "p = rooted_path ps" "list_all plain_elem ps"
    using assms(1,2) real_path_rooted by metis
  with assms(3) have "prefix es ps" using within_iff by simp
  with e show ?thesis using rooted_prefix_below rooted_no_dotdot by (simp add: below_def)
qed

lemma real_workspace_real:
  "evaluates_cleanly fs \<Longrightarrow> real_workspace fs ws = Some r \<Longrightarrow> real_path r"
  by (auto simp: real_workspace_def evaluates_cleanly_def split: option.splits)

lemma write_candidate_real:
  assumes "evaluates_cleanly fs" "write_candidate fs t = Some p"
  shows "real_path p"
proof -
  have r: "fs_eval fs q = Some r \<Longrightarrow> real_path r" for q r using assms(1) by (simp add: evaluates_cleanly_def)
  then have "real_path (path_join (r # es))" if "fs_eval fs q = Some r" for q r es
    using that join_real by (simp add: real_path_def)
  with r assms(2) show ?thesis
    by (auto simp: write_candidate_def Let_def split: option.splits if_splits)
qed

lemma resolvePath_inside:
  assumes fs: "evaluates_cleanly fs" and r: "resolvePath fs workspace target wr = Inr p"
  shows "\<exists>ws. real_workspace fs workspace = Some ws \<and> real_path p \<and> below ws p \<and>
    ''..'' \<notin> set (split_on slash p) \<and> (wr \<longrightarrow> \<not> isProtectedControlPath p)"
proof -
  obtain ws where ws: "real_workspace fs workspace = Some ws"
      and c: "(if wr then write_candidate fs (target_abs ws target) else fs_eval fs (target_abs ws target)) = Some p"
      and w: "isWithinWorkspace ws p" "wr \<longrightarrow> \<not> isProtectedControlPath p"
    using r by (auto simp: resolvePath_def Let_def split: option.splits if_splits)
  have "real_path p" using c fs write_candidate_real [OF fs] by (auto simp: evaluates_cleanly_def split: if_splits)
  with within_below [OF real_workspace_real [OF fs ws] this w(1)] ws w(2) show ?thesis by blast
qed

lemma resolveMkdirPath_inside:
  assumes fs: "evaluates_cleanly fs" and r: "resolveMkdirPath fs workspace target = Inr p"
  shows "\<exists>ws. real_workspace fs workspace = Some ws \<and> real_path p \<and> below ws p \<and>
    ''..'' \<notin> set (split_on slash p) \<and> \<not> isProtectedControlPath p"
proof -
  obtain ws a ar rel where ws: "real_workspace fs workspace = Some ws"
      and a: "fs_eval fs a = Some ar" and p: "p = path_join [ar, rel]"
      and w: "isWithinWorkspace ws p" "\<not> isProtectedControlPath p"
    using r by (auto simp: resolveMkdirPath_def Let_def split: option.splits if_splits)
  have "is_abs ar" using fs a by (simp add: evaluates_cleanly_def real_path_def)
  then have "real_path p" unfolding p by (rule join_real)
  with within_below [OF real_workspace_real [OF fs ws] this w(1)] ws w(2) show ?thesis by blast
qed


text \<open>A file system without symbolic links, whose every path exists.\<close>

definition flat_fs :: file_system where
  "flat_fs = \<lparr>fs_abs = Some, fs_eval = (\<lambda>p. if is_abs p then Some (path_clean p) else None),
     fs_exists = (\<lambda>_. True), fs_lexists = (\<lambda>_. True)\<rparr>"

lemma flat_fs_clean: "evaluates_cleanly flat_fs"
  by (simp add: evaluates_cleanly_def flat_fs_def clean_real)


section \<open>Parent elements are refused\<close>

lemma split_on_map:
  "f d = d \<Longrightarrow> split_on d (map f s) = concat (map (\<lambda>p. split_on d (map f p)) (split_on d s))"
proof (induction s)
  case (Cons c s)
  obtain p ps where sp: "split_on d s = p # ps" using split_on_nonempty by (cases "split_on d s") auto
  obtain q qs where sq: "split_on d (map f p) = q # qs" using split_on_nonempty by (cases "split_on d (map f p)") auto
  from Cons sp sq show ?case by auto
qed simp

lemma dotdot_slashes: "''..'' \<in> set (split_on slash s) \<Longrightarrow> ''..'' \<in> set (split_on slash (to_slashes s))"
proof -
  assume "''..'' \<in> set (split_on slash s)"
  moreover have "split_on slash (to_slashes ''..'') = [''..'']" by code_simp
  ultimately show ?thesis
    unfolding to_slashes_def by (subst split_on_map) (auto intro!: bexI [of _ "''..''"])
qed

lemma space_no_dot:
  "set a \<subseteq> \<Union> (set ` set space_bytes) \<Longrightarrow> slash \<notin> set a \<and> CHR ''.'' \<notin> set a"
proof -
  have "slash \<notin> \<Union> (set ` set space_bytes)" "CHR ''.'' \<notin> \<Union> (set ` set space_bytes)"
    by (simp_all add: space_bytes_def)
  then show "set a \<subseteq> \<Union> (set ` set space_bytes) \<Longrightarrow> slash \<notin> set a \<and> CHR ''.'' \<notin> set a" by blast
qed

lemma dotdot_prepend:
  assumes "slash \<notin> set a" "CHR ''.'' \<notin> set a" "''..'' \<in> set (split_on slash (a @ m))"
  shows "''..'' \<in> set (split_on slash m)"
proof (cases a)
  case (Cons c a')
  have "''..'' \<noteq> a @ hd (split_on slash m)" using assms(2) Cons by auto
  with assms(3) have "''..'' \<in> set (tl (split_on slash m))"
    unfolding split_on_prepend_nosep [OF assms(1)] by simp
  then show ?thesis by (rule list.set_sel(2) [OF split_on_nonempty])
qed (use assms in simp)

lemma dotdot_append:
  assumes "slash \<notin> set b" "CHR ''.'' \<notin> set b" "''..'' \<in> set (split_on slash (m @ b))"
  shows "''..'' \<in> set (split_on slash m)"
proof (cases b rule: rev_cases)
  case (snoc b' c)
  have "''..'' \<noteq> last (split_on slash m) @ b"
  proof
    assume "''..'' = last (split_on slash m) @ b"
    then have "last ''..'' = last b" using snoc by simp
    with snoc assms(2) show False by simp
  qed
  with assms(3) have "''..'' \<in> set (butlast (split_on slash m))"
    unfolding split_on_append_nosep [OF assms(1)] by simp
  then show ?thesis by (rule in_set_butlastD)
qed (use assms in simp)

lemma dotdot_trim: "''..'' \<in> set (split_on slash s) \<Longrightarrow> ''..'' \<in> set (split_on slash (trim_space s))"
proof -
  obtain a b where s: "s = a @ trim_space s @ b" "set a \<union> set b \<subseteq> \<Union> (set ` set space_bytes)"
    using trim_space_split by blast
  then have n: "slash \<notin> set a" "CHR ''.'' \<notin> set a" "slash \<notin> set b" "CHR ''.'' \<notin> set b"
    using space_no_dot [of a] space_no_dot [of b] by auto
  assume "''..'' \<in> set (split_on slash s)"
  then have "''..'' \<in> set (split_on slash (a @ trim_space s @ b))" using s(1) by metis
  from dotdot_prepend [OF n(1,2) this] have "''..'' \<in> set (split_on slash (trim_space s @ b))" .
  from dotdot_append [OF n(3,4) this] show ?thesis .
qed

lemma trim_slashes: "trim_space (to_slashes s) = to_slashes (trim_space s)"
proof -
  have "unmoved (\<lambda>c. if c = CHR 0x5C then slash else c) space_bytes"
    by (auto simp: unmoved_def space_bytes_def)
  then show ?thesis unfolding to_slashes_def by (rule trim_space_map)
qed

lemma relative_root:
  assumes "\<not> isAbsoluteTarget t" "\<not> isWindowsDriveRelative t" "trim_space t \<noteq> []"
  shows "stripWindowsPathRoot (to_slashes (trim_space t)) = to_slashes (trim_space t)"
proof -
  let ?n = "to_slashes (trim_space t)"
  have trim: "trim_space ?n = ?n" by (simp add: trim_slashes)
  have sh: "\<not> prefix ''//'' ?n" using assms(1,3) by (auto simp: isAbsoluteTarget_def Let_def)
  then have "\<not> prefix ''//?/'' ?n" "\<not> prefix ''//./'' ?n" by (auto simp: prefix_def)
  moreover have "\<not> hasWindowsDrivePrefix ?n"
  proof
    assume d: "hasWindowsDrivePrefix ?n"
    with assms(2) have "length ?n \<noteq> 2" "?n ! 2 = slash" by (auto simp: isWindowsDriveRelative_def Let_def)
    with d assms(1,3) show False
      by (auto simp: isAbsoluteTarget_def hasWindowsDrivePrefix_def Let_def)
  qed
  ultimately show ?thesis using trim sh by (simp add: stripWindowsPathRoot_def Let_def)
qed

text \<open>
  A relative target with a parent element anywhere in it is refused before the file system is
  looked at, for reading, writing and making directories.
\<close>

theorem parent_elements_refused:
  assumes "''..'' \<in> set (split_on slash target)" "\<not> isAbsoluteTarget target"
  shows "\<exists>e. e \<noteq> FileSystemError \<and> (\<forall>fs wr. resolvePath fs workspace target wr = Inl e) \<and>
    (\<forall>fs. resolveMkdirPath fs workspace target = Inl e)"
proof -
  have t: "''..'' \<in> set (split_on slash (trim_space target))" by (rule dotdot_trim [OF assms(1)])
  then have ne: "trim_space target \<noteq> []" by auto
  have "hasTraversal target" if "\<not> isWindowsDriveRelative target"
    using dotdot_slashes [OF t] relative_root [OF assms(2) that ne] ne by (simp add: hasTraversal_def Let_def)
  then have "target_error workspace target \<noteq> None" by (auto simp: target_error_def)
  then obtain e where e: "target_error workspace target = Some e" by blast
  then have "e \<noteq> FileSystemError" by (auto simp: target_error_def split: if_splits)
  with e show ?thesis by (intro exI [of _ e]) (simp add: resolvePath_def resolveMkdirPath_def)
qed

theorem parent_elements_refused_witness:
  "resolvePath flat_fs ''/w'' ''notes/../../etc'' True = Inl (PathDenied ''notes/../../etc'' ''path traversal'') \<and>
   (\<forall>fs. resolvePath fs ''/w'' ''notes/../../etc'' True = resolvePath flat_fs ''/w'' ''notes/../../etc'' True)"
proof -
  have "''..'' \<in> set (split_on slash ''notes/../../etc'')" "\<not> isAbsoluteTarget ''notes/../../etc''" by code_simp+
  from parent_elements_refused [OF this, of "''/w''"]
  have "resolvePath fs ''/w'' ''notes/../../etc'' True = resolvePath flat_fs ''/w'' ''notes/../../etc'' True" for fs by metis
  moreover have "resolvePath flat_fs ''/w'' ''notes/../../etc'' True = Inl (PathDenied ''notes/../../etc'' ''path traversal'')"
    by code_simp
  ultimately show ?thesis by blast
qed

text \<open>The server and share parts of a path that starts with two slashes escape the traversal test.\<close>

lemma share_parent_not_seen: "\<not> hasTraversal ''//../../etc/x''"
  by code_simp

end
