(* ===== verification/File_Tools_Facts.thy ===== *)
theory File_Tools_Facts
  imports File_Tools Policy_Facts
begin

text \<open>
  The file tools change nothing outside the workspace, and a tool that fails before it writes changes
  nothing at all.
\<close>

section \<open>Confinement\<close>

text \<open>The paths the policy lets a tool write.\<close>

definition permitted :: "file_system \<Rightarrow> string \<Rightarrow> string \<Rightarrow> bool" where
  "permitted fs workspace p \<longleftrightarrow>
    (\<exists>ws. real_workspace fs workspace = Some ws \<and> below ws p) \<and> ''..'' \<notin> set (split_on slash p) \<and>
    \<not> isProtectedControlPath p"

text \<open>
  Operations at paths \<open>ok\<close> keep \<open>I\<close>; a directory may also be made that holds such a path.
\<close>

definition kept_by :: "('w \<Rightarrow> bool) \<Rightarrow> (string \<Rightarrow> bool) \<Rightarrow> 'w files \<Rightarrow> bool" where
  "kept_by I ok f \<longleftrightarrow>
    (\<forall>p w. I w \<and> ok p \<longrightarrow>
       (\<forall>c. I (snd (fl_write f p c w)) \<and> I (snd (fl_append f p c w))) \<and> (\<forall>b. I (snd (fl_remove f p b w))) \<and>
       (\<forall>q. ok q \<longrightarrow> I (snd (fl_rename f p q w))) \<and> I (snd (fl_mkdir f p w)) \<and> I (snd (fl_mkdir f (path_dir p) w)))"

lemma resolved_permitted:
  assumes "evaluates_cleanly fs"
  shows "resolvePath fs workspace target True = Inr p \<Longrightarrow> permitted fs workspace p"
    "resolveMkdirPath fs workspace target = Inr p \<Longrightarrow> permitted fs workspace p"
  using resolvePath_inside [OF assms, of workspace target True p] resolveMkdirPath_inside [OF assms, of workspace target p]
  by (auto simp: permitted_def)

definition keeps :: "('w \<Rightarrow> bool) \<Rightarrow> 'a \<times> 'w \<Rightarrow> bool" where
  "keeps I out \<longleftrightarrow> I (snd out)"

lemma keeps_pair [simp]: "keeps I (x, w) \<longleftrightarrow> I w"
  by (simp add: keeps_def)

lemma with_string_keeps: "I w \<Longrightarrow> (\<And>s. keeps I (f s)) \<Longrightarrow> keeps I (with_string r key w f)"
  by (auto simp: with_string_def split: sum.splits)

lemma with_policy_keeps: "I w \<Longrightarrow> (\<And>view. tr_policy r = Some view \<Longrightarrow> keeps I (f (view w))) \<Longrightarrow> keeps I (with_policy r w f)"
  by (auto simp: with_policy_def split: option.splits)

lemma with_path_keeps: "I w \<Longrightarrow> (\<And>p. res = Inr p \<Longrightarrow> keeps I (f p)) \<Longrightarrow> keeps I (with_path res w f)"
  by (auto simp: with_path_def split: sum.splits)

lemma guarded_keeps: "I w \<Longrightarrow> keeps I next \<Longrightarrow> keeps I (guarded r fs p w next)"
  by (auto simp: guarded_def split: option.splits)

lemma after_op_keeps: "keeps I res \<Longrightarrow> (\<And>w. I w \<Longrightarrow> keeps I (f w)) \<Longrightarrow> keeps I (after_op res f)"
  by (auto simp: after_op_def split: prod.splits option.splits)

lemmas steps_keep = with_string_keeps with_policy_keeps with_path_keeps guarded_keeps after_op_keeps

lemma append_op_keeps: "kept_by I ok (tr_files r) \<Longrightarrow> I w \<Longrightarrow> ok p \<Longrightarrow> keeps I (append_op r p c w)"
  by (auto simp: append_op_def kept_by_def keeps_def split: sum.splits os_error.splits)

text \<open>What a request may touch in a world.\<close>

definition request_permits :: "'w fs_request \<Rightarrow> 'w \<Rightarrow> string \<Rightarrow> bool" where
  "request_permits r w p \<longleftrightarrow> (\<exists>view. tr_policy r = Some view \<and> permitted (view w) (tr_workspace r) p)"

definition clean_view :: "'w fs_request \<Rightarrow> 'w \<Rightarrow> bool" where
  "clean_view r w \<longleftrightarrow> (\<forall>view. tr_policy r = Some view \<longrightarrow> evaluates_cleanly (view w))"

lemma write_resolved:
  "clean_view r w \<Longrightarrow> tr_policy r = Some view \<Longrightarrow> resolvePath (view w) (tr_workspace r) target True = Inr p \<Longrightarrow> request_permits r w p"
  using resolved_permitted(1) by (auto simp: request_permits_def clean_view_def)

lemma mkdir_resolved:
  "clean_view r w \<Longrightarrow> tr_policy r = Some view \<Longrightarrow> resolveMkdirPath (view w) (tr_workspace r) target = Inr p \<Longrightarrow> request_permits r w p"
  using resolved_permitted(2) by (auto simp: request_permits_def clean_view_def)

lemma reads_keep: "snd (fsRead r w) = w" "snd (fsList r w) = w"
  by (auto simp: fsRead_def fsList_def with_string_def with_policy_def with_path_def Let_def split: sum.splits option.splits)

lemma kept_ops:
  assumes "kept_by I ok f" "I w" "ok p"
  shows "keeps I (fl_write f p c w)" "keeps I (fl_append f p c w)" "keeps I (fl_remove f p b w)"
    "ok q \<Longrightarrow> keeps I (fl_rename f p q w)" "keeps I (fl_mkdir f p w)" "keeps I (fl_mkdir f (path_dir p) w)"
  using assms by (auto simp: kept_by_def keeps_def)

lemma write_keeps:
  assumes k: "kept_by I (request_permits r w) (tr_files r)" and v: "clean_view r w" and i: "I w"
  shows "keeps I (fsWrite r w)"
proof -
  have fin: "keeps I (guarded r fs p w' (after_op (fl_write (tr_files r) p c w') (\<lambda>w. (Inr (write_info path c), w))))"
    if "request_permits r w p" "I w'" for fs p w' c path
    using that k by (intro steps_keep) (auto intro: kept_ops)
  have mk: "keeps I (with_path (resolveMkdirPath (view w) (tr_workspace r) path) w
      (\<lambda>p. after_op (fl_mkdir (tr_files r) (path_dir p) w)
        (\<lambda>w'. guarded r (view w) p w' (after_op (fl_write (tr_files r) p c w') (\<lambda>w. (Inr (write_info path c), w))))))"
    if view: "tr_policy r = Some view" for view path c
  proof (rule with_path_keeps)
    show "I w" by (rule i)
    fix p
    assume "resolveMkdirPath (view w) (tr_workspace r) path = Inr p"
    then have p: "request_permits r w p" by (rule mkdir_resolved [OF v view])
    show "keeps I (after_op (fl_mkdir (tr_files r) (path_dir p) w)
        (\<lambda>w'. guarded r (view w) p w' (after_op (fl_write (tr_files r) p c w') (\<lambda>w. (Inr (write_info path c), w)))))"
      by (rule after_op_keeps [OF kept_ops(6) [OF k i p]]) (rule fin [OF p])
  qed
  show ?thesis unfolding fsWrite_def
  proof (intro with_string_keeps with_policy_keeps i)
    fix path c view
    assume view: "tr_policy r = Some view"
    show "keeps I (let finish = \<lambda>p w'. guarded r (view w) p w' (after_op (fl_write (tr_files r) p c w') (\<lambda>w. (Inr (write_info path c), w)))
        in case resolvePath (view w) (tr_workspace r) path True of
             Inl e \<Rightarrow> if isParentMissingError e
               then with_path (resolveMkdirPath (view w) (tr_workspace r) path) w (\<lambda>p. after_op (fl_mkdir (tr_files r) (path_dir p) w) (finish p))
               else (Inl (path_error_text e), w)
           | Inr p \<Rightarrow> finish p w)"
      using mk [OF view, of path c] fin [OF write_resolved [OF v view] i, of path]
      by (auto simp: Let_def i split: sum.splits)
  qed
qed

lemma mkdir_keeps:
  assumes "kept_by I (request_permits r w) (tr_files r)" "clean_view r w" "I w"
  shows "keeps I (fsMkdir r w)"
  unfolding fsMkdir_def by (intro steps_keep assms(3) kept_ops [OF assms(1,3)] mkdir_resolved [OF assms(2)]) auto

lemma append_keeps:
  assumes "kept_by I (request_permits r w) (tr_files r)" "clean_view r w" "I w"
  shows "keeps I (fsAppend r w)"
  unfolding fsAppend_def by (intro steps_keep assms(3) append_op_keeps [OF assms(1,3)] write_resolved [OF assms(2)]) auto

lemma delete_keeps:
  assumes "kept_by I (request_permits r w) (tr_files r)" "clean_view r w" "I w"
  shows "keeps I (fsDelete r w)"
  unfolding fsDelete_def
proof (intro with_string_keeps with_policy_keeps with_path_keeps guarded_keeps assms(3))
  fix path view p
  assume "tr_policy r = Some view" "resolvePath (view w) (tr_workspace r) path True = Inr p"
  then have p: "request_permits r w p" by (rule write_resolved [OF assms(2)])
  have "I w'" if "fl_remove (tr_files r) p b w = (e, w')" for b e w'
    using kept_ops(3) [OF assms(1,3) p, of b] that by simp
  then show "keeps I (let recursive = getBoolArg (tr_args r) ''recursive'' False; force = getBoolArg (tr_args r) ''force'' False
      in case fl_lstat (tr_files r) p w of
           Inl (NotExist t) \<Rightarrow> if force then (Inr (skipped_delete path), w) else (Inl t, w)
         | Inl (OsFailure t) \<Rightarrow> (Inl t, w)
         | Inr isDir \<Rightarrow>
           if isDir \<and> \<not> recursive then (Inl ''path is a directory; set recursive=true to delete directories'', w)
           else case fl_remove (tr_files r) p (if tr_sandbox r then recursive else isDir) w of
               (None, w') \<Rightarrow> (Inr (info [(''path'', JStr path), (''deleted'', JBool True),
                  (''type'', JStr (if isDir then ''dir'' else ''file'')), (''recursive'', JBool recursive),
                  (''summary'', JStr (''deleted '' @ path))]), w')
             | (Some (NotExist t), w') \<Rightarrow> if force \<and> \<not> tr_sandbox r then (Inr (skipped_delete path), w') else (Inl t, w')
             | (Some (OsFailure t), w') \<Rightarrow> (Inl t, w'))"
    using assms(3) by (auto simp: Let_def split: sum.splits os_error.splits prod.splits option.splits)
qed

lemma move_keeps:
  assumes "kept_by I (request_permits r w) (tr_files r)" "clean_view r w" "I w"
  shows "keeps I (fsMove r w)"
  unfolding fsMove_def
proof (intro with_string_keeps with_policy_keeps with_path_keeps guarded_keeps assms(3))
  fix src dst view s d
  assume v: "tr_policy r = Some view" and sd: "resolvePath (view w) (tr_workspace r) src True = Inr s"
    "resolvePath (view w) (tr_workspace r) dst True = Inr d"
  have s: "request_permits r w s" and d: "request_permits r w d" using write_resolved [OF assms(2) v] sd by blast+
  let ?o = "getBoolArg (tr_args r) ''overwrite'' False"
  have ren: "keeps I (after_op (fl_rename (tr_files r) s d w') (\<lambda>w. (Inr (x :: (string, json) gmap), w)))" if "I w'" for w' x
    using kept_ops(4) [OF assms(1) that s d] by (rule after_op_keeps) simp
  have rem: "keeps I (after_op (fl_remove (tr_files r) d b w) (\<lambda>w'. after_op (fl_rename (tr_files r) s d w') (\<lambda>w. (Inr x, w))))" for b and x :: "(string, json) gmap"
    using kept_ops(3) [OF assms(1,3) d] by (rule after_op_keeps) (rule ren)
  show "keeps I (let overwrite = ?o in
       case fl_lstat (tr_files r) s w of
         Inl e \<Rightarrow> (Inl (os_text e), w)
       | Inr isDir \<Rightarrow>
         if s = d then (Inr (move_info src dst overwrite []), w)
         else let rename = \<lambda>w. after_op (fl_rename (tr_files r) s d w) (\<lambda>w.
                 (Inr (move_info src dst overwrite [(''type'', JStr (if isDir then ''dir'' else ''file''))]), w))
           in case fl_lstat (tr_files r) d w of
                Inl (NotExist t) \<Rightarrow> rename w
              | Inl (OsFailure t) \<Rightarrow> (Inl t, w)
              | Inr dstDir \<Rightarrow>
                  if \<not> overwrite then (Inl (''destination already exists: '' @ dst), w)
                  else after_op (fl_remove (tr_files r) d dstDir w) rename)"
    using ren [OF assms(3)] rem assms(3) by (simp add: Let_def split: sum.splits os_error.splits)
qed

lemma edit_keeps:
  assumes "kept_by I (request_permits r w) (tr_files r)" "clean_view r w" "I w"
  shows "keeps I (fsEdit r w)"
  unfolding fsEdit_def
proof (intro with_string_keeps with_policy_keeps with_path_keeps guarded_keeps assms(3))
  fix path view p
  assume "tr_policy r = Some view" "resolvePath (view w) (tr_workspace r) path True = Inr p"
  then have "request_permits r w p" by (rule write_resolved [OF assms(2)])
  from kept_ops(1) [OF assms(1,3) this]
  have "keeps I (after_op (fl_write (tr_files r) p c w) (\<lambda>w. (Inr (x :: (string, json) gmap), w)))" for c x
    by (rule after_op_keeps) simp
  then show "keeps I (case fl_read (tr_files r) p w of
         Inl e \<Rightarrow> (Inl (os_text e), w)
       | Inr b \<Rightarrow>
         (case edit_content b (tr_args r) of
            Inl e \<Rightarrow> (Inl e, w)
          | Inr (updated, res) \<Rightarrow>
            after_op (fl_write (tr_files r) p updated w) (\<lambda>w. (Inr (mput ''path'' (JStr path) res), w))))"
    using assms(3) by (auto split: sum.splits)
qed

text \<open>
  The file tools change nothing outside the workspace. Take any property of the world that is kept
  by writing, appending, removing, renaming and making directories at paths that lie in the real
  workspace, have no parent element and are no protected control files (and by making the directory
  that holds such a path): every file tool keeps it, whatever its arguments and
  whatever errors occur.
\<close>

lemma file_tools_keep:
  assumes "tool \<in> {fsRead, fsList, fsWrite, fsAppend, fsDelete, fsMove, fsEdit, fsMkdir}"
    and "kept_by I (request_permits r w) (tr_files r)" "clean_view r w" "I w"
  shows "I (snd (tool r w))"
  using assms(1) write_keeps [OF assms(2-4)] append_keeps [OF assms(2-4)] delete_keeps [OF assms(2-4)] move_keeps [OF assms(2-4)]
    edit_keeps [OF assms(2-4)] mkdir_keeps [OF assms(2-4)] assms(4) by (auto simp: reads_keep keeps_def)

text \<open>A world that is the list of the paths that were written, removed or renamed.\<close>

definition logged :: "string list files" where
  "logged = \<lparr>fl_read = (\<lambda>p w. Inr ''abc''), fl_list = (\<lambda>p w. Inr []), fl_lstat = (\<lambda>p w. Inr False),
     fl_write = (\<lambda>p c w. (None, p # w)), fl_append = (\<lambda>p c w. (None, p # w)), fl_mkdir = (\<lambda>p w. (None, w)),
     fl_remove = (\<lambda>p b w. (None, p # w)), fl_rename = (\<lambda>p q w. (None, p # q # w))\<rparr>"

definition sample_request :: "(string \<times> json) list \<Rightarrow> string list fs_request" where
  "sample_request args = \<lparr>tr_agentID = ''a'', tr_workspace = ''/w'', tr_args = info args, tr_policy = Some (\<lambda>_. flat_fs),
     tr_sandbox = False, tr_files = logged\<rparr>"

section \<open>Surprises\<close>

text \<open>
  The guard of the control files compares the resolved path with the workspace as it was given: when
  the workspace is reached through a symbolic link, it never applies.
\<close>

lemma guard_bypassed:
  "let fs = \<lparr>fs_abs = Some, fs_eval = (\<lambda>p. if p = ''/tmp/ws'' then Some ''/real/ws'' else Some p),
       fs_exists = (\<lambda>_. True), fs_lexists = (\<lambda>_. True)\<rparr>
   in resolvePath fs ''/tmp/ws'' ''SOUL.md'' True = Inr ''/real/ws/SOUL.md'' \<and>
      guardWorkspaceControlPlaneFilename fs ''/tmp/ws'' ''/real/ws/SOUL.md'' ''a'' = None \<and>
      guardWorkspaceControlPlaneFilename fs ''/real/ws'' ''/real/ws/SOUL.md'' ''a'' \<noteq> None"
  by code_simp

text \<open>
  A name that is a symbolic link to a file that does not exist is resolved to itself, and writing to
  it makes the file the link names, which may be anywhere.
\<close>

lemma dangling_link_resolved:
  "let fs = \<lparr>fs_abs = Some, fs_eval = (\<lambda>p. if p = ''/w/out'' then None else Some p),
       fs_exists = (\<lambda>p. p \<noteq> ''/w/out''), fs_lexists = (\<lambda>_. True)\<rparr>
   in resolvePath fs ''/w'' ''out'' True = Inr ''/w/out''"
  by code_simp

text \<open>A file that is exactly as long as the limit is reported as truncated.\<close>

lemma whole_file_truncated:
  "fst (fsRead (sample_request [(''path'', JStr ''f''), (''max_bytes'', JNum ''3'')]) []) =
    Inr (info [(''path'', JStr ''f''), (''content'', JStr ''abc''), (''truncated'', JBool True)])"
  by code_simp

end
