(* ===== verification/Shell_Tool_Facts.thy ===== *)
theory Shell_Tool_Facts
  imports Shell_Tool
begin

text \<open>
  The allow list of the shell is exactly glob matching, although it is done by a regular expression
  made from the pattern; nothing that does not match reaches the shell.
\<close>

section \<open>Globs\<close>

text \<open>A star stands for any text and a question mark for any byte.\<close>

fun glob :: "string \<Rightarrow> string \<Rightarrow> bool" where
  "glob [] s = (s = [])"
| "glob (c # p) s =
     (if c = CHR ''*'' then list_ex (\<lambda>n. glob p (drop n s)) [0..<Suc (length s)]
      else (case s of [] \<Rightarrow> False | d # s' \<Rightarrow> (c = CHR ''?'' \<or> c = d) \<and> glob p s'))"

text \<open>A pattern that ends in a space and a star also matches without them.\<close>

definition command_glob :: "string \<Rightarrow> string \<Rightarrow> bool" where
  "command_glob p s = (glob p s \<or> (suffix '' *'' p \<and> glob (take (length p - 2) p) s))"

section \<open>Where a match can end\<close>

text \<open>The texts that can be left after a match of \<open>r\<close> at the start of a text.\<close>

definition leaves :: "regex \<Rightarrow> (string \<Rightarrow> string set) \<Rightarrow> bool" where
  "leaves r S \<longleftrightarrow> (\<forall>st. rs_rest ` set (rx r st) = S (rs_rest st))"

lemma leaves_eps: "leaves REps (\<lambda>s. {s})"
  by (simp add: leaves_def)

lemma leaves_end: "leaves REnd (\<lambda>s. if s = [] then {[]} else {})"
  by (auto simp: leaves_def when_at_def)

lemma leaves_seq: "leaves a A \<Longrightarrow> leaves b B \<Longrightarrow> leaves (RSeq a b) (\<lambda>s. \<Union>t \<in> A s. B t)"
  unfolding leaves_def
proof
  fix st
  assume A: "\<forall>st. rs_rest ` set (rx a st) = A (rs_rest st)" and B: "\<forall>st. rs_rest ` set (rx b st) = B (rs_rest st)"
  have "rs_rest ` set (rx (RSeq a b) st) = (\<Union>u \<in> set (rx a st). rs_rest ` set (rx b u))" by (auto simp: image_UN)
  also have "\<dots> = (\<Union>u \<in> set (rx a st). B (rs_rest u))" using B by simp
  also have "\<dots> = (\<Union>t \<in> rs_rest ` set (rx a st). B t)" by simp
  finally show "rs_rest ` set (rx (RSeq a b) st) = (\<Union>t \<in> A (rs_rest st). B t)" using A by simp
qed

lemma leaves_alt: "leaves a A \<Longrightarrow> leaves b B \<Longrightarrow> leaves (RAlt a b) (\<lambda>s. A s \<union> B s)"
  by (auto simp: leaves_def image_Un)

lemma leaves_cap: "leaves a A \<Longrightarrow> leaves (RCap n a) A"
  by (simp add: leaves_def image_image)

lemma leaves_set: "leaves (RSet neg rs) (\<lambda>s. case s of [] \<Rightarrow> {} | c # s' \<Rightarrow> if in_set neg rs c then {s'} else {})"
  by (auto simp: leaves_def split: list.splits)

definition any_byte :: regex where
  "any_byte = RSet True []"

lemma any_in: "in_set True [] c"
  by (simp add: in_set_def)

definition tails :: "string \<Rightarrow> string set" where
  "tails s = (\<lambda>n. drop n s) ` {..length s}"

lemma tails_simps [simp]: "tails [] = {[]}" "tails (c # s) = insert (c # s) (tails s)"
proof -
  show "tails [] = {[]}" by (simp add: tails_def)
  have "{..length (c # s)} = insert 0 (Suc ` {..length s})" by (simp add: atMost_Suc_eq_insert_0)
  then show "tails (c # s) = insert (c # s) (tails s)" by (simp add: tails_def image_image)
qed

lemma leaves_star: "leaves (RStar True any_byte) tails"
  unfolding leaves_def
proof
  fix st
  show "rs_rest ` set (rx (RStar True any_byte) st) = tails (rs_rest st)"
  proof (induction "rs_rest st" arbitrary: st)
    case Nil
    then have "rx any_byte st = []" by (simp add: any_byte_def)
    then show ?case using Nil by (simp add: star_of.simps [of True "rx any_byte" st])
  next
    case (Cons c s)
    let ?u = "st\<lparr>rs_prev := Some c, rs_rest := s\<rparr>"
    have one: "rx any_byte st = [?u]" using Cons(2) [symmetric] by (simp add: any_byte_def any_in)
    have "rs_rest ` set (star_of True (rx any_byte) ?u) = tails s" using Cons(1) [of ?u] by simp
    then show ?case using Cons(2) [symmetric] by (auto simp: star_of.simps [of True "rx any_byte" st] one)
  qed
qed

section \<open>The expression of a pattern\<close>

definition byte_regex :: "char \<Rightarrow> regex" where
  "byte_regex c =
    (if c = CHR ''*'' then RStar True any_byte else if c = CHR ''?'' then any_byte
     else RSet False [(of_char c, of_char c)])"

definition glob_regex :: "string \<Rightarrow> regex \<Rightarrow> regex" where
  "glob_regex p r = foldr (\<lambda>c r. RSeq (byte_regex c) r) p r"

text \<open>What globbing leaves.\<close>

fun glob_leaves :: "string \<Rightarrow> (string \<Rightarrow> string set) \<Rightarrow> string \<Rightarrow> string set" where
  "glob_leaves [] S s = S s"
| "glob_leaves (c # p) S s =
     (if c = CHR ''*'' then (\<Union>t \<in> tails s. glob_leaves p S t)
      else (case s of [] \<Rightarrow> {} | d # s' \<Rightarrow> if c = CHR ''?'' \<or> c = d then glob_leaves p S s' else {}))"

lemma leaves_cong: "leaves r S \<Longrightarrow> (\<And>s. S s = T s) \<Longrightarrow> leaves r T"
  by (simp add: leaves_def)

lemma leaves_glob: "leaves r S \<Longrightarrow> leaves (glob_regex p r) (glob_leaves p S)"
proof (induction p)
  case Nil
  then show ?case by (auto simp: glob_regex_def elim: leaves_cong)
next
  case (Cons c p)
  then have ih: "leaves (glob_regex p r) (glob_leaves p S)" by simp
  have reg: "glob_regex (c # p) r = RSeq (byte_regex c) (glob_regex p r)" by (simp add: glob_regex_def)
  consider "c = CHR ''*''" | "c = CHR ''?''" | "c \<noteq> CHR ''*'' \<and> c \<noteq> CHR ''?''" by blast
  then show ?case
  proof cases
    case 1
    show ?thesis unfolding reg
      by (rule leaves_cong [OF leaves_seq [OF _ ih, of _ tails]]) (use 1 leaves_star in \<open>auto simp: byte_regex_def\<close>)
  next
    case 2
    then have r: "byte_regex c = RSet True []" by (simp add: byte_regex_def any_byte_def)
    show ?thesis unfolding reg r
      by (rule leaves_cong [OF leaves_seq [OF leaves_set ih]]) (use 2 any_in in \<open>auto split: list.splits\<close>)
  next
    case 3
    have "byte_regex c = RSet False [(of_char c, of_char c)]" using 3 by (simp add: byte_regex_def)
    moreover have "in_set False [(of_char c, of_char c)] d \<longleftrightarrow> c = d" for d
      by (auto simp: in_set_def)
    ultimately show ?thesis unfolding reg
      by (simp only:) (rule leaves_cong [OF leaves_seq [OF leaves_set ih]], use 3 in \<open>auto split: list.splits\<close>)
  qed
qed

lemma glob_star: "glob (CHR ''*'' # p) s \<longleftrightarrow> (\<exists>t \<in> tails s. glob p t)"
  by (auto simp: list_ex_iff tails_def less_Suc_eq_le simp del: upt_Suc)

lemma glob_leaves_glob:
  "glob_leaves p (\<lambda>s. if glob q s then {[]} else {}) s = (if glob (p @ q) s then {[]} else {})"
proof (induction p arbitrary: s)
  case (Cons c p)
  show ?case
  proof (cases "c = CHR ''*''")
    case True
    then show ?thesis using Cons by (auto simp: glob_star simp del: glob.simps(2))
  qed (use Cons in \<open>auto split: list.splits\<close>)
qed simp

lemma glob_leaves_Un: "glob_leaves p (\<lambda>s. A s \<union> B s) s = glob_leaves p A s \<union> glob_leaves p B s"
  by (induction p arbitrary: s) (auto split: list.splits)

lemma glob_args: "glob '' *'' s \<longleftrightarrow> s \<noteq> [] \<and> hd s = CHR '' ''"
proof -
  have "[] \<in> tails t" for t by (induction t) auto
  then show ?thesis by (cases s) (auto simp: glob_star simp del: glob.simps(2) simp: glob.simps(2) [of "CHR '' ''"])
qed

text \<open>The last part of the expression: the end, or something after a space and then the end.\<close>

definition end_regex :: regex where
  "end_regex = RSeq REnd REps"

definition args_regex :: regex where
  "args_regex = RSeq (RAlt (RCap 1 (RSeq (RSet False [(32, 32)]) (RSeq (RStar True any_byte) REps))) REps) end_regex"

lemma leaves_at_end: "leaves end_regex (\<lambda>s. if glob [] s then {[]} else {})"
  unfolding end_regex_def by (rule leaves_cong [OF leaves_seq [OF leaves_end leaves_eps]]) auto

lemma char_32: "in_set False [(32, 32)] c \<longleftrightarrow> c = CHR '' ''"
proof
  assume "in_set False [(32, 32)] c"
  then have "(of_char c :: nat) = of_char (CHR '' '')" by (simp add: in_set_def)
  then show "c = CHR '' ''" by (metis char_of_char)
qed (simp add: in_set_def)

lemma leaves_args: "leaves args_regex (\<lambda>s. (if glob [] s then {[]} else {}) \<union> (if glob '' *'' s then {[]} else {}))"
proof -
  have e: "[] \<in> tails s" for s by (induction s) auto
  note parts = leaves_alt [OF leaves_cap [OF leaves_seq [OF leaves_set leaves_seq [OF leaves_star leaves_eps]]] leaves_eps]
  show ?thesis unfolding args_regex_def
    by (rule leaves_cong [OF leaves_seq [OF parts leaves_at_end]])
      (use e in \<open>auto simp: char_32 glob_args simp del: glob.simps(2) split: list.splits\<close>)
qed

text \<open>A match of the whole text.\<close>

lemma rx_find_anchored: "rx_find (RSeq RBegin r) (Some c) s = None"
proof (induction s arbitrary: c)
  case Nil
  then show ?case by (simp add: rx_at_def when_at_def)
next
  case (Cons d s)
  then show ?case by (simp add: rx_at_def when_at_def)
qed

lemma anchored_test:
  assumes "leaves r S"
  shows "rx_test (RSeq RBegin r) s \<longleftrightarrow> S s \<noteq> {}"
proof -
  let ?st = "\<lparr>rs_prev = None, rs_rest = s, rs_caps = []\<rparr>"
  have "rx_test (RSeq RBegin r) s \<longleftrightarrow> rx_at (RSeq RBegin r) None s \<noteq> None"
    by (cases s) (simp_all add: rx_test_def rx_find_anchored split: option.splits)
  also have "\<dots> \<longleftrightarrow> rx r ?st \<noteq> []" by (simp add: rx_at_None when_at_def)
  also have "\<dots> \<longleftrightarrow> rs_rest ` set (rx r ?st) \<noteq> {}" by simp
  also have "rs_rest ` set (rx r ?st) = S s" using spec [OF assms [unfolded leaves_def], of ?st] by simp
  finally show ?thesis .
qed

lemma glob_regex_test: "rx_test (RSeq RBegin (glob_regex p end_regex)) s \<longleftrightarrow> glob p s"
  using anchored_test [OF leaves_glob [OF leaves_at_end], of p s] by (simp only: glob_leaves_glob) simp

lemma args_regex_test: "rx_test (RSeq RBegin (glob_regex p args_regex)) s \<longleftrightarrow> command_glob (p @ '' *'') s"
  using anchored_test [OF leaves_glob [OF leaves_args], of p s]
  by (simp only: glob_leaves_Un glob_leaves_glob) (auto simp: command_glob_def suffix_def)

section \<open>What the pattern is compiled to\<close>

definition byte_text :: "char \<Rightarrow> string" where
  "byte_text c = (if c = CHR ''*'' then ''.*'' else if c = CHR ''?'' then ''.'' else quote_unit c)"

text \<open>Replacing an escaped byte by a text that has no escape.\<close>

lemma replace_units:
  assumes "\<And>u. u \<in> set us \<Longrightarrow> (\<exists>d. u = [e, d]) \<or> (e \<notin> set u \<and> u \<noteq> [] \<and> hd u \<noteq> x)" "x \<noteq> e"
  shows "replace_all [e, x] new (concat us) = concat (map (\<lambda>u. if u = [e, x] then new else u) us)"
  using assms(1)
proof (induction us)
  case (Cons u us)
  have start: "\<not> prefix [x] (concat us)"
  proof (cases us)
    case (Cons v vs)
    then show ?thesis using Cons.prems [of v] assms(2) by (cases v) auto
  qed simp
  have ih: "replace_all [e, x] new (concat us) = concat (map (\<lambda>u. if u = [e, x] then new else u) us)"
    using Cons by simp
  have plain: "replace_all [e, x] new (w @ t) = w @ replace_all [e, x] new t" if "e \<notin> set w" for w t
    using that by (induction w) (simp_all add: replace_all.simps(2))
  from Cons.prems [of u] consider d where "u = [e, d]" | "e \<notin> set u" "u \<noteq> []" by auto
  then show ?case
  proof cases
    case 1
    have "\<not> prefix [x] t \<Longrightarrow> replace_all [e, x] new (d # t) = d # replace_all [e, x] new t" for t
      by (simp add: replace_all.simps(2))
    from this [OF start] have "replace_all [e, x] new (d # concat us) = d # replace_all [e, x] new (concat us)" .
    then show ?thesis using 1 ih by (auto simp: replace_all.simps(2) [of "[e, x]" new e])
  next
    case 2
    then show ?thesis using ih plain by auto
  qed
qed simp

lemma quote_units:
  "regex_special x \<Longrightarrow>
   (\<exists>d. quote_unit c = [escape_char, d]) \<or> (escape_char \<notin> set (quote_unit c) \<and> quote_unit c \<noteq> [] \<and> hd (quote_unit c) \<noteq> x)"
  by (auto simp: quote_unit_def)

lemma star_special: "regex_special (CHR ''*'')" "regex_special (CHR ''?'')" "CHR ''*'' \<noteq> escape_char" "CHR ''?'' \<noteq> escape_char"
  "escape_char \<notin> set ''.*''"
  by (simp_all add: regex_special_def escape_char_def)

lemma quote_unit_eq: "regex_special x \<Longrightarrow> quote_unit c = [escape_char, x] \<longleftrightarrow> c = x"
  by (auto simp: quote_unit_def)

lemma escaped_text:
  "replace_all [escape_char, CHR ''?''] ''.'' (replace_all [escape_char, CHR ''*''] ''.*'' (quoteMeta p)) = concat (map byte_text p)"
proof -
  let ?star = "\<lambda>u. if u = [escape_char, CHR ''*''] then ''.*'' else u"
  let ?mark = "\<lambda>u. if u = [escape_char, CHR ''?''] then ''.'' else u"
  have "(\<exists>d. u = [escape_char, d]) \<or> (escape_char \<notin> set u \<and> u \<noteq> [] \<and> hd u \<noteq> CHR ''*'')" if "u \<in> set (map quote_unit p)" for u
    using that quote_units [OF star_special(1)] by (metis (no_types, lifting) imageE list.set_map)
  then have one: "replace_all [escape_char, CHR ''*''] ''.*'' (quoteMeta p) = concat (map ?star (map quote_unit p))"
    unfolding quoteMeta_def by (rule replace_units) (use star_special in auto)
  have "(\<exists>d. u = [escape_char, d]) \<or> (escape_char \<notin> set u \<and> u \<noteq> [] \<and> hd u \<noteq> CHR ''?'')"
    if "u \<in> set (map ?star (map quote_unit p))" for u
  proof -
    from that obtain c where u: "u = ?star (quote_unit c)" unfolding set_map image_image by (elim imageE)
    show ?thesis
    proof (cases "quote_unit c = [escape_char, CHR ''*'']")
      case True
      then show ?thesis using u star_special(5) by simp
    next
      case False
      then show ?thesis using u quote_units [OF star_special(2), of c] by simp
    qed
  qed
  then have two: "replace_all [escape_char, CHR ''?''] ''.'' (concat (map ?star (map quote_unit p))) =
      concat (map ?mark (map ?star (map quote_unit p)))"
    by (rule replace_units) (use star_special in auto)
  have "?mark (?star (quote_unit c)) = byte_text c" for c
    using star_special by (auto simp: byte_text_def quote_unit_eq)
  then show ?thesis unfolding one two by (simp add: o_def)
qed

lemma byte_text_ends: "byte_text c \<noteq> []" "last (byte_text c) = CHR ''*'' \<longleftrightarrow> c = CHR ''*''"
  "last (byte_text c) = CHR '' '' \<longleftrightarrow> c = CHR '' ''" "byte_text (CHR ''*'') = ''.*''" "byte_text (CHR '' '') = '' ''"
  using star_special by (auto simp: byte_text_def quote_unit_def escape_char_def regex_special_def)

lemma suffix_args: "suffix '' .*'' (concat (map byte_text p)) \<longleftrightarrow> suffix '' *'' p"
proof
  assume "suffix '' *'' p"
  then show "suffix '' .*'' (concat (map byte_text p))" by (auto simp: suffix_def byte_text_ends(4,5))
next
  assume "suffix '' .*'' (concat (map byte_text p))"
  then obtain t where t: "concat (map byte_text p) = t @ '' .*''" by (auto simp: suffix_def)
  then have "p \<noteq> []" by auto
  then obtain q c where q: "p = q @ [c]" by (cases p rule: rev_cases) auto
  have "last (byte_text c) = CHR ''*''" using arg_cong [OF t, of last] q byte_text_ends(1) [of c] by simp
  then have c: "c = CHR ''*''" by (simp add: byte_text_ends(2))
  with t q have t': "concat (map byte_text q) = t @ '' ''" by (simp add: byte_text_ends(4))
  then have "q \<noteq> []" by auto
  then obtain q' d where q': "q = q' @ [d]" by (cases q rule: rev_cases) auto
  have "last (byte_text d) = CHR '' ''" using arg_cong [OF t', of last] q' byte_text_ends(1) [of d] by simp
  then show "suffix '' *'' p" using q q' c by (simp add: byte_text_ends(3) suffix_def)
qed

text \<open>A text before which a quantifier cannot stand.\<close>

definition no_quantifier :: "string \<Rightarrow> bool" where
  "no_quantifier t \<longleftrightarrow> t = [] \<or> hd t \<notin> set ''*+?{''"

definition glob_flags :: rx_flags where
  "glob_flags = \<lparr>fl_ci = False, fl_dotall = True, fl_multi = False\<rparr>"

lemma p_quant_none: "no_quantifier t \<Longrightarrow> p_quant a t = (a, t)"
  by (cases t) (auto simp: p_quant_def no_quantifier_def)

lemma byte_text_safe: "no_quantifier (byte_text c @ t)" "\<not> prefix '')'' (byte_text c @ t)" "\<not> prefix ''|'' (byte_text c @ t)"
  by (auto simp: no_quantifier_def byte_text_def quote_unit_def escape_char_def regex_special_def)

lemma quoted_atom:
  assumes "regex_special c \<or> c = escape_char"
  shows "p_atom (Suc k) glob_flags n (escape_char # c # t) = Some (RSet False [(of_char c, of_char c)], n, t)"
proof -
  have "c \<notin> set ''bSsdwntr''" using assms by (auto simp: regex_special_def escape_char_def)
  then have "class_of c = None" "escaped c = of_char c" "c \<noteq> CHR ''b''" "c \<noteq> CHR ''S''"
    by (auto simp: class_of_def escaped_def)
  then show ?thesis by (simp add: escape_char_def glob_flags_def char_ranges_def)
qed

lemma plain_atom:
  assumes "\<not> regex_special c" "c \<noteq> escape_char"
  shows "p_atom (Suc k) glob_flags n (c # t) = Some (RSet False [(of_char c, of_char c)], n, t)"
  using assms by (simp add: regex_special_def glob_flags_def char_ranges_def)

lemma byte_atom:
  assumes "no_quantifier t"
  shows "\<exists>a s. p_atom (Suc k) glob_flags n (byte_text c @ t) = Some (a, n, s) \<and> p_quant a s = (byte_regex c, t)"
proof -
  have dot: "p_atom (Suc k) glob_flags n (CHR ''.'' # s) = Some (any_byte, n, s)" for s
    by (simp add: glob_flags_def any_byte_def)
  consider "c = CHR ''*''" | "c = CHR ''?''" | "c \<notin> set ''*?''" "regex_special c \<or> c = escape_char"
    | "c \<notin> set ''*?''" "\<not> regex_special c" "c \<noteq> escape_char" by auto
  then show ?thesis
  proof cases
    case 1
    have "lazy_mark t = (True, t)" using assms by (cases t) (auto simp: lazy_mark_def no_quantifier_def)
    then have "p_quant any_byte (CHR ''*'' # t) = (RStar True any_byte, t)" by (simp add: p_quant_def)
    then show ?thesis using dot [of "CHR ''*'' # t"] 1 by (simp add: byte_text_def byte_regex_def)
  next
    case 2
    then show ?thesis using dot [of t] p_quant_none [OF assms] by (simp add: byte_text_def byte_regex_def)
  next
    case 3
    then have "byte_text c = [escape_char, c]" "byte_regex c = RSet False [(of_char c, of_char c)]"
      by (auto simp: byte_text_def quote_unit_def byte_regex_def)
    then show ?thesis using quoted_atom [OF 3(2), of k n t] p_quant_none [OF assms] by simp
  next
    case 4
    then have "byte_text c = [c]" "byte_regex c = RSet False [(of_char c, of_char c)]"
      by (auto simp: byte_text_def quote_unit_def byte_regex_def)
    then show ?thesis using plain_atom [OF 4(2,3), of k n t] p_quant_none [OF assms] by simp
  qed
qed

lemma p_seq_glob:
  assumes "no_quantifier t" "p_seq (Suc k) glob_flags n t = Some (r, n', s)"
  shows "p_seq (Suc (length p + k)) glob_flags n (concat (map byte_text p) @ t) = Some (glob_regex p r, n', s)"
proof (induction p)
  case Nil
  then show ?case using assms(2) by (simp add: glob_regex_def)
next
  case (Cons c p)
  let ?t = "concat (map byte_text p) @ t"
  have "no_quantifier ?t"
    using assms(1) byte_text_safe(1) by (cases p) (simp_all add: append_assoc)
  then obtain a s' where a: "p_atom (Suc (length p + k)) glob_flags n (byte_text c @ ?t) = Some (a, n, s')"
      "p_quant a s' = (byte_regex c, ?t)"
    using byte_atom by blast
  have "p_seq (Suc (Suc (length p + k))) glob_flags n (byte_text c @ ?t) = Some (RSeq (byte_regex c) (glob_regex p r), n', s)"
    unfolding p_seq.simps(2) [of "Suc (length p + k)"]
    using byte_text_safe(2,3) [of c ?t] byte_text_ends(1) [of c] a Cons by simp
  then show ?case by (simp add: glob_regex_def)
qed

lemma p_seq_end: "p_seq (Suc (Suc (Suc k))) glob_flags n [CHR 0x24] = Some (end_regex, n, [])"
  by (simp add: end_regex_def glob_flags_def escape_char_def p_quant_def)

lemma p_seq_args:
  "p_seq (Suc (Suc (Suc (Suc (Suc (Suc (Suc (Suc k)))))))) glob_flags 1 (''( .*)?'' @ [CHR 0x24]) = Some (args_regex, 2, [])"
  by (simp add: args_regex_def end_regex_def glob_flags_def escape_char_def p_quant_def lazy_mark_def r_opt_def any_byte_def char_ranges_def)

lemma compile_anchored:
  assumes "no_quantifier x" "p_seq (3 * length x + 4) glob_flags 1 x = Some (r, n, [])"
  shows "compile (''(?s)'' @ [CHR 0x5E] @ x) = Some (RSeq RBegin r)"
proof -
  obtain j where j: "3 * length x + 4 = Suc j" by (cases "3 * length x + 4") simp_all
  obtain k where k: "k = Suc j" by simp
  have split: "split_flags (''(?s)'' @ [CHR 0x5E] @ x) = (glob_flags, CHR 0x5E # x)"
    by (simp add: split_flags_def glob_flags_def)
  have "p_atom (Suc j) glob_flags 1 (CHR 0x5E # x) = Some (RBegin, 1, x)" for j
    by (simp add: glob_flags_def)
  from this [of j] have atom: "p_atom k glob_flags 1 (CHR 0x5E # x) = Some (RBegin, 1, x)" unfolding k .
  have rest: "p_seq k glob_flags 1 x = Some (r, n, [])" using assms(2) unfolding j k .
  have "p_seq (Suc k) glob_flags 1 (CHR 0x5E # x) = Some (RSeq RBegin r, n, [])"
    unfolding p_seq.simps(2) using atom p_quant_none [OF assms(1)] rest by (simp del: p_seq.simps p_atom.simps)
  then have "p_alt (Suc (Suc k)) glob_flags 1 (CHR 0x5E # x) = Some (RSeq RBegin r, n, [])" by simp
  moreover have "3 * length (CHR 0x5E # x) + 3 = Suc (Suc k)" using j by (simp add: k)
  ultimately show ?thesis by (simp only: compile_def split prod.case) simp
qed

lemma bytes_length: "length p \<le> length (concat (map byte_text p))"
proof (induction p)
  case (Cons c p)
  have "1 \<le> length (byte_text c)" by (simp add: Suc_le_eq byte_text_ends(1))
  with Cons.IH have "length p + 1 \<le> length (byte_text c) + length (concat (map byte_text p))" by linarith
  then show ?case by simp
qed simp

lemma compile_glob:
  assumes "no_quantifier t" "\<And>k. m \<le> k \<Longrightarrow> p_seq k glob_flags 1 t = Some (r, n, [])" "0 < m" "m \<le> 3 * length t"
  shows "compile (''(?s)'' @ [CHR 0x5E] @ concat (map byte_text p) @ t) = Some (RSeq RBegin (glob_regex p r))"
proof (rule compile_anchored)
  let ?x = "concat (map byte_text p) @ t"
  show "no_quantifier ?x" using assms(1) byte_text_safe(1) by (cases p) (simp_all add: append_assoc)
  have "length p + m \<le> 3 * length ?x + 4" using bytes_length [of p] assms(4) by simp
  then obtain i where "3 * length ?x + 4 = length p + m + i" using le_Suc_ex by blast
  moreover obtain j where "m = Suc j" using assms(3) by (cases m) auto
  ultimately have k: "3 * length ?x + 4 = Suc (length p + (j + i))" "m \<le> Suc (j + i)" by simp_all
  show "p_seq (3 * length ?x + 4) glob_flags 1 ?x = Some (glob_regex p r, n, [])"
    unfolding k(1) by (rule p_seq_glob [OF assms(1) assms(2) [OF k(2)]])
qed

lemma compile_plain: "compile (''(?s)'' @ [CHR 0x5E] @ concat (map byte_text p) @ [CHR 0x24]) = Some (RSeq RBegin (glob_regex p end_regex))"
proof (rule compile_glob)
  show "p_seq k glob_flags 1 [CHR 0x24] = Some (end_regex, 1, [])" if three: "3 \<le> k" for k
  proof -
    obtain j where "k = 3 + j" using three le_Suc_ex by blast
    then have "k = Suc (Suc (Suc j))" by simp
    then show ?thesis by (simp only: p_seq_end)
  qed
qed (simp_all add: no_quantifier_def)

lemma compile_args:
  "compile (''(?s)'' @ [CHR 0x5E] @ concat (map byte_text p) @ ''( .*)?'' @ [CHR 0x24]) = Some (RSeq RBegin (glob_regex p args_regex))"
proof (rule compile_glob)
  show "p_seq k glob_flags 1 (''( .*)?'' @ [CHR 0x24]) = Some (args_regex, 2, [])" if eight: "8 \<le> k" for k
  proof -
    obtain j where "k = 8 + j" using eight le_Suc_ex by blast
    then have "k = Suc (Suc (Suc (Suc (Suc (Suc (Suc (Suc j)))))))" by simp
    then show ?thesis by (simp only: p_seq_args)
  qed
qed (simp_all add: no_quantifier_def)

section \<open>The allow list\<close>

lemma matches_glob:
  "commandMatchesPattern invocation pattern =
    (trim_space invocation \<noteq> [] \<and> trim_space pattern \<noteq> [] \<and> command_glob (trim_space pattern) (trim_space invocation), True)"
proof (cases "trim_space invocation = [] \<or> trim_space pattern = []")
  case True
  then show ?thesis by (auto simp: commandMatchesPattern_def)
next
  case False
  obtain inv where inv: "inv = trim_space invocation" by simp
  obtain pat where pat: "pat = trim_space pattern" by simp
  let ?e = "concat (map byte_text pat)"
  have step: "commandMatchesPattern invocation pattern =
      (case compile (''(?s)'' @ [CHR 0x5E] @ (if suffix '' .*'' ?e then take (length ?e - 3) ?e @ ''( .*)?'' else ?e) @ [CHR 0x24]) of
         None \<Rightarrow> (False, False) | Some r \<Rightarrow> (rx_test r inv, True))"
    using False unfolding commandMatchesPattern_def Let_def inv [symmetric] pat [symmetric] escaped_text by simp
  show ?thesis
  proof (cases "suffix '' *'' pat")
    case True
    then obtain q where q: "pat = q @ '' *''" by (auto simp: suffix_def)
    have t: "take (length ?e - 3) ?e = concat (map byte_text q)" by (simp add: q byte_text_ends(4,5))
    have "suffix '' .*'' ?e" using True by (simp only: suffix_args)
    then have "commandMatchesPattern invocation pattern = (command_glob pat inv, True)"
      unfolding step t using compile_args [of q] args_regex_test [of q inv] q by simp
    then show ?thesis using False inv pat by simp
  next
    case no: False
    then have "\<not> suffix '' .*'' ?e" by (simp only: suffix_args not_False_eq_True)
    moreover have "command_glob pat inv \<longleftrightarrow> glob pat inv" using no by (simp only: command_glob_def) simp
    ultimately have "commandMatchesPattern invocation pattern = (command_glob pat inv, True)"
      unfolding step using compile_plain [of pat] glob_regex_test [of pat inv] by simp
    then show ?thesis using False inv pat by simp
  qed
qed


text \<open>
  Nothing reaches the shell unless the allow list has a pattern that matches the command; in
  particular an empty list, a missing command and a blank one run nothing.
\<close>

theorem shell_runs_allowed_only:
  assumes "shellExec shell patterns args w = (r, w')" "w' \<noteq> w \<or> (\<exists>out. r = Inr out)"
  shows "\<exists>command pattern. mget args ''command'' = Some (JStr command) \<and> pattern \<in> set patterns \<and>
    trim_space command \<noteq> [] \<and> trim_space pattern \<noteq> [] \<and> command_glob (trim_space pattern) (trim_space command)"
proof -
  obtain exec where exec: "shell = Some exec" using assms by (cases shell) (auto simp: shellExec_def)
  obtain command where command: "getString args ''command'' = Inr command"
    using assms exec by (cases "getString args ''command''") (auto simp: shellExec_def)
  have "command_allowed patterns (trim_space command)"
    using assms exec command by (auto simp: shellExec_def Let_def split: if_splits)
  then obtain p where p: "p \<in> set patterns" "commandMatchesPattern (trim_space command) p = (True, True)"
    by (auto simp: command_allowed_def list_ex_iff)
  have "mget args ''command'' = Some (JStr command)"
    using command by (auto simp: getString_def split: option.splits json.splits)
  moreover have "trim_space command \<noteq> []"
  proof
    assume "trim_space command = []"
    then show False using p(2) by (simp add: matches_glob)
  qed
  ultimately show ?thesis using p by (auto simp: matches_glob)
qed

definition echo_shell :: "string list shell" where
  "echo_shell cmd args dir w = (\<lparr>sh_stdout = ''ok'', sh_stderr = [], sh_exitCode = 0, sh_error = None\<rparr>, w @ [join_with '' '' args])"

theorem shell_runs_allowed_only_witness:
  "\<exists>pattern. pattern \<in> set [''ls *'', ''git *''] \<and> command_glob (trim_space pattern) ''git log'' \<and>
    snd (shellExec (Some echo_shell) [''ls *'', ''git *''] [(''command'', JStr ''git log'')] []) = [''-lc git log'']"
proof -
  let ?call = "shellExec (Some echo_shell) [''ls *'', ''git *''] [(''command'', JStr ''git log'')] []"
  have w: "snd ?call = [''-lc git log'']" by code_simp
  have t: "trim_space ''git log'' = ''git log''" by code_simp
  have call: "?call = (fst ?call, snd ?call)" by (rule surjective_pairing)
  have "snd ?call \<noteq> []" unfolding w by simp
  then obtain command pattern where c: "mget [(''command'', JStr ''git log'')] ''command'' = Some (JStr command)"
    and p: "pattern \<in> set [''ls *'', ''git *'']" "command_glob (trim_space pattern) (trim_space command)"
    using shell_runs_allowed_only [OF call disjI1] by blast
  have "command = ''git log''" using c by (simp add: mget_def)
  then have "command_glob (trim_space pattern) ''git log''" using p(2) t by (simp only:)
  with p(1) w show ?thesis by blast
qed

text \<open>
  A star also matches what follows a semicolon: a pattern that grants the subcommands of a program
  grants every command line that starts with it.
\<close>

lemma glob_prefix: "glob (CHR ''*'' # []) s"
proof -
  have "[] \<in> tails s" by (induction s) auto
  then show ?thesis by (auto simp: glob_star simp del: glob.simps(2))
qed

lemma glob_same: "c \<noteq> CHR ''*'' \<Longrightarrow> glob (c # p) (c # s) = glob p s"
  by simp

lemma chained_command_allowed: "glob ''git *'' (''git '' @ rest)"
  by (simp add: glob_same glob_prefix del: glob.simps)

end
