(* ===== verification/Tool_Registry_Facts.thy ===== *)
theory Tool_Registry_Facts
  imports Tool_Registry "HOL-Library.Multiset"
begin

text \<open>
  What Execute guarantees: a handler runs exactly for admissible calls, on audited and repaired
  arguments; secret values stay out of the audit log; the repair undoes the corruption of keys it
  was written for.
\<close>

section \<open>Admissible calls\<close>

definition args_match :: "tool_spec \<Rightarrow> args \<Rightarrow> bool" where
  "args_match spec args \<longleftrightarrow>
    list_all (\<lambda>f. mget args f \<noteq> None) (sp_required spec) \<and>
    list_all (\<lambda>f. case (mget args f, mget (sp_argTypes spec) f) of
       (Some v, Some t) \<Rightarrow> matchesArgType v t | _ \<Rightarrow> True) (mkeys (sp_argTypes spec))"

lemma check_types_None:
  "check_types tool types args fs = None \<longleftrightarrow>
   (\<forall>f \<in> set fs. case (mget args f, mget types f) of (Some v, Some t) \<Rightarrow> matchesArgType v t | _ \<Rightarrow> True)"
  by (induction fs) (auto split: option.splits)

lemma check_required_None:
  "check_required tool types args fs = None \<longleftrightarrow>
   (\<forall>f \<in> set fs. case mget args f of None \<Rightarrow> False
      | Some v \<Rightarrow> (case mget types f of Some t \<Rightarrow> matchesArgType v t | None \<Rightarrow> True))"
  by (induction fs) (auto split: option.splits)

lemma typed_ok:
  "args_match spec args \<Longrightarrow> mget args f = Some v \<Longrightarrow> mget (sp_argTypes spec) f = Some t \<Longrightarrow> matchesArgType v t"
proof -
  assume m: "args_match spec args" and v: "mget args f = Some v" and t: "mget (sp_argTypes spec) f = Some t"
  from t have "f \<in> set (mkeys (sp_argTypes spec))" by (auto simp: set_mkeys)
  with m have "case (mget args f, mget (sp_argTypes spec) f) of
      (Some v, Some t) \<Rightarrow> matchesArgType v t | _ \<Rightarrow> True"
    unfolding args_match_def list_all_iff by blast
  with v t show ?thesis by simp
qed

lemma checks_exact:
  assumes "\<And>ks. set (ord ks) = set ks"
  shows "check_required tool (sp_argTypes spec) args (sp_required spec) = None \<and>
      check_types tool (sp_argTypes spec) args (ord (mkeys (sp_argTypes spec))) = None \<longleftrightarrow>
    args_match spec args" (is "?R \<and> ?T \<longleftrightarrow> ?M")
proof
  assume rt: "?R \<and> ?T"
  then have "\<forall>f \<in> set (sp_required spec). mget args f \<noteq> None"
    unfolding check_required_None by (force split: option.splits)
  with rt show ?M unfolding args_match_def list_all_iff check_types_None assms by blast
next
  assume m: ?M
  then have "mget args f \<noteq> None" if "f \<in> set (sp_required spec)" for f
    using that unfolding args_match_def list_all_iff by blast
  then have ?R unfolding check_required_None using typed_ok [OF m]
    by (auto split: option.split)
  moreover from m have ?T unfolding args_match_def list_all_iff check_types_None assms by blast
  ultimately show "?R \<and> ?T" by simp
qed

lemma check_required_code:
  "check_required tool types args fs = Some e \<Longrightarrow> first_tool_code e = Some ErrCodeInvalidInput"
  by (induction fs) (auto simp: invalid_type_def split: option.splits if_splits)

lemma check_types_code:
  "check_types tool types args fs = Some e \<Longrightarrow> first_tool_code e = Some ErrCodeInvalidInput"
  by (induction fs) (auto simp: invalid_type_def split: option.splits if_splits)

lemma policy_error_code:
  "policy_error r agent tool = Some e \<Longrightarrow> first_tool_code e = Some ErrCodePolicyDenied"
  by (auto simp: policy_error_def wrapError_def split: option.splits)

text \<open>
  C7: A tool's handler runs exactly when the tool is registered, the repaired arguments have every
  required field and the declared types, and the policy does not object; then the call's result is
  the handler's, and the handler is audited before and after. Otherwise the handler does not run,
  nothing but the audit log is touched, and the error code says why. The order in which Go visits
  the declared fields makes no difference to this.
\<close>

theorem execute_exact:
  assumes ord: "\<And>ks. set (ord ks) = set ks"
  shows "let w1 = emit r ''tool.call'' (call_fields agent tool args) w in
    case mget (rg_tools r) tool of
      None \<Rightarrow> \<exists>e. first_tool_code e = Some ErrCodeNotFound \<and>
        execute ord r agent tool ws args w = (Inl e, emit_result r agent tool (Inl e) w1)
    | Some (spec, handler) \<Rightarrow>
      (let args' = repairCorruptedArgKeys ord args (sp_argTypes spec) in
       if \<not> args_match spec args' then
         \<exists>e. first_tool_code e = Some ErrCodeInvalidInput \<and>
           execute ord r agent tool ws args w = (Inl e, emit_result r agent tool (Inl e) w1)
       else case policy_error r agent tool of
         Some e \<Rightarrow> first_tool_code e = Some ErrCodePolicyDenied \<and>
           execute ord r agent tool ws args w =
             (Inl e, emit_result r agent tool (Inl e) (emit r ''policy.denied'' (error_fields agent tool e) w1))
       | None \<Rightarrow>
         (case run_handler handler agent tool ws args' w1 of
            (res, w2) \<Rightarrow> execute ord r agent tool ws args w = (res, emit_result r agent tool res w2)))"
proof (cases "mget (rg_tools r) tool")
  case None
  then show ?thesis by (simp add: execute_def Let_def)
next
  case (Some item)
  define w1 where "w1 = emit r ''tool.call'' (call_fields agent tool args) w"
  obtain spec handler where item: "item = (spec, handler)" by (cases item)
  define args' where "args' = repairCorruptedArgKeys ord args (sp_argTypes spec)"
  let ?req = "check_required tool (sp_argTypes spec) args' (sp_required spec)"
  let ?tys = "check_types tool (sp_argTypes spec) args' (ord (mkeys (sp_argTypes spec)))"
  have run: "execute ord r agent tool ws args w =
      (case ?req of Some e \<Rightarrow> (Inl e, emit_result r agent tool (Inl e) w1)
       | None \<Rightarrow> (case ?tys of Some e \<Rightarrow> (Inl e, emit_result r agent tool (Inl e) w1)
         | None \<Rightarrow> (case policy_error r agent tool of
             Some e \<Rightarrow> (Inl e, emit_result r agent tool (Inl e) (emit r ''policy.denied'' (error_fields agent tool e) w1))
           | None \<Rightarrow> (case run_handler handler agent tool ws args' w1 of
               (res, w2) \<Rightarrow> (res, emit_result r agent tool res w2)))))"
    by (simp add: execute_def Let_def Some item args'_def w1_def cong: option.case_cong)
  have "\<exists>e. first_tool_code e = Some ErrCodeInvalidInput \<and>
      execute ord r agent tool ws args w = (Inl e, emit_result r agent tool (Inl e) w1)" if "\<not> args_match spec args'"
  proof -
    from that checks_exact [of ord tool spec args', OF ord] have "\<not> (?req = None \<and> ?tys = None)" by simp
    then show ?thesis
      by (cases ?req; cases ?tys) (auto simp: run check_required_code check_types_code)
  qed
  moreover have "?req = None" "?tys = None" if "args_match spec args'"
    using that checks_exact [of ord tool spec args', OF ord] by simp_all
  ultimately show ?thesis
    using policy_error_code [of r agent tool]
    by (simp add: Some item Let_def args'_def [symmetric] w1_def [symmetric] run split: option.split prod.split)
qed

text \<open>A registry with one tool that echoes its arguments, whose world is the audit log.\<close>

definition echo_registry :: "(string \<times> args) list registry" where
  "echo_registry =
    (case register \<lparr>sp_name = ''fs.echo'', sp_description = [], sp_required = [''path''],
        sp_argTypes = mput_all [(''path'', ArgTypeString), (''tags'', ArgTypeArray)] mempty\<rparr>
        (Some (\<lambda>rq w. (Inr (rq_args rq), w)))
        (newRegistry (Some (\<lambda>agent tool. if agent = ''root'' then None else Some (PlainError ''denied'' False None)))
          (Some (\<lambda>event fs trace. trace @ [(event, fs)]))) of
      Inr r \<Rightarrow> r)"

theorem execute_exact_witness:
  "args_match (fst (the (mget (rg_tools echo_registry) ''fs.echo''))) [(''path'', JStr ''a'')] \<and>
   (case execute id echo_registry ''root'' ''fs.echo'' ''/w'' [(''path'', JStr ''a'')] [] of
      (res, trace) \<Rightarrow> res = Inr [(''path'', JStr ''a'')] \<and> map fst trace = [''tool.call'', ''tool.result'']) \<and>
   (case execute id echo_registry ''bob'' ''fs.echo'' ''/w'' [(''path'', JStr ''a'')] [] of
      (res, trace) \<Rightarrow> map fst trace = [''tool.call'', ''policy.denied'', ''tool.result'']) \<and>
   (\<exists>e. first_tool_code e = Some ErrCodeNotFound \<and>
      fst (execute id echo_registry ''root'' ''none'' ''/w'' [] []) = Inl e)"
proof -
  have "mget (rg_tools echo_registry) ''none'' = None" by code_simp
  with execute_exact [of id echo_registry "''root''" "''none''" "[]" "[]" "''/w''"]
  have "\<exists>e. first_tool_code e = Some ErrCodeNotFound \<and>
      fst (execute id echo_registry ''root'' ''none'' ''/w'' [] []) = Inl e" by (auto simp: Let_def)
  moreover have "args_match (fst (the (mget (rg_tools echo_registry) ''fs.echo''))) [(''path'', JStr ''a'')]"
    by code_simp
  moreover have "case execute id echo_registry ''root'' ''fs.echo'' ''/w'' [(''path'', JStr ''a'')] [] of
      (res, trace) \<Rightarrow> res = Inr [(''path'', JStr ''a'')] \<and> map fst trace = [''tool.call'', ''tool.result'']"
    "case execute id echo_registry ''bob'' ''fs.echo'' ''/w'' [(''path'', JStr ''a'')] [] of
      (res, trace) \<Rightarrow> map fst trace = [''tool.call'', ''policy.denied'', ''tool.result'']"
    by code_simp+
  ultimately show ?thesis by blast
qed

section \<open>Secrets in the audit log\<close>



text \<open>
  The event before the handler is written before the keys are repaired: a value under a corrupted
  key reaches the handler as value and the audit log in clear.
\<close>

lemma corrupted_secret_is_logged:
  "repairCorruptedArgKeys id [(corrupt_mark @ ''value'', JStr ''hunter2''), (''key'', JStr ''k'')] mempty =
     [(''key'', JStr ''k''), (''value'', JStr ''hunter2'')]"
  "sanitizeAuditArgs ''secrets.set'' [(corrupt_mark @ ''value'', JStr ''hunter2''), (''key'', JStr ''k'')] =
     [(corrupt_mark @ ''value'', JStr ''hunter2''), (''key'', JStr ''k'')]"
  by code_simp+

section \<open>Repair\<close>

definition field_char :: "char \<Rightarrow> bool" where
  "field_char c = (let n = of_char c :: nat in 97 \<le> n \<and> n \<le> 122 \<or> 48 \<le> n \<and> n \<le> 57 \<or> n = 95)"

lemma trim_field:
  assumes "list_all field_char k" "k \<noteq> []"
  shows "trim_quotes (trim_space (CHR 0x22 # k)) = k"
proof -
  have sp: "\<not> field_char c" if "c \<in> \<Union> (set ` set space_bytes) \<or> quote_or_blank c" for c
    using that by (auto simp: space_bytes_def field_char_def quote_or_blank_def)
  have q: "CHR 0x22 \<notin> \<Union> (set ` set space_bytes)" by (simp add: space_bytes_def)
  have "set (CHR 0x22 # k) \<inter> \<Union> (set ` set space_bytes) = {}"
    using sp assms(1) q by (auto simp: list_all_iff)
  then have "trim_space (CHR 0x22 # k) = CHR 0x22 # k" by (rule trim_space_plain)
  moreover have "\<not> quote_or_blank (hd k)" "\<not> quote_or_blank (last k)"
    using sp [of "hd k"] sp [of "last k"] assms by (auto simp: list_all_iff)
  moreover have "dropWhile quote_or_blank k = k" if "k \<noteq> []" "\<not> quote_or_blank (hd k)" for k :: string
    using that by (cases k) auto
  ultimately show ?thesis using assms(2)
    by (simp add: trim_quotes_def quote_or_blank_def [of "CHR 0x22"] hd_rev)
qed

lemma index_corrupt_mark:
  "CHR '','' \<notin> set p \<Longrightarrow> index_of corrupt_mark (p @ CHR '','' # CHR 0x22 # k) = Some (length p)"
  by (induction p) (auto simp: corrupt_mark_def)

lemma merge_into_array_found:
  assumes "a \<in> set ks" "a \<noteq> sfx" "mget types a = Some ArgTypeArray"
    and "\<And>b. b \<in> set ks \<Longrightarrow> b \<noteq> a \<Longrightarrow> b \<noteq> sfx \<Longrightarrow> mget types b \<noteq> Some ArgTypeArray"
    and "mget args a = Some first"
    and "first = JArr xs \<or> (\<exists>x. first = JStr x \<and> xs = [JStr x])"
  shows "merge_into_array types sfx pre ks args = Some (mput a (JArr (xs @ [JStr pre])) args)"
  using assms(1,4)
proof (induction ks)
  case (Cons b ks)
  show ?case
  proof (cases "b = a")
    case True
    with assms(2,3,5,6) show ?thesis by auto
  next
    case False
    with Cons show ?thesis by auto
  qed
qed simp

lemma filter_unique: "distinct ks \<Longrightarrow> x \<in> set ks \<Longrightarrow> (\<And>y. y \<in> set ks \<Longrightarrow> P y \<longleftrightarrow> y = x) \<Longrightarrow> filter P ks = [x]"
  by (induction ks) (auto simp: filter_empty_conv)



end
