(* ===== verification/Core_Tools_Facts.thy ===== *)
theory Core_Tools_Facts
  imports Core_Tools File_Tools_Facts Shell_Tool_Facts Tool_Registry_Facts
begin

text \<open>
  The file tools and the shell as the registry runs them: whatever is called, nothing outside the workspace
  changes except by commands of the allow list; and the results of the file tools are typed.
\<close>

section \<open>What is registered\<close>

definition entry_of :: "tool_spec \<times> 'w handler \<Rightarrow> string \<times> tool_spec \<times> 'w handler" where
  "entry_of t = (sp_name (fst t), t)"

lemma register_all_ok:
  "distinct (map (sp_name \<circ> fst) ts) \<Longrightarrow> \<forall>t \<in> set ts. sp_name (fst t) \<noteq> [] \<and> mget (rg_tools r) (sp_name (fst t)) = None \<Longrightarrow>
   register_all ts r = Inr (r\<lparr>rg_tools := mput_all (map entry_of ts) (rg_tools r)\<rparr>)"
proof (induction ts arbitrary: r)
  case Nil
  then show ?case by (simp add: mput_all_def)
next
  case (Cons t ts)
  obtain s h where t: "t = (s, h)" by (rule prod.exhaust)
  let ?r = "r\<lparr>rg_tools := mput (sp_name s) (s, h) (rg_tools r)\<rparr>"
  have "register s (Some h) r = Inr ?r" using Cons(3) by (simp add: register_def t mhas_def)
  moreover have "register_all ts ?r = Inr (?r\<lparr>rg_tools := mput_all (map entry_of ts) (rg_tools ?r)\<rparr>)"
  proof (rule Cons(1))
    show "distinct (map (sp_name \<circ> fst) ts)" using Cons(2) by (simp add: comp_def)
    have "sp_name (fst u) \<noteq> sp_name s" if "u \<in> set ts" for u
    proof
      assume eq: "sp_name (fst u) = sp_name s"
      have "sp_name s \<in> (\<lambda>a. sp_name (fst a)) ` set ts" using imageI [OF that, of "\<lambda>a. sp_name (fst a)"] unfolding eq .
      then show False using Cons(2) by (simp add: t comp_def)
    qed
    then show "\<forall>u \<in> set ts. sp_name (fst u) \<noteq> [] \<and> mget (rg_tools ?r) (sp_name (fst u)) = None"
      using Cons(3) by (simp add: mget_mput)
  qed
  moreover have "mput_all (map entry_of (t # ts)) m = mput_all (map entry_of ts) (mput (sp_name s) (s, h) m)" for m
    by (simp add: mput_all_def entry_of_def t)
  ultimately show ?case by (simp add: t)
qed

definition core_handlers :: "'w host \<Rightarrow> bool \<Rightarrow> (tool_spec \<times> 'w handler) list" where
  "core_handlers h enableShell = map (\<lambda>(s, tool). (s, file_handler h tool)) file_tools @
     (if enableShell then [(shell_spec, shell_handler h)] else [])"

definition core_names :: "bool \<Rightarrow> string list" where
  "core_names enableShell = [''fs.read'', ''fs.list'', ''fs.write'', ''fs.append'', ''fs.delete'', ''fs.move'', ''fs.edit'', ''fs.mkdir''] @
     (if enableShell then [''shell.exec''] else [])"

lemma core_handlers_names: "map (sp_name \<circ> fst) (core_handlers h b) = core_names b"
  by (simp add: core_handlers_def core_names_def file_tools_def shell_spec_def core_spec_def)

lemma core_handlers_free: "t \<in> set (core_handlers h b) \<Longrightarrow> sp_name (fst t) \<noteq> []"
proof -
  assume "t \<in> set (core_handlers h b)"
  then have "sp_name (fst t) \<in> set (map (sp_name \<circ> fst) (core_handlers h b))" by simp
  then have "sp_name (fst t) \<in> set (core_names b)" unfolding core_handlers_names .
  then show ?thesis by (auto simp: core_names_def split: if_splits)
qed

lemma core_registered:
  "registerCoreTools h b (newRegistry p a) =
     Inr \<lparr>rg_policy = p, rg_audit = a, rg_tools = mput_all (map entry_of (core_handlers h b)) mempty\<rparr>"
proof -
  have "register_all (core_handlers h b) (newRegistry p a) =
      Inr (newRegistry p a\<lparr>rg_tools := mput_all (map entry_of (core_handlers h b)) (rg_tools (newRegistry p a))\<rparr>)"
  proof (rule register_all_ok)
    show "distinct (map (sp_name \<circ> fst) (core_handlers h b))" unfolding core_handlers_names by (cases b) (simp_all add: core_names_def)
    show "\<forall>t \<in> set (core_handlers h b). sp_name (fst t) \<noteq> [] \<and> mget (rg_tools (newRegistry p a)) (sp_name (fst t)) = None"
      using core_handlers_free by (auto simp: newRegistry_def)
  qed
  then show ?thesis by (simp add: registerCoreTools_def core_handlers_def newRegistry_def)
qed

lemma core_registry:
  assumes "registerCoreTools h b (newRegistry p a) = Inr r"
  shows "rg_tools r = mput_all (map entry_of (core_handlers h b)) mempty" "rg_audit r = a"
  using assms [symmetric] by (simp_all add: core_registered)

lemma core_lookup:
  assumes "registerCoreTools h b (newRegistry p a) = Inr r" "mget (rg_tools r) name = Some (s, g)"
  shows "(s, g) \<in> set (core_handlers h b)" "sp_name s = name"
proof -
  have "(name, s, g) \<in> set (map entry_of (core_handlers h b))"
    using assms(2) unfolding core_registry(1) [OF assms(1)] by (auto simp: mget_mput_all dest!: map_of_SomeD split: option.splits)
  then show "(s, g) \<in> set (core_handlers h b)" "sp_name s = name" by (auto simp: entry_of_def)
qed

section \<open>Confinement of a call\<close>

definition host_permits :: "'w host \<Rightarrow> string \<Rightarrow> 'w \<Rightarrow> string \<Rightarrow> bool" where
  "host_permits h ws w p \<longleftrightarrow> (\<exists>view. ho_policy h = Some view \<and> permitted (view w) ws p)"

lemma file_handler_keeps:
  assumes "tool \<in> {fsRead, fsList, fsWrite, fsAppend, fsDelete, fsMove, fsEdit, fsMkdir}"
    and "kept_by I (host_permits h (rq_workspace rq) w) (ho_files h)"
    and "\<And>view. ho_policy h = Some view \<Longrightarrow> evaluates_cleanly (view w)" "I w"
  shows "keeps I (file_handler h tool rq w)"
proof -
  let ?r = "fs_request_of h rq"
  have "request_permits ?r w = host_permits h (rq_workspace rq) w"
    by (auto simp: request_permits_def host_permits_def fs_request_of_def)
  moreover have "clean_view ?r w" using assms(3) by (auto simp: clean_view_def fs_request_of_def)
  ultimately have "I (snd (tool ?r w))" using file_tools_keep [OF assms(1), of I ?r w] assms(2,4) by (simp add: fs_request_of_def)
  then show ?thesis by (auto simp: file_handler_def keeps_def split: prod.splits sum.splits)
qed

definition shell_keeps :: "('w \<Rightarrow> bool) \<Rightarrow> string list \<Rightarrow> 'w shell \<Rightarrow> bool" where
  "shell_keeps I patterns exec \<longleftrightarrow>
    (\<forall>w sh dir command. \<forall>pattern \<in> set patterns. I w \<and> command_glob (trim_space pattern) (trim_space command) \<longrightarrow>
       keeps I (exec sh [''-lc'', command] dir w))"

lemma fallback_keeps: "(\<And>sh w. I w \<Longrightarrow> keeps I (exec sh argv dir w)) \<Longrightarrow> I w \<Longrightarrow> keeps I (shell_fallback exec argv dir cmds w)"
proof (induction cmds arbitrary: w)
  case (Cons c cmds)
  obtain x w1 where e: "exec c argv dir w = (x, w1)" by (rule prod.exhaust)
  then have "I w1" using Cons(2) [OF Cons(3), of c] by simp
  then show ?case using Cons(1) [OF Cons(2)] by (simp add: e)
qed simp

lemma allowed_glob:
  "command_allowed patterns (trim_space command) \<Longrightarrow>
   \<exists>pattern \<in> set patterns. command_glob (trim_space pattern) (trim_space command)"
  by (auto simp: command_allowed_def list_ex_iff matches_glob)

lemma shell_exec_keeps:
  assumes "\<And>exec. shell = Some exec \<Longrightarrow> shell_keeps I patterns exec" "I w"
  shows "keeps I (shellExec shell patterns args w)"
proof (cases shell)
  case None
  with assms(2) show ?thesis by (simp add: shellExec_def)
next
  case (Some exec)
  show ?thesis
  proof (cases "getString args ''command''")
    case (Inl e)
    with assms(2) Some show ?thesis by (simp add: shellExec_def)
  next
    case (Inr command)
    show ?thesis
    proof (cases "command_allowed patterns (trim_space command)")
      case False
      with assms(2) Some Inr show ?thesis by (simp add: shellExec_def Let_def)
    next
      case True
      have step: "\<And>sh dir w. I w \<Longrightarrow> keeps I (exec sh [''-lc'', command] dir w)"
        using allowed_glob [OF True] assms(1) [OF Some] unfolding shell_keeps_def by blast
      obtain dir where dir: "dir = (case getString args ''workdir'' of Inl _ \<Rightarrow> [] | Inr d \<Rightarrow> d)" by simp
      obtain cmds where cmds: "cmds = [''/bin/bash'', ''/usr/bin/bash'', ''sh'']" by simp
      obtain out where out: "out = shell_output (getBoolArg args ''allow_empty_output'' False) (getIntArg args ''timeout_ms'' 0)" by simp
      obtain x w1 where e: "exec ''bash'' [''-lc'', command] dir w = (x, w1)" by (rule prod.exhaust)
      obtain y w2 where f: "shell_fallback exec [''-lc'', command] dir cmds w1 = (y, w2)" by (rule prod.exhaust)
      have eq: "shellExec shell patterns args w =
          (if sh_error x \<noteq> None \<and> isExecutableNotFound (sh_error x)
           then (case y of Some (cmd, r') \<Rightarrow> (Inr (out cmd r'), w2) | None \<Rightarrow> (Inr (out [] x), w2)) else (Inr (out [] x), w1))"
        using True unfolding shellExec_def Some Inr option.case sum.case Let_def dir [symmetric] cmds [symmetric] out [symmetric] e f prod.case
        by (simp split: option.split)
      have "I w1" using step [OF assms(2), of "''bash''" dir] e by simp
      moreover from this have "I w2" using fallback_keeps [where I = I and exec = exec, OF step] f by (metis keeps_pair)
      ultimately show ?thesis unfolding eq by (simp split: option.split prod.split)
    qed
  qed
qed

lemma emit_keeps: "(\<And>log e fs w. rg_audit r = Some log \<Longrightarrow> I w \<Longrightarrow> I (log e fs w)) \<Longrightarrow> I w \<Longrightarrow> I (emit r ev fs w)"
  by (auto simp: emit_def split: option.split)

lemma execute_keeps:
  assumes "\<And>log e fs w. rg_audit r = Some log \<Longrightarrow> I w \<Longrightarrow> I (log e fs w)"
    and "\<And>s g w rq. mget (rg_tools r) tool = Some (s, g) \<Longrightarrow> I w \<Longrightarrow> rq_workspace rq = ws \<Longrightarrow> keeps I (g rq w)" and "I w"
  shows "I (snd (execute ord r agent tool ws args w))"
proof -
  have em: "I w \<Longrightarrow> I (emit r ev fs w)" for ev fs w using assms(1) by (rule emit_keeps)
  have res: "I w \<Longrightarrow> I (emit_result r agent tool x w)" for x w unfolding emit_result_def by (rule em)
  have w1: "I (emit r ''tool.call'' (call_fields agent tool args) w)" by (rule em [OF assms(3)])
  show ?thesis
  proof (cases "mget (rg_tools r) tool")
    case None
    then show ?thesis using res w1 by (simp add: execute_def Let_def)
  next
    case (Some item)
    obtain s g where item: "item = (s, g)" by (rule prod.exhaust)
    have run: "I (snd (run_handler g agent tool ws args' w))" if "I w" for args' w
    proof -
      let ?rq = "\<lparr>rq_agentID = agent, rq_tool = tool, rq_workspace = ws, rq_args = args'\<rparr>"
      have "keeps I (g ?rq w)" using assms(2) Some item that by simp
      then show ?thesis by (auto simp: run_handler_def keeps_def split: prod.splits sum.splits)
    qed
    obtain args' where args': "args' = repairCorruptedArgKeys ord args (sp_argTypes s)" by simp
    obtain x w2 where h: "run_handler g agent tool ws args' (emit r ''tool.call'' (call_fields agent tool args) w) = (x, w2)"
      by (rule prod.exhaust)
    then have w2: "I w2" using run [OF w1, of args'] by simp
    show ?thesis unfolding execute_def Let_def Some item option.case prod.case args' [symmetric] h
      using res [OF w1] res [OF w2] res [OF em [OF w1]] by (simp split: option.split)
  qed
qed


definition sample_host :: "string list host" where
  "sample_host = \<lparr>ho_policy = Some (\<lambda>_. flat_fs), ho_sandbox = False, ho_files = logged, ho_shell = None, ho_allowed = []\<rparr>"

definition sample_core :: "string list registry" where
  "sample_core = (case registerCoreTools sample_host True (newRegistry None (Some (\<lambda>event fs w. w))) of Inr r \<Rightarrow> r)"


section \<open>Types of the results\<close>

text \<open>The fields every result of a tool has, and the types of all it may have.\<close>

definition result_types :: "string \<Rightarrow> string list \<times> (string \<times> arg_type) list" where
  "result_types name =
    (if name = ''fs.read'' then ([''path'', ''content'', ''truncated''],
       [(''path'', ArgTypeString), (''content'', ArgTypeString), (''truncated'', ArgTypeBool)])
     else if name = ''fs.list'' then ([''path'', ''entries''], [(''path'', ArgTypeString), (''entries'', ArgTypeArray)])
     else if name = ''fs.write'' then ([''path'', ''bytes'', ''lines'', ''summary''],
       [(''path'', ArgTypeString), (''bytes'', ArgTypeNumber), (''lines'', ArgTypeNumber), (''summary'', ArgTypeString)])
     else if name = ''fs.append'' then ([''path'', ''bytes_appended'', ''lines_appended'', ''summary''],
       [(''path'', ArgTypeString), (''bytes_appended'', ArgTypeNumber), (''lines_appended'', ArgTypeNumber), (''summary'', ArgTypeString)])
     else if name = ''fs.delete'' then ([''path'', ''deleted'', ''summary''],
       [(''path'', ArgTypeString), (''deleted'', ArgTypeBool), (''skipped'', ArgTypeString), (''type'', ArgTypeString),
        (''recursive'', ArgTypeBool), (''summary'', ArgTypeString)])
     else if name = ''fs.move'' then ([''src'', ''dst'', ''moved'', ''overwrite'', ''summary''],
       [(''src'', ArgTypeString), (''dst'', ArgTypeString), (''moved'', ArgTypeBool), (''type'', ArgTypeString),
        (''overwrite'', ArgTypeBool), (''summary'', ArgTypeString)])
     else if name = ''fs.edit'' then ([''path'', ''updated'', ''mode''],
       [(''path'', ArgTypeString), (''updated'', ArgTypeBool), (''mode'', ArgTypeString), (''applied_edits'', ArgTypeNumber)])
     else ([''path'', ''summary''], [(''path'', ArgTypeString), (''summary'', ArgTypeString)]))"

definition typed_by :: "string list \<times> (string \<times> arg_type) list \<Rightarrow> args \<Rightarrow> bool" where
  "typed_by t m \<longleftrightarrow> list_all (mhas m) (fst t) \<and>
    list_all (\<lambda>(k, v). case map_of (snd t) k of None \<Rightarrow> False | Some ty \<Rightarrow> matchesArgType v ty) m"

definition out_typed :: "string list \<times> (string \<times> arg_type) list \<Rightarrow> 'w outcome \<Rightarrow> bool" where
  "out_typed t out \<longleftrightarrow> (case fst out of Inl e \<Rightarrow> True | Inr m \<Rightarrow> typed_by t m)"

lemma out_typed_simps [simp]: "out_typed t (Inl e, w)" "out_typed t (Inr m, w) = typed_by t m"
  by (simp_all add: out_typed_def)

lemma typed_steps:
  "(\<And>s. out_typed t (f s)) \<Longrightarrow> out_typed t (with_string r key w f)"
  "(\<And>fs. out_typed t (g fs)) \<Longrightarrow> out_typed t (with_policy r w g)"
  "(\<And>p. out_typed t (h p)) \<Longrightarrow> out_typed t (with_path res w h)"
  "out_typed t next \<Longrightarrow> out_typed t (guarded r fs p w next)"
  "(\<And>w. out_typed t (k w)) \<Longrightarrow> out_typed t (after_op op k)"
  by (auto simp: with_string_def with_policy_def with_path_def guarded_def after_op_def
      split: sum.split option.split prod.split)

lemma typed_info:
  "typed_by t (info kvs) \<longleftrightarrow> list_all (\<lambda>f. f \<in> fst ` set kvs) (fst t) \<and>
    list_all (\<lambda>(k, v). case map_of (snd t) k of None \<Rightarrow> False | Some ty \<Rightarrow> matchesArgType v ty) (info kvs)"
proof -
  have "mhas (info kvs) f \<longleftrightarrow> f \<in> fst ` set kvs" for f
  proof -
    have "map_of (rev kvs) f = None \<longleftrightarrow> f \<notin> fst ` set kvs" by (simp add: map_of_eq_None_iff)
    then show ?thesis by (auto simp: info_def mhas_def mget_mput_all split: option.splits)
  qed
  then show ?thesis by (simp add: typed_by_def list_all_iff)
qed

lemma info_entries: "list_all P kvs \<Longrightarrow> list_all P (info kvs)"
proof -
  assume "list_all P kvs"
  then have "e \<in> set (info kvs) \<Longrightarrow> P e" for e
  proof -
    assume "e \<in> set (info kvs)"
    then obtain k v where e: "e = (k, v)" "mget (info kvs) k = Some v"
      by (metis in_mget info_def prod.exhaust wf_mempty wf_mput_all)
    then have "(k, v) \<in> set kvs" by (auto simp: info_def mget_mput_all dest!: map_of_SomeD split: option.splits)
    with \<open>list_all P kvs\<close> e show ?thesis by (auto simp: list_all_iff)
  qed
  then show ?thesis by (simp add: list_all_iff)
qed

lemma typed_infoI:
  "list_all (\<lambda>f. f \<in> fst ` set kvs) (fst t) \<Longrightarrow>
   list_all (\<lambda>(k, v). case map_of (snd t) k of None \<Rightarrow> False | Some ty \<Rightarrow> matchesArgType v ty) kvs \<Longrightarrow> typed_by t (info kvs)"
  unfolding typed_info using info_entries by blast

lemma read_typed: "out_typed (result_types ''fs.read'') (fsRead r w)"
  unfolding fsRead_def
  by (intro typed_steps) (auto simp: Let_def result_types_def intro!: typed_infoI split: sum.split)

lemma list_typed: "out_typed (result_types ''fs.list'') (fsList r w)"
  unfolding fsList_def
  by (intro typed_steps) (auto simp: Let_def result_types_def intro!: typed_infoI split: sum.split)

lemma write_typed: "out_typed (result_types ''fs.write'') (fsWrite r w)"
proof -
  have "typed_by (result_types ''fs.write'') (write_info path content)" for path content
    unfolding write_info_def by (rule typed_infoI) (simp_all add: result_types_def)
  then show ?thesis unfolding fsWrite_def
    by (intro typed_steps) (auto simp: Let_def intro!: typed_steps split: sum.split)
qed

lemma append_typed: "out_typed (result_types ''fs.append'') (fsAppend r w)"
  unfolding fsAppend_def
  by (intro typed_steps) (auto simp: result_types_def intro!: typed_infoI)

lemma mkdir_typed: "out_typed (result_types ''fs.mkdir'') (fsMkdir r w)"
  unfolding fsMkdir_def
  by (intro typed_steps) (auto simp: result_types_def intro!: typed_infoI)

lemma delete_typed: "out_typed (result_types ''fs.delete'') (fsDelete r w)"
proof -
  have "typed_by (result_types ''fs.delete'') (skipped_delete path)" for path
    unfolding skipped_delete_def by (rule typed_infoI) (simp_all add: result_types_def)
  moreover have "typed_by (result_types ''fs.delete'') (info [(''path'', JStr path), (''deleted'', JBool True),
      (''type'', JStr ty), (''recursive'', JBool b), (''summary'', JStr t)])" for path ty b t
    by (rule typed_infoI) (simp_all add: result_types_def)
  ultimately show ?thesis unfolding fsDelete_def
    by (intro typed_steps) (auto simp: Let_def split: sum.split os_error.split prod.split option.split)
qed

lemma move_typed: "out_typed (result_types ''fs.move'') (fsMove r w)"
proof -
  have "typed_by (result_types ''fs.move'') (move_info src dst b [])"
    "typed_by (result_types ''fs.move'') (move_info src dst b [(''type'', JStr ty)])" for src dst b ty
    unfolding move_info_def by (rule typed_infoI; simp add: result_types_def)+
  then show ?thesis unfolding fsMove_def
    by (intro typed_steps) (auto simp: Let_def intro!: typed_steps split: sum.split os_error.split)
qed

lemma edit_content_info: "edit_content b args = Inr (updated, res) \<Longrightarrow> \<exists>n mode. res = edit_info n mode"
  by (auto simp: edit_content_def handleReplaceMode_def handleUnifiedDiffMode_def handleLineEditsMode_def Let_def
      split: if_splits sum.splits option.splits json.splits prod.splits)

lemma edit_typed: "out_typed (result_types ''fs.edit'') (fsEdit r w)"
proof -
  have put: "mput ''path'' (JStr p) (edit_info n mode) = info ((''updated'', JBool True) # (''mode'', JStr mode) #
      (case n of None \<Rightarrow> [] | Some k \<Rightarrow> [(''applied_edits'', JNum (itoa k))]) @ [(''path'', JStr p)])" for p n mode
    by (cases n) (simp_all add: edit_info_def info_def mput_all_def mempty_def)
  have "typed_by (result_types ''fs.edit'') (mput ''path'' (JStr p) (edit_info n mode))" for p n mode
    unfolding put by (rule typed_infoI) (cases n; simp add: result_types_def)+
  then show ?thesis unfolding fsEdit_def
    by (intro typed_steps) (auto intro!: typed_steps dest: edit_content_info split: sum.split)
qed



end
