(* ===== verification/Run_Types.thy ===== *)
theory Run_Types
  imports Go_Float Tool_Parse Chat_Limits
begin

text \<open>
  The data of a run (internal/agent/types.go, complexity.go, planner.go, ledger.go and the runState
  struct of run_state.go). An error is its text and the two context errors errors.Is finds in it.
  Wall-clock stamps of records and events are left out: nothing the run decides depends on them.
  Confidences are float64 as in Go_Float. A payload is a Go map of values of the few types the code puts in.
  The outside (tool executor, model, sub-agent runner, callbacks) is a record of functions that
  thread a world \<open>'w\<close>; a nil function or interface is None.
\<close>

section \<open>Results, messages and decisions\<close>

record go_error =
  err_text :: string
  err_canceled :: bool
  err_deadline :: bool

record tool_result =
  tr_id :: string
  tr_output :: string
  tr_error :: string

record tool_record =
  rec_request :: tool_call
  rec_result :: tool_result
  rec_callbackErr :: string

record chat_message =
  msg_role :: string
  msg_content :: string

datatype pval = PStr string | PInt int | PRat rat | PBool bool | PStrs "string list"

type_synonym payload = "(string, pval) gmap"

record decision =
  d_runID :: string
  d_agentID :: string
  d_type :: string
  d_payload :: payload
  d_summary :: string

type_synonym decision_ledger = "(string, decision list) gmap"

section \<open>Delegation\<close>

datatype delegation_mode =
    NoMode | PromptOnly | ToolGated | AutoExecute | SuggestOnly | ApprovePlan | AutoTrusted | FullAuto

record decomposed_task =
  dt_taskID :: string
  dt_parentRunID :: string
  dt_agentID :: string
  dt_message :: string
  dt_acceptanceCrit :: "string list"
  dt_dependsOn :: "string list"
  dt_produces :: "string list"
  dt_priority :: int
  dt_timeoutMS :: int
  dt_thinkingMode :: string
  dt_assignedRole :: string
  dt_routingConfidence :: rat
  dt_routingRationale :: string
  dt_roleAllowedTools :: "string list"
  dt_roleMaxToolIterations :: int
  dt_roleTimeoutMS :: int

record task_node =
  tn_taskID :: string
  tn_description :: string
  tn_assignedRole :: string
  tn_confidence :: rat
  tn_expectedArtifacts :: "string list"
  tn_completionCriteria :: "string list"
  tn_dependsOn :: "string list"
  tn_rationale :: string

record decomposition_plan =
  dp_delegationMode :: string
  dp_triggerReason :: string
  dp_tasks :: "task_node list"
  dp_dependencyDAG :: "(string \<times> string) list"
  dp_minConfidence :: rat
  dp_avgConfidence :: rat
  dp_allRolesBuiltIn :: bool

record delegation_event =
  de_taskID :: string
  de_messageID :: string
  de_relatedRunID :: string
  de_parentRunID :: string
  de_fromAgentID :: string
  de_toAgentID :: string
  de_triggerReason :: string
  de_selectedRole :: string
  de_confidence :: rat
  de_taskAssignment :: string
  de_rationale :: string
  de_outcome :: string

record delegation_trigger =
  tg_mode :: delegation_mode
  tg_reason :: string
  tg_subtasks :: "decomposed_task list"
  tg_allowedTools :: "string list"
  tg_cooldownFor :: int

record subagent_output =
  so_runID :: string
  so_messageID :: string
  so_finalText :: string
  so_success :: bool
  so_error :: string

section \<open>Input, output and the outside\<close>

record artifact_doc =
  doc_name :: string
  doc_content :: string

record run_output =
  ro_prompt :: string
  ro_finalText :: string
  ro_thinking :: string
  ro_thinkingPresent :: bool
  ro_toolParseFailure :: bool
  ro_toolCalls :: "tool_record list"
  ro_decompositionPlan :: "decomposition_plan option"
  ro_delegationEvents :: "delegation_event list"

record 'w run_input =
  ri_agentID :: string
  ri_runID :: string
  ri_parentRunID :: string
  ri_message :: string
  ri_source :: string
  ri_messages :: "chat_message list"
  ri_artifactDocs :: "artifact_doc list"
  ri_perFileByteLimit :: int
  ri_maxToolIterations :: int
  ri_toolTimeoutMS :: int
  ri_allowedTools :: "string list"
  ri_autoDelegate :: bool
  ri_delegationMode :: string
  ri_delegationApproved :: bool
  ri_decisionLedger :: "decision_ledger option"
  ri_onToolCall :: "(tool_record \<Rightarrow> 'w \<Rightarrow> string option \<times> 'w) option"
  ri_systemPromptExt ::
    "(string \<Rightarrow> chat_message list \<Rightarrow> string \<Rightarrow> tool_result list \<Rightarrow> string \<Rightarrow> 'w \<Rightarrow> string \<times> 'w) option"
  ri_onTextDelta :: bool

record model_request =
  mr_agentID :: string
  mr_runID :: string
  mr_systemPrompt :: string
  mr_messages :: "chat_message list"
  mr_allowedTools :: "string list"
  mr_toolTimeoutMS :: int
  mr_prompt :: string
  mr_message :: string
  mr_toolResults :: "tool_result list"

record model_response =
  mp_finalText :: string
  mp_thinking :: string
  mp_thinkingPresent :: bool
  mp_toolParseFailure :: bool
  mp_toolCalls :: "tool_call list"
  mp_promptTokens :: int

text \<open>
  \<open>map_order\<close> is the order in which Go happens to iterate over a map with the given keys,
  \<open>norm_url\<close> the URL normaliser of Run_Keys.
\<close>

record 'w runner =
  rn_toolExecutor :: "(tool_call \<Rightarrow> duration \<Rightarrow> 'w \<Rightarrow> (tool_result \<times> go_error option) \<times> 'w) option"
  rn_model :: "(model_request \<Rightarrow> 'w \<Rightarrow> (model_response \<times> go_error option) \<times> 'w) option"
  rn_promptAssembler :: "(artifact_doc list \<Rightarrow> int \<Rightarrow> string) option"
  rn_maxToolIterations :: int
  rn_subAgentRunner :: "(decomposed_task \<Rightarrow> 'w \<Rightarrow> (subagent_output \<times> go_error option) \<times> 'w) option"
  rn_ctxCanceled :: "'w \<Rightarrow> bool"
  rn_norm_url :: "string \<Rightarrow> string"
  rn_map_order :: "string list \<Rightarrow> string list"

section \<open>The state of a run\<close>

record run_state =
  out :: run_output
  runID :: string
  agentID :: string
  parentRunID :: string
  decisionLedger :: "decision_ledger option"
  messages :: "chat_message list"
  toolResults :: "tool_result list"
  toolIterations :: int
  toolCallOrdinal :: int
  usedToolCallIDs :: "(string, unit) gmap"
  cachedToolResults :: "(string, tool_result) gmap"
  cachedFailedToolResults :: "(string, tool_result) gmap"
  failedToolCallCounts :: "(string, int) gmap"
  failedToolCallErrors :: "(string, string) gmap"
  consecutiveToolFailures :: int
  failureRecoveryActive :: bool
  failuresSinceRecovery :: int
  successesSinceRecovery :: int
  toolTimeout :: duration
  noProgressIterations :: int
  allBlockedIterations :: int
  latestThinking :: string
  thinkingPresent :: bool
  toolParseFailure :: bool
  toolParseReprompts :: int
  followThroughReprompts :: int
  lastIterationMixed :: bool
  lastIterationSucceeded :: "string list"
  lastIterationFailed :: "string list"
  toolCap :: int
  successfulOneShotMutations :: "(string, unit) gmap"
  repetitionPrevention :: "(string, int) gmap"
  structuralBlockerCounts :: "(string, int) gmap"
  lastUncacheableOutputs :: "(string, string) gmap"
  lastPromptTokens :: int
  contextWindow :: int
  delegationMode :: delegation_mode
  delegationCooldown :: int
  delegationActive :: bool
  pendingSubtasks :: "decomposed_task list"
  completedSubtasks :: "(string, string) gmap"
  delegationArtifacts :: "(string, string) gmap"
  lastModelOutput :: string
  recentIntents :: "string list"
  toolRewriteCount :: int
  delegationLocked :: bool
  delegationReason :: string

section \<open>Prompt assembly and the initial state\<close>

definition truncateByBytes :: "string \<Rightarrow> int \<Rightarrow> string" where
  "truncateByBytes s limit = (if limit \<le> 0 \<or> int (length s) \<le> limit then s else take (nat limit) s)"

abbreviation nl :: string where "nl \<equiv> [CHR 0x0A]"

definition doc_section :: "int \<Rightarrow> artifact_doc \<Rightarrow> string" where
  "doc_section limit doc =
    (let content = truncateByBytes (doc_content doc) limit in
     ''## '' @ doc_name doc @ nl @ content @
     (if content \<noteq> [] \<and> last content \<noteq> CHR 0x0A then nl else []))"

definition assemblePrompt :: "artifact_doc list \<Rightarrow> int \<Rightarrow> string" where
  "assemblePrompt docs perFileByteLimit = join_with nl (map (doc_section perFileByteLimit) docs)"

definition wrap64 :: "int \<Rightarrow> int" where
  "wrap64 x = (x + 2 ^ 63) mod 2 ^ 64 - 2 ^ 63"

definition emptyOutput :: run_output where
  "emptyOutput = \<lparr>ro_prompt = [], ro_finalText = [], ro_thinking = [], ro_thinkingPresent = False,
     ro_toolParseFailure = False, ro_toolCalls = [], ro_decompositionPlan = None, ro_delegationEvents = []\<rparr>"

definition newRunState :: "'w run_input \<Rightarrow> 'w runner \<Rightarrow> run_state" where
  "newRunState input r =
    (let assembler = (case rn_promptAssembler r of Some f \<Rightarrow> f | None \<Rightarrow> assemblePrompt);
         toolCap' = ri_maxToolIterations input;
         toolCap' = (if toolCap' \<le> 0 then rn_maxToolIterations r else toolCap');
         toolCap' = (if toolCap' \<le> 0 then 120 else toolCap');
         msgs = (if ri_messages input = []
                 then [\<lparr>msg_role = ''user'', msg_content = ri_message input\<rparr>] else ri_messages input);
         timeout = wrap64 (ri_toolTimeoutMS input * time_millisecond);
         timeout = (if timeout \<le> 0 then 900 * time_second else timeout)
     in \<lparr>out = emptyOutput\<lparr>ro_prompt := assembler (ri_artifactDocs input) (ri_perFileByteLimit input)\<rparr>,
         runID = trim_space (ri_runID input), agentID = trim_space (ri_agentID input),
         parentRunID = trim_space (ri_parentRunID input), decisionLedger = ri_decisionLedger input,
         messages = msgs, toolResults = [], toolIterations = 0, toolCallOrdinal = 0,
         usedToolCallIDs = mempty, cachedToolResults = mempty, cachedFailedToolResults = mempty,
         failedToolCallCounts = mempty, failedToolCallErrors = mempty,
         consecutiveToolFailures = 0, failureRecoveryActive = False, failuresSinceRecovery = 0,
         successesSinceRecovery = 0, toolTimeout = timeout, noProgressIterations = 0,
         allBlockedIterations = 0, latestThinking = [], thinkingPresent = False, toolParseFailure = False,
         toolParseReprompts = 0, followThroughReprompts = 0, lastIterationMixed = False,
         lastIterationSucceeded = [], lastIterationFailed = [], toolCap = toolCap',
         successfulOneShotMutations = mempty, repetitionPrevention = mempty,
         structuralBlockerCounts = mempty, lastUncacheableOutputs = mempty, lastPromptTokens = 0,
         contextWindow = 120000, delegationMode = NoMode, delegationCooldown = 0,
         delegationActive = False, pendingSubtasks = [], completedSubtasks = mempty,
         delegationArtifacts = mempty, lastModelOutput = [], recentIntents = [], toolRewriteCount = 0,
         delegationLocked = False, delegationReason = []\<rparr>)"

end
