(* ===== verification/Run_Keys.thy ===== *)
theory Run_Keys
  imports Tool_Parse
begin

text \<open>
  The keys under which a run recognises repeated tool calls (internal/agent/run_state.go, the
  functions from extractAgentIDFromArgs to extractPathFromToolArgs): the repetition key with its
  cap, the key of a one-shot mutation and the key of the result cache. The arguments of a call are
  its JSON text, as in the code. net/url is not modelled: \<open>normalizeRequestURL\<close> has its parser and
  printer as arguments, and the cache key has the normaliser.
\<close>

section \<open>Small helpers\<close>

definition firstN :: "string \<Rightarrow> nat \<Rightarrow> string" where
  "firstN s n = (if n = 0 \<or> length s \<le> n then s else take n s)"

text \<open>Decoding into a map accepts an object and null, which leaves the map nil.\<close>

definition parseToolArgs :: "string \<Rightarrow> (string, json) gmap option" where
  "parseToolArgs args =
    (if args = [] then None
     else case unmarshal args of
        Some (JObj payload) \<Rightarrow> Some payload
      | Some JNull \<Rightarrow> Some mempty
      | _ \<Rightarrow> None)"

fun firstTrimmedStringFromMap :: "(string, json) gmap \<Rightarrow> string list \<Rightarrow> string" where
  "firstTrimmedStringFromMap values [] = []"
| "firstTrimmedStringFromMap values (key # keys) =
    (case mget values key of
       Some (JStr txt) \<Rightarrow> (let trimmed = trim_space txt in
          if trimmed \<noteq> [] then trimmed else firstTrimmedStringFromMap values keys)
     | _ \<Rightarrow> firstTrimmedStringFromMap values keys)"

definition extractPathFromToolArgs :: "string \<Rightarrow> string" where
  "extractPathFromToolArgs args =
    (case parseToolArgs args of None \<Rightarrow> []
     | Some payload \<Rightarrow> firstTrimmedStringFromMap payload [''path'', ''file'', ''target'', ''filename''])"

text \<open>The text between the quotes after the first quoted agent_id, without a JSON parse.\<close>

definition quoted_agent_id :: string where
  "quoted_agent_id = CHR 0x22 # ''agent_id'' @ [CHR 0x22]"

definition extractAgentIDFromArgs :: "string \<Rightarrow> string" where
  "extractAgentIDFromArgs args =
    (case index_of quoted_agent_id args of None \<Rightarrow> []
     | Some idx \<Rightarrow>
       (let rest = drop (idx + length quoted_agent_id) args;
            rest = dropWhile (\<lambda>c. c \<in> set [CHR '' '', CHR 0x09, CHR 0x0A, CHR 0x0D, CHR '':'']) rest
        in case rest of [] \<Rightarrow> []
           | c # rest \<Rightarrow> if c = CHR 0x22 then
                (case index_of [CHR 0x22] rest of None \<Rightarrow> [] | Some e \<Rightarrow> take e rest) else []))"

section \<open>Task ids and schedules\<close>

fun lane_scan :: "bool \<Rightarrow> bool \<Rightarrow> string \<Rightarrow> bool" where
  "lane_scan seenLetter seenDigit [] = (seenLetter \<and> seenDigit)"
| "lane_scan seenLetter seenDigit (r # rs) =
    (if CHR ''a'' \<le> r \<and> r \<le> CHR ''z'' then (if seenDigit then False else lane_scan True seenDigit rs)
     else if is_digit_char r then (if \<not> seenLetter then False else lane_scan seenLetter True rs)
     else False)"

definition looksLaneTaskID :: "string \<Rightarrow> bool" where
  "looksLaneTaskID value = lane_scan False False value"

text \<open>
  The regular expression of a retry suffix: a hyphen and then, to the end, v with digits, retry,
  continue, attempt with or without digits, redo or fix. No alternative holds a hyphen, so
  the only possible match starts at the last one.
\<close>

definition is_retry_suffix :: "string \<Rightarrow> bool" where
  "is_retry_suffix w =
    (prefix ''v'' w \<and> drop 1 w \<noteq> [] \<and> list_all is_digit_char (drop 1 w) \<or>
     w = ''retry'' \<or> w = ''continue'' \<or> w = ''redo'' \<or> w = ''fix'' \<or>
     prefix ''attempt'' w \<and> list_all is_digit_char (drop 7 w))"

definition strip_retry_suffix :: "string \<Rightarrow> string" where
  "strip_retry_suffix s =
    (let w = rev (takeWhile (\<lambda>c. c \<noteq> CHR ''-'') (rev s)) in
     if CHR ''-'' \<in> set s \<and> is_retry_suffix (to_lower w)
     then take (length s - length w - 1) s else s)"

definition normalizeTaskIDForRepetition :: "string \<Rightarrow> string" where
  "normalizeTaskIDForRepetition taskID =
    (let value = to_lower (trim_space taskID) in
     if value = [] then []
     else (let base = takeWhile (\<lambda>c. c \<notin> set ''-_. '') value in
       if base \<noteq> [] \<and> looksLaneTaskID (trim_space base) then trim_space base
       else if looksLaneTaskID value then value
       else strip_retry_suffix value))"

definition normalizeSchedulerScheduleForRepetition :: "string \<Rightarrow> string" where
  "normalizeSchedulerScheduleForRepetition schedule =
    (let trimmed = to_lower (trim_space schedule) in
     if trimmed \<in> set [''@hourly'', ''hourly'', ''0 * * * *''] then ''@every 1h''
     else if trimmed \<in> set [''@daily'', ''daily'', ''0 0 * * *''] then ''@every 24h''
     else trimmed)"

section \<open>One-shot mutations\<close>

definition bar :: "string list \<Rightarrow> string" where
  "bar parts = join_with ''|'' parts"

definition scheduler_add_key :: "string \<Rightarrow> (string, json) gmap \<Rightarrow> string option" where
  "scheduler_add_key name args =
    (let get = (\<lambda>ks. to_lower (firstTrimmedStringFromMap args ks));
         i = get [''id''] in
     if i = [] then
       (let schedule = normalizeSchedulerScheduleForRepetition (to_lower (trim_space
              (firstTrimmedStringFromMap args [''schedule''])));
            message = to_lower (trim_space (firstTrimmedStringFromMap args [''message'', ''prompt'', ''content'']));
            agentID = (if get [''agent_id''] = [] then ''default'' else get [''agent_id''])
        in if schedule = [] \<or> message = [] then None
           else Some (bar [name, ''semantic'', schedule, agentID, get [''channel''], get [''user_id''],
             get [''room_id''], get [''session_id''], firstN message 160]))
     else Some (bar [name, i]))"

definition oneShotMutationRepetitionKey :: "string \<Rightarrow> string \<Rightarrow> string option" where
  "oneShotMutationRepetitionKey rawName argsJSON =
    (case parseToolArgs argsJSON of None \<Rightarrow> None
     | Some args \<Rightarrow>
       (let name = trim_space rawName;
            get = (\<lambda>ks. to_lower (firstTrimmedStringFromMap args ks))
        in
        if name = ''scheduler.add'' then scheduler_add_key name args
        else if name \<in> set [''scheduler.remove'', ''scheduler.pause'', ''scheduler.resume''] then
          Some (bar [name, if get [''id''] = [] then ''global'' else get [''id'']])
        else if name \<in> set [''policy.grant'', ''policy.revoke''] then
          (let agentID = get [''agent_id'']; cap = get [''capability'', ''tool'']
           in if agentID = [] \<or> cap = [] then None else Some (bar [name, agentID, cap]))
        else if name = ''session.close'' then
          (let sessionID = get [''session_id'', ''id'']
           in if sessionID = [] then None else Some (bar [name, sessionID]))
        else if name = ''agent.switch'' then
          (let agentID = get [''agent_id'', ''id'', ''agent'']; scope = get [''scope'']
           in if agentID = [] then None
              else Some (bar [name, agentID, if scope = [] then ''both'' else scope]))
        else if name = ''agent.identity.set'' then
          (let agentID = (if get [''agent_id''] = [] then ''current'' else get [''agent_id'']);
               assistantName = to_lower (trim_space (firstTrimmedStringFromMap args [''assistant_name'']));
               userName = to_lower (trim_space (firstTrimmedStringFromMap args [''user_name'']))
           in if assistantName = [] \<or> userName = [] then None
              else Some (bar [name, agentID, assistantName, userName]))
        else if name = ''config.set'' then
          (case mget args ''updates'' of None \<Rightarrow> None
           | Some JNull \<Rightarrow> None
           | Some rawUpdates \<Rightarrow>
             (let dryRun = (to_lower (firstTrimmedStringFromMap args [''dry_run'', ''dryRun'']) = ''true'')
              in Some (bar [name, ''dry_run='' @ (if dryRun then ''true'' else ''false''), marshal rawUpdates])))
        else None))"

section \<open>The result cache\<close>

record url =
  u_scheme :: string
  u_host :: string
  u_path :: string
  u_query :: string
  u_fragment :: string

definition normalizeRequestURL ::
    "(string \<Rightarrow> url option) \<Rightarrow> (url \<Rightarrow> string) \<Rightarrow> string \<Rightarrow> string" where
  "normalizeRequestURL url_parse url_string raw =
    (let trimmed = trim_space raw in
     if trimmed = [] then []
     else case url_parse trimmed of
       None \<Rightarrow> to_lower trimmed
     | Some parsed \<Rightarrow>
       (let parsed = parsed\<lparr>u_scheme := to_lower (u_scheme parsed)\<rparr>;
            parsed = parsed\<lparr>u_host := to_lower (u_host parsed)\<rparr>;
            parsed = (if suffix '':80'' (u_host parsed) \<and> u_scheme parsed = ''http''
                      then parsed\<lparr>u_host := trim_suffix (u_host parsed) '':80''\<rparr> else parsed);
            parsed = (if suffix '':443'' (u_host parsed) \<and> u_scheme parsed = ''https''
                      then parsed\<lparr>u_host := trim_suffix (u_host parsed) '':443''\<rparr> else parsed);
            parsed = (if u_path parsed = [] then parsed\<lparr>u_path := ''/''\<rparr> else parsed);
            parsed = parsed\<lparr>u_fragment := []\<rparr>
        in url_string parsed))"

definition normalizedHTTPRequestCacheKey :: "(string \<Rightarrow> string) \<Rightarrow> string \<Rightarrow> string option" where
  "normalizedHTTPRequestCacheKey norm_url args =
    (case parseToolArgs args of None \<Rightarrow> None
     | Some payload \<Rightarrow>
       (let rawURL = firstTrimmedStringFromMap payload [''url'', ''uri'', ''endpoint''];
            m = to_upper (firstTrimmedStringFromMap payload [''method'']);
            m = (if m = [] then ''GET'' else m);
            body = firstTrimmedStringFromMap payload [''body'', ''data'', ''payload'']
        in if rawURL = [] then None else Some (bar [m, norm_url rawURL, firstN body 200])))"

definition normalizedMemoryWriteKey :: "string \<Rightarrow> string option" where
  "normalizedMemoryWriteKey args =
    (case parseToolArgs args of None \<Rightarrow> None
     | Some payload \<Rightarrow>
       (let title = firstTrimmedStringFromMap payload [''title'', ''name'', ''key''];
            content = firstTrimmedStringFromMap payload [''content'', ''summary'', ''text'', ''value''];
            kind = firstTrimmedStringFromMap payload [''kind'', ''type'']
        in if title = [] \<and> content = [] then None
           else Some (bar [to_lower kind, to_lower title, firstN (to_lower content) 160])))"

definition state_readers :: "string list" where
  "state_readers = [''scheduler.list'', ''policy.list'', ''config.get'', ''session.list'', ''agent.list'',
     ''run.list'', ''run.get'', ''metrics.get'']"

definition toolCallCacheKey :: "(string \<Rightarrow> string) \<Rightarrow> tool_call \<Rightarrow> string" where
  "toolCallCacheKey norm_url call =
    (let name = trim_space (tc_name call);
         fallback = bar [tc_name call, tc_arguments call] in
     if name = ''fs.list'' \<or> name = ''fs.read'' then ''|''
     else if name \<in> set state_readers then ''|''
     else if prefix ''becomussy.'' name then ''|''
     else if name = ''http.request'' \<or> name = ''net.fetch'' then
       (case normalizedHTTPRequestCacheKey norm_url (tc_arguments call) of
          Some key \<Rightarrow> bar [''http.request'', key] | None \<Rightarrow> fallback)
     else if name = ''memory.write'' then
       (case normalizedMemoryWriteKey (tc_arguments call) of
          Some key \<Rightarrow> bar [''memory.write'', key] | None \<Rightarrow> fallback)
     else fallback)"

section \<open>Repetition keys\<close>

definition repetitionCapForToolPath :: "string \<Rightarrow> string \<Rightarrow> int option" where
  "repetitionCapForToolPath toolName path =
    (let lower = to_lower (trim_space path);
         isJournalPath = (contains lower ''journal'' \<or> contains lower ''diary'');
         isBuildLogPath = contains lower ''build_log'';
         isSpecPath = (suffix ''_spec.md'' lower \<or> suffix ''/spec.md'' lower)
     in if toolName = ''fs.append'' then
          Some (if isBuildLogPath then 16 else if isJournalPath then 24 else 16)
        else if toolName = ''fs.write'' then
          Some (if isBuildLogPath then 6 else if isJournalPath then 4 else 12)
        else if toolName = ''fs.read'' then
          Some (if isBuildLogPath then 6 else if isSpecPath then 6 else if isJournalPath then 4 else 6)
        else None)"

text \<open>agent.message.send and agent.run: the addressee and the task, or else the start of the message.\<close>

definition addressee_key :: "string \<Rightarrow> string list \<Rightarrow> (string, json) gmap \<Rightarrow> (string \<times> int) option" where
  "addressee_key name agentKeys args =
    (let toAgent = firstTrimmedStringFromMap args agentKeys;
         taskID = normalizeTaskIDForRepetition (firstTrimmedStringFromMap args [''task_id'', ''taskId'']);
         message = firstTrimmedStringFromMap args [''message'', ''content'', ''text'', ''body'', ''prompt'']
     in if toAgent = [] then None
        else if taskID \<noteq> [] then Some (bar [name, toAgent, taskID], 1)
        else if message = [] then None
        else Some (bar [name, toAgent, firstN (to_lower message) 80], 1))"

definition path_key :: "string \<Rightarrow> string \<Rightarrow> (string \<times> int) option" where
  "path_key name args =
    (let path = extractPathFromToolArgs args in
     if path = [] then None
     else map_option (\<lambda>cap. (bar [name, path], cap)) (repetitionCapForToolPath name path))"

definition shell_key :: "string \<Rightarrow> string \<Rightarrow> (string \<times> int) option" where
  "shell_key name argsJSON =
    (case parseToolArgs argsJSON of None \<Rightarrow> None
     | Some args \<Rightarrow>
       (let command = firstTrimmedStringFromMap args [''command'', ''cmd''];
            cmdArgs = (case mget args ''args'' of Some rawArgs \<Rightarrow> marshal rawArgs | None \<Rightarrow> [])
        in Some (bar [name, command, firstN cmdArgs 120], 3)))"

definition repeatedCallRepetitionKey :: "tool_call \<Rightarrow> (string \<times> int) option" where
  "repeatedCallRepetitionKey call =
    (let name = trim_space (tc_name call); argsJSON = tc_arguments call;
         pathOrDot = (\<lambda>p. if p = [] then ''.'' else p) (extractPathFromToolArgs argsJSON) in
     case oneShotMutationRepetitionKey name argsJSON of
       Some key \<Rightarrow> Some (key, if name = ''agent.identity.set'' then 2 else 1)
     | None \<Rightarrow>
       if name = ''agent.message.send'' then
         Option.bind (parseToolArgs argsJSON) (addressee_key name
           [''to_agent_id'', ''agent_id'', ''target_agent'', ''targetAgent'', ''agentId''])
       else if name = ''agent.message.inbox'' then
         map_option (\<lambda>args. (let agentID = firstTrimmedStringFromMap args [''agent_id'', ''id'', ''agent'']
             in (bar [name, if agentID = [] then ''self'' else agentID], 2))) (parseToolArgs argsJSON)
       else if name = ''agent.run'' then
         Option.bind (parseToolArgs argsJSON) (addressee_key name
           [''agent_id'', ''to_agent_id'', ''target_agent'', ''targetAgent'', ''agentId''])
       else if name = ''memory.write'' then
         map_option (\<lambda>key. (bar [''memory.write'', key], 2)) (normalizedMemoryWriteKey argsJSON)
       else if name \<in> set state_readers then Some (name, 3)
       else if prefix ''becomussy.'' name then
         Some (bar [name, argsJSON],
           if suffix ''.create'' name \<or> suffix ''.propose'' name \<or> suffix ''.reinforce'' name then 2 else 6)
       else if name = ''fs.list'' then Some (bar [name, pathOrDot], 4)
       else if name = ''fs.mkdir'' then Some (bar [name, pathOrDot], 1)
       else if name \<notin> set [''fs.write'', ''fs.append'', ''fs.read'', ''shell.exec''] then None
       else if name = ''shell.exec'' then shell_key name argsJSON
       else path_key name argsJSON)"

end
