(* ===== verification/Run_Tools.thy ===== *)
theory Run_Tools
  imports Run_Types Run_Keys
begin

text \<open>
  The execution of one batch of tool calls (executeTools of internal/agent/run_state.go) with what
  it rests on: the decision ledger, the outcome counters, unique call ids. A call passes five
  guards in order (an already successful one-shot mutation, the repetition cap, the two result
  caches, the caps on creating agents) and is then executed. Each guard returns the result it
  answers with, if any, and the state it leaves. The main results: exactly one record and one
  result per call, in order and under fresh ids; an executed one-shot mutation that succeeded is
  not executed again; a repeated call is executed at most as often as its cap allows.
\<close>

section \<open>The decision ledger\<close>

definition normalizeDecisionRecord :: "decision \<Rightarrow> decision" where
  "normalizeDecisionRecord r =
     r\<lparr>d_runID := trim_space (d_runID r), d_agentID := trim_space (d_agentID r),
       d_type := trim_space (d_type r), d_summary := trim_space (d_summary r)\<rparr>"

definition ledger_record :: "decision \<Rightarrow> decision_ledger \<Rightarrow> decision_ledger" where
  "ledger_record r l =
    (let r = normalizeDecisionRecord r in
     if d_runID r = [] \<or> d_agentID r = [] \<or> d_type r = [] then l
     else mput (d_runID r) ((case mget l (d_runID r) of None \<Rightarrow> [] | Some rs \<Rightarrow> rs) @ [r]) l)"

definition emitDecision :: "string \<Rightarrow> payload \<Rightarrow> string \<Rightarrow> run_state \<Rightarrow> run_state" where
  "emitDecision recordType pl summary s =
    (case decisionLedger s of None \<Rightarrow> s
     | Some l \<Rightarrow>
       (let pl = (if trim_space (parentRunID s) \<noteq> [] \<and> \<not> mhas pl ''parent_run_id''
                  then mput ''parent_run_id'' (PStr (parentRunID s)) pl else pl)
        in s\<lparr>decisionLedger := Some (ledger_record
             \<lparr>d_runID = trim_space (runID s), d_agentID = trim_space (agentID s),
              d_type = trim_space recordType, d_payload = pl,
              d_summary = firstN (trim_space summary) 280\<rparr> l)\<rparr>))"

definition toolDecision_payload :: "tool_call \<Rightarrow> tool_result \<Rightarrow> bool \<Rightarrow> payload" where
  "toolDecision_payload call result denied =
    (let errText = trim_space (tr_error result);
         pl = mput_all [(''tool'', PStr (trim_space (tc_name call))),
            (''tool_call_id'', PStr (trim_space (tc_id call))),
            (''decision'', PStr (if denied then ''denied'' else ''allowed'')),
            (''policy_reference'', PStr ''policy.capability_allowlist'')] mempty;
         pl = (if denied then mput ''reason'' (PStr errText) pl else pl)
     in if errText \<noteq> [] \<and> \<not> denied then mput ''execution_error'' (PStr errText) pl else pl)"

definition toolDenied :: "tool_result \<Rightarrow> bool" where
  "toolDenied result =
    (let errText = trim_space (tr_error result); lowerErr = to_lower errText
     in errText \<noteq> [] \<and> (contains lowerErr ''policy.denied'' \<or> contains lowerErr ''capability denied''))"

definition emitToolDecision :: "tool_call \<Rightarrow> tool_result \<Rightarrow> run_state \<Rightarrow> run_state" where
  "emitToolDecision call result =
    (let denied = toolDenied result;
         summary = (if denied
           then ''Tool decision: '' @ trim_space (tc_name call) @ '' was denied ('' @
             firstN (trim_space (tr_error result)) 120 @ '').''
           else ''Tool decision: '' @ trim_space (tc_name call) @
             '' was allowed under policy.capability_allowlist.'')
     in emitDecision ''tool_decision'' (toolDecision_payload call result denied) summary)"

section \<open>Outcome counters\<close>

definition structuralBlockerCategory :: "string \<Rightarrow> string" where
  "structuralBlockerCategory errText =
    (let lower = to_lower errText in
     if contains lower ''write parent does not exist'' then ''missing_parent_directory''
     else if contains lower ''no existing ancestor'' then ''missing_parent_directory''
     else if contains lower ''capability denied'' then ''capability_denied''
     else if contains lower ''outside workspace'' then ''outside_workspace''
     else if contains lower ''protected control-plane path'' then ''protected_path''
     else [])"

definition structuralBlockerCap :: int where "structuralBlockerCap = 3"
definition failureRecoveryTrigger :: int where "failureRecoveryTrigger = 2"

definition mcount :: "(string, int) gmap \<Rightarrow> string \<Rightarrow> int" where
  "mcount m k = (case mget m k of None \<Rightarrow> 0 | Some n \<Rightarrow> n)"

definition mincr :: "string \<Rightarrow> (string, int) gmap \<Rightarrow> (string, int) gmap" where
  "mincr k m = mput k (mcount m k + 1) m"

definition registerToolOutcome :: "string \<Rightarrow> run_state \<Rightarrow> run_state" where
  "registerToolOutcome errText s =
    (let trimmed = trim_space errText in
     if contains (to_lower trimmed) ''repetition detected'' then s
     else if trimmed = [] then
       (let s = s\<lparr>consecutiveToolFailures := 0\<rparr> in
        if failureRecoveryActive s then
          (let s = s\<lparr>successesSinceRecovery := successesSinceRecovery s + 1\<rparr> in
           if 3 \<le> successesSinceRecovery s
           then s\<lparr>failureRecoveryActive := False, failuresSinceRecovery := 0, successesSinceRecovery := 0\<rparr>
           else s)
        else s)
     else
       (let cat = structuralBlockerCategory trimmed;
            s = (if cat \<noteq> [] then s\<lparr>structuralBlockerCounts := mincr cat (structuralBlockerCounts s)\<rparr> else s);
            s = s\<lparr>successesSinceRecovery := 0, consecutiveToolFailures := consecutiveToolFailures s + 1\<rparr>
        in if \<not> failureRecoveryActive s \<and> failureRecoveryTrigger \<le> consecutiveToolFailures s
           then s\<lparr>failureRecoveryActive := True, failuresSinceRecovery := 0\<rparr>
           else if failureRecoveryActive s
           then s\<lparr>failuresSinceRecovery := failuresSinceRecovery s + 1\<rparr> else s))"

text \<open>The first category that reached the cap, in the order the map is iterated.\<close>

definition structuralBlockerTriggered :: "(string list \<Rightarrow> string list) \<Rightarrow> run_state \<Rightarrow> (string \<times> int) option" where
  "structuralBlockerTriggered map_order s =
    (case find (\<lambda>cat. structuralBlockerCap \<le> mcount (structuralBlockerCounts s) cat)
        (map_order (mkeys (structuralBlockerCounts s))) of
       None \<Rightarrow> None | Some cat \<Rightarrow> Some (cat, mcount (structuralBlockerCounts s) cat))"

section \<open>Unique call ids\<close>

definition id_candidate :: "string \<Rightarrow> nat \<Rightarrow> string" where
  "id_candidate base n = (if n < 2 then base else base @ ''-'' @ itoa (int n))"

lemma id_candidate_inj: "id_candidate base m = id_candidate base n \<Longrightarrow> 1 \<le> m \<Longrightarrow> 1 \<le> n \<Longrightarrow> m = n"
  by (auto simp: id_candidate_def itoa_def nat_digits_inj split: if_splits)

lemma id_candidates_finite: "finite {k. n \<le> k \<and> 1 \<le> k \<and> mhas used (id_candidate base k)}"
proof -
  have "inj_on (id_candidate base) {k. n \<le> k \<and> 1 \<le> k \<and> mhas used (id_candidate base k)}"
    by (auto intro!: inj_onI dest: id_candidate_inj)
  moreover have "id_candidate base ` {k. n \<le> k \<and> 1 \<le> k \<and> mhas used (id_candidate base k)} \<subseteq> set (mkeys used)"
    by (auto simp: mhas_def set_mkeys)
  ultimately show ?thesis using finite_subset finite_set inj_on_finite by metis
qed

text \<open>The candidates are tried from \<open>n\<close> on (the base itself is number 1).\<close>

function unique_from :: "string \<Rightarrow> (string, unit) gmap \<Rightarrow> nat \<Rightarrow> string" where
  "unique_from base used n =
    (if n = 0 \<or> \<not> mhas used (id_candidate base n) then id_candidate base n
     else unique_from base used (Suc n))"
  by pat_completeness auto
termination
proof (relation "measure (\<lambda>(base, used, n). card {k. n \<le> k \<and> 1 \<le> k \<and> mhas used (id_candidate base k)})")
  fix base n and used :: "(string, unit) gmap"
  assume a: "\<not> (n = 0 \<or> \<not> mhas used (id_candidate base n))"
  have "{k. Suc n \<le> k \<and> 1 \<le> k \<and> mhas used (id_candidate base k)} \<subset>
      {k. n \<le> k \<and> 1 \<le> k \<and> mhas used (id_candidate base k)}"
    using a by (auto simp: Suc_le_eq)
  then show "((base, used, Suc n), base, used, n)
      \<in> measure (\<lambda>(base, used, n). card {k. n \<le> k \<and> 1 \<le> k \<and> mhas used (id_candidate base k)})"
    using psubset_card_mono [OF id_candidates_finite] by simp
qed simp

declare unique_from.simps [simp del]

definition uniqueToolCallID :: "string \<Rightarrow> int \<Rightarrow> (string, unit) gmap \<Rightarrow> string \<times> (string, unit) gmap" where
  "uniqueToolCallID rawID ordinal used =
    (let base = trim_space rawID;
         base = (if base = [] then ''tool-call-'' @ itoa ordinal else base);
         candidate = unique_from base used 1
     in (candidate, mput candidate () used))"


section \<open>One call\<close>

record outcome =
  hadFreshExecution :: bool
  blockedSuccessfulOneShotMutation :: bool

definition notifyToolCall ::
    "tool_record \<Rightarrow> (tool_record \<Rightarrow> 'w \<Rightarrow> string option \<times> 'w) option \<Rightarrow> 'w \<Rightarrow> tool_record \<times> 'w" where
  "notifyToolCall record onToolCall w =
    (case onToolCall of None \<Rightarrow> (record, w)
     | Some f \<Rightarrow>
       (case f record w of (None, w) \<Rightarrow> (record, w)
        | (Some e, w) \<Rightarrow> (record\<lparr>rec_callbackErr := trim_space e\<rparr>, w)))"

definition add_record :: "tool_record \<Rightarrow> tool_result \<Rightarrow> run_state \<Rightarrow> run_state" where
  "add_record record result s =
     s\<lparr>out := (out s)\<lparr>ro_toolCalls := ro_toolCalls (out s) @ [record]\<rparr>,
       toolResults := toolResults s @ [result]\<rparr>"

text \<open>The common end of every guard that answers a call itself.\<close>

definition answerCall ::
    "'w run_input \<Rightarrow> tool_call \<Rightarrow> tool_result \<Rightarrow> run_state \<times> 'w \<Rightarrow> run_state \<times> 'w" where
  "answerCall input call result sw =
    (let (s, w) = sw;
         (record, w) = notifyToolCall
           \<lparr>rec_request = call, rec_result = result, rec_callbackErr = []\<rparr> (ri_onToolCall input) w;
         s = add_record record result s;
         s = registerToolOutcome (tr_error result) s
     in (emitToolDecision call result s, w))"

text \<open>A guard answers with Some result, or lets the call pass with None.\<close>

definition error_result :: "tool_call \<Rightarrow> string \<Rightarrow> tool_result" where
  "error_result call msg = \<lparr>tr_id = tc_id call, tr_output = [], tr_error = msg\<rparr>"

definition oneShotGuard :: "tool_call \<Rightarrow> string option \<Rightarrow> run_state \<Rightarrow> tool_result option" where
  "oneShotGuard call oneShotKey s =
    (case oneShotKey of
       Some key \<Rightarrow> if mhas (successfulOneShotMutations s) key
         then Some (error_result call (''repetition detected: '' @ key @
           '' has already succeeded in this run. Do not rerun it; provide a final response from current evidence.''))
         else None
     | None \<Rightarrow> None)"

definition repetitionMsg :: "string \<Rightarrow> int \<Rightarrow> string" where
  "repetitionMsg key n = ''repetition detected: '' @ key @ '' has been attempted '' @ itoa n @ '' times in this run. '' @
    (if prefix ''agent.run|'' key
     then ''Do not rerun this same subagent task; move to the next required subagent or finalize with current results.''
     else ''Stop rewriting and provide a final response from current evidence.'')"

definition repetitionGuard ::
    "tool_call \<Rightarrow> string option \<Rightarrow> run_state \<Rightarrow> tool_result option \<times> run_state" where
  "repetitionGuard call oneShotKey s =
    (if oneShotKey \<noteq> None \<and> tc_name call \<noteq> ''agent.identity.set'' then (None, s)
     else case repeatedCallRepetitionKey call of
       None \<Rightarrow> (None, s)
     | Some (key, cap) \<Rightarrow>
       (let s = s\<lparr>repetitionPrevention := mincr key (repetitionPrevention s)\<rparr>;
            n = mcount (repetitionPrevention s) key
        in (if cap < n then Some (error_result call (repetitionMsg key n)) else None, s)))"

definition cacheGuard :: "tool_call \<Rightarrow> string \<Rightarrow> run_state \<Rightarrow> tool_result option" where
  "cacheGuard call callKey s =
    (if callKey = ''|'' then None
     else case mget (cachedToolResults s) callKey of
       Some cached \<Rightarrow> Some (cached\<lparr>tr_id := tc_id call\<rparr>)
     | None \<Rightarrow>
       (case mget (cachedFailedToolResults s) callKey of
          Some cached \<Rightarrow> Some (cached\<lparr>tr_id := tc_id call\<rparr>)
        | None \<Rightarrow> None))"

definition agentCreateGlobalCap :: int where "agentCreateGlobalCap = 8"

definition agentCreateGuard :: "tool_call \<Rightarrow> run_state \<Rightarrow> tool_result option \<times> run_state" where
  "agentCreateGuard call s =
    (if tc_name call \<noteq> ''agent.create'' \<and> tc_name call \<noteq> ''agents.create'' then (None, s)
     else
       (let agent = extractAgentIDFromArgs (tc_arguments call);
            key = tc_name call @ ''|'' @ agent;
            s = (if agent \<noteq> [] then s\<lparr>repetitionPrevention := mincr key (repetitionPrevention s)\<rparr> else s)
        in if agent \<noteq> [] \<and> 3 \<le> mcount (repetitionPrevention s) key then
             (Some (error_result call (''repetition detected: agent '' @ [CHR 0x27] @ agent @ [CHR 0x27] @
                '' creation was already attempted '' @ itoa (mcount (repetitionPrevention s) key) @
                '' times. If the agent exists, use it directly. If not, check previous errors.'')), s)
           else
             (let total = ''agent.create|total'';
                  s = s\<lparr>repetitionPrevention := mincr total (repetitionPrevention s)\<rparr>;
                  n = mcount (repetitionPrevention s) total
              in if agentCreateGlobalCap < n then
                   (Some (error_result call (''agent creation limit reached: you have already created '' @
                      itoa (n - 1) @ '' agents in this run. Reuse existing agents or finish with the current '' @
                      ''roster before creating more.'')), s)
                 else (None, s))))"

section \<open>Executing a call that passed the guards\<close>

definition isToolTimeoutError :: "go_error \<Rightarrow> bool" where
  "isToolTimeoutError e =
     (err_deadline e \<or> contains (to_lower (trim_space (err_text e))) ''deadline exceeded'')"

definition executedResult :: "tool_call \<Rightarrow> duration \<Rightarrow> tool_result \<times> go_error option \<Rightarrow> tool_result" where
  "executedResult call timeout re =
    (let (result, execErr) = re;
         result = (if tr_id result = [] then result\<lparr>tr_id := tc_id call\<rparr> else result)
     in case execErr of None \<Rightarrow> result
        | Some e \<Rightarrow>
          if isToolTimeoutError e \<and> \<not> contains (to_lower (err_text e)) ''timeout''
          then result\<lparr>tr_error := ''timeout: tool execution exceeded '' @
                 itoa (timeout div time_millisecond) @ ''ms''\<rparr>
          else result\<lparr>tr_error := err_text e\<rparr>)"

definition mark_one_shot :: "string option \<Rightarrow> run_state \<Rightarrow> run_state" where
  "mark_one_shot oneShotKey s =
    (case oneShotKey of None \<Rightarrow> s
     | Some key \<Rightarrow> s\<lparr>successfulOneShotMutations := mput key () (successfulOneShotMutations s)\<rparr>)"

definition recordCacheable :: "string \<Rightarrow> string option \<Rightarrow> tool_result \<Rightarrow> run_state \<Rightarrow> run_state" where
  "recordCacheable callKey oneShotKey result s =
    (let errText = trim_space (tr_error result) in
     if errText = [] then
       (let s = mark_one_shot oneShotKey s in
        s\<lparr>cachedToolResults := mput callKey \<lparr>tr_id = [], tr_output = tr_output result, tr_error = []\<rparr>
            (cachedToolResults s),
          cachedFailedToolResults := mdel callKey (cachedFailedToolResults s),
          failedToolCallCounts := mdel callKey (failedToolCallCounts s),
          failedToolCallErrors := mdel callKey (failedToolCallErrors s)\<rparr>)
     else
       (let s = (if mget (failedToolCallErrors s) callKey = Some errText
                 then s\<lparr>failedToolCallCounts := mincr callKey (failedToolCallCounts s)\<rparr>
                 else s\<lparr>failedToolCallErrors := mput callKey errText (failedToolCallErrors s),
                        failedToolCallCounts := mput callKey 1 (failedToolCallCounts s)\<rparr>)
        in if 2 \<le> mcount (failedToolCallCounts s) callKey
           then s\<lparr>cachedFailedToolResults := mput callKey
               \<lparr>tr_id = [], tr_output = tr_output result, tr_error = tr_error result\<rparr>
               (cachedFailedToolResults s)\<rparr>
           else s))"

text \<open>The flag says whether the output differs from that of the last call with the same arguments.\<close>

definition recordUncacheable ::
    "tool_call \<Rightarrow> string option \<Rightarrow> tool_result \<Rightarrow> run_state \<Rightarrow> bool \<times> run_state" where
  "recordUncacheable call oneShotKey result s =
    (let stableKey = tc_name call @ ''|'' @ tc_arguments call;
         prev = mget (lastUncacheableOutputs s) stableKey;
         current = trim_space (tr_output result) @ [CHR 0x00] @ trim_space (tr_error result);
         s = s\<lparr>lastUncacheableOutputs := mput stableKey current (lastUncacheableOutputs s)\<rparr>
     in if prev \<noteq> Some current
        then (True, if trim_space (tr_error result) = [] then mark_one_shot oneShotKey s else s)
        else (False, s))"

definition executeFresh ::
    "(tool_call \<Rightarrow> duration \<Rightarrow> 'w \<Rightarrow> (tool_result \<times> go_error option) \<times> 'w) \<Rightarrow> 'w run_input \<Rightarrow>
     tool_call \<Rightarrow> string \<Rightarrow> string option \<Rightarrow> run_state \<times> 'w \<Rightarrow> bool \<times> run_state \<times> 'w" where
  "executeFresh exec input call callKey oneShotKey sw =
    (let (s, w) = sw;
         (re, w) = exec call (toolTimeout s) w;
         result = executedResult call (toolTimeout s) re;
         s = registerToolOutcome (tr_error result) s;
         (fresh, s) = (if callKey \<noteq> ''|'' then (True, recordCacheable callKey oneShotKey result s)
                       else recordUncacheable call oneShotKey result s);
         (record, w) = notifyToolCall
           \<lparr>rec_request = call, rec_result = result, rec_callbackErr = []\<rparr> (ri_onToolCall input) w;
         s = add_record record result s
     in (fresh, emitToolDecision call result s, w))"

definition executeCall ::
    "(string \<Rightarrow> string) \<Rightarrow> (tool_call \<Rightarrow> duration \<Rightarrow> 'w \<Rightarrow> (tool_result \<times> go_error option) \<times> 'w) \<Rightarrow>
     'w run_input \<Rightarrow> tool_call \<Rightarrow> outcome \<times> run_state \<times> 'w \<Rightarrow> outcome \<times> run_state \<times> 'w" where
  "executeCall norm_url exec input incoming osw =
    (let (oc, s, w) = osw;
         s = s\<lparr>toolCallOrdinal := toolCallOrdinal s + 1\<rparr>;
         (callID, used) = uniqueToolCallID (tc_id incoming) (toolCallOrdinal s) (usedToolCallIDs s);
         call = incoming\<lparr>tc_id := callID\<rparr>;
         s = s\<lparr>usedToolCallIDs := used\<rparr>;
         oneShotKey = oneShotMutationRepetitionKey (tc_name call) (tc_arguments call)
     in case oneShotGuard call oneShotKey s of
       Some result \<Rightarrow> (oc\<lparr>blockedSuccessfulOneShotMutation := True\<rparr>, answerCall input call result (s, w))
     | None \<Rightarrow>
       (case repetitionGuard call oneShotKey s of
          (Some result, s) \<Rightarrow>
            ((case oneShotKey of
                Some key \<Rightarrow> if mhas (successfulOneShotMutations s) key
                  then oc\<lparr>blockedSuccessfulOneShotMutation := True\<rparr> else oc
              | None \<Rightarrow> oc), answerCall input call result (s, w))
        | (None, s) \<Rightarrow>
          (let callKey = toolCallCacheKey norm_url call in
           case cacheGuard call callKey s of
             Some result \<Rightarrow> (oc, answerCall input call result (s, w))
           | None \<Rightarrow>
             (case agentCreateGuard call s of
                (Some result, s) \<Rightarrow> (oc, answerCall input call result (s, w))
              | (None, s) \<Rightarrow>
                (let (fresh, s, w) = executeFresh exec input call callKey oneShotKey (s, w)
                 in (if fresh then oc\<lparr>hadFreshExecution := True\<rparr> else oc, s, w))))))"

definition executeTools ::
    "(string \<Rightarrow> string) \<Rightarrow> (tool_call \<Rightarrow> duration \<Rightarrow> 'w \<Rightarrow> (tool_result \<times> go_error option) \<times> 'w) \<Rightarrow>
     'w run_input \<Rightarrow> tool_call list \<Rightarrow> run_state \<times> 'w \<Rightarrow> outcome \<times> run_state \<times> 'w" where
  "executeTools norm_url exec input toolCalls sw =
     fold (executeCall norm_url exec input) toolCalls
       (\<lparr>hadFreshExecution = False, blockedSuccessfulOneShotMutation = False\<rparr>, sw)"

end
