(* ===== verification/Roles.thy ===== *)
theory Roles
  imports Go_Float Go_Json "HOL-Library.Product_Lexorder"
begin

text \<open>
  Delegation roles (internal/roles): templates and their normalisation, the store of built-in and
  custom roles, and the router that picks a role for a task description. Scores are float64 as in
  Go_Float. A description is read as ASCII: bytes from 0x80 on count as letters.
\<close>

section \<open>Templates\<close>

record role_template =
  rl_name :: string
  rl_description :: string
  rl_allowedTools :: "string list"
  rl_deniedTools :: "string list"
  rl_maxIterations :: int
  rl_timeoutMS :: int
  rl_memoryAccessScope :: string
  rl_writablePaths :: "string list"
  rl_promptContract :: string
  rl_outputSchema :: "(string, json) gmap"
  rl_handoffSchema :: "(string, json) gmap"
  rl_escalationRules :: "string list"
  rl_delegationPermissions :: "string list"
  rl_isBuiltin :: bool

datatype role_error =
    EmptyRoleName | EmptyAllowedTools | NegativeTimeout int
  | DuplicateRoleName string | RoleNotFound string | BuiltInRoleImmutable string

definition normalizeRoleName :: "string \<Rightarrow> string" where
  "normalizeRoleName name = to_lower (trim_space name)"

fun normalize_from :: "string list \<Rightarrow> string list \<Rightarrow> string list" where
  "normalize_from seen [] = []"
| "normalize_from seen (value # values) =
    (let trimmed = trim_space value in
     if trimmed = [] \<or> trimmed \<in> set seen then normalize_from seen values
     else trimmed # normalize_from (trimmed # seen) values)"

definition normalizeStringSlice :: "string list \<Rightarrow> string list" where
  "normalizeStringSlice values = normalize_from [] values"

definition validateRole :: "role_template \<Rightarrow> role_error option" where
  "validateRole r =
    (if trim_space (rl_name r) = [] then Some EmptyRoleName
     else if normalizeStringSlice (rl_allowedTools r) = [] then Some EmptyAllowedTools
     else if rl_timeoutMS r < 0 then Some (NegativeTimeout (rl_timeoutMS r))
     else None)"

definition normalizeTemplate :: "role_template \<Rightarrow> bool \<Rightarrow> role_error + role_template" where
  "normalizeTemplate t builtIn =
    (let n = t\<lparr>rl_name := normalizeRoleName (rl_name t), rl_description := trim_space (rl_description t),
         rl_allowedTools := normalizeStringSlice (rl_allowedTools t),
         rl_deniedTools := normalizeStringSlice (rl_deniedTools t),
         rl_memoryAccessScope := trim_space (rl_memoryAccessScope t),
         rl_writablePaths := normalizeStringSlice (rl_writablePaths t),
         rl_promptContract := trim_space (rl_promptContract t),
         rl_escalationRules := normalizeStringSlice (rl_escalationRules t),
         rl_delegationPermissions := normalizeStringSlice (rl_delegationPermissions t),
         rl_isBuiltin := builtIn\<rparr>
     in case validateRole n of Some e \<Rightarrow> Inl e | None \<Rightarrow> Inr n)"

definition builtin_role ::
    "string \<Rightarrow> string \<Rightarrow> string list \<Rightarrow> int \<Rightarrow> int \<Rightarrow> string \<Rightarrow> string list \<Rightarrow> string \<Rightarrow> string list \<Rightarrow>
     string list \<Rightarrow> role_template" where
  "builtin_role name desc allowed iters timeout scope paths contract rules perms =
    \<lparr>rl_name = name, rl_description = desc, rl_allowedTools = allowed, rl_deniedTools = [],
     rl_maxIterations = iters, rl_timeoutMS = timeout, rl_memoryAccessScope = scope,
     rl_writablePaths = paths, rl_promptContract = contract,
     rl_outputSchema = [(''type'', JStr ''object'')], rl_handoffSchema = [(''type'', JStr ''object'')],
     rl_escalationRules = rules, rl_delegationPermissions = perms, rl_isBuiltin = True\<rparr>"

definition builtIns :: "role_template list" where
  "builtIns =
    [
     builtin_role ''scout''
       ''Discovery specialist for read-only workspace and web reconnaissance.''
       [''fs.list'', ''fs.read'', ''fs.search'', ''web.get''] 20 120000
       ''read_only'' []
       ''Collect evidence and summarize findings without mutating files.''
       [''Escalate when required sources are unavailable or conflicting.'']
       [],
     builtin_role ''planner''
       ''Decomposition specialist for planning and sequencing delegated tasks.''
       [''fs.list'', ''fs.read'', ''fs.search'', ''web.get'', ''task.decompose'', ''task.plan''] 30 120000
       ''summary'' []
       ''Break work into clear task nodes with dependencies and success criteria.''
       [''Escalate when task goals are ambiguous or contradictory.'']
       [''scout'', ''implementer'', ''verifier'', ''reviewer'', ''operator''],
     builtin_role ''implementer''
       ''Execution specialist for patching code and running shell workflows.''
       [''fs.list'', ''fs.read'', ''fs.search'', ''fs.write'',
         ''fs.append'', ''fs.delete'', ''fs.move'', ''fs.edit'', ''fs.mkdir'', ''shell.exec''] 100 120000
       ''workspace'' [''workspace/**'']
       ''Apply minimal safe changes and report precise diffs.''
       [''Escalate if required write scope exceeds writable paths.'']
       [''scout'', ''verifier'', ''reviewer''],
     builtin_role ''verifier''
       ''Validation specialist for running checks, tests, and evidence gathering.''
       [''fs.list'', ''fs.read'', ''fs.search'', ''web.get'', ''test.run'', ''check.run'', ''check.lint''] 50 120000
       ''read_only'' []
       ''Verify expected behavior with reproducible checks and clear pass/fail evidence.''
       [''Escalate when validation prerequisites are unavailable.'']
       [],
     builtin_role ''reviewer''
       ''Risk and quality specialist for critical review and audit feedback.''
       [''fs.list'', ''fs.read'', ''fs.search'', ''web.get'', ''decision.log''] 30 120000
       ''summary'' []
       ''Assess correctness, safety, and maintainability; provide actionable findings.''
       [''Escalate when findings indicate blocking production risk.'']
       [],
     builtin_role ''operator''
       ''Control-plane specialist for guarded configuration and policy operations.''
       [''config.get'', ''config.set''] 10 120000
       ''none'' []
       ''Operate only on approved configuration surfaces and preserve safety defaults.''
       [''Escalate before making high-impact policy changes.'']
       []
    ]"

text \<open>An invalid built-in role is a panic in the code; \<open>builtIns_valid\<close> shows there is none.\<close>

definition builtInTemplates :: "role_template list" where
  "builtInTemplates = concat (map (\<lambda>t. case normalizeTemplate t True of Inr n \<Rightarrow> [n] | Inl _ \<Rightarrow> []) builtIns)"

section \<open>The store\<close>

record role_store =
  rs_builtIn :: "(string, role_template) gmap"
  rs_custom :: "(string, role_template) gmap"

definition add_checked :: "role_template \<Rightarrow> role_store \<Rightarrow> role_error + role_store" where
  "add_checked n s =
    (if mhas (rs_builtIn s) (rl_name n) \<or> mhas (rs_custom s) (rl_name n)
     then Inl (DuplicateRoleName (rl_name n))
     else Inr (s\<lparr>rs_custom := mput (rl_name n) n (rs_custom s)\<rparr>))"

definition createCustom :: "role_template \<Rightarrow> role_store \<Rightarrow> role_error + role_store" where
  "createCustom t s = (case normalizeTemplate t False of Inl e \<Rightarrow> Inl e | Inr n \<Rightarrow> add_checked n s)"

fun add_customs :: "role_template list \<Rightarrow> role_store \<Rightarrow> role_error + role_store" where
  "add_customs [] s = Inr s"
| "add_customs (t # ts) s = (case createCustom t s of Inl e \<Rightarrow> Inl e | Inr s' \<Rightarrow> add_customs ts s')"

definition newRoleStore :: "role_template list \<Rightarrow> role_error + role_store" where
  "newRoleStore customTemplates = add_customs customTemplates
     \<lparr>rs_builtIn = mput_all (map (\<lambda>t. (rl_name t, t)) builtInTemplates) mempty, rs_custom = mempty\<rparr>"

definition listRoles :: "role_store \<Rightarrow> role_template list" where
  "listRoles s = sort_key rl_name (mvals (rs_builtIn s) @ mvals (rs_custom s))"

definition customRoles :: "role_store \<Rightarrow> role_template list" where
  "customRoles s = sort_key rl_name (mvals (rs_custom s))"

definition getRole :: "string \<Rightarrow> role_store \<Rightarrow> role_template option" where
  "getRole name s =
    (let n = normalizeRoleName name in
     if n = [] then None
     else case mget (rs_builtIn s) n of Some t \<Rightarrow> Some t | None \<Rightarrow> mget (rs_custom s) n)"

definition updateCustom :: "role_template \<Rightarrow> role_store \<Rightarrow> role_error + role_store" where
  "updateCustom t s =
    (case normalizeTemplate t False of Inl e \<Rightarrow> Inl e
     | Inr n \<Rightarrow>
       if mhas (rs_builtIn s) (rl_name n) then Inl (BuiltInRoleImmutable (rl_name n))
       else if \<not> mhas (rs_custom s) (rl_name n) then Inl (RoleNotFound (rl_name n))
       else Inr (s\<lparr>rs_custom := mput (rl_name n) n (rs_custom s)\<rparr>))"

definition deleteRole :: "string \<Rightarrow> role_store \<Rightarrow> role_error + role_store" where
  "deleteRole name s =
    (let n = normalizeRoleName name in
     if n = [] then Inl (RoleNotFound [])
     else if mhas (rs_builtIn s) n then Inl (BuiltInRoleImmutable n)
     else if \<not> mhas (rs_custom s) n then Inl (RoleNotFound n)
     else Inr (s\<lparr>rs_custom := mdel n (rs_custom s)\<rparr>))"

section \<open>The router\<close>

record route_selection =
  sel_roleName :: string
  sel_template :: role_template
  sel_confidence :: rat
  sel_rationale :: string

record route_category =
  cat_roleName :: string
  cat_keywords :: "string list"
  cat_structureCues :: "string list"

record route_score =
  sc_roleName :: string
  sc_score :: rat
  sc_hits :: nat
  sc_totalTokens :: nat
  sc_matched :: "string list"
  sc_structureCue :: bool

definition routeCategories :: "route_category list" where
  "routeCategories = map (\<lambda>(r, ks, cs). \<lparr>cat_roleName = r, cat_keywords = ks, cat_structureCues = cs\<rparr>)
    [(''scout'', [''read'', ''search'', ''discover''], [''find'', ''inspect'', ''list'', ''explore'']),
     (''planner'', [''plan'', ''decompose'', ''design''], [''steps'', ''phases'', ''roadmap'', ''strategy'']),
     (''implementer'', [''write'', ''implement'', ''fix'', ''patch''],
        [''change'', ''modify'', ''update'', ''code'', ''file'']),
     (''verifier'', [''test'', ''verify'', ''check'', ''validate''],
        [''assert'', ''coverage'', ''regression'', ''pass'']),
     (''reviewer'', [''review'', ''critique'', ''audit''], [''risk'', ''security'', ''quality'', ''finding'']),
     (''operator'', [''configure'', ''setup'', ''settings''],
        [''config'', ''policy'', ''environment'', ''runtime''])]"

type_synonym router = "(string, role_template) gmap"

definition newRouter :: "role_template list \<Rightarrow> router" where
  "newRouter templates =
    (let templates = (if templates = [] then builtInTemplates else templates);
         resolved = mput_all (filter (\<lambda>(n, t). n \<noteq> [])
            (map (\<lambda>t. (normalizeRoleName (rl_name t), t)) templates)) mempty
     in if mkeys resolved = [] then mput_all (map (\<lambda>t. (rl_name t, t)) builtInTemplates) mempty else resolved)"

definition templateForRole :: "router \<Rightarrow> string \<Rightarrow> role_template option" where
  "templateForRole r roleName = mget r (normalizeRoleName roleName)"

definition is_word_byte :: "char \<Rightarrow> bool" where
  "is_word_byte c = (let n = of_char c :: nat in
     48 \<le> n \<and> n \<le> 57 \<or> 65 \<le> n \<and> n \<le> 90 \<or> 97 \<le> n \<and> n \<le> 122 \<or> 128 \<le> n)"

function words_of :: "string \<Rightarrow> string list" where
  "words_of s =
    (case dropWhile (\<lambda>c. \<not> is_word_byte c) s of [] \<Rightarrow> []
     | c # r \<Rightarrow> (c # takeWhile is_word_byte r) # words_of (dropWhile is_word_byte r))"
  by pat_completeness auto
termination
proof (relation "measure length")
  fix s r :: string and c
  assume a: "dropWhile (\<lambda>c. \<not> is_word_byte c) s = c # r"
  have "length (dropWhile is_word_byte r) \<le> length r" by (rule length_dropWhile_le)
  also have "\<dots> < length (c # r)" by simp
  also have "\<dots> \<le> length s" using length_dropWhile_le [of "\<lambda>c. \<not> is_word_byte c" s] a by simp
  finally show "(dropWhile is_word_byte r, s) \<in> measure length" by simp
qed simp

declare words_of.simps [simp del]

definition tokenize :: "string \<Rightarrow> string list" where
  "tokenize txt =
    filter (\<lambda>p. p \<noteq> []) (map trim_space (words_of (to_lower (trim_space txt))))"

definition tokenMatchesKeyword :: "string \<Rightarrow> string \<Rightarrow> bool" where
  "tokenMatchesKeyword token keyword =
    (let token = trim_space (to_lower token); keyword = trim_space (to_lower keyword) in
     if token = [] \<or> keyword = [] then False else token = keyword \<or> prefix keyword token)"

text \<open>The keyword each token counts for: the first that matches it.\<close>

definition token_hit :: "string list \<Rightarrow> string \<Rightarrow> string option" where
  "token_hit keywords token = find (tokenMatchesKeyword token) keywords"

fun first_hit :: "int \<Rightarrow> string option list \<Rightarrow> int" where
  "first_hit i [] = -1"
| "first_hit i (h # hs) = (if h \<noteq> None then i else first_hit (i + 1) hs)"

definition keywordStats :: "string list \<Rightarrow> string list \<Rightarrow> nat \<times> string list \<times> int" where
  "keywordStats tokens keywords =
    (let hits = map (token_hit keywords) tokens;
         found = List.map_filter id hits
     in (length found, sort (remdups found), first_hit 0 hits))"

definition hasStructureCue :: "string list \<Rightarrow> string list \<Rightarrow> bool" where
  "hasStructureCue tokens cues = list_ex (\<lambda>t. list_ex (tokenMatchesKeyword t) cues) tokens"

definition clamp :: "rat \<Rightarrow> rat \<Rightarrow> rat \<Rightarrow> rat" where
  "clamp value minVal maxVal = (if value < minVal then minVal else if maxVal < value then maxVal else value)"

definition scoreCategory :: "string list \<Rightarrow> route_category \<Rightarrow> route_score" where
  "scoreCategory tokens category =
    (let (hits, matched, firstMatchPos) = keywordStats tokens (cat_keywords category);
         structureCue = hasStructureCue tokens (cat_structureCues category);
         base = fmul (of_nat hits) (fl (20 / 100));
         densityBonus = fmul (fdiv (of_nat hits) (of_nat (length tokens))) (fl (45 / 100));
         leadBonus = (if 0 \<le> firstMatchPos \<and> firstMatchPos \<le> 2 then fl (18 / 100) else 0);
         structureBonus = (if structureCue then fl (12 / 100) else 0)
     in \<lparr>sc_roleName = cat_roleName category,
         sc_score = clamp (fadd (fadd (fadd base densityBonus) leadBonus) structureBonus)
           (fl (5 / 100)) (fl (99 / 100)),
         sc_hits = hits, sc_totalTokens = length tokens, sc_matched = matched, sc_structureCue = structureCue\<rparr>)"

definition fallbackSelection :: "router \<Rightarrow> string \<Rightarrow> route_selection" where
  "fallbackSelection r reason =
    (let template = (case templateForRole r ''implementer'' of Some t \<Rightarrow> t
           | None \<Rightarrow> (case find (\<lambda>t. rl_name t = ''implementer'') builtInTemplates of Some t \<Rightarrow> t
             | None \<Rightarrow> (builtin_role ''implementer'' [] [''fs.read''] 1 60000 [] [] [] [] [])
                 \<lparr>rl_outputSchema := mempty, rl_handoffSchema := mempty, rl_isBuiltin := False\<rparr>))
     in \<lparr>sel_roleName = rl_name template, sel_template = template, sel_confidence = fl (20 / 100),
         sel_rationale = trim_space reason @ ''; fallback role is implementer''\<rparr>)"

definition rank :: "route_score \<Rightarrow> rat \<times> int \<times> string" where
  "rank sc = (- sc_score sc, - int (sc_hits sc), sc_roleName sc)"

definition routeRationale :: "route_score \<Rightarrow> string" where
  "routeRationale b =
    ''matched role '' @ [CHR 0x22] @ sc_roleName b @ [CHR 0x22] @ '' via keywords ['' @ join_with '', '' (sc_matched b) @
    ''] ('' @ itoa (int (sc_hits b)) @ ''/'' @ itoa (int (sc_totalTokens b)) @ '' tokens, density '' @
    fmt2 (fdiv (of_nat (sc_hits b)) (of_nat (sc_totalTokens b))) @ '')'' @
    (if sc_structureCue b then ''; task structure cues reinforced this route'' else [])"

definition route :: "router \<Rightarrow> string \<Rightarrow> route_selection" where
  "route r taskDescription =
    (let tokens = tokenize taskDescription in
     if tokens = [] then fallbackSelection r ''task description has no routable keywords''
     else
      (case sort_key rank (filter (\<lambda>sc. sc_hits sc \<noteq> 0) (map (scoreCategory tokens) routeCategories)) of
         [] \<Rightarrow> fallbackSelection r ''no role keywords matched; using implementer fallback''
       | b # others \<Rightarrow>
         if (case others of [] \<Rightarrow> False
             | second # _ \<Rightarrow> \<bar>fsub (sc_score b) (sc_score second)\<bar> < fl (8 / 100) \<and> sc_hits b = sc_hits second)
         then fallbackSelection r (''ambiguous match between '' @ sc_roleName b @ '' and '' @
                sc_roleName (hd others) @ ''; using implementer fallback'')
         else case templateForRole r (sc_roleName b) of
            None \<Rightarrow> fallbackSelection r (''role template '' @ [CHR 0x22] @ sc_roleName b @ [CHR 0x22] @
                '' not found; using implementer fallback'')
          | Some template \<Rightarrow>
              \<lparr>sel_roleName = rl_name template, sel_template = template,
               sel_confidence = clamp (sc_score b) (fl (5 / 100)) (fl (99 / 100)),
               sel_rationale = routeRationale b\<rparr>))"

end
