(* ===== verification/Delegation.thy ===== *)
theory Delegation
  imports Run_Tools Roles
begin

text \<open>
  Delegation (internal/agent/complexity.go, decomposer.go, planner.go and the delegation half of
  runner.go): how stuck a run is, whether that triggers delegation, the subtasks it is split into,
  the plan with its roles, the dependency order of the subtasks and their execution by the
  sub-agent runner. The five regular expressions of the decomposer are hand-written matchers over
  lower-cased ASCII. A comparison of the token ratio with 0.75, 0.85 or 0.92 is done on integers:
  for the context window of 120000 the float64 quotient compares the same way.
\<close>

section \<open>Complexity\<close>

record complexity_score =
  cs_level :: int
  cs_totalScore :: int
  cs_iterationScore :: int
  cs_progressScore :: int
  cs_failureScore :: int
  cs_blockedScore :: int
  cs_loopScore :: int
  cs_contextScore :: int
  cs_triggers :: "string list"

record snapshot =
  sn_lastToolAttempted :: string
  sn_lastErrorTypes :: "string list"
  sn_lastModelOutput :: string
  sn_askedUserQuestion :: bool

text \<open>A score and the trigger it adds.\<close>

definition failure_signal :: "run_state \<Rightarrow> int \<times> string list" where
  "failure_signal s =
    (if 3 \<le> consecutiveToolFailures s then (3, [''failures>=3''])
     else if 2 \<le> consecutiveToolFailures s then (2, [''failures>=2'']) else (0, []))"

definition progress_signal :: "run_state \<Rightarrow> int \<times> string list" where
  "progress_signal s = (if 2 \<le> noProgressIterations s then (2, [''no_progress>=2'']) else (0, []))"

definition blocked_signal :: "run_state \<Rightarrow> int \<times> string list" where
  "blocked_signal s = (if 1 \<le> allBlockedIterations s then (3, [''all_blocked>=1'']) else (0, []))"

definition loop_signal :: "(string list \<Rightarrow> string list) \<Rightarrow> run_state \<Rightarrow> int \<times> string list" where
  "loop_signal map_order s =
    (case find (\<lambda>key. 2 \<le> mcount (repetitionPrevention s) key) (map_order (mkeys (repetitionPrevention s))) of
       Some key \<Rightarrow> (2, [''repetition:'' @ key]) | None \<Rightarrow> (0, []))"

definition context_signal :: "int \<Rightarrow> int \<Rightarrow> int \<times> string list" where
  "context_signal promptTokens window =
    (if window \<le> 0 then (0, [])
     else if 92 * window \<le> 100 * promptTokens then (3, [''context>92%''])
     else if 85 * window \<le> 100 * promptTokens then (2, [''context>85%''])
     else if 75 * window \<le> 100 * promptTokens then (1, [''context>75%'']) else (0, []))"

definition iteration_signal :: "run_state \<Rightarrow> int \<times> string list" where
  "iteration_signal s =
    (if 120 \<le> toolIterations s then (3, [''iterations>=120''])
     else if 80 \<le> toolIterations s then (2, [''iterations>=80''])
     else if 40 \<le> toolIterations s then (1, [''iterations>=40'']) else (0, []))"

definition complexity_level :: "int \<Rightarrow> int \<Rightarrow> int" where
  "complexity_level tot blocked =
    (if 3 \<le> blocked \<and> 4 \<le> tot then 3 else if 6 \<le> tot then 3
     else if 4 \<le> tot \<or> 3 \<le> blocked then 2 else if 2 \<le> tot then 1 else 0)"

definition computeComplexity ::
    "(string list \<Rightarrow> string list) \<Rightarrow> run_state \<Rightarrow> int \<Rightarrow> int \<Rightarrow> complexity_score" where
  "computeComplexity map_order s promptTokens window =
    (let (f, tf) = failure_signal s; (p, tp) = progress_signal s; (b, tb) = blocked_signal s;
         (l, tl') = loop_signal map_order s; (c, tc) = context_signal promptTokens window;
         (i, ti) = iteration_signal s;
         tot = f + p + b + l + c + i
     in \<lparr>cs_level = complexity_level tot b, cs_totalScore = tot, cs_iterationScore = i,
         cs_progressScore = p, cs_failureScore = f, cs_blockedScore = b, cs_loopScore = l,
         cs_contextScore = c, cs_triggers = tf @ tp @ tb @ tl' @ tc @ ti\<rparr>)"

definition delegationTools :: "string list" where
  "delegationTools = [''agent.list'', ''agent.run'']"

definition shouldTriggerDelegation :: "complexity_score \<Rightarrow> snapshot \<Rightarrow> delegation_trigger option" where
  "shouldTriggerDelegation score sn =
    (let trigger = (\<lambda>mode tools cooldown. \<lparr>tg_mode = mode, tg_reason = join_with '', '' (cs_triggers score),
           tg_subtasks = [], tg_allowedTools = tools, tg_cooldownFor = cooldown\<rparr>)
     in if sn_askedUserQuestion sn \<and> cs_level score < 3 then None
        else if cs_level score = 3 then Some (trigger AutoExecute delegationTools 20)
        else if cs_level score = 2 then Some (trigger ToolGated delegationTools 15)
        else if cs_level score = 1 then Some (trigger PromptOnly [] 10)
        else None)"

definition detectUserQuestion :: "string \<Rightarrow> bool" where
  "detectUserQuestion output = list_ex (contains (to_lower output))
     [''which option'', ''do you want'', ''should i'', ''would you prefer'', ''please confirm'',
      ''please provide'', ''what is your'', ''can you clarify'', ''i need more information'',
      ''unable to proceed without'']"

section \<open>Decomposition\<close>

definition delegated ::
    "string \<Rightarrow> string \<Rightarrow> string list \<Rightarrow> string list \<Rightarrow> string list \<Rightarrow> int \<Rightarrow> int \<Rightarrow> decomposed_task" where
  "delegated taskID msg crit deps produces prio timeout =
    \<lparr>dt_taskID = taskID, dt_parentRunID = [], dt_agentID = ''default'', dt_message = msg,
     dt_acceptanceCrit = crit, dt_dependsOn = deps, dt_produces = produces, dt_priority = prio,
     dt_timeoutMS = timeout, dt_thinkingMode = [], dt_assignedRole = [], dt_routingConfidence = 0,
     dt_routingRationale = [], dt_roleAllowedTools = [], dt_roleMaxToolIterations = 0, dt_roleTimeoutMS = 0\<rparr>"

definition getFirstError :: "string list \<Rightarrow> string" where
  "getFirstError errors = (case errors of e # _ \<Rightarrow> e | [] \<Rightarrow> ''unknown'')"

definition unblockTasks :: "snapshot \<Rightarrow> decomposed_task list" where
  "unblockTasks sn =
     [
      delegated ''unblock-diagnose''
        (''Current execution is blocked. Analyze this blocker: '' @ getFirstError (sn_lastErrorTypes sn) @ ''. Identify: 1) what is blocking progress, 2) the best alternative approaches, 3) missing inputs or permissions, 4) the next action with the highest chance of success.'')
        [''Blocker identified'', ''Alternatives proposed''] [] [] 1 45000,
      delegated ''unblock-resolve''
        ''Based on the diagnosis, execute the best alternative approach. Prefer forward progress over repeated failed attempts, and report the result or the next concrete blocker.''
        [] [''unblock-diagnose''] [] 2 60000]"

definition failureLoopTasks :: "snapshot \<Rightarrow> decomposed_task list" where
  "failureLoopTasks sn =
     [
      delegated ''failure-analyze''
        (''Analyze the repeated failure loop. Last tool: '' @ sn_lastToolAttempted sn @ ''. Recent errors: '' @ join_with '', '' (sn_lastErrorTypes sn) @ ''. Explain the likely root cause, why the current approach is failing, and propose a materially different next approach.'')
        [''Root cause found'', ''Alternative proposed''] [] [] 1 30000,
      delegated ''failure-retry''
        ''Execute the proposed alternative approach. Do not repeat the same failing action without a material change in method, inputs, or permissions.''
        [] [''failure-analyze''] [] 2 60000]"

definition contextPressureTasks :: "decomposed_task list" where
  "contextPressureTasks =
     [
      delegated ''context-summarize''
        ''Summarize current progress under context pressure. Output only concise findings covering: 1) what has already been done, 2) what is still pending, 3) the single next atomic step with highest value.''
        [''Progress summarized'', ''Next step identified''] [] [''progress_summary''] 1 20000,
      delegated ''context-continue''
        ''Execute only the single next atomic step identified in the summary. Do not broaden scope, and stop after producing a concrete result for that step.''
        [] [''context-summarize''] [] 2 45000]"

definition genericTasks :: "decomposed_task list" where
  "genericTasks =
     [
      delegated ''generic-assess''
        ''Assess the current task state. Identify: 1) what still needs to be done, 2) the smallest next step that makes real progress, 3) any immediate blocker or assumption.''
        [] [] [] 1 20000,
      delegated ''generic-execute''
        ''Execute the smallest next step identified in the assessment. Prefer concrete progress and report the exact result.''
        [] [''generic-assess''] [] 2 45000]"

definition parallelFilesTasks :: "string \<Rightarrow> decomposed_task list" where
  "parallelFilesTasks msg =
     [
      delegated ''phase-1-discover''
        (''Identify every workspace file that likely needs modification for this request: '' @ msg @ ''. Return ONLY a JSON array of relative file paths, ordered by implementation priority. Do not include commentary or markdown.'')
        [''Valid JSON array'', ''File paths are relative to workspace''] [] [''file_list''] 1 30000,
      delegated ''phase-2-implement''
        ''Implement the requested changes using the file list from phase-1. Modify only files required for the task, verify the changed behavior with the smallest relevant check, and report files changed plus any remaining risk.''
        [''All files modified'', ''Changes compile/run''] [''phase-1-discover''] [] 2 120000]"

definition phasedAnalysisTasks :: "decomposed_task list" where
  "phasedAnalysisTasks =
     [
      delegated ''phase-1-structure''
        ''Analyze the project structure for the current task. Return only concise findings covering: 1) directory tree (top 3 levels max), 2) main entry points, 3) detected tech stack, 4) the most relevant modules to inspect next.''
        [''Directory structure'', ''Entry points listed'', ''Tech stack identified''] [] [''project_structure''] 1 45000,
      delegated ''phase-2-deep''
        ''Based on phase-1, analyze only the most relevant core modules. Explain architecture patterns, key dependencies, and main data flow, and call out the highest-risk or highest-leverage areas.''
        [] [''phase-1-structure''] [''architecture_analysis''] 2 60000,
      delegated ''phase-3-report''
        ''Synthesize the prior findings into a concise report covering current state, main risks, and specific recommendations in priority order.''
        [] [''phase-2-deep''] [''final_report''] 3 30000]"

definition debugFixTasks :: "string \<Rightarrow> decomposed_task list" where
  "debugFixTasks msg =
     [
      delegated ''phase-1-diagnose''
        (''Diagnose the issue for this request: '' @ msg @ ''. Steps: 1) reproduce or localize the failure, 2) identify the most likely root cause, 3) list affected files or systems, 4) propose the smallest credible fix. Return findings as structured JSON.'')
        [''Error reproduced'', ''Root cause identified'', ''Affected files listed''] [] [''diagnosis''] 1 60000,
      delegated ''phase-2-fix''
        ''Implement the fix based on the diagnosis from phase-1. Prefer the smallest safe change, verify the issue is resolved with the most relevant check available, and report what changed plus any residual risk.''
        [''Fix implemented'', ''Error no longer occurs''] [''phase-1-diagnose''] [] 2 90000]"

definition generateSignalBasedSubtasks :: "complexity_score \<Rightarrow> snapshot \<Rightarrow> decomposed_task list" where
  "generateSignalBasedSubtasks complexity sn =
    (let hasLoop = (2 \<le> cs_loopScore complexity); hasFailure = (2 \<le> cs_failureScore complexity);
         hasBlocked = (3 \<le> cs_blockedScore complexity); hasContextPressure = (2 \<le> cs_contextScore complexity)
     in if hasBlocked \<and> hasLoop then unblockTasks sn
        else if hasFailure \<and> hasLoop then failureLoopTasks sn
        else if hasContextPressure then contextPressureTasks
        else genericTasks)"

definition noComplexity :: complexity_score where
  "noComplexity = \<lparr>cs_level = 0, cs_totalScore = 0, cs_iterationScore = 0, cs_progressScore = 0,
     cs_failureScore = 0, cs_blockedScore = 0, cs_loopScore = 0, cs_contextScore = 0, cs_triggers = []\<rparr>"

definition generateSubtasksFromPattern :: "string \<Rightarrow> string \<Rightarrow> snapshot \<Rightarrow> decomposed_task list" where
  "generateSubtasksFromPattern template message sn =
    (if template = ''parallel-files'' then parallelFilesTasks message
     else if template = ''phased-analysis'' then phasedAnalysisTasks
     else if template = ''debug-fix'' then debugFixTasks message
     else generateSignalBasedSubtasks noComplexity sn)"

text \<open>
  The pattern (w1|w2|..).* f: a word, then anything on the same line, then what \<open>f\<close> accepts.
\<close>

fun line_tail :: "(string \<Rightarrow> bool) \<Rightarrow> string \<Rightarrow> bool" where
  "line_tail f [] = f []"
| "line_tail f (c # s) = (f (c # s) \<or> c \<noteq> CHR 0x0A \<and> line_tail f s)"

definition starts_one :: "string list \<Rightarrow> string \<Rightarrow> bool" where
  "starts_one ws s = list_ex (\<lambda>w. prefix w s) ws"

fun word_then :: "string list \<Rightarrow> (string \<Rightarrow> bool) \<Rightarrow> string \<Rightarrow> bool" where
  "word_then ws f [] = False"
| "word_then ws f (c # s) =
    (list_ex (\<lambda>w. prefix w (c # s) \<and> line_tail f (drop (length w) (c # s))) ws \<or> word_then ws f s)"

definition blank_then :: "(string \<Rightarrow> bool) \<Rightarrow> string \<Rightarrow> bool" where
  "blank_then f s = (case s of c # r \<Rightarrow> c = CHR '' '' \<and> f r | [] \<Rightarrow> False)"

definition count_then :: "(string \<Rightarrow> bool) \<Rightarrow> string \<Rightarrow> bool" where
  "count_then f s =
    (s \<noteq> [] \<and> is_digit_char (hd s) \<and> f (dropWhile is_digit_char s) \<or>
     list_ex (\<lambda>w. prefix w s \<and> f (drop (length w) s)) [''multiple'', ''several'', ''all''])"

definition decompositionPatterns :: "((string \<Rightarrow> bool) \<times> string) list" where
  "decompositionPatterns =
    [(word_then [''create'', ''implement'', ''build''] (blank_then (count_then (blank_then
        (starts_one [''component'', ''file'', ''module'', ''feature''])))), ''parallel-files''),
     (word_then [''refactor'', ''migrate'', ''update'', ''upgrade'']
        (blank_then (starts_one [''entire'', ''all'', ''whole'', ''complete''])), ''batch-operation''),
     (word_then [''analyze'', ''review'', ''audit'', ''examine'']
        (blank_then (starts_one [''codebase'', ''project'', ''repository'', ''entire''])), ''phased-analysis''),
     (word_then [''fix'', ''resolve'', ''debug'']
        (blank_then (starts_one [''bug'', ''issue'', ''error'', ''problem''])), ''debug-fix''),
     (word_then [''add'', ''implement'']
        (blank_then (starts_one [''feature'', ''functionality'', ''capability''])), ''feature-implementation'')]"

definition decomposeTask :: "string \<Rightarrow> complexity_score \<Rightarrow> snapshot \<Rightarrow> decomposed_task list" where
  "decomposeTask originalMessage complexity sn =
    (case find (\<lambda>(pattern, template). pattern (to_lower originalMessage)) decompositionPatterns of
       Some (pattern, template) \<Rightarrow> generateSubtasksFromPattern template originalMessage sn
     | None \<Rightarrow> generateSignalBasedSubtasks complexity sn)"

text \<open>The result is None exactly while cooling down or when nothing triggers.\<close>

definition computeDelegationTrigger ::
    "(string list \<Rightarrow> string list) \<Rightarrow> int \<Rightarrow> int \<Rightarrow> snapshot \<Rightarrow> run_state \<Rightarrow> delegation_trigger option \<times> run_state" where
  "computeDelegationTrigger map_order promptTokens window sn s =
    (if 0 < delegationCooldown s then (None, s\<lparr>delegationCooldown := delegationCooldown s - 1\<rparr>)
     else (let score = computeComplexity map_order s promptTokens window
       in case shouldTriggerDelegation score sn of
            None \<Rightarrow> (None, s)
          | Some trigger \<Rightarrow> (Some (trigger\<lparr>tg_subtasks := decomposeTask (ro_prompt (out s)) score sn\<rparr>), s)))"

section \<open>Dependency order\<close>

definition add_dependent :: "string \<Rightarrow> string \<Rightarrow> (string, string list) gmap \<Rightarrow> (string, string list) gmap" where
  "add_dependent taskID dep m = mput dep ((case mget m dep of Some ds \<Rightarrow> ds | None \<Rightarrow> []) @ [taskID]) m"

definition dependents_of :: "decomposed_task list \<Rightarrow> (string, string list) gmap" where
  "dependents_of tasks =
     fold (\<lambda>t m. fold (add_dependent (dt_taskID t)) (dt_dependsOn t) m) tasks mempty"

definition task_map :: "decomposed_task list \<Rightarrow> (string, decomposed_task) gmap" where
  "task_map tasks = mput_all (map (\<lambda>t. (dt_taskID t, t)) tasks) mempty"

definition task_at :: "(string, decomposed_task) gmap \<Rightarrow> string \<Rightarrow> decomposed_task" where
  "task_at taskMap i = (case mget taskMap i of Some t \<Rightarrow> t | None \<Rightarrow> (delegated [] [] [] [] [] 0 0)\<lparr>dt_agentID := []\<rparr>)"

definition swap_at :: "nat \<Rightarrow> nat \<Rightarrow> 'a list \<Rightarrow> 'a list" where
  "swap_at i j xs = xs[i := xs ! j, j := xs ! i]"

definition sort_row :: "(string \<Rightarrow> int) \<Rightarrow> nat \<Rightarrow> string list \<Rightarrow> string list" where
  "sort_row prio i ids =
    fold (\<lambda>j ids. if prio (ids ! j) < prio (ids ! i) then swap_at i j ids else ids) [Suc i..<length ids] ids"

definition sortByPriority :: "(string \<Rightarrow> int) \<Rightarrow> string list \<Rightarrow> string list" where
  "sortByPriority prio ids = fold (sort_row prio) [0..<length ids - 1] ids"

text \<open>Counting down one dependent; its id joins the queue when nothing is left.\<close>

definition reduce_one :: "string \<Rightarrow> (string, int) gmap \<times> string list \<Rightarrow> (string, int) gmap \<times> string list" where
  "reduce_one d st =
    (let (inDegree, queue) = st; inDegree = mput d (mcount inDegree d - 1) inDegree
     in (inDegree, if mcount inDegree d = 0 then queue @ [d] else queue))"

definition open_edges :: "(string, string list) gmap \<Rightarrow> string list \<Rightarrow> nat" where
  "open_edges dependents visited =
     sum_list (map (\<lambda>(i, ds). if i \<in> set visited then 0 else length ds) dependents)"

definition dependents_at :: "(string, string list) gmap \<Rightarrow> string \<Rightarrow> string list" where
  "dependents_at dependents i = (case mget dependents i of Some ds \<Rightarrow> ds | None \<Rightarrow> [])"

lemma length_swap_at [simp]: "length (swap_at i j xs) = length xs"
  by (simp add: swap_at_def)

lemma length_sort_row [simp]: "length (sort_row prio i ids) = length ids"
proof -
  have "length (fold (\<lambda>j ids. if prio (ids ! j) < prio (ids ! i) then swap_at i j ids else ids) js xs) = length xs"
    for js xs by (induction js arbitrary: xs) auto
  then show ?thesis by (simp add: sort_row_def)
qed

lemma length_sortByPriority [simp]: "length (sortByPriority prio ids) = length ids"
proof -
  have "length (fold (sort_row prio) js xs) = length xs" for js xs
    by (induction js arbitrary: xs) auto
  then show ?thesis by (simp add: sortByPriority_def)
qed

lemma length_reduce: "length (snd (fold reduce_one ds st)) \<le> length (snd st) + length ds"
proof (induction ds arbitrary: st)
  case (Cons d ds)
  have "length (snd (reduce_one d st)) \<le> Suc (length (snd st))"
    by (simp add: reduce_one_def Let_def split: prod.split)
  with Cons.IH [of "reduce_one d st"] show ?case by simp
qed simp

lemma open_edges_visit:
  assumes "i \<notin> set visited"
  shows "open_edges dependents (i # visited) + length (dependents_at dependents i) \<le> open_edges dependents visited"
proof -
  have le: "sum_list (map (\<lambda>(j, ds). if j \<in> set (i # visited) then 0 else length ds) m)
      \<le> sum_list (map (\<lambda>(j, ds). if j \<in> set visited then 0 else length ds) m)" for m :: "(string, string list) gmap"
    by (induction m) auto
  have "sum_list (map (\<lambda>(j, ds). if j \<in> set (i # visited) then 0 else length ds) m) + length ds
      \<le> sum_list (map (\<lambda>(j, ds). if j \<in> set visited then 0 else length ds) m)"
    if "(i, ds) \<in> set m" for m :: "(string, string list) gmap" and ds
    using that
  proof (induction m)
    case (Cons e m)
    show ?case
    proof (cases "e = (i, ds)")
      case True
      with assms le [of m] show ?thesis by simp
    next
      case False
      with Cons have "(i, ds) \<in> set m" by simp
      from Cons.IH [OF this] show ?thesis by (cases e) auto
    qed
  qed simp
  then show ?thesis
    using le [of dependents] mget_in [of dependents i]
    by (cases "mget dependents i") (auto simp: open_edges_def dependents_at_def)
qed

function kahn ::
    "(string, decomposed_task) gmap \<Rightarrow> (string, string list) gmap \<Rightarrow> (string, int) gmap \<Rightarrow> string list \<Rightarrow>
     string list \<Rightarrow> decomposed_task list \<times> string list" where
  "kahn taskMap dependents inDegree visited [] = ([], visited)"
| "kahn taskMap dependents inDegree visited (i # queue) =
    (if i \<in> set visited then kahn taskMap dependents inDegree visited queue
     else (let (inDegree, queue) = fold reduce_one (dependents_at dependents i) (inDegree, queue);
               queue = sortByPriority (\<lambda>j. dt_priority (task_at taskMap j)) queue;
               (result, visited) = kahn taskMap dependents inDegree (i # visited) queue
           in (task_at taskMap i # result, visited)))"
  by pat_completeness auto
termination
proof (relation "measure (\<lambda>(tm, dependents, deg, visited, queue). open_edges dependents visited + length queue)")
  fix taskMap dependents inDegree visited i queue x y q' q'' 
  fix deg' :: "(string, int) gmap"
  assume a: "i \<notin> set visited" "x = fold reduce_one (dependents_at dependents i) (inDegree, queue)"
    "(deg', q') = x" "q'' = sortByPriority (\<lambda>j. dt_priority (task_at taskMap j)) q'"
  have "length q'' \<le> length queue + length (dependents_at dependents i)"
    using a length_reduce [of "dependents_at dependents i" "(inDegree, queue)"]
    by (metis length_sortByPriority snd_conv)
  with open_edges_visit [OF a(1), of dependents]
  show "((taskMap, dependents, deg', i # visited, q''), taskMap, dependents, inDegree, visited, i # queue)
      \<in> measure (\<lambda>(tm, dependents, deg, visited, queue). open_edges dependents visited + length queue)"
    by simp
qed simp_all

declare kahn.simps(2) [simp del]

definition topologicalSortTasks :: "decomposed_task list \<Rightarrow> string list + decomposed_task list" where
  "topologicalSortTasks tasks =
    (let taskMap = task_map tasks; dependents = dependents_of tasks;
         inDegree = mput_all (map (\<lambda>t. (dt_taskID t, int (length (dt_dependsOn t)))) tasks) mempty;
         queue = map dt_taskID (filter (\<lambda>t. mcount inDegree (dt_taskID t) = 0) tasks);
         queue = sortByPriority (\<lambda>j. dt_priority (task_at taskMap j)) queue;
         (result, visited) = kahn taskMap dependents inDegree [] queue
     in if length result \<noteq> length tasks
        then Inl (filter (\<lambda>i. i \<notin> set visited) (map dt_taskID tasks))
        else Inr result)"

end
