(* ===== verification/Delegation_Run.thy ===== *)
theory Delegation_Run
  imports Delegation
begin

text \<open>
  Planning and running delegated subtasks (internal/agent/planner.go and executeDelegatedTasks of
  runner.go): routing of each task to a role, the plan, the delegation events, and the execution
  in dependency order with one retry. A payload has no event_timestamp here.
\<close>

section \<open>Roles for tasks\<close>

definition applyRoleRouting :: "router \<Rightarrow> decomposed_task \<Rightarrow> decomposed_task" where
  "applyRoleRouting rt task =
    (let selection = route rt (dt_message task); tmpl = sel_template selection;
         task = task\<lparr>dt_assignedRole := sel_roleName selection, dt_routingConfidence := sel_confidence selection,
           dt_routingRationale := sel_rationale selection, dt_roleAllowedTools := rl_allowedTools tmpl,
           dt_roleMaxToolIterations := rl_maxIterations tmpl, dt_roleTimeoutMS := rl_timeoutMS tmpl\<rparr>
     in if 0 < rl_timeoutMS tmpl then
          (if 0 < dt_timeoutMS task \<and> dt_timeoutMS task < rl_timeoutMS tmpl
           then task\<lparr>dt_roleTimeoutMS := dt_timeoutMS task\<rparr>
           else task\<lparr>dt_timeoutMS := rl_timeoutMS tmpl\<rparr>)
        else task)"

definition appendRoleRoutingContext :: "decomposed_task \<Rightarrow> string" where
  "appendRoleRoutingContext task =
    (let message = trim_space (dt_message task) in
     if dt_assignedRole task = [] then message
     else message @ nl @ nl @ ''Role assignment:'' @ nl @ ''- assigned_role: '' @ dt_assignedRole task @ nl @
       ''- confidence: '' @ fmt2 (dt_routingConfidence task) @ nl @
       ''- rationale: '' @ trim_space (dt_routingRationale task) @ nl)"

definition effectiveTaskTimeoutMS :: "decomposed_task \<Rightarrow> int" where
  "effectiveTaskTimeoutMS task = (if 0 < dt_roleTimeoutMS task then dt_roleTimeoutMS task else dt_timeoutMS task)"

section \<open>The plan\<close>

datatype plan_error = NoTasksToPlan | DependencyCycle "string list"

definition plan_task :: "router \<Rightarrow> int \<Rightarrow> decomposed_task \<Rightarrow> decomposed_task" where
  "plan_task rt idx task =
    (let task = (if trim_space (dt_taskID task) = [] then task\<lparr>dt_taskID := ''task-'' @ itoa (idx + 1)\<rparr> else task);
         task = (if trim_space (dt_message task) = []
                 then task\<lparr>dt_message := ''Complete delegated task '' @ itoa (idx + 1)\<rparr> else task);
         routed = applyRoleRouting rt task
     in if dt_routingConfidence routed \<le> 0 then routed\<lparr>dt_routingConfidence := fl (20 / 100)\<rparr> else routed)"

fun plan_tasks :: "router \<Rightarrow> int \<Rightarrow> decomposed_task list \<Rightarrow> decomposed_task list" where
  "plan_tasks rt idx [] = []"
| "plan_tasks rt idx (t # ts) = plan_task rt idx t # plan_tasks rt (idx + 1) ts"

definition plan_node :: "decomposed_task \<Rightarrow> task_node" where
  "plan_node t = \<lparr>tn_taskID = dt_taskID t, tn_description = trim_space (dt_message t),
     tn_assignedRole = trim_space (dt_assignedRole t), tn_confidence = dt_routingConfidence t,
     tn_expectedArtifacts = dt_produces t, tn_completionCriteria = dt_acceptanceCrit t,
     tn_dependsOn = dt_dependsOn t, tn_rationale = trim_space (dt_routingRationale t)\<rparr>"

fun mode_text :: "delegation_mode \<Rightarrow> string" where
  "mode_text NoMode = []"
| "mode_text PromptOnly = ''prompt_only''"
| "mode_text ToolGated = ''tool_gated''"
| "mode_text AutoExecute = ''auto_execute''"
| "mode_text SuggestOnly = ''suggest_only''"
| "mode_text ApprovePlan = ''approve_plan''"
| "mode_text AutoTrusted = ''auto_trusted''"
| "mode_text FullAuto = ''full_autonomous''"

definition normalizeDelegationMode :: "string \<Rightarrow> delegation_mode" where
  "normalizeDelegationMode raw =
    (case find (\<lambda>m. mode_text m = to_lower (trim_space raw))
        [PromptOnly, ToolGated, AutoExecute, SuggestOnly, ApprovePlan, AutoTrusted, FullAuto] of
       Some m \<Rightarrow> m | None \<Rightarrow> NoMode)"

definition isPlannerDelegationMode :: "delegation_mode \<Rightarrow> bool" where
  "isPlannerDelegationMode m = (m \<in> set [SuggestOnly, ApprovePlan, AutoTrusted, FullAuto])"

definition builtInRoleNames :: "string list" where
  "builtInRoleNames = filter (\<lambda>n. n \<noteq> []) (map (\<lambda>t. trim_space (rl_name t)) builtInTemplates)"

definition generateDecompositionPlan ::
    "string \<Rightarrow> delegation_mode \<Rightarrow> decomposed_task list \<Rightarrow> plan_error + decomposition_plan \<times> decomposed_task list" where
  "generateDecompositionPlan triggerReason mode tasks =
    (if tasks = [] then Inl NoTasksToPlan
     else
      (let planned = plan_tasks (newRouter []) 0 tasks;
           confs = map dt_routingConfidence planned
       in case topologicalSortTasks planned of
            Inl unvisited \<Rightarrow> Inl (DependencyCycle unvisited)
          | Inr ordered \<Rightarrow>
            Inr (\<lparr>dp_delegationMode = trim_space (mode_text mode), dp_triggerReason = trim_space triggerReason,
              dp_tasks = map plan_node ordered,
              dp_dependencyDAG = sort (concat (map (\<lambda>t. map (\<lambda>d. (d, dt_taskID t)) (dt_dependsOn t)) ordered)),
              dp_minConfidence = fold (\<lambda>c m. if c < m then c else m) confs 1,
              dp_avgConfidence = fdiv (fold (\<lambda>c acc. fadd acc c) confs 0) (of_nat (length ordered)),
              dp_allRolesBuiltIn = list_all (\<lambda>t. trim_space (dt_assignedRole t) \<in> set builtInRoleNames) planned\<rparr>,
              ordered)))"

definition shouldAutoExecutePlan :: "delegation_mode \<Rightarrow> decomposition_plan \<Rightarrow> bool \<Rightarrow> bool \<times> string" where
  "shouldAutoExecutePlan mode plan approved =
    (case mode of
       FullAuto \<Rightarrow> (True, ''full_autonomous mode always executes delegation plan'')
     | AutoTrusted \<Rightarrow>
         if dp_allRolesBuiltIn plan \<and> fl (7 / 10) < dp_minConfidence plan
         then (True, ''auto_trusted mode approved: all roles built-in and confidence > 0.7'')
         else (False, ''auto_trusted mode withheld execution because roles/confidence did not satisfy trust threshold'')
     | ApprovePlan \<Rightarrow>
         if approved then (True, ''approve_plan mode received explicit approval'')
         else (False, ''approve_plan mode requires operator approval'')
     | SuggestOnly \<Rightarrow> (False, ''suggest_only mode returns plan without execution'')
     | _ \<Rightarrow> (False, ''delegation mode does not support planner-led auto execution''))"

definition list_line :: "string \<Rightarrow> string \<Rightarrow> string list \<Rightarrow> string" where
  "list_line label sep items =
     (if items = [] then [] else nl @ ''  - '' @ label @ '': '' @ join_with sep items)"

definition task_entry :: "task_node \<Rightarrow> string" where
  "task_entry t = nl @ ''- '' @ tn_taskID t @ '' ['' @ tn_assignedRole t @ '']'' @
     '' confidence='' @ fmt2 (tn_confidence t) @
     (if trim_space (tn_description t) \<noteq> [] then nl @ ''  - description: '' @ tn_description t else []) @
     list_line ''depends_on'' '', '' (tn_dependsOn t) @
     list_line ''completion_criteria'' ''; '' (tn_completionCriteria t) @
     list_line ''expected_artifacts'' '', '' (tn_expectedArtifacts t) @
     (if trim_space (tn_rationale t) \<noteq> [] then nl @ ''  - rationale: '' @ tn_rationale t else []) @ nl"

definition formatDecompositionPlanForOperator :: "decomposition_plan \<Rightarrow> string \<Rightarrow> string" where
  "formatDecompositionPlanForOperator plan summary =
     trim_space (''# Delegation Plan'' @ nl @ nl @
       ''- mode: '' @ trim_space (dp_delegationMode plan) @ nl @
       ''- trigger_reason: '' @ trim_space (dp_triggerReason plan) @ nl @
       ''- min_confidence: '' @ fmt2 (dp_minConfidence plan) @ nl @
       ''- avg_confidence: '' @ fmt2 (dp_avgConfidence plan) @ nl @
       ''- all_roles_built_in: '' @ (if dp_allRolesBuiltIn plan then ''true'' else ''false'') @ nl @
       (if trim_space summary \<noteq> [] then ''- decision: '' @ trim_space summary @ nl else []) @
       nl @ ''## Tasks'' @ nl @ concat (map task_entry (dp_tasks plan)))"

section \<open>Delegation events\<close>

fun stringValueFromAny :: "pval option \<Rightarrow> string" where
  "stringValueFromAny (Some (PStr v)) = v"
| "stringValueFromAny _ = []"

fun floatValueFromAny :: "pval option \<Rightarrow> rat option" where
  "floatValueFromAny (Some (PRat v)) = Some v"
| "floatValueFromAny (Some (PInt v)) = Some (fl (of_int v))"
| "floatValueFromAny _ = None"

definition delegationParentRunID :: "run_state \<Rightarrow> string" where
  "delegationParentRunID s =
    (if trim_space (parentRunID s) \<noteq> [] then trim_space (parentRunID s) else trim_space (runID s))"

definition normalizeDelegationTriggerPayload :: "run_state \<Rightarrow> payload \<Rightarrow> payload" where
  "normalizeDelegationTriggerPayload s pl =
    (let get = (\<lambda>k. trim_space (stringValueFromAny (mget pl k)));
         orElse = (\<lambda>a b. if a = [] then b else a);
         triggerReason = orElse (get ''trigger_reason'') (get ''reason'');
         sourceAgentID = orElse (get ''source_agent_id'') (trim_space (agentID s))
     in mput_all
        [(''trigger_reason'', PStr triggerReason), (''reason'', PStr triggerReason),
         (''selected_role'', PStr (orElse (get ''selected_role'') ''delegation_controller'')),
         (''task_assignment'', PStr (orElse (get ''task_assignment'') ''delegation trigger evaluation'')),
         (''confidence'', PRat (case floatValueFromAny (mget pl ''confidence'') of Some c \<Rightarrow> c | None \<Rightarrow> 0)),
         (''parent_run_id'', PStr (orElse (get ''parent_run_id'') (delegationParentRunID s))),
         (''source_run_id'', PStr (orElse (get ''source_run_id'') (trim_space (runID s)))),
         (''source_agent_id'', PStr sourceAgentID),
         (''from_agent_id'', PStr (orElse (get ''from_agent_id'') sourceAgentID)),
         (''to_agent_id'', PStr (get ''to_agent_id''))] pl)"

definition emitDelegationTriggerDecision :: "payload \<Rightarrow> string \<Rightarrow> run_state \<Rightarrow> run_state" where
  "emitDelegationTriggerDecision pl summary s =
     emitDecision ''delegation_trigger'' (normalizeDelegationTriggerPayload s pl) summary s"

definition appendDelegationEvent :: "delegation_event \<Rightarrow> run_state \<Rightarrow> run_state" where
  "appendDelegationEvent e s =
    (let e = e\<lparr>de_triggerReason := trim_space (de_triggerReason e), de_selectedRole := trim_space (de_selectedRole e),
         de_taskAssignment := trim_space (de_taskAssignment e), de_rationale := trim_space (de_rationale e),
         de_outcome := trim_space (de_outcome e), de_messageID := trim_space (de_messageID e),
         de_relatedRunID := trim_space (de_relatedRunID e), de_parentRunID := trim_space (de_parentRunID e),
         de_fromAgentID := trim_space (de_fromAgentID e), de_toAgentID := trim_space (de_toAgentID e)\<rparr>
     in s\<lparr>out := (out s)\<lparr>ro_delegationEvents := ro_delegationEvents (out s) @ [e]\<rparr>\<rparr>)"

definition recordDelegationEvent :: "delegation_event \<Rightarrow> run_state \<Rightarrow> run_state" where
  "recordDelegationEvent e s =
    (let s = appendDelegationEvent e s;
         pl = mput_all
          [(''task_id'', PStr (trim_space (de_taskID e))), (''message_id'', PStr (trim_space (de_messageID e))),
           (''related_run_id'', PStr (trim_space (de_relatedRunID e))),
           (''parent_run_id'', PStr (trim_space (de_parentRunID e))),
           (''from_agent_id'', PStr (trim_space (de_fromAgentID e))),
           (''to_agent_id'', PStr (trim_space (de_toAgentID e))),
           (''trigger_reason'', PStr (trim_space (de_triggerReason e))),
           (''selected_role'', PStr (trim_space (de_selectedRole e))), (''confidence'', PRat (de_confidence e)),
           (''task_assignment'', PStr (trim_space (de_taskAssignment e))),
           (''role_rationale'', PStr (trim_space (de_rationale e))),
           (''outcome'', PStr (trim_space (de_outcome e))), (''delegation_active'', PBool (delegationActive s))] mempty;
         summary = ''Delegation task '' @ firstN (trim_space (de_taskID e)) 48 @ '' assigned to '' @
           firstN (trim_space (de_selectedRole e)) 48 @ '' ('' @ firstN (trim_space (de_outcome e)) 24 @ '').''
     in emitDelegationTriggerDecision pl summary s)"

definition planned_event :: "run_state \<Rightarrow> decomposition_plan \<Rightarrow> task_node \<Rightarrow> delegation_event" where
  "planned_event s plan t =
    \<lparr>de_taskID = tn_taskID t, de_messageID = [], de_relatedRunID = [],
     de_parentRunID = (if trim_space (runID s) = [] then trim_space (parentRunID s) else trim_space (runID s)),
     de_fromAgentID = trim_space (agentID s), de_toAgentID = [],
     de_triggerReason = trim_space (dp_triggerReason plan), de_selectedRole = trim_space (tn_assignedRole t),
     de_confidence = tn_confidence t, de_taskAssignment = trim_space (tn_description t),
     de_rationale = trim_space (tn_rationale t), de_outcome = ''planned''\<rparr>"

definition appendPlannedDelegationEvents :: "decomposition_plan \<Rightarrow> run_state \<Rightarrow> run_state" where
  "appendPlannedDelegationEvents plan s =
     fold (\<lambda>t s. recordDelegationEvent (planned_event s plan t) s) (dp_tasks plan) s"

section \<open>Running the subtasks\<close>

definition summarizeForArtifact :: "string \<Rightarrow> string" where
  "summarizeForArtifact fullText =
    (let lines = split_on (CHR 0x0A) fullText in
     if length lines \<le> 3 then fullText else join_with nl (take 3 lines) @ ''...'')"

definition isFailedSubtaskResult :: "string \<Rightarrow> bool" where
  "isFailedSubtaskResult result = prefix ''FAILED:'' (trim_space result)"

definition aggregateSubtaskResults :: "(string list \<Rightarrow> string list) \<Rightarrow> (string, string) gmap \<Rightarrow> string" where
  "aggregateSubtaskResults map_order results =
    ''## Delegated Task Results'' @ nl @ nl @
    concat (map (\<lambda>i. ''### '' @ i @ nl @ (case mget results i of Some r \<Rightarrow> r | None \<Rightarrow> []) @ nl @ nl)
      (map_order (mkeys results)))"

definition injectArtifacts :: "string \<Rightarrow> string list \<Rightarrow> (string, string) gmap \<Rightarrow> string" where
  "injectArtifacts message deps artifacts =
    trim_space message @ nl @ nl @ ''Context from previous steps:'' @ nl @
    concat (map (\<lambda>dep. case mget artifacts dep of None \<Rightarrow> []
       | Some artifact \<Rightarrow> ''- '' @ dep @ '': '' @ artifact @ nl) deps)"

definition formatDelegatedTaskMessage :: "decomposed_task \<Rightarrow> (string, string) gmap \<Rightarrow> string" where
  "formatDelegatedTaskMessage task artifacts =
    (let base = trim_space (dt_message task);
         base = (if dt_dependsOn task \<noteq> [] then injectArtifacts base (dt_dependsOn task) artifacts else base)
     in base @
       (if dt_acceptanceCrit task \<noteq> [] then nl @ nl @ ''Acceptance criteria:'' @ nl @
          concat (map (\<lambda>item. ''- '' @ item @ nl)
            (filter (\<lambda>i. i \<noteq> []) (map trim_space (dt_acceptanceCrit task)))) else []) @
       nl @ ''Execution rules:'' @ nl @
       ''- Complete only this delegated task; do not broaden scope.'' @ nl @
       ''- Prefer concrete execution over planning when the next step is clear.'' @ nl @
       ''- If blocked, report the exact blocker and the best next step instead of looping.'' @ nl @
       ''- End with a concise result that states what was done, what was verified, and any remaining risk.'' @ nl)"

text \<open>The first dependency without a result, or else the first failed one before it, stops a task.\<close>

datatype dependency_check = DepsOk | DepUnsatisfied string | DepFailed string

fun checkDependencies :: "(string, string) gmap \<Rightarrow> string list \<Rightarrow> dependency_check" where
  "checkDependencies completed [] = DepsOk"
| "checkDependencies completed (dep # deps) =
    (case mget completed dep of None \<Rightarrow> DepUnsatisfied dep
     | Some r \<Rightarrow> if isFailedSubtaskResult r then DepFailed dep else checkDependencies completed deps)"

definition task_parent :: "'w run_input \<Rightarrow> decomposed_task \<Rightarrow> string" where
  "task_parent input task =
    (if trim_space (dt_parentRunID task) = [] then trim_space (ri_runID input)
     else trim_space (dt_parentRunID task))"

definition task_event ::
    "'w run_input \<Rightarrow> run_state \<Rightarrow> decomposed_task \<Rightarrow> string \<Rightarrow> string \<Rightarrow> string \<Rightarrow> string \<Rightarrow> delegation_event" where
  "task_event input s task messageID relatedRunID rationale outcome =
    \<lparr>de_taskID = dt_taskID task, de_messageID = trim_space messageID, de_relatedRunID = trim_space relatedRunID,
     de_parentRunID = task_parent input task, de_fromAgentID = trim_space (ri_agentID input),
     de_toAgentID = trim_space (dt_agentID task), de_triggerReason = trim_space (delegationReason s),
     de_selectedRole = dt_assignedRole task, de_confidence = dt_routingConfidence task,
     de_taskAssignment = trim_space (dt_message task), de_rationale = rationale, de_outcome = outcome\<rparr>"

definition complete :: "string \<Rightarrow> string \<Rightarrow> run_state \<Rightarrow> run_state" where
  "complete taskID result s = s\<lparr>completedSubtasks := mput taskID result (completedSubtasks s)\<rparr>"

definition put_artifact :: "string \<Rightarrow> string \<Rightarrow> run_state \<Rightarrow> run_state" where
  "put_artifact k v s = s\<lparr>delegationArtifacts := mput k v (delegationArtifacts s)\<rparr>"

definition subtask_succeeded ::
    "'w run_input \<Rightarrow> decomposed_task \<Rightarrow> subagent_output \<Rightarrow> run_state \<Rightarrow> run_state" where
  "subtask_succeeded input task result s =
    (let s = complete (dt_taskID task) (so_finalText result) s;
         summary = summarizeForArtifact (so_finalText result);
         s = (if summary \<noteq> [] then put_artifact (dt_taskID task) summary s else s);
         s = recordDelegationEvent (task_event input s task (so_messageID result) (so_runID result)
               (trim_space (dt_routingRationale task)) ''executed'') s
     in fold (\<lambda>a. put_artifact a summary) (dt_produces task) s)"

definition subtask_failed ::
    "'w run_input \<Rightarrow> decomposed_task \<Rightarrow> subagent_output \<Rightarrow> string \<Rightarrow> run_state \<Rightarrow> run_state" where
  "subtask_failed input task result failureReason s =
    (let rationale = trim_space (dt_routingRationale task) in
     if dt_routingConfidence task < fl (1 / 2) then
       (let s = complete (dt_taskID task) (''FAILED: escalated after retry - '' @ failureReason) s
        in recordDelegationEvent (task_event input s task (so_messageID result) (so_runID result)
             (rationale @ ''; escalated due to low confidence'') ''escalated'') s)
     else
       (let s = complete (dt_taskID task) (''FAILED: '' @ failureReason) s
        in recordDelegationEvent (task_event input s task (so_messageID result) (so_runID result)
             rationale ''failed'') s))"

definition failure_reason :: "subagent_output \<Rightarrow> go_error option \<Rightarrow> string" where
  "failure_reason result execErr =
    (case execErr of Some e \<Rightarrow> err_text e
     | None \<Rightarrow> if trim_space (so_error result) \<noteq> [] then trim_space (so_error result)
              else ''subagent returned unsuccessful status'')"

text \<open>\<open>attempts\<close> is how many attempts are left; the code makes two.\<close>

fun attemptSubtask ::
    "(decomposed_task \<Rightarrow> 'w \<Rightarrow> (subagent_output \<times> go_error option) \<times> 'w) \<Rightarrow> 'w run_input \<Rightarrow>
     decomposed_task \<Rightarrow> decomposed_task \<Rightarrow> nat \<Rightarrow> run_state \<times> 'w \<Rightarrow> run_state \<times> 'w" where
  "attemptSubtask sub input task modified 0 sw = sw"
| "attemptSubtask sub input task modified (Suc attempts) sw =
    (let (s, w) = sw; ((result, execErr), w) = sub modified w in
     if execErr = None \<and> so_success result then (subtask_succeeded input task result s, w)
     else if 0 < attempts then
       attemptSubtask sub input task modified attempts
         (recordDelegationEvent (task_event input s task (so_messageID result) (so_runID result)
            (trim_space (dt_routingRationale task)) ''retry_same_role'') s, w)
     else (subtask_failed input task result (failure_reason result execErr) s, w))"

definition route_task :: "'w run_input \<Rightarrow> decomposed_task \<Rightarrow> decomposed_task" where
  "route_task input task =
    (let task = (if trim_space (dt_assignedRole task) = [] then applyRoleRouting (newRouter []) task else task)
     in if trim_space (dt_parentRunID task) = [] then task\<lparr>dt_parentRunID := trim_space (ri_runID input)\<rparr> else task)"

definition emitTaskDecisions :: "decomposed_task \<Rightarrow> run_state \<Rightarrow> run_state" where
  "emitTaskDecisions task s =
    (if trim_space (dt_assignedRole task) = [] then s
     else
      (let tid = trim_space (dt_taskID task); role = trim_space (dt_assignedRole task);
           s = emitDecision ''role_selection''
             (mput_all [(''task_id'', PStr tid), (''role'', PStr role), (''confidence'', PRat (dt_routingConfidence task)),
                (''role_rationale'', PStr (trim_space (dt_routingRationale task)))] mempty)
             (''Delegation selected role '' @ role @ '' for task '' @ tid @ ''.'') s
       in emitDecision ''constraint_activation''
             (mput_all [(''task_id'', PStr tid), (''role'', PStr role),
                (''role_allowed_tools'', PStrs (dt_roleAllowedTools task)),
                (''role_max_iterations'', PInt (dt_roleMaxToolIterations task)),
                (''role_timeout_ms'', PInt (dt_roleTimeoutMS task))] mempty)
             (''Activated role constraints for task '' @ tid @ ''.'') s))"

definition plain_error :: "string \<Rightarrow> go_error" where
  "plain_error t = \<lparr>err_text = t, err_canceled = False, err_deadline = False\<rparr>"

definition runSubtask ::
    "(decomposed_task \<Rightarrow> 'w \<Rightarrow> (subagent_output \<times> go_error option) \<times> 'w) \<Rightarrow> 'w run_input \<Rightarrow>
     decomposed_task \<Rightarrow> run_state \<times> 'w \<Rightarrow> go_error option \<times> run_state \<times> 'w" where
  "runSubtask sub input task sw =
    (let (s, w) = sw; task = route_task input task; s = emitTaskDecisions task s
     in case checkDependencies (completedSubtasks s) (dt_dependsOn task) of
          DepUnsatisfied dep \<Rightarrow> (Some (plain_error (''dependency not satisfied: '' @ dep)), s, w)
        | DepFailed dep \<Rightarrow>
            (let s = complete (dt_taskID task) (''FAILED: dependency '' @ dep @ '' failed'') s
             in (None, recordDelegationEvent (task_event input s task [] []
                   (trim_space (dt_routingRationale task)) ''failed_dependency'') s, w))
        | DepsOk \<Rightarrow>
            (let modified = task\<lparr>dt_message := formatDelegatedTaskMessage task (delegationArtifacts s)\<rparr>;
                 modified = modified\<lparr>dt_message := appendRoleRoutingContext modified\<rparr>
             in (None, attemptSubtask sub input task modified 2 (s, w))))"

fun runSubtasks ::
    "(decomposed_task \<Rightarrow> 'w \<Rightarrow> (subagent_output \<times> go_error option) \<times> 'w) \<Rightarrow> 'w run_input \<Rightarrow>
     decomposed_task list \<Rightarrow> run_state \<times> 'w \<Rightarrow> go_error option \<times> run_state \<times> 'w" where
  "runSubtasks sub input [] sw = (None, sw)"
| "runSubtasks sub input (task # tasks) sw =
    (case runSubtask sub input task sw of
       (Some e, sw) \<Rightarrow> (Some e, sw)
     | (None, sw) \<Rightarrow> runSubtasks sub input tasks sw)"

definition cycle_error :: "string list \<Rightarrow> go_error" where
  "cycle_error unvisited = plain_error
     (''dependency cycle detected involving tasks: ['' @ join_with '' '' unvisited @ '']'')"

definition executeDelegatedTasks ::
    "'w runner \<Rightarrow> 'w run_input \<Rightarrow> decomposed_task list \<Rightarrow> run_state \<times> 'w \<Rightarrow> go_error option \<times> run_state \<times> 'w" where
  "executeDelegatedTasks r input tasks sw =
    (case rn_subAgentRunner r of
       None \<Rightarrow> (Some (plain_error ''subagent runner not configured for auto-delegation''), sw)
     | Some sub \<Rightarrow>
       (let (s, w) = sw;
            (tasks, s) =
              (if ro_decompositionPlan (out s) = None then
                (case generateDecompositionPlan (delegationReason s) (normalizeDelegationMode (ri_delegationMode input)) tasks of
                   Inr (plan, planned) \<Rightarrow>
                     (planned, appendPlannedDelegationEvents plan
                        (s\<lparr>out := (out s)\<lparr>ro_decompositionPlan := Some plan\<rparr>\<rparr>))
                 | Inl _ \<Rightarrow> (tasks, s))
               else (tasks, s))
        in case topologicalSortTasks tasks of
             Inl unvisited \<Rightarrow> (Some (cycle_error unvisited), s, w)
           | Inr ordered \<Rightarrow>
             (case runSubtasks sub input ordered (s, w) of
                (Some e, sw) \<Rightarrow> (Some e, sw)
              | (None, s, w) \<Rightarrow>
                 (None, s\<lparr>out := (out s)\<lparr>ro_finalText :=
                    aggregateSubtaskResults (rn_map_order r) (completedSubtasks s)\<rparr>\<rparr>, w))))"

end
