(* ===== verification/Delegation_Facts.thy ===== *)
theory Delegation_Facts
  imports Delegation_Run "HOL-Library.Multiset"
begin

text \<open>
  Properties of the delegation planner: the dependency order of \<open>topologicalSortTasks\<close> is sound and
  complete, so that executing the ordered tasks never meets an unfinished dependency.
\<close>

section \<open>Sorting by priority permutes\<close>

lemma mset_swap_at: "i < length xs \<Longrightarrow> j < length xs \<Longrightarrow> mset (swap_at i j xs) = mset xs"
  by (simp add: swap_at_def mset_swap)

lemma mset_fold_swap:
  "(\<forall>j \<in> set js. j < length xs) \<Longrightarrow> i < length xs \<Longrightarrow>
   mset (fold (\<lambda>j ids. if p j ids then swap_at i j ids else ids) js xs) = mset xs"
proof (induction js arbitrary: xs)
  case (Cons j js)
  then show ?case by (cases "p j xs") (simp_all add: mset_swap_at)
qed simp

lemma mset_sort_row: "i < length ids \<Longrightarrow> mset (sort_row prio i ids) = mset ids"
  unfolding sort_row_def by (rule mset_fold_swap) auto

lemma mset_sortByPriority [simp]: "mset (sortByPriority prio ids) = mset ids"
proof -
  have "(\<forall>i \<in> set is. i < length xs) \<Longrightarrow> mset (fold (sort_row prio) is xs) = mset xs" for "is" xs
    by (induction "is" arbitrary: xs) (auto simp: mset_sort_row)
  then show ?thesis unfolding sortByPriority_def by this auto
qed

lemma set_sortByPriority [simp]: "set (sortByPriority prio ids) = set ids"
  by (metis mset_sortByPriority set_mset_mset)

section \<open>Counting dependencies down\<close>

lemma mcount_mput [simp]: "mcount (mput k v m) k' = (if k' = k then v else mcount m k')"
  by (simp add: mcount_def gmap)

lemma reduce_one_step:
  "reduce_one x (deg, q) = (mput x (mcount deg x - 1) deg, if mcount deg x = 1 then q @ [x] else q)"
  by (simp add: reduce_one_def Let_def)

lemma fold_reduce:
  "fold reduce_one ds (deg, q) = (deg', q') \<Longrightarrow>
   mcount deg' d = mcount deg d - int (count_list ds d) \<and>
   (int (count_list ds d) \<le> mcount deg d \<longrightarrow>
      (d \<in> set q' \<longleftrightarrow> d \<in> set q \<or> d \<in> set ds \<and> mcount deg d = int (count_list ds d))) \<and>
   set q' \<subseteq> set q \<union> set ds"
proof (induction ds arbitrary: deg q)
  case (Cons x ds)
  let ?deg = "mput x (mcount deg x - 1) deg"
  let ?q = "if mcount deg x = 1 then q @ [x] else q"
  have "fold reduce_one ds (?deg, ?q) = (deg', q')"
    using Cons.prems by (simp only: fold_Cons o_apply reduce_one_step)
  from Cons.IH [OF this] show ?case
    using count_list_0_iff [of ds d] by (auto split: if_splits)
qed simp

lemma count_fold_add:
  "count_list (dependents_at (fold (add_dependent t) deps m) i) d =
     count_list (dependents_at m i) d + (if t = d then count_list deps i else 0)"
proof (induction deps arbitrary: m)
  case (Cons x deps)
  have "count_list (dependents_at (add_dependent t x m) i) d =
      count_list (dependents_at m i) d + (if t = d \<and> x = i then 1 else 0)"
    by (auto simp: add_dependent_def dependents_at_def gmap split: option.split)
  with Cons.IH [of "add_dependent t x m"] show ?case by simp
qed simp

lemma count_dependents:
  "count_list (dependents_at (dependents_of tasks) i) d =
     sum_list (map (\<lambda>t. if dt_taskID t = d then count_list (dt_dependsOn t) i else 0) tasks)"
proof -
  have "count_list (dependents_at (fold (\<lambda>t m. fold (add_dependent (dt_taskID t)) (dt_dependsOn t) m) tasks m) i) d =
      count_list (dependents_at m i) d + sum_list (map (\<lambda>t. if dt_taskID t = d then count_list (dt_dependsOn t) i else 0) tasks)"
    for m
    by (induction tasks arbitrary: m) (simp_all add: count_fold_add)
  from this [of mempty] show ?thesis by (simp add: dependents_of_def dependents_at_def gmap)
qed

section \<open>The order of Kahn's algorithm\<close>

text \<open>Every id comes after its dependencies (the list holds the latest visit first).\<close>

fun after_deps :: "(string \<Rightarrow> string list) \<Rightarrow> string list \<Rightarrow> bool" where
  "after_deps deps [] \<longleftrightarrow> True"
| "after_deps deps (i # visited) \<longleftrightarrow> set (deps i) \<subseteq> set visited \<and> after_deps deps visited"

lemma kahn_visit:
  assumes "kahn taskMap dependents deg visited (i # queue) = (result, visited')" "i \<notin> set visited"
    and "fold reduce_one (dependents_at dependents i) (deg, queue) = (deg', q')"
  obtains res where "kahn taskMap dependents deg' (i # visited)
      (sortByPriority (\<lambda>j. dt_priority (task_at taskMap j)) q') = (res, visited')" "result = task_at taskMap i # res"
  using assms by (auto simp: kahn.simps(2) Let_def split: prod.splits)

lemma kahn_order:
  "kahn taskMap dependents deg visited queue = (result, visited') \<Longrightarrow>
   \<exists>order. visited' = rev order @ visited \<and> result = map (task_at taskMap) order"
proof (induction taskMap dependents deg visited queue arbitrary: result rule: kahn.induct)
  case (2 taskMap dependents deg visited i queue)
  show ?case
  proof (cases "i \<in> set visited")
    case True
    with 2 show ?thesis by (simp add: kahn.simps)
  next
    case False
    obtain deg' q' where f: "fold reduce_one (dependents_at dependents i) (deg, queue) = (deg', q')" by force
    obtain res where "kahn taskMap dependents deg' (i # visited)
        (sortByPriority (\<lambda>j. dt_priority (task_at taskMap j)) q') = (res, visited')" "result = task_at taskMap i # res"
      by (rule kahn_visit [OF 2(3) False f])
    moreover from 2(2) [OF False f [symmetric] refl refl] this
    obtain order where "visited' = rev order @ i # visited" "res = map (task_at taskMap) order" by blast
    ultimately show ?thesis by (intro exI [of _ "i # order"]) simp
  qed
qed simp

lemma kahn_visits:
  "kahn taskMap dependents deg visited queue = (result, visited') \<Longrightarrow>
    \<forall>i. set (dependents_at dependents i) \<subseteq> ids \<Longrightarrow> distinct visited \<Longrightarrow> set visited \<subseteq> ids \<Longrightarrow> set queue \<subseteq> ids \<Longrightarrow> distinct visited' \<and> set visited' \<subseteq> ids"
proof (induction taskMap dependents deg visited queue arbitrary: result rule: kahn.induct)
  case (2 taskMap dependents deg visited i queue)
  show ?case
  proof (cases "i \<in> set visited")
    case True
    with 2 show ?thesis by (simp add: kahn.simps)
  next
    case False
    obtain deg' q' where f: "fold reduce_one (dependents_at dependents i) (deg, queue) = (deg', q')" by force
    obtain res where k: "kahn taskMap dependents deg' (i # visited)
        (sortByPriority (\<lambda>j. dt_priority (task_at taskMap j)) q') = (res, visited')" "result = task_at taskMap i # res"
      by (rule kahn_visit [OF 2(3) False f])
    have "set q' \<subseteq> set queue \<union> set (dependents_at dependents i)" using fold_reduce [OF f] by blast
    then have "set q' \<subseteq> ids" using 2(4,7) by auto
    with 2(2) [OF False f [symmetric] refl refl k(1)] 2(4-7) False show ?thesis by simp
  qed
qed simp

text \<open>
  The loop invariant: an id's in-degree counts its unvisited dependencies, what is queued is ready,
  and what is ready is visited or queued.
\<close>

definition open_deps :: "(string \<Rightarrow> string list) \<Rightarrow> string list \<Rightarrow> string \<Rightarrow> nat" where
  "open_deps deps visited d = length (filter (\<lambda>x. x \<notin> set visited) (deps d))"

definition kahn_inv ::
    "(string \<Rightarrow> string list) \<Rightarrow> string set \<Rightarrow> (string, int) gmap \<Rightarrow> string list \<Rightarrow> string list \<Rightarrow> bool" where
  "kahn_inv deps ids deg visited queue \<longleftrightarrow>
     (\<forall>d \<in> ids. mcount deg d = int (open_deps deps visited d)) \<and>
     after_deps deps visited \<and> set queue \<subseteq> ids \<and>
     (\<forall>d \<in> set queue. set (deps d) \<subseteq> set visited) \<and>
     (\<forall>d \<in> ids. set (deps d) \<subseteq> set visited \<longrightarrow> d \<in> set visited \<union> set queue)"

lemma open_deps_visit:
  "i \<notin> set visited \<Longrightarrow> open_deps deps visited d = open_deps deps (i # visited) d + count_list (deps d) i"
proof -
  assume "i \<notin> set visited"
  then have "length (filter (\<lambda>x. x \<notin> set visited) xs) = length (filter (\<lambda>x. x \<notin> set (i # visited)) xs) + count_list xs i" for xs
    by (induction xs) auto
  then show ?thesis by (simp add: open_deps_def)
qed

lemma open_deps_0: "open_deps deps visited d = 0 \<longleftrightarrow> set (deps d) \<subseteq> set visited"
  by (auto simp: open_deps_def filter_empty_conv)

lemma kahn_inv_step:
  assumes inv: "kahn_inv deps ids deg visited (i # queue)" and new: "i \<notin> set visited"
    and f: "fold reduce_one ds (deg, queue) = (deg', q')"
    and count: "\<forall>d \<in> ids. count_list ds d = count_list (deps d) i" and ds: "set ds \<subseteq> ids"
    and q'': "set q'' = set q'"
  shows "kahn_inv deps ids deg' (i # visited) q''"
proof -
  have deg: "mcount deg d = int (open_deps deps visited d)" if "d \<in> ids" for d
    using inv that by (simp add: kahn_inv_def)
  have deg': "mcount deg' d = int (open_deps deps (i # visited) d)" if "d \<in> ids" for d
    using fold_reduce [OF f, of d] deg [OF that] open_deps_visit [OF new, of deps d] count that by simp
  have q': "d \<in> set q' \<longleftrightarrow> d \<in> set queue \<or> d \<in> set ds \<and> set (deps d) \<subseteq> set (i # visited)" if "d \<in> ids" for d
    using fold_reduce [OF f, of d] deg [OF that] open_deps_visit [OF new, of deps d] count that
      open_deps_0 [of deps "i # visited" d] by simp
  have "set q' \<subseteq> set queue \<union> set ds" using fold_reduce [OF f] by blast
  moreover have "set queue \<subseteq> ids" using inv by (simp add: kahn_inv_def)
  ultimately have sub: "set q' \<subseteq> ids" using ds by auto
  have ready: "set (deps d) \<subseteq> set (i # visited)" if "d \<in> set q'" for d
  proof -
    have "set (deps d) \<subseteq> set visited" if "d \<in> set queue" using inv that by (simp add: kahn_inv_def)
    with q' [of d] that sub show ?thesis by auto
  qed
  have all: "d \<in> set (i # visited) \<union> set q'" if "d \<in> ids" "set (deps d) \<subseteq> set (i # visited)" for d
  proof (cases "i \<in> set (deps d)")
    case True
    then have "d \<in> set ds" using count that(1) count_list_0_iff by metis
    with q' that show ?thesis by simp
  next
    case False
    with that(2) have "set (deps d) \<subseteq> set visited" by auto
    with inv that(1) have "d \<in> set visited \<union> set (i # queue)" unfolding kahn_inv_def by blast
    with q' [OF that(1)] show ?thesis by auto
  qed
  have "set (deps i) \<subseteq> set visited" "after_deps deps visited" using inv by (simp_all add: kahn_inv_def)
  with deg' sub ready all q'' show ?thesis by (simp add: kahn_inv_def)
qed

lemma kahn_sound:
  "kahn taskMap dependents deg visited queue = (result, visited') \<Longrightarrow>
    \<forall>i. set (dependents_at dependents i) \<subseteq> ids \<Longrightarrow>
    \<forall>i. \<forall>d \<in> ids. count_list (dependents_at dependents i) d = count_list (deps d) i \<Longrightarrow> kahn_inv deps ids deg visited queue \<Longrightarrow>
    after_deps deps visited' \<and> (\<forall>d \<in> ids. set (deps d) \<subseteq> set visited' \<longrightarrow> d \<in> set visited')"
proof (induction taskMap dependents deg visited queue arbitrary: result rule: kahn.induct)
  case (1 taskMap dependents deg visited)
  then show ?case by (simp add: kahn_inv_def)
next
  case (2 taskMap dependents deg visited i queue)
  show ?case
  proof (cases "i \<in> set visited")
    case True
    then have "kahn_inv deps ids deg visited queue" using 2(6) by (auto simp: kahn_inv_def)
    with True 2(1,3-5) show ?thesis by (simp add: kahn.simps)
  next
    case False
    obtain deg' q' where f: "fold reduce_one (dependents_at dependents i) (deg, queue) = (deg', q')" by force
    let ?q = "sortByPriority (\<lambda>j. dt_priority (task_at taskMap j)) q'"
    obtain res where k: "kahn taskMap dependents deg' (i # visited) ?q = (res, visited')"
      by (rule kahn_visit [OF 2(3) False f])
    have "kahn_inv deps ids deg' (i # visited) ?q"
      by (rule kahn_inv_step [OF 2(6) False f]) (use 2(4,5) in auto)
    with 2(2) [OF False f [symmetric] refl refl k] 2(4,5) show ?thesis by blast
  qed
qed

section \<open>The order of the planned tasks\<close>

fun deps_first :: "string set \<Rightarrow> decomposed_task list \<Rightarrow> bool" where
  "deps_first finished [] \<longleftrightarrow> True"
| "deps_first finished (t # ts) \<longleftrightarrow>
     set (dt_dependsOn t) \<subseteq> finished \<and> deps_first (insert (dt_taskID t) finished) ts"

definition runnable_order :: "decomposed_task list \<Rightarrow> bool" where
  "runnable_order ts \<longleftrightarrow> distinct (map dt_taskID ts) \<and> deps_first {} ts"

lemma task_at_id:
  "distinct (map dt_taskID tasks) \<Longrightarrow> t \<in> set tasks \<Longrightarrow> task_at (task_map tasks) (dt_taskID t) = t"
  unfolding task_at_def task_map_def
  by (subst mget_mput_all_distinct [where v = t]) (auto simp: o_def)

lemma sum_single:
  fixes f :: "decomposed_task \<Rightarrow> nat"
  shows "distinct (map dt_taskID tasks) \<Longrightarrow> t \<in> set tasks \<Longrightarrow>
   sum_list (map (\<lambda>u. if dt_taskID u = dt_taskID t then f u else 0) tasks) = f t"
proof (induction tasks)
  case (Cons u tasks)
  have zero: "sum_list (map (\<lambda>u. if dt_taskID u = x then f u else 0) us) = 0" if "x \<notin> dt_taskID ` set us" for x us
    using that by (induction us) auto
  show ?case
  proof (cases "u = t")
    case True
    with Cons.prems zero [of "dt_taskID t" tasks] show ?thesis by simp
  next
    case False
    with Cons have "t \<in> set tasks" by simp
    moreover from this Cons.prems have "dt_taskID u \<noteq> dt_taskID t" by force
    ultimately show ?thesis using Cons by simp
  qed
qed simp

lemma dependents_tasks: "set (dependents_at (dependents_of tasks) i) \<subseteq> dt_taskID ` set tasks"
proof
  fix d assume "d \<in> set (dependents_at (dependents_of tasks) i)"
  then have "count_list (dependents_at (dependents_of tasks) i) d \<noteq> 0" by (simp add: count_list_0_iff)
  then have "sum_list (map (\<lambda>t. if dt_taskID t = d then count_list (dt_dependsOn t) i else 0) tasks) \<noteq> 0"
    unfolding count_dependents .
  moreover have "sum_list (map (\<lambda>t. if dt_taskID t = d then count_list (dt_dependsOn t) i else 0) ts) = 0"
    if "d \<notin> dt_taskID ` set ts" for ts using that by (induction ts) auto
  note this [of tasks]
  ultimately show "d \<in> dt_taskID ` set tasks" by argo
qed

lemma after_deps_append: "after_deps deps (xs @ ys) \<Longrightarrow> after_deps deps ys"
  by (induction xs) auto

lemma after_deps_first:
  "after_deps (\<lambda>i. dt_dependsOn (g i)) (rev order @ visited) \<Longrightarrow> (\<forall>i \<in> set order. dt_taskID (g i) = i) \<Longrightarrow>
   deps_first (set visited) (map g order)"
proof (induction order arbitrary: visited)
  case (Cons i order)
  from Cons.prems(1) have "after_deps (\<lambda>i. dt_dependsOn (g i)) (i # visited)"
    using after_deps_append [of "\<lambda>i. dt_dependsOn (g i)" "rev order" "i # visited"] by simp
  with Cons.IH [of "i # visited"] Cons.prems show ?case by simp
qed simp

lemma deps_first_reaches:
  "deps_first finished ts \<Longrightarrow> finished \<subseteq> visited \<Longrightarrow>
   (\<forall>t \<in> set ts. set (dt_dependsOn t) \<subseteq> visited \<longrightarrow> dt_taskID t \<in> visited) \<Longrightarrow>
   dt_taskID ` set ts \<subseteq> visited"
proof (induction ts arbitrary: finished)
  case (Cons t ts)
  then have "dt_taskID t \<in> visited" by auto
  with Cons.IH [of "insert (dt_taskID t) finished"] Cons.prems show ?case by auto
qed simp

lemma kahn_start:
  assumes d: "distinct (map dt_taskID tasks)"
    and deg: "deg = mput_all (map (\<lambda>t. (dt_taskID t, int (length (dt_dependsOn t)))) tasks) mempty"
    and q: "set queue = set (map dt_taskID (filter (\<lambda>t. mcount deg (dt_taskID t) = 0) tasks))"
  shows "kahn_inv (\<lambda>i. dt_dependsOn (task_at (task_map tasks) i)) (dt_taskID ` set tasks) deg [] queue"
proof -
  have "mcount deg (dt_taskID t) = int (length (dt_dependsOn t))" if "t \<in> set tasks" for t
    unfolding mcount_def deg
    by (subst mget_mput_all_distinct [where v = "int (length (dt_dependsOn t))"]) (use d that in \<open>auto simp: o_def\<close>)
  then show ?thesis
    using q task_at_id [OF d] by (auto simp: kahn_inv_def open_deps_def)
qed

lemma kahn_tasks:
  assumes d: "distinct (map dt_taskID tasks)"
    and deg: "deg = mput_all (map (\<lambda>t. (dt_taskID t, int (length (dt_dependsOn t)))) tasks) mempty"
    and q: "set queue = set (map dt_taskID (filter (\<lambda>t. mcount deg (dt_taskID t) = 0) tasks))"
    and k: "kahn (task_map tasks) (dependents_of tasks) deg [] queue = (result, visited)"
  shows "after_deps (\<lambda>i. dt_dependsOn (task_at (task_map tasks) i)) visited"
    and "t \<in> set tasks \<Longrightarrow> set (dt_dependsOn t) \<subseteq> set visited \<Longrightarrow> dt_taskID t \<in> set visited"
proof -
  have count: "\<forall>i. \<forall>x \<in> dt_taskID ` set tasks. count_list (dependents_at (dependents_of tasks) i) x =
      count_list (dt_dependsOn (task_at (task_map tasks) x)) i"
    using sum_single [OF d] task_at_id [OF d] by (auto simp: count_dependents)
  from kahn_sound [OF k _ count kahn_start [OF d deg q]] dependents_tasks
  have s: "after_deps (\<lambda>i. dt_dependsOn (task_at (task_map tasks) i)) visited"
    "\<forall>x \<in> dt_taskID ` set tasks. set (dt_dependsOn (task_at (task_map tasks) x)) \<subseteq> set visited \<longrightarrow> x \<in> set visited"
    by blast+
  show "after_deps (\<lambda>i. dt_dependsOn (task_at (task_map tasks) i)) visited" by (rule s(1))
  show "dt_taskID t \<in> set visited" if "t \<in> set tasks" "set (dt_dependsOn t) \<subseteq> set visited"
    using s(2) that task_at_id [OF d] by simp
qed

text \<open>The ids of a result are distinct ids of tasks, so a full result is a permutation.\<close>

lemma kahn_permutes:
  assumes k: "kahn (task_map tasks) (dependents_of tasks) deg [] queue = (result, visited)"
    and q: "set queue \<subseteq> dt_taskID ` set tasks"
  shows "distinct visited" "set visited \<subseteq> dt_taskID ` set tasks" "length result = length visited"
    and "length result = length tasks \<Longrightarrow> distinct (map dt_taskID tasks) \<and> mset result = mset tasks"
    and "result = map (task_at (task_map tasks)) (rev visited)"
proof -
  have "\<forall>i. set (dependents_at (dependents_of tasks) i) \<subseteq> dt_taskID ` set tasks" using dependents_tasks by blast
  from kahn_visits [OF k this] q show dv: "distinct visited" and sv: "set visited \<subseteq> dt_taskID ` set tasks" by simp_all
  from kahn_order [OF k] show r: "result = map (task_at (task_map tasks)) (rev visited)" by auto
  then show l: "length result = length visited" by simp
  show "distinct (map dt_taskID tasks) \<and> mset result = mset tasks" if "length result = length tasks"
  proof -
    have "card (set visited) = length tasks" using that l dv by (simp add: distinct_card)
    moreover have "card (set visited) \<le> card (set (map dt_taskID tasks))" using sv by (intro card_mono) auto
    ultimately have d: "distinct (map dt_taskID tasks)"
      using card_length [of "map dt_taskID tasks"] by (intro card_distinct) simp
    then have "card (dt_taskID ` set tasks) = length tasks" using distinct_card [of "map dt_taskID tasks"] by simp
    with sv \<open>card (set visited) = length tasks\<close> have "set visited = dt_taskID ` set tasks"
      by (intro card_subset_eq) auto
    then have "mset visited = mset (map dt_taskID tasks)" using dv d by (intro set_eq_iff_mset_eq_distinct [THEN iffD1]) auto
    then have "mset result = mset (map (task_at (task_map tasks)) (map dt_taskID tasks))"
      using r by (simp add: multiset.map_comp)
    also have "map (task_at (task_map tasks)) (map dt_taskID tasks) = tasks"
      using task_at_id [OF d] by (simp add: map_idI)
    finally show ?thesis using d by simp
  qed
qed

lemma topological_order:
  "case topologicalSortTasks tasks of
     Inr result \<Rightarrow> mset result = mset tasks \<and> runnable_order result
   | Inl stuck \<Rightarrow> \<not> (\<exists>ts. mset ts = mset tasks \<and> runnable_order ts)"
proof -
  define deg where "deg = mput_all (map (\<lambda>t. (dt_taskID t, int (length (dt_dependsOn t)))) tasks) mempty"
  define queue where "queue = sortByPriority (\<lambda>j. dt_priority (task_at (task_map tasks) j))
     (map dt_taskID (filter (\<lambda>t. mcount deg (dt_taskID t) = 0) tasks))"
  have q: "set queue = set (map dt_taskID (filter (\<lambda>t. mcount deg (dt_taskID t) = 0) tasks))"
    by (simp add: queue_def)
  obtain result visited where k: "kahn (task_map tasks) (dependents_of tasks) deg [] queue = (result, visited)" by force
  have sort: "topologicalSortTasks tasks =
      (if length result \<noteq> length tasks then Inl (filter (\<lambda>i. i \<notin> set visited) (map dt_taskID tasks)) else Inr result)"
    using k by (simp add: topologicalSortTasks_def Let_def deg_def queue_def)
  have "set queue \<subseteq> dt_taskID ` set tasks" using q by auto
  note p = kahn_permutes [OF k this]
  show ?thesis
  proof (cases "length result = length tasks")
    case True
    note d = p(4) [OF True]
    have "\<forall>i \<in> set (rev visited). dt_taskID (task_at (task_map tasks) i) = i"
      using p(2) task_at_id d by auto
    moreover have "after_deps (\<lambda>i. dt_dependsOn (task_at (task_map tasks) i)) (rev (rev visited) @ [])"
      using kahn_tasks(1) [OF _ deg_def q k] d by simp
    ultimately have "deps_first {} result" using after_deps_first p(5) by fastforce
    moreover have "mset (map dt_taskID result) = mset (map dt_taskID tasks)" using d by simp
    note mset_eq_imp_distinct_iff [OF this]
    ultimately show ?thesis using d sort True by (simp add: runnable_order_def)
  next
    case False
    have "\<not> runnable_order ts" if ts: "mset ts = mset tasks" for ts
    proof
      assume o: "runnable_order ts"
      have "mset (map dt_taskID ts) = mset (map dt_taskID tasks)" using ts by simp
      from mset_eq_imp_distinct_iff [OF this] o have d: "distinct (map dt_taskID tasks)"
        by (simp add: runnable_order_def)
      have "\<forall>t \<in> set ts. set (dt_dependsOn t) \<subseteq> set visited \<longrightarrow> dt_taskID t \<in> set visited"
        using kahn_tasks(2) [OF d deg_def q k] mset_eq_setD [OF ts] by blast
      with o have "dt_taskID ` set ts \<subseteq> set visited"
        by (intro deps_first_reaches [of "{}"]) (auto simp: runnable_order_def)
      then have "card (set (map dt_taskID tasks)) \<le> length visited"
        using mset_eq_setD [OF ts] p(1) by (simp add: card_mono flip: distinct_card)
      then have "length tasks \<le> length result" using distinct_card [OF d] p(3) by simp
      moreover have "length visited \<le> length tasks"
        using card_mono [OF _ p(2)] distinct_card [OF p(1)] card_image_le [of "set tasks" dt_taskID] card_length [of tasks] by simp
      ultimately show False using False p(3) by simp
    qed
    with sort False show ?thesis by auto
  qed
qed

text \<open>
  C5: The planner's order is correct and complete: ordering succeeds exactly when the tasks have
  an order in which every task comes after the tasks it depends on (and their ids differ), and then
  it is such an order of the given tasks.
\<close>

theorem topological_sort_correct:
  "case topologicalSortTasks tasks of
     Inr result \<Rightarrow> mset result = mset tasks \<and> runnable_order result
   | Inl stuck \<Rightarrow> \<not> (\<exists>ts. mset ts = mset tasks \<and> runnable_order ts)"
  by (rule topological_order)

section \<open>Executing the ordered tasks\<close>

named_theorems completed \<open>what delegation keeps of the completed subtasks\<close>

lemma completed_frame [completed]:
  "completedSubtasks (emitDecision t p m s) = completedSubtasks s"
  "completedSubtasks (put_artifact k v s) = completedSubtasks s"
  "completedSubtasks (complete k v s) = mput k v (completedSubtasks s)"
  by (simp_all add: emitDecision_def put_artifact_def complete_def Let_def split: option.split)

lemma completed_event [completed]: "completedSubtasks (recordDelegationEvent e s) = completedSubtasks s"
  by (simp add: recordDelegationEvent_def emitDelegationTriggerDecision_def appendDelegationEvent_def Let_def completed)

lemma completed_planned [completed]:
  "completedSubtasks (appendPlannedDelegationEvents plan s) = completedSubtasks s"
proof -
  have "completedSubtasks (fold (\<lambda>t s. recordDelegationEvent (planned_event s plan t) s) ts s) = completedSubtasks s" for ts
    by (induction ts arbitrary: s) (simp_all add: completed)
  then show ?thesis by (simp add: appendPlannedDelegationEvents_def)
qed

lemma completed_task [completed]:
  "completedSubtasks (emitTaskDecisions t s) = completedSubtasks s"
  "completedSubtasks (fold (\<lambda>a. put_artifact a v) as s) = completedSubtasks s"
proof -
  show "completedSubtasks (fold (\<lambda>a. put_artifact a v) as s) = completedSubtasks s"
    by (induction as arbitrary: s) (simp_all add: completed)
qed (simp add: emitTaskDecisions_def Let_def completed)

abbreviation finished :: "run_state \<Rightarrow> string set" where
  "finished s \<equiv> dom (mget (completedSubtasks s))"

lemma dom_mput [simp]: "dom (mget (mput k v m)) = insert k (dom (mget m))"
  by (auto simp: gmap)

lemma finished_subtask:
  "finished (subtask_succeeded i t so s) = insert (dt_taskID t) (finished s)"
  "finished (subtask_failed i t so m s) = insert (dt_taskID t) (finished s)"
  by (simp_all add: subtask_succeeded_def subtask_failed_def Let_def completed gmap)

lemma finished_attempt:
  "0 < n \<Longrightarrow> finished (fst (attemptSubtask sub i t m n (s, w))) = insert (dt_taskID t) (finished s)"
proof (induction n arbitrary: s w)
  case (Suc n)
  then show ?case by (simp add: finished_subtask completed Let_def split: prod.splits)
qed simp

lemma checkDependencies_known:
  "set deps \<subseteq> dom (mget completed) \<Longrightarrow> checkDependencies completed deps \<noteq> DepUnsatisfied d"
  by (induction deps) (auto split: if_splits)

lemma route_task_keeps [simp]:
  "dt_taskID (route_task i t) = dt_taskID t" "dt_dependsOn (route_task i t) = dt_dependsOn t"
  by (auto simp: route_task_def applyRoleRouting_def Let_def)

lemma runSubtask_finishes:
  assumes "set (dt_dependsOn t) \<subseteq> finished s"
  shows "fst (runSubtask sub i t (s, w)) = None \<and>
    finished (fst (snd (runSubtask sub i t (s, w)))) = insert (dt_taskID t) (finished s)"
proof (cases "checkDependencies (completedSubtasks s) (dt_dependsOn t)")
  case DepsOk
  then show ?thesis unfolding runSubtask_def Let_def by (simp add: completed finished_attempt)
next
  case (DepUnsatisfied d)
  with checkDependencies_known [OF assms] show ?thesis by blast
next
  case (DepFailed d)
  then show ?thesis unfolding runSubtask_def Let_def by (simp add: completed)
qed

lemma runSubtasks_finishes:
  "deps_first (finished s) ts \<Longrightarrow>
   \<exists>s' w'. runSubtasks sub i ts (s, w) = (None, s', w') \<and> finished s' = dt_taskID ` set ts \<union> finished s"
proof (induction ts arbitrary: s w)
  case (Cons t ts)
  then obtain s1 w1 where r: "runSubtask sub i t (s, w) = (None, s1, w1)"
      and f: "finished s1 = insert (dt_taskID t) (finished s)"
    using runSubtask_finishes [of t s sub i w] by (cases "runSubtask sub i t (s, w)") auto
  with Cons.prems Cons.IH [of s1 w1] show ?case by auto
qed simp

lemma deps_first_mono: "deps_first known ts \<Longrightarrow> known \<subseteq> known' \<Longrightarrow> deps_first known' ts"
proof (induction ts arbitrary: known known')
  case (Cons t ts)
  have d: "set (dt_dependsOn t) \<subseteq> known" "deps_first (insert (dt_taskID t) known) ts"
    using Cons.prems(1) by simp_all
  have "insert (dt_taskID t) known \<subseteq> insert (dt_taskID t) known'" using Cons.prems(2) by (rule insert_mono)
  from Cons.IH [OF d(2) this] d(1) Cons.prems(2) show ?case by (simp add: subset_trans)
qed simp

lemma sorted_tasks:
  assumes "topologicalSortTasks tasks = Inr ordered"
  shows "deps_first known ordered" "set ordered = set tasks"
  using topological_order [of tasks] assms deps_first_mono [of "{}" ordered known]
  by (auto simp: runnable_order_def dest: mset_eq_setD)

text \<open>The tasks delegated: those of the plan when there was none.\<close>

definition plannedTasks :: "run_state \<Rightarrow> 'w run_input \<Rightarrow> decomposed_task list \<Rightarrow> decomposed_task list" where
  "plannedTasks s input tasks =
    (if ro_decompositionPlan (out s) = None then
      (case generateDecompositionPlan (delegationReason s) (normalizeDelegationMode (ri_delegationMode input)) tasks of
         Inr (plan, planned) \<Rightarrow> planned | Inl _ \<Rightarrow> tasks)
     else tasks)"

definition plannedState :: "run_state \<Rightarrow> 'w run_input \<Rightarrow> decomposed_task list \<Rightarrow> run_state" where
  "plannedState s input tasks =
    (if ro_decompositionPlan (out s) = None then
      (case generateDecompositionPlan (delegationReason s) (normalizeDelegationMode (ri_delegationMode input)) tasks of
         Inr (plan, planned) \<Rightarrow>
           appendPlannedDelegationEvents plan (s\<lparr>out := (out s)\<lparr>ro_decompositionPlan := Some plan\<rparr>\<rparr>)
       | Inl _ \<Rightarrow> s)
     else s)"

lemma plannedState_completed: "completedSubtasks (plannedState s input tasks) = completedSubtasks s"
  by (simp add: plannedState_def completed split: sum.split prod.split)

lemma executeDelegatedTasks_eq:
  assumes "rn_subAgentRunner r = Some sub"
  shows "executeDelegatedTasks r input tasks (s, w) =
    (case topologicalSortTasks (plannedTasks s input tasks) of
       Inl unvisited \<Rightarrow> (Some (cycle_error unvisited), plannedState s input tasks, w)
     | Inr ordered \<Rightarrow>
       (case runSubtasks sub input ordered (plannedState s input tasks, w) of
          (Some e, sw) \<Rightarrow> (Some e, sw)
        | (None, s, w) \<Rightarrow>
           (None, s\<lparr>out := (out s)\<lparr>ro_finalText :=
              aggregateSubtaskResults (rn_map_order r) (completedSubtasks s)\<rparr>\<rparr>, w)))"
proof -
  have "(if ro_decompositionPlan (out s) = None then
                (case generateDecompositionPlan (delegationReason s) (normalizeDelegationMode (ri_delegationMode input)) tasks of
                   Inr (plan, planned) \<Rightarrow>
                     (planned, appendPlannedDelegationEvents plan
                        (s\<lparr>out := (out s)\<lparr>ro_decompositionPlan := Some plan\<rparr>\<rparr>))
                 | Inl _ \<Rightarrow> (tasks, s))
               else (tasks, s)) = (plannedTasks s input tasks, plannedState s input tasks)"
    by (simp add: plannedTasks_def plannedState_def split: sum.split prod.split)
  with assms show ?thesis by (simp add: executeDelegatedTasks_def)
qed

text \<open>
  C19: Delegated execution fails only when there is no sub-agent runner or the tasks have no
  dependency order; otherwise every delegated task ends with a result, whatever the sub-agents
  answer: no task is ever met before the tasks it depends on.
\<close>

theorem delegated_tasks_finish:
  "case executeDelegatedTasks r input tasks (s, w) of
     (None, s', w') \<Rightarrow> dom (mget (completedSubtasks s')) =
       dt_taskID ` set (plannedTasks s input tasks) \<union> dom (mget (completedSubtasks s))
   | (Some e, s', w') \<Rightarrow> rn_subAgentRunner r = None \<or>
       (\<exists>stuck. e = cycle_error stuck \<and> topologicalSortTasks (plannedTasks s input tasks) = Inl stuck)"
proof (cases "rn_subAgentRunner r")
  case None
  then show ?thesis by (simp add: executeDelegatedTasks_def)
next
  case (Some sub)
  note e = executeDelegatedTasks_eq [OF Some, of input tasks s w]
  show ?thesis
  proof (cases "topologicalSortTasks (plannedTasks s input tasks)")
    case (Inl stuck)
    with e show ?thesis by simp
  next
    case (Inr ordered)
    obtain s' w' where run: "runSubtasks sub input ordered (plannedState s input tasks, w) = (None, s', w')"
        and f: "finished s' = dt_taskID ` set ordered \<union> finished (plannedState s input tasks)"
      using runSubtasks_finishes [OF sorted_tasks(1) [OF Inr], of sub input "plannedState s input tasks" w] by blast
    from e have e': "executeDelegatedTasks r input tasks (s, w) = (None, s'\<lparr>out := (out s')\<lparr>ro_finalText :=
        aggregateSubtaskResults (rn_map_order r) (completedSubtasks s')\<rparr>\<rparr>, w')"
      by (simp only: Inr run sum.case prod.case option.case)
    from f show ?thesis unfolding e' by (simp add: plannedState_completed sorted_tasks(2) [OF Inr])
  qed
qed

end
