(* ===== verification/Model_Context.thy ===== *)
theory Model_Context
  imports Go_Runes Go_Text Go_Float Message_Content Run_Types Tool_Args
begin

text \<open>
  What internal/runtime/model.go sends to a provider: the messages of a request, cut to the context window of
  the model, the results of tools, and the content parts of a message.
\<close>

section \<open>Data\<close>

text \<open>The chat message of internal/agent/types.go, with all it carries but its time.\<close>

record model_message =
  mm_role :: string
  mm_content :: string
  mm_parts :: "content_part list"
  mm_name :: string
  mm_toolCallID :: string

definition plain_message_of :: "string \<Rightarrow> string \<Rightarrow> model_message" where
  "plain_message_of role content = \<lparr>mm_role = role, mm_content = content, mm_parts = [], mm_name = [], mm_toolCallID = []\<rparr>"

definition maxPromptToolResults :: nat where "maxPromptToolResults = 12"
definition maxPromptToolOutput :: int where "maxPromptToolOutput = 6000"
definition maxPromptToolError :: int where "maxPromptToolError = 1200"
definition defaultContextWindow :: int where "defaultContextWindow = 120000"
definition zaiGLM47ContextWindow :: int where "zaiGLM47ContextWindow = 200000"
definition contextCompactionRatio :: rat where "contextCompactionRatio = 4 / 5"
definition compactionKeepRecent :: nat where "compactionKeepRecent = 60"

definition contextWindowForModel :: "string \<Rightarrow> string \<Rightarrow> int" where
  "contextWindowForModel providerName modelName =
    (if to_lower (trim_space providerName) = ''zai'' \<and>
        to_lower (trim_space modelName) \<in> {''glm-4.7'', ''glm-4.7-flash'', ''glm-4.7-flashx''}
     then zaiGLM47ContextWindow else defaultContextWindow)"

definition normalizeProviderMessageRole :: "string \<Rightarrow> string \<Rightarrow> string" where
  "normalizeProviderMessageRole providerName role =
    (let cleanRole = to_lower (trim_space role) in if cleanRole = ''tool'' then ''user'' else cleanRole)"

section \<open>Content parts\<close>

text \<open>A part of a provider's request: a text, or the URL of an image. Without parts a message is its content.\<close>

datatype provider_part = TextPart string | ImagePart string

datatype provider_content = PlainContent string | PartsContent "provider_part list"

definition inlineImageDataURL :: "content_part \<Rightarrow> string" where
  "inlineImageDataURL part =
    (let mimeType = trim_space (cp_mimeType part); data = trim_space (cp_data part) in
     if mimeType = [] \<or> data = [] then []
     else case b64_decode data of None \<Rightarrow> [] | Some _ \<Rightarrow> ''data:'' @ mimeType @ '';base64,'' @ data)"

definition provider_part_of :: "content_part \<Rightarrow> provider_part list" where
  "provider_part_of part =
    (let ty = to_lower (trim_space (cp_type part)) in
     if ty = TypeText then (let t = trim_space (cp_text part) in if t = [] then [] else [TextPart t])
     else if ty = TypeImage then (let url = inlineImageDataURL part in if url = [] then [] else [ImagePart url])
     else [])"

definition is_text_part :: "provider_part \<Rightarrow> bool" where
  "is_text_part p = (case p of TextPart _ \<Rightarrow> True | ImagePart _ \<Rightarrow> False)"

definition buildProviderContentParts :: "string \<Rightarrow> content_part list \<Rightarrow> provider_part list" where
  "buildProviderContentParts content parts =
    (let providerParts = concat (map provider_part_of parts) in
     if \<not> list_ex is_text_part providerParts \<and> trim_space content \<noteq> [] then TextPart (trim_space content) # providerParts
     else providerParts)"

definition buildProviderChatMessage :: "model_message \<Rightarrow> string \<times> provider_content" where
  "buildProviderChatMessage item =
    (let parts = normalize_parts (mm_parts item) in
     if parts = [] then (mm_role item, PlainContent (mm_content item))
     else
      (let providerParts = buildProviderContentParts (trim_space (mm_content item)) parts in
       if providerParts = [] then (mm_role item, PlainContent (mm_content item)) else (mm_role item, PartsContent providerParts)))"

section \<open>Results of tools\<close>

definition truncateForPrompt :: "string \<Rightarrow> int \<Rightarrow> string" where
  "truncateForPrompt value maxChars =
    (let t = trim_space value in
     if maxChars \<le> 0 \<or> int (length t) \<le> maxChars then t
     else if maxChars \<le> 3 then take (nat maxChars) t
     else trim_space (take (nat (maxChars - 3)) t) @ ''...'')"

definition toolResultsContainErrors :: "tool_result list \<Rightarrow> bool" where
  "toolResultsContainErrors results = list_ex (\<lambda>r. trim_space (tr_error r) \<noteq> []) results"

definition with_lf :: "string \<Rightarrow> string" where
  "with_lf t = (if t \<noteq> [] \<and> \<not> suffix lf t then t @ lf else t)"

definition tool_result_text :: "tool_result \<Rightarrow> string" where
  "tool_result_text r =
    ''- id: '' @ tr_id r @ lf @
    (if tr_error r = [] then [] else ''  error: '' @ truncateForPrompt (tr_error r) maxPromptToolError @ lf) @
    (if trim_space (tr_output r) = [] then []
     else ''  output:'' @ lf @ ''  ```'' @ lf @ with_lf (truncateForPrompt (tr_output r) maxPromptToolOutput) @ ''  ```'' @ lf)"

definition appendToolResultsPrompt :: "string \<Rightarrow> tool_result list \<Rightarrow> string" where
  "appendToolResultsPrompt prompt results =
    (if results = [] then prompt
     else
      (let start = length results - maxPromptToolResults; shown = drop start results
       in with_lf prompt @ lf @ ''## Tool Results'' @ lf @ ''- total_results_so_far: '' @ itoa (int (length results)) @ lf @
          ''- If the user requested a specific number of tool calls and that count has been reached, stop calling tools and provide the final answer.'' @ lf @
          (if 0 < start then ''- older_results_omitted: '' @ itoa (int start) @ lf else []) @
          (if toolResultsContainErrors shown
           then lf @ ''## Tool Failure Recovery'' @ lf @
             ''- One or more tool calls failed. Diagnose the cause from error/output, then continue with a revised plan.'' @ lf @
             ''- Do not repeat the exact same failing call without changing inputs/approach.'' @ lf @
             ''- Ask the user only if blocked by missing credentials, permissions, or an irreversible decision.'' @ lf
           else []) @
          concat (map tool_result_text shown)))"

definition toolResultsText :: "tool_result list \<Rightarrow> string" where
  "toolResultsText results =
    trim_space (join_with lf
      (map (\<lambda>r. ''tool '' @ tr_id r @ (if tr_error r \<noteq> [] then '' error: '' @ tr_error r else '' output:'' @ lf @ tr_output r)) results))"

section \<open>Sizes\<close>

definition truncateRunes :: "string \<Rightarrow> int \<Rightarrow> string" where
  "truncateRunes value maxRunes =
    (let trimmed = trim_space value; r = runes trimmed in
     if maxRunes \<le> 0 \<or> int (length r) \<le> maxRunes then trimmed
     else if maxRunes \<le> 3 then of_runes (take (nat maxRunes) r)
     else trim_space (of_runes (take (nat (maxRunes - 3)) r)) @ ''...'')"

definition text_tokens :: "string \<Rightarrow> nat" where
  "text_tokens value = (let n = length (runes (trim_space value)) in (n + 3) div 4)"

definition part_tokens :: "content_part \<Rightarrow> nat" where
  "part_tokens p = text_tokens (cp_type p) + text_tokens (cp_text p) + text_tokens (cp_mimeType p) + length (cp_data p) div 16"

definition message_tokens :: "model_message \<Rightarrow> nat" where
  "message_tokens m = text_tokens (mm_role m) + text_tokens (mm_content m) + sum_list (map part_tokens (mm_parts m)) + 4"

definition estimateConversationTokens :: "string \<Rightarrow> model_message list \<Rightarrow> nat" where
  "estimateConversationTokens systemPrompt msgs = text_tokens systemPrompt + 8 + sum_list (map message_tokens msgs)"

definition is_system :: "model_message \<Rightarrow> bool" where
  "is_system m \<longleftrightarrow> to_lower (trim_space (mm_role m)) = ''system''"

section \<open>Compaction\<close>

definition compactSummaryText :: "string \<Rightarrow> int \<Rightarrow> string" where
  "compactSummaryText value maxRunes =
    (let value = join_with '' '' (go_fields (trim_space value)) in if value = [] then [] else truncateRunes value maxRunes)"

definition summary_line :: "model_message \<Rightarrow> string" where
  "summary_line m =
    (let role = to_lower (trim_space (mm_role m)); content = compactSummaryText (mm_content m) 180
     in if content = [] then [] else ''- '' @ (if role = [] then ''user'' else role) @ '': '' @ content @ lf)"

definition buildCompactionSummary :: "model_message list \<Rightarrow> string" where
  "buildCompactionSummary msgs =
    (if msgs = [] then []
     else trim_space (''Conversation compaction summary (older turns):'' @ lf @ concat (map summary_line (take 24 msgs)) @
       (if 24 < length msgs then ''- ... '' @ itoa (int (length msgs - 24)) @ '' older turn(s) omitted'' else [])))"

text \<open>The loop that drops the oldest message but a leading system message, until the rest fits or two are left.\<close>

definition drop_oldest :: "model_message list \<Rightarrow> model_message list" where
  "drop_oldest ms = (case ms of m # rest \<Rightarrow> if is_system m then m # drop 1 rest else rest | [] \<Rightarrow> [])"

function shrink_loop :: "string \<Rightarrow> int \<Rightarrow> model_message list \<Rightarrow> model_message list" where
  "shrink_loop systemPrompt budget ms =
    (if budget < int (estimateConversationTokens systemPrompt ms) \<and> 2 < length ms
     then shrink_loop systemPrompt budget (drop_oldest ms) else ms)"
  by pat_completeness auto
termination
  by (relation "measure (\<lambda>(s, b, ms). length ms)") (auto simp: drop_oldest_def split: list.splits)

declare shrink_loop.simps [simp del]

text \<open>The loop that cuts one message after another, but not the last one.\<close>

definition cut_message :: "model_message \<Rightarrow> model_message" where
  "cut_message m = m\<lparr>mm_content := truncateRunes (mm_content m) 640\<rparr>"

fun cut_loop :: "string \<Rightarrow> int \<Rightarrow> model_message list \<Rightarrow> model_message list \<Rightarrow> model_message list" where
  "cut_loop systemPrompt budget front (m # n # rest) =
     (if budget < int (estimateConversationTokens systemPrompt (front @ m # n # rest))
      then cut_loop systemPrompt budget (front @ [cut_message m]) (n # rest) else front @ m # n # rest)"
| "cut_loop systemPrompt budget front rest = front @ rest"

definition truncateCompactedMessages :: "string \<Rightarrow> model_message list \<Rightarrow> int \<Rightarrow> model_message list" where
  "truncateCompactedMessages systemPrompt msgs budget =
    (if msgs = [] then msgs else shrink_loop systemPrompt budget (cut_loop systemPrompt budget [] msgs))"

definition context_budget :: "int \<Rightarrow> int" where
  "context_budget win =
    \<lfloor>fmul (fl (of_int (if win \<le> 0 then defaultContextWindow else win))) (fl contextCompactionRatio)\<rfloor>"

definition kept_recent :: "nat \<Rightarrow> nat" where
  "kept_recent n =
    (let k = (if n \<le> compactionKeepRecent then n div 2 else compactionKeepRecent); k = (if k < 8 then 8 else k)
     in if n < k then n else k)"

definition compactMessagesForContext :: "string \<Rightarrow> model_message list \<Rightarrow> int \<Rightarrow> model_message list" where
  "compactMessagesForContext systemPrompt msgs win =
    (if msgs = [] then msgs
     else
      (let budget = context_budget win in
       if budget \<le> 0 then msgs
       else if int (estimateConversationTokens systemPrompt msgs) \<le> budget then msgs
       else
        (let n = length msgs; dropCount = (if n - kept_recent n < 1 then 1 else n - kept_recent n);
             summary = buildCompactionSummary (take dropCount msgs);
             compacted = (if summary = [] then [] else [plain_message_of ''system'' summary]) @ drop dropCount msgs;
             compacted = shrink_loop systemPrompt budget compacted
         in if budget < int (estimateConversationTokens systemPrompt compacted)
            then truncateCompactedMessages systemPrompt compacted budget else compacted)))"

section \<open>Requests\<close>

definition requestMessages :: "model_message list \<Rightarrow> string \<Rightarrow> model_message list" where
  "requestMessages msgs msg =
    (if msgs \<noteq> [] then msgs
     else if trim_space msg = [] then [] else [plain_message_of ''user'' (trim_space msg)])"

definition lastUserMessage :: "model_message list \<Rightarrow> string" where
  "lastUserMessage msgs =
    (case filter (\<lambda>m. to_lower (trim_space (mm_role m)) \<in> {[], ''user''}) msgs of
       [] \<Rightarrow> (if msgs = [] then [] else trim_space (mm_content (last msgs)))
     | ms \<Rightarrow> trim_space (mm_content (last ms)))"

text \<open>The messages of a request as they are sent: known roles, some content.\<close>

definition normalize_message :: "string \<Rightarrow> model_message \<Rightarrow> model_message list" where
  "normalize_message providerName item =
    (let role = to_lower (trim_space (mm_role item)); role = (if role = [] then ''user'' else role)
     in if role \<notin> {''system'', ''user'', ''assistant'', ''tool''} then []
        else
         (let content = trim_space (mm_content item); parts = normalize_parts (mm_parts item) in
          if content = [] \<and> parts = [] then []
          else [\<lparr>mm_role = normalizeProviderMessageRole providerName role, mm_content = content, mm_parts = parts,
                 mm_name = [], mm_toolCallID = []\<rparr>]))"

definition sent_messages :: "string \<Rightarrow> int \<Rightarrow> string \<Rightarrow> model_message list \<Rightarrow> (string \<times> provider_content) list" where
  "sent_messages providerName win promptText msgs =
    (''system'', PlainContent promptText) #
      map buildProviderChatMessage
        (compactMessagesForContext promptText (concat (map (normalize_message providerName) msgs)) win)"

lemma context_examples:
  "context_budget 0 = 96000" "context_budget 1 = 0" "context_budget 200000 = 160000"
  "truncateRunes '' abcdefgh '' 6 = ''abc...''"
  "map kept_recent [1, 7, 20, 60, 61] = [1, 7, 10, 30, 60]"
  by code_simp+

text \<open>A conversation of one message that does not fit is replaced by its summary: nothing of the user is sent.\<close>

lemma only_message_lost:
  "map mm_role (compactMessagesForContext [] [plain_message_of ''user'' ''hello''] 10) = [''system'']"
  by code_simp

end
