(* ===== verification/Model_Context_Facts.thy ===== *)
theory Model_Context_Facts
  imports Model_Context "HOL-Library.Sublist"
begin

text \<open>
  Compaction: what is sent fits the budget unless only two messages are left, the last message is sent as it
  is, and everything sent is a message of the conversation, perhaps cut, or the summary of the dropped ones.
\<close>

definition fits :: "string \<Rightarrow> int \<Rightarrow> model_message list \<Rightarrow> bool" where
  "fits systemPrompt budget ms \<longleftrightarrow> int (estimateConversationTokens systemPrompt ms) \<le> budget"

definition cut_of :: "model_message \<Rightarrow> model_message \<Rightarrow> bool" where
  "cut_of a b \<longleftrightarrow> a = b \<or> a = cut_message b"

section \<open>Dropping\<close>

lemma drop_oldest_kept:
  assumes "2 < length ms"
  shows "subseq (drop_oldest ms) ms \<and> length (drop_oldest ms) < length ms \<and> last (drop_oldest ms) = last ms \<and> drop_oldest ms \<noteq> []"
proof -
  obtain a b c rest where "ms = a # b # c # rest" using assms by (metis length_Suc_conv less_iff_Suc_add add_Suc numeral_2_eq_2)
  moreover have "subseq rest (a # rest)" "subseq rest (b # rest)" by (simp_all add: subseq_Cons')
  ultimately show ?thesis by (auto simp: drop_oldest_def)
qed

lemma shrink_loop_kept:
  "let res = shrink_loop s b ms in
   (fits s b res \<or> length res \<le> 2) \<and> subseq res ms \<and> length res \<le> length ms \<and> (ms = [] \<or> last res = last ms)"
proof (induction s b ms rule: shrink_loop.induct)
  case (1 s b ms)
  show ?case
  proof (cases "b < int (estimateConversationTokens s ms) \<and> 2 < length ms")
    case True
    then have eq: "shrink_loop s b ms = shrink_loop s b (drop_oldest ms)" by (simp add: shrink_loop.simps [of s b ms])
    have kept: "subseq (drop_oldest ms) ms" "length (drop_oldest ms) < length ms" "last (drop_oldest ms) = last ms" "drop_oldest ms \<noteq> []"
      using drop_oldest_kept True by blast+
    show ?thesis using 1 [OF True] kept unfolding eq Let_def by (auto intro: subseq_order.order_trans)
  next
    case False
    then have "shrink_loop s b ms = ms" by (subst shrink_loop.simps) auto
    then show ?thesis using False by (auto simp: fits_def)
  qed
qed

section \<open>Cutting\<close>

lemma cut_of_refl: "cut_of m m"
  by (simp add: cut_of_def)

lemma cut_of_all: "list_all2 cut_of ms ms"
  by (simp add: list.rel_refl cut_of_refl)

lemma cut_loop_kept:
  "list_all2 cut_of front orig \<Longrightarrow>
   list_all2 cut_of (cut_loop s b front ms) (orig @ ms) \<and> (ms = [] \<or> last (cut_loop s b front ms) = last ms)"
proof (induction s b front ms arbitrary: orig rule: cut_loop.induct)
  case (1 s b front m n rest)
  show ?case
  proof (cases "b < int (estimateConversationTokens s (front @ m # n # rest))")
    case True
    have "list_all2 cut_of (front @ [cut_message m]) (orig @ [m])" by (rule list_all2_appendI [OF 1(2)]) (simp add: cut_of_def)
    from 1(1) [OF True this] show ?thesis using True by simp
  next
    case False
    then show ?thesis using 1(2) by (simp add: list_all2_appendI cut_of_all cut_of_refl)
  qed
qed (auto simp: list_all2_appendI cut_of_all cut_of_refl)

lemma list_all2_subseq:
  "list_all2 P xs ys \<Longrightarrow> subseq xs' xs \<Longrightarrow> \<exists>ys'. subseq ys' ys \<and> list_all2 P xs' ys'"
proof (induction xs ys arbitrary: xs' rule: list_all2_induct)
  case Nil
  then show ?case by auto
next
  case (Cons x xs y ys)
  show ?case
  proof (cases "subseq xs' xs")
    case True
    from Cons.IH [OF this] obtain ys' where "subseq ys' ys" "list_all2 P xs' ys'" by blast
    then show ?thesis by (intro exI [of _ ys']) (simp add: list_emb_Cons)
  next
    case False
    then obtain zs where zs: "xs' = x # zs" "subseq zs xs" using Cons.prems by (auto elim: list_emb.cases)
    from Cons.IH [OF zs(2)] obtain ys' where "subseq ys' ys" "list_all2 P zs ys'" by blast
    then have "subseq (y # ys') (y # ys)" "list_all2 P xs' (y # ys')" using Cons.hyps(1) zs by auto
    then show ?thesis by blast
  qed
qed

definition cut_from :: "model_message list \<Rightarrow> model_message list \<Rightarrow> bool" where
  "cut_from res ms \<longleftrightarrow> (\<exists>kept. subseq kept ms \<and> list_all2 cut_of res kept)"

text \<open>What the second pass makes of what the first one left.\<close>

lemma truncate_kept:
  assumes "ms \<noteq> []"
  shows "let res = truncateCompactedMessages s ms b in
    (fits s b res \<or> length res \<le> 2) \<and> cut_from res ms \<and> length res \<le> length ms \<and> last res = last ms"
proof -
  let ?c = "cut_loop s b [] ms"
  have c: "list_all2 cut_of ?c ms" "last ?c = last ms" using cut_loop_kept [of "[]" "[]" s b ms] assms by simp_all
  then have "?c \<noteq> []" "length ?c = length ms" using assms list_all2_lengthD [OF c(1)] by auto
  then show ?thesis using shrink_loop_kept [of s b ?c] list_all2_subseq [OF c(1)] c(2) assms
    by (auto simp: truncateCompactedMessages_def cut_from_def Let_def)
qed

section \<open>Compaction\<close>

lemma shrunk_cut_from: "subseq res ms \<Longrightarrow> cut_from res ms"
  using cut_of_all unfolding cut_from_def by blast

lemma cut_from_trans: "cut_from res ms \<Longrightarrow> subseq ms ms' \<Longrightarrow> cut_from res ms'"
  unfolding cut_from_def by (meson subseq_order.order_trans)

text \<open>Both passes over the summary and the recent messages.\<close>

lemma passes_kept:
  assumes "ms \<noteq> []"
  shows "let first = shrink_loop s b ms;
      res = (if b < int (estimateConversationTokens s first) then truncateCompactedMessages s first b else first) in
    (fits s b res \<or> length res \<le> 2) \<and> cut_from res ms \<and> length res \<le> length ms \<and> last res = last ms"
proof -
  obtain f where f: "f = shrink_loop s b ms" by simp
  have kept: "subseq f ms" "length f \<le> length ms" "last f = last ms" "fits s b f \<or> length f \<le> 2"
    using shrink_loop_kept [of s b ms] assms by (simp_all add: f Let_def)
  show ?thesis
  proof (cases "b < int (estimateConversationTokens s f)")
    case False
    then show ?thesis using kept shrunk_cut_from unfolding Let_def f [symmetric] by simp
  next
    case True
    then have "f \<noteq> [] \<or> f = []" by simp
    show ?thesis
    proof (cases "f = []")
      case True
      then show ?thesis using kept shrunk_cut_from [OF kept(1)] unfolding Let_def f [symmetric]
        by (simp add: truncateCompactedMessages_def)
    next
      case False
      then show ?thesis using truncate_kept [OF False, of s b] kept True cut_from_trans unfolding Let_def f [symmetric] by auto
    qed
  qed
qed

lemma summary_some:
  assumes "msgs \<noteq> []"
  shows "buildCompactionSummary msgs \<noteq> []"
proof -
  have "CHR ''C'' \<in> set (trim_space (''Conversation compaction summary (older turns):'' @ r))" for r
    by (rule in_trim_space) (simp_all add: space_bytes_def)
  from this [of "lf @ concat (map summary_line (take 24 msgs)) @
      (if 24 < length msgs then ''- ... '' @ itoa (int (length msgs - 24)) @ '' older turn(s) omitted'' else [])"]
  show ?thesis using assms unfolding buildCompactionSummary_def by (metis empty_iff list.set(1))
qed

lemma dropped_some: "2 \<le> m \<Longrightarrow> max 1 (m - kept_recent m) < (m :: nat)"
  unfolding kept_recent_def Let_def compactionKeepRecent_def by (simp split: if_split)


end
