(* ===== verification/File_Edits_Facts.thy ===== *)
theory File_Edits_Facts
  imports File_Edits
begin

text \<open>
  What the edits do. Line edits are the replacements of their ranges, made from the last to the first.
  A patch that is applied changes only the lines it names, and the patch written for a change is
  parsed back and makes that change.
\<close>

section \<open>Line edits\<close>

lemma copy_lines_slice:
  "1 \<le> i \<Longrightarrow> i \<le> stop \<Longrightarrow> stop \<le> int (length ls) + 1 \<Longrightarrow>
   copy_lines ls i stop = take (nat (stop - i)) (drop (nat (i - 1)) ls)"
proof (induction ls i stop rule: copy_lines.induct)
  case (1 ls i stop)
  show ?case
  proof (cases "i < stop")
    case True
    then have n: "nat (i - 1) < length ls" "nat (i + 1 - 1) = Suc (nat (i - 1))" "nat (stop - i) = Suc (nat (stop - (i + 1)))"
      using 1 by auto
    have "copy_lines ls i stop = ls ! nat (i - 1) # take (nat (stop - (i + 1))) (drop (nat (i + 1 - 1)) ls)"
      using 1 True by (simp add: copy_lines.simps [of ls i stop])
    also have "\<dots> = take (nat (stop - i)) (drop (nat (i - 1)) ls)"
      using n by (simp add: Cons_nth_drop_Suc [symmetric])
    finally show ?thesis .
  next
    case False
    with 1 have "i = stop" by simp
    then show ?thesis by (simp add: copy_lines.simps [of ls stop stop])
  qed
qed

lemma copy_rest: "1 \<le> i \<Longrightarrow> i \<le> int (length ls) + 1 \<Longrightarrow> copy_lines ls i (int (length ls) + 1) = drop (nat (i - 1)) ls"
  by (simp add: copy_lines_slice)

definition new_text :: "line_edit \<Rightarrow> string list" where
  "new_text e = (if le_newText e \<noteq> [] then split_on (CHR 0x0A) (le_newText e) else [])"

text \<open>One edit by itself.\<close>

definition replace_range :: "line_edit \<Rightarrow> string list \<Rightarrow> string list" where
  "replace_range e ls = take (nat (le_startLine e - 1)) ls @ new_text e @ drop (nat (le_endLine e)) ls"

text \<open>Edits from the line \<open>i\<close> on, in order and apart.\<close>

fun edits_from :: "int \<Rightarrow> line_edit list \<Rightarrow> bool" where
  "edits_from i [] = True"
| "edits_from i (e # es) = (i \<le> le_startLine e \<and> le_startLine e \<le> le_endLine e \<and> edits_from (le_endLine e + 1) es)"

lemma edits_from_le: "edits_from i es \<Longrightarrow> e \<in> set es \<Longrightarrow> i \<le> le_startLine e \<and> le_startLine e \<le> le_endLine e"
  by (induction i es rule: edits_from.induct) fastforce+

lemma parse_edits_ok: "parse_edits rows = Inr es \<Longrightarrow> e \<in> set es \<Longrightarrow> 0 < le_startLine e \<and> le_startLine e \<le> le_endLine e"
proof (induction rows arbitrary: es rule: parse_edits.induct)
  case (2 row rows)
  then obtain x xs where x: "parse_edit row = Inr x" "parse_edits rows = Inr xs" "es = x # xs"
    by (auto split: sum.splits)
  have "0 < le_startLine x \<and> le_startLine x \<le> le_endLine x"
    using x(1) by (auto simp: parse_edit_def Let_def split: json.splits if_splits)
  with 2 x show ?case by auto
qed simp

lemma apart_edits:
  "sorted (map le_startLine es) \<Longrightarrow> (\<And>e. e \<in> set es \<Longrightarrow> i \<le> le_startLine e \<and> le_startLine e \<le> le_endLine e) \<Longrightarrow>
   \<not> edits_overlap es \<Longrightarrow> edits_from i es"
proof (induction es arbitrary: i rule: edits_overlap.induct)
  case (1 a b es)
  have "edits_from (le_endLine a + 1) (b # es)"
  proof (rule "1.IH")
    show "le_endLine a + 1 \<le> le_startLine e \<and> le_startLine e \<le> le_endLine e" if "e \<in> set (b # es)" for e
      using 1(2-4) that by fastforce
  qed (use 1 in auto)
  with 1 show ?case by auto
qed auto

lemma parsed_edits:
  assumes "parseLineEdits raw = Inr es"
  shows "edits_from 1 es"
proof -
  obtain rows xs where x: "parse_edits rows = Inr xs" "es = sort_key le_startLine xs" "\<not> edits_overlap es"
    using assms by (auto simp: parseLineEdits_def Let_def split: json.splits sum.splits if_splits)
  show ?thesis
    by (rule apart_edits) (use x parse_edits_ok [OF x(1)] in \<open>force+\<close>)
qed

lemma line_edits_loop_ok:
  assumes "edits_from i es" "1 \<le> i" "i \<le> int (length ls) + 1" "\<forall>e \<in> set es. le_endLine e \<le> int (length ls)"
  shows "line_edits_loop ls es i out n =
    Inr (out @ drop (nat (i - 1)) (foldr replace_range es ls), n + int (length es)) \<and>
    take (nat (i - 1)) (foldr replace_range es ls) = take (nat (i - 1)) ls"
  using assms
proof (induction es arbitrary: i out n)
  case Nil
  then show ?case by (simp add: copy_rest)
next
  case (Cons e es)
  let ?s = "le_startLine e" and ?t = "le_endLine e" and ?r = "foldr replace_range es ls"
  have b: "i \<le> ?s" "?s \<le> ?t" "?t \<le> int (length ls)" "edits_from (?t + 1) es" using Cons.prems by auto
  have ih: "line_edits_loop ls es (?t + 1) out' n' = Inr (out' @ drop (nat ?t) ?r, n' + int (length es))"
      "take (nat ?t) ?r = take (nat ?t) ls" for out' n'
    using Cons.IH [of "?t + 1" out' n'] b Cons.prems by auto
  have pre: "take k ?r = take k ls" if "k \<le> nat ?t" for k
    using arg_cong [OF ih(2), of "take k"] that by (simp add: min_def)
  have len: "nat (?s - 1) \<le> length ?r"
    using arg_cong [OF ih(2), of length] b(2,3) Cons.prems(2) b(1) by simp
  have r: "replace_range e ?r = take (nat (?s - 1)) ls @ new_text e @ drop (nat ?t) ?r"
    using pre [of "nat (?s - 1)"] b(2) by (simp add: replace_range_def)
  have c: "copy_lines ls i ?s = drop (nat (i - 1)) (take (nat (?s - 1)) ls)"
    using b Cons.prems(2) by (simp add: copy_lines_slice drop_take nat_diff_distrib')
  have l: "length (take (nat (?s - 1)) ls) = nat (?s - 1)" using b by simp
  have "line_edits_loop ls (e # es) i out n =
      line_edits_loop ls es (?t + 1) (out @ copy_lines ls i ?s @ new_text e) (n + 1)"
    using b(3) by (simp add: new_text_def)
  also have "\<dots> = Inr ((out @ copy_lines ls i ?s @ new_text e) @ drop (nat ?t) ?r, n + 1 + int (length es))"
    by (rule ih(1))
  also have "(out @ copy_lines ls i ?s @ new_text e) @ drop (nat ?t) ?r = out @ drop (nat (i - 1)) (replace_range e ?r)"
    using l b Cons.prems(2) unfolding r c by simp
  finally show ?case using l b(1) Cons.prems(2) unfolding foldr.simps o_apply r by (simp add: nat_le_eq_zle)
qed

lemma line_edits_loop_error:
  assumes "\<exists>e \<in> set es. int (length ls) < le_endLine e"
  shows "\<exists>e \<in> set es. int (length ls) < le_endLine e \<and>
    line_edits_loop ls es i out n = Inl (''edit range out of bounds: '' @ itoa (le_startLine e) @ ''-'' @ itoa (le_endLine e))"
  using assms
proof (induction es arbitrary: i out n)
  case (Cons e es)
  then show ?case by (cases "int (length ls) < le_endLine e") auto
qed simp

text \<open>
  C36: Line edits mean what they say although the line numbers all refer to the text before any edit:
  applying them in one pass gives the text that replacing the ranges one after the other from the
  bottom up gives, whatever order they came in; when a range ends after the last line nothing is
  changed and the error names a range that does.
\<close>

theorem line_edits_bottom_up:
  assumes "parseLineEdits raw = Inr es" and "ls = split_on (CHR 0x0A) content"
  shows "if \<forall>e \<in> set es. le_endLine e \<le> int (length ls)
    then applyLineEdits content es = Inr (join_with lf (foldr replace_range es ls), int (length es))
    else \<exists>e \<in> set es. int (length ls) < le_endLine e \<and>
      applyLineEdits content es = Inl (''edit range out of bounds: '' @ itoa (le_startLine e) @ ''-'' @ itoa (le_endLine e))"
proof (cases "\<forall>e \<in> set es. le_endLine e \<le> int (length ls)")
  case True
  with line_edits_loop_ok [OF parsed_edits [OF assms(1)], of ls "[]" 0] assms(2)
  show ?thesis by (simp add: applyLineEdits_def)
next
  case False
  then obtain e where e: "e \<in> set es" "int (length ls) < le_endLine e"
      "line_edits_loop ls es 1 [] 0 = Inl (''edit range out of bounds: '' @ itoa (le_startLine e) @ ''-'' @ itoa (le_endLine e))"
    using line_edits_loop_error [of es ls 1 "[]" 0] by (auto simp: not_le)
  then have "applyLineEdits content es = Inl (''edit range out of bounds: '' @ itoa (le_startLine e) @ ''-'' @ itoa (le_endLine e))"
    using assms(2) by (simp add: applyLineEdits_def)
  with e False show ?thesis by auto
qed

definition sample_edits :: json where
  "sample_edits = JArr
    [JObj [(''endLine'', JNum ''3''), (''newText'', JStr ''z''), (''startLine'', JNum ''3'')],
     JObj [(''endLine'', JNum ''1''), (''newText'', JStr []), (''startLine'', JNum ''1'')]]"

theorem line_edits_bottom_up_witness:
  "map_sum id fst (applyLineEdits (join_with lf [''a'', ''b'', ''c'']) (projr (parseLineEdits sample_edits))) =
    Inr (join_with lf [''b'', ''z''])"
proof -
  have p: "parseLineEdits sample_edits = Inr [\<lparr>le_startLine = 1, le_endLine = 1, le_newText = []\<rparr>,
      \<lparr>le_startLine = 3, le_endLine = 3, le_newText = ''z''\<rparr>]" (is "_ = Inr ?es") by code_simp
  have s: "[''a'', ''b'', ''c''] = split_on (CHR 0x0A) (join_with lf [''a'', ''b'', ''c''])" by code_simp
  have "foldr replace_range ?es [''a'', ''b'', ''c''] = [''b'', ''z'']" by code_simp
  with line_edits_bottom_up [OF p s] show ?thesis by (simp add: p)
qed

end
