(* ===== verification/Patch_Facts.thy ===== *)
theory Patch_Facts
  imports File_Edits_Facts
begin

text \<open>
  Unified diffs: what applying one means, and that a printed diff is parsed back.
\<close>

section \<open>Applying\<close>

definition old_side :: "diff_hunk \<Rightarrow> string list" where
  "old_side h = map tl (filter (\<lambda>r. hd r \<in> set '' -'') (dh_lines h))"

definition new_side :: "diff_hunk \<Rightarrow> string list" where
  "new_side h = map tl (filter (\<lambda>r. hd r \<in> set '' +'') (dh_lines h))"

definition hunk_start :: "diff_hunk \<Rightarrow> int" where
  "hunk_start h = (if dh_oldStart h = 0 \<and> dh_oldCount h = 0 then 1 else dh_oldStart h)"

text \<open>\<open>patched i hs old new\<close>: the hunks turn the lines from number \<open>i\<close> on into the new ones.\<close>

inductive patched :: "int \<Rightarrow> diff_hunk list \<Rightarrow> string list \<Rightarrow> string list \<Rightarrow> bool" where
  rest: "patched i [] ls ls"
| hunk: "hunk_start h = i + int (length skip) \<Longrightarrow>
    patched (i + int (length skip) + int (length (old_side h))) hs ls ls' \<Longrightarrow>
    patched i (h # hs) (skip @ old_side h @ ls) (skip @ new_side h @ ls')"

inductive_simps patched_nil [simp]: "patched i [] old new"
inductive_cases patched_cons: "patched i (h # hs) old new"

lemma line_at:
  assumes "1 \<le> i"
  shows "i \<le> int (length src) \<and> src ! nat (i - 1) = t \<Longrightarrow> drop (nat (i - 1)) src = t # drop (nat (i + 1 - 1)) src"
    "\<not> (i \<le> int (length src) \<and> src ! nat (i - 1) = t) \<Longrightarrow> drop (nat (i - 1)) src \<noteq> t # ls"
proof -
  obtain n where n: "i = int n + 1" using assms by (metis add.commute zle_iff_zadd)
  show "drop (nat (i - 1)) src = t # drop (nat (i + 1 - 1)) src" if "i \<le> int (length src) \<and> src ! nat (i - 1) = t"
    using that by (auto simp: n Cons_nth_drop_Suc Suc_nat_eq_nat_zadd1 nat_add_distrib)
  show "drop (nat (i - 1)) src \<noteq> t # ls" if "\<not> (i \<le> int (length src) \<and> src ! nat (i - 1) = t)"
  proof
    assume d: "drop (nat (i - 1)) src = t # ls"
    then have "n < length src" by (metis n add_diff_cancel_right' drop_all list.distinct(1) nat_int not_le)
    moreover have "src ! n = t" using d nth_via_drop [of n src t ls] by (simp add: n)
    ultimately show False using that by (simp add: n)
  qed
qed

lemma apply_rows_iff:
  assumes "1 \<le> i" "i \<le> int (length src) + 1"
  shows "apply_rows src rows i out = Inr (j, res) \<longleftrightarrow>
    (let old = map tl (filter (\<lambda>r. hd r \<in> set '' -'') rows) in
     j = i + int (length old) \<and> drop (nat (i - 1)) src = old @ drop (nat (j - 1)) src \<and> j \<le> int (length src) + 1 \<and>
     res = out @ map tl (filter (\<lambda>r. hd r \<in> set '' +'') rows))"
  using assms
proof (induction rows arbitrary: i out)
  case Nil
  then show ?case by auto
next
  case (Cons row rows)
  note at = line_at [OF Cons.prems(1), of src "tl row"]
  consider (kept) "hd row = CHR '' ''" | (removed) "hd row = CHR ''-''" | (added) "hd row = CHR ''+''"
    | (other) "hd row \<notin> set '' +-''" by auto
  then show ?case
  proof cases
    case kept
    then show ?thesis
      using at Cons.IH [of "i + 1" "out @ [tl row]"] Cons.prems(1)
      by (cases "i \<le> int (length src) \<and> src ! nat (i - 1) = tl row") (auto simp: Let_def)
  next
    case removed
    then show ?thesis
      using at Cons.IH [of "i + 1" out] Cons.prems(1)
      by (cases "i \<le> int (length src) \<and> src ! nat (i - 1) = tl row") (auto simp: Let_def)
  qed (use Cons in \<open>auto simp: Let_def\<close>)
qed

lemma apply_hunks_sound:
  assumes "1 \<le> i" "i \<le> int (length src) + 1" "apply_hunks src idx hs i out = Inr res"
  shows "\<exists>new. patched i hs (drop (nat (i - 1)) src) new \<and> res = out @ new"
  using assms
proof (induction hs arbitrary: idx i out)
  case Nil
  then show ?case by (simp add: copy_rest)
next
  case (Cons h hs)
  let ?t = "hunk_start h"
  have b: "0 < ?t" "i \<le> ?t" "?t \<le> int (length src) + 1"
    using Cons.prems(3) by (auto simp: Let_def hunk_start_def split: if_splits)
  obtain j out' where rows: "apply_rows src (dh_lines h) ?t (out @ copy_lines src i ?t) = Inr (j, out')"
    and rest: "apply_hunks src (idx + 1) hs j out' = Inr res"
    using Cons.prems(3) by (auto simp: Let_def hunk_start_def split: if_splits sum.splits)
  have j: "j = ?t + int (length (old_side h))" "drop (nat (?t - 1)) src = old_side h @ drop (nat (j - 1)) src"
    "j \<le> int (length src) + 1" "out' = (out @ copy_lines src i ?t) @ new_side h"
    using rows b apply_rows_iff [of ?t src "dh_lines h" "out @ copy_lines src i ?t" j out']
    by (auto simp: old_side_def new_side_def Let_def)
  obtain new where new: "patched j hs (drop (nat (j - 1)) src) new" "res = out' @ new"
    using Cons.IH [of j "idx + 1" out'] j b rest by auto
  let ?skip = "copy_lines src i ?t"
  have skip: "?skip = take (nat (?t - i)) (drop (nat (i - 1)) src)"
    using b Cons.prems(1) by (simp add: copy_lines_slice)
  have len: "i + int (length ?skip) = ?t" using b Cons.prems(1) by (simp add: skip)
  have "drop (nat (i - 1)) src = ?skip @ drop (nat (?t - i)) (drop (nat (i - 1)) src)"
    unfolding skip by (rule append_take_drop_id [symmetric])
  also have "drop (nat (?t - i)) (drop (nat (i - 1)) src) = drop (nat (?t - 1)) src"
    using b Cons.prems(1) by (simp add: nat_diff_distrib' algebra_simps)
  finally have old: "drop (nat (i - 1)) src = ?skip @ old_side h @ drop (nat (j - 1)) src" using j(2) by simp
  have "patched i (h # hs) (?skip @ old_side h @ drop (nat (j - 1)) src) (?skip @ new_side h @ new)"
    using len new(1) j(1) by (intro patched.hunk) simp_all
  with old new(2) j(4) show ?case by auto
qed

lemma drop_more:
  assumes "1 \<le> i" "drop (nat (i - 1)) src = a @ b"
  shows "drop (nat (i + int (length a) - 1)) src = b"
proof -
  obtain m where m: "i = int m + 1" using assms(1) by (metis add.commute zle_iff_zadd)
  have "drop (length a) (drop m src) = b" using assms(2) by (simp add: m)
  then show ?thesis by (simp add: m nat_add_distrib add.commute)
qed

lemma apply_hunks_complete:
  assumes "patched i hs old new" "1 \<le> i" "i \<le> int (length src) + 1" "drop (nat (i - 1)) src = old"
  shows "apply_hunks src idx hs i out = Inr (out @ new)"
  using assms
proof (induction arbitrary: idx out rule: patched.induct)
  case (rest i ls)
  then show ?case by (simp add: copy_rest)
next
  case (hunk h i skip hs ls ls')
  let ?t = "hunk_start h"
  have t: "?t = i + int (length skip)" using hunk by simp
  have dt: "drop (nat (?t - 1)) src = old_side h @ ls"
    unfolding t by (rule drop_more [OF hunk.prems(1) hunk.prems(3)])
  have len: "length src = nat (i - 1) + length skip + length (old_side h) + length ls"
    using hunk.prems(2) arg_cong [OF hunk.prems(3), of length] hunk.prems(1) by auto
  define j where "j = ?t + int (length (old_side h))"
  have "1 \<le> ?t" using hunk.prems(1) t by simp
  from drop_more [OF this dt] have dj: "drop (nat (j - 1)) src = ls" by (simp add: j_def)
  have skip: "copy_lines src i ?t = skip"
    using hunk.prems t len by (simp add: copy_lines_slice)
  have b: "1 \<le> ?t" "?t \<le> int (length src) + 1" "1 \<le> j" "j \<le> int (length src) + 1"
    using t hunk.prems(1) len by (auto simp: j_def)
  have rows: "apply_rows src (dh_lines h) ?t (out @ skip) = Inr (j, (out @ skip) @ new_side h)"
    unfolding apply_rows_iff [OF b(1,2)] Let_def old_side_def [symmetric] new_side_def [symmetric] dj
    using dt b(4) by (simp only: j_def simp_thms)
  have "j = i + int (length skip) + int (length (old_side h))" by (simp only: j_def t)
  then have rest: "apply_hunks src (idx + 1) hs j ((out @ skip) @ new_side h) = Inr (((out @ skip) @ new_side h) @ ls')"
    using hunk.IH b(3,4) dj by blast
  have "\<not> ?t \<le> 0" "\<not> ?t < i" "\<not> int (length src) + 1 < ?t" using t hunk.prems(1) len by auto
  then show ?case
    unfolding apply_hunks.simps Let_def hunk_start_def [symmetric] skip rows sum.case prod.case rest by simp
qed

lemma patch_applies_iff:
  "applyUnifiedDiff content hs = Inr (updated, n) \<longleftrightarrow>
   (\<exists>new. patched 1 hs (fst (splitFileLines content)) new \<and>
      updated = join_with lf new @ (if snd (splitFileLines content) then lf else []) \<and> n = int (length hs))"
proof -
  obtain src tr where st: "splitFileLines content = (src, tr)" by (rule prod.exhaust)
  have eq: "patched 1 hs src new \<longleftrightarrow> apply_hunks src 0 hs 1 [] = Inr new" for new
    using apply_hunks_sound [of 1 src 0 hs "[]" new] apply_hunks_complete [of 1 hs src new src 0 "[]"] by auto
  show ?thesis unfolding applyUnifiedDiff_def st prod.case fst_conv snd_conv eq
    by (cases "apply_hunks src 0 hs 1 []") auto
qed

text \<open>
  C9: A unified diff changes exactly what it says. It is applied if and only if the lines of the file
  fall into pieces, the old side of each hunk at the line its header names and unchanged pieces between
  them; the result is then the file with every old side replaced by the new side, and the
  final line end kept.
\<close>

theorem patch_exact:
  "applyUnifiedDiff content hs = Inr (updated, n) \<longleftrightarrow>
   (\<exists>new. patched 1 hs (fst (splitFileLines content)) new \<and>
      updated = join_with lf new @ (if snd (splitFileLines content) then lf else []) \<and> n = int (length hs))"
  by (rule patch_applies_iff)

section \<open>The header of a hunk\<close>

text \<open>\<open>leads r s c s' c'\<close>: the preferred match of \<open>r\<close> goes from text \<open>s\<close> and groups \<open>c\<close> to \<open>s'\<close> and \<open>c'\<close>.\<close>

definition leads :: "regex \<Rightarrow> string \<Rightarrow> (nat \<times> string) list \<Rightarrow> string \<Rightarrow> (nat \<times> string) list \<Rightarrow> bool" where
  "leads r s c s' c' \<longleftrightarrow>
    (\<forall>p. \<exists>p' ts. rx r \<lparr>rs_prev = p, rs_rest = s, rs_caps = c\<rparr> = \<lparr>rs_prev = p', rs_rest = s', rs_caps = c'\<rparr> # ts)"

lemma leads_eps: "leads REps s c s c"
  by (simp add: leads_def)

lemma leads_set: "in_set neg rs x \<Longrightarrow> leads (RSet neg rs) (x # s) c s c"
  by (simp add: leads_def)

lemma leads_seq: "leads a s c t d \<Longrightarrow> leads b t d u e \<Longrightarrow> leads (RSeq a b) s c u e"
  unfolding leads_def by (metis append_Cons concat.simps(2) list.simps(9) rx.simps(3))

lemma leads_left: "leads a s c t d \<Longrightarrow> leads (RAlt a b) s c t d"
  unfolding leads_def by (metis append_Cons rx.simps(4))

lemma leads_skip: "leads (RAlt (RSeq (RSet neg rs) a) REps) [] c [] c"
  by (simp add: leads_def)

lemma leads_end: "leads REnd [] c [] c"
  by (simp add: leads_def when_at_def)

lemma leads_cap: "leads a (w @ t) c t d \<Longrightarrow> leads (RCap n a) (w @ t) c t ((n, w) # d)"
  unfolding leads_def
proof
  fix p
  assume "\<forall>p. \<exists>p' ts. rx a \<lparr>rs_prev = p, rs_rest = w @ t, rs_caps = c\<rparr> = \<lparr>rs_prev = p', rs_rest = t, rs_caps = d\<rparr> # ts"
  then obtain p' ts where "rx a \<lparr>rs_prev = p, rs_rest = w @ t, rs_caps = c\<rparr> = \<lparr>rs_prev = p', rs_rest = t, rs_caps = d\<rparr> # ts"
    by blast
  then show "\<exists>p' ts. rx (RCap n a) \<lparr>rs_prev = p, rs_rest = w @ t, rs_caps = c\<rparr> =
      \<lparr>rs_prev = p', rs_rest = t, rs_caps = (n, w) # d\<rparr> # ts" by simp
qed

definition digit_set :: regex where
  "digit_set = RSet False [(48, 57)]"

lemma digit_in: "in_set False [(48, 57)] c \<longleftrightarrow> is_digit_char c"
  by (simp add: in_set_def is_digit_char_def)

lemma leads_digits:
  "list_all is_digit_char ds \<Longrightarrow> t = [] \<or> \<not> is_digit_char (hd t) \<Longrightarrow> leads (RStar True digit_set) (ds @ t) c t c"
  unfolding leads_def
proof (induction ds)
  case Nil
  then have "rx digit_set \<lparr>rs_prev = p, rs_rest = t, rs_caps = c\<rparr> = []" for p
    by (cases t) (auto simp: digit_set_def digit_in)
  then show ?case by (simp add: star_of.simps)
next
  case (Cons d ds)
  show ?case
  proof
    fix p
    have one: "rx digit_set \<lparr>rs_prev = p, rs_rest = (d # ds) @ t, rs_caps = c\<rparr> = [\<lparr>rs_prev = Some d, rs_rest = ds @ t, rs_caps = c\<rparr>]"
      using Cons.prems(1) by (simp add: digit_set_def digit_in)
    from Cons obtain p' ts where
      "star_of True (rx digit_set) \<lparr>rs_prev = Some d, rs_rest = ds @ t, rs_caps = c\<rparr> = \<lparr>rs_prev = p', rs_rest = t, rs_caps = c\<rparr> # ts"
      by fastforce
    then show "\<exists>p' ts. rx (RStar True digit_set) \<lparr>rs_prev = p, rs_rest = (d # ds) @ t, rs_caps = c\<rparr> =
        \<lparr>rs_prev = p', rs_rest = t, rs_caps = c\<rparr> # ts"
      unfolding rx.simps(5) star_of.simps [of True "rx digit_set" "\<lparr>rs_prev = p, rs_rest = (d # ds) @ t, rs_caps = c\<rparr>"] one
      by simp
  qed
qed

lemma leads_number:
  assumes "list_all is_digit_char ds" "ds \<noteq> []" "t = [] \<or> \<not> is_digit_char (hd t)"
  shows "leads (RCap n (RSeq (RSeq digit_set (RStar True digit_set)) REps)) (ds @ t) c t ((n, ds) # c)"
proof (rule leads_cap)
  obtain d es where ds: "ds = d # es" using assms(2) by (cases ds) auto
  have "leads digit_set (d # es @ t) c (es @ t) c"
    unfolding digit_set_def by (rule leads_set) (use assms(1) ds digit_in in auto)
  moreover have "leads (RStar True digit_set) (es @ t) c t c" using assms(1,3) ds by (intro leads_digits) auto
  ultimately show "leads (RSeq (RSeq digit_set (RStar True digit_set)) REps) (ds @ t) c t c"
    unfolding ds append_Cons by (rule leads_seq [OF leads_seq leads_eps])
qed

abbreviation lit :: "char \<Rightarrow> regex" where
  "lit c \<equiv> RSet False [(of_char c, of_char c)]"

lemma leads_lit: "leads (lit x) (x # s) c s c"
  by (rule leads_set) (simp add: in_set_def)

definition number_group :: "nat \<Rightarrow> regex" where
  "number_group n = RCap n (RSeq (RSeq digit_set (RStar True digit_set)) REps)"

definition count_group :: "nat \<Rightarrow> regex" where
  "count_group n = RAlt (RSeq (lit (CHR '','')) (RSeq (number_group n) REps)) REps"

definition header_regex :: regex where
  "header_regex = RSeq (lit (CHR ''@'')) (RSeq (lit (CHR ''@'')) (RSeq (lit (CHR '' '')) (RSeq (lit (CHR ''-''))
    (RSeq (number_group 1) (RSeq (count_group 2) (RSeq (lit (CHR '' '')) (RSeq (lit (CHR ''+''))
    (RSeq (number_group 3) (RSeq (count_group 4) (RSeq (lit (CHR '' '')) (RSeq (lit (CHR ''@'')) (RSeq (lit (CHR ''@''))
    (RSeq (RAlt (RSeq (lit (CHR '' '')) (RSeq (RStar True (RSet True [(10, 10)])) REps)) REps) (RSeq REnd REps))))))))))))))"

lemma header_pattern: "unifiedDiffHeaderPattern = RSeq RBegin header_regex"
  by code_simp

lemma leads_count:
  "list_all is_digit_char ds \<Longrightarrow> ds \<noteq> [] \<Longrightarrow> t = [] \<or> \<not> is_digit_char (hd t) \<Longrightarrow>
   leads (count_group n) (CHR '','' # ds @ t) c t ((n, ds) # c)"
  unfolding count_group_def number_group_def by (rule leads_left [OF leads_seq [OF leads_lit leads_seq [OF leads_number leads_eps]]])

definition header_text :: "string \<Rightarrow> string \<Rightarrow> string \<Rightarrow> string \<Rightarrow> string" where
  "header_text a b c d = ''@@ -'' @ a @ '','' @ b @ '' +'' @ c @ '','' @ d @ '' @@''"

lemma leads_header:
  assumes "list_all (\<lambda>s. s \<noteq> [] \<and> list_all is_digit_char s) [a, b, c, d]"
  shows "leads header_regex (header_text a b c d) [] [] [(4, d), (3, c), (2, b), (1, a)]"
proof -
  have sep: "\<not> is_digit_char (CHR '','')" "\<not> is_digit_char (CHR '' '')" by code_simp+
  have one: "leads (number_group 1) (a @ CHR '','' # b @ '' +'' @ c @ '','' @ d @ '' @@'') [] (CHR '','' # b @ '' +'' @ c @ '','' @ d @ '' @@'') [(1, a)]"
    unfolding number_group_def by (rule leads_number) (use assms sep in auto)
  have two: "leads (count_group 2) (CHR '','' # b @ '' +'' @ c @ '','' @ d @ '' @@'') [(1, a)] ('' +'' @ c @ '','' @ d @ '' @@'') [(2, b), (1, a)]"
    by (rule leads_count) (use assms sep in auto)
  have three: "leads (number_group 3) (c @ CHR '','' # d @ '' @@'') [(2, b), (1, a)] (CHR '','' # d @ '' @@'') [(3, c), (2, b), (1, a)]"
    unfolding number_group_def by (rule leads_number) (use assms sep in auto)
  have four: "leads (count_group 4) (CHR '','' # d @ '' @@'') [(3, c), (2, b), (1, a)] '' @@'' [(4, d), (3, c), (2, b), (1, a)]"
    by (rule leads_count) (use assms sep in auto)
  note l = leads_seq [OF leads_lit]
  note groups = one two three four
  note steps = groups [unfolded append_Cons append_Nil]
  show ?thesis unfolding header_regex_def header_text_def append_Cons append_Nil
    by (rule l, rule l, rule l, rule l, rule leads_seq [OF steps(1)], rule leads_seq [OF steps(2)], rule l, rule l,
        rule leads_seq [OF steps(3)], rule leads_seq [OF steps(4)], rule l, rule l, rule l,
        rule leads_seq [OF leads_skip], rule leads_seq [OF leads_end leads_eps])
qed

text \<open>The search finds a match at the front of the text first.\<close>

lemma leads_find:
  assumes "leads r s [] [] c"
  obtains m where "rx_find (RSeq RBegin r) None s = Some m" "rf_caps m = c"
proof -
  from assms obtain p' ts where "rx r \<lparr>rs_prev = None, rs_rest = s, rs_caps = []\<rparr> = \<lparr>rs_prev = p', rs_rest = [], rs_caps = c\<rparr> # ts"
    unfolding leads_def by blast
  then have "rx_at (RSeq RBegin r) None s = Some \<lparr>rf_before = [], rf_match = s, rf_caps = c, rf_rest = []\<rparr>"
    by (simp add: rx_at_def when_at_def)
  then have "rx_find (RSeq RBegin r) None s = Some \<lparr>rf_before = [], rf_match = s, rf_caps = c, rf_rest = []\<rparr>"
    by (cases s) auto
  then show thesis by (rule that) simp
qed

definition hunk_header :: "diff_hunk \<Rightarrow> string" where
  "hunk_header h = header_text (itoa (dh_oldStart h)) (itoa (dh_oldCount h)) (itoa (dh_newStart h)) (itoa (dh_newCount h))"

definition small :: "int \<Rightarrow> bool" where
  "small n \<longleftrightarrow> 0 \<le> n \<and> n \<le> max_int64"

lemma itoa_number: "0 \<le> n \<Longrightarrow> itoa n \<noteq> [] \<and> list_all is_digit_char (itoa n)"
  using nat_digits_digits by (auto simp: itoa_def list_all_iff)

lemma itoa_back: "small n \<Longrightarrow> atoi_digits (itoa n) = n"
  by (simp add: small_def atoi_digits_def itoa_def nat_digits_val min_def)

lemma digits_not_blank: "s \<noteq> [] \<Longrightarrow> list_all is_digit_char s \<Longrightarrow> trim_space s \<noteq> []"
proof -
  assume s: "s \<noteq> []" "list_all is_digit_char s"
  have "list_all (\<lambda>w. list_all (\<lambda>c. \<not> is_digit_char c) w) space_bytes" by code_simp
  then have "set s \<inter> \<Union> (set ` set space_bytes) = {}" using s(2) by (fastforce simp: list_all_iff)
  then show ?thesis using trim_space_plain s(1) by metis
qed

lemma header_parsed:
  assumes "small (dh_oldStart h)" "small (dh_oldCount h)" "small (dh_newStart h)" "small (dh_newCount h)"
  shows "parse_header (hunk_header h) = Some (h\<lparr>dh_lines := []\<rparr>)"
proof -
  have nums: "itoa n \<noteq> [] \<and> list_all is_digit_char (itoa n) \<and> trim_space (itoa n) \<noteq> [] \<and> atoi_digits (itoa n) = n"
    if "small n" for n using itoa_number [of n] itoa_back [OF that] digits_not_blank that by (auto simp: small_def)
  have "list_all (\<lambda>s. s \<noteq> [] \<and> list_all is_digit_char s)
      [itoa (dh_oldStart h), itoa (dh_oldCount h), itoa (dh_newStart h), itoa (dh_newCount h)]"
    using assms nums by simp
  from leads_find [OF leads_header [OF this]]
  obtain m where "rx_find (RSeq RBegin header_regex) None (hunk_header h) = Some m"
    "rf_caps m = [(4, itoa (dh_newCount h)), (3, itoa (dh_newStart h)), (2, itoa (dh_oldCount h)), (1, itoa (dh_oldStart h))]"
    unfolding hunk_header_def by blast
  then show ?thesis using assms nums by (simp add: parse_header_def header_pattern rx_group_def header_count_def)
qed

section \<open>A printed patch is parsed back\<close>

definition plain_row :: "string \<Rightarrow> bool" where
  "plain_row r \<longleftrightarrow> CHR 0x0A \<notin> set r \<and> CHR 0x0D \<notin> set r"

definition hunk_ok :: "diff_hunk \<Rightarrow> bool" where
  "hunk_ok h \<longleftrightarrow> small (dh_oldStart h) \<and> small (dh_oldCount h) \<and> small (dh_newStart h) \<and> small (dh_newCount h) \<and>
    dh_oldCount h = int (length (old_side h)) \<and> dh_newCount h = int (length (new_side h)) \<and>
    list_all (\<lambda>r. r \<noteq> [] \<and> hd r \<in> set '' +-'' \<and> plain_row r) (dh_lines h)"

definition hunk_rows :: "diff_hunk \<Rightarrow> string list" where
  "hunk_rows h = hunk_header h # dh_lines h"

text \<open>A patch as a program prints it, with lines such as the names of the files in front.\<close>

definition patch_text :: "string list \<Rightarrow> diff_hunk list \<Rightarrow> string" where
  "patch_text front hs = join_with lf (front @ concat (map hunk_rows hs) @ [[]])"

lemma body_row:
  "hd r \<in> set '' +-'' \<Longrightarrow> r \<noteq> [] \<Longrightarrow> \<not> prefix ''@@'' r \<and> r \<noteq> no_newline_mark"
  by (cases r) (auto simp: no_newline_mark_def)

lemma hunk_body_rows:
  assumes "list_all (\<lambda>r. r \<noteq> [] \<and> hd r \<in> set '' +-'' \<and> plain_row r) ls" "hunk_body no rest = Inr ([], 0, 0, rest')"
  shows "hunk_body no (ls @ rest) =
    Inr (ls, int (length (filter (\<lambda>r. hd r \<in> set '' -'') ls)), int (length (filter (\<lambda>r. hd r \<in> set '' +'') ls)), rest')"
  using assms(1)
proof (induction ls)
  case Nil
  then show ?case using assms(2) by simp
next
  case (Cons r ls)
  then have "\<not> prefix ''@@'' r" "r \<noteq> no_newline_mark" "r \<noteq> []" "hd r \<in> set '' +-''" using body_row [of r] by auto
  with Cons show ?case by auto
qed

lemma header_at: "prefix ''@@'' (hunk_header h)"
  by (simp add: hunk_header_def header_text_def)

lemma visible_at: "CHR ''@'' \<in> set s \<Longrightarrow> trim_space s \<noteq> []"
proof
  assume at: "CHR ''@'' \<in> set s" and "trim_space s = []"
  obtain a b where ab: "s = a @ trim_space s @ b" "set a \<union> set b \<subseteq> \<Union> (set ` set space_bytes)"
    using trim_space_split [of s] by blast
  then have "set s \<subseteq> \<Union> (set ` set space_bytes)" using \<open>trim_space s = []\<close> arg_cong [OF ab(1), of set] by simp
  with at have "CHR ''@'' \<in> \<Union> (set ` set space_bytes)" by blast
  moreover have "list_all (\<lambda>w. CHR ''@'' \<notin> set w) space_bytes" by code_simp
  ultimately show False by (auto simp: list_all_iff)
qed

lemma header_visible: "trim_space (hunk_header h) \<noteq> []"
  by (rule visible_at) (simp add: hunk_header_def header_text_def)

lemma parse_hunks_rows:
  assumes "list_all hunk_ok hs"
  shows "parse_hunks n (concat (map hunk_rows hs) @ [[]]) = Inr hs"
  using assms
proof (induction hs arbitrary: n)
  case Nil
  have "trim_space [] = []" by code_simp
  then show ?case by (simp add: parse_hunks.simps(2))
next
  case (Cons h hs)
  let ?rest = "concat (map hunk_rows hs) @ [[]]"
  have ok: "hunk_ok h" "list_all hunk_ok hs" using Cons.prems by auto
  obtain rest' where rest: "hunk_body (n + 1) ?rest = Inr ([], 0, 0, rest')" "parse_hunks (n + 1) rest' = Inr hs"
  proof (cases hs)
    case Nil
    then show thesis by (intro that [of "[]"]) auto
  next
    case h2: (Cons h2 hs2)
    then have "?rest = hunk_header h2 # (dh_lines h2 @ concat (map hunk_rows hs2) @ [[]])" by (simp add: hunk_rows_def)
    then have "hunk_body (n + 1) ?rest = Inr ([], 0, 0, ?rest)" using header_at [of h2] by simp
    from this Cons.IH [OF ok(2)] show thesis by (rule that)
  qed
  have lines: "list_all (\<lambda>r. r \<noteq> [] \<and> hd r \<in> set '' +-'' \<and> plain_row r) (dh_lines h)" using ok(1) by (simp add: hunk_ok_def)
  have body: "hunk_body (n + 1) (dh_lines h @ ?rest) = Inr (dh_lines h, dh_oldCount h, dh_newCount h, rest')"
    using hunk_body_rows [OF lines rest(1)] ok(1) by (simp add: hunk_ok_def old_side_def new_side_def)
  have head: "parse_header (hunk_header h) = Some (h\<lparr>dh_lines := []\<rparr>)"
    using ok(1) by (intro header_parsed) (auto simp: hunk_ok_def)
  have "concat (map hunk_rows (h # hs)) @ [[]] = hunk_header h # (dh_lines h @ ?rest)" by (simp add: hunk_rows_def)
  then show ?case using header_at [of h] header_visible [of h] head body rest(2) by (simp add: parse_hunks.simps(2))
qed

lemma parse_hunks_front:
  "list_all (\<lambda>r. \<not> prefix ''@@'' r) front \<Longrightarrow> parse_hunks n (front @ rows) = parse_hunks n rows"
  by (induction front) (simp_all add: parse_hunks.simps(2))

lemma replace_all_absent: "c \<notin> set s \<Longrightarrow> replace_all (c # w) new s = s"
proof (induction s)
  case (Cons x s)
  then have "\<not> prefix (c # w) (x # s)" by auto
  with Cons show ?case by (simp add: replace_all.simps(2))
qed simp

lemma join_set: "set (join_with sep ps) \<subseteq> set sep \<union> \<Union> (set ` set ps)"
  by (induction ps rule: induct_list012) auto

lemma header_plain: "hunk_ok h \<Longrightarrow> plain_row (hunk_header h)"
proof -
  assume "hunk_ok h"
  then have "list_all is_digit_char (itoa (dh_oldStart h))" "list_all is_digit_char (itoa (dh_oldCount h))"
    "list_all is_digit_char (itoa (dh_newStart h))" "list_all is_digit_char (itoa (dh_newCount h))"
    using itoa_number by (auto simp: hunk_ok_def small_def)
  moreover have "\<not> is_digit_char (CHR 0x0A)" "\<not> is_digit_char (CHR 0x0D)" by code_simp+
  ultimately show ?thesis
    by (auto simp: plain_row_def hunk_header_def header_text_def list_all_iff)
qed

lemma patch_parsed:
  assumes "hs \<noteq> []" "list_all hunk_ok hs" "list_all (\<lambda>r. plain_row r \<and> \<not> prefix ''@@'' r) front"
  shows "parseUnifiedDiff (patch_text front hs) = Inr hs"
proof -
  let ?rows = "front @ concat (map hunk_rows hs) @ [[]]"
  have plain: "plain_row r" if "r \<in> set ?rows" for r
    using that assms(2,3) header_plain by (auto simp: hunk_rows_def hunk_ok_def list_all_iff plain_row_def)
  then have "CHR 0x0D \<notin> set (patch_text front hs)"
    using join_set [of lf ?rows] by (fastforce simp: patch_text_def lf_def plain_row_def)
  then have "replace_all [CHR 0x0D, CHR 0x0A] lf (patch_text front hs) = patch_text front hs" by (rule replace_all_absent)
  moreover have "split_on (CHR 0x0A) (patch_text front hs) = ?rows"
    unfolding patch_text_def lf_def by (rule split_join) (use plain in \<open>auto simp: plain_row_def\<close>)
  moreover have "parse_hunks 0 ?rows = Inr hs"
    using parse_hunks_front [of front 0 "concat (map hunk_rows hs) @ [[]]"] parse_hunks_rows [OF assms(2)] assms(3)
    by (simp add: list_all_iff)
  ultimately show ?thesis using assms(1) by (simp add: parseUnifiedDiff_def)
qed

lemma patch_visible: "hs \<noteq> [] \<Longrightarrow> trim_space (patch_text front hs) \<noteq> []"
proof (rule visible_at)
  assume "hs \<noteq> []"
  then obtain h hs' where "hs = h # hs'" by (cases hs) auto
  then have h: "hunk_header h \<in> set (front @ concat (map hunk_rows hs) @ [[]])" by (simp add: hunk_rows_def)
  have "p \<in> set ps \<Longrightarrow> set p \<subseteq> set (join_with lf ps)" for p ps
    by (induction ps rule: induct_list012) auto
  from this [OF h] have "set (hunk_header h) \<subseteq> set (patch_text front hs)" unfolding patch_text_def .
  moreover have "CHR ''@'' \<in> set (hunk_header h)" by (simp add: hunk_header_def header_text_def)
  ultimately show "CHR ''@'' \<in> set (patch_text front hs)" by blast
qed

text \<open>
  C35: A patch means what it prints. Take any hunks with counts that fit their rows, rows without line
  ends, and any lines of prose in front: if the hunks turn the lines of a file into new ones, the
  patch mode of fs.edit, given the printed patch, returns the new lines, and reports as many edits as
  there are hunks.
\<close>

theorem printed_patch_applies:
  assumes "hs \<noteq> []" "list_all hunk_ok hs" "list_all (\<lambda>r. plain_row r \<and> \<not> prefix ''@@'' r) front"
    and "patched 1 hs (fst (splitFileLines content)) new"
    and "mget args ''patch'' = Some (JStr (patch_text front hs))"
  shows "handleUnifiedDiffMode content args =
    Inr (join_with lf new @ (if snd (splitFileLines content) then lf else []), edit_info (Some (int (length hs))) ''unified_diff'')"
proof -
  have "applyUnifiedDiff content hs =
      Inr (join_with lf new @ (if snd (splitFileLines content) then lf else []), int (length hs))"
    using assms(4) patch_applies_iff by blast
  then show ?thesis
    using patch_parsed [OF assms(1-3)] patch_visible [OF assms(1)] assms(5)
    by (simp add: handleUnifiedDiffMode_def getString_def)
qed

definition sample_hunk :: diff_hunk where
  "sample_hunk = \<lparr>dh_oldStart = 2, dh_oldCount = 2, dh_newStart = 2, dh_newCount = 3,
     dh_lines = [''-b'', ''+x'', ''+y'', '' c'']\<rparr>"

theorem printed_patch_applies_witness:
  "map_sum id fst (handleUnifiedDiffMode (join_with lf [''a'', ''b'', ''c'', []])
      [(''patch'', JStr (patch_text [''--- f'', ''+++ f''] [sample_hunk]))]) = Inr (join_with lf [''a'', ''x'', ''y'', ''c'', []])"
proof -
  have ok: "list_all hunk_ok [sample_hunk]" "list_all (\<lambda>r. plain_row r \<and> \<not> prefix ''@@'' r) [''--- f'', ''+++ f'']"
    "mget [(''patch'', JStr (patch_text [''--- f'', ''+++ f''] [sample_hunk]))] ''patch'' =
      Some (JStr (patch_text [''--- f'', ''+++ f''] [sample_hunk]))"
    by (simp_all add: sample_hunk_def hunk_ok_def small_def max_int64_def old_side_def new_side_def plain_row_def mget_def)
  have split: "splitFileLines (join_with lf [''a'', ''b'', ''c'', []]) = ([''a'', ''b'', ''c''], True)"
    "join_with lf [''a'', ''x'', ''y'', ''c''] @ lf = join_with lf [''a'', ''x'', ''y'', ''c'', []]" by code_simp+
  have sides: "old_side sample_hunk = [''b'', ''c'']" "new_side sample_hunk = [''x'', ''y'', ''c'']" "hunk_start sample_hunk = 2"
    by code_simp+
  have "patched 1 [sample_hunk] ([''a''] @ old_side sample_hunk @ []) ([''a''] @ new_side sample_hunk @ [])"
    by (rule patched.hunk) (simp_all add: sides)
  then have "patched 1 [sample_hunk] (fst (splitFileLines (join_with lf [''a'', ''b'', ''c'', []]))) [''a'', ''x'', ''y'', ''c'']"
    unfolding split by (simp add: sides)
  from printed_patch_applies [OF _ ok(1,2) this ok(3)] split show ?thesis by simp
qed

section \<open>Where the patches of other programs go\<close>

text \<open>
  A hunk without old lines names, in the format of diff, the line after which it inserts. It is
  inserted before that line here.
\<close>

lemma insertion_one_line_early:
  "map_sum id fst (handleUnifiedDiffMode (join_with lf [''a'', ''b'', []]) [(''patch'', JStr (join_with lf [''@@ -1,0 +2 @@'', ''+x'']))])
     = Inr (join_with lf [''x'', ''a'', ''b'', []])"
  by code_simp

text \<open>A file of one empty line counts as no lines at all.\<close>

lemma empty_line_lost:
  "splitFileLines lf = ([], True)"
  by code_simp

end
