(* ===== verification/Prompt_Stack.thy ===== *)
theory Prompt_Stack
  imports Go_Text Go_Time "HOL-Library.Sublist"
begin

text \<open>
  The prompt stack of internal/promptstack: its five layers (types.go), the assembled text
  (assembler.go), the token estimate (estimator.go) and the line diff of two versions (diff.go)
  with its proofs: the diff replays both texts, and no diff keeps more lines.
\<close>

section \<open>Layers\<close>

definition LayerGlobalOperatorPolicy :: string where
  "LayerGlobalOperatorPolicy = ''global_operator_policy''"
definition LayerAgentIdentity :: string where
  "LayerAgentIdentity = ''agent_identity''"
definition LayerToolSafetyRules :: string where
  "LayerToolSafetyRules = ''tool_safety_rules''"
definition LayerDelegationPolicy :: string where
  "LayerDelegationPolicy = ''delegation_policy''"
definition LayerSessionOverlay :: string where
  "LayerSessionOverlay = ''session_overlay''"

definition layerOrder :: "string list" where
  "layerOrder = [LayerGlobalOperatorPolicy, LayerAgentIdentity, LayerToolSafetyRules,
     LayerDelegationPolicy, LayerSessionOverlay]"

lemmas layer_names = LayerGlobalOperatorPolicy_def LayerAgentIdentity_def LayerToolSafetyRules_def
  LayerDelegationPolicy_def LayerSessionOverlay_def

record prompt_layer =
  pl_layerID :: string
  pl_content :: string
  pl_updatedAt :: time
  pl_version :: int

record prompt_stack =
  ps_globalOperatorPolicy :: prompt_layer
  ps_agentIdentity :: prompt_layer
  ps_toolSafetyRules :: prompt_layer
  ps_delegationPolicy :: prompt_layer
  ps_sessionOverlay :: prompt_layer

text \<open>A layer that has only its id.\<close>

definition empty_layer :: "string \<Rightarrow> prompt_layer" where
  "empty_layer l = \<lparr>pl_layerID = l, pl_content = [], pl_updatedAt = 0, pl_version = 0\<rparr>"

definition newPromptStack :: prompt_stack where
  "newPromptStack =
    \<lparr>ps_globalOperatorPolicy = empty_layer LayerGlobalOperatorPolicy,
     ps_agentIdentity = empty_layer LayerAgentIdentity,
     ps_toolSafetyRules = empty_layer LayerToolSafetyRules,
     ps_delegationPolicy = empty_layer LayerDelegationPolicy,
     ps_sessionOverlay = empty_layer LayerSessionOverlay\<rparr>"

definition layerIDs :: "string list" where
  "layerIDs = layerOrder"

definition layersInOrder :: "prompt_stack \<Rightarrow> prompt_layer list" where
  "layersInOrder s = [ps_globalOperatorPolicy s, ps_agentIdentity s, ps_toolSafetyRules s,
     ps_delegationPolicy s, ps_sessionOverlay s]"

text \<open>None is ErrInvalidLayerID.\<close>

definition layer_of :: "prompt_stack \<Rightarrow> string \<Rightarrow> prompt_layer option" where
  "layer_of s layerID =
    (let l = trim_space layerID in
     if l = LayerGlobalOperatorPolicy then Some (ps_globalOperatorPolicy s)
     else if l = LayerAgentIdentity then Some (ps_agentIdentity s)
     else if l = LayerToolSafetyRules then Some (ps_toolSafetyRules s)
     else if l = LayerDelegationPolicy then Some (ps_delegationPolicy s)
     else if l = LayerSessionOverlay then Some (ps_sessionOverlay s)
     else None)"

definition isValidLayerID :: "string \<Rightarrow> bool" where
  "isValidLayerID layerID = (trim_space layerID \<in> set layerOrder)"

definition setLayer :: "prompt_layer \<Rightarrow> prompt_stack \<Rightarrow> prompt_stack option" where
  "setLayer layer s =
    (let l = trim_space (pl_layerID layer); layer' = layer\<lparr>pl_layerID := l\<rparr> in
     if \<not> isValidLayerID l then None
     else if l = LayerGlobalOperatorPolicy then Some (s\<lparr>ps_globalOperatorPolicy := layer'\<rparr>)
     else if l = LayerAgentIdentity then Some (s\<lparr>ps_agentIdentity := layer'\<rparr>)
     else if l = LayerToolSafetyRules then Some (s\<lparr>ps_toolSafetyRules := layer'\<rparr>)
     else if l = LayerDelegationPolicy then Some (s\<lparr>ps_delegationPolicy := layer'\<rparr>)
     else if l = LayerSessionOverlay then Some (s\<lparr>ps_sessionOverlay := layer'\<rparr>)
     else None)"

section \<open>The assembled text and its estimate\<close>

definition nl :: string where "nl = [CHR 0x0A]"

definition layerMarker :: "string \<Rightarrow> string" where
  "layerMarker layerID = ''<<<LAYER: '' @ layerID @ ''>>>''"

definition layer_text :: "prompt_layer \<Rightarrow> string" where
  "layer_text l =
    layerMarker (pl_layerID l) @ nl @ pl_content l @ (if suffix nl (pl_content l) then [] else nl)"

definition assemble :: "prompt_stack \<Rightarrow> string" where
  "assemble stack = join_with nl (map layer_text (layersInOrder stack))"

record layer_estimate =
  le_layerID :: string
  le_wordCount :: int
  le_tokenCount :: int

record token_estimate =
  te_perLayer :: "layer_estimate list"
  te_totalTokens :: int
  te_method :: string

definition countWords :: "string \<Rightarrow> int" where
  "countWords content = int (length (go_fields content))"

definition estimateWordTokens :: "int \<Rightarrow> int" where
  "estimateWordTokens words =
    (if words \<le> 0 then 0 else \<lceil>fmul (fl (of_int words)) (fl (13 / 10))\<rceil>)"

definition estimateTokens :: "prompt_stack \<Rightarrow> token_estimate" where
  "estimateTokens stack =
    (let per = map (\<lambda>l. let words = countWords (pl_content l) in
                 \<lparr>le_layerID = pl_layerID l, le_wordCount = words, le_tokenCount = estimateWordTokens words\<rparr>)
               (layersInOrder stack)
     in \<lparr>te_perLayer = per, te_totalTokens = sum_list (map le_tokenCount per), te_method = ''word_count_x1.3''\<rparr>)"

section \<open>The line diff\<close>

datatype diff_line_type = DiffLineUnchanged | DiffLineAdded | DiffLineRemoved

record diff_line =
  dl_type :: diff_line_type
  dl_content :: string

definition splitContentLines :: "string \<Rightarrow> string list" where
  "splitContentLines content =
    (let normalized = replace_all [CHR 0x0D, CHR 0x0A] nl content in
     if normalized = [] then []
     else (let parts = split_on (CHR 0x0A) normalized in
           if last parts = [] then butlast parts else parts))"

text \<open>
  The table of the lengths of the longest common subsequences, row \<open>i\<close> for the lines of the first
  text from \<open>i\<close> on, computed from the last row back as the two loops of diffLines do.
\<close>

fun lcs_row :: "string \<Rightarrow> string list \<Rightarrow> nat list \<Rightarrow> nat list" where
  "lcs_row x [] next_row = [0]"
| "lcs_row x (y # ys) next_row =
     (let row = lcs_row x ys (tl next_row) in
      (if x = y then hd (tl next_row) + 1
       else if hd row \<le> hd next_row then hd next_row else hd row) # row)"

fun lcs_table :: "string list \<Rightarrow> string list \<Rightarrow> nat list list" where
  "lcs_table [] to = [replicate (length to + 1) 0]"
| "lcs_table (x # xs) to = (let t = lcs_table xs to in lcs_row x to (hd t) # t)"

definition dl :: "diff_line_type \<Rightarrow> string \<Rightarrow> diff_line" where
  "dl ty c = \<lparr>dl_type = ty, dl_content = c\<rparr>"

function diff_loop :: "string list \<Rightarrow> string list \<Rightarrow> nat list list \<Rightarrow> nat \<Rightarrow> nat \<Rightarrow> diff_line list" where
  "diff_loop from to lcs i j =
    (if i < length from \<and> j < length to then
       (if from ! i = to ! j then dl DiffLineUnchanged (from ! i) # diff_loop from to lcs (i + 1) (j + 1)
        else if lcs ! i ! (j + 1) \<le> lcs ! (i + 1) ! j
        then dl DiffLineRemoved (from ! i) # diff_loop from to lcs (i + 1) j
        else dl DiffLineAdded (to ! j) # diff_loop from to lcs i (j + 1))
     else map (dl DiffLineRemoved) (drop i from) @ map (dl DiffLineAdded) (drop j to))"
  by pat_completeness auto
termination
  by (relation "measure (\<lambda>(from, to, lcs, i, j). (length from - i) + (length to - j))") auto

declare diff_loop.simps [simp del]

definition diffLines :: "string \<Rightarrow> string \<Rightarrow> diff_line list" where
  "diffLines fromContent toContent =
    (let from = splitContentLines fromContent; to = splitContentLines toContent in
     diff_loop from to (lcs_table from to) 0 0)"

definition render_line :: "diff_line \<Rightarrow> string" where
  "render_line l =
    (case dl_type l of DiffLineAdded \<Rightarrow> ''+'' | DiffLineRemoved \<Rightarrow> ''-'' | DiffLineUnchanged \<Rightarrow> '' '') @
    dl_content l @ nl"

definition renderUnifiedDiff :: "int \<Rightarrow> int \<Rightarrow> diff_line list \<Rightarrow> string" where
  "renderUnifiedDiff fromVersion toVersion ls =
    ''--- version '' @ itoa fromVersion @ nl @ ''+++ version '' @ itoa toVersion @ nl @
    concat (map render_line ls)"

record version_diff =
  vd_layerID :: string
  vd_fromVersion :: int
  vd_toVersion :: int
  vd_lines :: "diff_line list"
  vd_unifiedDiff :: string

definition buildVersionDiff :: "string \<Rightarrow> int \<Rightarrow> string \<Rightarrow> int \<Rightarrow> string \<Rightarrow> version_diff" where
  "buildVersionDiff layerID fromVersion fromContent toVersion toContent =
    (let ls = diffLines fromContent toContent in
     \<lparr>vd_layerID = layerID, vd_fromVersion = fromVersion, vd_toVersion = toVersion, vd_lines = ls,
      vd_unifiedDiff = renderUnifiedDiff fromVersion toVersion ls\<rparr>)"

lemma prompt_stack_examples:
  "map (\<lambda>l. (dl_type l, dl_content l)) (diffLines (join_with nl [''a'', ''b'', ''c'']) (join_with nl [''b'', ''d'', ''c'', []])) =
     [(DiffLineRemoved, ''a''), (DiffLineUnchanged, ''b''), (DiffLineAdded, ''d''), (DiffLineUnchanged, ''c'')]"
  "estimateWordTokens 1 = 2" "estimateWordTokens 10 = 13"
  by code_simp+

section \<open>What the diff promises\<close>

text \<open>The entry \<open>i, j\<close> of the table is a function of the remaining lines.\<close>

fun lcs_len :: "string list \<Rightarrow> string list \<Rightarrow> nat" where
  "lcs_len (x # xs) (y # ys) =
     (if x = y then lcs_len xs ys + 1 else max (lcs_len xs (y # ys)) (lcs_len (x # xs) ys))"
| "lcs_len xs ys = 0"

lemma lcs_len_Nil [simp]: "lcs_len xs [] = 0"
  by (cases xs) simp_all

lemma lcs_row_correct:
  "length next_row = length to + 1 \<Longrightarrow> (\<And>j. j \<le> length to \<Longrightarrow> next_row ! j = lcs_len xs (drop j to)) \<Longrightarrow>
   length (lcs_row x to next_row) = length to + 1 \<and>
   (\<forall>j \<le> length to. lcs_row x to next_row ! j = lcs_len (x # xs) (drop j to))"
proof (induction to arbitrary: next_row)
  case (Cons y ys)
  obtain n ns where n: "next_row = n # ns" using Cons.prems(1) by (cases next_row) auto
  have ns: "j \<le> length ys \<Longrightarrow> ns ! j = lcs_len xs (drop j ys)" for j
    using Cons.prems(2) [of "Suc j"] by (simp add: n)
  have IH: "length (lcs_row x ys ns) = length ys + 1"
    "\<forall>j \<le> length ys. lcs_row x ys ns ! j = lcs_len (x # xs) (drop j ys)"
    using Cons.IH [of ns] Cons.prems(1) ns by (simp_all add: n)
  have "n = lcs_len xs (y # ys)" using Cons.prems(2) [of 0] by (simp add: n)
  moreover have "hd ns = lcs_len xs ys" "hd (lcs_row x ys ns) = lcs_len (x # xs) ys"
    using ns [of 0] IH Cons.prems(1) by (simp_all add: n hd_conv_nth flip: length_greater_0_conv)
  ultimately show ?case using IH by (auto simp: n Let_def nth_Cons split: nat.splits)
qed simp

lemma lcs_table_rows:
  "lcs_table from to \<noteq> [] \<and> (\<forall>i \<le> length from. length (lcs_table from to ! i) = length to + 1 \<and>
    (\<forall>j \<le> length to. lcs_table from to ! i ! j = lcs_len (drop i from) (drop j to)))"
proof (induction "from")
  case (Cons x xs)
  let ?t = "lcs_table xs to"
  from Cons have "hd ?t = ?t ! 0" "length (?t ! 0) = length to + 1"
    "\<And>j. j \<le> length to \<Longrightarrow> ?t ! 0 ! j = lcs_len xs (drop j to)" by (auto simp: hd_conv_nth)
  from lcs_row_correct [OF this(2,3)] this(1) Cons show ?case
    by (auto simp: Let_def nth_Cons split: nat.splits)
qed (simp del: replicate_Suc)

lemma lcs_table_correct:
  "i \<le> length from \<Longrightarrow> j \<le> length to \<Longrightarrow> lcs_table from to ! i ! j = lcs_len (drop i from) (drop j to)"
  using lcs_table_rows by blast

text \<open>The same walk over the remaining lines.\<close>

fun diff_spec :: "string list \<Rightarrow> string list \<Rightarrow> diff_line list" where
  "diff_spec (x # xs) (y # ys) =
     (if x = y then dl DiffLineUnchanged x # diff_spec xs ys
      else if lcs_len (x # xs) ys \<le> lcs_len xs (y # ys) then dl DiffLineRemoved x # diff_spec xs (y # ys)
      else dl DiffLineAdded y # diff_spec (x # xs) ys)"
| "diff_spec xs ys = map (dl DiffLineRemoved) xs @ map (dl DiffLineAdded) ys"

lemma diff_loop_spec:
  "i \<le> length from \<Longrightarrow> j \<le> length to \<Longrightarrow>
   diff_loop from to (lcs_table from to) i j = diff_spec (drop i from) (drop j to)"
proof (induction "from" to "lcs_table from to" i j rule: diff_loop.induct)
  case (1 "from" to i j)
  show ?case
  proof (cases "i < length from \<and> j < length to")
    case True
    then have d: "drop i from = from ! i # drop (Suc i) from" "drop j to = to ! j # drop (Suc j) to"
      by (simp_all add: Cons_nth_drop_Suc)
    show ?thesis using 1 True lcs_table_correct [of i "from" "j + 1" to] lcs_table_correct [of "i + 1" "from" j to]
        diff_spec.simps(1) [of "from ! i" "drop (Suc i) from" "to ! j" "drop (Suc j) to", folded d]
      by (simp add: diff_loop.simps [of "from" to _ i j])
  next
    case False
    with 1(4,5) have "i = length from \<or> j = length to" by auto
    with False show ?thesis
      by (cases "drop i from") (auto simp: diff_loop.simps [of "from" to _ i j])
  qed
qed

lemma diffLines_spec: "diffLines a b = diff_spec (splitContentLines a) (splitContentLines b)"
  by (simp add: diffLines_def Let_def diff_loop_spec)

definition old_lines :: "diff_line list \<Rightarrow> string list" where
  "old_lines ls = map dl_content (filter (\<lambda>l. dl_type l \<noteq> DiffLineAdded) ls)"

definition new_lines :: "diff_line list \<Rightarrow> string list" where
  "new_lines ls = map dl_content (filter (\<lambda>l. dl_type l \<noteq> DiffLineRemoved) ls)"

definition kept_lines :: "diff_line list \<Rightarrow> string list" where
  "kept_lines ls = map dl_content (filter (\<lambda>l. dl_type l = DiffLineUnchanged) ls)"

lemmas line_views = old_lines_def new_lines_def kept_lines_def dl_def

lemma diff_spec_replays: "old_lines (diff_spec xs ys) = xs \<and> new_lines (diff_spec xs ys) = ys"
  by (induction xs ys rule: diff_spec.induct) (auto simp: line_views comp_def)

lemma diff_spec_kept: "length (kept_lines (diff_spec xs ys)) = lcs_len xs ys"
  by (induction xs ys rule: diff_spec.induct) (auto simp: line_views max_def)

lemma lcs_len_optimal: "subseq zs xs \<Longrightarrow> subseq zs ys \<Longrightarrow> length zs \<le> lcs_len xs ys"
proof (induction xs ys arbitrary: zs rule: lcs_len.induct)
  case (1 x xs y ys)
  show ?case
  proof (cases zs)
    case (Cons z zs')
    show ?thesis
    proof (cases "x = y")
      case True
      have "subseq zs' xs" "subseq zs' ys" using 1(4,5) Cons subseq_Cons' by (auto split: if_splits)
      then show ?thesis using 1(1) [OF True] True Cons by simp
    next
      case False
      then consider "subseq zs xs" | "subseq zs ys" using 1(4,5) Cons by (auto split: if_splits)
      then show ?thesis using 1(2,3) [OF False] 1(4,5) False by cases (force simp: le_max_iff_disj)+
    qed
  qed simp
qed auto


text \<open>
  C30: A diff keeps as many lines as any can: its unchanged lines are at least as many as those of any
  sequence of lines that is found, in order, in both texts.
\<close>

theorem diff_keeps_most:
  assumes "subseq zs (splitContentLines a)" "subseq zs (splitContentLines b)"
  shows "length zs \<le> length (kept_lines (diffLines a b))"
  using lcs_len_optimal [OF assms] by (simp add: diffLines_spec diff_spec_kept)

theorem diff_keeps_most_witness:
  "length [''b''] \<le> length (kept_lines (diffLines (''a'' @ nl @ ''b'') (''b'' @ nl @ ''c'')))"
  by (rule diff_keeps_most) code_simp+

end
