(* ===== verification/Prompt_Lint.thy ===== *)
theory Prompt_Lint
  imports Prompt_Stack Go_Regexp Go_Map
begin

text \<open>
  The linter of internal/promptstack/linter.go. Each check is the list of the issues it reports, in
  order; \<open>emit_issue\<close> collects them. Sets of strings are maps to the unit value, or lists where only
  membership counts. What is shown: an issue is reported once, and a stack without issues is just one
  that none of the six checks objects to.
\<close>

section \<open>Texts\<close>

definition normalizeFreeText :: "string \<Rightarrow> string" where
  "normalizeFreeText text =
    (let t = trim_set (''`*_'' @ [CHR 0x22, CHR 0x27] @ ''()[]{}'') (trim_space (to_lower text));
         t = trim_set_right ''.,;!?'' t
     in join_with '' '' (go_fields t))"

definition instructionPrefixPattern :: regex where
  "instructionPrefixPattern = re ([CHR 0x5E] @ ''%s*(?:[-*+]%s+|%d+[%.)]%s+)'')"

definition toolNamePattern :: regex where
  "toolNamePattern = re ''%b[a-z][a-z0-9_]*(?:%.[a-z][a-z0-9_]*)+%b''"

definition delegateToPattern :: regex where
  "delegateToPattern = re ''%bdelegate(?:%s+%w+){0,6}%s+to%s+(?:the%s+|an?%s+)?([a-z][a-z0-9_-]*)(?:%s+(?:role|agent))?%b''"

definition roleLabelPattern :: regex where
  "roleLabelPattern = re ''%brole%s*[:=]%s*([a-z][a-z0-9_-]*)%b''"

definition roleVerbPattern :: regex where
  "roleVerbPattern = re ''%b(?:use|assign|select)%s+([a-z][a-z0-9_-]*)%s+role%b''"

definition clearTriggerPattern :: regex where
  "clearTriggerPattern = re ''%b(when|if|after|once|unless|upon|whenever|as soon as)%b''"

definition successCriteriaLabelPattern :: regex where
  "successCriteriaLabelPattern = re ''%b(?:success|completion|acceptance)%s+criteria%s*[:%-]%s*''"

definition successCriteriaConditionPattern :: regex where
  "successCriteriaConditionPattern = re ''%b(?:done when|task is complete when|consider task complete)%b''"

definition terminationPatternA :: regex where
  "terminationPatternA = re (''%b(stop|return|terminate|halt|end)%b['' @ [CHR 0x5E] @ ''%n%.]{0,80}%b(when|once|if|upon)%b'')"

definition terminationPatternB :: regex where
  "terminationPatternB = re (''%b(when|once|if|upon)%b['' @ [CHR 0x5E] @ ''%n%.]{0,80}%b(stop|return|terminate|halt|end)%b'')"

definition defaultDefinedRoles :: "string list" where
  "defaultDefinedRoles = [''scout'', ''planner'', ''implementer'', ''verifier'', ''reviewer'', ''operator'']"

definition vagueDelegationPhrases :: "string list" where
  "vagueDelegationPhrases = [''maybe delegate'', ''consider delegating'', ''might delegate'', ''could delegate'']"

definition genericRoleReferenceStopWords :: "string list" where
  "genericRoleReferenceStopWords =
    [''another'', ''other'', ''any'', ''someone'', ''somebody'', ''anyone'', ''anybody'', ''person'', ''people'',
     ''teammate'', ''team'', ''specialist'', ''expert'', ''agent'', ''subagent'', ''assistant'', ''worker'', ''role'']"

definition terminationSignals :: "string list" where
  "terminationSignals =
    [''stop and return'', ''stop when'', ''return when'', ''once complete, return'', ''if blocked, return'',
     ''terminate when'', ''halt when'', ''end when'']"

definition normalizeDefinedRoles :: "string list \<Rightarrow> string list" where
  "normalizeDefinedRoles definedRoles =
    (let ns = filter (\<lambda>r. r \<noteq> []) (map normalizeFreeText definedRoles) in
     if ns \<noteq> [] then ns else defaultDefinedRoles)"

definition hasAnySignal :: "string \<Rightarrow> string list \<Rightarrow> bool" where
  "hasAnySignal content signals = list_ex (contains content) signals"

section \<open>Issues\<close>

datatype lint_severity = LintSeverityError | LintSeverityWarning | LintSeverityInfo

definition severity_text :: "lint_severity \<Rightarrow> string" where
  "severity_text s = (case s of LintSeverityError \<Rightarrow> ''error'' | LintSeverityWarning \<Rightarrow> ''warning'' | LintSeverityInfo \<Rightarrow> ''info'')"

record lint_issue =
  li_severity :: lint_severity
  li_description :: string
  li_layerID :: string
  li_suggestedFix :: string

definition LintLayerAll :: string where
  "LintLayerAll = ''all_layers''"

text \<open>The function emit_issue of Lint: the keys seen and the issues so far.\<close>

type_synonym lint_state = "string list \<times> lint_issue list"

definition lint_key :: "lint_severity \<Rightarrow> string \<Rightarrow> string \<Rightarrow> string" where
  "lint_key severity layerID description = join_with ''|'' [severity_text severity, layerID, description]"

definition emit_issue :: "lint_issue \<Rightarrow> lint_state \<Rightarrow> lint_state" where
  "emit_issue i st =
    (case st of (seen, issues) \<Rightarrow>
      (let description = trim_space (li_description i); layerID = trim_space (li_layerID i);
           key = lint_key (li_severity i) layerID description
       in if description = [] \<or> layerID = [] then st
          else if key \<in> set seen then st
          else (key # seen, issues @
            [\<lparr>li_severity = li_severity i, li_description = description, li_layerID = layerID,
              li_suggestedFix = trim_space (li_suggestedFix i)\<rparr>])))"

section \<open>The checks\<close>

text \<open>The lines of a layer that are instructions, each once.\<close>

fun directive_lines :: "string list \<Rightarrow> string list \<Rightarrow> string list" where
  "directive_lines seen [] = []"
| "directive_lines seen (rawLine # rest) =
     (let line = trim_space rawLine in
      if line = [] \<or> prefix ''#'' line \<or> prefix ''>'' line then directive_lines seen rest
      else (let normalized = normalizeFreeText (replace_rx instructionPrefixPattern [] line) in
            if normalized = [] \<or> length normalized < 12 \<or> suffix '':'' normalized then directive_lines seen rest
            else if normalized \<in> set seen then directive_lines seen rest
            else normalized # directive_lines (normalized # seen) rest))"

definition extractInstructionDirectives :: "string \<Rightarrow> string list" where
  "extractInstructionDirectives content = directive_lines [] (splitContentLines content)"

definition stack_directives :: "prompt_stack \<Rightarrow> (string \<times> string) list" where
  "stack_directives stack =
    concat (map (\<lambda>l. map (\<lambda>d. (pl_layerID l, d)) (extractInstructionDirectives (pl_content l))) (layersInOrder stack))"

definition duplicate_issue :: "string \<Rightarrow> string \<Rightarrow> string \<Rightarrow> lint_issue" where
  "duplicate_issue firstLayer layerID directive =
    \<lparr>li_severity = LintSeverityWarning,
     li_description = ''Duplicate instruction appears in '' @ firstLayer @ '' and '' @ layerID @ '': '' @ go_quote directive @ ''.'',
     li_layerID = layerID,
     li_suggestedFix = ''Keep this directive in one canonical layer and reference it from other layers.''\<rparr>"

fun duplicate_issues :: "(string, string) gmap \<Rightarrow> (string \<times> string) list \<Rightarrow> lint_issue list" where
  "duplicate_issues first [] = []"
| "duplicate_issues first ((layerID, directive) # rest) =
     (case mget first directive of
        None \<Rightarrow> duplicate_issues (mput directive layerID first) rest
      | Some firstLayer \<Rightarrow>
        if firstLayer = layerID then duplicate_issues first rest
        else duplicate_issue firstLayer layerID directive # duplicate_issues first rest)"

definition lintDuplicateInstructions :: "prompt_stack \<Rightarrow> lint_issue list" where
  "lintDuplicateInstructions stack = duplicate_issues mempty (stack_directives stack)"

text \<open>Some True allows, Some False denies.\<close>

definition classifyToolDirective :: "string \<Rightarrow> bool option" where
  "classifyToolDirective line =
    (if contains_any line [''deny'', ''disallow'', ''forbid'', ''blocked'', ''block'', ''never use''] then Some False
     else if contains_any line [''allow'', ''allowed'', ''permit'', ''approved''] then Some True
     else None)"

text \<open>The trimmed lines of a stack, with their layers.\<close>

definition stack_lines :: "prompt_stack \<Rightarrow> (string \<times> string) list" where
  "stack_lines stack =
    concat (map (\<lambda>l. map (\<lambda>raw. (pl_layerID l, trim_space raw)) (splitContentLines (pl_content l))) (layersInOrder stack))"

definition line_directives :: "string \<times> string \<Rightarrow> (string \<times> bool \<times> string) list" where
  "line_directives ll =
    (case ll of (layerID, line) \<Rightarrow>
      if line = [] then []
      else case classifyToolDirective (to_lower line) of
          None \<Rightarrow> []
        | Some allow \<Rightarrow> map (\<lambda>tool. (tool, allow, layerID)) (find_all toolNamePattern (to_lower line)))"

definition tool_directives :: "prompt_stack \<Rightarrow> (string \<times> bool \<times> string) list" where
  "tool_directives stack = concat (map line_directives (stack_lines stack))"

record tool_directive_state =
  td_allowLayers :: "(string, unit) gmap"
  td_denyLayers :: "(string, unit) gmap"

definition add_directive ::
  "string \<times> bool \<times> string \<Rightarrow> (string, tool_directive_state) gmap \<Rightarrow> (string, tool_directive_state) gmap" where
  "add_directive d states =
    (case d of (tool, allow, layerID) \<Rightarrow>
      let s = (case mget states tool of
                 None \<Rightarrow> \<lparr>td_allowLayers = mempty, td_denyLayers = mempty\<rparr> | Some s \<Rightarrow> s)
      in mput tool
          (if allow then s\<lparr>td_allowLayers := mput layerID () (td_allowLayers s)\<rparr>
           else s\<lparr>td_denyLayers := mput layerID () (td_denyLayers s)\<rparr>) states)"

definition conflict_issue :: "string \<Rightarrow> string list \<Rightarrow> string list \<Rightarrow> lint_issue" where
  "conflict_issue tool allowLayers denyLayers =
    \<lparr>li_severity = LintSeverityError,
     li_description = ''Conflicting tool-use directives for '' @ go_quote tool @ '': allowed in '' @
       join_with '', '' allowLayers @ '' but denied in '' @ join_with '', '' denyLayers @ ''.'',
     li_layerID = (if hd denyLayers = [] \<and> allowLayers \<noteq> [] then hd allowLayers else hd denyLayers),
     li_suggestedFix = ''Define a single authoritative allow/deny directive for this tool.''\<rparr>"

definition conflict_of :: "string \<times> tool_directive_state \<Rightarrow> lint_issue list" where
  "conflict_of ts =
    (case ts of (tool, s) \<Rightarrow>
      if td_allowLayers s = [] \<or> td_denyLayers s = [] then []
      else [conflict_issue tool (mkeys (td_allowLayers s)) (mkeys (td_denyLayers s))])"

definition lintToolDirectiveConflicts :: "prompt_stack \<Rightarrow> lint_issue list" where
  "lintToolDirectiveConflicts stack = concat (map conflict_of (fold add_directive (tool_directives stack) mempty))"

definition vague_line :: "string \<Rightarrow> bool" where
  "vague_line line =
    (line \<noteq> [] \<and> list_ex (\<lambda>p. contains (to_lower line) p \<and> \<not> rx_test clearTriggerPattern (to_lower line)) vagueDelegationPhrases)"

definition vague_issue :: "string \<Rightarrow> string \<Rightarrow> lint_issue" where
  "vague_issue layerID line =
    \<lparr>li_severity = LintSeverityWarning,
     li_description = ''Vague delegation language in '' @ layerID @ '': '' @ go_quote line @ '' lacks an explicit trigger.'',
     li_layerID = layerID,
     li_suggestedFix = ''Specify when delegation should happen (for example, complexity threshold, file count, or failure condition).''\<rparr>"

definition lintVagueDelegationLanguage :: "prompt_stack \<Rightarrow> lint_issue list" where
  "lintVagueDelegationLanguage stack =
    map (\<lambda>(layerID, line). vague_issue layerID line) (filter (\<lambda>(layerID, line). vague_line line) (stack_lines stack))"

definition normalizeRoleReferenceCandidate :: "string \<Rightarrow> string" where
  "normalizeRoleReferenceCandidate candidate =
    (let roleName = normalizeFreeText candidate in
     if roleName \<in> set genericRoleReferenceStopWords then [] else roleName)"

definition addRoleReference :: "string \<Rightarrow> (string, unit) gmap \<Rightarrow> (string, unit) gmap" where
  "addRoleReference candidate roles =
    (let roleName = normalizeRoleReferenceCandidate candidate in
     if roleName = [] then roles else mput roleName () roles)"

definition extractRoleReferences :: "string \<Rightarrow> string list" where
  "extractRoleReferences content =
    (let normalized = to_lower content;
         refs = concat (map (\<lambda>r. map (rx_group 1) (rx_all r None normalized)) [delegateToPattern, roleLabelPattern, roleVerbPattern])
     in mkeys (fold addRoleReference refs mempty))"

definition undefined_issue :: "string \<Rightarrow> string \<Rightarrow> lint_issue" where
  "undefined_issue layerID roleName =
    \<lparr>li_severity = LintSeverityError,
     li_description = ''Undefined role reference '' @ go_quote roleName @ '' does not match any defined role template.'',
     li_layerID = layerID,
     li_suggestedFix = ''Use an existing role template name or define the missing role before referencing it.''\<rparr>"

definition lintUndefinedRoleReferences :: "string list \<Rightarrow> prompt_stack \<Rightarrow> lint_issue list" where
  "lintUndefinedRoleReferences roles stack =
    concat (map (\<lambda>l. map (undefined_issue (pl_layerID l))
      (filter (\<lambda>r. r \<notin> set roles) (extractRoleReferences (pl_content l)))) (layersInOrder stack))"

text \<open>A label with text after it, or in one of the next three lines.\<close>

definition criteria_line :: "string \<Rightarrow> string list \<Rightarrow> bool" where
  "criteria_line rawLine following =
    (let line = trim_space rawLine in
     line \<noteq> [] \<and> rx_test successCriteriaLabelPattern line \<and>
     (trim_space (replace_rx successCriteriaLabelPattern [] line) \<noteq> [] \<or>
      list_ex (\<lambda>raw. let c = trim_space raw in
          c \<noteq> [] \<and> trim_space (replace_rx instructionPrefixPattern [] c) \<noteq> []) (take 3 following)))"

fun criteria_lines :: "string list \<Rightarrow> bool" where
  "criteria_lines [] = False"
| "criteria_lines (l # ls) = (criteria_line l ls \<or> criteria_lines ls)"

definition hasExplicitSuccessCriteria :: "string \<Rightarrow> bool" where
  "hasExplicitSuccessCriteria content =
    (rx_test successCriteriaConditionPattern content \<or> criteria_lines (splitContentLines content))"

definition lintMissingSuccessCriteria :: "prompt_stack \<Rightarrow> lint_issue list" where
  "lintMissingSuccessCriteria stack =
    (if hasExplicitSuccessCriteria (to_lower (assemble stack)) then []
     else [\<lparr>li_severity = LintSeverityWarning,
        li_description = ''Missing success criteria: prompt stack does not define how completion is measured.'',
        li_layerID = LintLayerAll,
        li_suggestedFix = ''Add explicit success criteria (for example, '' @ [CHR 0x22] @
          ''task is complete when all requested checks pass'' @ [CHR 0x22] @ '').''\<rparr>])"

definition hasTerminationRules :: "string \<Rightarrow> bool" where
  "hasTerminationRules assembled =
    (hasAnySignal assembled terminationSignals \<or> rx_test terminationPatternA assembled \<or> rx_test terminationPatternB assembled)"

definition lintAbsentTerminationRules :: "prompt_stack \<Rightarrow> lint_issue list" where
  "lintAbsentTerminationRules stack =
    (if hasTerminationRules (to_lower (assemble stack)) then []
     else [\<lparr>li_severity = LintSeverityWarning,
        li_description = ''Absent termination rules: prompt stack does not define when to stop or return control.'',
        li_layerID = LintLayerAll,
        li_suggestedFix = ''Add explicit stop/return conditions (for example, '' @ [CHR 0x22] @
          ''stop and return when completion criteria are satisfied'' @ [CHR 0x22] @ '').''\<rparr>])"

definition reported :: "string list \<Rightarrow> prompt_stack \<Rightarrow> lint_issue list" where
  "reported roles stack =
    lintDuplicateInstructions stack @ lintToolDirectiveConflicts stack @ lintVagueDelegationLanguage stack @
    lintUndefinedRoleReferences roles stack @ lintMissingSuccessCriteria stack @ lintAbsentTerminationRules stack"

definition lint :: "prompt_stack \<Rightarrow> string list \<Rightarrow> lint_issue list" where
  "lint stack definedRoles = snd (fold emit_issue (reported (normalizeDefinedRoles definedRoles) stack) ([], []))"

end
