(* ===== verification/Prompt_Lint_Facts.thy ===== *)
theory Prompt_Lint_Facts
  imports Prompt_Lint
begin

text \<open>
  The linter reports each issue once, and reports nothing exactly for the stacks that none of the six
  checks objects to.
\<close>

section \<open>Collecting issues\<close>

definition issue_key :: "lint_issue \<Rightarrow> string" where
  "issue_key i = lint_key (li_severity i) (li_layerID i) (li_description i)"

definition shown :: "lint_issue \<Rightarrow> bool" where
  "shown i \<longleftrightarrow> trim_space (li_description i) \<noteq> [] \<and> trim_space (li_layerID i) \<noteq> []"

definition collected :: "lint_state \<Rightarrow> bool" where
  "collected st \<longleftrightarrow> set (fst st) = issue_key ` set (snd st) \<and> distinct (map issue_key (snd st))"

lemma collected_emit: "collected st \<Longrightarrow> collected (emit_issue i st)"
  by (cases st) (auto simp: collected_def emit_issue_def Let_def issue_key_def)

lemma collected_fold: "collected st \<Longrightarrow> collected (fold emit_issue is st)"
  by (induction "is" arbitrary: st) (simp_all add: collected_emit)

lemma emit_Nil_iff:
  "collected st \<Longrightarrow> snd (emit_issue i st) = [] \<longleftrightarrow> snd st = [] \<and> \<not> shown i"
  by (cases st) (auto simp: collected_def emit_issue_def Let_def shown_def)

lemma fold_emit_Nil_iff:
  "collected st \<Longrightarrow> snd (fold emit_issue is st) = [] \<longleftrightarrow> snd st = [] \<and> list_all (\<lambda>i. \<not> shown i) is"
  by (induction "is" arbitrary: st) (auto simp: collected_emit emit_Nil_iff)

lemma collected_start: "collected ([], [])"
  by (simp add: collected_def)

text \<open>A text with a byte that is no part of white space is not trimmed away.\<close>

lemma trim_space_keeps:
  assumes "c \<in> set s" "c \<notin> \<Union> (set ` set space_bytes)"
  shows "trim_space s \<noteq> []"
proof
  assume trimmed: "trim_space s = []"
  obtain a where a: "s = a @ trim_left s" "set a \<subseteq> \<Union> (set ` set space_bytes)"
    using strip_seqs_split [of s space_bytes] by (auto simp: trim_left_def)
  obtain b where b: "rev (trim_left s) = b @ rev (trim_space s)" "set b \<subseteq> \<Union> (set ` set (map rev space_bytes))"
    using strip_seqs_split [of "rev (trim_left s)" "map rev space_bytes"]
    by (auto simp: trim_space_def trim_right_def)
  have "set s = set a \<union> set (trim_left s)" using a(1) by (metis set_append)
  moreover have "rev (trim_left s) = b" using b(1) trimmed by simp
  then have "set (trim_left s) = set b" by (metis set_rev)
  then have "set (trim_left s) \<subseteq> \<Union> (set ` set space_bytes)" using b(2) by (simp add: image_image)
  ultimately show False using a(2) assms by blast
qed

lemma letter_kept:
  "hd s \<in> {CHR ''D'', CHR ''C'', CHR ''V'', CHR ''U'', CHR ''M'', CHR ''A''} \<Longrightarrow> s \<noteq> [] \<Longrightarrow> trim_space s \<noteq> []"
proof -
  assume hd: "hd s \<in> {CHR ''D'', CHR ''C'', CHR ''V'', CHR ''U'', CHR ''M'', CHR ''A''}" and ne: "s \<noteq> []"
  have "hd s \<notin> \<Union> (set ` set space_bytes)" using hd by (auto simp: space_bytes_def)
  then show ?thesis by (rule trim_space_keeps [OF hd_in_set [OF ne]])
qed

section \<open>Duplicates and conflicts\<close>

text \<open>No duplicate is reported if and only if the directives determine their layers.\<close>

lemma duplicate_issues_Nil:
  "duplicate_issues m ps = [] \<longleftrightarrow>
     (\<exists>g. (\<forall>d f. mget m d = Some f \<longrightarrow> g d = f) \<and> (\<forall>(l, d) \<in> set ps. g d = l))"
proof (induction m ps rule: duplicate_issues.induct)
  case (1 m)
  show ?case by (auto intro: exI [of _ "\<lambda>d. the (mget m d)"])
next
  case (2 m l d ps)
  show ?case
  proof (cases "mget m d")
    case None
    have "(\<forall>d' f. mget (mput d l m) d' = Some f \<longrightarrow> g d' = f) \<longleftrightarrow> g d = l \<and> (\<forall>d' f. mget m d' = Some f \<longrightarrow> g d' = f)" for g
      using None by (auto simp: mget_mput)
    with 2(1) [OF None] None show ?thesis by auto
  next
    case (Some f)
    with 2(2) [OF Some] show ?thesis by (cases "f = l") auto
  qed
qed

lemma duplicates_Nil_iff:
  "lintDuplicateInstructions stack = [] \<longleftrightarrow>
     (\<forall>d l1 l2. (l1, d) \<in> set (stack_directives stack) \<longrightarrow> (l2, d) \<in> set (stack_directives stack) \<longrightarrow> l1 = l2)"
  (is "?a \<longleftrightarrow> ?b")
proof
  assume ?b
  then have "\<forall>(l, d) \<in> set (stack_directives stack). (THE l. (l, d) \<in> set (stack_directives stack)) = l"
    by (auto intro!: the_equality)
  then show ?a unfolding lintDuplicateInstructions_def duplicate_issues_Nil
    by (intro exI [of _ "\<lambda>d. THE l. (l, d) \<in> set (stack_directives stack)"]) simp
next
  assume ?a
  then obtain g where g: "\<And>l d. (l, d) \<in> set (stack_directives stack) \<Longrightarrow> g d = l"
    unfolding lintDuplicateInstructions_def duplicate_issues_Nil by auto
  then show ?b by metis
qed

definition layers_for :: "(tool_directive_state \<Rightarrow> (string, unit) gmap) \<Rightarrow> (string, tool_directive_state) gmap \<Rightarrow> string \<Rightarrow> (string, unit) gmap" where
  "layers_for side m tool = (case mget m tool of None \<Rightarrow> mempty | Some s \<Rightarrow> side s)"

lemma keys_mput: "fst ` set (mput k v m) = insert k (fst ` set m)"
  by (rule set_keys_mput)

lemma layers_add:
  "fst ` set (layers_for td_allowLayers (add_directive (t, b, l) m) tool) =
     fst ` set (layers_for td_allowLayers m tool) \<union> (if t = tool \<and> b then {l} else {})"
  "fst ` set (layers_for td_denyLayers (add_directive (t, b, l) m) tool) =
     fst ` set (layers_for td_denyLayers m tool) \<union> (if t = tool \<and> \<not> b then {l} else {})"
  by (auto simp: layers_for_def add_directive_def Let_def mget_mput keys_mput mempty_def split: option.splits)

lemma layers_fold:
  "fst ` set (layers_for td_allowLayers (fold add_directive ds m) tool) =
     fst ` set (layers_for td_allowLayers m tool) \<union> {l. (tool, True, l) \<in> set ds}"
  "fst ` set (layers_for td_denyLayers (fold add_directive ds m) tool) =
     fst ` set (layers_for td_denyLayers m tool) \<union> {l. (tool, False, l) \<in> set ds}"
proof (induction ds arbitrary: m)
  case (Cons d ds)
  obtain t b l where d: "d = (t, b, l)" by (rule prod_cases3)
  case 1
  show ?case by (simp add: Cons d layers_add) auto
  case 2
  show ?case by (simp add: Cons d layers_add) auto
qed simp_all

lemma wf_directives: "wf_gmap m \<Longrightarrow> wf_gmap (fold add_directive ds m)"
  by (induction ds arbitrary: m) (auto simp: add_directive_def Let_def)

lemma directive_entry:
  assumes "(tool, s) \<in> set (fold add_directive ds mempty)"
  shows "fst ` set (td_allowLayers s) = {l. (tool, True, l) \<in> set ds}"
    "fst ` set (td_denyLayers s) = {l. (tool, False, l) \<in> set ds}"
proof -
  have "mget (fold add_directive ds mempty) tool = Some s"
    by (rule in_mget [OF wf_directives assms]) simp
  with layers_fold [of ds mempty tool] show "fst ` set (td_allowLayers s) = {l. (tool, True, l) \<in> set ds}"
    "fst ` set (td_denyLayers s) = {l. (tool, False, l) \<in> set ds}"
    by (simp_all add: layers_for_def mempty_def mget_def [of "[]"])
qed

lemma directive_has_entry:
  "(tool, b, l) \<in> set ds \<Longrightarrow> \<exists>s. (tool, s) \<in> set (fold add_directive ds mempty)"
proof -
  assume "(tool, b, l) \<in> set ds"
  then have "layers_for (if b then td_allowLayers else td_denyLayers) (fold add_directive ds mempty) tool \<noteq> []"
    using layers_fold [of ds mempty tool] by (cases b) auto
  then show ?thesis by (auto simp: layers_for_def mempty_def dest: mget_in split: option.splits)
qed

lemma conflicts_Nil_iff:
  "lintToolDirectiveConflicts stack = [] \<longleftrightarrow>
     (\<forall>tool l1 l2. \<not> ((tool, True, l1) \<in> set (tool_directives stack) \<and> (tool, False, l2) \<in> set (tool_directives stack)))"
proof -
  let ?ds = "tool_directives stack"
  have "conflict_of (tool, s) = [] \<longleftrightarrow> (\<forall>l1 l2. \<not> ((tool, True, l1) \<in> set ?ds \<and> (tool, False, l2) \<in> set ?ds))"
    if "(tool, s) \<in> set (fold add_directive ?ds mempty)" for tool s
  proof -
    have "td_allowLayers s = [] \<longleftrightarrow> {l. (tool, True, l) \<in> set ?ds} = {}"
      "td_denyLayers s = [] \<longleftrightarrow> {l. (tool, False, l) \<in> set ?ds} = {}"
      using directive_entry [OF that] by (metis image_is_empty set_empty)+
    then show ?thesis by (auto simp: conflict_of_def)
  qed
  then show ?thesis using directive_has_entry [of _ _ _ ?ds]
    by (fastforce simp: lintToolDirectiveConflicts_def)
qed

section \<open>Every check reports what is shown\<close>

lemma shownI:
  "hd (li_description i) \<in> {CHR ''D'', CHR ''C'', CHR ''V'', CHR ''U'', CHR ''M'', CHR ''A''} \<Longrightarrow>
   li_description i \<noteq> [] \<Longrightarrow> trim_space (li_layerID i) \<noteq> [] \<Longrightarrow> shown i"
  by (simp add: shown_def letter_kept)

lemma layer_line: "(l, x) \<in> set (stack_lines stack) \<Longrightarrow> l \<in> pl_layerID ` set (layersInOrder stack)"
  by (auto simp: stack_lines_def)

lemma directive_line: "(l, x) \<in> set (stack_directives stack) \<Longrightarrow> l \<in> pl_layerID ` set (layersInOrder stack)"
  by (auto simp: stack_directives_def)

lemma tool_line: "(t, b, l) \<in> set (tool_directives stack) \<Longrightarrow> l \<in> pl_layerID ` set (layersInOrder stack)"
  by (auto simp: tool_directives_def line_directives_def dest: layer_line split: if_splits option.splits prod.splits)

lemma duplicate_issues_in:
  "i \<in> set (duplicate_issues m ps) \<Longrightarrow> \<exists>f l d. i = duplicate_issue f l d \<and> (l, d) \<in> set ps"
  by (induction m ps rule: duplicate_issues.induct) (auto split: option.splits if_splits)

lemma conflict_layer:
  assumes "i \<in> set (lintToolDirectiveConflicts stack)"
  shows "\<exists>t as ds. i = conflict_issue t as ds \<and> li_layerID i \<in> pl_layerID ` set (layersInOrder stack)"
proof -
  let ?ds = "tool_directives stack"
  from assms obtain t s where ts: "(t, s) \<in> set (fold add_directive ?ds mempty)"
    "td_allowLayers s \<noteq> []" "td_denyLayers s \<noteq> []" "i = conflict_issue t (mkeys (td_allowLayers s)) (mkeys (td_denyLayers s))"
    by (auto simp: lintToolDirectiveConflicts_def conflict_of_def split: if_splits)
  have "hd (mkeys (td_allowLayers s)) \<in> fst ` set (td_allowLayers s)"
    "hd (mkeys (td_denyLayers s)) \<in> fst ` set (td_denyLayers s)"
    using ts(2,3) by (cases "td_allowLayers s"; cases "td_denyLayers s"; simp add: mkeys_def)+
  then have "(t, True, hd (mkeys (td_allowLayers s))) \<in> set ?ds" "(t, False, hd (mkeys (td_denyLayers s))) \<in> set ?ds"
    using directive_entry [OF ts(1)] by auto
  then have "li_layerID i \<in> pl_layerID ` set (layersInOrder stack)"
    using tool_line by (simp add: ts(4) conflict_issue_def)
  with ts(4) show ?thesis by blast
qed

lemma reported_shown:
  assumes named: "\<And>l. l \<in> pl_layerID ` set (layersInOrder stack) \<Longrightarrow> trim_space l \<noteq> []"
    and i: "i \<in> set (reported roles stack)"
  shows "shown i"
proof -
  have all: "trim_space LintLayerAll \<noteq> []" by code_simp
  from i consider "i \<in> set (lintDuplicateInstructions stack)" | "i \<in> set (lintToolDirectiveConflicts stack)"
    | "i \<in> set (lintVagueDelegationLanguage stack)" | "i \<in> set (lintUndefinedRoleReferences roles stack)"
    | "i \<in> set (lintMissingSuccessCriteria stack)" | "i \<in> set (lintAbsentTerminationRules stack)"
    by (auto simp: reported_def)
  then show ?thesis
  proof cases
    case 1
    then obtain f l d where "i = duplicate_issue f l d" "(l, d) \<in> set (stack_directives stack)"
      using duplicate_issues_in unfolding lintDuplicateInstructions_def by blast
    with named directive_line show ?thesis by (intro shownI) (auto simp: duplicate_issue_def)
  next
    case 2
    from conflict_layer [OF this] named show ?thesis by (intro shownI) (auto simp: conflict_issue_def)
  next
    case 3
    with named layer_line show ?thesis
      by (intro shownI) (auto simp: lintVagueDelegationLanguage_def vague_issue_def)
  next
    case 4
    with named show ?thesis by (intro shownI) (auto simp: lintUndefinedRoleReferences_def undefined_issue_def)
  next
    case 5
    with all show ?thesis by (intro shownI) (auto simp: lintMissingSuccessCriteria_def split: if_splits)
  next
    case 6
    with all show ?thesis by (intro shownI) (auto simp: lintAbsentTerminationRules_def split: if_splits)
  qed
qed

text \<open>The keys of the issues reported determine severity, layer and text only up to bars, so they are
  compared as keys.\<close>

lemma lint_keys_distinct: "distinct (map issue_key (lint stack definedRoles))"
  using collected_fold [OF collected_start] by (simp add: lint_def collected_def)

text \<open>
  The linter says nothing about a prompt stack exactly if none of its six checks objects: no
  instruction stands in two layers, no tool is both allowed and denied, no line delegates vaguely, every
  role referred to is defined, and there are success criteria and termination rules. What it does say,
  it says once.
\<close>

theorem lint_exact:
  assumes "list_all (\<lambda>l. trim_space (pl_layerID l) \<noteq> []) (layersInOrder stack)"
  shows "(lint stack definedRoles = [] \<longleftrightarrow>
      (\<forall>d l1 l2. (l1, d) \<in> set (stack_directives stack) \<longrightarrow> (l2, d) \<in> set (stack_directives stack) \<longrightarrow> l1 = l2) \<and>
      (\<forall>tool l1 l2. \<not> ((tool, True, l1) \<in> set (tool_directives stack) \<and> (tool, False, l2) \<in> set (tool_directives stack))) \<and>
      (\<forall>(l, line) \<in> set (stack_lines stack). \<not> vague_line line) \<and>
      (\<forall>l \<in> set (layersInOrder stack). set (extractRoleReferences (pl_content l)) \<subseteq> set (normalizeDefinedRoles definedRoles)) \<and>
      hasExplicitSuccessCriteria (to_lower (assemble stack)) \<and> hasTerminationRules (to_lower (assemble stack))) \<and>
    distinct (map issue_key (lint stack definedRoles))"
proof -
  let ?roles = "normalizeDefinedRoles definedRoles"
  have "\<forall>i \<in> set (reported ?roles stack). shown i"
    using reported_shown [of stack _ ?roles] assms by (auto simp: list_all_iff)
  then have "list_all (\<lambda>i. \<not> shown i) (reported ?roles stack) \<longleftrightarrow> reported ?roles stack = []"
    by (cases "reported ?roles stack") auto
  then have "lint stack definedRoles = [] \<longleftrightarrow> reported ?roles stack = []"
    using fold_emit_Nil_iff [OF collected_start, of "reported ?roles stack"] by (simp add: lint_def)
  moreover have "lintVagueDelegationLanguage stack = [] \<longleftrightarrow> (\<forall>(l, line) \<in> set (stack_lines stack). \<not> vague_line line)"
    by (auto simp: lintVagueDelegationLanguage_def filter_empty_conv)
  moreover have "lintUndefinedRoleReferences ?roles stack = [] \<longleftrightarrow>
      (\<forall>l \<in> set (layersInOrder stack). set (extractRoleReferences (pl_content l)) \<subseteq> set ?roles)"
    by (auto simp: lintUndefinedRoleReferences_def filter_empty_conv)
  moreover have "lintMissingSuccessCriteria stack = [] \<longleftrightarrow> hasExplicitSuccessCriteria (to_lower (assemble stack))"
    "lintAbsentTerminationRules stack = [] \<longleftrightarrow> hasTerminationRules (to_lower (assemble stack))"
    by (simp_all add: lintMissingSuccessCriteria_def lintAbsentTerminationRules_def)
  ultimately show ?thesis
    by (simp add: reported_def duplicates_Nil_iff conflicts_Nil_iff lint_keys_distinct)
qed

definition echo_stack :: prompt_stack where
  "echo_stack = newPromptStack
    \<lparr>ps_agentIdentity := (empty_layer LayerAgentIdentity)\<lparr>pl_content := ''- keep it short''\<rparr>,
     ps_sessionOverlay := (empty_layer LayerSessionOverlay)\<lparr>pl_content := ''Keep it  short.''\<rparr>\<rparr>"

lemma echo_directives:
  "stack_directives echo_stack = [(LayerAgentIdentity, ''keep it short''), (LayerSessionOverlay, ''keep it short'')]"
  by code_simp

theorem lint_exact_witness:
  "lint echo_stack [] \<noteq> [] \<and> distinct (map issue_key (lint echo_stack []))"
proof -
  have "list_all (\<lambda>l. trim_space (pl_layerID l) \<noteq> []) (layersInOrder echo_stack)" by code_simp
  note exact = lint_exact [OF this, of "[]"]
  have "LayerAgentIdentity \<noteq> LayerSessionOverlay" by (simp add: layer_names)
  then have "\<not> (\<forall>d l1 l2. (l1, d) \<in> set (stack_directives echo_stack) \<longrightarrow>
      (l2, d) \<in> set (stack_directives echo_stack) \<longrightarrow> l1 = l2)"
    by (auto simp: echo_directives)
  with exact show ?thesis by blast
qed

text \<open>
  A heading without any criterion below it passes for one when another layer follows: the marker of
  that layer is read as the criterion.
\<close>

lemma marker_passes_for_criterion:
  "criteria_line ''success criteria:'' [to_lower (layerMarker LayerSessionOverlay)]"
  by code_simp

end
