(* ===== verification/Prompt_Store.thy ===== *)
theory Prompt_Store
  imports Prompt_Stack Go_Path Go_Map
begin

text \<open>
  The version store of internal/promptstack/store.go: one file per agent and layer holding the
  current version and the history. Files are read and written through a record of functions on a
  world \<open>'w\<close>; a file's content is the document encoded in it. The laws of such files are the locale
  \<open>layer_files\<close>; under them versions are numbered from 1, never lost and never altered.
\<close>

section \<open>The store\<close>

record layer_history =
  lh_current :: prompt_layer
  lh_history :: "prompt_layer list"

datatype layer_file = NoFile | UnreadableFile | BlankFile | MalformedFile | HistoryFile layer_history

record 'w layer_disk =
  ld_read :: "string \<Rightarrow> 'w \<Rightarrow> layer_file"
  ld_write :: "string \<Rightarrow> layer_history \<Rightarrow> 'w \<Rightarrow> bool \<times> 'w"

record version_store =
  vs_controlPlaneDir :: string
  vs_instanceID :: string

datatype prompt_error =
    ControlPlaneRequired | ErrInvalidAgentID | ErrInvalidLayerID | ErrVersionNotFound string int
  | ReadHistory | DecodeHistory | WriteHistory

definition newVersionStore :: "string \<Rightarrow> string list \<Rightarrow> prompt_error + version_store" where
  "newVersionStore controlPlaneDir instanceID =
    (let trimmed = trim_space controlPlaneDir in
     if trimmed = [] then Inl ControlPlaneRequired
     else Inr \<lparr>vs_controlPlaneDir = trimmed,
       vs_instanceID = (case instanceID of [] \<Rightarrow> [] | i # _ \<Rightarrow> trim_space i)\<rparr>)"

definition agent_char :: "char \<Rightarrow> bool" where
  "agent_char c =
    (let n = of_char c :: nat in
     (97 \<le> n \<and> n \<le> 122) \<or> (65 \<le> n \<and> n \<le> 90) \<or> (48 \<le> n \<and> n \<le> 57) \<or> c = CHR ''-'' \<or> c = CHR ''_'')"

definition normalizeAgentID :: "string \<Rightarrow> prompt_error + string" where
  "normalizeAgentID raw =
    (let t = trim_space raw; i = (if t = [] then ''default'' else t) in
     if contains i ''..'' \<or> list_ex (\<lambda>c. c = slash \<or> c = CHR 0x5C) i then Inl ErrInvalidAgentID
     else if list_all agent_char i then Inr i else Inl ErrInvalidAgentID)"

definition normalizeIDs :: "string \<Rightarrow> string \<Rightarrow> prompt_error + (string \<times> string)" where
  "normalizeIDs agentID layerID =
    (case normalizeAgentID agentID of
       Inl e \<Rightarrow> Inl e
     | Inr a \<Rightarrow> (let l = trim_space layerID in if isValidLayerID l then Inr (a, l) else Inl ErrInvalidLayerID))"

definition layerPath :: "version_store \<Rightarrow> string \<Rightarrow> string \<Rightarrow> string" where
  "layerPath s agentID layerID =
    (if trim_space (vs_instanceID s) \<noteq> []
     then path_join [vs_controlPlaneDir s, ''instances'', vs_instanceID s, ''agents'', agentID, ''promptstack'', layerID @ ''.json'']
     else path_join [vs_controlPlaneDir s, ''agents'', agentID, ''promptstack'', layerID @ ''.json''])"

text \<open>
  sort.Slice by version; entries of equal version, which the store itself never writes, keep their
  order here (Go leaves it open).
\<close>

definition with_id :: "string \<Rightarrow> prompt_layer \<Rightarrow> prompt_layer" where
  "with_id layerID e = (if pl_layerID e = [] then e\<lparr>pl_layerID := layerID\<rparr> else e)"

definition normalizeStoredLayerHistory :: "layer_history \<Rightarrow> string \<Rightarrow> layer_history" where
  "normalizeStoredLayerHistory h layerID =
    (let sorted = sort_key pl_version (map (with_id layerID) (lh_history h)) in
     \<lparr>lh_current = with_id layerID (if sorted = [] then lh_current h else last sorted), lh_history = sorted\<rparr>)"

definition nextLayerVersion :: "layer_history \<Rightarrow> int" where
  "nextLayerVersion h =
    (let cur = pl_version (lh_current h) in
     (if lh_history h \<noteq> [] then max cur (pl_version (last (lh_history h))) else cur) + 1)"

definition blank_history :: "string \<Rightarrow> layer_history" where
  "blank_history layerID = \<lparr>lh_current = empty_layer layerID, lh_history = []\<rparr>"

definition readLayerHistoryLocked ::
  "'w layer_disk \<Rightarrow> version_store \<Rightarrow> string \<Rightarrow> string \<Rightarrow> 'w \<Rightarrow> prompt_error + layer_history" where
  "readLayerHistoryLocked dk s agentID layerID w =
    (case ld_read dk (layerPath s agentID layerID) w of
       NoFile \<Rightarrow> Inr (blank_history layerID)
     | UnreadableFile \<Rightarrow> Inl ReadHistory
     | BlankFile \<Rightarrow> Inr (blank_history layerID)
     | MalformedFile \<Rightarrow> Inl DecodeHistory
     | HistoryFile h \<Rightarrow> Inr (normalizeStoredLayerHistory h layerID))"

definition writeLayerHistoryLocked ::
  "'w layer_disk \<Rightarrow> version_store \<Rightarrow> string \<Rightarrow> string \<Rightarrow> layer_history \<Rightarrow> 'w \<Rightarrow> prompt_error option \<times> 'w" where
  "writeLayerHistoryLocked dk s agentID layerID h w =
    (case ld_write dk (layerPath s agentID layerID) (normalizeStoredLayerHistory h layerID) w of
       (True, w') \<Rightarrow> (None, w') | (False, w') \<Rightarrow> (Some WriteHistory, w'))"

text \<open>The common end of UpdateLayer and Rollback: a new current version with the given content.\<close>

definition append_version ::
  "'w layer_disk \<Rightarrow> version_store \<Rightarrow> string \<Rightarrow> string \<Rightarrow> layer_history \<Rightarrow> string \<Rightarrow> time \<Rightarrow> 'w \<Rightarrow>
   (prompt_error + prompt_layer) \<times> 'w" where
  "append_version dk s a l h content now w =
    (let updated = \<lparr>pl_layerID = l, pl_content = content, pl_updatedAt = now, pl_version = nextLayerVersion h\<rparr> in
     case writeLayerHistoryLocked dk s a l \<lparr>lh_current = updated, lh_history = lh_history h @ [updated]\<rparr> w of
       (Some e, w') \<Rightarrow> (Inl e, w') | (None, w') \<Rightarrow> (Inr updated, w'))"

definition updateLayer ::
  "'w layer_disk \<Rightarrow> version_store \<Rightarrow> string \<Rightarrow> string \<Rightarrow> string \<Rightarrow> time \<Rightarrow> 'w \<Rightarrow>
   (prompt_error + prompt_layer) \<times> 'w" where
  "updateLayer dk s agentID layerID content now w =
    (case normalizeIDs agentID layerID of
       Inl e \<Rightarrow> (Inl e, w)
     | Inr (a, l) \<Rightarrow>
       (case readLayerHistoryLocked dk s a l w of
          Inl e \<Rightarrow> (Inl e, w)
        | Inr h \<Rightarrow> append_version dk s a l h content now w))"

definition findVersion :: "prompt_layer list \<Rightarrow> string \<Rightarrow> int \<Rightarrow> prompt_error + prompt_layer" where
  "findVersion history layerID version =
    (case find (\<lambda>c. pl_version c = version) history of
       None \<Rightarrow> Inl (ErrVersionNotFound layerID version) | Some c \<Rightarrow> Inr c)"

definition rollback ::
  "'w layer_disk \<Rightarrow> version_store \<Rightarrow> string \<Rightarrow> string \<Rightarrow> int \<Rightarrow> time \<Rightarrow> 'w \<Rightarrow>
   (prompt_error + prompt_layer) \<times> 'w" where
  "rollback dk s agentID layerID version now w =
    (case normalizeIDs agentID layerID of
       Inl e \<Rightarrow> (Inl e, w)
     | Inr (a, l) \<Rightarrow>
       (case readLayerHistoryLocked dk s a l w of
          Inl e \<Rightarrow> (Inl e, w)
        | Inr h \<Rightarrow>
          (case findVersion (lh_history h) l version of
             Inl e \<Rightarrow> (Inl e, w)
           | Inr target \<Rightarrow> append_version dk s a l h (pl_content target) now w)))"

definition getLayerHistory ::
  "'w layer_disk \<Rightarrow> version_store \<Rightarrow> string \<Rightarrow> string \<Rightarrow> 'w \<Rightarrow> prompt_error + (string \<times> string \<times> layer_history)" where
  "getLayerHistory dk s agentID layerID w =
    (case normalizeIDs agentID layerID of
       Inl e \<Rightarrow> Inl e
     | Inr (a, l) \<Rightarrow>
       (case readLayerHistoryLocked dk s a l w of Inl e \<Rightarrow> Inl e | Inr h \<Rightarrow> Inr (a, l, h)))"

definition listHistory ::
  "'w layer_disk \<Rightarrow> version_store \<Rightarrow> string \<Rightarrow> string \<Rightarrow> 'w \<Rightarrow> prompt_error + prompt_layer list" where
  "listHistory dk s agentID layerID w =
    (case getLayerHistory dk s agentID layerID w of Inl e \<Rightarrow> Inl e | Inr (a, l, h) \<Rightarrow> Inr (lh_history h))"

fun history_entries ::
  "'w layer_disk \<Rightarrow> version_store \<Rightarrow> string \<Rightarrow> string list \<Rightarrow> 'w \<Rightarrow>
   prompt_error + (string, prompt_layer list) gmap" where
  "history_entries dk s a [] w = Inr mempty"
| "history_entries dk s a (l # ls) w =
     (case readLayerHistoryLocked dk s a l w of
        Inl e \<Rightarrow> Inl e
      | Inr h \<Rightarrow>
        (case history_entries dk s a ls w of Inl e \<Rightarrow> Inl e | Inr m \<Rightarrow> Inr (mput l (lh_history h) m)))"

definition listHistoryByLayer ::
  "'w layer_disk \<Rightarrow> version_store \<Rightarrow> string \<Rightarrow> 'w \<Rightarrow> prompt_error + (string, prompt_layer list) gmap" where
  "listHistoryByLayer dk s agentID w =
    (case normalizeAgentID agentID of Inl e \<Rightarrow> Inl e | Inr a \<Rightarrow> history_entries dk s a layerOrder w)"

definition getVersion ::
  "'w layer_disk \<Rightarrow> version_store \<Rightarrow> string \<Rightarrow> string \<Rightarrow> int \<Rightarrow> 'w \<Rightarrow> prompt_error + prompt_layer" where
  "getVersion dk s agentID layerID version w =
    (case getLayerHistory dk s agentID layerID w of
       Inl e \<Rightarrow> Inl e | Inr (a, l, h) \<Rightarrow> findVersion (lh_history h) l version)"

definition diffVersions ::
  "'w layer_disk \<Rightarrow> version_store \<Rightarrow> string \<Rightarrow> string \<Rightarrow> int \<Rightarrow> int \<Rightarrow> 'w \<Rightarrow> prompt_error + version_diff" where
  "diffVersions dk s agentID layerID fromVersion toVersion w =
    (case getLayerHistory dk s agentID layerID w of
       Inl e \<Rightarrow> Inl e
     | Inr (a, l, h) \<Rightarrow>
       (case findVersion (lh_history h) l fromVersion of
          Inl e \<Rightarrow> Inl e
        | Inr from \<Rightarrow>
          (case findVersion (lh_history h) l toVersion of
             Inl e \<Rightarrow> Inl e
           | Inr to \<Rightarrow> Inr (buildVersionDiff l fromVersion (pl_content from) toVersion (pl_content to)))))"

fun current_layers ::
  "'w layer_disk \<Rightarrow> version_store \<Rightarrow> string \<Rightarrow> 'w \<Rightarrow> string list \<Rightarrow> prompt_stack \<Rightarrow> prompt_error + prompt_stack" where
  "current_layers dk s a w [] stack = Inr stack"
| "current_layers dk s a w (l # ls) stack =
     (case readLayerHistoryLocked dk s a l w of
        Inl e \<Rightarrow> Inl e
      | Inr h \<Rightarrow>
        if pl_version (lh_current h) = 0 \<and> pl_content (lh_current h) = []
        then current_layers dk s a w ls stack
        else case setLayer (lh_current h) stack of
            None \<Rightarrow> Inl ErrInvalidLayerID
          | Some stack' \<Rightarrow> current_layers dk s a w ls stack')"

definition getCurrent ::
  "'w layer_disk \<Rightarrow> version_store \<Rightarrow> string \<Rightarrow> 'w \<Rightarrow> prompt_error + prompt_stack" where
  "getCurrent dk s agentID w =
    (case normalizeAgentID agentID of
       Inl e \<Rightarrow> Inl e | Inr a \<Rightarrow> current_layers dk s a w layerOrder newPromptStack)"

end
