(* ===== verification/Prompt_Store_Facts.thy ===== *)
theory Prompt_Store_Facts
  imports Prompt_Store
begin

text \<open>
  What the version store promises. Each agent and layer has a file of its own (\<open>layerPath_inj\<close>); under
  the laws of the locale \<open>layer_files\<close> the store implements a table of version lists, one per agent
  and layer, that only grows at its end.
\<close>

section \<open>One file per agent and layer\<close>

lemma split_on_append_sep: "split_on d (x @ d # y) = split_on d x @ split_on d y"
proof (induction x)
  case (Cons c x)
  obtain p ps where "split_on d x = p # ps" using split_on_nonempty by (cases "split_on d x") auto
  with Cons show ?case by auto
qed simp

lemma clean_elems_append:
  "list_all plain_elem fs \<Longrightarrow> clean_elems r acc (es @ fs) = clean_elems r acc es @ fs"
  by (induction r acc es rule: clean_elems.induct) (auto simp: clean_elems_id)

lemma clean_elems_set: "e \<in> set (clean_elems r acc es) \<Longrightarrow> e \<in> set acc \<or> e \<noteq> [] \<and> (e \<in> set es \<or> e = ''..'')"
  by (induction r acc es rule: clean_elems.induct) (auto split: if_splits dest: list.set_sel(2))

lemma join_with_append:
  "xs \<noteq> [] \<Longrightarrow> ys \<noteq> [] \<Longrightarrow> join_with sep (xs @ ys) = join_with sep xs @ sep @ join_with sep ys"
proof (induction xs rule: induct_list012)
  case (2 x)
  then show ?case by (cases ys) auto
qed auto

text \<open>What is joined to a path below it can be read off the result.\<close>

lemma path_join_inj:
  assumes "e \<noteq> []" "list_all plain_elem fs" "list_all plain_elem gs" "fs \<noteq> []" "gs \<noteq> []" "length fs = length gs"
    and eq: "path_join (e # pre @ fs) = path_join (e # pre @ gs)"
  shows "fs = gs"
proof -
  let ?p = "join_with [slash] (e # pre)"
  let ?X = "clean_elems (is_abs ?p) [] (split_on slash ?p)"
  have X: "\<And>x. x \<in> set ?X \<Longrightarrow> x \<noteq> [] \<and> slash \<notin> set x" using clean_elems_set split_on_no_sep by fastforce
  have pne: "?p \<noteq> []" using \<open>e \<noteq> []\<close> by (cases pre) auto
  have norm: "elems_of (path_join (e # pre @ ks)) = ?X @ ks \<and> is_abs (path_join (e # pre @ ks)) = is_abs ?p"
    if ks: "list_all plain_elem ks" "ks \<noteq> []" for ks
  proof -
    have sl: "\<And>k. k \<in> set ks \<Longrightarrow> slash \<notin> set k" using ks(1) by (auto simp: list_all_iff plain_elem_def)
    have body: "split_on slash (join_with [slash] (?X @ ks)) = ?X @ ks"
      using ks(2) X sl by (intro split_join) auto
    let ?B = "join_with [slash] (?X @ ks)"
    have "?B \<noteq> []"
    proof
      assume "?B = []"
      with body have "?X @ ks = [[]]" by simp
      then have "last ks = []" using ks(2) by (metis last.simps last_appendR)
      with ks show False by (auto simp: list_all_iff plain_elem_def dest: last_in_set)
    qed
    moreover have "\<not> is_abs ?B"
    proof -
      obtain x xs where x: "?X @ ks = x # xs" using ks(2) by (cases "?X @ ks") auto
      then have "x \<in> set ?X \<or> x \<in> set ks" by (metis Un_iff list.set_intros(1) set_append)
      then have "x \<noteq> []" "slash \<notin> set x" using X ks(1) by (auto simp: list_all_iff plain_elem_def)
      then have "hd x \<noteq> slash" by (cases x) auto
      with x \<open>x \<noteq> []\<close> show ?thesis by (cases xs) (auto simp: is_abs_def)
    qed
    moreover have "path_join (e # pre @ ks) = (if is_abs ?p then slash # ?B else ?B)"
    proof -
      have "join_with [slash] (e # pre @ ks) = ?p @ slash # join_with [slash] ks"
        using join_with_append [of "e # pre" ks "[slash]"] ks(2) by simp
      moreover have "is_abs (?p @ slash # join_with [slash] ks) = is_abs ?p"
        using pne by (simp add: is_abs_def)
      moreover have "clean_elems (is_abs ?p) [] (split_on slash (?p @ slash # join_with [slash] ks)) = ?X @ ks"
        using clean_elems_append [OF ks(1)] split_join [of ks slash] ks(2) sl by (simp add: split_on_append_sep)
      ultimately show ?thesis using \<open>e \<noteq> []\<close> \<open>?B \<noteq> []\<close>
        by (cases "is_abs ?p") (simp_all add: path_join_def path_clean_def Let_def)
    qed
    ultimately have join: "path_join (e # pre @ ks) = (if is_abs ?p then slash # ?B else ?B)"
      and B: "?B \<noteq> []" "\<not> is_abs ?B" by blast+
    show ?thesis
    proof (cases "is_abs ?p")
      case True
      then have p: "path_join (e # pre @ ks) = slash # ?B" using join by simp
      show ?thesis unfolding p using True B(1) body by (simp add: elems_of_def is_abs_def)
    next
      case False
      then have p: "path_join (e # pre @ ks) = ?B" using join by simp
      show ?thesis unfolding p using False B body by (simp add: elems_of_def)
    qed
  qed
  have "?X @ fs = elems_of (path_join (e # pre @ fs))" by (rule conjunct1 [OF norm [OF assms(2,4)], symmetric])
  also have "\<dots> = elems_of (path_join (e # pre @ gs))" by (simp only: eq)
  also have "\<dots> = ?X @ gs" using norm [OF assms(3,5)] by (rule conjunct1)
  finally show ?thesis by (simp only: same_append_eq)
qed

definition valid_ids :: "string \<Rightarrow> string \<Rightarrow> bool" where
  "valid_ids a l \<longleftrightarrow> a \<noteq> [] \<and> list_all agent_char a \<and> l \<in> set layerOrder"

lemma agent_char_plain: "a \<noteq> [] \<Longrightarrow> list_all agent_char a \<Longrightarrow> plain_elem a"
  by (cases a) (auto simp: plain_elem_def list_all_iff agent_char_def)

lemma layer_file_plain: "l \<in> set layerOrder \<Longrightarrow> plain_elem (l @ ''.json'')"
  by (auto simp: layerOrder_def layer_names plain_elem_def)

lemma normalizeAgentID_valid: "normalizeAgentID raw = Inr a \<Longrightarrow> a \<noteq> [] \<and> list_all agent_char a"
  by (auto simp: normalizeAgentID_def Let_def agent_char_def split: if_splits)

lemma trim_layer: "l \<in> set layerOrder \<Longrightarrow> trim_space l = l"
proof -
  have "list_all (\<lambda>l. trim_space l = l) layerOrder" by code_simp
  then show "l \<in> set layerOrder \<Longrightarrow> trim_space l = l" by (simp add: list_all_iff)
qed

lemma normalizeIDs_valid: "normalizeIDs agentID layerID = Inr (a, l) \<Longrightarrow> valid_ids a l"
  using normalizeAgentID_valid
  by (auto simp: normalizeIDs_def valid_ids_def isValidLayerID_def Let_def split: sum.splits if_splits)

lemma layerPath_inj:
  assumes "vs_controlPlaneDir s \<noteq> []" "valid_ids a l" "valid_ids b k" "layerPath s a l = layerPath s b k"
  shows "a = b \<and> l = k"
proof -
  have plain: "list_all plain_elem [''agents'', x, ''promptstack'', y @ ''.json'']" if "valid_ids x y" for x y
    using that agent_char_plain layer_file_plain by (auto simp: valid_ids_def plain_elem_def)
  show ?thesis
  proof (cases "trim_space (vs_instanceID s) = []")
    case True
    with path_join_inj [OF assms(1) plain [OF assms(2)] plain [OF assms(3)], of "[]"] assms(4)
    show ?thesis by (simp add: layerPath_def)
  next
    case False
    with path_join_inj [OF assms(1) plain [OF assms(2)] plain [OF assms(3)], of "[''instances'', vs_instanceID s]"] assms(4)
    show ?thesis by (simp add: layerPath_def)
  qed
qed

section \<open>Histories\<close>

text \<open>Versions count from 1, every entry has the id of its layer.\<close>

definition numbered :: "string \<Rightarrow> prompt_layer list \<Rightarrow> bool" where
  "numbered l hs \<longleftrightarrow> map pl_version hs = [1..int (length hs)] \<and> (\<forall>e \<in> set hs. pl_layerID e = l)"

lemma numbered_snoc:
  "numbered l hs \<Longrightarrow> pl_version e = int (length hs) + 1 \<Longrightarrow> pl_layerID e = l \<Longrightarrow> numbered l (hs @ [e])"
  by (simp add: numbered_def upto_rec2 add.commute)

lemma numbered_nth: "numbered l hs \<Longrightarrow> i < length hs \<Longrightarrow> pl_version (hs ! i) = int i + 1"
proof -
  assume n: "numbered l hs" and i: "i < length hs"
  then have "map pl_version hs ! i = [1..int (length hs)] ! i" by (simp add: numbered_def)
  with i show ?thesis by (simp add: nth_upto)
qed

definition history_of :: "string \<Rightarrow> prompt_layer list \<Rightarrow> layer_history" where
  "history_of l hs = \<lparr>lh_current = (if hs = [] then empty_layer l else last hs), lh_history = hs\<rparr>"

lemma layer_nonempty: "l \<in> set layerOrder \<Longrightarrow> l \<noteq> []"
  by (auto simp: layerOrder_def layer_names)

lemma normalize_numbered:
  assumes "numbered l hs" "l \<noteq> []" "hs \<noteq> [] \<or> cur = empty_layer l"
  shows "normalizeStoredLayerHistory \<lparr>lh_current = cur, lh_history = hs\<rparr> l = history_of l hs"
proof -
  have "map (with_id l) hs = hs"
    using assms(1,2) by (auto simp: numbered_def with_id_def intro: map_idI)
  moreover have "sort_key pl_version hs = hs"
    using assms(1) by (intro sort_key_id_if_sorted) (simp add: numbered_def)
  ultimately show ?thesis using assms
    by (auto simp: normalizeStoredLayerHistory_def history_of_def Let_def with_id_def empty_layer_def numbered_def)
qed

lemma next_version: "numbered l hs \<Longrightarrow> nextLayerVersion (history_of l hs) = int (length hs) + 1"
  using numbered_nth [of l hs "length hs - 1"]
  by (auto simp: nextLayerVersion_def history_of_def empty_layer_def Let_def last_conv_nth)

text \<open>A version number finds its entry.\<close>

definition version_at :: "prompt_layer list \<Rightarrow> int \<Rightarrow> prompt_layer option" where
  "version_at hs v = (if 1 \<le> v \<and> v \<le> int (length hs) then Some (hs ! nat (v - 1)) else None)"

lemma findVersion_numbered:
  assumes "numbered l hs"
  shows "findVersion hs l v = (case version_at hs v of None \<Rightarrow> Inl (ErrVersionNotFound l v) | Some e \<Rightarrow> Inr e)"
proof (cases "1 \<le> v \<and> v \<le> int (length hs)")
  case True
  let ?i = "nat (v - 1)"
  have "?i < length hs" "pl_version (hs ! ?i) = v" using True numbered_nth [OF assms, of ?i] by auto
  moreover have "pl_version (hs ! j) \<noteq> v" if "j < ?i" for j
    using that True numbered_nth [OF assms, of j] by linarith
  ultimately have "find (\<lambda>c. pl_version c = v) hs = Some (hs ! ?i)" by (auto simp: find_Some_iff)
  with True show ?thesis by (simp add: findVersion_def version_at_def)
next
  case False
  then have "\<forall>c \<in> set hs. pl_version c \<noteq> v" using numbered_nth [OF assms] by (force simp: in_set_conv_nth)
  then have "find (\<lambda>c. pl_version c = v) hs = None" by (simp add: find_None_iff)
  with False show ?thesis by (auto simp: findVersion_def version_at_def)
qed

end
