(* ===== verification/Prompt_Versions.thy ===== *)
theory Prompt_Versions
  imports Prompt_Store_Facts
begin

text \<open>
  The version store refines a table of version lists. The locale \<open>layer_files\<close> states what is asked of
  the files: a write that succeeds is read back, one that fails changes nothing, other files stay.
  Histories of updates and rollbacks on the store then answer like the table.
\<close>

section \<open>The table\<close>

type_synonym history_table = "string \<Rightarrow> string \<Rightarrow> prompt_layer list"

datatype prompt_op =
    PUpdate string string string time
  | PRollback string string int time

definition put_version :: "string \<Rightarrow> string \<Rightarrow> string \<Rightarrow> time \<Rightarrow> history_table \<Rightarrow> prompt_layer \<times> history_table" where
  "put_version a l content now T =
    (let e = \<lparr>pl_layerID = l, pl_content = content, pl_updatedAt = now, pl_version = int (length (T a l)) + 1\<rparr>
     in (e, T(a := (T a)(l := T a l @ [e]))))"

text \<open>What an operation does on the table; the flag tells whether the file could be written.\<close>

definition table_put ::
  "bool \<Rightarrow> string \<Rightarrow> string \<Rightarrow> string \<Rightarrow> time \<Rightarrow> history_table \<Rightarrow> (prompt_error + prompt_layer) \<times> history_table" where
  "table_put wrote a l content now T =
    (if wrote then (case put_version a l content now T of (e, T') \<Rightarrow> (Inr e, T')) else (Inl WriteHistory, T))"

definition table_op ::
  "bool \<Rightarrow> prompt_op \<Rightarrow> history_table \<Rightarrow> (prompt_error + prompt_layer) \<times> history_table" where
  "table_op wrote op T =
    (case op of
       PUpdate agentID layerID content now \<Rightarrow>
         (case normalizeIDs agentID layerID of
            Inl e \<Rightarrow> (Inl e, T) | Inr (a, l) \<Rightarrow> table_put wrote a l content now T)
     | PRollback agentID layerID v now \<Rightarrow>
         (case normalizeIDs agentID layerID of
            Inl e \<Rightarrow> (Inl e, T)
          | Inr (a, l) \<Rightarrow>
            (case version_at (T a l) v of
               None \<Rightarrow> (Inl (ErrVersionNotFound l v), T)
             | Some t \<Rightarrow> table_put wrote a l (pl_content t) now T)))"

definition store_op ::
  "'w layer_disk \<Rightarrow> version_store \<Rightarrow> prompt_op \<Rightarrow> 'w \<Rightarrow> (prompt_error + prompt_layer) \<times> 'w" where
  "store_op dk s op w =
    (case op of
       PUpdate agentID layerID content now \<Rightarrow> updateLayer dk s agentID layerID content now w
     | PRollback agentID layerID v now \<Rightarrow> rollback dk s agentID layerID v now w)"

fun store_run ::
  "'w layer_disk \<Rightarrow> version_store \<Rightarrow> prompt_op list \<Rightarrow> 'w \<Rightarrow> (prompt_error + prompt_layer) list \<times> 'w" where
  "store_run dk s [] w = ([], w)"
| "store_run dk s (op # ops) w =
     (case store_op dk s op w of (r, w1) \<Rightarrow> (case store_run dk s ops w1 of (rs, w2) \<Rightarrow> (r # rs, w2)))"

fun table_run ::
  "(bool \<times> prompt_op) list \<Rightarrow> history_table \<Rightarrow> (prompt_error + prompt_layer) list \<times> history_table" where
  "table_run [] T = ([], T)"
| "table_run ((b, op) # ops) T =
     (case table_op b op T of (r, T1) \<Rightarrow> (case table_run ops T1 of (rs, T2) \<Rightarrow> (r # rs, T2)))"

text \<open>The stack an agent's lists stand for.\<close>

definition current_of :: "history_table \<Rightarrow> string \<Rightarrow> string \<Rightarrow> prompt_layer" where
  "current_of T a l = (if T a l = [] then empty_layer l else last (T a l))"

definition stack_of :: "history_table \<Rightarrow> string \<Rightarrow> prompt_stack" where
  "stack_of T a =
    \<lparr>ps_globalOperatorPolicy = current_of T a LayerGlobalOperatorPolicy,
     ps_agentIdentity = current_of T a LayerAgentIdentity,
     ps_toolSafetyRules = current_of T a LayerToolSafetyRules,
     ps_delegationPolicy = current_of T a LayerDelegationPolicy,
     ps_sessionOverlay = current_of T a LayerSessionOverlay\<rparr>"

text \<open>A world whose files hold a table.\<close>

definition holds :: "'w layer_disk \<Rightarrow> version_store \<Rightarrow> 'w \<Rightarrow> history_table \<Rightarrow> bool" where
  "holds dk s w T \<longleftrightarrow>
    (\<forall>a l. valid_ids a l \<longrightarrow>
       numbered l (T a l) \<and> readLayerHistoryLocked dk s a l w = Inr (history_of l (T a l)))"

lemma holdsD:
  "holds dk s w T \<Longrightarrow> valid_ids a l \<Longrightarrow> numbered l (T a l)"
  "holds dk s w T \<Longrightarrow> valid_ids a l \<Longrightarrow> readLayerHistoryLocked dk s a l w = Inr (history_of l (T a l))"
  by (auto simp: holds_def)

section \<open>Reads\<close>

lemma holds_getLayerHistory:
  "holds dk s w T \<Longrightarrow>
   getLayerHistory dk s agentID layerID w =
     (case normalizeIDs agentID layerID of Inl e \<Rightarrow> Inl e | Inr (a, l) \<Rightarrow> Inr (a, l, history_of l (T a l)))"
  by (auto simp: getLayerHistory_def holdsD(2) split: sum.splits dest: normalizeIDs_valid)

lemma holds_listHistory:
  "holds dk s w T \<Longrightarrow>
   listHistory dk s agentID layerID w =
     (case normalizeIDs agentID layerID of Inl e \<Rightarrow> Inl e | Inr (a, l) \<Rightarrow> Inr (T a l))"
  by (simp add: listHistory_def holds_getLayerHistory history_of_def split: sum.splits prod.splits)

lemma holds_getVersion:
  "holds dk s w T \<Longrightarrow>
   getVersion dk s agentID layerID v w =
     (case normalizeIDs agentID layerID of
        Inl e \<Rightarrow> Inl e
      | Inr (a, l) \<Rightarrow>
        (case version_at (T a l) v of None \<Rightarrow> Inl (ErrVersionNotFound l v) | Some e \<Rightarrow> Inr e))"
  by (auto simp: getVersion_def holds_getLayerHistory history_of_def findVersion_numbered [OF holdsD(1)]
      split: sum.splits dest: normalizeIDs_valid)

lemma setLayer_last:
  assumes "numbered l hs" "hs \<noteq> []"
  shows "pl_layerID (last hs) = l"
  using assms by (simp add: numbered_def)

lemma set_named:
  "l \<in> set layerOrder \<Longrightarrow> pl_layerID e = l \<Longrightarrow>
   setLayer e st = Some
     (if l = LayerGlobalOperatorPolicy then st\<lparr>ps_globalOperatorPolicy := e\<rparr>
      else if l = LayerAgentIdentity then st\<lparr>ps_agentIdentity := e\<rparr>
      else if l = LayerToolSafetyRules then st\<lparr>ps_toolSafetyRules := e\<rparr>
      else if l = LayerDelegationPolicy then st\<lparr>ps_delegationPolicy := e\<rparr>
      else st\<lparr>ps_sessionOverlay := e\<rparr>)"
  by (auto simp: setLayer_def Let_def trim_layer isValidLayerID_def layerOrder_def)

lemma current_step:
  assumes "holds dk s w T" "valid_ids a l"
  shows "current_layers dk s a w (l # ls) st =
    current_layers dk s a w ls (if T a l = [] then st else the (setLayer (current_of T a l) st))"
proof (cases "T a l = []")
  case True
  then show ?thesis using holdsD [OF assms] by (simp add: history_of_def empty_layer_def)
next
  case False
  note n = holdsD(1) [OF assms]
  have v: "pl_version (last (T a l)) \<noteq> 0"
    using False numbered_nth [OF n, of "length (T a l) - 1"] by (simp add: last_conv_nth)
  have "l \<in> set layerOrder" using assms(2) by (simp add: valid_ids_def)
  from set_named [OF this setLayer_last [OF n False]] show ?thesis
    using False v holdsD(2) [OF assms] by (simp add: history_of_def current_of_def)
qed

lemma holds_getCurrent:
  assumes "holds dk s w T" "normalizeAgentID agentID = Inr a"
  shows "getCurrent dk s agentID w = Inr (stack_of T a)"
proof -
  have v: "l \<in> set layerOrder \<Longrightarrow> valid_ids a l" for l
    using normalizeAgentID_valid [OF assms(2)] by (simp add: valid_ids_def)
  have named: "setLayer (current_of T a l) st = Some
     (if l = LayerGlobalOperatorPolicy then st\<lparr>ps_globalOperatorPolicy := current_of T a l\<rparr>
      else if l = LayerAgentIdentity then st\<lparr>ps_agentIdentity := current_of T a l\<rparr>
      else if l = LayerToolSafetyRules then st\<lparr>ps_toolSafetyRules := current_of T a l\<rparr>
      else if l = LayerDelegationPolicy then st\<lparr>ps_delegationPolicy := current_of T a l\<rparr>
      else st\<lparr>ps_sessionOverlay := current_of T a l\<rparr>)" if "l \<in> set layerOrder" for l st
    using that setLayer_last [OF holdsD(1) [OF assms(1) v]]
    by (intro set_named) (auto simp: current_of_def empty_layer_def)
  have names: "distinct [LayerGlobalOperatorPolicy, LayerAgentIdentity, LayerToolSafetyRules,
     LayerDelegationPolicy, LayerSessionOverlay]"
    by (simp add: layer_names)
  note names = names [simplified] names [THEN distinct_rev [THEN iffD2], simplified]
  have put:
    "ps_globalOperatorPolicy st = empty_layer LayerGlobalOperatorPolicy \<Longrightarrow>
       (if T a LayerGlobalOperatorPolicy = [] then st else the (setLayer (current_of T a LayerGlobalOperatorPolicy) st))
       = st\<lparr>ps_globalOperatorPolicy := current_of T a LayerGlobalOperatorPolicy\<rparr>"
    "ps_agentIdentity st = empty_layer LayerAgentIdentity \<Longrightarrow>
       (if T a LayerAgentIdentity = [] then st else the (setLayer (current_of T a LayerAgentIdentity) st))
       = st\<lparr>ps_agentIdentity := current_of T a LayerAgentIdentity\<rparr>"
    "ps_toolSafetyRules st = empty_layer LayerToolSafetyRules \<Longrightarrow>
       (if T a LayerToolSafetyRules = [] then st else the (setLayer (current_of T a LayerToolSafetyRules) st))
       = st\<lparr>ps_toolSafetyRules := current_of T a LayerToolSafetyRules\<rparr>"
    "ps_delegationPolicy st = empty_layer LayerDelegationPolicy \<Longrightarrow>
       (if T a LayerDelegationPolicy = [] then st else the (setLayer (current_of T a LayerDelegationPolicy) st))
       = st\<lparr>ps_delegationPolicy := current_of T a LayerDelegationPolicy\<rparr>"
    "ps_sessionOverlay st = empty_layer LayerSessionOverlay \<Longrightarrow>
       (if T a LayerSessionOverlay = [] then st else the (setLayer (current_of T a LayerSessionOverlay) st))
       = st\<lparr>ps_sessionOverlay := current_of T a LayerSessionOverlay\<rparr>" for st
    by (cases st; simp add: named layerOrder_def names;
        simp add: current_of_def)+
  have ids: "valid_ids a LayerGlobalOperatorPolicy" "valid_ids a LayerAgentIdentity"
    "valid_ids a LayerToolSafetyRules" "valid_ids a LayerDelegationPolicy" "valid_ids a LayerSessionOverlay"
    using v by (simp_all add: layerOrder_def)
  show ?thesis
    unfolding getCurrent_def assms(2) sum.case layerOrder_def current_step [OF assms(1) ids(1)]
      current_step [OF assms(1) ids(2)] current_step [OF assms(1) ids(3)] current_step [OF assms(1) ids(4)]
      current_step [OF assms(1) ids(5)]
    by (simp add: put newPromptStack_def stack_of_def del: current_layers.simps(2) split del: if_split)
qed

section \<open>Writes\<close>

locale layer_files =
  fixes dk :: "'w layer_disk"
  assumes written: "ld_write dk p h w = (True, w') \<Longrightarrow> ld_read dk p w' = HistoryFile h"
    and failed: "ld_write dk p h w = (False, w') \<Longrightarrow> ld_read dk q w' = ld_read dk q w"
    and others: "ld_write dk p h w = (b, w') \<Longrightarrow> q \<noteq> p \<Longrightarrow> ld_read dk q w' = ld_read dk q w"
begin

lemma append_table:
  assumes h: "holds dk s w T" and ids: "valid_ids a l" and cp: "vs_controlPlaneDir s \<noteq> []"
  obtains b w' where
    "append_version dk s a l (history_of l (T a l)) content now w = (fst (table_put b a l content now T), w')"
    "holds dk s w' (snd (table_put b a l content now T))"
proof -
  let ?e = "\<lparr>pl_layerID = l, pl_content = content, pl_updatedAt = now, pl_version = int (length (T a l)) + 1\<rparr>"
  let ?hs = "T a l @ [?e]"
  have num: "numbered l ?hs" using numbered_snoc [OF holdsD(1) [OF h ids]] by simp
  have l: "l \<noteq> []" using ids layer_nonempty by (simp add: valid_ids_def)
  have norm: "normalizeStoredLayerHistory \<lparr>lh_current = ?e, lh_history = ?hs\<rparr> l = history_of l ?hs"
    by (rule normalize_numbered [OF num l]) simp
  obtain b w' where wr: "ld_write dk (layerPath s a l) (history_of l ?hs) w = (b, w')" by (rule prod.exhaust)
  have out: "append_version dk s a l (history_of l (T a l)) content now w = (fst (table_put b a l content now T), w')"
    using wr next_version [OF holdsD(1) [OF h ids]]
    by (cases b) (simp_all add: append_version_def writeLayerHistoryLocked_def norm history_of_def [of l "T a l"]
        table_put_def put_version_def Let_def)
  have "holds dk s w' (snd (table_put b a l content now T))"
  proof (cases b)
    case True
    show ?thesis
      unfolding holds_def
    proof (intro allI impI)
      fix a' l'
      assume ids': "valid_ids a' l'"
      show "numbered l' (snd (table_put b a l content now T) a' l') \<and>
        readLayerHistoryLocked dk s a' l' w' = Inr (history_of l' (snd (table_put b a l content now T) a' l'))"
      proof (cases "a' = a \<and> l' = l")
        case same: True
        then have "ld_read dk (layerPath s a' l') w' = HistoryFile (history_of l ?hs)"
          using written wr True by simp
        moreover have "normalizeStoredLayerHistory (history_of l ?hs) l = history_of l ?hs"
          using normalize_numbered [OF num l, of "?e"] by (simp add: history_of_def)
        ultimately show ?thesis using same True num
          by (simp add: readLayerHistoryLocked_def table_put_def put_version_def Let_def)
      next
        case False
        then have "layerPath s a' l' \<noteq> layerPath s a l" using layerPath_inj [OF cp ids' ids] by blast
        then have "ld_read dk (layerPath s a' l') w' = ld_read dk (layerPath s a' l') w" using others [OF wr] by blast
        moreover have "snd (table_put b a l content now T) a' l' = T a' l'"
          using False True by (auto simp: table_put_def put_version_def Let_def)
        ultimately show ?thesis using holdsD [OF h ids'] by (simp add: readLayerHistoryLocked_def)
      qed
    qed
  next
    case False
    then have "ld_read dk q w' = ld_read dk q w" for q using failed wr by simp
    with False h show ?thesis by (simp add: holds_def readLayerHistoryLocked_def table_put_def)
  qed
  with out show thesis by (rule that)
qed

lemma op_table:
  assumes h: "holds dk s w T" and cp: "vs_controlPlaneDir s \<noteq> []"
  obtains b w' where "store_op dk s op w = (fst (table_op b op T), w')" "holds dk s w' (snd (table_op b op T))"
proof (cases op)
  case (PUpdate agentID layerID content now)
  show ?thesis
  proof (cases "normalizeIDs agentID layerID")
    case (Inl e)
    with h show ?thesis by (intro that [of True w]) (simp_all add: PUpdate store_op_def table_op_def updateLayer_def)
  next
    case (Inr al)
    obtain a l where al: "al = (a, l)" by (rule prod.exhaust)
    then have ids: "valid_ids a l" using normalizeIDs_valid Inr by simp
    obtain b w' where "append_version dk s a l (history_of l (T a l)) content now w = (fst (table_put b a l content now T), w')"
      "holds dk s w' (snd (table_put b a l content now T))" by (rule append_table [OF h ids cp])
    then show ?thesis
      by (intro that [of b w']) (simp_all add: PUpdate store_op_def table_op_def updateLayer_def Inr al holdsD(2) [OF h ids])
  qed
next
  case (PRollback agentID layerID v now)
  show ?thesis
  proof (cases "normalizeIDs agentID layerID")
    case (Inl e)
    with h show ?thesis by (intro that [of True w]) (simp_all add: PRollback store_op_def table_op_def rollback_def)
  next
    case (Inr al)
    obtain a l where al: "al = (a, l)" by (rule prod.exhaust)
    then have ids: "valid_ids a l" using normalizeIDs_valid Inr by simp
    note find = findVersion_numbered [OF holdsD(1) [OF h ids], of v]
    note eqs = PRollback store_op_def table_op_def rollback_def Inr al holdsD(2) [OF h ids] find
    show ?thesis
    proof (cases "version_at (T a l) v")
      case None
      with h show ?thesis by (intro that [of True w]) (simp_all add: eqs history_of_def)
    next
      case (Some t)
      obtain b w' where "append_version dk s a l (history_of l (T a l)) (pl_content t) now w
          = (fst (table_put b a l (pl_content t) now T), w')"
        "holds dk s w' (snd (table_put b a l (pl_content t) now T))" by (rule append_table [OF h ids cp])
      with Some show ?thesis by (intro that [of b w']) (simp_all add: eqs history_of_def)
    qed
  qed
qed

lemma run_table:
  assumes "holds dk s w T" "vs_controlPlaneDir s \<noteq> []"
  obtains bs w' where "length bs = length ops" "store_run dk s ops w = (fst (table_run (zip bs ops) T), w')"
    "holds dk s w' (snd (table_run (zip bs ops) T))"
  using assms(1)
proof (induction ops arbitrary: w T thesis)
  case Nil
  then show ?case by simp
next
  case (Cons op ops)
  obtain b w1 where one: "store_op dk s op w = (fst (table_op b op T), w1)" "holds dk s w1 (snd (table_op b op T))"
    by (rule op_table [OF Cons.prems(2) assms(2)])
  obtain bs w2 where "length bs = length ops"
    "store_run dk s ops w1 = (fst (table_run (zip bs ops) (snd (table_op b op T))), w2)"
    "holds dk s w2 (snd (table_run (zip bs ops) (snd (table_op b op T))))"
    by (rule Cons.IH [OF _ one(2)])
  with one(1) show ?case by (intro Cons.prems(1) [of "b # bs" w2]) (simp_all add: case_prod_unfold)
qed

end

text \<open>Files as a map from paths to documents, on which every write succeeds.\<close>

definition mapped_files :: "((string, layer_history) gmap) layer_disk" where
  "mapped_files =
    \<lparr>ld_read = (\<lambda>p w. case mget w p of None \<Rightarrow> NoFile | Some h \<Rightarrow> HistoryFile h),
     ld_write = (\<lambda>p h w. (True, mput p h w))\<rparr>"

interpretation mapped: layer_files mapped_files
  by unfold_locales (auto simp: mapped_files_def mget_mput)

section \<open>What the store promises\<close>

text \<open>A table only grows at the end of its lists.\<close>

definition grows :: "history_table \<Rightarrow> history_table \<Rightarrow> bool" where
  "grows T T' \<longleftrightarrow> (\<forall>a l. prefix (T a l) (T' a l))"

lemma table_op_grows: "grows T (snd (table_op b op T))"
  by (cases op) (auto simp: table_op_def table_put_def put_version_def Let_def grows_def split: sum.splits option.splits)

lemma table_run_grows: "grows T (snd (table_run ops T))"
proof (induction ops T rule: table_run.induct)
  case (2 b op ops T)
  have "grows T (snd (table_op b op T))" by (rule table_op_grows)
  moreover have "grows (snd (table_op b op T)) (snd (table_run ops (snd (table_op b op T))))"
    using 2 by (metis prod.collapse)
  ultimately show ?case unfolding grows_def by (simp add: case_prod_unfold) (blast intro: prefix_order.trans)
qed (simp add: grows_def)

lemma new_store_dir: "newVersionStore dir inst = Inr s \<Longrightarrow> vs_controlPlaneDir s \<noteq> []"
  by (auto simp: newVersionStore_def Let_def split: if_splits)

definition no_versions :: history_table where
  "no_versions = (\<lambda>a l. [])"

lemma holds_nothing:
  "(\<And>p. ld_read dk p w = NoFile) \<Longrightarrow> holds dk s w no_versions"
  by (simp add: holds_def no_versions_def numbered_def readLayerHistoryLocked_def blank_history_def history_of_def)

text \<open>
  C17: The version store refines a table of version lists. Whatever updates and rollbacks are made on a
  fresh store, their results are those of the same operations on the table, which appends the new
  version to the one list of the agent and layer named (unless the write failed, and then it reports
  that and changes nothing); afterwards ListHistory, GetVersion and GetCurrent read the table. The files
  are only assumed to keep what was written to them.
\<close>

theorem store_refines_table:
  assumes "layer_files dk" "newVersionStore dir inst = Inr s" "\<And>p. ld_read dk p w = NoFile"
  shows "\<exists>bs T. fst (store_run dk s ops w) = fst (table_run (zip bs ops) no_versions) \<and>
    T = snd (table_run (zip bs ops) no_versions) \<and> length bs = length ops \<and>
    (\<forall>agentID layerID v.
       listHistory dk s agentID layerID (snd (store_run dk s ops w)) =
         (case normalizeIDs agentID layerID of Inl e \<Rightarrow> Inl e | Inr (a, l) \<Rightarrow> Inr (T a l)) \<and>
       getVersion dk s agentID layerID v (snd (store_run dk s ops w)) =
         (case normalizeIDs agentID layerID of
            Inl e \<Rightarrow> Inl e
          | Inr (a, l) \<Rightarrow>
            (case version_at (T a l) v of None \<Rightarrow> Inl (ErrVersionNotFound l v) | Some e \<Rightarrow> Inr e)) \<and>
       getCurrent dk s agentID (snd (store_run dk s ops w)) =
         (case normalizeAgentID agentID of Inl e \<Rightarrow> Inl e | Inr a \<Rightarrow> Inr (stack_of T a)))"
proof -
  obtain bs w' where r: "length bs = length ops"
    "store_run dk s ops w = (fst (table_run (zip bs ops) no_versions), w')"
    "holds dk s w' (snd (table_run (zip bs ops) no_versions))"
    using layer_files.run_table [OF assms(1) holds_nothing [OF assms(3)] new_store_dir [OF assms(2)]] by blast
  have cur: "getCurrent dk s agentID w' = (case normalizeAgentID agentID of Inl e \<Rightarrow> Inl e
      | Inr a \<Rightarrow> Inr (stack_of (snd (table_run (zip bs ops) no_versions)) a))" for agentID
    using holds_getCurrent [OF r(3), of agentID] by (auto simp: getCurrent_def split: sum.splits)
  show ?thesis
    by (rule exI [of _ bs], rule exI [of _ "snd (table_run (zip bs ops) no_versions)"])
      (simp add: r(1,2) holds_listHistory [OF r(3)] holds_getVersion [OF r(3)] cur)
qed

text \<open>
  C31: Versions are never lost. After any updates and rollbacks the history of a layer lists the versions
  1, 2, 3 and so on, and whatever operations follow, the history they leave begins with the same
  entries.
\<close>

theorem versions_kept:
  assumes "layer_files dk" "newVersionStore dir inst = Inr s" "\<And>p. ld_read dk p w = NoFile"
    "normalizeIDs agentID layerID = Inr (a, l)"
  shows "\<exists>hs hs'. listHistory dk s agentID layerID (snd (store_run dk s ops w)) = Inr hs \<and>
    map pl_version hs = [1..int (length hs)] \<and>
    listHistory dk s agentID layerID (snd (store_run dk s later (snd (store_run dk s ops w)))) = Inr (hs @ hs')"
proof -
  note cp = new_store_dir [OF assms(2)] and run = layer_files.run_table [OF assms(1)]
  obtain T w' where T: "holds dk s w' T" "snd (store_run dk s ops w) = w'"
    using run [OF holds_nothing [OF assms(3)] cp, of ops] by (metis snd_conv)
  obtain bs w'' where T': "holds dk s w'' (snd (table_run (zip bs later) T))" "snd (store_run dk s later w') = w''"
    using run [OF T(1) cp, of later] by (metis snd_conv)
  have "prefix (T a l) (snd (table_run (zip bs later) T) a l)"
    using table_run_grows by (simp add: grows_def)
  then obtain hs' where "snd (table_run (zip bs later) T) a l = T a l @ hs'" by (auto simp: prefix_def)
  moreover have "map pl_version (T a l) = [1..int (length (T a l))]"
    using holdsD(1) [OF T(1) normalizeIDs_valid [OF assms(4)]] by (simp add: numbered_def)
  ultimately show ?thesis
    by (intro exI [of _ "T a l"] exI [of _ hs'])
      (simp add: T(2) T'(2) holds_listHistory [OF T(1)] holds_listHistory [OF T'(1)] assms(4))
qed

text \<open>Both at an agent whose layer is updated twice and rolled back.\<close>

definition sample_store :: version_store where
  "sample_store = \<lparr>vs_controlPlaneDir = ''/c'', vs_instanceID = []\<rparr>"

definition sample_ops :: "prompt_op list" where
  "sample_ops = [PUpdate ''a'' LayerAgentIdentity ''one'' 1, PUpdate ''a'' LayerAgentIdentity ''two'' 2,
     PRollback ''a'' LayerAgentIdentity 1 3]"

lemma sample_fresh: "newVersionStore ''/c'' [] = Inr sample_store" "ld_read mapped_files p mempty = NoFile"
  "normalizeIDs ''a'' LayerAgentIdentity = Inr (''a'', LayerAgentIdentity)"
  by (code_simp, simp add: mapped_files_def, code_simp)

theorem store_refines_table_witness:
  "\<exists>bs T. fst (store_run mapped_files sample_store sample_ops mempty) = fst (table_run (zip bs sample_ops) no_versions) \<and>
    T = snd (table_run (zip bs sample_ops) no_versions) \<and> length bs = length sample_ops"
  using store_refines_table [OF mapped.layer_files_axioms sample_fresh(1,2), of sample_ops] by blast

theorem versions_kept_witness:
  "\<exists>hs hs'. listHistory mapped_files sample_store ''a'' LayerAgentIdentity
       (snd (store_run mapped_files sample_store sample_ops mempty)) = Inr hs \<and>
    map pl_version hs = [1..int (length hs)] \<and>
    listHistory mapped_files sample_store ''a'' LayerAgentIdentity
      (snd (store_run mapped_files sample_store sample_ops (snd (store_run mapped_files sample_store sample_ops mempty))))
      = Inr (hs @ hs')"
  by (rule versions_kept [OF mapped.layer_files_axioms sample_fresh(1,2,3)])

end
