(* ===== verification/Redact.thy ===== *)
theory Redact
  imports Go_Regexp Go_Json
begin

text \<open>
  Redaction of internal/policy/redact.go: \<open>RedactString\<close> replaces what the four rules match, one
  rule after the other, and \<open>RedactValue\<close> redacts the strings of a decoded JSON value. What is shown:
  no run of 24 or more letters, digits and underscores is left in a redacted text.
\<close>

definition redactionRules :: "regex list" where
  "redactionRules =
    [re (''(?i)(api[_-]?key|token|secret|password)%s*[:=]%s*['' @ [CHR 0x27, CHR ''%'', CHR 0x22] @
         '']?[^%s'' @ [CHR 0x27, CHR ''%'', CHR 0x22] @ '']+''),
     re ''(?i)bearer%s+[a-z0-9%-%._~%+/]+=*'',
     re ''%b[A-Z][A-Z0-9_]*(TOKEN|KEY|SECRET|PASSWORD)%b%s*=%s*[^%s]+'',
     re ''%b[a-zA-Z0-9_%-]{24,}%b'']"

definition RedactString :: "string \<Rightarrow> string" where
  "RedactString input = fold (\<lambda>r out. replace_rx r ''[REDACTED]'' out) redactionRules input"

fun RedactValue :: "json \<Rightarrow> json" where
  "RedactValue (JStr s) = JStr (RedactString s)"
| "RedactValue (JObj m) = JObj (map (\<lambda>(k, v). (k, RedactValue v)) m)"
| "RedactValue (JArr vs) = JArr (map RedactValue vs)"
| "RedactValue v = v"

lemma redact_examples:
  "RedactString ''A_KEY=x'' = ''[REDACTED]''"
  by code_simp

section \<open>No long runs are left\<close>

text \<open>The pieces of a text between bytes that are not letters, digits or underscores.\<close>

definition word_byte :: "char \<Rightarrow> bool" where
  "word_byte c = is_word (Some c)"

lemma is_word_next: "is_word (next_char s) \<longleftrightarrow> s \<noteq> [] \<and> word_byte (hd s)"
  by (cases s) (simp_all add: next_char_def word_byte_def is_word_def)

lemma length_dropWhile_Cons: "dropWhile P s = c # r \<Longrightarrow> length r < length s"
  using length_dropWhile_le [of P s] by simp

function word_runs :: "string \<Rightarrow> string list" where
  "word_runs s =
    takeWhile word_byte s # (case dropWhile word_byte s of [] \<Rightarrow> [] | _ # r \<Rightarrow> word_runs r)"
  by pat_completeness auto
termination
  by (relation "measure length") (auto dest: length_dropWhile_Cons)

declare word_runs.simps [simp del]

text \<open>The strings in a value, map keys not counted, and the value without them.\<close>

fun json_strings :: "json \<Rightarrow> string list" where
  "json_strings (JStr s) = [s]"
| "json_strings (JObj m) = concat (map (\<lambda>(k, v). json_strings v) m)"
| "json_strings (JArr vs) = concat (map json_strings vs)"
| "json_strings v = []"

fun json_frame :: "json \<Rightarrow> json" where
  "json_frame (JStr s) = JStr []"
| "json_frame (JObj m) = JObj (map (\<lambda>(k, v). (k, json_frame v)) m)"
| "json_frame (JArr vs) = JArr (map json_frame vs)"
| "json_frame v = v"

lemma word_runs_append:
  "\<not> word_byte c \<Longrightarrow> word_runs (a @ c # b) = word_runs a @ word_runs b"
proof (induction a rule: word_runs.induct)
  case (1 a)
  show ?case
  proof (cases "dropWhile word_byte a")
    case Nil
    then have all: "\<forall>x\<in>set a. word_byte x" and tw: "takeWhile word_byte a = a"
      using takeWhile_dropWhile_id [of word_byte a] by (simp_all add: dropWhile_eq_Nil_conv)
    from all show ?thesis using 1(2)
      by (simp add: word_runs.simps [of a] word_runs.simps [of "a @ c # b"] dropWhile_append takeWhile_append Nil tw)
  next
    case (Cons d r)
    then have "\<not> (\<forall>x\<in>set a. word_byte x)" by (metis dropWhile_eq_Nil_conv list.distinct(1))
    with Cons have "takeWhile word_byte (a @ c # b) = takeWhile word_byte a"
      "dropWhile word_byte (a @ c # b) = d # r @ c # b"
      using 1(2) by (auto simp: dropWhile_append takeWhile_append dropWhile_eq_Nil_conv)
    then show ?thesis using 1 Cons by (simp add: word_runs.simps [of a] word_runs.simps [of "a @ c # b"])
  qed
qed

text \<open>A run stands between bytes that are not word bytes, or at an end of the text.\<close>

lemma word_runs_split:
  "w \<in> set (word_runs s) \<Longrightarrow>
   \<exists>a b. s = a @ w @ b \<and> (a = [] \<or> \<not> word_byte (last a)) \<and> list_all word_byte w \<and>
     \<not> is_word (next_char b)"
proof (induction s rule: word_runs.induct)
  case (1 s)
  have tw: "s = takeWhile word_byte s @ dropWhile word_byte s" by simp
  have all: "list_all word_byte (takeWhile word_byte s)"
    by (auto simp: list_all_iff dest: set_takeWhileD)
  have nx: "\<not> is_word (next_char (dropWhile word_byte s))"
    using hd_dropWhile [of word_byte s] by (auto simp: is_word_next)
  show ?case
  proof (cases "w = takeWhile word_byte s")
    case True
    with tw all nx show ?thesis by (intro exI [of _ "[]"] exI [of _ "dropWhile word_byte s"]) simp
  next
    case False
    with 1(2) obtain d r where d: "dropWhile word_byte s = d # r" "w \<in> set (word_runs r)"
      by (cases "dropWhile word_byte s") (auto simp: word_runs.simps [of s])
    from 1(1) [OF d] obtain a b where "r = a @ w @ b" "a = [] \<or> \<not> word_byte (last a)"
      "list_all word_byte w" "\<not> is_word (next_char b)" by blast
    moreover have "\<not> word_byte d" using nx d(1) by (simp add: is_word_next)
    ultimately show ?thesis using tw d(1)
      by (intro exI [of _ "takeWhile word_byte s @ d # a"] exI [of _ b]) auto
  qed
qed

text \<open>The last rule and what it matches.\<close>

definition token_set :: regex where
  "token_set = RSet False [(97, 122), (65, 90), (48, 57), (95, 95), (45, 45)]"

lemma token_rule:
  "redactionRules ! 3 = RSeq RWordB (RSeq (r_times 24 token_set (RStar True token_set)) (RSeq RWordB REps))"
  by code_simp

lemma token_set_word: "word_byte c \<Longrightarrow> in_set False [(97, 122), (65, 90), (48, 57), (95, 95), (45, 45)] c"
  by (auto simp: word_byte_def is_word_def in_set_def word_ranges_def)

definition moved :: "string \<Rightarrow> string \<Rightarrow> rx_state \<Rightarrow> rx_state" where
  "moved w b s = s\<lparr>rs_prev := last_opt (rs_prev s) w, rs_rest := b\<rparr>"

lemma moved_simps [simp]:
  "moved [] (rs_rest s) s = s" "rs_rest (moved w b s) = b"
  by (simp_all add: moved_def last_opt_def)

lemma moved_moved: "moved w b (moved v c s) = moved (v @ w) b s"
  by (simp add: moved_def last_opt_def)

lemma token_step:
  "rs_rest s = c # b \<Longrightarrow> word_byte c \<Longrightarrow> rx token_set s = [moved [c] b s]"
  by (simp add: token_set_def token_set_word moved_def last_opt_def)

lemma token_star:
  "rs_rest s = w @ b \<Longrightarrow> list_all word_byte w \<Longrightarrow> moved w b s \<in> set (rx (RStar True token_set) s)"
proof (induction w arbitrary: s)
  case Nil
  then show ?case using star_of_self [of s True "rx token_set"] moved_simps(1) [of s] by simp
next
  case (Cons c w)
  have "moved [c] (w @ b) s \<in> set (rx token_set s)"
    using Cons.prems by (simp add: token_step [of s c "w @ b"])
  moreover have "moved w b (moved [c] (w @ b) s) \<in> set (star_of True (rx token_set) (moved [c] (w @ b) s))"
    using Cons.IH [of "moved [c] (w @ b) s"] Cons.prems by simp
  ultimately show ?case
    using star_of_step [of "moved [c] (w @ b) s" "rx token_set" s] Cons.prems by (simp add: moved_moved)
qed

lemma token_times:
  "rs_rest s = w @ b \<Longrightarrow> list_all word_byte w \<Longrightarrow> n \<le> length w \<Longrightarrow>
   moved w b s \<in> set (rx (r_times n token_set (RStar True token_set)) s)"
proof (induction n arbitrary: s w)
  case 0
  then show ?case using token_star by simp
next
  case (Suc n)
  then obtain c v where w: "w = c # v" by (cases w) auto
  have "rx token_set s = [moved [c] (v @ b) s]" using Suc.prems by (simp add: token_step w)
  moreover have "moved v b (moved [c] (v @ b) s)
      \<in> set (rx (r_times n token_set (RStar True token_set)) (moved [c] (v @ b) s))"
    using Suc.IH [of "moved [c] (v @ b) s" v] Suc.prems by (simp add: w)
  ultimately show ?case by (simp add: w moved_moved)
qed

lemma rx_seq_mem: "u \<in> set (rx a s) \<Longrightarrow> t \<in> set (rx b u) \<Longrightarrow> t \<in> set (rx (RSeq a b) s)"
  by auto

text \<open>A run of 24 word bytes or more between other bytes is matched.\<close>

abbreviation token_rx :: regex where
  "token_rx \<equiv> redactionRules ! 3"

lemma token_matches:
  assumes w: "list_all word_byte w" "24 \<le> length w" and p: "\<not> is_word p" and b: "\<not> is_word (next_char b)"
  shows "rx_at token_rx p (w @ b) \<noteq> None"
proof -
  let ?s = "\<lparr>rs_prev = p, rs_rest = w @ b, rs_caps = []\<rparr>"
  have "w \<noteq> []" using w(2) by auto
  then have hd: "w \<noteq> []" "word_byte (hd w)" "word_byte (last w)" using w(1) by (auto simp: list_all_iff)
  then have fst: "rx RWordB ?s = [?s]" using p by (simp add: when_at_def is_word_next)
  have "moved w b ?s \<in> set (rx (r_times 24 token_set (RStar True token_set)) ?s)"
    using w by (intro token_times) simp_all
  moreover have "rx (RSeq RWordB REps) (moved w b ?s) = [moved w b ?s]"
    using hd b by (simp add: when_at_def moved_def last_opt_def word_byte_def [symmetric])
  ultimately have "moved w b ?s \<in> set (rx (RSeq (r_times 24 token_set (RStar True token_set)) (RSeq RWordB REps)) ?s)"
    by (intro rx_seq_mem [of "moved w b ?s" _ ?s]) simp_all
  then have "moved w b ?s \<in> set (rx token_rx ?s)" unfolding token_rule using fst
    by (intro rx_seq_mem [of ?s RWordB ?s]) simp_all
  then show ?thesis unfolding rx_at_None by (metis empty_iff empty_set)
qed

text \<open>A match starts and ends at the boundary of a word and is not empty.\<close>

lemma token_match_ends:
  assumes "rx_at token_rx p s = Some m"
  shows "is_word p \<noteq> is_word (next_char s)" "rf_match m \<noteq> []"
    "is_word (last_opt p (rf_match m)) \<noteq> is_word (next_char (rf_rest m))"
proof -
  let ?s = "\<lparr>rs_prev = p, rs_rest = s, rs_caps = []\<rparr>"
  from assms obtain t where t: "t \<in> set (rx token_rx ?s)" "s = rf_match m @ rf_rest m"
    "rf_rest m = rs_rest t" "rs_prev t = last_opt p (rf_match m)" by (rule rx_at_Some)
  from t(1) show "is_word p \<noteq> is_word (next_char s)"
    unfolding token_rule
    by (auto simp: when_at_def simp del: r_times.simps split: if_splits)
  from t(1) have "t \<in> set (rx (RSeq (r_times 24 token_set (RStar True token_set)) (RSeq RWordB REps)) ?s)"
    unfolding token_rule
    by (auto simp: when_at_def simp del: r_times.simps split: if_splits)
  then obtain u where u: "u \<in> set (rx (r_times 24 token_set (RStar True token_set)) ?s)"
    "t = u" "is_word (rs_prev t) \<noteq> is_word (next_char (rs_rest t))"
    by (auto simp: when_at_def simp del: r_times.simps split: if_splits)
  with t show "is_word (last_opt p (rf_match m)) \<noteq> is_word (next_char (rf_rest m))" by simp
  have "24 = Suc 23" by simp
  then have "r_times 24 token_set (RStar True token_set)
      = RSeq token_set (r_times 23 token_set (RStar True token_set))" by (simp only: r_times.simps)
  with u(1,2) obtain v where v: "v \<in> set (rx token_set ?s)"
    "t \<in> set (rx (r_times 23 token_set (RStar True token_set)) v)"
    by (auto simp del: r_times.simps)
  from v(1) have "length (rs_rest v) < length s" by (auto simp: token_set_def split: list.splits if_splits)
  moreover from rx_moves [OF v(2)] have "length (rs_rest t) \<le> length (rs_rest v)" by (auto simp: moves_def)
  ultimately show "rf_match m \<noteq> []" using t(2,3) by auto
qed

text \<open>What the last rule leaves has no long run: neither between its matches nor after them.\<close>

abbreviation short_runs :: "string \<Rightarrow> bool" where
  "short_runs s \<equiv> list_all (\<lambda>w. length w < 24) (word_runs s)"

lemma short_if_unmatched:
  assumes "\<And>a b. s = a @ b \<Longrightarrow> b \<noteq> [] \<Longrightarrow> rx_at token_rx (last_opt p a) (b @ r) = None"
    and p: "is_word p \<Longrightarrow> \<not> is_word (next_char (s @ r))"
    and r: "s \<noteq> [] \<Longrightarrow> word_byte (last s) \<Longrightarrow> \<not> is_word (next_char r)"
  shows "short_runs s"
  unfolding list_all_iff
proof
  fix w
  assume "w \<in> set (word_runs s)"
  from word_runs_split [OF this] obtain a b where s: "s = a @ w @ b" "a = [] \<or> \<not> word_byte (last a)"
    "list_all word_byte w" "\<not> is_word (next_char b)" by blast
  show "length w < 24"
  proof (rule ccontr)
    assume "\<not> length w < 24"
    then have len: "24 \<le> length w" and w: "w \<noteq> []" by auto
    then have ends: "word_byte (hd w)" "word_byte (last w)" using s(3) by (auto simp: list_all_iff)
    have "\<not> is_word (last_opt p a)"
      using s(1,2) p ends(1) w by (auto simp: last_opt_def is_word_next word_byte_def [symmetric])
    moreover have "\<not> is_word (next_char (b @ r))"
      using s(1,4) r ends(2) w by (cases "b = []") (auto simp: is_word_next)
    ultimately have "rx_at token_rx (last_opt p a) (w @ b @ r) \<noteq> None"
      by (rule token_matches [OF s(3) len])
    with assms(1) [of a "w @ b"] s(1) w show False by simp
  qed
qed

lemma word_runs_mark: "word_runs (a @ ''[REDACTED]'' @ b) = word_runs a @ [''REDACTED''] @ word_runs b"
proof -
  have "word_runs (''REDACTED'' @ CHR '']'' # b) = [''REDACTED''] @ word_runs b"
    by (subst word_runs_append) (simp_all add: word_byte_def is_word_def in_set_def word_ranges_def word_runs.simps)
  moreover have "word_runs (a @ CHR ''['' # ''REDACTED'' @ CHR '']'' # b)
      = word_runs a @ word_runs (''REDACTED'' @ CHR '']'' # b)"
    by (rule word_runs_append) (simp add: word_byte_def is_word_def in_set_def word_ranges_def)
  ultimately show ?thesis by simp
qed

lemma replace_token_short:
  "(is_word p \<Longrightarrow> \<not> is_word (next_char s)) \<Longrightarrow>
   short_runs (replace_from token_rx (\<lambda>_. ''[REDACTED]'') p s)"
proof (induction "length s" arbitrary: p s rule: less_induct)
  case less
  show ?case
  proof (cases "rx_find token_rx p s")
    case None
    then have "short_runs s" using less.prems rx_find_None [of token_rx p]
      by (intro short_if_unmatched [of s p "[]"]) (auto simp: next_char_def is_word_def)
    then show ?thesis by (simp add: replace_from_rec [of token_rx _ p s] None)
  next
    case (Some m)
    from rx_find_Some [OF Some] have m: "s = rf_before m @ rf_match m @ rf_rest m"
      "rx_at token_rx (last_opt p (rf_before m)) (rf_match m @ rf_rest m) = Some (m\<lparr>rf_before := []\<rparr>)"
      "\<And>a b. rf_before m = a @ b \<Longrightarrow> b \<noteq> [] \<Longrightarrow> rx_at token_rx (last_opt p a) (b @ rf_match m @ rf_rest m) = None"
      by blast+
    note ends = token_match_ends [OF m(2), simplified]
    have before: "short_runs (rf_before m)"
      by (rule short_if_unmatched [OF m(3)])
        (use ends(1) less.prems m(1) in \<open>auto simp: last_opt_def word_byte_def\<close>)
    have lt: "length (rf_rest m) < length s" using ends(2) m(1) by (metis add_cancel_left_left add_less_same_cancel2 append_assoc length_append length_greater_0_conv less_add_same_cancel2 not_add_less2 trans_less_add2)
    have "short_runs (replace_from token_rx (\<lambda>_. ''[REDACTED]'') (last_opt p (rf_before m @ rf_match m)) (rf_rest m))"
      using ends(2,3) by (intro less.hyps [OF lt]) (auto simp: last_opt_def)
    then show ?thesis using before lt unfolding replace_from_rec [of token_rx _ p s]
      by (simp add: Some word_runs_mark del: append.simps)
  qed
qed

theorem short_RedactString: "short_runs (RedactString s)"
proof -
  obtain a b c where "redactionRules = [a, b, c, token_rx]"
    by (simp add: redactionRules_def)
  then have "RedactString s = replace_rx token_rx ''[REDACTED]'' (replace_rx c ''[REDACTED]''
      (replace_rx b ''[REDACTED]'' (replace_rx a ''[REDACTED]'' s)))"
    unfolding RedactString_def by (simp add: redactionRules_def)
  then show ?thesis
    unfolding replace_rx_def replace_func_def
    by (metis is_word_def option.simps(4) replace_token_short)
qed

text \<open>
  C28: Redacting a value (RedactValue) changes nothing but its strings, and in each of them no run of
  24 or more letters, digits and underscores is left: keys and tokens of that kind never pass,
  whatever stands around them. (Keys of maps are not redacted.)
\<close>

theorem no_long_token_left:
  "list_all (\<lambda>s. list_all (\<lambda>w. length w < 24) (word_runs s)) (json_strings (RedactValue v)) \<and>
   json_frame (RedactValue v) = json_frame v"
proof (induction v rule: RedactValue.induct)
  case (1 s)
  then show ?case using short_RedactString [of s] by simp
next
  case (2 m)
  then show ?case by (auto simp: list_all_iff split: prod.splits)
next
  case (3 vs)
  then show ?case by (auto simp: list_all_iff)
qed simp_all

end
