(* ===== verification/Roles_Facts.thy ===== *)
theory Roles_Facts
  imports Roles "HOL-Library.Multiset"
begin

text \<open>
  Properties of the roles: normalisation is idempotent, the built-in templates are valid, the store
  keeps its invariant under every operation, and the router's answers are usable.
\<close>

section \<open>Normalisation\<close>

lemma normalizeRoleName_idem [simp]: "normalizeRoleName (normalizeRoleName n) = normalizeRoleName n"
  by (simp add: normalizeRoleName_def trim_space_to_lower)

lemma normalizeRoleName_Nil [simp]: "normalizeRoleName [] = []"
  by (simp add: normalizeRoleName_def)

lemma trim_normalized [simp]: "trim_space (normalizeRoleName n) = normalizeRoleName n"
  by (simp add: normalizeRoleName_def trim_space_to_lower)

lemma normalize_from_props:
  "distinct (normalize_from seen vs)" "set (normalize_from seen vs) \<inter> set seen = {}"
  "v \<in> set (normalize_from seen vs) \<Longrightarrow> trim_space v = v \<and> v \<noteq> []"
  by (induction seen vs rule: normalize_from.induct) (auto simp: Let_def split: if_splits)

lemma normalize_from_id:
  "distinct vs \<Longrightarrow> set vs \<inter> set seen = {} \<Longrightarrow> \<forall>v \<in> set vs. trim_space v = v \<and> v \<noteq> [] \<Longrightarrow>
   normalize_from seen vs = vs"
  by (induction seen vs rule: normalize_from.induct) (auto simp: Let_def)

lemma normalizeStringSlice_id:
  "distinct vs \<Longrightarrow> \<forall>v \<in> set vs. trim_space v = v \<and> v \<noteq> [] \<Longrightarrow> normalizeStringSlice vs = vs"
  by (simp add: normalizeStringSlice_def normalize_from_id)

lemma normalizeStringSlice_idem [simp]: "normalizeStringSlice (normalizeStringSlice vs) = normalizeStringSlice vs"
proof (rule normalizeStringSlice_id)
  show "distinct (normalizeStringSlice vs)" unfolding normalizeStringSlice_def by (rule normalize_from_props(1))
  show "\<forall>v \<in> set (normalizeStringSlice vs). trim_space v = v \<and> v \<noteq> []"
    unfolding normalizeStringSlice_def using normalize_from_props(3) by blast
qed

lemma normalizeTemplate_idem: "normalizeTemplate t b = Inr n \<Longrightarrow> normalizeTemplate n b = Inr n"
  by (auto simp: normalizeTemplate_def Let_def validateRole_def split: if_splits option.splits)

lemma normalizeTemplate_name:
  "normalizeTemplate t b = Inr n \<Longrightarrow>
   rl_name n = normalizeRoleName (rl_name t) \<and> rl_name n \<noteq> [] \<and> rl_isBuiltin n = b"
  by (auto simp: normalizeTemplate_def Let_def validateRole_def split: if_splits option.splits)

text \<open>A text that starts and ends with a visible ASCII character needs no trimming.\<close>

definition visible :: "char \<Rightarrow> bool" where
  "visible c = (let n = of_char c :: nat in 33 \<le> n \<and> n \<le> 126)"

definition visible_ends :: "string \<Rightarrow> bool" where
  "visible_ends s = (s = [] \<or> visible (hd s) \<and> visible (last s))"

lemma lead_seq_visible:
  "visible c \<Longrightarrow> lead_seq space_bytes (c # s) = 0"
  "visible c \<Longrightarrow> lead_seq (map rev space_bytes) (c # s) = 0"
proof -
  assume "visible c"
  then have "find (\<lambda>w. prefix w (c # s)) space_bytes = None" "find (\<lambda>w. prefix w (c # s)) (map rev space_bytes) = None"
    unfolding find_None_iff by (auto simp: space_bytes_def visible_def)
  then show "lead_seq space_bytes (c # s) = 0" "lead_seq (map rev space_bytes) (c # s) = 0"
    by (simp_all add: lead_seq_def)
qed

lemma trim_visible: "visible_ends s \<Longrightarrow> trim_space s = s"
proof (cases s)
  case (Cons c t)
  assume v: "visible_ends s"
  obtain d u where r: "rev s = d # u" using Cons by (cases "rev s") auto
  then have "last s = d" by (metis hd_rev list.sel(1))
  note r = r this
  show ?thesis
    by (rule trim_space_trim_left_space) (use v Cons r lead_seq_visible in \<open>auto simp: visible_ends_def\<close>)
qed simp

definition tidy :: "role_template \<Rightarrow> bool" where
  "tidy t \<longleftrightarrow>
     list_all visible_ends [rl_name t, rl_description t, rl_memoryAccessScope t, rl_promptContract t] \<and>
     list_all (\<lambda>vs. distinct vs \<and> list_all (\<lambda>v. visible_ends v \<and> v \<noteq> []) vs)
       [rl_allowedTools t, rl_deniedTools t, rl_writablePaths t, rl_escalationRules t, rl_delegationPermissions t] \<and>
     to_lower (rl_name t) = rl_name t \<and> rl_name t \<noteq> [] \<and> rl_allowedTools t \<noteq> [] \<and> 0 \<le> rl_timeoutMS t"

lemma normalize_tidy: "tidy t \<Longrightarrow> rl_isBuiltin t = b \<Longrightarrow> normalizeTemplate t b = Inr t"
  by (simp add: tidy_def normalizeTemplate_def normalizeRoleName_def trim_visible normalizeStringSlice_id
      validateRole_def Let_def list_all_iff)

lemma builtIns_tidy: "list_all (\<lambda>t. tidy t \<and> rl_isBuiltin t) builtIns"
  by code_simp

lemma builtIns_valid: "list_all (\<lambda>t. normalizeTemplate t True = Inr t) builtIns"
  using builtIns_tidy by (auto simp: list_all_iff normalize_tidy)

lemma builtInTemplates_eq: "builtInTemplates = builtIns"
proof -
  have "concat (map (\<lambda>t. case normalizeTemplate t True of Inr n \<Rightarrow> [n] | Inl _ \<Rightarrow> []) ts) = ts"
    if "list_all (\<lambda>t. normalizeTemplate t True = Inr t) ts" for ts
    using that by (induction ts) auto
  with builtIns_valid show ?thesis by (simp add: builtInTemplates_def)
qed

lemma builtIns_distinct: "distinct (map rl_name builtIns)"
  by code_simp

section \<open>The store\<close>

definition builtInMap :: "(string, role_template) gmap" where
  "builtInMap = mput_all (map (\<lambda>t. (rl_name t, t)) builtInTemplates) mempty"

lemma mget_builtInMap: "mget builtInMap k = Some t \<longleftrightarrow> t \<in> set builtIns \<and> rl_name t = k"
proof -
  have "map_of (rev (map (\<lambda>t. (rl_name t, t)) builtIns)) k = Some t \<longleftrightarrow>
      (k, t) \<in> set (rev (map (\<lambda>t. (rl_name t, t)) builtIns))"
    by (rule map_of_eq_Some_iff) (simp add: rev_map [symmetric] o_def builtIns_distinct)
  then show ?thesis
    by (auto simp: builtInMap_def builtInTemplates_eq mget_mput_all split: option.splits)
qed

lemma wf_builtInMap [simp]: "wf_gmap builtInMap"
  by (simp add: builtInMap_def)

definition store_ok :: "role_store \<Rightarrow> bool" where
  "store_ok s \<longleftrightarrow> rs_builtIn s = builtInMap \<and> wf_gmap (rs_custom s) \<and>
     (\<forall>k t. mget (rs_custom s) k = Some t \<longrightarrow>
        mget builtInMap k = None \<and> rl_name t = k \<and> normalizeTemplate t False = Inr t)"

inductive store_step :: "role_store \<Rightarrow> role_store \<Rightarrow> bool" where
  created: "createCustom t s = Inr s' \<Longrightarrow> store_step s s'"
| updated: "updateCustom t s = Inr s' \<Longrightarrow> store_step s s'"
| deleted: "deleteRole name s = Inr s' \<Longrightarrow> store_step s s'"

inductive reachable_store :: "role_template list \<Rightarrow> role_store \<Rightarrow> bool" for customs where
  start: "newRoleStore customs = Inr s \<Longrightarrow> reachable_store customs s"
| step: "reachable_store customs s \<Longrightarrow> store_step s s' \<Longrightarrow> reachable_store customs s'"

lemma store_ok_put:
  assumes "store_ok s" "normalizeTemplate t False = Inr n" "\<not> mhas (rs_builtIn s) (rl_name n)"
  shows "store_ok (s\<lparr>rs_custom := mput (rl_name n) n (rs_custom s)\<rparr>)"
  using assms normalizeTemplate_idem [OF assms(2)]
  by (auto simp: store_ok_def gmap_laws mhas_def split: if_splits)

lemma store_ok_create: "createCustom t s = Inr s' \<Longrightarrow> store_ok s \<Longrightarrow> store_ok s'"
  by (auto simp: createCustom_def add_checked_def intro: store_ok_put split: sum.splits if_splits)

lemma store_ok_update: "updateCustom t s = Inr s' \<Longrightarrow> store_ok s \<Longrightarrow> store_ok s'"
  by (auto simp: updateCustom_def intro: store_ok_put split: sum.splits if_splits)

lemma store_ok_delete: "deleteRole name s = Inr s' \<Longrightarrow> store_ok s \<Longrightarrow> store_ok s'"
  by (auto simp: deleteRole_def store_ok_def gmap_laws Let_def split: if_splits)

lemma store_ok_customs: "add_customs ts s = Inr s' \<Longrightarrow> store_ok s \<Longrightarrow> store_ok s'"
  by (induction ts s rule: add_customs.induct) (auto intro: store_ok_create split: sum.splits)

lemma reachable_store_ok: "reachable_store customs s \<Longrightarrow> store_ok s"
proof (induction rule: reachable_store.induct)
  case (start s)
  have "store_ok \<lparr>rs_builtIn = builtInMap, rs_custom = mempty\<rparr>" by (simp add: store_ok_def)
  with start show ?case by (auto simp: newRoleStore_def builtInMap_def intro: store_ok_customs)
next
  case (step s s')
  from step(2,3) show ?case
    by (cases rule: store_step.cases) (auto intro: store_ok_create store_ok_update store_ok_delete)
qed

lemma set_mvals: "wf_gmap m \<Longrightarrow> t \<in> set (mvals m) \<longleftrightarrow> (\<exists>k. mget m k = Some t)"
proof -
  assume wf: "wf_gmap m"
  have "t \<in> set (mvals m) \<longleftrightarrow> (\<exists>k. (k, t) \<in> set m)" by (force simp: mvals_def)
  also have "\<dots> \<longleftrightarrow> (\<exists>k. mget m k = Some t)" using mget_in in_mget [OF wf] by metis
  finally show "t \<in> set (mvals m) \<longleftrightarrow> (\<exists>k. mget m k = Some t)" .
qed

lemma mvals_names:
  assumes "wf_gmap m" "\<And>k t. mget m k = Some t \<Longrightarrow> rl_name t = k"
  shows "map rl_name (mvals m) = mkeys m"
proof -
  have "rl_name v = k" if "(k, v) \<in> set m" for k v using assms that by (blast dest: in_mget)
  then show ?thesis by (auto simp: mvals_def mkeys_def)
qed

lemma listRoles_props:
  assumes ok: "store_ok s"
  shows "set (listRoles s) = set (mvals builtInMap) \<union> set (mvals (rs_custom s))"
    and "sorted (map rl_name (listRoles s))" "distinct (map rl_name (listRoles s))"
proof -
  have b: "rs_builtIn s = builtInMap" and wf: "wf_gmap (rs_custom s)"
    and c: "\<And>k t. mget (rs_custom s) k = Some t \<Longrightarrow> mget builtInMap k = None \<and> rl_name t = k"
    using ok by (auto simp: store_ok_def)
  show "set (listRoles s) = set (mvals builtInMap) \<union> set (mvals (rs_custom s))"
    using b by (simp add: listRoles_def)
  show "sorted (map rl_name (listRoles s))" by (simp add: listRoles_def)
  have "map rl_name (mvals builtInMap) = mkeys builtInMap"
    by (rule mvals_names) (auto simp: mget_builtInMap)
  moreover have "map rl_name (mvals (rs_custom s)) = mkeys (rs_custom s)"
    by (rule mvals_names) (use wf c in auto)
  moreover have "set (mkeys builtInMap) \<inter> set (mkeys (rs_custom s)) = {}"
    using c by (auto simp: set_mkeys)
  ultimately have "distinct (map rl_name (mvals builtInMap @ mvals (rs_custom s)))"
    using wf by (simp only: map_append distinct_append) (simp add: wf_distinct)
  moreover have "mset (map rl_name (listRoles s)) = mset (map rl_name (mvals builtInMap @ mvals (rs_custom s)))"
    using b by (simp add: listRoles_def del: map_append)
  ultimately show "distinct (map rl_name (listRoles s))" by (metis mset_eq_imp_distinct_iff)
qed

lemma listed_name:
  assumes ok: "store_ok s" and t: "mget builtInMap k = Some t \<or> mget (rs_custom s) k = Some t"
  shows "rl_name t = k" "normalizeTemplate t (rl_isBuiltin t) = Inr t" "normalizeRoleName k = k" "k \<noteq> []"
proof -
  have "rl_name t = k \<and> (normalizeTemplate t True = Inr t \<or> normalizeTemplate t False = Inr t)"
    using t
  proof
    assume "mget builtInMap k = Some t"
    then show ?thesis using builtIns_valid by (simp add: mget_builtInMap list_all_iff)
  next
    assume "mget (rs_custom s) k = Some t"
    then show ?thesis using ok by (simp add: store_ok_def)
  qed
  then obtain b where "rl_name t = k" and n: "normalizeTemplate t b = Inr t" by blast
  with normalizeTemplate_name [OF n]
  show "rl_name t = k" "normalizeTemplate t (rl_isBuiltin t) = Inr t" "normalizeRoleName k = k" "k \<noteq> []" by simp_all
qed

lemma getRole_eq:
  assumes ok: "store_ok s"
  shows "getRole name s = Some t \<longleftrightarrow>
    mget builtInMap (normalizeRoleName name) = Some t \<or> mget (rs_custom s) (normalizeRoleName name) = Some t"
proof -
  let ?n = "normalizeRoleName name"
  have b: "rs_builtIn s = builtInMap" using ok by (simp add: store_ok_def)
  have none: "mget builtInMap k = None" if "mget (rs_custom s) k = Some u" for k u using ok that by (simp add: store_ok_def)
  show ?thesis
  proof (cases "?n = []")
    case True
    have "mget builtInMap [] \<noteq> Some t" "mget (rs_custom s) [] \<noteq> Some t" using listed_name(4) [OF ok, of "[]" t] by auto
    with True show ?thesis by (simp add: getRole_def)
  next
    case False
    then show ?thesis using b none [of ?n]
      by (cases "mget builtInMap ?n"; cases "mget (rs_custom s) ?n") (simp_all add: getRole_def Let_def)
  qed
qed

lemma getRole_listed:
  assumes ok: "store_ok s" and t: "t \<in> set (listRoles s)"
  shows "getRole (rl_name t) s = Some t" "normalizeTemplate t (rl_isBuiltin t) = Inr t"
proof -
  have wf: "wf_gmap (rs_custom s)" using ok by (simp add: store_ok_def)
  obtain k where k: "mget builtInMap k = Some t \<or> mget (rs_custom s) k = Some t"
    using t by (auto simp: listRoles_props(1) [OF ok] set_mvals wf)
  note n = listed_name [OF ok k]
  from n k show "getRole (rl_name t) s = Some t" by (simp add: getRole_eq [OF ok])
  from n show "normalizeTemplate t (rl_isBuiltin t) = Inr t" by simp
qed

text \<open>
  C24: In every role store the operations reach, the list of roles is sorted by name without
  duplicates, every listed role is valid and in normal form and is what a lookup of its name gives,
  and every built-in role is still listed unchanged.
\<close>

theorem role_store_invariant:
  assumes "reachable_store customs s"
  shows "sorted (map rl_name (listRoles s)) \<and> distinct (map rl_name (listRoles s)) \<and>
    (\<forall>t \<in> set (listRoles s). normalizeTemplate t (rl_isBuiltin t) = Inr t \<and> getRole (rl_name t) s = Some t) \<and>
    set builtInTemplates \<subseteq> set (listRoles s)"
proof -
  have ok: "store_ok s" using assms by (rule reachable_store_ok)
  have "set (mvals builtInMap) = set builtIns" by (auto simp: set_mvals mget_builtInMap)
  with listRoles_props [OF ok] getRole_listed [OF ok] show ?thesis by (simp add: builtInTemplates_eq)
qed

definition sample_role :: role_template where
  "sample_role = (builtin_role '' Auditor'' [] [''fs.read''] 5 0 [] [] [] [] [])\<lparr>rl_isBuiltin := False\<rparr>"

lemma sample_store: "\<exists>s. newRoleStore [sample_role] = Inr s \<and> mkeys (rs_custom s) = [''auditor'']"
proof -
  have c: "builtInTemplates = builtIns" by (rule builtInTemplates_eq)
  have n: "normalizeTemplate sample_role False = Inr (sample_role\<lparr>rl_name := ''auditor''\<rparr>)" by code_simp
  have "mget builtInMap ''auditor'' = None"
  proof (rule ccontr)
    assume "mget builtInMap ''auditor'' \<noteq> None"
    then have "''auditor'' \<in> rl_name ` set builtIns" by (auto simp: mget_builtInMap intro: rev_image_eqI)
    moreover have "''auditor'' \<notin> set (map rl_name builtIns)" by code_simp
    ultimately show False by simp
  qed
  with n show ?thesis
    by (simp add: newRoleStore_def createCustom_def add_checked_def mhas_def builtInMap_def)
      (simp add: mempty_def mkeys_def)
qed

theorem role_store_invariant_witness:
  "\<exists>s. newRoleStore [sample_role] = Inr s \<and> sorted (map rl_name (listRoles s)) \<and>
     distinct (map rl_name (listRoles s)) \<and> set builtInTemplates \<subseteq> set (listRoles s)"
proof -
  obtain s where s: "newRoleStore [sample_role] = Inr s" using sample_store by blast
  then have "reachable_store [sample_role] s" by (rule reachable_store.start)
  from role_store_invariant [OF this] s show ?thesis by blast
qed

text \<open>
  Creating a role stores its normal form under its normalised name, refusing invalid templates
  and names in use; any later spelling of the name (case, surrounding space) finds it, and no other
  lookup changes.
\<close>

theorem create_role_found:
  assumes "createCustom t s = Inr s'"
  shows "getRole (rl_name t) s = None \<and>
    (\<exists>n. normalizeTemplate t False = Inr n \<and>
      getRole name s' = (if normalizeRoleName name = normalizeRoleName (rl_name t) then Some n else getRole name s))"
proof -
  obtain n where n: "normalizeTemplate t False = Inr n" "\<not> mhas (rs_builtIn s) (rl_name n)"
      "\<not> mhas (rs_custom s) (rl_name n)" "s' = s\<lparr>rs_custom := mput (rl_name n) n (rs_custom s)\<rparr>"
    using assms by (auto simp: createCustom_def add_checked_def split: sum.splits if_splits)
  note name = normalizeTemplate_name [OF n(1)]
  then have "rl_name n = normalizeRoleName (rl_name t)" "normalizeRoleName (rl_name t) \<noteq> []" by metis+
  with n show ?thesis
    by (auto simp: getRole_def Let_def mhas_def gmap_laws split: option.split)
qed

theorem create_role_found_witness:
  "\<exists>s s'. createCustom sample_role s = Inr s' \<and> getRole ''AUDITOR'' s' \<noteq> None"
proof -
  obtain s' where s': "createCustom sample_role \<lparr>rs_builtIn = mempty, rs_custom = mempty\<rparr> = Inr s'"
  proof -
    have "normalizeTemplate sample_role False = Inr (sample_role\<lparr>rl_name := ''auditor''\<rparr>)" by code_simp
    with that show ?thesis by (simp add: createCustom_def add_checked_def mhas_def)
  qed
  moreover have "normalizeRoleName ''AUDITOR'' = normalizeRoleName (rl_name sample_role)" by code_simp
  ultimately show ?thesis using create_role_found [OF s', of "''AUDITOR''"] by auto
qed

section \<open>The router\<close>

lemma newRouter_builtIn: "newRouter [] = builtInMap"
proof -
  have norm: "normalizeRoleName (rl_name t) = rl_name t \<and> rl_name t \<noteq> []" if "t \<in> set builtIns" for t
  proof -
    have "normalizeTemplate t True = Inr t" using builtIns_valid that by (simp add: list_all_iff)
    from normalizeTemplate_name [OF this] show ?thesis by simp
  qed
  have eq: "map (\<lambda>t. (normalizeRoleName (rl_name t), t)) builtIns = map (\<lambda>t. (rl_name t, t)) builtIns"
    using norm by simp
  have filt: "filter (\<lambda>(n, t). n \<noteq> []) (map (\<lambda>t. (rl_name t, t)) builtIns) = map (\<lambda>t. (rl_name t, t)) builtIns"
    using norm by (auto simp: filter_id_conv)
  show ?thesis
    by (simp only: newRouter_def builtInMap_def builtInTemplates_eq Let_def simp_thms if_True eq filt if_cancel)
qed

lemma float_bounds: "fl (5 / 100) \<le> fl (20 / 100)" "fl (20 / 100) \<le> fl (99 / 100)" "fl (5 / 100) \<le> fl (99 / 100)"
  by code_simp+

lemma clamp_bounds: "lo \<le> hi \<Longrightarrow> lo \<le> clamp v lo hi \<and> clamp v lo hi \<le> hi"
  by (simp add: clamp_def)

lemma fallback_template: "sel_template (fallbackSelection builtInMap reason) \<in> set builtIns"
proof -
  have "normalizeRoleName ''implementer'' = ''implementer''" by code_simp
  moreover have "mget builtInMap ''implementer'' \<noteq> None"
  proof -
    have "''implementer'' \<in> set (map rl_name builtIns)" by code_simp
    then obtain t where "t \<in> set builtIns" "rl_name t = ''implementer''" by auto
    then have "mget builtInMap ''implementer'' = Some t" by (simp add: mget_builtInMap)
    then show ?thesis by simp
  qed
  then obtain t where t: "mget builtInMap ''implementer'' = Some t" by blast
  then have "t \<in> set builtIns" by (simp add: mget_builtInMap)
  with t \<open>normalizeRoleName ''implementer'' = ''implementer''\<close> show ?thesis
    by (simp add: fallbackSelection_def templateForRole_def Let_def)
qed

lemma fallback_name: "sel_roleName (fallbackSelection r reason) = rl_name (sel_template (fallbackSelection r reason))"
  by (simp add: fallbackSelection_def Let_def)

lemma fallback_confidence: "sel_confidence (fallbackSelection r reason) = fl (20 / 100)"
  by (simp add: fallbackSelection_def Let_def)

lemma route_cases:
  obtains reason where "route r d = fallbackSelection r reason"
  | sc :: route_score and t why where "templateForRole r (sc_roleName sc) = Some t"
      "route r d = \<lparr>sel_roleName = rl_name t, sel_template = t,
         sel_confidence = clamp (sc_score sc) (fl (5 / 100)) (fl (99 / 100)), sel_rationale = why\<rparr>"
proof (cases "tokenize d = []")
  case True
  show ?thesis by (rule that(1)) (simp only: route_def Let_def True simp_thms if_True)
next
  case False
  let ?ranked = "sort_key rank (filter (\<lambda>sc. sc_hits sc \<noteq> 0) (map (scoreCategory (tokenize d)) routeCategories))"
  show ?thesis
  proof (cases ?ranked)
    case Nil
    show ?thesis by (rule that(1)) (simp only: route_def Let_def False if_False Nil list.case)
  next
    case (Cons sc others)
    let ?close = "case others of [] \<Rightarrow> False
       | second # _ \<Rightarrow> \<bar>fsub (sc_score sc) (sc_score second)\<bar> < fl (8 / 100) \<and> sc_hits sc = sc_hits second"
    show ?thesis
    proof (cases ?close)
      case True
      show ?thesis by (rule that(1)) (simp only: route_def Let_def False if_False Cons list.case True if_True)
    next
      case far: False
      show ?thesis
      proof (cases "templateForRole r (sc_roleName sc)")
        case None
        show ?thesis
          by (rule that(1)) (simp only: route_def Let_def False if_False Cons list.case far None option.case)
      next
        case (Some t)
        show ?thesis
          by (rule that(2) [OF Some]) (simp only: route_def Let_def False if_False Cons list.case far Some option.case)
      qed
    qed
  qed
qed

text \<open>
  Routing any task text always answers with a role: its confidence lies between 0.05 and 0.99
  as float64 numbers, and over the built-in roles the template is a built-in one under its name.
\<close>

theorem route_usable:
  "fl (5 / 100) \<le> sel_confidence (route r d) \<and> sel_confidence (route r d) \<le> fl (99 / 100) \<and>
   sel_template (route (newRouter []) d) \<in> set builtInTemplates \<and>
   sel_roleName (route (newRouter []) d) = rl_name (sel_template (route (newRouter []) d))"
proof -
  have "fl (5 / 100) \<le> sel_confidence (route r d) \<and> sel_confidence (route r d) \<le> fl (99 / 100)"
  proof (rule route_cases [of r d])
    show ?thesis if "route r d = fallbackSelection r reason" for reason
      unfolding that fallback_confidence using float_bounds by blast
    show ?thesis if "route r d = \<lparr>sel_roleName = rl_name t, sel_template = t,
         sel_confidence = clamp (sc_score sc) (fl (5 / 100)) (fl (99 / 100)), sel_rationale = why\<rparr>" for sc :: route_score and t why
      unfolding that route_selection.select_convs using clamp_bounds [OF float_bounds(3)] .
  qed
  moreover have "sel_template (route builtInMap d) \<in> set builtIns \<and>
      sel_roleName (route builtInMap d) = rl_name (sel_template (route builtInMap d))"
  proof (rule route_cases [of builtInMap d])
    show ?thesis if "route builtInMap d = fallbackSelection builtInMap reason" for reason
      unfolding that using fallback_template fallback_name by blast
    show ?thesis if "templateForRole builtInMap (sc_roleName sc) = Some t"
      "route builtInMap d = \<lparr>sel_roleName = rl_name t, sel_template = t,
         sel_confidence = clamp (sc_score sc) (fl (5 / 100)) (fl (99 / 100)), sel_rationale = why\<rparr>" for sc :: route_score and t why
      using that(1) unfolding that(2) by (simp add: templateForRole_def mget_builtInMap)
  qed
  ultimately show ?thesis by (simp add: newRouter_builtIn builtInTemplates_eq)
qed

end
