(* ===== verification/Run_Texts.thy ===== *)
theory Run_Texts
  imports Run_Types Run_Keys
begin

text \<open>
  The texts of a run and the tests on texts that steer it (internal/agent/runner.go and the error
  classifiers of run_state.go): recovery and fallback answers, the prompt directives, the summary
  of the latest tool results, the request for network permissions, and the extra model call that
  turns tool results into an answer. Error tests look at the lower-cased trimmed text, as in the code.
\<close>

section \<open>Classifying errors and answers\<close>

definition contains_one :: "string \<Rightarrow> string list \<Rightarrow> bool" where
  "contains_one s ws = list_ex (contains s) ws"

definition isProviderNoChoicesError :: "go_error \<Rightarrow> bool" where
  "isProviderNoChoicesError e =
     contains_one (to_lower (trim_space (err_text e))) [''no choices'', ''empty choices'']"

definition isTransientProviderModelError :: "go_error \<Rightarrow> bool" where
  "isTransientProviderModelError e =
    (let txt = to_lower (trim_space (err_text e)) in
     \<not> contains_one txt [''context canceled'', ''context cancelled''] \<and>
     contains_one txt [''stream interrupted'', ''context deadline exceeded'', ''client.timeout'',
       ''timeout while reading body'', ''i/o timeout'', ''connection reset'', ''unexpected eof'',
       ''provider returned no choices''])"

definition isContextCanceledModelError :: "bool \<Rightarrow> go_error \<Rightarrow> bool" where
  "isContextCanceledModelError ctxCanceled e =
     (err_canceled e \<or> ctxCanceled \<or>
      contains_one (to_lower (trim_space (err_text e))) [''context canceled'', ''context cancelled''])"

definition shouldRetryToolParseFailure :: "string \<Rightarrow> string list \<Rightarrow> bool" where
  "shouldRetryToolParseFailure finalText allowedTools =
    (allowedTools \<noteq> [] \<and>
     \<not> contains_one (to_lower (trim_space finalText))
        [''not enabled for this agent'', ''please enable it and retry'', ''network.enabled=true'',
         ''shell.enable_exec=true''])"

definition deferralPhrases :: "string list" where
  "deferralPhrases = [''let me'', ''let me try'', ''let me check'', ''let me verify'', ''let me look'',
     ''i will'', ''i'' @ [CHR 0x27] @ ''ll'', ''i am going to'', ''i'' @ [CHR 0x27] @ ''m going to'',
     ''give me a moment'', ''hold on'']"

definition completionClaims :: "string list" where
  "completionClaims = [''i created'', ''created the file'', ''created `'', ''created '', ''implemented'',
     ''implementation complete'', ''i updated'', ''i wrote'', ''saved to'']"

definition shouldForceFollowThrough :: "string \<Rightarrow> string list \<Rightarrow> tool_result list \<Rightarrow> bool" where
  "shouldForceFollowThrough finalText allowedTools results =
    (if allowedTools = [] \<or> results \<noteq> [] then False
     else (let txt = to_lower (trim_space finalText) in
       if txt = [] \<or> 480 < int (length txt) then False
       else if contains_one txt [''can'' @ [CHR 0x27] @ ''t'', ''cannot'', ''unable'', ''permission'', ''missing'', ''blocked'']
       then False
       else contains_one txt deferralPhrases \<or> contains_one txt completionClaims))"

definition nonActionableFinalText :: string where
  "nonActionableFinalText = ''I could not complete an actionable execution step in time. Please retry and I will run it directly and report concrete results.''"

section \<open>The latest tool results\<close>

definition shorten_output :: "string \<Rightarrow> string" where
  "shorten_output o' = (if 1200 < int (length o') then take (nat 1200) o' @ ''...'' else o')"

definition result_line :: "int \<Rightarrow> tool_result \<Rightarrow> string" where
  "result_line idx item =
    (let o' = shorten_output (trim_space (tr_output item)) in
     if trim_space (tr_error item) \<noteq> [] then
       ''- '' @ itoa idx @ '') error: '' @ trim_space (tr_error item) @ nl @
       (if o' \<noteq> [] then ''  output: '' @ o' @ nl else [])
     else ''- '' @ itoa idx @ '') output: '' @ (if o' = [] then ''(empty output)'' else o') @ nl)"

fun result_lines :: "int \<Rightarrow> tool_result list \<Rightarrow> string" where
  "result_lines idx [] = []"
| "result_lines idx (item # items) = result_line idx item @ result_lines (idx + 1) items"

definition formatLatestToolResults :: "tool_result list \<Rightarrow> string" where
  "formatLatestToolResults results =
    (let start = length results - 5 in result_lines (int start + 1) (drop start results))"

definition cap_line :: "int \<Rightarrow> string" where
  "cap_line cap = nl @ ''(Iteration cap: '' @ itoa cap @ '')''"

definition fallbackFromToolResults :: "tool_result list \<Rightarrow> int \<Rightarrow> string" where
  "fallbackFromToolResults results cap =
    (if results = [] then ''I hit the tool iteration limit before I could finish.''
     else ''I reached the tool-iteration limit before producing a final response. Here are the latest tool results:'' @ nl @
       formatLatestToolResults results @ cap_line cap)"

definition fallbackFromNoProgressToolResults :: "tool_result list \<Rightarrow> string" where
  "fallbackFromNoProgressToolResults results =
    (if results = [] then ''I stopped repeated tool calls because they were no longer making progress.''
     else ''I stopped repeated tool calls because they were no longer making progress. Here are the latest tool results:'' @ nl @
       formatLatestToolResults results)"

definition empty_search :: "tool_result \<Rightarrow> bool" where
  "empty_search item =
    (let o' = to_lower (trim_space (tr_output item)) in
     trim_space (tr_error item) = [] \<and> o' \<noteq> [] \<and>
     contains o' (CHR 0x22 # ''count'' @ [CHR 0x22] @ '':0'') \<and> contains o' (CHR 0x22 # ''items'' @ [CHR 0x22] @ '':[]''))"

definition latestToolResultsAreEmptySearches :: "tool_result list \<Rightarrow> bool" where
  "latestToolResultsAreEmptySearches results =
     (results \<noteq> [] \<and> list_all empty_search (drop (length results - 3) results))"

section \<open>Answers after a model error\<close>

definition recoverFromNoChoices :: "tool_result list \<Rightarrow> int \<Rightarrow> string" where
  "recoverFromNoChoices results cap =
    (if results = [] then ''I couldn'' @ [CHR 0x27] @ ''t get a complete response from the model this time. Please try again.''
     else if latestToolResultsAreEmptySearches results
     then ''I couldn'' @ [CHR 0x27] @ ''t get a complete model response, but the latest search attempts found no matching entries.''
     else ''I couldn'' @ [CHR 0x27] @ ''t get a complete model response, but here are the latest tool results:'' @ nl @
       formatLatestToolResults results @ cap_line cap)"

definition recoverFromEmptyFinal :: "tool_result list \<Rightarrow> string" where
  "recoverFromEmptyFinal results =
    (if results = [] then ''I completed the run, but the model returned an empty final response. Please retry.''
     else ''I completed tool execution, but the model returned an empty final response. Here are the latest tool results:'' @ nl @
       formatLatestToolResults results)"

definition recoverFromInterruptedStream :: "go_error \<Rightarrow> string" where
  "recoverFromInterruptedStream e =
    (let msg = trim_space (err_text e);
         msg = (if msg = [] then ''provider stream interrupted'' else msg)
     in ''The response stream was interrupted before I could finish. Send `continue` and I will resume from the cutoff point.''
        @ nl @ nl @ ''Last error: '' @ msg)"

definition recoverFromTransientModelError :: "go_error \<Rightarrow> tool_result list \<Rightarrow> int \<Rightarrow> string" where
  "recoverFromTransientModelError e results cap =
    (if results = [] then recoverFromInterruptedStream e
     else if latestToolResultsAreEmptySearches results
     then ''The response stream was interrupted before I could finish, but the latest search attempts found no matching entries.''
     else recoverFromInterruptedStream e @ nl @ nl @ ''Latest tool results before the interruption:'' @ nl @
       formatLatestToolResults results @ cap_line cap)"

definition recoverFromModelError :: "go_error \<Rightarrow> tool_result list \<Rightarrow> int \<Rightarrow> string" where
  "recoverFromModelError e results cap =
    (if isProviderNoChoicesError e then recoverFromNoChoices results cap
     else if isTransientProviderModelError e then recoverFromTransientModelError e results cap
     else (let msg = trim_space (''I hit a model/API error while processing the next step: '' @ trim_space (err_text e))
       in if results = [] then msg
          else msg @ nl @ nl @ ''Latest tool results before the model/API error:'' @ nl @
            formatLatestToolResults results @ cap_line cap))"

definition formatStructuralBlockerEscalation :: "string \<Rightarrow> int \<Rightarrow> tool_result list \<Rightarrow> string" where
  "formatStructuralBlockerEscalation category count results =
    (let desc = (if category = ''missing_parent_directory'' then
             ''The target directory does not exist and the runtime cannot create it automatically''
           else if category = ''capability_denied'' then
             ''The agent lacks required tool capabilities (policy/permission issue)''
           else if category = ''outside_workspace'' then
             ''Attempted file operations target paths outside the allowed workspace''
           else if category = ''protected_path'' then
             ''Attempted to write to a protected control-plane path''
           else category)
     in ''## Structural blocker '' @ [CHR 0xE2, CHR 0x80, CHR 0x94] @ '' owner action required'' @ nl @ nl @
        ''**Category:** '' @ category @ nl @
        ''**Occurrences:** '' @ itoa count @ '' (hard-stop threshold reached)'' @ nl @
        ''**Description:** '' @ desc @ nl @ nl @
        ''I have stopped retrying because this is an infrastructure problem that I cannot resolve on my own. '' @
        ''Please fix the underlying issue and re-run the task.'' @ nl @
        (if results \<noteq> [] then nl @ ''**Recent tool results:**'' @ nl @ formatLatestToolResults results else []))"

section \<open>Network permissions and repeated failures\<close>

definition extractNetworkAllowlistDeniedHost :: "string \<Rightarrow> string" where
  "extractNetworkAllowlistDeniedHost errText =
    (let lower = to_lower (trim_space errText); pre = ''host '' @ [CHR 0x22] in
     if \<not> contains lower ''is not in network.allowed_domains'' then []
     else case index_of pre lower of None \<Rightarrow> []
      | Some start \<Rightarrow>
        (let rest = drop (start + length pre) lower in
         case index_of [CHR 0x22] rest of None \<Rightarrow> []
         | Some endRel \<Rightarrow> if endRel = 0 then [] else trim_space (take endRel rest)))"

definition denied_hosts :: "tool_record list \<Rightarrow> (string, unit) gmap" where
  "denied_hosts records =
    fold (\<lambda>rec hosts.
      (let toolName = trim_space (to_lower (tc_name (rec_request rec)));
           errText = trim_space (tr_error (rec_result rec));
           host = extractNetworkAllowlistDeniedHost errText
       in if toolName \<noteq> ''http.request'' \<and> toolName \<noteq> ''net.fetch'' then hosts
          else if errText = [] then hosts
          else if host = [] then hosts
          else mput host () hosts)) records mempty"

definition networkAllowlistPermissionPrompt :: "string \<Rightarrow> tool_record list \<Rightarrow> string option" where
  "networkAllowlistPermissionPrompt userMessage records =
    (let hosts = mkeys (denied_hosts records); goal = trim_space userMessage in
     if hosts = [] then None
     else Some (''I can continue, but I need your permission first.'' @ nl @
       (if goal \<noteq> [] then ''Goal: '' @ goal @ nl else []) @
       ''The network tool is blocked because these hosts are not in `network.allowed_domains`: '' @
       join_with '', '' (map (\<lambda>h. ''`'' @ h @ ''`'') (sort hosts)) @ ''.'' @ nl @
       ''If you approve, reply exactly: `yes, add allowed domains` and I will add them via `config.set` and retry immediately.'' @ nl @
       ''Note: Use config.set with the format: `config.set {'' @ [CHR 0x22] @ ''updates'' @ [CHR 0x22] @ '': {'' @
       [CHR 0x22] @ ''network.allowed_domains'' @ [CHR 0x22] @ '': ['' @ [CHR 0x22] @ ''domain1'' @ [CHR 0x22] @ '', '' @
       [CHR 0x22] @ ''domain2'' @ [CHR 0x22] @ '', ...]}}`''))"

definition truncateGuidanceText :: "string \<Rightarrow> int \<Rightarrow> string" where
  "truncateGuidanceText value maxChars =
    (let txt = trim_space value in
     if txt = [] \<or> maxChars \<le> 0 then []
     else if int (length txt) \<le> maxChars then txt
     else if maxChars \<le> 3 then take (nat maxChars) txt
     else trim_space (take (nat (maxChars - 3)) txt) @ ''...'')"

text \<open>The last six failing records, oldest first.\<close>

definition failing_records :: "tool_record list \<Rightarrow> tool_record list" where
  "failing_records records =
     rev (take 6 (filter (\<lambda>rec. trim_space (tr_error (rec_result rec)) \<noteq> []) (rev records)))"

definition attempt_line :: "tool_record \<Rightarrow> string" where
  "attempt_line rec =
    (let args = truncateGuidanceText (trim_space (tc_arguments (rec_request rec))) 120
     in ''- '' @ tc_name (rec_request rec) @ (if args \<noteq> [] then '' '' @ args else []) @ nl)"

definition finalizeAfterFailureEscalation :: "string \<Rightarrow> tool_record list \<Rightarrow> string" where
  "finalizeAfterFailureEscalation userMessage records =
    (case networkAllowlistPermissionPrompt userMessage records of Some p \<Rightarrow> p
     | None \<Rightarrow>
       (let goal = trim_space userMessage; failing = failing_records records in
        ''I stopped repeated failing tool attempts to avoid looping and finalized with the best available result.'' @ nl @
        (if goal \<noteq> [] then ''Goal: '' @ goal @ nl else []) @
        (if failing = [] then ''No concrete failing tool payloads were captured in the final attempts.''
         else ''Recent failing attempts:'' @ nl @ concat (map attempt_line failing) @
           nl @ ''Next best step: adjust failing arguments/permissions, then rerun the task.'')))"

section \<open>Prompts\<close>

definition appendPromptDirective :: "string \<Rightarrow> string \<Rightarrow> string" where
  "appendPromptDirective prompt directive =
    (let base = trim_space prompt; extra = trim_space directive in
     if extra = [] then base else if base = [] then extra else base @ nl @ nl @ extra)"

text \<open>A directive is a headline and its bullets.\<close>

definition directive :: "string \<Rightarrow> string list \<Rightarrow> string" where
  "directive headline bullets = join_with nl ((''# '' @ headline) # map (\<lambda>b. ''- '' @ b) bullets)"

definition partialSuccessDirective :: "run_state \<Rightarrow> string" where
  "partialSuccessDirective s = directive ''PARTIAL_SUCCESS_MODE''
    ([''The previous tool batch had mixed outcomes.'',
      ''Do not repeat tools that already succeeded in that batch.'',
      ''Retry only the failed tools with corrected arguments, or finalize if the core request is already satisfied.'']
     @ (if lastIterationSucceeded s \<noteq> [] then [''Successful tools in previous batch: '' @
          join_with '', '' (lastIterationSucceeded s) @ ''.''] else [])
     @ (if lastIterationFailed s \<noteq> [] then [''Failed tools in previous batch: '' @
          join_with '', '' (lastIterationFailed s) @ ''.''] else []))"

definition errorRecoveryDirective :: string where
  "errorRecoveryDirective = directive ''ERROR_RECOVERY_MODE''
    [''Recent tool calls failed. Analyze the latest errors and outputs before choosing the next action.'',
     ''Try a materially different approach to resolve the error.'',
     ''Do not repeat the same failing command/arguments unless you explain why it should now work.'']"

definition noProgressDirective :: string where
  "noProgressDirective = directive ''NO_PROGRESS_MODE''
    [''The previous tool call(s) produced no new progress.'',
     ''Do not repeat the same tool with unchanged arguments.'',
     ''Either use a materially different tool/action, or provide a final response from current evidence.'']"

definition actionExecutionDirective :: string where
  "actionExecutionDirective = directive ''ACTION_EXECUTION_MODE''
    [''You previously replied with intent to act but did not execute.'',
     ''In this turn, either call required tools now or provide a concrete final answer from existing evidence.'',
     ''Do not defer with phrases like '' @ [CHR 0x27] @ ''let me check'' @ [CHR 0x27] @
       '' or promise future action without execution.'']"

definition toolParseRecoveryDirective :: string where
  "toolParseRecoveryDirective = directive ''TOOL_PARSE_RECOVERY_MODE''
    [''Your previous response attempted tool calls in an invalid format and no tool executed.'',
     ''Output tool calls only as fenced JSON objects with this exact shape:'' @ nl @ ''```json'' @ nl @
       ''{'' @ [CHR 0x22] @ ''tool_name'' @ [CHR 0x22] @ '':'' @ [CHR 0x22] @ ''<tool.name>'' @ [CHR 0x22] @ '','' @
       [CHR 0x22] @ ''arguments'' @ [CHR 0x22] @ '':{...}}'' @ nl @ ''```'',
     ''Do not use pseudo-XML tags such as <tool_call> or <arg_value>.'']"

definition add_directive_if :: "bool \<Rightarrow> string \<Rightarrow> string \<Rightarrow> string" where
  "add_directive_if b d prompt = (if b then appendPromptDirective prompt d else prompt)"

definition prepareSystemPrompt :: "'w run_input \<Rightarrow> run_state \<Rightarrow> 'w \<Rightarrow> string \<times> 'w" where
  "prepareSystemPrompt input s w =
    (let p = ro_prompt (out s);
         p = add_directive_if (lastIterationMixed s) (partialSuccessDirective s) p;
         p = add_directive_if (failureRecoveryActive s) errorRecoveryDirective p;
         p = add_directive_if (0 < noProgressIterations s) noProgressDirective p;
         p = add_directive_if (0 < followThroughReprompts s) actionExecutionDirective p;
         p = add_directive_if (0 < toolParseReprompts s) toolParseRecoveryDirective p
     in case ri_systemPromptExt input of None \<Rightarrow> (p, w)
        | Some ext \<Rightarrow>
          (case ext p (messages s) (ri_message input) (toolResults s) (ri_source input) w of
             (extended, w) \<Rightarrow> (if trim_space extended \<noteq> [] then extended else p, w)))"

section \<open>An answer from the tool results\<close>

definition finalResponseDirective :: string where
  "finalResponseDirective = directive ''FINAL_RESPONSE_MODE''
    [''Do not call tools in this turn.'',
     ''Use the latest tool results to answer the user directly.'',
     ''If some commands failed, explain the failure and give the best next step.'']"

definition finalPrompt :: "string \<Rightarrow> string \<Rightarrow> string" where
  "finalPrompt prompt extraDirective =
     (if prompt \<noteq> [] then prompt @ nl @ nl else []) @ finalResponseDirective @
     (if trim_space extraDirective \<noteq> [] then nl @ nl @ trim_space extraDirective else [])"

text \<open>One more model call without tools; no usable answer is the empty text.\<close>

definition finalizeFromToolResults ::
    "(model_request \<Rightarrow> 'w \<Rightarrow> (model_response \<times> go_error option) \<times> 'w) option \<Rightarrow> 'w run_input \<Rightarrow>
     run_state \<Rightarrow> string \<Rightarrow> 'w \<Rightarrow> string \<times> 'w" where
  "finalizeFromToolResults model input s extraDirective w =
    (case model of None \<Rightarrow> ([], w)
     | Some generate \<Rightarrow>
       if toolResults s = [] then ([], w)
       else
        (let base = trim_space (ro_prompt (out s));
             (base, w) = (case ri_systemPromptExt input of None \<Rightarrow> (base, w)
               | Some ext \<Rightarrow>
                 (case ext base (messages s) (ri_message input) (toolResults s) (ri_source input) w of
                    (extended, w) \<Rightarrow> (if trim_space extended \<noteq> [] then trim_space extended else base, w)));
             prompt = finalPrompt base extraDirective;
             ((resp, err), w) = generate
               \<lparr>mr_agentID = ri_agentID input, mr_runID = ri_runID input, mr_systemPrompt = prompt,
                mr_messages = messages s, mr_allowedTools = [], mr_toolTimeoutMS = ri_toolTimeoutMS input,
                mr_prompt = prompt, mr_message = ri_message input, mr_toolResults = toolResults s\<rparr> w
         in if err \<noteq> None then ([], w)
            else if mp_toolCalls resp \<noteq> [] then ([], w)
            else (trim_space (mp_finalText resp), w)))"

end
