(* ===== verification/Run_Loop.thy ===== *)
theory Run_Loop
  imports Run_Tools Run_Texts Delegation_Run
begin

text \<open>
  The loop of a run (runLoop of internal/agent/run_state.go and Run of runner.go). One turn is
  \<open>turn\<close>: prompt, delegation trigger, model call with its retries, and then either an answer, an
  error, or a gated and executed batch of tool calls. A turn either returns from the run or goes
  on. The loop is bounded by fuel; Run_Loop_Facts shows that the fuel given never runs out, so the
  code's endless for loop returns. Sleeping between retries is not modelled.
\<close>

section \<open>Errors a run returns\<close>

datatype run_error =
    RunErr go_error | ContextCanceled | ToolExecutorRequired | ToolIterationCapExceeded | ModelRequired
  | PlanErr plan_error

fun run_error_text :: "run_error \<Rightarrow> string" where
  "run_error_text (RunErr e) = err_text e"
| "run_error_text ContextCanceled = ''context canceled''"
| "run_error_text ToolExecutorRequired = ''agent runner requires tool executor for tool calls''"
| "run_error_text ToolIterationCapExceeded = ''agent runner tool iteration cap exceeded''"
| "run_error_text ModelRequired = ''agent runner requires model''"
| "run_error_text (PlanErr NoTasksToPlan) = ''delegation planner: no tasks to plan''"
| "run_error_text (PlanErr (DependencyCycle ids)) = err_text (cycle_error ids)"

fun runTerminationCause :: "run_error option \<Rightarrow> string" where
  "runTerminationCause None = ''completed''"
| "runTerminationCause (Some ContextCanceled) = ''canceled''"
| "runTerminationCause (Some ToolIterationCapExceeded) = ''tool_iteration_cap_exceeded''"
| "runTerminationCause (Some ToolExecutorRequired) = ''tool_executor_missing''"
| "runTerminationCause (Some ModelRequired) = ''model_missing''"
| "runTerminationCause (Some (RunErr e)) = (if err_canceled e then ''canceled'' else ''error'')"
| "runTerminationCause (Some (PlanErr e)) = ''error''"

definition emitTerminationDecision :: "run_error option \<Rightarrow> run_state \<Rightarrow> run_state" where
  "emitTerminationDecision runErr s =
    (let cause = runTerminationCause runErr;
         pl = mput ''cause'' (PStr cause) mempty;
         pl = (case runErr of Some e \<Rightarrow> mput ''error'' (PStr (trim_space (run_error_text e))) pl | None \<Rightarrow> pl);
         pl = (if trim_space (ro_finalText (out s)) \<noteq> []
               then mput ''final_text_preview'' (PStr (firstN (trim_space (ro_finalText (out s))) 160)) pl else pl);
         summary = (if cause = ''completed'' then ''Run completed successfully.''
           else ''Run terminated with cause: '' @ cause @ ''.'')
     in emitDecision ''termination'' pl summary s)"

section \<open>The start of a run\<close>

definition goal_text :: "'w run_input \<Rightarrow> string" where
  "goal_text input =
    (let g = trim_space (ri_message input);
         g = (if g = [] \<and> ri_messages input \<noteq> [] then trim_space (msg_content (last (ri_messages input))) else g)
     in if g = [] then ''Run without explicit user message'' else g)"

definition runPrologue :: "'w run_input \<Rightarrow> run_state \<Rightarrow> run_state" where
  "runPrologue input s =
    (let goal = goal_text input; mode = normalizeDelegationMode (ri_delegationMode input);
         strategy = (if mode \<noteq> NoMode then ''delegation_mode:'' @ mode_text mode else ''direct_execution'');
         s = emitDecision ''goal_interpretation''
           (mput_all [(''goal'', PStr goal), (''message_count'', PInt (int (length (ri_messages input))))] mempty)
           (''Interpreted run goal: '' @ firstN goal 160) s;
         s = emitDecision ''strategy_selection''
           (mput_all [(''strategy'', PStr strategy), (''delegation_mode'', PStr (trim_space (ri_delegationMode input))),
              (''auto_delegate'', PBool (ri_autoDelegate input))] mempty)
           (''Selected strategy '' @ strategy @ '' for this run.'') s
     in emitDecision ''constraint_activation''
           (mput_all [(''allowed_tools'', PStrs (ri_allowedTools input)), (''max_tool_iterations'', PInt (toolCap s)),
              (''tool_timeout_ms'', PInt (toolTimeout s div time_millisecond))] mempty)
           ''Activated run constraints (tool allowlist, iteration cap, timeout).'' s)"

section \<open>Steps\<close>

datatype 'w step = GoOn run_state 'w | Return run_state "run_error option" 'w

text \<open>The flags every return but those of a model error copies into the output.\<close>

definition with_flags :: "run_state \<Rightarrow> run_state" where
  "with_flags s = s\<lparr>out := (out s)\<lparr>ro_thinking := latestThinking s, ro_thinkingPresent := thinkingPresent s,
     ro_toolParseFailure := toolParseFailure s\<rparr>\<rparr>"

definition with_text :: "string \<Rightarrow> run_state \<Rightarrow> run_state" where
  "with_text t s = s\<lparr>out := (out s)\<lparr>ro_finalText := t\<rparr>\<rparr>"

definition returnText :: "string \<Rightarrow> run_state \<Rightarrow> 'w \<Rightarrow> 'w step" where
  "returnText t s w = Return (with_flags (with_text t s)) None w"

text \<open>Answering from the tool results, or else with a fixed text.\<close>

definition finalizeOr ::
    "'w runner \<Rightarrow> 'w run_input \<Rightarrow> string \<Rightarrow> (run_state \<Rightarrow> string) \<Rightarrow> run_state \<Rightarrow> 'w \<Rightarrow> 'w step" where
  "finalizeOr r input extra fallback s w =
    (let (t, w) = finalizeFromToolResults (rn_model r) input s extra w
     in returnText (if t \<noteq> [] then t else fallback s) s w)"

section \<open>The delegation trigger\<close>

definition getLastToolName :: "run_state \<Rightarrow> string" where
  "getLastToolName s = (if ro_toolCalls (out s) = [] then [] else tc_name (rec_request (last (ro_toolCalls (out s)))))"

definition getRecentErrorTypes :: "run_state \<Rightarrow> string list" where
  "getRecentErrorTypes s = take 3 (map tr_error (filter (\<lambda>t. trim_space (tr_error t) \<noteq> []) (rev (toolResults s))))"

definition setLastModelOutput :: "string \<Rightarrow> run_state \<Rightarrow> run_state" where
  "setLastModelOutput output s =
    (let intents = recentIntents s @ [output]
     in s\<lparr>lastModelOutput := output, recentIntents := (if 3 < length intents then tl intents else intents)\<rparr>)"

definition takeSnapshot :: "run_state \<Rightarrow> snapshot" where
  "takeSnapshot s = \<lparr>sn_lastToolAttempted = getLastToolName s, sn_lastErrorTypes = getRecentErrorTypes s,
     sn_lastModelOutput = lastModelOutput s, sn_askedUserQuestion = detectUserQuestion (lastModelOutput s)\<rparr>"

definition emitRoleSelections :: "decomposition_plan \<Rightarrow> run_state \<Rightarrow> run_state" where
  "emitRoleSelections plan s = fold (\<lambda>t. emitDecision ''role_selection''
     (mput_all [(''task_id'', PStr (trim_space (tn_taskID t))), (''role'', PStr (trim_space (tn_assignedRole t))),
        (''confidence'', PRat (tn_confidence t)), (''task'', PStr (trim_space (tn_description t))),
        (''role_rationale'', PStr (trim_space (tn_rationale t)))] mempty)
     (''Selected role '' @ trim_space (tn_assignedRole t) @ '' for task '' @ trim_space (tn_taskID t) @ ''.''))
     (dp_tasks plan) s"

definition trigger_payload :: "'w run_input \<Rightarrow> delegation_trigger \<Rightarrow> snapshot \<Rightarrow> run_state \<Rightarrow> payload" where
  "trigger_payload input trigger sn s =
    (let planner = isPlannerDelegationMode (normalizeDelegationMode (ri_delegationMode input)) in
     mput_all
      [(''trigger_reason'', PStr (trim_space (tg_reason trigger))),
       (''selected_role'', PStr (if planner then ''planner'' else ''delegation_controller'')),
       (''task_assignment'', PStr (if planner then ''generate delegation decomposition plan''
          else ''evaluate delegation trigger conditions'')),
       (''confidence'', PRat 0), (''mode'', PStr (mode_text (tg_mode trigger))),
       (''cooldown_for'', PInt (tg_cooldownFor trigger)), (''context_tokens'', PInt (lastPromptTokens s)),
       (''context_window'', PInt (contextWindow s)), (''subtask_count'', PInt (int (length (tg_subtasks trigger)))),
       (''snapshot_tool'', PStr (trim_space (sn_lastToolAttempted sn))),
       (''snapshot_errors'', PStrs (sn_lastErrorTypes sn))] mempty)"

text \<open>json.MarshalIndent of the subtasks the decomposer makes (they carry no role yet).\<close>

definition json_items :: "string \<Rightarrow> char \<Rightarrow> char \<Rightarrow> string list \<Rightarrow> string" where
  "json_items ind opn cls items =
     [opn] @ nl @ join_with ('','' @ nl) (map (\<lambda>i. ind @ ''  '' @ i) items) @ nl @ ind @ [cls]"

definition json_field :: "string \<Rightarrow> string \<Rightarrow> string" where
  "json_field k v = enc_string k @ '': '' @ v"

definition json_strings :: "string list \<Rightarrow> string" where
  "json_strings xs = json_items ''    '' (CHR ''['') (CHR '']'') (map enc_string xs)"

definition subtask_json :: "decomposed_task \<Rightarrow> string" where
  "subtask_json t =
    json_items ''  '' (CHR 0x7B) (CHR 0x7D)
     (json_field ''task_id'' (enc_string (dt_taskID t)) #
      (if dt_parentRunID t \<noteq> [] then [json_field ''parent_run_id'' (enc_string (dt_parentRunID t))] else []) @
      [json_field ''agent_id'' (enc_string (dt_agentID t)), json_field ''message'' (enc_string (dt_message t))] @
      (if dt_acceptanceCrit t \<noteq> [] then [json_field ''acceptance_criteria'' (json_strings (dt_acceptanceCrit t))] else []) @
      (if dt_dependsOn t \<noteq> [] then [json_field ''depends_on'' (json_strings (dt_dependsOn t))] else []) @
      (if dt_produces t \<noteq> [] then [json_field ''produces'' (json_strings (dt_produces t))] else []) @
      [json_field ''priority'' (itoa (dt_priority t))] @
      (if dt_timeoutMS t \<noteq> 0 then [json_field ''timeout_ms'' (itoa (dt_timeoutMS t))] else []) @
      (if dt_thinkingMode t \<noteq> [] then [json_field ''thinking_mode'' (enc_string (dt_thinkingMode t))] else []))"

definition buildForcedDelegationDirective :: "delegation_trigger \<Rightarrow> string" where
  "buildForcedDelegationDirective trigger = ''# FORCED_DELEGATION_MODE

CRITICAL: Task complexity has exceeded safe execution thresholds.
You are in FORCED mode. Only these tools are allowed: '' @ join_with '', '' (tg_allowedTools trigger) @ ''

TRIGGER REASON: '' @ tg_reason trigger @ ''

REQUIRED ACTIONS:
1. Use only agent.list and agent.run in this mode
2. Respect subtask dependency order
3. For each subtask, pass through the exact task_id from the definition
4. Delegate the work with a clear execution-focused message and let the subagent do the task
5. After required subtasks complete, finalize using their results instead of restarting the original failing loop

SUBTASKS:
'' @ json_items [] (CHR ''['') (CHR '']'') (map subtask_json (tg_subtasks trigger)) @ ''

Your output MUST be tool calls only. Plain text responses are not accepted.
Do not call unrelated tools, do not invent subtasks, and do not retry the original blocked tool path directly.
Each agent.run call must include the task_id from the subtask definition.''"

definition buildSoftDelegationHint :: "delegation_trigger \<Rightarrow> string" where
  "buildSoftDelegationHint trigger = ''# DELEGATION_RECOMMENDED

Context signals suggest this task would benefit from delegation:
Reason: '' @ tg_reason trigger @ ''

Consider using agent.run to delegate a small number of focused subtasks when direct execution is stalling.
Use delegation especially when you need a fresh context window, an isolated diagnosis pass, or a scoped execution step.
If you delegate, make each subtask specific, execution-focused, and easy to verify.''"

definition returnDelegated ::
    "'w runner \<Rightarrow> 'w run_input \<Rightarrow> decomposed_task list \<Rightarrow> run_state \<Rightarrow> 'w \<Rightarrow> 'w step" where
  "returnDelegated r input tasks s w =
    (case executeDelegatedTasks r input tasks (s, w) of
       (Some e, s, w) \<Rightarrow> Return (with_flags s) (Some (RunErr e)) w
     | (None, s, w) \<Rightarrow> Return (with_flags s) None w)"

definition activatePlan ::
    "'w run_input \<Rightarrow> decomposition_plan \<Rightarrow> decomposed_task list \<Rightarrow> run_state \<Rightarrow> run_state" where
  "activatePlan input plan planned s =
    (let mode = normalizeDelegationMode (ri_delegationMode input);
         s = s\<lparr>out := (out s)\<lparr>ro_decompositionPlan := Some plan\<rparr>, pendingSubtasks := planned, delegationActive := True\<rparr>;
         s = appendPlannedDelegationEvents plan s;
         s = emitDecision ''constraint_activation''
           (mput_all [(''delegation_mode'', PStr (mode_text mode)), (''subtask_count'', PInt (int (length planned))),
              (''auto_delegate'', PBool (ri_autoDelegate input))] mempty)
           (''Activated planner-led delegation constraints for '' @ itoa (int (length planned)) @ '' subtasks.'') s
     in emitRoleSelections plan s)"

text \<open>Planner modes beyond prompt-only take over and end the run.\<close>

definition plannerTakesOver ::
    "'w runner \<Rightarrow> 'w run_input \<Rightarrow> delegation_trigger \<Rightarrow> run_state \<Rightarrow> 'w \<Rightarrow> 'w step" where
  "plannerTakesOver r input trigger s w =
    (let mode = normalizeDelegationMode (ri_delegationMode input) in
     case generateDecompositionPlan (tg_reason trigger) mode (tg_subtasks trigger) of
       Inl e \<Rightarrow> Return (with_flags s) (Some (PlanErr e)) w
     | Inr (plan, planned) \<Rightarrow>
       (let s = activatePlan input plan planned s;
            (autoExecute, summary) = shouldAutoExecutePlan mode plan (ri_delegationApproved input);
            (autoExecute, summary) = (if autoExecute \<and> rn_subAgentRunner r = None
              then (False, ''delegation plan generated, but subagent runner is unavailable'') else (autoExecute, summary))
        in if \<not> autoExecute then returnText (formatDecompositionPlanForOperator plan summary) s w
           else returnDelegated r input planned s w))"

text \<open>What a trigger does when no planner takes over: constraints, forced execution or a directive.\<close>

definition availableTrigger :: "'w runner \<Rightarrow> delegation_trigger \<Rightarrow> delegation_trigger" where
  "availableTrigger r trigger =
    (if rn_subAgentRunner r = None \<and> (tg_mode trigger = ToolGated \<or> tg_mode trigger = AutoExecute)
     then trigger\<lparr>tg_mode := PromptOnly, tg_allowedTools := []\<rparr> else trigger)"

definition constrain :: "delegation_trigger \<Rightarrow> run_state \<Rightarrow> run_state" where
  "constrain trigger s =
    (let s = s\<lparr>delegationMode := tg_mode trigger, delegationCooldown := tg_cooldownFor trigger,
           pendingSubtasks := tg_subtasks trigger, delegationActive := True\<rparr>;
         s = emitDecision ''constraint_activation''
           (mput_all [(''delegation_mode'', PStr (mode_text (tg_mode trigger))),
              (''allowed_tools'', PStrs (tg_allowedTools trigger)), (''cooldown_for'', PInt (tg_cooldownFor trigger))] mempty)
           (''Activated delegation mode constraints ('' @ mode_text (tg_mode trigger) @ '').'') s
     in if tg_mode trigger = ToolGated \<or> tg_mode trigger = AutoExecute
        then s\<lparr>delegationLocked := True\<rparr> else s)"

definition applyTrigger ::
    "'w runner \<Rightarrow> 'w run_input \<Rightarrow> delegation_trigger \<Rightarrow> string \<Rightarrow> run_state \<Rightarrow> 'w \<Rightarrow> string \<times> 'w step" where
  "applyTrigger r input trigger systemPrompt s w =
    (let trigger = availableTrigger r trigger; s = constrain trigger s
     in if tg_mode trigger = AutoExecute \<and> ri_autoDelegate input
        then (systemPrompt, returnDelegated r input (tg_subtasks trigger) s w)
        else
         (let p = (if tg_mode trigger = ToolGated
                then appendPromptDirective systemPrompt (buildForcedDelegationDirective trigger) else systemPrompt);
              p = (if tg_mode trigger = PromptOnly
                then appendPromptDirective p (buildSoftDelegationHint trigger) else p)
          in (p, GoOn s w)))"

definition suggestPlan :: "delegation_mode \<Rightarrow> delegation_trigger \<Rightarrow> run_state \<Rightarrow> run_state" where
  "suggestPlan mode trigger s =
    (case generateDecompositionPlan (tg_reason trigger) mode (tg_subtasks trigger) of
       Inl _ \<Rightarrow> s
     | Inr (plan, _) \<Rightarrow> emitRoleSelections plan
         (if ro_decompositionPlan (out s) = None then s\<lparr>out := (out s)\<lparr>ro_decompositionPlan := Some plan\<rparr>\<rparr> else s))"

definition announceTrigger ::
    "'w run_input \<Rightarrow> delegation_trigger \<Rightarrow> snapshot \<Rightarrow> run_state \<Rightarrow> run_state" where
  "announceTrigger input trigger sn s =
    (let mode = normalizeDelegationMode (ri_delegationMode input);
         s = s\<lparr>delegationReason := trim_space (tg_reason trigger)\<rparr>;
         s = emitDelegationTriggerDecision (trigger_payload input trigger sn s)
           (''Delegation trigger fired ('' @ mode_text (tg_mode trigger) @ ''): '' @
             firstN (trim_space (tg_reason trigger)) 140) s
     in if isPlannerDelegationMode mode \<and> tg_mode trigger = PromptOnly then suggestPlan mode trigger s else s)"

definition delegationStep ::
    "'w runner \<Rightarrow> 'w run_input \<Rightarrow> string \<Rightarrow> run_state \<Rightarrow> 'w \<Rightarrow> string \<times> 'w step" where
  "delegationStep r input systemPrompt s w =
    (let sn = takeSnapshot s in
     if delegationLocked s then (systemPrompt, GoOn s w)
     else case computeDelegationTrigger (rn_map_order r) (lastPromptTokens s) (contextWindow s) sn s of
       (None, s) \<Rightarrow> (systemPrompt, GoOn s w)
     | (Some trigger, s) \<Rightarrow>
       (let s = announceTrigger input trigger sn s
        in if isPlannerDelegationMode (normalizeDelegationMode (ri_delegationMode input)) \<and> tg_mode trigger \<noteq> PromptOnly
           then (systemPrompt, plannerTakesOver r input trigger s w)
           else applyTrigger r input trigger systemPrompt s w))"

section \<open>The model call\<close>

type_synonym 'w generate = "model_request \<Rightarrow> 'w \<Rightarrow> (model_response \<times> go_error option) \<times> 'w"

definition turn_request :: "'w run_input \<Rightarrow> string \<Rightarrow> run_state \<Rightarrow> model_request" where
  "turn_request input systemPrompt s =
    \<lparr>mr_agentID = ri_agentID input, mr_runID = ri_runID input, mr_systemPrompt = systemPrompt,
     mr_messages = messages s, mr_allowedTools = ri_allowedTools input,
     mr_toolTimeoutMS = ri_toolTimeoutMS input, mr_prompt = systemPrompt, mr_message = ri_message input,
     mr_toolResults = toolResults s\<rparr>"

text \<open>
  Both retry caps are 3 and share the attempt counter; \<open>attempts\<close> is how many retries are left. With
  tool results at hand nothing is retried.
\<close>

fun generateRetry ::
    "'w generate \<Rightarrow> model_request \<Rightarrow> nat \<Rightarrow> 'w \<Rightarrow> (model_response \<times> go_error option) \<times> 'w" where
  "generateRetry generate req attempts w =
    (case generate req w of
       ((resp, None), w) \<Rightarrow> ((resp, None), w)
     | ((resp, Some e), w) \<Rightarrow>
       if (isProviderNoChoicesError e \<or> isTransientProviderModelError e) \<and> mr_toolResults req = []
       then (case attempts of 0 \<Rightarrow> ((resp, Some e), w) | Suc n \<Rightarrow> generateRetry generate req n w)
       else ((resp, Some e), w))"

declare generateRetry.simps [simp del]

definition noteResponse :: "model_response \<Rightarrow> run_state \<Rightarrow> run_state" where
  "noteResponse resp s =
    (let s = (if mp_thinkingPresent resp then
           (let s = s\<lparr>thinkingPresent := True\<rparr>
            in if trim_space (mp_thinking resp) \<noteq> [] then s\<lparr>latestThinking := trim_space (mp_thinking resp)\<rparr> else s)
           else s);
         s = (if mp_toolParseFailure resp then s\<lparr>toolParseFailure := True\<rparr> else s)
     in if 0 < mp_promptTokens resp then s\<lparr>lastPromptTokens := mp_promptTokens resp\<rparr> else s)"

definition transientRecoveryDirective :: string where
  "transientRecoveryDirective = directive ''TRANSIENT_MODEL_ERROR_RECOVERY''
    [''Your previous model turn ended with a transient provider interruption after tool work.'',
     ''Do not call tools in this recovery turn.'',
     ''Use the latest tool results to answer the user directly.'',
     ''If the tool results are incomplete, say what remains and mention that the stream was interrupted.'']"

definition handleModelError ::
    "'w runner \<Rightarrow> 'w run_input \<Rightarrow> go_error \<Rightarrow> run_state \<Rightarrow> 'w \<Rightarrow> 'w step" where
  "handleModelError r input e s w =
    (let s = with_flags s in
     if isContextCanceledModelError (rn_ctxCanceled r w) e then Return s (Some ContextCanceled) w
     else if toolResults s \<noteq> [] then
       (let (t, w) = (if isTransientProviderModelError e
              then finalizeFromToolResults (rn_model r) input s transientRecoveryDirective w else ([], w))
        in if t \<noteq> [] then Return (with_text (trim_space t) s) None w
           else Return (with_text (recoverFromModelError e (toolResults s) (toolCap s)) s) None w)
     else if ri_onTextDelta input \<and> (isTransientProviderModelError e \<or> isProviderNoChoicesError e) then
       Return (with_text (recoverFromInterruptedStream e) s) None w
     else Return s (Some (RunErr e)) w)"

section \<open>A reply without tool calls\<close>

definition toolParseRetryCap :: int where "toolParseRetryCap = 4"
definition followThroughRepromptCap :: int where "followThroughRepromptCap = 5"

definition say :: "string \<Rightarrow> run_state \<Rightarrow> run_state" where
  "say t s = s\<lparr>messages := messages s @ [\<lparr>msg_role = ''assistant'', msg_content = t\<rparr>]\<rparr>"

definition say_trimmed :: "string \<Rightarrow> run_state \<Rightarrow> run_state" where
  "say_trimmed t s = (if trim_space t \<noteq> [] then say (trim_space t) s else s)"

definition emptyFinalDirective :: string where
  "emptyFinalDirective = directive ''EMPTY_FINAL_TEXT_RECOVERY''
    [''Your previous final response was empty.'',
     ''Provide a concise user-facing final answer from the latest tool results.'']"

definition answerWithoutTools ::
    "'w runner \<Rightarrow> 'w run_input \<Rightarrow> model_response \<Rightarrow> run_state \<Rightarrow> 'w \<Rightarrow> 'w step" where
  "answerWithoutTools r input resp s w =
    (if mp_toolParseFailure resp \<and> shouldRetryToolParseFailure (mp_finalText resp) (ri_allowedTools input) \<and>
        toolParseReprompts s < toolParseRetryCap
     then GoOn (say_trimmed (mp_finalText resp) (s\<lparr>toolParseReprompts := toolParseReprompts s + 1\<rparr>)) w
     else
      (let s = s\<lparr>toolParseReprompts := 0\<rparr> in
       if shouldForceFollowThrough (mp_finalText resp) (ri_allowedTools input) (toolResults s) then
         (if followThroughReprompts s < followThroughRepromptCap
          then GoOn (say_trimmed (mp_finalText resp) (s\<lparr>followThroughReprompts := followThroughReprompts s + 1\<rparr>)) w
          else returnText nonActionableFinalText s w)
       else
        (let t = trim_space (mp_finalText resp);
             (t, w) = (if t = [] \<and> toolResults s \<noteq> []
               then (case finalizeFromToolResults (rn_model r) input s emptyFinalDirective w of (f, w) \<Rightarrow> (trim_space f, w))
               else (t, w))
         in returnText (if t = [] then recoverFromEmptyFinal (toolResults s) else t) s w)))"

section \<open>Gating tool calls while delegating\<close>

definition maxToolRewriteBudget :: int where "maxToolRewriteBudget = 3"

definition isToolAllowedInDelegationMode :: "run_state \<Rightarrow> string \<Rightarrow> bool" where
  "isToolAllowedInDelegationMode s toolName =
     (delegationMode s = NoMode \<or> delegationMode s = PromptOnly \<or> toolName \<in> set [''agent.list'', ''agent.run''])"

definition rewriteToDelegation :: "tool_call \<Rightarrow> tool_call" where
  "rewriteToDelegation call =
    (let message = ''Delegation rewrite: the parent run attempted `'' @ tc_name call @ ''` with args '' @ tc_arguments call @
           '' but delegation mode only allows agent.run. Complete the underlying user-facing objective using the best '' @
           ''available approach. Do not repeat the same blocked tool path unchanged. Report what you did, what you '' @
           ''verified, and any remaining blocker.''
     in \<lparr>tc_id = tc_id call, tc_name = ''agent.run'',
         tc_arguments = marshal (JObj [(''agent_id'', JStr ''default''), (''message'', JStr message),
           (''task_id'', JStr (''auto-delegated-'' @ tc_id call)), (''thinking_mode'', JStr ''never'')])\<rparr>)"

definition emitDenied :: "tool_call \<Rightarrow> run_state \<Rightarrow> run_state" where
  "emitDenied call s = emitDecision ''tool_decision''
    (mput_all [(''tool'', PStr (trim_space (tc_name call))), (''tool_call_id'', PStr (trim_space (tc_id call))),
       (''decision'', PStr ''denied''), (''policy_reference'', PStr ''policy.delegation_mode''),
       (''reason'', PStr (''tool '' @ trim_space (tc_name call) @ '' is blocked while delegation mode is '' @
          mode_text (delegationMode s)))] mempty)
    (''Denied tool '' @ trim_space (tc_name call) @ '' due to delegation mode constraints.'') s"

definition budgetExceededText :: string where
  "budgetExceededText = ''DELEGATION_REWRITE_BUDGET_EXCEEDED: Task requires delegation but exceeded maximum rewrite attempts ('' @
     itoa maxToolRewriteBudget @ ''). The subagent keeps trying to use forbidden tools. Please break this task into smaller, independent subtasks manually.''"

text \<open>Running the pending subtasks at once; afterwards delegation is unlocked.\<close>

definition runPending :: "'w runner \<Rightarrow> 'w run_input \<Rightarrow> run_state \<Rightarrow> 'w \<Rightarrow> 'w step" where
  "runPending r input s w =
    (case executeDelegatedTasks r input (pendingSubtasks s) (s, w) of
       (Some e, s, w) \<Rightarrow> returnText (''Delegation failed: '' @ err_text e) s w
     | (None, s, w) \<Rightarrow> GoOn (s\<lparr>pendingSubtasks := [], delegationLocked := False, delegationMode := NoMode\<rparr>) w)"

fun gateCalls ::
    "'w runner \<Rightarrow> 'w run_input \<Rightarrow> tool_call list \<Rightarrow> tool_call list \<Rightarrow> run_state \<Rightarrow> 'w \<Rightarrow> tool_call list \<times> 'w step" where
  "gateCalls r input [] filtered s w = (filtered, GoOn s w)"
| "gateCalls r input (call # calls) filtered s w =
    (if isToolAllowedInDelegationMode s (tc_name call) then gateCalls r input calls (filtered @ [call]) s w
     else
      (let s = emitDenied call s in
       if maxToolRewriteBudget \<le> toolRewriteCount s then
         (if pendingSubtasks s \<noteq> [] then
            (case runPending r input s w of
               GoOn s w \<Rightarrow> gateCalls r input calls filtered s w
             | Return s e w \<Rightarrow> (filtered, Return s e w))
          else (filtered, returnText budgetExceededText s w))
       else if pendingSubtasks s \<noteq> [] then
         (case runPending r input s w of
            GoOn s w \<Rightarrow> gateCalls r input calls filtered s w
          | Return s e w \<Rightarrow> (filtered, Return s e w))
       else gateCalls r input calls (filtered @ [rewriteToDelegation call])
              (s\<lparr>toolRewriteCount := toolRewriteCount s + 1\<rparr>) w))"

text \<open>
  After gating. The code's branch for pending subtasks here is kept, though \<open>gateCalls\<close> leaves
  none pending when it drops a call.
\<close>

definition forcedNoCalls ::
    "'w runner \<Rightarrow> 'w run_input \<Rightarrow> model_response \<Rightarrow> run_state \<Rightarrow> 'w \<Rightarrow> 'w step option" where
  "forcedNoCalls r input resp s w =
    (if 1 \<le> noProgressIterations s \<and> pendingSubtasks s \<noteq> [] then Some (runPending r input s w)
     else if noProgressIterations s \<le> 1 then
       Some (GoOn (say (mp_finalText resp) (setLastModelOutput (mp_finalText resp) s)) w)
     else None)"

section \<open>After the tools\<close>

definition repeatedNoProgressLoopCapTrigger :: int where "repeatedNoProgressLoopCapTrigger = 3"
definition failureGuidanceEscalation :: int where "failureGuidanceEscalation = 3"

definition record_tool_name :: "tool_record \<Rightarrow> string" where
  "record_tool_name rec =
    (let name = trim_space (tc_name (rec_request rec)) in if name = [] then ''unknown.tool'' else name)"

definition sortedToolNames :: "(string, unit) gmap \<Rightarrow> string list" where
  "sortedToolNames values = take 6 (sort (mkeys values))"

definition updateLastIterationOutcome :: "nat \<Rightarrow> run_state \<Rightarrow> run_state" where
  "updateLastIterationOutcome callCount s =
    (let s = s\<lparr>lastIterationMixed := False, lastIterationSucceeded := [], lastIterationFailed := []\<rparr>;
         records = ro_toolCalls (out s)
     in if callCount = 0 \<or> length records < callCount then s
        else
         (let recent = drop (length records - callCount) records;
              names = (\<lambda>ok. fold (\<lambda>rec m. if (trim_space (tr_error (rec_result rec)) = []) = ok
                 then mput (record_tool_name rec) () m else m) recent mempty);
              succeeded = names True; failed = names False
          in if mkeys succeeded = [] \<or> mkeys failed = [] then s
             else s\<lparr>lastIterationMixed := True, lastIterationSucceeded := sortedToolNames succeeded,
                    lastIterationFailed := sortedToolNames failed\<rparr>))"

definition mutationRepeatDirective :: string where
  "mutationRepeatDirective = directive ''SUCCESSFUL_MUTATION_REPEAT_RECOVERY''
    [''A previous successful one-shot mutation was requested again.'',
     ''Do not call tools in this recovery turn.'',
     ''Finalize from the current successful tool results.'']"

text \<open>The counters of turns without progress; the batch's results are the last \<open>n\<close> ones.\<close>

definition noteProgress :: "outcome \<Rightarrow> nat \<Rightarrow> run_state \<Rightarrow> run_state" where
  "noteProgress oc n s =
    (if hadFreshExecution oc then s\<lparr>noProgressIterations := 0, allBlockedIterations := 0\<rparr>
     else
      (let s = s\<lparr>noProgressIterations := noProgressIterations s + 1\<rparr>;
           blocked = (0 < n \<and> list_all (\<lambda>tr. contains (tr_error tr) ''repetition detected'')
             (drop (length (toolResults s) - n) (toolResults s)))
       in if blocked then s\<lparr>allBlockedIterations := allBlockedIterations s + 1\<rparr>
          else s\<lparr>allBlockedIterations := 0\<rparr>))"

definition noProgressText :: "run_state \<Rightarrow> string" where
  "noProgressText s = fallbackFromNoProgressToolResults (toolResults s)"

definition afterTools ::
    "'w runner \<Rightarrow> 'w run_input \<Rightarrow> outcome \<Rightarrow> nat \<Rightarrow> run_state \<Rightarrow> 'w \<Rightarrow> 'w step" where
  "afterTools r input oc n s w =
    (case structuralBlockerTriggered (rn_map_order r) s of
       Some (cat, count) \<Rightarrow> returnText (formatStructuralBlockerEscalation cat count (toolResults s)) s w
     | None \<Rightarrow>
       if blockedSuccessfulOneShotMutation oc \<and> toolResults s \<noteq> [] then
         finalizeOr r input mutationRepeatDirective noProgressText s w
       else
        (let s = noteProgress oc n s in
         if 2 \<le> allBlockedIterations s \<and> toolResults s \<noteq> [] then finalizeOr r input [] noProgressText s w
         else if failureRecoveryActive s \<and> failureGuidanceEscalation \<le> failuresSinceRecovery s \<and>
             ro_toolCalls (out s) \<noteq> [] then
           returnText (finalizeAfterFailureEscalation (ri_message input) (ro_toolCalls (out s))) s w
         else if repeatedNoProgressLoopCapTrigger \<le> noProgressIterations s \<and> toolResults s \<noteq> [] then
           finalizeOr r input [] noProgressText s w
         else GoOn (s\<lparr>toolIterations := toolIterations s + 1\<rparr>) w))"

definition runTools ::
    "'w runner \<Rightarrow> 'w run_input \<Rightarrow> (tool_call \<Rightarrow> duration \<Rightarrow> 'w \<Rightarrow> (tool_result \<times> go_error option) \<times> 'w) \<Rightarrow>
     string \<Rightarrow> tool_call list \<Rightarrow> run_state \<Rightarrow> 'w \<Rightarrow> 'w step" where
  "runTools r input exec finalText calls s w =
    (let s = setLastModelOutput finalText s;
         (oc, s, w) = executeTools (rn_norm_url r) exec input calls (s, w);
         s = s\<lparr>toolParseReprompts := 0\<rparr>;
         s = updateLastIterationOutcome (length calls) s
     in afterTools r input oc (length calls) s w)"

section \<open>One turn and the run\<close>

definition capReached :: "'w runner \<Rightarrow> 'w run_input \<Rightarrow> run_state \<Rightarrow> 'w \<Rightarrow> 'w step" where
  "capReached r input s w =
    (if toolResults s \<noteq> []
     then finalizeOr r input [] (\<lambda>s. fallbackFromToolResults (toolResults s) (toolCap s)) s w
     else Return (with_flags s) (Some ToolIterationCapExceeded) w)"

definition handleToolCalls ::
    "'w runner \<Rightarrow> 'w run_input \<Rightarrow> model_response \<Rightarrow> run_state \<Rightarrow> 'w \<Rightarrow> 'w step" where
  "handleToolCalls r input resp s w =
    (case rn_toolExecutor r of
       None \<Rightarrow> Return (with_flags s) (Some ToolExecutorRequired) w
     | Some exec \<Rightarrow>
       if toolCap s \<le> toolIterations s then capReached r input s w
       else if delegationMode s = ToolGated \<or> delegationMode s = AutoExecute then
         (case gateCalls r input (mp_toolCalls resp) [] s w of
            (calls, Return s e w) \<Rightarrow> Return s e w
          | (calls, GoOn s w) \<Rightarrow>
            if calls = [] \<and> trim_space (mp_finalText resp) \<noteq> [] then
              (let s = s\<lparr>noProgressIterations := noProgressIterations s + 1\<rparr> in
               case forcedNoCalls r input resp s w of
                 Some st \<Rightarrow> st
               | None \<Rightarrow> runTools r input exec (mp_finalText resp) calls s w)
            else runTools r input exec (mp_finalText resp) calls s w)
       else runTools r input exec (mp_finalText resp) (mp_toolCalls resp) s w)"

definition turn :: "'w runner \<Rightarrow> 'w run_input \<Rightarrow> 'w generate \<Rightarrow> run_state \<Rightarrow> 'w \<Rightarrow> 'w step" where
  "turn r input generate s w =
    (let (systemPrompt, w) = prepareSystemPrompt input s w in
     case delegationStep r input systemPrompt s w of
       (systemPrompt, Return s e w) \<Rightarrow> Return s e w
     | (systemPrompt, GoOn s w) \<Rightarrow>
       (let ((resp, err), w) = generateRetry generate (turn_request input systemPrompt s) 3 w;
            s = noteResponse resp s
        in case err of Some e \<Rightarrow> handleModelError r input e s w
           | None \<Rightarrow>
             if mp_toolCalls resp = [] then answerWithoutTools r input resp s w
             else handleToolCalls r input resp s w))"

fun runTurns ::
    "nat \<Rightarrow> 'w runner \<Rightarrow> 'w run_input \<Rightarrow> 'w generate \<Rightarrow> run_state \<Rightarrow> 'w \<Rightarrow> (run_state \<times> run_error option \<times> 'w) option" where
  "runTurns 0 r input generate s w = None"
| "runTurns (Suc fuel) r input generate s w =
    (case turn r input generate s w of
       Return s e w \<Rightarrow> Some (s, e, w)
     | GoOn s w \<Rightarrow> runTurns fuel r input generate s w)"

definition runFuel :: "int \<Rightarrow> nat" where
  "runFuel cap = nat (10 * cap + 60)"

definition runLoop ::
    "'w runner \<Rightarrow> 'w run_input \<Rightarrow> 'w generate \<Rightarrow> run_state \<Rightarrow> 'w \<Rightarrow> (run_state \<times> run_error option \<times> 'w) option" where
  "runLoop r input generate s w =
    map_option (\<lambda>(s, e, w). (emitTerminationDecision e s, e, w))
      (runTurns (runFuel (toolCap s)) r input generate (runPrologue input s) w)"

definition run :: "'w runner \<Rightarrow> 'w run_input \<Rightarrow> 'w \<Rightarrow> (run_output \<times> run_error option \<times> 'w) option" where
  "run r input w =
    (case rn_model r of
       None \<Rightarrow> Some (emptyOutput, Some ModelRequired, w)
     | Some generate \<Rightarrow>
       map_option (\<lambda>(s, e, w). (out s, e, w)) (runLoop r input generate (newRunState input r) w))"

end
