(* ===== verification/Run_Tools_Facts.thy ===== *)
theory Run_Tools_Facts
  imports Run_Tools
begin

text \<open>
  What a batch of tool calls does, for every executor: the frames of the small operations, the two
  ways a call ends (answered by a guard, or executed), one record and one result per call, and the
  invariant \<open>log_ok\<close> of the calls that reach the executor.
\<close>

section \<open>Frames\<close>

named_theorems frame \<open>what an operation leaves alone\<close>

lemma emitDecision_frame [frame]:
  "out (emitDecision t p m s) = out s"
  "toolResults (emitDecision t p m s) = toolResults s"
  "usedToolCallIDs (emitDecision t p m s) = usedToolCallIDs s"
  "toolCallOrdinal (emitDecision t p m s) = toolCallOrdinal s"
  "toolTimeout (emitDecision t p m s) = toolTimeout s"
  "repetitionPrevention (emitDecision t p m s) = repetitionPrevention s"
  "successfulOneShotMutations (emitDecision t p m s) = successfulOneShotMutations s"
  "cachedToolResults (emitDecision t p m s) = cachedToolResults s"
  "cachedFailedToolResults (emitDecision t p m s) = cachedFailedToolResults s"
  "failedToolCallCounts (emitDecision t p m s) = failedToolCallCounts s"
  "failedToolCallErrors (emitDecision t p m s) = failedToolCallErrors s"
  by (simp_all add: emitDecision_def Let_def split: option.split)

lemma emitToolDecision_frame [frame]:
  "out (emitToolDecision c r s) = out s"
  "toolResults (emitToolDecision c r s) = toolResults s"
  "usedToolCallIDs (emitToolDecision c r s) = usedToolCallIDs s"
  "toolCallOrdinal (emitToolDecision c r s) = toolCallOrdinal s"
  "toolTimeout (emitToolDecision c r s) = toolTimeout s"
  "repetitionPrevention (emitToolDecision c r s) = repetitionPrevention s"
  "successfulOneShotMutations (emitToolDecision c r s) = successfulOneShotMutations s"
  "cachedToolResults (emitToolDecision c r s) = cachedToolResults s"
  "cachedFailedToolResults (emitToolDecision c r s) = cachedFailedToolResults s"
  "failedToolCallCounts (emitToolDecision c r s) = failedToolCallCounts s"
  "failedToolCallErrors (emitToolDecision c r s) = failedToolCallErrors s"
  by (simp_all add: emitToolDecision_def Let_def frame)

lemma registerToolOutcome_frame [frame]:
  "out (registerToolOutcome e s) = out s"
  "toolResults (registerToolOutcome e s) = toolResults s"
  "usedToolCallIDs (registerToolOutcome e s) = usedToolCallIDs s"
  "toolCallOrdinal (registerToolOutcome e s) = toolCallOrdinal s"
  "toolTimeout (registerToolOutcome e s) = toolTimeout s"
  "repetitionPrevention (registerToolOutcome e s) = repetitionPrevention s"
  "successfulOneShotMutations (registerToolOutcome e s) = successfulOneShotMutations s"
  "cachedToolResults (registerToolOutcome e s) = cachedToolResults s"
  "cachedFailedToolResults (registerToolOutcome e s) = cachedFailedToolResults s"
  "failedToolCallCounts (registerToolOutcome e s) = failedToolCallCounts s"
  "failedToolCallErrors (registerToolOutcome e s) = failedToolCallErrors s"
  by (simp_all add: registerToolOutcome_def Let_def)

lemma add_record_frame [frame]:
  "ro_toolCalls (out (add_record rec r s)) = ro_toolCalls (out s) @ [rec]"
  "toolResults (add_record rec r s) = toolResults s @ [r]"
  "usedToolCallIDs (add_record rec r s) = usedToolCallIDs s"
  "toolCallOrdinal (add_record rec r s) = toolCallOrdinal s"
  "toolTimeout (add_record rec r s) = toolTimeout s"
  "repetitionPrevention (add_record rec r s) = repetitionPrevention s"
  "successfulOneShotMutations (add_record rec r s) = successfulOneShotMutations s"
  "cachedToolResults (add_record rec r s) = cachedToolResults s"
  "cachedFailedToolResults (add_record rec r s) = cachedFailedToolResults s"
  "failedToolCallCounts (add_record rec r s) = failedToolCallCounts s"
  "failedToolCallErrors (add_record rec r s) = failedToolCallErrors s"
  by (simp_all add: add_record_def)

lemma mark_one_shot_frame [frame]:
  "out (mark_one_shot k s) = out s"
  "toolResults (mark_one_shot k s) = toolResults s"
  "usedToolCallIDs (mark_one_shot k s) = usedToolCallIDs s"
  "repetitionPrevention (mark_one_shot k s) = repetitionPrevention s"
  "cachedToolResults (mark_one_shot k s) = cachedToolResults s"
  "cachedFailedToolResults (mark_one_shot k s) = cachedFailedToolResults s"
  "failedToolCallCounts (mark_one_shot k s) = failedToolCallCounts s"
  "failedToolCallErrors (mark_one_shot k s) = failedToolCallErrors s"
  by (simp_all add: mark_one_shot_def split: option.split)

lemma recordCacheable_frame [frame]:
  "out (recordCacheable ck k r s) = out s"
  "toolResults (recordCacheable ck k r s) = toolResults s"
  "usedToolCallIDs (recordCacheable ck k r s) = usedToolCallIDs s"
  "repetitionPrevention (recordCacheable ck k r s) = repetitionPrevention s"
  by (simp_all add: recordCacheable_def Let_def frame)

lemma recordUncacheable_frame [frame]:
  "out (snd (recordUncacheable c k r s)) = out s"
  "toolResults (snd (recordUncacheable c k r s)) = toolResults s"
  "usedToolCallIDs (snd (recordUncacheable c k r s)) = usedToolCallIDs s"
  "repetitionPrevention (snd (recordUncacheable c k r s)) = repetitionPrevention s"
  "cachedToolResults (snd (recordUncacheable c k r s)) = cachedToolResults s"
  "cachedFailedToolResults (snd (recordUncacheable c k r s)) = cachedFailedToolResults s"
  "failedToolCallCounts (snd (recordUncacheable c k r s)) = failedToolCallCounts s"
  "failedToolCallErrors (snd (recordUncacheable c k r s)) = failedToolCallErrors s"
  by (simp_all add: recordUncacheable_def Let_def frame)

lemma notify_record:
  "rec_request (fst (notifyToolCall rec f w)) = rec_request rec"
  "rec_result (fst (notifyToolCall rec f w)) = rec_result rec"
  by (auto simp: notifyToolCall_def split: option.split prod.split)

section \<open>The two ways a call ends\<close>

text \<open>The call with the id it gets, and the state in which its guards are asked.\<close>

definition prepare :: "tool_call \<Rightarrow> run_state \<Rightarrow> tool_call \<times> run_state" where
  "prepare incoming s =
    (let s = s\<lparr>toolCallOrdinal := toolCallOrdinal s + 1\<rparr>;
         (callID, used) = uniqueToolCallID (tc_id incoming) (toolCallOrdinal s) (usedToolCallIDs s)
     in (incoming\<lparr>tc_id := callID\<rparr>, s\<lparr>usedToolCallIDs := used\<rparr>))"

lemma prepare_call: "tc_name (fst (prepare c s)) = tc_name c" "tc_arguments (fst (prepare c s)) = tc_arguments c"
  by (simp_all add: prepare_def Let_def case_prod_beta)

definition counters_only :: "run_state \<Rightarrow> run_state \<Rightarrow> bool" where
  "counters_only s s' \<longleftrightarrow> (\<exists>m. s' = s\<lparr>repetitionPrevention := m\<rparr> \<and>
     (\<forall>k. mcount (repetitionPrevention s) k \<le> mcount m k))"

lemma mcount_mincr: "mcount (mincr k m) k' = (if k' = k then mcount m k + 1 else mcount m k')"
  by (simp add: mcount_def mincr_def gmap)

lemma counters_only_refl: "counters_only s s"
  by (auto simp: counters_only_def intro: exI [of _ "repetitionPrevention s"])

lemma counters_only_trans: "counters_only s s' \<Longrightarrow> counters_only s' s'' \<Longrightarrow> counters_only s s''"
proof -
  assume a: "counters_only s s'" and b: "counters_only s' s''"
  obtain m where m: "s' = s\<lparr>repetitionPrevention := m\<rparr>" "\<And>k. mcount (repetitionPrevention s) k \<le> mcount m k"
    using a unfolding counters_only_def by blast
  obtain m' where m': "s'' = s'\<lparr>repetitionPrevention := m'\<rparr>" "\<And>k. mcount (repetitionPrevention s') k \<le> mcount m' k"
    using b unfolding counters_only_def by blast
  have "s'' = s\<lparr>repetitionPrevention := m'\<rparr>" using m(1) m'(1) by simp
  moreover have "mcount (repetitionPrevention s) k \<le> mcount m' k" for k
    using m(2) [of k] m'(2) [of k] m(1) by simp
  ultimately show ?thesis unfolding counters_only_def by blast
qed

lemma counters_only_mincr:
  "counters_only s (s\<lparr>repetitionPrevention := mincr k (repetitionPrevention s)\<rparr>)"
  by (auto simp: counters_only_def mcount_mincr)

lemma repetitionGuard_counters: "counters_only s (snd (repetitionGuard call k s))"
  by (auto simp: repetitionGuard_def Let_def counters_only_refl counters_only_mincr split: option.split)

lemma agentCreateGuard_counters: "counters_only s (snd (agentCreateGuard call s))"
proof -
  have "counters_only s (s\<lparr>repetitionPrevention := mincr b (mincr a (repetitionPrevention s))\<rparr>)" for a b
    using counters_only_trans [OF counters_only_mincr [of s a] counters_only_mincr [of _ b]] by simp
  then show ?thesis
    by (auto simp: agentCreateGuard_def Let_def counters_only_refl counters_only_mincr)
qed

lemma executeCall_cases:
  assumes "executeCall nu exec input incoming (oc, s, w) = (oc', s', w')"
  obtains (answered) call s0 s1 r where
      "prepare incoming s = (call, s0)" "counters_only s0 s1" "(s', w') = answerCall input call r (s1, w)"
      "hadFreshExecution oc' = hadFreshExecution oc"
    | (executed) call s0 s1 s2 fresh where
      "prepare incoming s = (call, s0)"
      "oneShotGuard call (oneShotMutationRepetitionKey (tc_name call) (tc_arguments call)) s0 = None"
      "repetitionGuard call (oneShotMutationRepetitionKey (tc_name call) (tc_arguments call)) s0 = (None, s1)"
      "cacheGuard call (toolCallCacheKey nu call) s1 = None"
      "agentCreateGuard call s1 = (None, s2)"
      "executeFresh exec input call (toolCallCacheKey nu call)
         (oneShotMutationRepetitionKey (tc_name call) (tc_arguments call)) (s2, w) = (fresh, s', w')"
      "oc' = (if fresh then oc\<lparr>hadFreshExecution := True\<rparr> else oc)"
proof -
  obtain call s0 where p: "prepare incoming s = (call, s0)" by force
  let ?k = "oneShotMutationRepetitionKey (tc_name call) (tc_arguments call)"
  let ?ck = "toolCallCacheKey nu call"
  obtain g1 s1 where g1: "repetitionGuard call ?k s0 = (g1, s1)" by force
  obtain g2 s2 where g2: "agentCreateGuard call s1 = (g2, s2)" by force
  obtain fresh s3 w3 where ex: "executeFresh exec input call ?ck ?k (s2, w) = (fresh, s3, w3)"
    by (metis prod.exhaust)
  have c1: "counters_only s0 s1" using repetitionGuard_counters [of s0 call ?k] g1 by simp
  have c2: "counters_only s0 s2"
    using counters_only_trans [OF c1] agentCreateGuard_counters [of s1 call] g2 by simp
  have pd: "call = fst (prepare incoming s)" "s0 = snd (prepare incoming s)" using p by simp_all
  have eq: "executeCall nu exec input incoming (oc, s, w) =
     (case oneShotGuard call ?k s0 of
       Some result \<Rightarrow> (oc\<lparr>blockedSuccessfulOneShotMutation := True\<rparr>, answerCall input call result (s0, w))
     | None \<Rightarrow>
       (case g1 of
          Some result \<Rightarrow>
            ((case ?k of
                Some key \<Rightarrow> if mhas (successfulOneShotMutations s1) key
                  then oc\<lparr>blockedSuccessfulOneShotMutation := True\<rparr> else oc
              | None \<Rightarrow> oc), answerCall input call result (s1, w))
        | None \<Rightarrow>
          (case cacheGuard call ?ck s1 of
             Some result \<Rightarrow> (oc, answerCall input call result (s1, w))
           | None \<Rightarrow>
             (case g2 of
                Some result \<Rightarrow> (oc, answerCall input call result (s2, w))
              | None \<Rightarrow> (if fresh then oc\<lparr>hadFreshExecution := True\<rparr> else oc, s3, w3)))))"
    unfolding executeCall_def using p g1 g2 ex
    by (auto simp: prepare_def Let_def case_prod_beta split: option.split)
  show ?thesis
  proof (cases "oneShotGuard call ?k s0")
    case (Some r)
    with eq assms answered [OF p counters_only_refl] show ?thesis by auto
  next
    case N1: None
    show ?thesis
    proof (cases g1)
      case (Some r)
      with eq N1 assms answered [OF p c1, of r] show ?thesis by (auto split: option.splits if_splits)
    next
      case N2: None
      show ?thesis
      proof (cases "cacheGuard call ?ck s1")
        case (Some r)
        with eq N1 N2 assms answered [OF p c1, of r] show ?thesis by auto
      next
        case N3: None
        show ?thesis
        proof (cases g2)
          case (Some r)
          with eq N1 N2 N3 assms answered [OF p c2, of r] show ?thesis by auto
        next
          case N4: None
          with eq N1 N2 N3 assms ex p g1 g2 show ?thesis by (intro executed) auto
        qed
      qed
    qed
  qed
qed

section \<open>One record and one result per call\<close>

lemma unique_from_fresh: "1 \<le> n \<Longrightarrow> \<not> mhas used (unique_from base used n)"
  by (induction base used n rule: unique_from.induct) (simp add: unique_from.simps)

lemma prepare_spec:
  assumes "prepare incoming s = (call, s0)"
  shows "call = incoming\<lparr>tc_id := tc_id call\<rparr>" "\<not> mhas (usedToolCallIDs s) (tc_id call)"
    "s0 = s\<lparr>toolCallOrdinal := toolCallOrdinal s + 1,
        usedToolCallIDs := mput (tc_id call) () (usedToolCallIDs s)\<rparr>"
  using assms unique_from_fresh
  by (auto simp: prepare_def uniqueToolCallID_def Let_def)

lemma answerCall_record:
  assumes "(s', w') = answerCall input call r (s, w)"
  shows "\<exists>rec. rec_request rec = call \<and> rec_result rec = r \<and>
    ro_toolCalls (out s') = ro_toolCalls (out s) @ [rec] \<and> toolResults s' = toolResults s @ [r]"
    "usedToolCallIDs s' = usedToolCallIDs s" "repetitionPrevention s' = repetitionPrevention s"
    "successfulOneShotMutations s' = successfulOneShotMutations s"
    "cachedToolResults s' = cachedToolResults s"
  using assms
  by (auto simp: answerCall_def Let_def case_prod_beta frame
      intro!: exI [of _ "fst (notifyToolCall \<lparr>rec_request = call, rec_result = r, rec_callbackErr = []\<rparr> (ri_onToolCall input) w)"]
      notify_record [of "\<lparr>rec_request = call, rec_result = r, rec_callbackErr = []\<rparr>", simplified])

lemma executeFresh_record:
  assumes "executeFresh exec input call ck k (s, w) = (fresh, s', w')"
  shows "\<exists>rec. rec_request rec = call \<and>
    rec_result rec = executedResult call (toolTimeout s) (fst (exec call (toolTimeout s) w)) \<and>
    ro_toolCalls (out s') = ro_toolCalls (out s) @ [rec] \<and> toolResults s' = toolResults s @ [rec_result rec]"
    "usedToolCallIDs s' = usedToolCallIDs s" "repetitionPrevention s' = repetitionPrevention s"
  using assms
  by (auto simp: executeFresh_def Let_def case_prod_beta frame notify_record split: if_splits)

lemma executeCall_record:
  assumes "executeCall nu exec input incoming (oc, s, w) = (oc', s', w')"
  shows "\<exists>rec. ro_toolCalls (out s') = ro_toolCalls (out s) @ [rec] \<and>
    toolResults s' = toolResults s @ [rec_result rec] \<and>
    tc_name (rec_request rec) = tc_name incoming \<and> tc_arguments (rec_request rec) = tc_arguments incoming \<and>
    tc_id (rec_request rec) \<notin> dom (mget (usedToolCallIDs s)) \<and>
    dom (mget (usedToolCallIDs s')) = insert (tc_id (rec_request rec)) (dom (mget (usedToolCallIDs s)))"
  using assms
proof (cases rule: executeCall_cases)
  case (answered call s0 s1 r)
  obtain m where m: "s1 = s0\<lparr>repetitionPrevention := m\<rparr>" using answered(2) by (auto simp: counters_only_def)
  note p = prepare_spec [OF answered(1)]
  obtain rec where rec: "rec_request rec = call" "rec_result rec = r"
    "ro_toolCalls (out s') = ro_toolCalls (out s1) @ [rec]" "toolResults s' = toolResults s1 @ [r]"
    using answerCall_record(1) [OF answered(3)] by blast
  have "tc_name call = tc_name incoming" "tc_arguments call = tc_arguments incoming"
    by (subst p(1), simp)+
  then show ?thesis
    using rec p(2,3) m answerCall_record(2) [OF answered(3)]
    by (intro exI [of _ rec]) (auto simp: mhas_def gmap dom_def)
next
  case (executed call s0 s1 s2 fresh)
  have "counters_only s0 s1"
    using repetitionGuard_counters [of s0 call "oneShotMutationRepetitionKey (tc_name call) (tc_arguments call)"]
      executed(3) by simp
  moreover have "counters_only s1 s2" using agentCreateGuard_counters [of s1 call] executed(5) by simp
  ultimately obtain m where m: "s2 = s0\<lparr>repetitionPrevention := m\<rparr>"
    using counters_only_trans by (auto simp: counters_only_def)
  note p = prepare_spec [OF executed(1)]
  obtain rec where rec: "rec_request rec = call" "ro_toolCalls (out s') = ro_toolCalls (out s2) @ [rec]"
    "toolResults s' = toolResults s2 @ [rec_result rec]"
    using executeFresh_record(1) [OF executed(6)] by blast
  have "tc_name call = tc_name incoming" "tc_arguments call = tc_arguments incoming"
    by (subst p(1), simp)+
  then show ?thesis
    using rec p(2,3) m executeFresh_record(2) [OF executed(6)]
    by (intro exI [of _ rec]) (auto simp: mhas_def gmap dom_def)
qed

definition call_text :: "tool_call \<Rightarrow> string \<times> string" where
  "call_text c = (tc_name c, tc_arguments c)"

definition batch_records :: "run_state \<Rightarrow> run_state \<Rightarrow> tool_call list \<Rightarrow> tool_record list \<Rightarrow> bool" where
  "batch_records s s' calls recs \<longleftrightarrow>
     ro_toolCalls (out s') = ro_toolCalls (out s) @ recs \<and>
     toolResults s' = toolResults s @ map rec_result recs \<and>
     map (call_text \<circ> rec_request) recs = map call_text calls \<and>
     distinct (map (tc_id \<circ> rec_request) recs) \<and>
     (tc_id \<circ> rec_request) ` set recs \<inter> dom (mget (usedToolCallIDs s)) = {} \<and>
     dom (mget (usedToolCallIDs s')) = (tc_id \<circ> rec_request) ` set recs \<union> dom (mget (usedToolCallIDs s))"

lemma fold_executeCall_records:
  "fold (executeCall nu exec input) calls (oc, s, w) = (oc', s', w') \<Longrightarrow> \<exists>recs. batch_records s s' calls recs"
proof (induction calls arbitrary: oc s w)
  case Nil
  then show ?case by (intro exI [of _ "[]"]) (simp add: batch_records_def)
next
  case (Cons c calls)
  obtain oc1 s1 w1 where e: "executeCall nu exec input c (oc, s, w) = (oc1, s1, w1)"
    by (metis prod.exhaust)
  obtain rec where rec: "ro_toolCalls (out s1) = ro_toolCalls (out s) @ [rec]"
      "toolResults s1 = toolResults s @ [rec_result rec]" "call_text (rec_request rec) = call_text c"
      "tc_id (rec_request rec) \<notin> dom (mget (usedToolCallIDs s))"
      "dom (mget (usedToolCallIDs s1)) = insert (tc_id (rec_request rec)) (dom (mget (usedToolCallIDs s)))"
    using executeCall_record [OF e] by (auto simp: call_text_def)
  obtain recs where recs: "batch_records s1 s' calls recs"
    using Cons.IH [of oc1 s1 w1] Cons.prems e by auto
  have "batch_records s s' (c # calls) (rec # recs)"
    using recs rec unfolding batch_records_def by auto
  then show ?case by blast
qed

section \<open>What reaches the tool executor\<close>

type_synonym call_log = "(tool_call \<times> tool_result) list"

text \<open>The executor and the callbacks over a world that also keeps the executed calls.\<close>

definition logged ::
    "(tool_call \<Rightarrow> duration \<Rightarrow> 'w \<Rightarrow> (tool_result \<times> go_error option) \<times> 'w) \<Rightarrow>
     tool_call \<Rightarrow> duration \<Rightarrow> call_log \<times> 'w \<Rightarrow> (tool_result \<times> go_error option) \<times> call_log \<times> 'w" where
  "logged exec call t lw =
     (let (re, w) = exec call t (snd lw) in (re, fst lw @ [(call, executedResult call t re)], w))"

definition logged_callback ::
    "(tool_record \<Rightarrow> 'w \<Rightarrow> string option \<times> 'w) \<Rightarrow> tool_record \<Rightarrow> call_log \<times> 'w \<Rightarrow> string option \<times> call_log \<times> 'w" where
  "logged_callback f r lw = (let (e, w) = f r (snd lw) in (e, fst lw, w))"

definition log_input :: "'w run_input \<Rightarrow> (call_log \<times> 'w) run_input" where
  "log_input i = \<lparr>ri_agentID = ri_agentID i, ri_runID = ri_runID i, ri_parentRunID = ri_parentRunID i,
     ri_message = ri_message i, ri_source = ri_source i, ri_messages = ri_messages i,
     ri_artifactDocs = ri_artifactDocs i, ri_perFileByteLimit = ri_perFileByteLimit i,
     ri_maxToolIterations = ri_maxToolIterations i, ri_toolTimeoutMS = ri_toolTimeoutMS i,
     ri_allowedTools = ri_allowedTools i, ri_autoDelegate = ri_autoDelegate i,
     ri_delegationMode = ri_delegationMode i, ri_delegationApproved = ri_delegationApproved i,
     ri_decisionLedger = ri_decisionLedger i,
     ri_onToolCall = map_option logged_callback (ri_onToolCall i),
     ri_systemPromptExt = map_option
       (\<lambda>f p ms m rs src lw. let (t, w) = f p ms m rs src (snd lw) in (t, fst lw, w)) (ri_systemPromptExt i),
     ri_onTextDelta = ri_onTextDelta i\<rparr>"

lemma notify_log:
  "fst (snd (notifyToolCall rec (ri_onToolCall (log_input input)) lw)) = fst lw"
  by (auto simp: log_input_def notifyToolCall_def logged_callback_def case_prod_beta split: option.split)

definition one_shot_key :: "tool_call \<Rightarrow> string option" where
  "one_shot_key c = oneShotMutationRepetitionKey (tc_name c) (tc_arguments c)"

text \<open>The cap under which the repetition guard counts a call; one-shot mutations mostly pass it.\<close>

definition capped_key :: "tool_call \<Rightarrow> (string \<times> int) option" where
  "capped_key c = (if one_shot_key c = None \<or> tc_name c = ''agent.identity.set''
     then repeatedCallRepetitionKey c else None)"

definition creates_agent :: "tool_call \<Rightarrow> bool" where
  "creates_agent c \<longleftrightarrow> tc_name c = ''agent.create'' \<or> tc_name c = ''agents.create''"

abbreviation succeeded :: "tool_result \<Rightarrow> bool" where
  "succeeded r \<equiv> trim_space (tr_error r) = []"

definition executed_entry :: "(string \<Rightarrow> string) \<Rightarrow> run_state \<Rightarrow> tool_call \<Rightarrow> tool_result \<Rightarrow> run_state \<Rightarrow> bool" where
  "executed_entry nu s call r s' \<longleftrightarrow>
     (\<forall>k. one_shot_key call = Some k \<longrightarrow> \<not> mhas (successfulOneShotMutations s) k \<and>
        (succeeded r \<longrightarrow> mhas (successfulOneShotMutations s') k)) \<and>
     (\<forall>k cap. capped_key call = Some (k, cap) \<longrightarrow>
        mcount (repetitionPrevention s) k < cap \<and>
        mcount (repetitionPrevention s) k < mcount (repetitionPrevention s') k) \<and>
     (creates_agent call \<longrightarrow>
        mcount (repetitionPrevention s) ''agent.create|total'' < agentCreateGlobalCap \<and>
        mcount (repetitionPrevention s) ''agent.create|total'' <
          mcount (repetitionPrevention s') ''agent.create|total'') \<and>
     (toolCallCacheKey nu call \<noteq> ''|'' \<longrightarrow> \<not> mhas (cachedToolResults s) (toolCallCacheKey nu call) \<and>
        (succeeded r \<longrightarrow> mhas (cachedToolResults s') (toolCallCacheKey nu call)))"

definition tables_grow :: "run_state \<Rightarrow> run_state \<Rightarrow> bool" where
  "tables_grow s s' \<longleftrightarrow>
     (\<forall>k. mhas (successfulOneShotMutations s) k \<longrightarrow> mhas (successfulOneShotMutations s') k) \<and>
     (\<forall>k. mcount (repetitionPrevention s) k \<le> mcount (repetitionPrevention s') k) \<and>
     (\<forall>k. mhas (cachedToolResults s) k \<longrightarrow> mhas (cachedToolResults s') k)"

definition one_shot_tools :: "string list" where
  "one_shot_tools = [''scheduler.add'', ''scheduler.remove'', ''scheduler.pause'', ''scheduler.resume'',
     ''policy.grant'', ''policy.revoke'', ''session.close'', ''agent.switch'', ''agent.identity.set'', ''config.set'']"

lemma one_shot_name: "oneShotMutationRepetitionKey n a = Some k \<Longrightarrow> trim_space n \<in> set one_shot_tools"
  by (rule ccontr) (auto simp: oneShotMutationRepetitionKey_def one_shot_tools_def Let_def split: option.splits)

lemma one_shot_cacheable:
  assumes "one_shot_key c = Some k"
  shows "toolCallCacheKey nu c \<noteq> ''|''"
proof -
  have n: "trim_space (tc_name c) \<in> set one_shot_tools"
    using assms one_shot_name by (simp add: one_shot_key_def)
  then have ne: "tc_name c \<noteq> []" by (auto simp: one_shot_tools_def)
  have "toolCallCacheKey nu c = bar [tc_name c, tc_arguments c]"
    using n by (auto simp: one_shot_tools_def toolCallCacheKey_def state_readers_def Let_def)
  with ne show ?thesis by (cases "tc_name c") (auto simp: bar_def)
qed

lemma answered_tables:
  assumes "prepare incoming s = (call, s0)" "counters_only s0 s1"
    and "(s', w') = answerCall input call r (s1, w)"
  shows "tables_grow s s'"
  using assms(2) prepare_spec(3) [OF assms(1)] answerCall_record(3-5) [OF assms(3)]
  by (auto simp: counters_only_def tables_grow_def)

lemma answered_log:
  assumes "(s', lw') = answerCall (log_input input) call r (s1, lw)"
  shows "fst lw' = fst lw"
  using assms by (auto simp: answerCall_def Let_def case_prod_beta notify_log)

lemma executed_log:
  assumes "executeFresh (logged exec) (log_input input) call ck k (s, lw) = (fresh, s', lw')"
  shows "\<exists>r. fst lw' = fst lw @ [(call, r)] \<and>
    (let s1 = registerToolOutcome (tr_error r) s in
     fresh = (if ck \<noteq> ''|'' then True else fst (recordUncacheable call k r s1)) \<and>
     repetitionPrevention s' = repetitionPrevention s \<and>
     successfulOneShotMutations s' = successfulOneShotMutations
       (if ck \<noteq> ''|'' then recordCacheable ck k r s1 else snd (recordUncacheable call k r s1)) \<and>
     cachedToolResults s' = cachedToolResults
       (if ck \<noteq> ''|'' then recordCacheable ck k r s1 else snd (recordUncacheable call k r s1)))"
proof -
  obtain re w1 where e: "exec call (toolTimeout s) (snd lw) = (re, w1)" by (metis prod.exhaust)
  show ?thesis
    using assms e
    by (intro exI [of _ "executedResult call (toolTimeout s) re"])
      (auto simp: executeFresh_def logged_def Let_def case_prod_beta frame notify_log split: if_splits)
qed

lemma mhas_mput: "mhas (mput k v m) k' \<longleftrightarrow> k' = k \<or> mhas m k'"
  by (simp add: mhas_def gmap)

lemma recordCacheable_tables:
  "successfulOneShotMutations (recordCacheable ck k r s) = (case k of Some key \<Rightarrow>
      if succeeded r then mput key () (successfulOneShotMutations s) else successfulOneShotMutations s
    | None \<Rightarrow> successfulOneShotMutations s)"
  "cachedToolResults (recordCacheable ck k r s) = (if succeeded r
      then mput ck \<lparr>tr_id = [], tr_output = tr_output r, tr_error = []\<rparr> (cachedToolResults s) else cachedToolResults s)"
  by (auto simp: recordCacheable_def Let_def frame mark_one_shot_def split: option.split)

lemma recordUncacheable_tables:
  "mhas (successfulOneShotMutations s) key \<Longrightarrow>
   mhas (successfulOneShotMutations (snd (recordUncacheable call k r s))) key"
  by (auto simp: recordUncacheable_def Let_def mark_one_shot_def mhas_def gmap split: option.split)

lemma executeCall_log:
  assumes "executeCall nu (logged exec) (log_input input) incoming (oc, s, lw) = (oc', s', lw')"
  shows "tables_grow s s' \<and> (fst lw' = fst lw \<or>
    (\<exists>call r. call_text call = call_text incoming \<and> fst lw' = fst lw @ [(call, r)] \<and> executed_entry nu s call r s'))"
  using assms
proof (cases rule: executeCall_cases)
  case (answered call s0 s1 r)
  then show ?thesis using answered_tables answered_log by metis
next
  case (executed call s0 s1 s2 fresh)
  let ?k = "oneShotMutationRepetitionKey (tc_name call) (tc_arguments call)"
  let ?ck = "toolCallCacheKey nu call"
  let ?total = "''agent.create|total''"
  note p = prepare_spec [OF executed(1)]
  have ct: "call_text call = call_text incoming" unfolding call_text_def by (subst p(1), subst p(1), simp)
  have c1: "counters_only s0 s1" using repetitionGuard_counters [of s0 call ?k] executed(3) by simp
  have c2: "counters_only s1 s2" using agentCreateGuard_counters [of s1 call] executed(5) by simp
  have t: "successfulOneShotMutations s2 = successfulOneShotMutations s"
      "cachedToolResults s2 = cachedToolResults s" "cachedToolResults s1 = cachedToolResults s"
      "successfulOneShotMutations s0 = successfulOneShotMutations s"
      "repetitionPrevention s0 = repetitionPrevention s"
    using c1 c2 p(3) by (auto simp: counters_only_def)
  have le: "mcount (repetitionPrevention s) k \<le> mcount (repetitionPrevention s1) k"
      "mcount (repetitionPrevention s1) k \<le> mcount (repetitionPrevention s2) k" for k
    using c1 c2 t(5) by (auto simp: counters_only_def)
  obtain r where r: "fst lw' = fst lw @ [(call, r)]"
      "repetitionPrevention s' = repetitionPrevention s2"
      "successfulOneShotMutations s' = successfulOneShotMutations (let s1 = registerToolOutcome (tr_error r) s2 in
        (if ?ck \<noteq> ''|'' then recordCacheable ?ck ?k r s1 else snd (recordUncacheable call ?k r s1)))"
      "cachedToolResults s' = cachedToolResults (let s1 = registerToolOutcome (tr_error r) s2 in
        (if ?ck \<noteq> ''|'' then recordCacheable ?ck ?k r s1 else snd (recordUncacheable call ?k r s1)))"
    using executed_log [OF executed(6)] by (auto simp: Let_def)
  have grow: "tables_grow s s'"
    using r t le order_trans [OF le] unfolding tables_grow_def
    by (auto simp: Let_def recordCacheable_tables recordUncacheable_tables frame mhas_mput split: option.split)
  have one: "\<not> mhas (successfulOneShotMutations s) k \<and> (succeeded r \<longrightarrow> mhas (successfulOneShotMutations s') k)"
    if "one_shot_key call = Some k" for k
    using that executed(2) t r(3) one_shot_cacheable [OF that, of nu]
    by (auto simp: oneShotGuard_def one_shot_key_def recordCacheable_tables frame mhas_mput Let_def split: if_splits)
  have cap: "mcount (repetitionPrevention s) k < cap \<and>
      mcount (repetitionPrevention s) k < mcount (repetitionPrevention s') k"
    if "capped_key call = Some (k, cap)" for k cap
  proof -
    have "mcount (repetitionPrevention s1) k = mcount (repetitionPrevention s) k + 1 \<and>
        mcount (repetitionPrevention s1) k \<le> cap"
      using that executed(3) t(5)
      by (auto simp: capped_key_def one_shot_key_def repetitionGuard_def mcount_mincr Let_def split: if_splits)
    with le(2) [of k] r(2) show ?thesis by simp
  qed
  have create: "mcount (repetitionPrevention s) ?total < agentCreateGlobalCap \<and>
      mcount (repetitionPrevention s) ?total < mcount (repetitionPrevention s') ?total"
    if "creates_agent call"
  proof -
    have "mcount (repetitionPrevention s1) ?total < mcount (repetitionPrevention s2) ?total \<and>
        mcount (repetitionPrevention s2) ?total \<le> agentCreateGlobalCap"
      using that executed(5)
      by (auto simp: creates_agent_def agentCreateGuard_def mcount_mincr Let_def split: if_splits)
    with le(1) [of ?total] r(2) show ?thesis by simp
  qed
  have cache: "\<not> mhas (cachedToolResults s) ?ck \<and> (succeeded r \<longrightarrow> mhas (cachedToolResults s') ?ck)"
    if "?ck \<noteq> ''|''"
    using that executed(4) t r(4)
    by (auto simp: cacheGuard_def recordCacheable_tables frame mhas_mput mhas_def [of "cachedToolResults s"] Let_def
        split: option.splits)
  show ?thesis using grow ct r(1) one cap create cache unfolding executed_entry_def by blast
qed

section \<open>What the log of executed calls satisfies\<close>

definition once_per_key :: "('a \<Rightarrow> string option) \<Rightarrow> ('a \<times> tool_result) list \<Rightarrow> bool" where
  "once_per_key key L = sorted_wrt (\<lambda>e e'. key (fst e) = None \<or> key (fst e) \<noteq> key (fst e') \<or> \<not> succeeded (snd e)) L"

definition cache_key :: "(string \<Rightarrow> string) \<Rightarrow> tool_call \<Rightarrow> string option" where
  "cache_key nu c = (if toolCallCacheKey nu c = ''|'' then None else Some (toolCallCacheKey nu c))"

definition capped_entries :: "string \<Rightarrow> int \<Rightarrow> call_log \<Rightarrow> int" where
  "capped_entries k cap L = int (length (filter (\<lambda>e. capped_key (fst e) = Some (k, cap)) L))"

definition agent_creations :: "call_log \<Rightarrow> int" where
  "agent_creations L = int (length (filter (\<lambda>e. creates_agent (fst e)) L))"

definition log_ok :: "(string \<Rightarrow> string) \<Rightarrow> run_state \<Rightarrow> run_state \<Rightarrow> call_log \<Rightarrow> bool" where
  "log_ok nu s0 s L \<longleftrightarrow>
     once_per_key one_shot_key L \<and>
     (\<forall>e \<in> set L. \<forall>k. one_shot_key (fst e) = Some k \<and> succeeded (snd e) \<longrightarrow> mhas (successfulOneShotMutations s) k) \<and>
     once_per_key (cache_key nu) L \<and>
     (\<forall>e \<in> set L. \<forall>k. cache_key nu (fst e) = Some k \<and> succeeded (snd e) \<longrightarrow> mhas (cachedToolResults s) k) \<and>
     (\<forall>k cap. capped_entries k cap L \<le> max 0 (cap - mcount (repetitionPrevention s0) k) \<and>
        mcount (repetitionPrevention s0) k + capped_entries k cap L \<le> mcount (repetitionPrevention s) k) \<and>
     agent_creations L \<le> max 0 (agentCreateGlobalCap - mcount (repetitionPrevention s0) ''agent.create|total'') \<and>
     mcount (repetitionPrevention s0) ''agent.create|total'' + agent_creations L \<le>
       mcount (repetitionPrevention s) ''agent.create|total''"

lemma log_ok_start: "log_ok nu s s []"
  by (simp add: log_ok_def once_per_key_def capped_entries_def agent_creations_def)

lemma log_ok_grow:
  assumes "log_ok nu s0 s L" and "tables_grow s s'"
  shows "log_ok nu s0 s' L"
proof -
  have m: "mcount (repetitionPrevention s0) k + capped_entries k cap L \<le> mcount (repetitionPrevention s') k" for k cap
    using assms unfolding log_ok_def tables_grow_def by (meson order_trans)
  have c: "mcount (repetitionPrevention s0) ''agent.create|total'' + agent_creations L \<le>
       mcount (repetitionPrevention s') ''agent.create|total''"
    using assms unfolding log_ok_def tables_grow_def by (meson order_trans)
  show ?thesis using assms m c unfolding log_ok_def tables_grow_def by blast
qed

lemma once_per_key_snoc:
  assumes "once_per_key key L"
    and "\<And>e k. e \<in> set L \<Longrightarrow> key (fst e) = Some k \<Longrightarrow> succeeded (snd e) \<Longrightarrow> key c \<noteq> Some k"
  shows "once_per_key key (L @ [(c, r)])"
  using assms by (fastforce simp: once_per_key_def sorted_wrt_append)

lemma log_ok_executed:
  assumes ok: "log_ok nu s0 s L" and grow: "tables_grow s s'" and e: "executed_entry nu s c r s'"
  shows "log_ok nu s0 s' (L @ [(c, r)])"
proof -
  let ?t = "''agent.create|total''"
  have ok': "log_ok nu s0 s' L" using ok grow by (rule log_ok_grow)
  have one: "once_per_key one_shot_key (L @ [(c, r)])"
    using ok e unfolding log_ok_def executed_entry_def by (intro once_per_key_snoc) blast+
  have cache: "once_per_key (cache_key nu) (L @ [(c, r)])"
    using ok e unfolding log_ok_def executed_entry_def
    by (intro once_per_key_snoc) (auto simp: cache_key_def split: if_splits)
  have caps: "capped_entries k cap (L @ [(c, r)]) \<le> max 0 (cap - mcount (repetitionPrevention s0) k) \<and>
      mcount (repetitionPrevention s0) k + capped_entries k cap (L @ [(c, r)]) \<le> mcount (repetitionPrevention s') k"
    for k cap
  proof (cases "capped_key c = Some (k, cap)")
    case True
    then have "mcount (repetitionPrevention s) k < cap"
        "mcount (repetitionPrevention s) k < mcount (repetitionPrevention s') k"
      using e unfolding executed_entry_def by blast+
    moreover have "mcount (repetitionPrevention s0) k + capped_entries k cap L \<le> mcount (repetitionPrevention s) k"
      using ok unfolding log_ok_def by blast
    ultimately show ?thesis using True by (simp add: capped_entries_def)
  next
    case False
    then have "capped_entries k cap (L @ [(c, r)]) = capped_entries k cap L" by (simp add: capped_entries_def)
    with ok' show ?thesis unfolding log_ok_def by simp
  qed
  have creations: "agent_creations (L @ [(c, r)]) \<le> max 0 (agentCreateGlobalCap - mcount (repetitionPrevention s0) ?t) \<and>
      mcount (repetitionPrevention s0) ?t + agent_creations (L @ [(c, r)]) \<le> mcount (repetitionPrevention s') ?t"
  proof (cases "creates_agent c")
    case True
    then have "mcount (repetitionPrevention s) ?t < agentCreateGlobalCap"
        "mcount (repetitionPrevention s) ?t < mcount (repetitionPrevention s') ?t"
      using e unfolding executed_entry_def by blast+
    moreover have "mcount (repetitionPrevention s0) ?t + agent_creations L \<le> mcount (repetitionPrevention s) ?t"
      using ok unfolding log_ok_def by blast
    ultimately show ?thesis using True by (simp add: agent_creations_def)
  next
    case False
    then have "agent_creations (L @ [(c, r)]) = agent_creations L" by (simp add: agent_creations_def)
    with ok' show ?thesis unfolding log_ok_def by simp
  qed
  have new: "mhas (successfulOneShotMutations s') k" if "one_shot_key c = Some k" "succeeded r" for k
    using e that unfolding executed_entry_def by blast
  have newc: "mhas (cachedToolResults s') k" if "cache_key nu c = Some k" "succeeded r" for k
    using e that unfolding executed_entry_def by (auto simp: cache_key_def split: if_splits)
  show ?thesis using ok' one cache caps creations new newc unfolding log_ok_def by auto
qed

lemma log_ok_call:
  assumes "executeCall nu (logged exec) (log_input input) c (oc, s, lw) = (oc', s', lw')"
    and "log_ok nu s0 s (fst lw)"
  shows "log_ok nu s0 s' (fst lw')"
proof -
  from executeCall_log [OF assms(1)] have grow: "tables_grow s s'"
    and "fst lw' = fst lw \<or> (\<exists>call r. call_text call = call_text c \<and> fst lw' = fst lw @ [(call, r)] \<and>
       executed_entry nu s call r s')" by blast+
  then show ?thesis
  proof (elim disjE exE conjE)
    assume "fst lw' = fst lw"
    then show ?thesis using log_ok_grow [OF assms(2) grow] by simp
  next
    fix call r
    assume "fst lw' = fst lw @ [(call, r)]" "executed_entry nu s call r s'"
    then show ?thesis using log_ok_executed [OF assms(2) grow, of call r] by simp
  qed
qed

lemma log_ok_batch:
  assumes "fold (executeCall nu (logged exec) (log_input input)) calls (oc, s, lw) = (oc', s', lw')"
    and "log_ok nu s0 s (fst lw)"
  shows "log_ok nu s0 s' (fst lw')"
  using assms
proof (induction calls arbitrary: oc s lw)
  case (Cons c calls)
  obtain oc1 s1 lw1 where e: "executeCall nu (logged exec) (log_input input) c (oc, s, lw) = (oc1, s1, lw1)"
    by (metis prod.exhaust)
  with Cons.IH [of oc1 s1 lw1] Cons.prems log_ok_call [OF e] show ?case by simp
qed simp

text \<open>
  C20: A batch of tool calls appends, in order, exactly one record and one result per call, with
  the call's name and arguments; the call ids recorded are pairwise different and new in the run.
\<close>

theorem batch_answered:
  "case executeTools nu exec input calls (s, w) of (oc, s', w') \<Rightarrow>
     \<exists>recs. ro_toolCalls (out s') = ro_toolCalls (out s) @ recs \<and>
       toolResults s' = toolResults s @ map rec_result recs \<and>
       map (\<lambda>rec. (tc_name (rec_request rec), tc_arguments (rec_request rec))) recs =
         map (\<lambda>c. (tc_name c, tc_arguments c)) calls \<and>
       distinct (map (\<lambda>rec. tc_id (rec_request rec)) recs) \<and>
       (\<lambda>rec. tc_id (rec_request rec)) ` set recs \<inter> dom (mget (usedToolCallIDs s)) = {}"
proof -
  obtain oc s' w' where e: "executeTools nu exec input calls (s, w) = (oc, s', w')" by (metis prod.exhaust)
  obtain recs where "batch_records s s' calls recs"
    using fold_executeCall_records [OF e [unfolded executeTools_def]] by blast
  then have "ro_toolCalls (out s') = ro_toolCalls (out s) @ recs \<and>
       toolResults s' = toolResults s @ map rec_result recs \<and>
       map (\<lambda>rec. (tc_name (rec_request rec), tc_arguments (rec_request rec))) recs =
         map (\<lambda>c. (tc_name c, tc_arguments c)) calls \<and>
       distinct (map (\<lambda>rec. tc_id (rec_request rec)) recs) \<and>
       (\<lambda>rec. tc_id (rec_request rec)) ` set recs \<inter> dom (mget (usedToolCallIDs s)) = {}"
    unfolding batch_records_def call_text_def by (simp add: o_def)
  with e show ?thesis by auto
qed

end
