(* ===== verification/Run_Loop_Facts.thy ===== *)
theory Run_Loop_Facts
  imports Run_Loop Run_Tools_Facts
begin

text \<open>
  Termination of a run. \<open>tool_view\<close> is the part of the state the tool engine reads, \<open>loop_view\<close> the
  counters the loop is bounded by; the collection \<open>views\<close> says which operations keep both. \<open>turns_left\<close>
  is the measure: every turn that goes on makes it smaller, so the fuel of \<open>runLoop\<close> is enough.
\<close>

section \<open>What the tools and the loop counters depend on\<close>

definition tool_view where
  "tool_view s = (ro_toolCalls (out s), toolResults s, usedToolCallIDs s, successfulOneShotMutations s,
     repetitionPrevention s, cachedToolResults s)"

definition loop_view where
  "loop_view s = (toolIterations s, toolCap s, followThroughReprompts s, toolParseReprompts s, noProgressIterations s)"

named_theorems views \<open>operations that keep both views\<close>

lemma emitDecision_views [views]:
  "tool_view (emitDecision t p m s) = tool_view s" "loop_view (emitDecision t p m s) = loop_view s"
  by (simp_all add: emitDecision_def Let_def tool_view_def loop_view_def split: option.split)

lemma event_views [views]:
  "tool_view (recordDelegationEvent e s) = tool_view s" "loop_view (recordDelegationEvent e s) = loop_view s"
proof -
  have "tool_view (appendDelegationEvent e s) = tool_view s" "loop_view (appendDelegationEvent e s) = loop_view s"
    by (simp_all add: appendDelegationEvent_def Let_def tool_view_def loop_view_def)
  then show "tool_view (recordDelegationEvent e s) = tool_view s" "loop_view (recordDelegationEvent e s) = loop_view s"
    by (simp_all add: recordDelegationEvent_def emitDelegationTriggerDecision_def Let_def views)
qed

lemma small_views [views]:
  "tool_view (complete k v s) = tool_view s" "loop_view (complete k v s) = loop_view s"
  "tool_view (put_artifact k v s) = tool_view s" "loop_view (put_artifact k v s) = loop_view s"
  "tool_view (emitDelegationTriggerDecision pl m s) = tool_view s"
  "loop_view (emitDelegationTriggerDecision pl m s) = loop_view s"
  "tool_view (with_flags s) = tool_view s" "loop_view (with_flags s) = loop_view s"
  "tool_view (with_text t s) = tool_view s" "loop_view (with_text t s) = loop_view s"
  "tool_view (setLastModelOutput t s) = tool_view s" "loop_view (setLastModelOutput t s) = loop_view s"
  "tool_view (say t s) = tool_view s" "loop_view (say t s) = loop_view s"
  "tool_view (say_trimmed t s) = tool_view s" "loop_view (say_trimmed t s) = loop_view s"
  "tool_view (noteResponse resp s) = tool_view s" "loop_view (noteResponse resp s) = loop_view s"
  "tool_view (emitDenied c s) = tool_view s" "loop_view (emitDenied c s) = loop_view s"
  "tool_view (updateLastIterationOutcome n s) = tool_view s" "loop_view (updateLastIterationOutcome n s) = loop_view s"
  "tool_view (runPrologue input s) = tool_view s" "loop_view (runPrologue input s) = loop_view s"
  "tool_view (emitTerminationDecision e s) = tool_view s" "loop_view (emitTerminationDecision e s) = loop_view s"
  by (simp_all add: complete_def put_artifact_def emitDelegationTriggerDecision_def with_flags_def with_text_def
      setLastModelOutput_def say_def say_trimmed_def noteResponse_def emitDenied_def views
      updateLastIterationOutcome_def runPrologue_def emitTerminationDecision_def Let_def)
    (simp_all add: tool_view_def loop_view_def)

lemma fold_views:
  assumes "\<And>x s. tool_view (f x s) = tool_view s" "\<And>x s. loop_view (f x s) = loop_view s"
  shows "tool_view (fold f xs s) = tool_view s" "loop_view (fold f xs s) = loop_view s"
  using assms by (induction xs arbitrary: s) simp_all

lemma delegation_views [views]:
  "tool_view (appendPlannedDelegationEvents plan s) = tool_view s"
  "loop_view (appendPlannedDelegationEvents plan s) = loop_view s"
  "tool_view (emitRoleSelections plan s) = tool_view s" "loop_view (emitRoleSelections plan s) = loop_view s"
  "tool_view (subtask_succeeded i t so s) = tool_view s" "loop_view (subtask_succeeded i t so s) = loop_view s"
  "tool_view (subtask_failed i t so m s) = tool_view s" "loop_view (subtask_failed i t so m s) = loop_view s"
  "tool_view (emitTaskDecisions t s) = tool_view s" "loop_view (emitTaskDecisions t s) = loop_view s"
  by (simp_all add: appendPlannedDelegationEvents_def emitRoleSelections_def subtask_succeeded_def
      subtask_failed_def emitTaskDecisions_def fold_views views Let_def)

lemma attemptSubtask_views [views]:
  "tool_view (fst (attemptSubtask sub i t m n sw)) = tool_view (fst sw) \<and>
   loop_view (fst (attemptSubtask sub i t m n sw)) = loop_view (fst sw)"
  by (induction sub i t m n sw rule: attemptSubtask.induct) (auto simp: views Let_def split: prod.splits)

lemma runSubtask_views [views]:
  "tool_view (fst (snd (runSubtask sub i t sw))) = tool_view (fst sw) \<and>
   loop_view (fst (snd (runSubtask sub i t sw))) = loop_view (fst sw)"
  by (auto simp: runSubtask_def views Let_def split: prod.splits dependency_check.splits)

lemma runSubtasks_views [views]:
  "tool_view (fst (snd (runSubtasks sub i ts sw))) = tool_view (fst sw) \<and>
   loop_view (fst (snd (runSubtasks sub i ts sw))) = loop_view (fst sw)"
proof (induction sub i ts sw rule: runSubtasks.induct)
  case (2 sub i t ts sw)
  then show ?case using runSubtask_views [of sub i t sw] by (auto split: prod.splits option.splits)
qed simp

lemma set_plan_views:
  "tool_view (s\<lparr>out := (out s)\<lparr>ro_decompositionPlan := p\<rparr>\<rparr>) = tool_view s"
  "loop_view (s\<lparr>out := (out s)\<lparr>ro_decompositionPlan := p\<rparr>\<rparr>) = loop_view s"
  "tool_view (s\<lparr>out := (out s)\<lparr>ro_finalText := t\<rparr>\<rparr>) = tool_view s"
  "loop_view (s\<lparr>out := (out s)\<lparr>ro_finalText := t\<rparr>\<rparr>) = loop_view s"
  by (simp_all add: tool_view_def loop_view_def)

lemma executeDelegatedTasks_views:
  assumes "executeDelegatedTasks r i ts (s, w) = (e, s', w')"
  shows "tool_view s' = tool_view s" "loop_view s' = loop_view s"
proof -
  have "tool_view s' = tool_view s \<and> loop_view s' = loop_view s"
    using assms unfolding executeDelegatedTasks_def
    by (auto simp: Let_def views set_plan_views split: option.splits sum.splits prod.splits if_splits
        dest: arg_cong [where f = "\<lambda>x. (tool_view (fst (snd x)), loop_view (fst (snd x)))"])
  then show "tool_view s' = tool_view s" "loop_view s' = loop_view s" by simp_all
qed

fun st_state :: "'w step \<Rightarrow> run_state" where
  "st_state (GoOn s w) = s" | "st_state (Return s e w) = s"

fun st_world :: "'w step \<Rightarrow> 'w" where
  "st_world (GoOn s w) = w" | "st_world (Return s e w) = w"

abbreviation same_views :: "run_state \<Rightarrow> run_state \<Rightarrow> bool" where
  "same_views s' s \<equiv> tool_view s' = tool_view s \<and> loop_view s' = loop_view s"

lemma delegation_fields_views [views]:
  "tool_view (s\<lparr>delegationReason := x\<rparr>) = tool_view s" "loop_view (s\<lparr>delegationReason := x\<rparr>) = loop_view s"
  "tool_view (s\<lparr>delegationLocked := b\<rparr>) = tool_view s" "loop_view (s\<lparr>delegationLocked := b\<rparr>) = loop_view s"
  "tool_view (s\<lparr>delegationCooldown := c\<rparr>) = tool_view s" "loop_view (s\<lparr>delegationCooldown := c\<rparr>) = loop_view s"
  "tool_view (s\<lparr>toolRewriteCount := c\<rparr>) = tool_view s" "loop_view (s\<lparr>toolRewriteCount := c\<rparr>) = loop_view s"
  "tool_view (s\<lparr>pendingSubtasks := ts, delegationLocked := b, delegationMode := m\<rparr>) = tool_view s"
  "loop_view (s\<lparr>pendingSubtasks := ts, delegationLocked := b, delegationMode := m\<rparr>) = loop_view s"
  "tool_view (s\<lparr>delegationMode := m, delegationCooldown := c, pendingSubtasks := ts, delegationActive := b\<rparr>) = tool_view s"
  "loop_view (s\<lparr>delegationMode := m, delegationCooldown := c, pendingSubtasks := ts, delegationActive := b\<rparr>) = loop_view s"
  "tool_view (s\<lparr>out := (out s)\<lparr>ro_decompositionPlan := p\<rparr>, pendingSubtasks := ts, delegationActive := b\<rparr>) = tool_view s"
  "loop_view (s\<lparr>out := (out s)\<lparr>ro_decompositionPlan := p\<rparr>, pendingSubtasks := ts, delegationActive := b\<rparr>) = loop_view s"
  by (simp_all add: tool_view_def loop_view_def)

lemma returnText_state [simp]: "st_state (returnText t s w) = with_flags (with_text t s)"
  "st_world (returnText t s w) = w"
  by (simp_all add: returnText_def)

lemma finalizeOr_views: "same_views (st_state (finalizeOr r i d f s w)) s"
  by (simp add: finalizeOr_def Let_def case_prod_beta views)

lemma returnDelegated_views: "same_views (st_state (returnDelegated r i ts s w)) s"
proof -
  obtain e s' w' where e: "executeDelegatedTasks r i ts (s, w) = (e, s', w')" by (metis prod.exhaust)
  with executeDelegatedTasks_views [OF e] show ?thesis
    by (simp add: returnDelegated_def views split: option.split)
qed

lemma runPending_views: "same_views (st_state (runPending r i s w)) s"
proof -
  obtain e s' w' where e: "executeDelegatedTasks r i (pendingSubtasks s) (s, w) = (e, s', w')" by (metis prod.exhaust)
  with executeDelegatedTasks_views [OF e] show ?thesis
    by (simp add: runPending_def views split: option.split)
qed

lemma activatePlan_views [views]:
  "tool_view (activatePlan i plan ts s) = tool_view s" "loop_view (activatePlan i plan ts s) = loop_view s"
  by (simp_all add: activatePlan_def Let_def views)

lemma plannerTakesOver_views: "same_views (st_state (plannerTakesOver r i tr s w)) s"
  by (auto simp: plannerTakesOver_def Let_def returnDelegated_views views split: sum.split prod.split)

lemma suggestPlan_views: "same_views (suggestPlan m tr s) s"
  by (auto simp: suggestPlan_def views set_plan_views split: sum.split)

lemma announceTrigger_views [views]:
  "tool_view (announceTrigger i tr sn s) = tool_view s" "loop_view (announceTrigger i tr sn s) = loop_view s"
  by (simp_all add: announceTrigger_def Let_def suggestPlan_views views)

lemma constrain_views [views]: "tool_view (constrain tr s) = tool_view s" "loop_view (constrain tr s) = loop_view s"
  by (simp_all add: constrain_def Let_def views)

lemma applyTrigger_views: "same_views (st_state (snd (applyTrigger r i tr p s w))) s"
  by (simp add: applyTrigger_def Let_def returnDelegated_views views)

lemma computeDelegationTrigger_views:
  "computeDelegationTrigger mo p cw sn s = (t, s') \<Longrightarrow> same_views s' s"
  by (auto simp: computeDelegationTrigger_def Let_def views split: if_splits option.splits)

lemma delegationStep_views: "same_views (st_state (snd (delegationStep r i p s w))) s"
proof -
  obtain t s1 where c: "computeDelegationTrigger (rn_map_order r) (lastPromptTokens s) (contextWindow s) (takeSnapshot s) s = (t, s1)"
    by force
  have s1: "same_views s1 s" by (rule computeDelegationTrigger_views [OF c])
  show ?thesis
  proof (cases t)
    case None
    with c s1 show ?thesis by (simp add: delegationStep_def Let_def)
  next
    case (Some tr)
    with c s1 show ?thesis
      by (simp add: delegationStep_def Let_def plannerTakesOver_views applyTrigger_views views)
  qed
qed

lemma gateCalls_views: "same_views (st_state (snd (gateCalls r i calls fs s w))) s"
proof (induction r i calls fs s w rule: gateCalls.induct)
  case (1 r i fs s w)
  then show ?case by simp
next
  case (2 r i call calls fs s w)
  let ?d = "emitDenied call s"
  show ?case
  proof (cases "isToolAllowedInDelegationMode s (tc_name call)")
    case True
    with 2(1) show ?thesis by simp
  next
    case blocked: False
    show ?thesis
    proof (cases "runPending r i ?d w")
      case (GoOn s2 w2)
      with 2(2-4) [OF blocked refl] blocked runPending_views [of r i ?d w] show ?thesis
        by (auto simp: views Let_def)
    next
      case (Return s2 e w2)
      with 2(4) [OF blocked refl] blocked runPending_views [of r i ?d w] show ?thesis
        by (auto simp: views Let_def)
    qed
  qed
qed

section \<open>A batch keeps the loop counters\<close>

lemma tool_ops_loop_view:
  "loop_view (registerToolOutcome e s) = loop_view s" "loop_view (add_record rec r s) = loop_view s"
  "loop_view (emitToolDecision c r s) = loop_view s" "loop_view (recordCacheable ck k r s) = loop_view s"
  "loop_view (snd (recordUncacheable c k r s)) = loop_view s"
  "loop_view (s\<lparr>repetitionPrevention := m\<rparr>) = loop_view s"
  by (simp_all add: registerToolOutcome_def add_record_def emitToolDecision_def recordCacheable_def
      recordUncacheable_def mark_one_shot_def Let_def views split: option.split)
    (simp_all add: loop_view_def)

lemma executeCall_loop_view:
  assumes "executeCall nu exec input incoming (oc, s, w) = (oc', s', w')"
  shows "loop_view s' = loop_view s"
  using assms
proof (cases rule: executeCall_cases)
  case (answered call s0 s1 r)
  have "loop_view s1 = loop_view s"
    using answered(2) prepare_spec(3) [OF answered(1)]
    by (auto simp: counters_only_def loop_view_def)
  with answered(3) show ?thesis
    by (auto simp: answerCall_def Let_def case_prod_beta tool_ops_loop_view)
next
  case (executed call s0 s1 s2 fresh)
  have "counters_only s0 s1"
    using repetitionGuard_counters [of s0 call "oneShotMutationRepetitionKey (tc_name call) (tc_arguments call)"]
      executed(3) by simp
  moreover have "counters_only s1 s2" using agentCreateGuard_counters [of s1 call] executed(5) by simp
  ultimately have "loop_view s2 = loop_view s"
    using counters_only_trans prepare_spec(3) [OF executed(1)] by (auto simp: counters_only_def loop_view_def)
  with executed(6) show ?thesis
    by (auto simp: executeFresh_def Let_def case_prod_beta tool_ops_loop_view split: if_splits)
qed

lemma fold_executeCall_loop_view:
  "fold (executeCall nu exec input) calls (oc, s, w) = (oc', s', w') \<Longrightarrow> loop_view s' = loop_view s"
proof (induction calls arbitrary: oc s w)
  case (Cons c calls)
  obtain oc1 s1 w1 where e: "executeCall nu exec input c (oc, s, w) = (oc1, s1, w1)"
    by (metis prod.exhaust)
  with Cons.IH [of oc1 s1 w1] Cons.prems executeCall_loop_view [OF e] show ?case by simp
qed simp

section \<open>Every turn comes closer to the end\<close>

definition turns_left :: "run_state \<Rightarrow> int" where
  "turns_left s = 10 * (toolCap s - toolIterations s) + 10 * (followThroughRepromptCap - followThroughReprompts s)
     + (if noProgressIterations s \<le> 0 then 5 else 0) + (toolParseRetryCap - toolParseReprompts s)"

definition counters_ok :: "run_state \<Rightarrow> bool" where
  "counters_ok s \<longleftrightarrow> toolIterations s \<le> toolCap s \<and> followThroughReprompts s \<le> followThroughRepromptCap \<and>
     0 \<le> toolParseReprompts s \<and> toolParseReprompts s \<le> toolParseRetryCap \<and> 0 \<le> noProgressIterations s"

lemma loop_view_cong:
  "loop_view s' = loop_view s \<Longrightarrow> turns_left s' = turns_left s \<and> (counters_ok s' \<longleftrightarrow> counters_ok s) \<and>
     toolCap s' = toolCap s"
  by (simp add: loop_view_def turns_left_def counters_ok_def)

definition nearer :: "run_state \<Rightarrow> 'w step \<Rightarrow> bool" where
  "nearer s st \<longleftrightarrow> (case st of GoOn s' w' \<Rightarrow> turns_left s' < turns_left s \<and> counters_ok s' \<and> toolCap s' = toolCap s
     | Return s' e w' \<Rightarrow> True)"

lemma nearer_returnText [simp]: "nearer s (returnText t s' w)"
  by (simp add: nearer_def returnText_def)

lemma nearer_finalizeOr [simp]: "nearer s (finalizeOr r i d f s' w)"
  by (simp add: finalizeOr_def case_prod_beta)

lemma nearer_cong: "loop_view s' = loop_view s \<Longrightarrow> nearer s' st \<Longrightarrow> nearer s st"
  using loop_view_cong [of s' s] by (auto simp: nearer_def split: step.splits)

lemma afterTools_nearer:
  assumes "counters_ok s" "toolIterations s < toolCap s" "toolParseReprompts s = 0"
    and "loop_view s0 = (toolIterations s, toolCap s, followThroughReprompts s, p, noProgressIterations s)"
    and "0 \<le> p" "p \<le> toolParseRetryCap"
  shows "nearer s0 (afterTools r i oc n s w)"
proof -
  have "nearer s0 (GoOn (noteProgress oc n s\<lparr>toolIterations := toolIterations (noteProgress oc n s) + 1\<rparr>) w)"
    using assms
    by (auto simp: nearer_def noteProgress_def turns_left_def counters_ok_def loop_view_def toolParseRetryCap_def Let_def)
  then show ?thesis by (auto simp: afterTools_def Let_def split: option.split)
qed

lemma runTools_nearer:
  assumes "counters_ok s" "toolIterations s < toolCap s"
  shows "nearer s (runTools r i exec t calls s w)"
proof -
  obtain oc s1 w1 where e: "executeTools (rn_norm_url r) exec i calls (setLastModelOutput t s, w) = (oc, s1, w1)"
    by (metis prod.exhaust)
  have v: "loop_view s1 = loop_view s"
    using fold_executeCall_loop_view e by (fastforce simp: executeTools_def views)
  let ?s = "updateLastIterationOutcome (length calls) (s1\<lparr>toolParseReprompts := 0\<rparr>)"
  have v2: "loop_view ?s = (toolIterations s, toolCap s, followThroughReprompts s, 0, noProgressIterations s)"
    using v by (simp add: views) (simp add: loop_view_def)
  then have "counters_ok ?s" using assms(1) by (auto simp: loop_view_def counters_ok_def toolParseRetryCap_def)
  then have "nearer s (afterTools r i oc (length calls) ?s w1)"
    using v2 assms by (intro afterTools_nearer [where p = "toolParseReprompts s"])
      (auto simp: loop_view_def counters_ok_def)
  with e show ?thesis by (simp add: runTools_def Let_def)
qed

lemma emitDenied_pending [simp]: "pendingSubtasks (emitDenied c s) = pendingSubtasks s"
  by (simp add: emitDenied_def emitDecision_def Let_def split: option.split)

lemma runPending_done: "runPending r i s w = GoOn s' w' \<Longrightarrow> pendingSubtasks s' = []"
  by (auto simp: runPending_def returnText_def split: prod.splits option.splits)

text \<open>Whatever gating drops, it drops after running the pending subtasks: none is pending then.\<close>

lemma gateCalls_pending:
  "gateCalls r i calls fs s w = (fs', GoOn s' w') \<Longrightarrow>
   length fs \<le> length fs' \<and> (pendingSubtasks s = [] \<longrightarrow> pendingSubtasks s' = []) \<and>
   (length fs' < length fs + length calls \<longrightarrow> pendingSubtasks s' = [])"
proof (induction r i calls fs s w rule: gateCalls.induct)
  case (2 r i call calls fs s w)
  show ?case
  proof (cases "isToolAllowedInDelegationMode s (tc_name call)")
    case True
    with 2(1) 2(5) show ?thesis by fastforce
  next
    case blocked: False
    let ?d = "emitDenied call s"
    show ?thesis
    proof (cases "pendingSubtasks s = []")
      case True
      with blocked 2(4) [OF blocked refl] 2(5) show ?thesis
        by (auto simp: Let_def returnText_def split: if_splits)
    next
      case pend: False
      show ?thesis
      proof (cases "runPending r i ?d w")
        case (GoOn s2 w2)
        then have p: "pendingSubtasks s2 = []" by (rule runPending_done)
        have "gateCalls r i calls fs s2 w2 = (fs', GoOn s' w')"
          using 2(5) blocked pend GoOn by (auto simp: Let_def split: if_splits)
        then show ?thesis
          using 2(2) [OF blocked refl _ _ GoOn] 2(3) [OF blocked refl _ _ GoOn] pend p
          by (cases "maxToolRewriteBudget \<le> toolRewriteCount ?d") auto
      next
        case (Return s2 e w2)
        with 2(5) blocked pend show ?thesis by (auto simp: Let_def split: if_splits)
      qed
    qed
  qed
qed simp

lemma handleToolCalls_nearer:
  assumes ok: "counters_ok s" and calls: "mp_toolCalls resp \<noteq> []"
  shows "nearer s (handleToolCalls r i resp s w)"
proof (cases "rn_toolExecutor r")
  case None
  then show ?thesis by (simp add: handleToolCalls_def nearer_def)
next
  case (Some exec)
  show ?thesis
  proof (cases "toolCap s \<le> toolIterations s")
    case True
    with Some show ?thesis by (simp add: handleToolCalls_def capReached_def nearer_def [of s "Return _ _ _"])
  next
    case lt: False
    obtain fs st where g: "gateCalls r i (mp_toolCalls resp) [] s w = (fs, st)" by force
    show ?thesis
    proof (cases st)
      case (Return s2 e w2)
      with Some lt g ok show ?thesis
        by (auto simp: handleToolCalls_def nearer_def [of s "Return _ _ _"] intro: runTools_nearer)
    next
      case (GoOn s2 w2)
      have v: "loop_view s2 = loop_view s" using gateCalls_views [of r i "mp_toolCalls resp" "[]" s w] g GoOn by simp
      have ok2: "counters_ok s2" "toolIterations s2 < toolCap s2"
        using v ok lt loop_view_cong [OF v] by (auto simp: loop_view_def)
      have tools: "nearer s (runTools r i exec t fs s2 w2)" for t
        by (rule nearer_cong [OF v runTools_nearer [OF ok2]])
      let ?s3 = "s2\<lparr>noProgressIterations := noProgressIterations s2 + 1\<rparr>"
      have ok3: "counters_ok ?s3" "toolIterations ?s3 < toolCap ?s3" using ok2 by (auto simp: counters_ok_def)
      have forced: "nearer s (case forcedNoCalls r i resp ?s3 w2 of Some st \<Rightarrow> st
          | None \<Rightarrow> runTools r i exec (mp_finalText resp) fs ?s3 w2)" if "fs = []"
      proof -
        have "pendingSubtasks s2 = []"
          using gateCalls_pending g GoOn that calls by fastforce
        moreover have "nearer s (GoOn (say (mp_finalText resp) (setLastModelOutput (mp_finalText resp) ?s3)) w2)"
          if "noProgressIterations ?s3 \<le> 1"
          using that v ok2
          by (auto simp: nearer_def say_def setLastModelOutput_def Let_def loop_view_def turns_left_def counters_ok_def)
        moreover have "nearer s (runTools r i exec (mp_finalText resp) fs ?s3 w2)"
        proof -
          have n: "nearer ?s3 (runTools r i exec (mp_finalText resp) fs ?s3 w2)" by (rule runTools_nearer [OF ok3])
          have "turns_left ?s3 \<le> turns_left s" "toolCap ?s3 = toolCap s"
            using v ok2 by (auto simp: turns_left_def loop_view_def)
          with n show ?thesis by (auto simp: nearer_def split: step.splits)
        qed
        ultimately show ?thesis by (simp add: forcedNoCalls_def)
      qed
      have plain: "nearer s (runTools r i exec t cs s w)" for t cs
        by (rule runTools_nearer [OF ok]) (use lt in simp)
      show ?thesis using Some lt g GoOn tools forced plain by (auto simp: handleToolCalls_def Let_def)
    qed
  qed
qed

lemma answerWithoutTools_nearer:
  assumes "counters_ok s"
  shows "nearer s (answerWithoutTools r i resp s w)"
proof -
  have a: "nearer s (GoOn (say_trimmed t (s\<lparr>toolParseReprompts := toolParseReprompts s + 1\<rparr>)) w)"
    if "toolParseReprompts s < toolParseRetryCap" for t
    using assms that
    by (auto simp: nearer_def say_trimmed_def say_def turns_left_def counters_ok_def)
  have b: "nearer s (GoOn (say_trimmed t (s\<lparr>toolParseReprompts := 0, followThroughReprompts := followThroughReprompts s + 1\<rparr>)) w)"
    if "followThroughReprompts s < followThroughRepromptCap" for t
    using assms that
    by (auto simp: nearer_def say_trimmed_def say_def turns_left_def counters_ok_def toolParseRetryCap_def)
  show ?thesis using a b by (auto simp: answerWithoutTools_def Let_def split: prod.splits)
qed

lemma handleModelError_returns: "nearer s (handleModelError r i e s' w)"
  by (auto simp: handleModelError_def nearer_def Let_def split: prod.splits)

lemma turn_nearer:
  assumes ok: "counters_ok s"
  shows "nearer s (turn r i generate s w)"
proof -
  obtain p w1 where p: "prepareSystemPrompt i s w = (p, w1)" by force
  obtain p2 st where d: "delegationStep r i p s w1 = (p2, st)" by force
  show ?thesis
  proof (cases st)
    case (Return s2 e w2)
    with p d show ?thesis by (simp add: turn_def nearer_def)
  next
    case (GoOn s2 w2)
    obtain resp err w3 where g: "generateRetry generate (turn_request i p2 s2) 3 w2 = ((resp, err), w3)"
      by (metis prod.exhaust)
    let ?s = "noteResponse resp s2"
    have v: "loop_view ?s = loop_view s" using delegationStep_views [of r i p s w1] d GoOn by (simp add: views)
    have okn: "counters_ok ?s" using ok loop_view_cong [OF v] by simp
    have "nearer ?s (if mp_toolCalls resp = [] then answerWithoutTools r i resp ?s w3 else handleToolCalls r i resp ?s w3)"
      using answerWithoutTools_nearer [OF okn, of r i resp w3] handleToolCalls_nearer [OF okn, of resp r i w3] by simp
    then have "nearer s (if mp_toolCalls resp = [] then answerWithoutTools r i resp ?s w3 else handleToolCalls r i resp ?s w3)"
      by (rule nearer_cong [OF v])
    with p d GoOn g show ?thesis by (auto simp: turn_def handleModelError_returns Let_def split: option.split if_splits)
  qed
qed

lemma runTurns_returns:
  "counters_ok s \<Longrightarrow> turns_left s < int fuel \<Longrightarrow> runTurns fuel r i generate s w \<noteq> None"
proof (induction fuel arbitrary: s w)
  case 0
  then show ?case by (auto simp: turns_left_def counters_ok_def split: if_splits)
next
  case (Suc fuel)
  show ?case
  proof (cases "turn r i generate s w")
    case (GoOn s' w')
    with turn_nearer [OF Suc.prems(1), of r i generate w] have "counters_ok s'" "turns_left s' < turns_left s"
      by (simp_all add: nearer_def)
    with Suc.IH [of s' w'] Suc.prems(2) GoOn show ?thesis by simp
  qed simp
qed

lemma newRunState_counters:
  "counters_ok (newRunState input r)" "turns_left (newRunState input r) = 10 * toolCap (newRunState input r) + 59"
  "0 < toolCap (newRunState input r)"
  by (auto simp: newRunState_def Let_def counters_ok_def turns_left_def followThroughRepromptCap_def
      toolParseRetryCap_def)

lemma runTurns_more: "runTurns fuel r i generate s w = Some res \<Longrightarrow> runTurns (fuel + n) r i generate s w = Some res"
  by (induction fuel arbitrary: s w) (auto split: step.splits)

end
