(* ===== verification/Run_Invariants.thy ===== *)
theory Run_Invariants
  imports Run_Loop_Facts
begin

text \<open>
  Invariants of whole runs: the locale \<open>run_invariant\<close> lifts what every tool call keeps to the run,
  and is interpreted on the records of the run and on the log of the calls that reach the executor.
\<close>

section \<open>Invariants of a run\<close>

text \<open>
  What the run keeps of its tool state and of an observation of the world: the model, the
  sub-agents and the prompt extender leave the observation alone, every call keeps the invariant.
\<close>

locale run_invariant =
  fixes r :: "'w runner" and input :: "'w run_input" and obs :: "'w \<Rightarrow> 'o" and Inv :: "run_state \<Rightarrow> 'o \<Rightarrow> bool"
  assumes model_obs: "rn_model r = Some g \<Longrightarrow> obs (snd (g q w)) = obs w"
    and sub_obs: "rn_subAgentRunner r = Some sub \<Longrightarrow> obs (snd (sub t w)) = obs w"
    and ext_obs: "ri_systemPromptExt input = Some ext \<Longrightarrow> obs (snd (ext p ms m rs src w)) = obs w"
    and view_inv: "tool_view s' = tool_view s \<Longrightarrow> Inv s x \<Longrightarrow> Inv s' x"
    and call_inv: "rn_toolExecutor r = Some exec \<Longrightarrow>
      executeCall (rn_norm_url r) exec input c (oc, s, w) = (oc', s', w') \<Longrightarrow> Inv s (obs w) \<Longrightarrow> Inv s' (obs w')"
begin

abbreviation keeps :: "run_state \<Rightarrow> 'w \<Rightarrow> 'w step \<Rightarrow> bool" where
  "keeps s w st \<equiv> Inv s (obs w) \<longrightarrow> Inv (st_state st) (obs (st_world st))"

lemma inv_cong: "tool_view s' = tool_view s \<Longrightarrow> Inv s' x \<longleftrightarrow> Inv s x"
  using view_inv by metis

lemma flags_inv [simp]: "Inv (with_flags s) x \<longleftrightarrow> Inv s x" "Inv (with_text t s) x \<longleftrightarrow> Inv s x"
  by (rule inv_cong, simp add: views)+

lemma prepare_obs: "obs (snd (prepareSystemPrompt input s w)) = obs w"
  using ext_obs by (auto simp: prepareSystemPrompt_def Let_def case_prod_beta split: option.split)

lemma attempt_obs:
  "rn_subAgentRunner r = Some sub \<Longrightarrow> obs (snd (attemptSubtask sub input t m n sw)) = obs (snd sw)"
proof (induction n arbitrary: sw)
  case (Suc n)
  then show ?case using sub_obs [OF Suc.prems, of m "snd sw"]
    by (auto simp: Let_def case_prod_beta)
qed simp

lemma subtask_obs:
  "rn_subAgentRunner r = Some sub \<Longrightarrow> obs (snd (snd (runSubtask sub input t sw))) = obs (snd sw)"
  by (auto simp: runSubtask_def attempt_obs Let_def split: prod.splits dependency_check.splits)

lemma subtasks_obs:
  "rn_subAgentRunner r = Some sub \<Longrightarrow> obs (snd (snd (runSubtasks sub input ts sw))) = obs (snd sw)"
proof (induction ts arbitrary: sw)
  case (Cons t ts)
  then show ?case using subtask_obs [OF Cons.prems, of t sw] by (auto split: prod.splits option.splits)
qed simp

lemma delegated_obs:
  assumes "executeDelegatedTasks r input ts (s, w) = (e, s', w')"
  shows "obs w' = obs w"
proof (cases "rn_subAgentRunner r")
  case None
  with assms show ?thesis by (simp add: executeDelegatedTasks_def)
next
  case (Some sub)
  have "obs (snd (snd x)) = obs w" if "x = runSubtasks sub input ts' (s1, w)" for x ts' s1
    using subtasks_obs [OF Some] that by simp
  with assms Some show ?thesis
    by (auto simp: executeDelegatedTasks_def Let_def split: prod.splits sum.splits option.splits if_splits)
      (metis snd_conv subtasks_obs)+
qed

lemma finalize_obs: "obs (snd (finalizeFromToolResults (rn_model r) input s d w)) = obs w"
proof (cases "rn_model r")
  case (Some g)
  then show ?thesis using model_obs [OF Some] ext_obs
    by (auto simp: finalizeFromToolResults_def Let_def case_prod_beta split: option.split)
qed (simp add: finalizeFromToolResults_def)

lemma generate_obs: "rn_model r = Some g \<Longrightarrow> obs (snd (generateRetry g q n w)) = obs w"
proof (induction n arbitrary: w)
  case 0
  then show ?case using model_obs [OF 0, of q w]
    by (auto simp: generateRetry.simps split: prod.splits option.splits)
next
  case (Suc n)
  then show ?case using model_obs [OF Suc.prems, of q w]
    by (auto simp: generateRetry.simps [of g q "Suc n"] split: prod.splits option.splits)
qed

lemma viewI: "tool_view (st_state st) = tool_view s \<Longrightarrow> obs (st_world st) = obs w \<Longrightarrow> keeps s w st"
  using view_inv by metis

lemma finalizeOr_keeps: "keeps s w (finalizeOr r input d f s w)"
proof (rule viewI)
  show "obs (st_world (finalizeOr r input d f s w)) = obs w"
    using finalize_obs [of s d w] by (simp add: finalizeOr_def case_prod_beta)
qed (simp add: finalizeOr_views)

lemma returnDelegated_keeps: "keeps s w (returnDelegated r input ts s w)"
proof (rule viewI)
  obtain e s' w' where "executeDelegatedTasks r input ts (s, w) = (e, s', w')" by (metis prod.exhaust)
  with delegated_obs [OF this] show "obs (st_world (returnDelegated r input ts s w)) = obs w"
    by (simp add: returnDelegated_def split: option.split)
qed (simp add: returnDelegated_views)

lemma runPending_keeps: "keeps s w (runPending r input s w)"
proof (rule viewI)
  obtain e s' w' where "executeDelegatedTasks r input (pendingSubtasks s) (s, w) = (e, s', w')" by (metis prod.exhaust)
  with delegated_obs [OF this] show "obs (st_world (runPending r input s w)) = obs w"
    by (simp add: runPending_def split: option.split)
qed (simp add: runPending_views)

lemma keeps_cong: "tool_view s' = tool_view s \<Longrightarrow> obs w' = obs w \<Longrightarrow> keeps s' w' st \<Longrightarrow> keeps s w st"
  using view_inv by metis

lemma keeps_return: "tool_view s' = tool_view s \<Longrightarrow> obs w' = obs w \<Longrightarrow> keeps s w (Return s' e w')"
  using view_inv by simp

lemma keeps_text: "tool_view s' = tool_view s \<Longrightarrow> obs w' = obs w \<Longrightarrow> keeps s w (returnText t s' w')"
  using view_inv by (simp add: views)

lemma keeps_goOn: "tool_view s' = tool_view s \<Longrightarrow> obs w' = obs w \<Longrightarrow> keeps s w (GoOn s' w')"
  using view_inv by simp

end

context run_invariant
begin

lemma plannerTakesOver_keeps: "keeps s w (plannerTakesOver r input tr s w)"
proof (cases "generateDecompositionPlan (tg_reason tr) (normalizeDelegationMode (ri_delegationMode input)) (tg_subtasks tr)")
  case (Inl e)
  then show ?thesis by (simp add: plannerTakesOver_def)
next
  case (Inr pp)
  obtain plan planned where pp: "pp = (plan, planned)" by force
  have v: "tool_view (activatePlan input plan planned s) = tool_view s" by (simp add: views)
  show ?thesis
    using Inr pp keeps_text [OF v refl, of w] keeps_cong [OF v refl returnDelegated_keeps, of w]
    by (auto simp: plannerTakesOver_def Let_def split: prod.splits)
qed

lemma applyTrigger_keeps: "keeps s w (snd (applyTrigger r input tr p s w))"
proof -
  have v: "tool_view (constrain t s) = tool_view s" for t by (simp add: views)
  show ?thesis
    using keeps_goOn [OF v refl, of w] keeps_cong [OF v refl returnDelegated_keeps, of w]
    by (auto simp: applyTrigger_def Let_def)
qed

lemma delegationStep_keeps: "keeps s w (snd (delegationStep r input p s w))"
proof (cases "delegationLocked s")
  case False
  obtain t s1 where c: "computeDelegationTrigger (rn_map_order r) (lastPromptTokens s) (contextWindow s) (takeSnapshot s) s = (t, s1)"
    by force
  have s1: "tool_view s1 = tool_view s" using computeDelegationTrigger_views [OF c] by simp
  show ?thesis
  proof (cases t)
    case None
    with c False keeps_goOn [OF s1 refl, of w] show ?thesis by (simp add: delegationStep_def Let_def)
  next
    case (Some tr)
    have v: "tool_view (announceTrigger input tr (takeSnapshot s) s1) = tool_view s" using s1 by (simp add: views)
    show ?thesis
      using c False Some keeps_cong [OF v refl plannerTakesOver_keeps, of w] keeps_cong [OF v refl applyTrigger_keeps, of w]
      by (simp add: delegationStep_def Let_def)
  qed
qed (simp add: delegationStep_def Let_def)

lemma gateCalls_keeps: "keeps s w (snd (gateCalls r input calls fs s w))"
proof (induction calls arbitrary: fs s w)
  case (Cons call calls)
  let ?d = "emitDenied call s"
  have d: "tool_view ?d = tool_view s" by (simp add: views)
  have pend: "keeps s w (case runPending r input ?d w of
      GoOn s' w' \<Rightarrow> snd (gateCalls r input calls fs s' w') | Return s' e w' \<Rightarrow> Return s' e w')"
    using keeps_cong [OF d refl runPending_keeps, of w] Cons.IH by (auto split: step.splits)
  have rw: "keeps s w (snd (gateCalls r input calls fs' (?d\<lparr>toolRewriteCount := n\<rparr>) w))" for fs' n
    by (rule keeps_cong [OF _ refl Cons.IH]) (simp add: views)
  show ?case using pend rw Cons.IH keeps_text [OF d refl, of w]
    by (auto simp: Let_def split: step.splits)
qed simp

lemma fold_executeCall_inv:
  "rn_toolExecutor r = Some exec \<Longrightarrow>
   fold (executeCall (rn_norm_url r) exec input) calls (oc, s, w) = (oc', s', w') \<Longrightarrow>
   Inv s (obs w) \<Longrightarrow> Inv s' (obs w')"
proof (induction calls arbitrary: oc s w)
  case (Cons c calls)
  obtain oc1 s1 w1 where e: "executeCall (rn_norm_url r) exec input c (oc, s, w) = (oc1, s1, w1)"
    by (metis prod.exhaust)
  with Cons.IH [of oc1 s1 w1] Cons.prems call_inv [OF Cons.prems(1) e] show ?case by simp
qed simp

lemma afterTools_keeps: "keeps s w (afterTools r input oc n s w)"
proof -
  have np: "tool_view (noteProgress oc n s) = tool_view s"
    by (simp add: noteProgress_def Let_def tool_view_def)
  have np2: "tool_view (noteProgress oc n s\<lparr>toolIterations := k\<rparr>) = tool_view s" for k
    using np by (simp add: tool_view_def)
  show ?thesis
    using finalizeOr_keeps [of s w] keeps_cong [OF np refl finalizeOr_keeps, of w]
      keeps_text [OF refl refl, of s w] keeps_text [OF np refl, of w]
      keeps_goOn [OF np2 refl, of w]
    by (auto simp: afterTools_def Let_def split: option.splits)
qed

lemma runTools_keeps:
  assumes "rn_toolExecutor r = Some exec"
  shows "keeps s w (runTools r input exec t calls s w)"
proof
  assume i: "Inv s (obs w)"
  obtain oc s1 w1 where e: "executeTools (rn_norm_url r) exec input calls (setLastModelOutput t s, w) = (oc, s1, w1)"
    by (metis prod.exhaust)
  have "Inv (setLastModelOutput t s) (obs w)" using i by (rule view_inv [rotated]) (simp add: views)
  with fold_executeCall_inv [OF assms e [unfolded executeTools_def]] have "Inv s1 (obs w1)" by simp
  then have "Inv (updateLastIterationOutcome (length calls) (s1\<lparr>toolParseReprompts := 0\<rparr>)) (obs w1)"
    by (rule view_inv [rotated]) (simp add: views, simp add: tool_view_def)
  with afterTools_keeps e
  show "Inv (st_state (runTools r input exec t calls s w)) (obs (st_world (runTools r input exec t calls s w)))"
    by (simp add: runTools_def Let_def)
qed

lemma handleToolCalls_keeps: "keeps s w (handleToolCalls r input resp s w)"
proof (cases "rn_toolExecutor r")
  case None
  then show ?thesis by (simp add: handleToolCalls_def)
next
  case (Some exec)
  obtain fs st where g: "gateCalls r input (mp_toolCalls resp) [] s w = (fs, st)" by force
  have gk: "keeps s w st" using gateCalls_keeps [of s w "mp_toolCalls resp" "[]"] g by simp
  have cap: "keeps s w (capReached r input s w)"
    using finalizeOr_keeps by (auto simp: capReached_def)
  have forced: "keeps s2 w2 (case forcedNoCalls r input resp (s2\<lparr>noProgressIterations := n\<rparr>) w2 of Some st \<Rightarrow> st
      | None \<Rightarrow> runTools r input exec t fs (s2\<lparr>noProgressIterations := n\<rparr>) w2)" (is "keeps s2 w2 ?f") for s2 w2 n t
  proof (rule keeps_cong [of "s2\<lparr>noProgressIterations := n\<rparr>" s2 w2 w2])
    let ?s = "s2\<lparr>noProgressIterations := n\<rparr>"
    have "tool_view (say (mp_finalText resp) (setLastModelOutput (mp_finalText resp) ?s)) = tool_view ?s"
      by (simp add: views)
    from keeps_goOn [OF this refl, of w2]
    show "keeps ?s w2 ?f"
      using runPending_keeps [of ?s w2] runTools_keeps [OF Some, of ?s w2 t fs]
      unfolding forcedNoCalls_def by (simp only: if_distrib [of "case_option _ _"] option.case split: if_split) blast
  qed (simp_all add: tool_view_def)
  show ?thesis
  proof (cases "toolCap s \<le> toolIterations s \<or> \<not> (delegationMode s = ToolGated \<or> delegationMode s = AutoExecute)")
    case True
    with Some cap runTools_keeps [OF Some, of s w] show ?thesis by (auto simp: handleToolCalls_def)
  next
    case gated: False
    show ?thesis
    proof (cases st)
      case (Return s2 e w2)
      with Some g gk gated show ?thesis by (auto simp: handleToolCalls_def)
    next
      case (GoOn s2 w2)
      with gk have i: "Inv s (obs w) \<longrightarrow> Inv s2 (obs w2)" by simp
      show ?thesis
      proof (cases "fs = [] \<and> trim_space (mp_finalText resp) \<noteq> []")
        case True
        with Some g gated GoOn have "handleToolCalls r input resp s w =
            (case forcedNoCalls r input resp (s2\<lparr>noProgressIterations := noProgressIterations s2 + 1\<rparr>) w2 of Some st \<Rightarrow> st
             | None \<Rightarrow> runTools r input exec (mp_finalText resp) fs (s2\<lparr>noProgressIterations := noProgressIterations s2 + 1\<rparr>) w2)"
          by (auto simp: handleToolCalls_def Let_def)
        with i forced [of s2 w2] show ?thesis by metis
      next
        case False
        with Some g gated GoOn have "handleToolCalls r input resp s w = runTools r input exec (mp_finalText resp) fs s2 w2"
          by (auto simp: handleToolCalls_def Let_def)
        with i runTools_keeps [OF Some, of s2 w2] show ?thesis by metis
      qed
    qed
  qed
qed

lemma reprompt_keeps:
  "keeps s w (GoOn (say_trimmed t (s\<lparr>toolParseReprompts := n\<rparr>)) w)"
  "keeps s w (GoOn (say_trimmed t (s\<lparr>toolParseReprompts := n, followThroughReprompts := m\<rparr>)) w)"
  by (rule keeps_goOn [OF _ refl], simp add: views, simp add: tool_view_def)+

lemma answerWithoutTools_keeps: "keeps s w (answerWithoutTools r input resp s w)"
proof -
  let ?s = "s\<lparr>toolParseReprompts := 0\<rparr>"
  have v: "tool_view ?s = tool_view s" by (simp add: tool_view_def)
  obtain f w' where f: "finalizeFromToolResults (rn_model r) input ?s emptyFinalDirective w = (f, w')" by force
  have w': "obs w' = obs w" using finalize_obs [of ?s emptyFinalDirective w] f by simp
  note t = keeps_text [OF v refl, of w] and t' = keeps_text [OF v w']
  show ?thesis
    unfolding answerWithoutTools_def Let_def
    using reprompt_keeps [of s w "mp_finalText resp"] t t' f by (simp del: st_state.simps st_world.simps)
qed

lemma handleModelError_keeps: "keeps s w (handleModelError r input e s w)"
proof -
  have v: "tool_view (with_flags s) = tool_view s" "tool_view (with_text t (with_flags s)) = tool_view s" for t
    by (simp_all add: views)
  obtain f w' where f: "finalizeFromToolResults (rn_model r) input (with_flags s) transientRecoveryDirective w = (f, w')" by force
  have w': "obs w' = obs w" using finalize_obs [of "with_flags s" transientRecoveryDirective w] f by simp
  note t = keeps_return [OF v(1) refl, of w] keeps_return [OF v(2) refl, of w] keeps_return [OF v(2) w']
  show ?thesis
    unfolding handleModelError_def Let_def using t f by (simp del: st_state.simps st_world.simps)
qed

lemma turn_keeps:
  assumes g: "rn_model r = Some generate"
  shows "keeps s w (turn r input generate s w)"
proof -
  obtain p w1 where p: "prepareSystemPrompt input s w = (p, w1)" by force
  have w1: "obs w1 = obs w" using prepare_obs [of s w] p by simp
  obtain p2 st where d: "delegationStep r input p s w1 = (p2, st)" by force
  have st: "keeps s w1 st" using delegationStep_keeps [of s w1 p] d by simp
  show ?thesis
  proof (cases st)
    case (Return s2 e w2)
    with p d st w1 show ?thesis by (simp add: turn_def)
  next
    case (GoOn s2 w2)
    obtain resp err w3 where gr: "generateRetry generate (turn_request input p2 s2) 3 w2 = ((resp, err), w3)"
      by (metis prod.exhaust)
    have w3: "obs w3 = obs w2" using generate_obs [OF g, of "turn_request input p2 s2" 3 w2] gr by simp
    have v: "tool_view (noteResponse resp s2) = tool_view s2" by (simp add: views)
    note rest = keeps_cong [OF v w3 answerWithoutTools_keeps] keeps_cong [OF v w3 handleToolCalls_keeps]
      keeps_cong [OF v w3 handleModelError_keeps]
    show ?thesis using p d GoOn gr st w1 rest by (auto simp: turn_def Let_def split: option.split)
  qed
qed

lemma runTurns_inv:
  assumes "rn_model r = Some generate"
  shows "runTurns fuel r input generate s w = Some (s', e, w') \<Longrightarrow> Inv s (obs w) \<Longrightarrow> Inv s' (obs w')"
proof (induction fuel arbitrary: s w)
  case (Suc fuel)
  show ?case
  proof (cases "turn r input generate s w")
    case (GoOn s1 w1)
    with Suc.IH [of s1 w1] Suc.prems turn_keeps [OF assms, of s w] show ?thesis by simp
  next
    case (Return s1 e1 w1)
    with Suc.prems turn_keeps [OF assms, of s w] show ?thesis by simp
  qed
qed simp

lemma runLoop_inv:
  assumes "rn_model r = Some generate" "runLoop r input generate s w = Some (s', e, w')" "Inv s (obs w)"
  shows "Inv s' (obs w')"
proof -
  obtain s1 where t: "runTurns (runFuel (toolCap s)) r input generate (runPrologue input s) w = Some (s1, e, w')"
    and s': "s' = emitTerminationDecision e s1"
    using assms(2) by (auto simp: runLoop_def)
  have "Inv (runPrologue input s) (obs w)" using assms(3) by (rule view_inv [rotated]) (simp add: views)
  from runTurns_inv [OF assms(1) t this] have "Inv s1 (obs w')" .
  then show ?thesis using s' by (auto intro: view_inv [rotated] simp: views)
qed

end

section \<open>Records of a run\<close>

definition records_ok :: "run_state \<Rightarrow> bool" where
  "records_ok s \<longleftrightarrow> toolResults s = map rec_result (ro_toolCalls (out s)) \<and>
     distinct (map (tc_id \<circ> rec_request) (ro_toolCalls (out s))) \<and>
     (tc_id \<circ> rec_request) ` set (ro_toolCalls (out s)) \<subseteq> dom (mget (usedToolCallIDs s))"

lemma records_ok_call:
  assumes "executeCall nu exec input c (oc, s, w) = (oc', s', w')" "records_ok s"
  shows "records_ok s'"
proof -
  obtain rec where rec: "ro_toolCalls (out s') = ro_toolCalls (out s) @ [rec]"
      "toolResults s' = toolResults s @ [rec_result rec]" "tc_id (rec_request rec) \<notin> dom (mget (usedToolCallIDs s))"
      "dom (mget (usedToolCallIDs s')) = insert (tc_id (rec_request rec)) (dom (mget (usedToolCallIDs s)))"
    using executeCall_record [OF assms(1)] by blast
  have "(tc_id \<circ> rec_request) rec \<notin> (tc_id \<circ> rec_request) ` set (ro_toolCalls (out s))"
    using rec(3) assms(2) by (auto simp: records_ok_def simp del: domIff)
  with rec(1,2,4) assms(2) show ?thesis by (simp add: records_ok_def subset_insertI2 del: o_apply) simp
qed

interpretation records: run_invariant r input "\<lambda>_. ()" "\<lambda>s _. records_ok s" for r :: "'w runner" and input
proof
  show "records_ok s'" if "tool_view s' = tool_view s" "records_ok s" for s s'
    using that by (simp add: tool_view_def records_ok_def)
  show "records_ok s'" if "executeCall (rn_norm_url r) exec input c (oc, s, w) = (oc', s', w')" "records_ok s"
    for exec c oc s w oc' s' w'
    using that by (rule records_ok_call)
qed simp_all

section \<open>The log of a run\<close>

definition log_runner :: "'w runner \<Rightarrow> (call_log \<times> 'w) runner" where
  "log_runner r = \<lparr>rn_toolExecutor = map_option logged (rn_toolExecutor r),
     rn_model = map_option (\<lambda>g q lw. let (x, w) = g q (snd lw) in (x, fst lw, w)) (rn_model r),
     rn_promptAssembler = rn_promptAssembler r, rn_maxToolIterations = rn_maxToolIterations r,
     rn_subAgentRunner = map_option (\<lambda>g t lw. let (x, w) = g t (snd lw) in (x, fst lw, w)) (rn_subAgentRunner r),
     rn_ctxCanceled = (\<lambda>lw. rn_ctxCanceled r (snd lw)), rn_norm_url = rn_norm_url r, rn_map_order = rn_map_order r\<rparr>"

lemma log_ok_view: "tool_view s' = tool_view s \<Longrightarrow> log_ok nu s0 s L \<Longrightarrow> log_ok nu s0 s' L"
  by (simp add: tool_view_def log_ok_def)

interpretation log: run_invariant "log_runner r" "log_input input" fst "log_ok (rn_norm_url r) s0"
  for r :: "'w runner" and input s0
proof
  show "log_ok (rn_norm_url r) s0 s' (fst w')"
    if "rn_toolExecutor (log_runner r) = Some exec"
      "executeCall (rn_norm_url (log_runner r)) exec (log_input input) c (oc, s, w) = (oc', s', w')"
      "log_ok (rn_norm_url r) s0 s (fst w)" for exec c oc s w oc' s' w'
    using that by (auto simp: log_runner_def dest: log_ok_call)
qed (auto simp: log_runner_def log_input_def case_prod_beta Let_def intro: log_ok_view)

lemma start_returns:
  "runTurns (runFuel (toolCap (newRunState input r))) r input g (runPrologue input (newRunState input r)) w \<noteq> None"
proof (rule runTurns_returns)
  have v: "loop_view (runPrologue input (newRunState input r)) = loop_view (newRunState input r)" by (simp add: views)
  show "counters_ok (runPrologue input (newRunState input r))"
    using loop_view_cong [OF v] newRunState_counters(1) by simp
  have "turns_left (runPrologue input (newRunState input r)) = turns_left (newRunState input r)"
    using loop_view_cong [OF v] by simp
  then show "turns_left (runPrologue input (newRunState input r)) < int (runFuel (toolCap (newRunState input r)))"
    using newRunState_counters(2,3) [of input r] by (simp add: runFuel_def)
qed

lemma run_returns_some: "run r input w \<noteq> None"
  using start_returns [of input r _ w] by (cases "rn_model r") (simp_all add: run_def runLoop_def)

lemma run_records:
  assumes "run r input w = Some (ou, e, w')"
  shows "distinct (map (tc_id \<circ> rec_request) (ro_toolCalls ou))"
proof (cases "rn_model r")
  case None
  with assms show ?thesis by (auto simp: run_def emptyOutput_def)
next
  case (Some g)
  with assms obtain s where s: "runLoop r input g (newRunState input r) w = Some (s, e, w')" "ou = out s"
    by (auto simp: run_def)
  have "records_ok (newRunState input r)" by (simp add: records_ok_def newRunState_def Let_def emptyOutput_def)
  from records.runLoop_inv [OF Some s(1) this] s(2) show ?thesis by (simp add: records_ok_def)
qed

lemma run_log:
  assumes "run (log_runner r) (log_input input) ([], w) = Some (ou, e, L, w')"
  shows "\<exists>s. log_ok (rn_norm_url r) (newRunState (log_input input) (log_runner r)) s L"
proof (cases "rn_model (log_runner r)")
  case None
  with assms have "L = []" by (auto simp: run_def)
  with log_ok_start show ?thesis by metis
next
  case (Some g)
  let ?s0 = "newRunState (log_input input) (log_runner r)"
  from Some assms obtain s where s: "runLoop (log_runner r) (log_input input) g ?s0 ([], w) = Some (s, e, L, w')"
    by (auto simp: run_def)
  from log.runLoop_inv [where s0 = ?s0, OF Some s] log_ok_start show ?thesis by fastforce
qed

lemma logged_run:
  obtains ou e L w' s where "run (log_runner r) (log_input input) ([], w) = Some (ou, e, L, w')"
    "log_ok (rn_norm_url r) (newRunState (log_input input) (log_runner r)) s L"
proof -
  obtain ou e L w' where "run (log_runner r) (log_input input) ([], w) = Some (ou, e, L, w')"
    using run_returns_some [of "log_runner r" "log_input input" "([], w)"] by auto
  with run_log [OF this] that show ?thesis by blast
qed

lemma once_per_key_iff:
  "once_per_key key L \<longleftrightarrow>
     sorted_wrt (\<lambda>a b. \<not> (succeeded (snd a) \<and> key (fst a) \<noteq> None \<and> key (fst b) = key (fst a))) L"
proof -
  have "(\<lambda>e e'. key (fst e) = None \<or> key (fst e) \<noteq> key (fst e') \<or> \<not> succeeded (snd e)) =
    (\<lambda>a b. \<not> (succeeded (snd a) \<and> key (fst a) \<noteq> None \<and> key (fst b) = key (fst a)))"
    by (auto simp: fun_eq_iff)
  then show ?thesis unfolding once_per_key_def by (rule arg_cong)
qed

lemma newRunState_start [simp]: "mcount (repetitionPrevention (newRunState input r)) k = 0"
  by (simp add: newRunState_def Let_def mcount_def)

section \<open>Properties of a run\<close>

text \<open>
  C1: A run always returns: the endless loop of the code ends for every model, executor,
  sub-agent runner and prompt extender, within ten turns per allowed tool iteration and sixty more;
  further turns change nothing.
\<close>

theorem run_returns:
  "run r input w \<noteq> None \<and>
   (let s = newRunState input r; k = nat (10 * toolCap s + 60)
    in runTurns (k + n) r input g (runPrologue input s) w = runTurns k r input g (runPrologue input s) w)"
proof -
  let ?s = "newRunState input r"
  obtain res where "runTurns (runFuel (toolCap ?s)) r input g (runPrologue input ?s) w = Some res"
    using start_returns [of input r g w] by blast
  from runTurns_more [OF this, of n] this show ?thesis
    using run_returns_some [of r input w] by (simp add: runFuel_def Let_def)
qed

text \<open>
  C21: The tool call records a run returns carry pairwise different call ids, whatever ids the model gave.
\<close>

theorem run_call_ids_distinct:
  "case run r input w of
     Some (ou, e, w') \<Rightarrow> distinct (map (\<lambda>rec. tc_id (rec_request rec)) (ro_toolCalls ou))
   | None \<Rightarrow> False"
proof -
  obtain ou e w' where "run r input w = Some (ou, e, w')" using run_returns_some [of r input w] by auto
  with run_records [OF this] show ?thesis by (simp add: o_def)
qed

text \<open>
  C2: Once a one-shot mutation (adding a schedule, granting a capability, setting the configuration,
  ...) has succeeded in a run, no later call with the same key reaches the tool executor.
\<close>

theorem run_one_shot_once:
  "case run (log_runner r) (log_input input) ([], w) of
     Some (ou, e, L, w') \<Rightarrow>
       sorted_wrt (\<lambda>a b. \<not> (succeeded (snd a) \<and> one_shot_key (fst a) \<noteq> None \<and>
         one_shot_key (fst b) = one_shot_key (fst a))) L
   | None \<Rightarrow> False"
proof -
  obtain ou e L w' s where "run (log_runner r) (log_input input) ([], w) = Some (ou, e, L, w')"
      "log_ok (rn_norm_url r) (newRunState (log_input input) (log_runner r)) s L"
    by (rule logged_run)
  then show ?thesis by (simp add: log_ok_def once_per_key_iff)
qed

text \<open>
  A call whose result is cached (every call but the state readers) never reaches the
  executor again in the run once it has succeeded.
\<close>

theorem run_cached_once:
  "case run (log_runner r) (log_input input) ([], w) of
     Some (ou, e, L, w') \<Rightarrow>
       sorted_wrt (\<lambda>a b. \<not> (succeeded (snd a) \<and> toolCallCacheKey (rn_norm_url r) (fst a) \<noteq> ''|'' \<and>
         toolCallCacheKey (rn_norm_url r) (fst b) = toolCallCacheKey (rn_norm_url r) (fst a))) L
   | None \<Rightarrow> False"
proof -
  obtain ou e L w' s where run: "run (log_runner r) (log_input input) ([], w) = Some (ou, e, L, w')"
      and "log_ok (rn_norm_url r) (newRunState (log_input input) (log_runner r)) s L"
    by (rule logged_run)
  then have "once_per_key (cache_key (rn_norm_url r)) L" by (simp add: log_ok_def)
  then show ?thesis unfolding once_per_key_iff using run
    by (auto simp: cache_key_def elim!: sorted_wrt_mono_rel [rotated])
qed


text \<open>
  C22: A run creates at most eight agents, whatever their names and whichever spelling of the
  tool is used.
\<close>

theorem run_creates_at_most_eight_agents:
  "case run (log_runner r) (log_input input) ([], w) of
     Some (ou, e, L, w') \<Rightarrow> length (filter (\<lambda>en. tc_name (fst en) \<in> set [''agent.create'', ''agents.create'']) L) \<le> 8
   | None \<Rightarrow> False"
proof -
  obtain ou e L w' s where "run (log_runner r) (log_input input) ([], w) = Some (ou, e, L, w')"
      "log_ok (rn_norm_url r) (newRunState (log_input input) (log_runner r)) s L"
    by (rule logged_run)
  then show ?thesis
    unfolding log_ok_def by (simp add: newRunState_start agentCreateGlobalCap_def agent_creations_def creates_agent_def)
qed

end
