(* ===== verification/Scheduler.thy ===== *)
theory Scheduler
  imports Go_Time Go_Map
begin

text \<open>
  The job scheduler of internal/scheduler/scheduler.go: schedules, the job store with its file, and
  the executor's check. The file is read and written through a record of functions on a world
  \<open>'w\<close>; its content is kept as the document that is encoded in it, and a file that does not
  decode is \<open>Malformed\<close>. The workers of a check run the due jobs in an order given as a parameter.
\<close>

section \<open>Jobs and schedules\<close>

record job =
  jb_id :: string
  jb_schedule :: string
  jb_agentID :: string
  jb_message :: string
  jb_channel :: string
  jb_userID :: string
  jb_roomID :: string
  jb_sessionID :: string
  jb_enabled :: bool
  jb_lastRun :: string

datatype sched_error =
    JobIDRequired | ScheduleRequired | InvalidDuration string | DurationNotPositive
  | InvalidSchedule string | InvalidLastRun string
  | ErrJobNotFound | StatStore | ReadStore | ParseStore | WriteStore

definition normalizeSchedule :: "string \<Rightarrow> string" where
  "normalizeSchedule raw =
    (let trimmed = trim_space raw; l = to_lower trimmed in
     if l \<in> {''@hourly'', ''hourly'', ''0 * * * *''} then ''@every 1h''
     else if l \<in> {''@daily'', ''daily'', ''0 0 * * *''} then ''@every 24h''
     else trimmed)"

text \<open>The zero time stands for a job that never ran.\<close>

definition parseLastRun :: "string \<Rightarrow> sched_error + time" where
  "parseLastRun raw =
    (if raw = [] then Inr 0
     else case parse_rfc3339 raw of None \<Rightarrow> Inl (InvalidLastRun raw) | Some t \<Rightarrow> Inr t)"

definition every_duration :: "string \<Rightarrow> string option" where
  "every_duration schedule =
    (if prefix ''@every '' schedule then Some (trim_space (drop 7 schedule)) else None)"

text \<open>Whether the job is due, and whether it is to be disabled after the run.\<close>

definition nextDue :: "job \<Rightarrow> time \<Rightarrow> sched_error + (bool \<times> bool)" where
  "nextDue job now =
    (let schedule = normalizeSchedule (jb_schedule job) in
     case every_duration schedule of
       Some raw \<Rightarrow>
         (case parse_duration raw of
            None \<Rightarrow> Inl (InvalidDuration raw)
          | Some d \<Rightarrow>
            if d \<le> 0 then Inl DurationNotPositive
            else case parseLastRun (jb_lastRun job) of
                Inl e \<Rightarrow> Inl e
              | Inr prev \<Rightarrow>
                if prev = 0 then Inr (True, False) else Inr (d \<le> time_sub now prev, False))
     | None \<Rightarrow>
         (case parse_rfc3339 schedule of
            None \<Rightarrow> Inl (InvalidSchedule (jb_schedule job))
          | Some oneShotAt \<Rightarrow>
            (case parseLastRun (jb_lastRun job) of
               Inl e \<Rightarrow> Inl e
             | Inr prev \<Rightarrow>
               if prev \<noteq> 0 then Inr (False, True)
               else if now < oneShotAt then Inr (False, False) else Inr (True, True))))"

definition isMissedRun :: "job \<Rightarrow> time \<Rightarrow> bool" where
  "isMissedRun job now =
    (let schedule = normalizeSchedule (jb_schedule job) in
     case every_duration schedule of
       Some raw \<Rightarrow>
         (case parse_duration raw of
            None \<Rightarrow> False
          | Some d \<Rightarrow>
            if d \<le> 0 then False
            else case parseLastRun (jb_lastRun job) of
                Inl e \<Rightarrow> False
              | Inr prev \<Rightarrow> prev \<noteq> 0 \<and> d \<le> time_sub now prev)
     | None \<Rightarrow>
         (case parse_rfc3339 schedule of
            None \<Rightarrow> False
          | Some oneShotAt \<Rightarrow>
            (case parseLastRun (jb_lastRun job) of
               Inl e \<Rightarrow> False
             | Inr prev \<Rightarrow> prev = 0 \<and> oneShotAt < now)))"

section \<open>The store and its file\<close>

record persisted_jobs =
  pj_paused :: bool
  pj_jobs :: "job list"

text \<open>Modification time and size of a file.\<close>

type_synonym stamp = "int \<times> int"

datatype file_stat = Missing | StatFailed | Present stamp
datatype file_read = ReadFailed | EmptyFile | Malformed | Document persisted_jobs

record 'w disk =
  dk_stat :: "'w \<Rightarrow> file_stat"
  dk_read :: "'w \<Rightarrow> file_read"
  dk_write :: "persisted_jobs \<Rightarrow> 'w \<Rightarrow> bool \<times> 'w"

record store =
  st_jobs :: "(string, job) gmap"
  st_paused :: bool
  st_seen :: stamp

definition empty_store :: store where
  "empty_store = \<lparr>st_jobs = mempty, st_paused = False, st_seen = (0, 0)\<rparr>"

definition jobs_of :: "job list \<Rightarrow> (string, job) gmap" where
  "jobs_of js = mput_all (map (\<lambda>j. (jb_id j, j)) js) mempty"

definition reloadLocked :: "'w disk \<Rightarrow> 'w \<Rightarrow> store \<Rightarrow> sched_error option \<times> store" where
  "reloadLocked dk w s =
    (case dk_stat dk w of
       Missing \<Rightarrow> (None, empty_store)
     | StatFailed \<Rightarrow> (Some StatStore, s)
     | Present st \<Rightarrow>
       if st = st_seen s then (None, s)
       else case dk_read dk w of
           ReadFailed \<Rightarrow> (Some ReadStore, s)
         | EmptyFile \<Rightarrow> (None, \<lparr>st_jobs = mempty, st_paused = False, st_seen = st\<rparr>)
         | Malformed \<Rightarrow> (Some ParseStore, s)
         | Document p \<Rightarrow> (None, \<lparr>st_jobs = jobs_of (pj_jobs p), st_paused = pj_paused p, st_seen = st\<rparr>))"

definition newStore :: "'w disk \<Rightarrow> 'w \<Rightarrow> sched_error + store" where
  "newStore dk w =
    (case reloadLocked dk w empty_store of (Some e, _) \<Rightarrow> Inl e | (None, s) \<Rightarrow> Inr s)"

text \<open>The jobs in the order of their ids, which is the order of the map's entries.\<close>

definition persisted_of :: "store \<Rightarrow> persisted_jobs" where
  "persisted_of s = \<lparr>pj_paused = st_paused s, pj_jobs = mvals (st_jobs s)\<rparr>"

definition saveLocked :: "'w disk \<Rightarrow> store \<Rightarrow> 'w \<Rightarrow> sched_error option \<times> store \<times> 'w" where
  "saveLocked dk s w =
    (case dk_write dk (persisted_of s) w of
       (False, w') \<Rightarrow> (Some WriteStore, s, w')
     | (True, w') \<Rightarrow>
       (None, (case dk_stat dk w' of Present st \<Rightarrow> s\<lparr>st_seen := st\<rparr> | _ \<Rightarrow> s), w'))"

text \<open>Every operation that changes the store reloads it, changes it and saves it.\<close>

definition with_store ::
  "'w disk \<Rightarrow> (store \<Rightarrow> sched_error + store) \<Rightarrow> store \<Rightarrow> 'w \<Rightarrow> sched_error option \<times> store \<times> 'w" where
  "with_store dk change s w =
    (case reloadLocked dk w s of
       (Some e, s') \<Rightarrow> (Some e, s', w)
     | (None, s') \<Rightarrow>
       (case change s' of Inl e \<Rightarrow> (Some e, s', w) | Inr s'' \<Rightarrow> saveLocked dk s'' w))"

definition put_job :: "job \<Rightarrow> store \<Rightarrow> sched_error + store" where
  "put_job j s = Inr (s\<lparr>st_jobs := mput (jb_id j) j (st_jobs s)\<rparr>)"

definition addJob :: "'w disk \<Rightarrow> job \<Rightarrow> time \<Rightarrow> store \<Rightarrow> 'w \<Rightarrow> sched_error option \<times> store \<times> 'w" where
  "addJob dk j now s w =
    (if jb_id j = [] then (Some JobIDRequired, s, w)
     else
       let j = j\<lparr>jb_schedule := normalizeSchedule (jb_schedule j)\<rparr> in
       if jb_schedule j = [] then (Some ScheduleRequired, s, w)
       else case nextDue j now of
           Inl e \<Rightarrow> (Some e, s, w)
         | Inr _ \<Rightarrow> with_store dk (put_job j) s w)"

text \<open>List and IsPaused ignore an error of the reload.\<close>

definition listJobs :: "'w disk \<Rightarrow> store \<Rightarrow> 'w \<Rightarrow> job list \<times> store" where
  "listJobs dk s w = (let s' = snd (reloadLocked dk w s) in (mvals (st_jobs s'), s'))"

definition isPaused :: "'w disk \<Rightarrow> store \<Rightarrow> 'w \<Rightarrow> bool \<times> store" where
  "isPaused dk s w = (let s' = snd (reloadLocked dk w s) in (st_paused s', s'))"

definition remove_change :: "string \<Rightarrow> store \<Rightarrow> sched_error + store" where
  "remove_change i s =
    (if mhas (st_jobs s) i then Inr (s\<lparr>st_jobs := mdel i (st_jobs s)\<rparr>) else Inl ErrJobNotFound)"

definition removeJob :: "'w disk \<Rightarrow> string \<Rightarrow> store \<Rightarrow> 'w \<Rightarrow> sched_error option \<times> store \<times> 'w" where
  "removeJob dk i = with_store dk (remove_change i)"

definition setPaused :: "'w disk \<Rightarrow> bool \<Rightarrow> store \<Rightarrow> 'w \<Rightarrow> sched_error option \<times> store \<times> 'w" where
  "setPaused dk p = with_store dk (\<lambda>s. Inr (s\<lparr>st_paused := p\<rparr>))"

definition update_change :: "string \<Rightarrow> (job \<Rightarrow> job) \<Rightarrow> store \<Rightarrow> sched_error + store" where
  "update_change i f s =
    (case mget (st_jobs s) i of
       None \<Rightarrow> Inl ErrJobNotFound
     | Some j \<Rightarrow> Inr (s\<lparr>st_jobs := mput i (f j) (st_jobs s)\<rparr>))"

definition setJobEnabled ::
  "'w disk \<Rightarrow> string \<Rightarrow> bool \<Rightarrow> store \<Rightarrow> 'w \<Rightarrow> sched_error option \<times> store \<times> 'w" where
  "setJobEnabled dk i enabled = with_store dk (update_change i (\<lambda>j. j\<lparr>jb_enabled := enabled\<rparr>))"

definition mark_run :: "time \<Rightarrow> bool \<Rightarrow> job \<Rightarrow> job" where
  "mark_run runAt disable j =
    (let j = j\<lparr>jb_lastRun := format_rfc3339 runAt\<rparr> in if disable then j\<lparr>jb_enabled := False\<rparr> else j)"

definition updateAfterRun ::
  "'w disk \<Rightarrow> job \<Rightarrow> time \<Rightarrow> bool \<Rightarrow> store \<Rightarrow> 'w \<Rightarrow> sched_error option \<times> store \<times> 'w" where
  "updateAfterRun dk j runAt disable =
    with_store dk (update_change (jb_id j) (mark_run runAt disable))"

record job_update =
  up_jobID :: string
  up_runAt :: time
  up_disable :: bool

definition apply_update :: "job_update \<Rightarrow> (string, job) gmap \<Rightarrow> (string, job) gmap" where
  "apply_update u jobs =
    (case mget jobs (up_jobID u) of
       None \<Rightarrow> jobs
     | Some j \<Rightarrow> mput (up_jobID u) (mark_run (up_runAt u) (up_disable u) j) jobs)"

definition batchUpdateAfterRun ::
  "'w disk \<Rightarrow> job_update list \<Rightarrow> store \<Rightarrow> 'w \<Rightarrow> sched_error option \<times> store \<times> 'w" where
  "batchUpdateAfterRun dk us s w =
    (case reloadLocked dk w s of
       (Some e, s') \<Rightarrow> (Some e, s', w)
     | (None, s') \<Rightarrow>
       if list_ex (\<lambda>u. mhas (st_jobs s') (up_jobID u)) us
       then saveLocked dk (s'\<lparr>st_jobs := fold apply_update us (st_jobs s')\<rparr>) w
       else (None, s', w))"

section \<open>The executor\<close>

record executor =
  ex_maxConcurrent :: int
  ex_catchUp :: bool
  ex_firstCheck :: bool

definition newExecutor :: "int \<Rightarrow> bool \<Rightarrow> executor" where
  "newExecutor maxConcurrent catchUp =
    \<lparr>ex_maxConcurrent = (if maxConcurrent \<le> 0 then 1 else maxConcurrent), ex_catchUp = catchUp,
     ex_firstCheck = True\<rparr>"

text \<open>
  One pass over the jobs: those that are due, in order; a missed run is marked and skipped on the
  first check unless runs are caught up.
\<close>

fun collect_due ::
  "'w disk \<Rightarrow> bool \<Rightarrow> time \<Rightarrow> job list \<Rightarrow> store \<Rightarrow> 'w \<Rightarrow> (job \<times> bool) list \<times> store \<times> 'w" where
  "collect_due dk skip now [] s w = ([], s, w)"
| "collect_due dk skip now (j # js) s w =
     (if \<not> jb_enabled j then collect_due dk skip now js s w
      else case nextDue j now of
          Inr (True, disable) \<Rightarrow>
            if skip \<and> isMissedRun j now then
              (case updateAfterRun dk j now disable s w of
                 (_, s', w') \<Rightarrow> collect_due dk skip now js s' w')
            else
              (case collect_due dk skip now js s w of (due, s', w') \<Rightarrow> ((j, disable) # due, s', w'))
        | _ \<Rightarrow> collect_due dk skip now js s w)"

definition update_of :: "time \<Rightarrow> job \<times> bool \<Rightarrow> job_update" where
  "update_of now item = \<lparr>up_jobID = jb_id (fst item), up_runAt = now, up_disable = snd item\<rparr>"

definition check ::
  "'w disk \<Rightarrow> ((job \<times> bool) list \<Rightarrow> (job \<times> bool) list) \<Rightarrow> (job \<Rightarrow> store \<times> 'w \<Rightarrow> store \<times> 'w) \<Rightarrow>
   time \<Rightarrow> executor \<Rightarrow> store \<Rightarrow> 'w \<Rightarrow> executor \<times> store \<times> 'w" where
  "check dk order runJob now ex s w =
    (case isPaused dk s w of
       (True, s1) \<Rightarrow> (ex, s1, w)
     | (False, s1) \<Rightarrow>
       let skip = ex_firstCheck ex \<and> \<not> ex_catchUp ex;
           ex' = ex\<lparr>ex_firstCheck := False\<rparr>;
           (jobs, s2) = listJobs dk s1 w;
           (due, s3, w3) = collect_due dk skip now jobs s2 w
       in if due = [] then (ex', s3, w3)
          else
            let ran = order due;
                (s4, w4) = fold (runJob \<circ> fst) ran (s3, w3);
                (_, s5, w5) = batchUpdateAfterRun dk (map (update_of now) ran) s4 w4
            in (ex', s5, w5))"

section \<open>Histories\<close>

text \<open>
  What the processes that work with a job file do: operations through their store, and checks of
  the executor, which owns store 0. A job that runs is logged with the time of its check and may
  work on the store itself (the scheduler tools an agent has): \<open>act\<close> says how.
\<close>

datatype sched_op = AddOp job time | RemoveOp string | PauseOp bool | EnableOp string bool | ListOp

definition run_op :: "'w disk \<Rightarrow> sched_op \<Rightarrow> store \<Rightarrow> 'w \<Rightarrow> (sched_error option \<times> job list) \<times> store \<times> 'w" where
  "run_op dk op s w =
    (case op of
       AddOp j now \<Rightarrow> (case addJob dk j now s w of (e, s', w') \<Rightarrow> ((e, []), s', w'))
     | RemoveOp i \<Rightarrow> (case removeJob dk i s w of (e, s', w') \<Rightarrow> ((e, []), s', w'))
     | PauseOp p \<Rightarrow> (case setPaused dk p s w of (e, s', w') \<Rightarrow> ((e, []), s', w'))
     | EnableOp i b \<Rightarrow> (case setJobEnabled dk i b s w of (e, s', w') \<Rightarrow> ((e, []), s', w'))
     | ListOp \<Rightarrow> (case listJobs dk s w of (js, s') \<Rightarrow> ((None, js), s', w)))"

datatype event = Tick time | Ask nat sched_op

type_synonym run_log = "(string \<times> time) list"

definition logged_disk :: "'w disk \<Rightarrow> ('w \<times> run_log) disk" where
  "logged_disk dk =
    \<lparr>dk_stat = (\<lambda>w. dk_stat dk (fst w)), dk_read = (\<lambda>w. dk_read dk (fst w)),
     dk_write = (\<lambda>p w. case dk_write dk p (fst w) of (ok, w') \<Rightarrow> (ok, (w', snd w)))\<rparr>"

definition run_logged ::
  "'w disk \<Rightarrow> (job \<Rightarrow> time \<Rightarrow> sched_op list) \<Rightarrow> time \<Rightarrow> job \<Rightarrow> store \<times> 'w \<times> run_log \<Rightarrow> store \<times> 'w \<times> run_log" where
  "run_logged dk act now j sw =
    fold (\<lambda>op (s, w). snd (run_op (logged_disk dk) op s w)) (act j now)
      (case sw of (s, w, runs) \<Rightarrow> (s, w, runs @ [(jb_id j, now)]))"

definition step_event ::
  "'w disk \<Rightarrow> ((job \<times> bool) list \<Rightarrow> (job \<times> bool) list) \<Rightarrow> (job \<Rightarrow> time \<Rightarrow> sched_op list) \<Rightarrow> event \<Rightarrow>
   executor \<times> (nat \<Rightarrow> store) \<times> 'w \<times> run_log \<Rightarrow> executor \<times> (nat \<Rightarrow> store) \<times> 'w \<times> run_log" where
  "step_event dk order act ev st =
    (case st of (ex, ss, w) \<Rightarrow>
       case ev of
         Tick now \<Rightarrow>
           (case check (logged_disk dk) order (run_logged dk act now) now ex (ss 0) w of
              (ex', s', w') \<Rightarrow> (ex', ss(0 := s'), w'))
       | Ask n op \<Rightarrow>
           (case run_op (logged_disk dk) op (ss n) w of (_, s', w') \<Rightarrow> (ex, ss(n := s'), w')))"

text \<open>The runs of a history in which every process starts with its own store.\<close>

definition history ::
  "'w disk \<Rightarrow> ((job \<times> bool) list \<Rightarrow> (job \<times> bool) list) \<Rightarrow> (job \<Rightarrow> time \<Rightarrow> sched_op list) \<Rightarrow>
   executor \<Rightarrow> event list \<Rightarrow> 'w \<Rightarrow> run_log" where
  "history dk order act ex evs w =
    (case fold (step_event dk order act) evs (ex, \<lambda>_. empty_store, w, []) of (_, _, _, runs) \<Rightarrow> runs)"

end
