(* ===== verification/Scheduler_Facts.thy ===== *)
theory Scheduler_Facts
  imports Scheduler "HOL-Library.Multiset"
begin

text \<open>
  What the scheduler guarantees. Stores that share a file behave as one job table, whatever
  process works through which of them (the locale \<open>shared_file\<close>); one-shot jobs run once and interval
  jobs keep their distance over any history of checks and changes.
\<close>

section \<open>Job tables\<close>

type_synonym table = "(string, job) gmap \<times> bool"

definition keyed :: "(string, job) gmap \<Rightarrow> bool" where
  "keyed m \<longleftrightarrow> wf_gmap m \<and> (\<forall>k j. mget m k = Some j \<longrightarrow> jb_id j = k)"

definition table_of :: "store \<Rightarrow> table" where
  "table_of s = (st_jobs s, st_paused s)"

lemma keyed_empty [simp]: "keyed mempty"
  by (simp add: keyed_def)

lemma keyed_put [intro]: "keyed m \<Longrightarrow> jb_id j = k \<Longrightarrow> keyed (mput k j m)"
  by (simp add: keyed_def mget_mput)

lemma keyed_del [intro]: "keyed m \<Longrightarrow> keyed (mdel k m)"
  by (simp add: keyed_def mget_mdel)

lemma keyed_fold_put: "keyed m \<Longrightarrow> keyed (mput_all (map (\<lambda>j. (jb_id j, j)) js) m)"
  by (induction js arbitrary: m) (simp_all add: mput_all_def keyed_put)

lemma keyed_jobs_of [simp]: "keyed (jobs_of js)"
  by (simp add: jobs_of_def keyed_fold_put)

lemma keyed_entries: "keyed m \<Longrightarrow> map (\<lambda>j. (jb_id j, j)) (mvals m) = m"
proof -
  assume m: "keyed m"
  have "(jb_id (snd e), snd e) = e" if "e \<in> set m" for e
    using that m in_mget [of m "fst e" "snd e"] by (cases e) (auto simp: keyed_def)
  then show ?thesis by (simp add: mvals_def map_idI)
qed

lemma jobs_of_mvals: "keyed m \<Longrightarrow> jobs_of (mvals m) = m"
proof -
  assume m: "keyed m"
  have "distinct (map fst m)" using m wf_distinct [of m] by (simp add: keyed_def mkeys_def)
  have "mget (mput_all m mempty) k = mget m k" for k
  proof (cases "mget m k")
    case None
    then have "k \<notin> fst ` set (rev m)" by (simp add: mget_def map_of_eq_None_iff)
    then have "map_of (rev m) k = None" by (simp only: map_of_eq_None_iff not_False_eq_True)
    with None show ?thesis by (simp add: mget_mput_all)
  next
    case (Some v)
    with mget_mput_all_distinct [OF \<open>distinct (map fst m)\<close> mget_in [OF Some], of mempty] show ?thesis by simp
  qed
  then show ?thesis
    using m by (intro gmap_eqI) (simp_all add: jobs_of_def keyed_entries keyed_def)
qed

section \<open>The table specification\<close>

type_synonym table_change = "table \<Rightarrow> sched_error + table"

definition spec_put :: "job \<Rightarrow> table_change" where
  "spec_put j t = Inr (mput (jb_id j) j (fst t), snd t)"

definition spec_remove :: "string \<Rightarrow> table_change" where
  "spec_remove i t = (if mget (fst t) i = None then Inl ErrJobNotFound else Inr (mdel i (fst t), snd t))"

definition spec_pause :: "bool \<Rightarrow> table_change" where
  "spec_pause p t = Inr (fst t, p)"

definition spec_update :: "string \<Rightarrow> (job \<Rightarrow> job) \<Rightarrow> table_change" where
  "spec_update i f t =
    (case mget (fst t) i of None \<Rightarrow> Inl ErrJobNotFound | Some j \<Rightarrow> Inr (mput i (f j) (fst t), snd t))"

definition spec_result :: "table_change \<Rightarrow> table \<Rightarrow> (sched_error option \<times> job list) \<times> table" where
  "spec_result c t = (case c t of Inl e \<Rightarrow> ((Some e, []), t) | Inr t' \<Rightarrow> ((None, []), t'))"

definition normalized :: "job \<Rightarrow> job" where
  "normalized j = j\<lparr>jb_schedule := normalizeSchedule (jb_schedule j)\<rparr>"

text \<open>The error of a job that Add refuses.\<close>

definition add_error :: "job \<Rightarrow> time \<Rightarrow> sched_error option" where
  "add_error j now =
    (if jb_id j = [] then Some JobIDRequired
     else if jb_schedule (normalized j) = [] then Some ScheduleRequired
     else case nextDue (normalized j) now of Inl e \<Rightarrow> Some e | Inr _ \<Rightarrow> None)"

definition spec_op :: "sched_op \<Rightarrow> table \<Rightarrow> (sched_error option \<times> job list) \<times> table" where
  "spec_op op t =
    (case op of
       AddOp j now \<Rightarrow>
         (case add_error j now of Some e \<Rightarrow> ((Some e, []), t) | None \<Rightarrow> spec_result (spec_put (normalized j)) t)
     | RemoveOp i \<Rightarrow> spec_result (spec_remove i) t
     | PauseOp p \<Rightarrow> spec_result (spec_pause p) t
     | EnableOp i b \<Rightarrow> spec_result (spec_update i (\<lambda>j. j\<lparr>jb_enabled := b\<rparr>)) t
     | ListOp \<Rightarrow> ((None, mvals (fst t)), t))"

text \<open>A check on the table: \<open>run\<close> is what a job does to the table and the rest of the world.\<close>

fun spec_collect :: "bool \<Rightarrow> time \<Rightarrow> job list \<Rightarrow> table \<Rightarrow> (job \<times> bool) list \<times> table" where
  "spec_collect skip now [] t = ([], t)"
| "spec_collect skip now (j # js) t =
     (if \<not> jb_enabled j then spec_collect skip now js t
      else case nextDue j now of
          Inr (True, disable) \<Rightarrow>
            if skip \<and> isMissedRun j now then
              spec_collect skip now js (snd (spec_result (spec_update (jb_id j) (mark_run now disable)) t))
            else (case spec_collect skip now js t of (due, t') \<Rightarrow> ((j, disable) # due, t'))
        | _ \<Rightarrow> spec_collect skip now js t)"

definition spec_check ::
  "((job \<times> bool) list \<Rightarrow> (job \<times> bool) list) \<Rightarrow> (job \<Rightarrow> table \<times> 'x \<Rightarrow> table \<times> 'x) \<Rightarrow> time \<Rightarrow>
   executor \<Rightarrow> table \<times> 'x \<Rightarrow> executor \<times> table \<times> 'x" where
  "spec_check order run now ex tx =
    (case tx of (t, x) \<Rightarrow>
       if snd t then (ex, t, x)
       else
         let (due, t1) = spec_collect (ex_firstCheck ex \<and> \<not> ex_catchUp ex) now (mvals (fst t)) t;
             ex' = ex\<lparr>ex_firstCheck := False\<rparr>
         in if due = [] then (ex', t1, x)
            else
              let ran = order due;
                  (t2, x2) = fold (run \<circ> fst) ran (t1, x)
              in (ex', (fold apply_update (map (update_of now) ran) (fst t2), snd t2), x2))"

lemma keyed_updates: "keyed m \<Longrightarrow> keyed (fold apply_update us m)"
proof (induction us arbitrary: m)
  case (Cons u us)
  then have "keyed (apply_update u m)"
  proof (cases "mget m (up_jobID u)")
    case (Some j)
    with Cons.prems have "jb_id (mark_run (up_runAt u) (up_disable u) j) = up_jobID u"
      by (simp add: keyed_def mark_run_def Let_def)
    with Some Cons.prems show ?thesis by (simp add: apply_update_def keyed_put)
  qed (simp add: apply_update_def)
  with Cons show ?case by simp
qed simp

text \<open>A change of the store that computes the change \<open>c\<close> of the table.\<close>

definition changes :: "(store \<Rightarrow> sched_error + store) \<Rightarrow> table_change \<Rightarrow> bool" where
  "changes f c \<longleftrightarrow>
    (\<forall>s. case f s of Inl e \<Rightarrow> c (table_of s) = Inl e
       | Inr s' \<Rightarrow> c (table_of s) = Inr (table_of s') \<and> (keyed (st_jobs s) \<longrightarrow> keyed (st_jobs s')))"

lemma changes_Inl: "changes f c \<Longrightarrow> f s = Inl e \<Longrightarrow> c (table_of s) = Inl e"
  unfolding changes_def by (drule spec [of _ s]) simp

lemma changes_Inr:
  "changes f c \<Longrightarrow> f s = Inr s' \<Longrightarrow> c (table_of s) = Inr (table_of s') \<and> (keyed (st_jobs s) \<longrightarrow> keyed (st_jobs s'))"
  unfolding changes_def by (drule spec [of _ s]) simp

lemma put_changes: "changes (put_job j) (spec_put j)"
  by (auto simp: changes_def put_job_def spec_put_def table_of_def)

lemma remove_changes: "changes (remove_change i) (spec_remove i)"
  by (auto simp: changes_def remove_change_def spec_remove_def table_of_def mhas_def)

lemma pause_changes: "changes (\<lambda>s. Inr (s\<lparr>st_paused := p\<rparr>)) (spec_pause p)"
  by (auto simp: changes_def spec_pause_def table_of_def)

lemma update_changes: "(\<And>j. jb_id (f j) = jb_id j) \<Longrightarrow> changes (update_change i f) (spec_update i f)"
  by (auto simp: changes_def update_change_def spec_update_def table_of_def keyed_def mget_mput split: option.split)

lemma mark_run_id [simp]: "jb_id (mark_run t d j) = jb_id j" "jb_schedule (mark_run t d j) = jb_schedule j"
  "jb_lastRun (mark_run t d j) = format_rfc3339 t"
  by (simp_all add: mark_run_def Let_def)

lemma normalized_id [simp]: "jb_id (normalized j) = jb_id j"
  by (simp add: normalized_def)

lemma addJob_error:
  "addJob dk j now s w =
    (case add_error j now of Some e \<Rightarrow> (Some e, s, w) | None \<Rightarrow> with_store dk (put_job (normalized j)) s w)"
  by (simp add: addJob_def add_error_def normalized_def Let_def split: sum.split)

section \<open>Stores that share a file\<close>

text \<open>
  A file that is written whole and gets a stamp it never had before; \<open>seen\<close> are the stamps it had,
  \<open>extra\<close> is a part of the world that a write of the file leaves alone.
  That a rewritten file changes its modification time or size is what the program relies on to
  notice the changes of another process.
\<close>

locale shared_file =
  fixes dk :: "'w disk"
    and seen :: "'w \<Rightarrow> stamp \<Rightarrow> bool"
    and extra :: "'w \<Rightarrow> 'x"
  assumes write_new: "\<exists>w' st. dk_write dk p w = (True, w') \<and> dk_stat dk w' = Present st \<and>
      dk_read dk w' = Document p \<and> \<not> seen w st \<and> seen w' st"
    and seen_stays: "dk_write dk p w = (ok, w') \<Longrightarrow> seen w st \<Longrightarrow> seen w' st"
    and write_extra: "dk_write dk p w = (ok, w') \<Longrightarrow> extra w' = extra w"
    and stat_ok: "dk_stat dk w \<noteq> StatFailed"
    and read_ok: "dk_stat dk w = Present st \<Longrightarrow> \<exists>p. dk_read dk w = Document p"
    and current_seen: "dk_stat dk w = Present st \<Longrightarrow> seen w st"
    and start_seen: "seen w (0, 0)"
    and start_differs: "dk_stat dk w \<noteq> Present (0, 0)"
begin

text \<open>The job table in the file.\<close>

definition file_table :: "'w \<Rightarrow> table" where
  "file_table w =
    (case (dk_stat dk w, dk_read dk w) of
       (Present _, Document p) \<Rightarrow> (jobs_of (pj_jobs p), pj_paused p)
     | _ \<Rightarrow> (mempty, False))"

definition coherent :: "store \<Rightarrow> 'w \<Rightarrow> bool" where
  "coherent s w \<longleftrightarrow> keyed (st_jobs s) \<and> seen w (st_seen s) \<and>
    (dk_stat dk w = Present (st_seen s) \<longrightarrow> table_of s = file_table w)"

lemma coherent_start: "coherent empty_store w"
  using start_seen start_differs by (simp add: coherent_def empty_store_def)

lemma keyed_file: "keyed (fst (file_table w))"
  by (simp add: file_table_def split: file_stat.split file_read.split)

lemma reload:
  assumes "coherent s w"
  obtains s' where "reloadLocked dk w s = (None, s')" "table_of s' = file_table w" "coherent s' w"
    "reloadLocked dk w s' = (None, s')"
proof (cases "dk_stat dk w")
  case Missing
  then show ?thesis
    by (intro that [of empty_store]) (simp_all add: reloadLocked_def table_of_def file_table_def empty_store_def
        coherent_def start_seen)
next
  case StatFailed
  with stat_ok show ?thesis by blast
next
  case (Present st)
  then obtain p where p: "dk_read dk w = Document p" using read_ok by blast
  show ?thesis
  proof (cases "st = st_seen s")
    case True
    with Present assms show ?thesis
      by (intro that [of s]) (auto simp: reloadLocked_def coherent_def)
  next
    case False
    with current_seen [OF Present] show ?thesis
      by (intro that [of "\<lparr>st_jobs = jobs_of (pj_jobs p), st_paused = pj_paused p, st_seen = st\<rparr>"])
        (simp_all add: reloadLocked_def Present p table_of_def file_table_def coherent_def)
  qed
qed

lemma save:
  assumes "keyed (st_jobs s)"
  obtains s' w' where "saveLocked dk s w = (None, s', w')" "table_of s' = table_of s" "file_table w' = table_of s"
    "coherent s' w'" "\<And>t. coherent t w \<Longrightarrow> coherent t w'" "extra w' = extra w"
proof -
  obtain w' st where w': "dk_write dk (persisted_of s) w = (True, w')" "dk_stat dk w' = Present st"
    "dk_read dk w' = Document (persisted_of s)" "\<not> seen w st" "seen w' st"
    using write_new [of "persisted_of s" w] by blast
  have ft: "file_table w' = table_of s"
    by (simp add: file_table_def w'(2,3) table_of_def persisted_of_def jobs_of_mvals [OF assms])
  have "saveLocked dk s w = (None, s\<lparr>st_seen := st\<rparr>, w')"
    by (simp add: saveLocked_def w'(1,2))
  moreover have "coherent t w'" if "coherent t w" for t
    using that w'(2,4) seen_stays [OF w'(1)] by (auto simp: coherent_def)
  moreover have "coherent (s\<lparr>st_seen := st\<rparr>) w'"
    using assms w'(5) ft by (simp add: coherent_def table_of_def)
  ultimately show ?thesis using ft write_extra [OF w'(1)]
    by (intro that [of "s\<lparr>st_seen := st\<rparr>" w']) (simp_all add: table_of_def)
qed

lemma with_store_table:
  assumes "changes f c" "coherent s w"
  obtains s' w' where "with_store dk f s w = (fst (fst (spec_result c (file_table w))), s', w')"
    "file_table w' = snd (spec_result c (file_table w))"
    "coherent s' w'" "\<And>t. coherent t w \<Longrightarrow> coherent t w'" "extra w' = extra w"
proof -
  obtain s1 where s1: "reloadLocked dk w s = (None, s1)" "table_of s1 = file_table w" "coherent s1 w"
    using reload [OF assms(2)] by metis
  show ?thesis
  proof (cases "f s1")
    case (Inl e)
    with assms(1) s1(2) have "c (file_table w) = Inl e" using changes_Inl by metis
    with s1 Inl show ?thesis by (intro that [of s1 w]) (simp_all add: with_store_def spec_result_def)
  next
    case (Inr s2)
    with assms(1) s1(2,3) have c: "c (file_table w) = Inr (table_of s2)" and k: "keyed (st_jobs s2)"
      using changes_Inr [OF assms(1) Inr] unfolding coherent_def by simp_all
    obtain s' w' where "saveLocked dk s2 w = (None, s', w')" "file_table w' = table_of s2" "coherent s' w'"
      "\<And>t. coherent t w \<Longrightarrow> coherent t w'" "extra w' = extra w"
      using save [OF k] by metis
    with s1 Inr c show ?thesis by (intro that [of s' w']) (simp_all add: with_store_def spec_result_def)
  qed
qed

lemma ops_table:
  assumes "coherent s w"
  obtains s' w' where "run_op dk op s w = (fst (spec_op op (file_table w)), s', w')"
    "file_table w' = snd (spec_op op (file_table w))"
    "coherent s' w'" "\<And>t. coherent t w \<Longrightarrow> coherent t w'" "extra w' = extra w"
proof -
  note finish = that
  have change: thesis if ch: "changes f c" and sp: "spec_op op = spec_result c"
    and rn: "run_op dk op s w = (case with_store dk f s w of (e, s', w') \<Rightarrow> ((e, []), s', w'))" for f c
  proof -
    obtain s' w' where "with_store dk f s w = (fst (fst (spec_result c (file_table w))), s', w')"
      "file_table w' = snd (spec_result c (file_table w))"
      "coherent s' w'" "\<And>t. coherent t w \<Longrightarrow> coherent t w'" "extra w' = extra w"
      using with_store_table [OF ch assms] by metis
    moreover have "(fst (fst (spec_result c t)), []) = fst (spec_result c t)" for t
      by (simp add: spec_result_def split: sum.split)
    ultimately show thesis by (intro finish [of s' w']) (simp_all add: sp rn)
  qed
  show thesis
  proof (cases op)
    case (AddOp j now)
    show thesis
    proof (cases "add_error j now")
      case None
      with AddOp show thesis
        by (intro change [OF put_changes [of "normalized j"]]) (simp_all add: fun_eq_iff spec_op_def run_op_def addJob_error)
    next
      case (Some e)
      with AddOp assms show thesis
        by (intro that [of s w]) (simp_all add: run_op_def spec_op_def addJob_error)
    qed
  next
    case (RemoveOp i)
    then show thesis
      by (intro change [OF remove_changes [of i]]) (simp_all add: fun_eq_iff spec_op_def run_op_def removeJob_def)
  next
    case (PauseOp p)
    then show thesis
      by (intro change [OF pause_changes [of p]]) (simp_all add: fun_eq_iff spec_op_def run_op_def setPaused_def)
  next
    case (EnableOp i b)
    then show thesis
      by (intro change [OF update_changes [of "\<lambda>j. j\<lparr>jb_enabled := b\<rparr>" i]])
        (simp_all add: fun_eq_iff spec_op_def run_op_def setJobEnabled_def)
  next
    case ListOp
    obtain s1 where "reloadLocked dk w s = (None, s1)" "table_of s1 = file_table w" "coherent s1 w"
      using reload [OF assms] by metis
    moreover from this(2) have "st_jobs s1 = fst (file_table w)" by (metis fst_conv table_of_def)
    ultimately show thesis using ListOp
      by (intro that [of s1 w]) (simp_all add: run_op_def spec_op_def listJobs_def)
  qed
qed

text \<open>Several operations, and the marking of missed runs while the due jobs are collected.\<close>

lemma collect_table:
  assumes "coherent s w"
  obtains s' w' where "collect_due dk skip now js s w = (fst (spec_collect skip now js (file_table w)), s', w')"
    "file_table w' = snd (spec_collect skip now js (file_table w))"
    "coherent s' w'" "\<And>t. coherent t w \<Longrightarrow> coherent t w'" "extra w' = extra w"
  using assms
proof (induction js arbitrary: s w thesis)
  case Nil
  then show ?case by (intro Nil(1) [of s w]) simp_all
next
  case (Cons j js)
  consider (idle) "\<not> jb_enabled j \<or> (\<forall>d. nextDue j now \<noteq> Inr (True, d))"
    | (miss) d where "jb_enabled j" "nextDue j now = Inr (True, d)" "skip \<and> isMissedRun j now"
    | (due) d where "jb_enabled j" "nextDue j now = Inr (True, d)" "\<not> (skip \<and> isMissedRun j now)"
    by blast
  then show ?case
  proof cases
    case idle
    then have "collect_due dk skip now (j # js) s w = collect_due dk skip now js s w"
      "spec_collect skip now (j # js) t = spec_collect skip now js t" for t
      by (auto split: sum.split prod.split bool.split)
    with Cons.IH [OF _ Cons.prems(2)] Cons.prems(1) show ?thesis by metis
  next
    case miss
    let ?c = "spec_update (jb_id j) (mark_run now d)"
    obtain s1 w1 where one: "updateAfterRun dk j now d s w = (fst (fst (spec_result ?c (file_table w))), s1, w1)"
      "file_table w1 = snd (spec_result ?c (file_table w))" "coherent s1 w1"
      "\<And>t. coherent t w \<Longrightarrow> coherent t w1" "extra w1 = extra w"
      using with_store_table [OF update_changes Cons.prems(2), of "mark_run now d" "jb_id j"]
      unfolding updateAfterRun_def by (metis mark_run_id(1))
    obtain s' w' where "collect_due dk skip now js s1 w1 = (fst (spec_collect skip now js (file_table w1)), s', w')"
      "file_table w' = snd (spec_collect skip now js (file_table w1))"
      "coherent s' w'" "\<And>t. coherent t w1 \<Longrightarrow> coherent t w'" "extra w' = extra w1"
      using Cons.IH [OF _ one(3)] by metis
    with one miss show ?thesis by (intro Cons.prems(1) [of s' w']) simp_all
  next
    case due
    obtain s' w' where "collect_due dk skip now js s w = (fst (spec_collect skip now js (file_table w)), s', w')"
      "file_table w' = snd (spec_collect skip now js (file_table w))"
      "coherent s' w'" "\<And>t. coherent t w \<Longrightarrow> coherent t w'" "extra w' = extra w"
      using Cons.IH [OF _ Cons.prems(2)] by metis
    with due show ?thesis by (intro Cons.prems(1) [of s' w']) (auto simp: split_beta)
  qed
qed

lemma batch_table:
  assumes "coherent s w"
  obtains e s' w' where "batchUpdateAfterRun dk us s w = (e, s', w')"
    "file_table w' = (fold apply_update us (fst (file_table w)), snd (file_table w))"
    "coherent s' w'" "\<And>t. coherent t w \<Longrightarrow> coherent t w'" "extra w' = extra w"
proof -
  obtain s1 where s1: "reloadLocked dk w s = (None, s1)" "table_of s1 = file_table w" "coherent s1 w"
    using reload [OF assms] by metis
  from s1(2) have t: "st_jobs s1 = fst (file_table w)" "st_paused s1 = snd (file_table w)"
    by (metis fst_conv snd_conv table_of_def)+
  show ?thesis
  proof (cases "list_ex (\<lambda>u. mhas (st_jobs s1) (up_jobID u)) us")
    case True
    let ?s2 = "s1\<lparr>st_jobs := fold apply_update us (st_jobs s1)\<rparr>"
    have "keyed (st_jobs ?s2)" using s1(3) by (simp add: coherent_def keyed_updates)
    then obtain s' w' where "saveLocked dk ?s2 w = (None, s', w')" "file_table w' = table_of ?s2" "coherent s' w'"
      "\<And>t. coherent t w \<Longrightarrow> coherent t w'" "extra w' = extra w"
      using save by metis
    with True s1 t show ?thesis
      by (intro that [of None s' w']) (simp_all add: batchUpdateAfterRun_def table_of_def)
  next
    case False
    then have "fold apply_update us (st_jobs s1) = st_jobs s1"
      by (induction us) (simp_all add: apply_update_def mhas_def)
    with False s1 t show ?thesis
      by (intro that [of None s1 w]) (simp_all add: batchUpdateAfterRun_def)
  qed
qed

text \<open>A job that works on the store and on the world as \<open>run\<close> works on the table and the extra part.\<close>

definition follows :: "(job \<Rightarrow> store \<times> 'w \<Rightarrow> store \<times> 'w) \<Rightarrow> (job \<Rightarrow> table \<times> 'x \<Rightarrow> table \<times> 'x) \<Rightarrow> bool" where
  "follows runJob run \<longleftrightarrow>
    (\<forall>j s w. coherent s w \<longrightarrow>
      (case runJob j (s, w) of (s', w') \<Rightarrow>
        run j (file_table w, extra w) = (file_table w', extra w') \<and> coherent s' w' \<and>
        (\<forall>t. coherent t w \<longrightarrow> coherent t w')))"

lemma followed:
  assumes "follows runJob run" "coherent s w"
  obtains s' w' where "runJob j (s, w) = (s', w')" "run j (file_table w, extra w) = (file_table w', extra w')"
    "coherent s' w'" "\<And>t. coherent t w \<Longrightarrow> coherent t w'"
proof -
  obtain s' w' where r: "runJob j (s, w) = (s', w')" by force
  from assms(1) [unfolded follows_def, rule_format, OF assms(2), of j] r show ?thesis
    by (intro that [of s' w']) simp_all
qed

lemma runs_follow:
  assumes "follows runJob run" "coherent s w"
  obtains s' w' where "fold (runJob \<circ> fst) js (s, w) = (s', w')"
    "fold (run \<circ> fst) js (file_table w, extra w) = (file_table w', extra w')"
    "coherent s' w'" "\<And>t. coherent t w \<Longrightarrow> coherent t w'"
  using assms(2)
proof (induction js arbitrary: s w thesis)
  case Nil
  then show ?case by (intro Nil(1) [of s w]) simp_all
next
  case (Cons j js)
  obtain s1 w1 where one: "runJob (fst j) (s, w) = (s1, w1)"
    "run (fst j) (file_table w, extra w) = (file_table w1, extra w1)" "coherent s1 w1"
    "\<And>t. coherent t w \<Longrightarrow> coherent t w1"
    using followed [OF assms(1) Cons.prems(2), of "fst j"] by metis
  obtain s' w' where "fold (runJob \<circ> fst) js (s1, w1) = (s', w')"
    "fold (run \<circ> fst) js (file_table w1, extra w1) = (file_table w', extra w')"
    "coherent s' w'" "\<And>t. coherent t w1 \<Longrightarrow> coherent t w'"
    using Cons.IH [OF _ one(3)] by metis
  with one show ?case by (intro Cons.prems(1) [of s' w']) (simp_all add: comp_def)
qed

lemma check_table:
  assumes "follows runJob run" "coherent s w"
  obtains s' w' where "check dk order runJob now ex s w =
      (fst (spec_check order run now ex (file_table w, extra w)), s', w')"
    "snd (spec_check order run now ex (file_table w, extra w)) = (file_table w', extra w')"
    "coherent s' w'" "\<And>t. coherent t w \<Longrightarrow> coherent t w'"
proof -
  obtain s1 where s1: "reloadLocked dk w s = (None, s1)" "table_of s1 = file_table w" "coherent s1 w"
    "reloadLocked dk w s1 = (None, s1)"
    using reload [OF assms(2)] by metis
  from s1(2) have t: "st_jobs s1 = fst (file_table w)" "st_paused s1 = snd (file_table w)"
    by (metis fst_conv snd_conv table_of_def)+
  show ?thesis
  proof (cases "snd (file_table w)")
    case True
    with s1 t show ?thesis
      by (intro that [of s1 w]) (simp_all add: check_def isPaused_def spec_check_def)
  next
    case False
    define skip where "skip = (ex_firstCheck ex \<and> \<not> ex_catchUp ex)"
    obtain s2 w2 where col: "collect_due dk skip now (mvals (fst (file_table w))) s1 w =
        (fst (spec_collect skip now (mvals (fst (file_table w))) (file_table w)), s2, w2)"
      "file_table w2 = snd (spec_collect skip now (mvals (fst (file_table w))) (file_table w))"
      "coherent s2 w2" "\<And>t. coherent t w \<Longrightarrow> coherent t w2" "extra w2 = extra w"
      using collect_table [OF s1(3)] by metis
    define due where "due = fst (spec_collect skip now (mvals (fst (file_table w))) (file_table w))"
    have col': "spec_collect skip now (mvals (fst (file_table w))) (file_table w) = (due, file_table w2)"
      by (simp add: due_def col(2))
    obtain s3 w3 where run: "fold (runJob \<circ> fst) (order due) (s2, w2) = (s3, w3)"
      "fold (run \<circ> fst) (order due) (file_table w2, extra w2) = (file_table w3, extra w3)"
      "coherent s3 w3" "\<And>t. coherent t w2 \<Longrightarrow> coherent t w3"
      using runs_follow [OF assms(1) col(3)] by metis
    obtain e s4 w4 where batch: "batchUpdateAfterRun dk (map (update_of now) (order due)) s3 w3 = (e, s4, w4)"
      "file_table w4 = (fold apply_update (map (update_of now) (order due)) (fst (file_table w3)), snd (file_table w3))"
      "coherent s4 w4" "\<And>t. coherent t w3 \<Longrightarrow> coherent t w4" "extra w4 = extra w3"
      using batch_table [OF run(3)] by metis
    have conc: "check dk order runJob now ex s w =
        (ex\<lparr>ex_firstCheck := False\<rparr>, if due = [] then (s2, w2) else (s4, w4))"
      using False s1 t col(1) run(1) batch(1)
      by (simp add: check_def isPaused_def listJobs_def Let_def skip_def [symmetric] due_def [symmetric])
    have abs: "spec_check order run now ex (file_table w, extra w) =
        (ex\<lparr>ex_firstCheck := False\<rparr>,
         if due = [] then (file_table w2, extra w2) else (file_table w4, extra w4))"
      using False run(2) batch(2,5) col(5)
      by (simp add: spec_check_def Let_def skip_def [symmetric] col')
    show ?thesis
    proof (cases "due = []")
      case True
      with conc abs col(3,4) show ?thesis by (intro that [of s2 w2]) simp_all
    next
      case False
      with conc abs batch(3,4) run(4) col(4) show ?thesis by (intro that [of s4 w4]) simp_all
    qed
  qed
qed

end

section \<open>Histories\<close>

text \<open>The same history on the table, with the log of runs.\<close>

definition spec_run ::
  "(job \<Rightarrow> time \<Rightarrow> sched_op list) \<Rightarrow> time \<Rightarrow> job \<Rightarrow> table \<times> run_log \<Rightarrow> table \<times> run_log" where
  "spec_run act now j tx =
    (case tx of (t, runs) \<Rightarrow> (fold (\<lambda>op t. snd (spec_op op t)) (act j now) t, runs @ [(jb_id j, now)]))"

definition spec_event ::
  "((job \<times> bool) list \<Rightarrow> (job \<times> bool) list) \<Rightarrow> (job \<Rightarrow> time \<Rightarrow> sched_op list) \<Rightarrow> event \<Rightarrow>
   executor \<times> table \<times> run_log \<Rightarrow> executor \<times> table \<times> run_log" where
  "spec_event order act ev st =
    (case st of (ex, tx) \<Rightarrow>
       case ev of Tick now \<Rightarrow> spec_check order (spec_run act now) now ex tx
       | Ask n op \<Rightarrow> (ex, snd (spec_op op (fst tx)), snd tx))"

definition log_seen :: "('w \<Rightarrow> stamp \<Rightarrow> bool) \<Rightarrow> 'w \<times> run_log \<Rightarrow> stamp \<Rightarrow> bool" where
  "log_seen seen w = seen (fst w)"

lemma shared_logged:
  fixes dk :: "'w disk"
  assumes "shared_file dk seen extra"
  shows "shared_file (logged_disk dk) (log_seen seen) snd"
proof (rule shared_file.intro)
  let ?dk = "logged_disk dk"
  fix p ok st and w w' :: "'w \<times> run_log"
  obtain w0 x where w: "w = (w0, x)" by force
  obtain w1 st1 where "dk_write dk p w0 = (True, w1)" "dk_stat dk w1 = Present st1"
    "dk_read dk w1 = Document p" "\<not> seen w0 st1" "seen w1 st1"
    using shared_file.write_new [OF assms] by metis
  then show "\<exists>w' st. dk_write ?dk p w = (True, w') \<and> dk_stat ?dk w' = Present st \<and>
      dk_read ?dk w' = Document p \<and> \<not> log_seen seen w st \<and> log_seen seen w' st"
    by (intro exI [of _ "(w1, x)"] exI [of _ st1]) (simp add: logged_disk_def log_seen_def w)
  show "log_seen seen w' st" if "dk_write ?dk p w = (ok, w')" "log_seen seen w st"
    using that shared_file.seen_stays [OF assms, of p w0 ok "fst w'" st]
    by (auto simp: logged_disk_def log_seen_def w split: prod.splits)
  show "snd w' = snd w" if "dk_write ?dk p w = (ok, w')"
    using that by (auto simp: logged_disk_def split: prod.splits)
  show "dk_stat ?dk w \<noteq> StatFailed" "dk_stat ?dk w \<noteq> Present (0, 0)" "log_seen seen w (0, 0)"
    using shared_file.stat_ok [OF assms] shared_file.start_differs [OF assms] shared_file.start_seen [OF assms]
    by (simp_all add: logged_disk_def log_seen_def)
  show "\<exists>p. dk_read ?dk w = Document p" "log_seen seen w st" if "dk_stat ?dk w = Present st"
    using that shared_file.read_ok [OF assms] shared_file.current_seen [OF assms]
    by (auto simp: logged_disk_def log_seen_def)
qed

lemma logged_reads:
  "dk_stat (logged_disk dk) w = dk_stat dk (fst w)" "dk_read (logged_disk dk) w = dk_read dk (fst w)"
  by (simp_all add: logged_disk_def)

lemma logged_append:
  assumes "shared_file dk seen extra"
    and "shared_file.coherent (logged_disk dk) (log_seen seen) s (w, runs)"
  shows "shared_file.coherent (logged_disk dk) (log_seen seen) s (w, runs')"
    "shared_file.file_table (logged_disk dk) (w, runs') = shared_file.file_table (logged_disk dk) (w, runs)"
  using assms(2)
  by (simp_all add: shared_file.coherent_def [OF shared_logged [OF assms(1)]]
      shared_file.file_table_def [OF shared_logged [OF assms(1)]] logged_reads log_seen_def)

lemma ops_follow:
  assumes "shared_file dk seen extra" "shared_file.coherent dk seen s w"
  obtains s' w' where "fold (\<lambda>op (s, w). snd (run_op dk op s w)) ops (s, w) = (s', w')"
    "shared_file.file_table dk w' = fold (\<lambda>op t. snd (spec_op op t)) ops (shared_file.file_table dk w)"
    "shared_file.coherent dk seen s' w'"
    "\<And>t. shared_file.coherent dk seen t w \<Longrightarrow> shared_file.coherent dk seen t w'" "extra w' = extra w"
  using assms(2)
proof (induction ops arbitrary: s w thesis)
  case Nil
  then show ?case by (intro Nil(1) [of s w]) simp_all
next
  case (Cons op ops)
  obtain s1 w1 where one: "run_op dk op s w = (fst (spec_op op (shared_file.file_table dk w)), s1, w1)"
    "shared_file.file_table dk w1 = snd (spec_op op (shared_file.file_table dk w))"
    "shared_file.coherent dk seen s1 w1"
    "\<And>t. shared_file.coherent dk seen t w \<Longrightarrow> shared_file.coherent dk seen t w1" "extra w1 = extra w"
    using shared_file.ops_table [OF assms(1) Cons.prems(2), of op] by metis
  obtain s' w' where "fold (\<lambda>op (s, w). snd (run_op dk op s w)) ops (s1, w1) = (s', w')"
    "shared_file.file_table dk w' = fold (\<lambda>op t. snd (spec_op op t)) ops (shared_file.file_table dk w1)"
    "shared_file.coherent dk seen s' w'"
    "\<And>t. shared_file.coherent dk seen t w1 \<Longrightarrow> shared_file.coherent dk seen t w'" "extra w' = extra w1"
    using Cons.IH [OF _ one(3)] by metis
  with one show ?case by (intro Cons.prems(1) [of s' w']) simp_all
qed

lemma run_logged_follows:
  assumes "shared_file dk seen extra"
  shows "shared_file.follows (logged_disk dk) (log_seen seen) snd (run_logged dk act now) (spec_run act now)"
proof -
  note lg = shared_logged [OF assms]
  let ?coh = "shared_file.coherent (logged_disk dk) (log_seen seen)"
  have each: "case run_logged dk act now j (s, w) of (s', w') \<Rightarrow>
      spec_run act now j (shared_file.file_table (logged_disk dk) w, snd w) =
        (shared_file.file_table (logged_disk dk) w', snd w') \<and> ?coh s' w' \<and> (\<forall>t. ?coh t w \<longrightarrow> ?coh t w')"
    if c: "?coh s w" for j s w
  proof -
    obtain w0 runs where w: "w = (w0, runs)" by force
    let ?w1 = "(w0, runs @ [(jb_id j, now)])"
    note ap = logged_append [OF assms, of _ w0 runs "runs @ [(jb_id j, now)]"]
    obtain s' w' where f: "fold (\<lambda>op (s, w). snd (run_op (logged_disk dk) op s w)) (act j now) (s, ?w1) = (s', w')"
      "shared_file.file_table (logged_disk dk) w' =
         fold (\<lambda>op t. snd (spec_op op t)) (act j now) (shared_file.file_table (logged_disk dk) ?w1)"
      "?coh s' w'" "\<And>t. ?coh t ?w1 \<Longrightarrow> ?coh t w'" "snd w' = snd ?w1"
      by (rule ops_follow [OF lg ap(1) [OF c [unfolded w]], of "act j now"]) blast
    then show ?thesis
      using ap(1) ap(2) [OF c [unfolded w]] by (auto simp: w run_logged_def spec_run_def)
  qed
  show ?thesis unfolding shared_file.follows_def [OF lg] by (intro allI impI) (rule each)
qed

lemma event_table:
  assumes "shared_file dk seen extra"
    and "\<And>n. shared_file.coherent (logged_disk dk) (log_seen seen) (ss n) w"
  obtains ex' ss' w' where "step_event dk order act ev (ex, ss, w) = (ex', ss', w')"
    "spec_event order act ev (ex, shared_file.file_table (logged_disk dk) w, snd w) =
       (ex', shared_file.file_table (logged_disk dk) w', snd w')"
    "\<And>n. shared_file.coherent (logged_disk dk) (log_seen seen) (ss' n) w'"
proof (cases ev)
  case (Tick now)
  obtain s' w' where "check (logged_disk dk) order (run_logged dk act now) now ex (ss 0) w =
      (fst (spec_check order (spec_run act now) now ex (shared_file.file_table (logged_disk dk) w, snd w)), s', w')"
    "snd (spec_check order (spec_run act now) now ex (shared_file.file_table (logged_disk dk) w, snd w)) =
      (shared_file.file_table (logged_disk dk) w', snd w')"
    "shared_file.coherent (logged_disk dk) (log_seen seen) s' w'"
    "\<And>t. shared_file.coherent (logged_disk dk) (log_seen seen) t w \<Longrightarrow>
         shared_file.coherent (logged_disk dk) (log_seen seen) t w'"
    using shared_file.check_table [OF shared_logged [OF assms(1)] run_logged_follows [OF assms(1)] assms(2) [of 0]]
    by metis
  moreover obtain ex' tx where
    "spec_check order (spec_run act now) now ex (shared_file.file_table (logged_disk dk) w, snd w) = (ex', tx)"
    by (rule prod.exhaust)
  ultimately show ?thesis using Tick assms(2)
    by (intro that [of ex' "ss(0 := s')" w']) (simp_all add: step_event_def spec_event_def)
next
  case (Ask n op)
  obtain s' w' where
    "run_op (logged_disk dk) op (ss n) w = (fst (spec_op op (shared_file.file_table (logged_disk dk) w)), s', w')"
    "shared_file.file_table (logged_disk dk) w' = snd (spec_op op (shared_file.file_table (logged_disk dk) w))"
    "shared_file.coherent (logged_disk dk) (log_seen seen) s' w'"
    "\<And>t. shared_file.coherent (logged_disk dk) (log_seen seen) t w \<Longrightarrow>
         shared_file.coherent (logged_disk dk) (log_seen seen) t w'" "snd w' = snd w"
    using shared_file.ops_table [OF shared_logged [OF assms(1)] assms(2) [of n], of op] by metis
  with Ask assms(2) show ?thesis
    by (intro that [of ex "ss(n := s')" w']) (simp_all add: step_event_def spec_event_def)
qed

definition spec_history ::
  "((job \<times> bool) list \<Rightarrow> (job \<times> bool) list) \<Rightarrow> (job \<Rightarrow> time \<Rightarrow> sched_op list) \<Rightarrow>
   executor \<Rightarrow> event list \<Rightarrow> table \<Rightarrow> run_log" where
  "spec_history order act ex evs t = snd (snd (fold (spec_event order act) evs (ex, t, [])))"

lemma history_steps:
  assumes "shared_file dk seen extra"
    and "\<And>n. shared_file.coherent (logged_disk dk) (log_seen seen) (ss n) w"
  shows "snd (snd (snd (fold (step_event dk order act) evs (ex, ss, w)))) =
    snd (snd (fold (spec_event order act) evs (ex, shared_file.file_table (logged_disk dk) w, snd w)))"
  using assms(2)
proof (induction evs arbitrary: ex ss w)
  case (Cons ev evs)
  obtain ex' ss' w' where st: "step_event dk order act ev (ex, ss, w) = (ex', ss', w')"
    "spec_event order act ev (ex, shared_file.file_table (logged_disk dk) w, snd w) =
       (ex', shared_file.file_table (logged_disk dk) w', snd w')"
    "\<And>n. shared_file.coherent (logged_disk dk) (log_seen seen) (ss' n) w'"
    by (rule event_table [OF assms(1), of ss w order act ev ex]) (use Cons.prems in blast)+
  show ?case unfolding fold_simps st(1,2) by (rule Cons.IH [OF st(3)])
qed simp

lemma history_table:
  assumes "shared_file dk seen extra"
  shows "history dk order act ex evs w = spec_history order act ex evs (shared_file.file_table dk w)"
proof -
  note lg = shared_logged [OF assms]
  have "shared_file.file_table (logged_disk dk) (w, []) = shared_file.file_table dk w"
    by (simp add: shared_file.file_table_def [OF lg] shared_file.file_table_def [OF assms] logged_reads)
  then show ?thesis
    using history_steps [OF assms, of "\<lambda>_. empty_store" "(w, [])"] shared_file.coherent_start [OF lg]
    by (simp add: history_def spec_history_def split_beta)
qed

end
