(* ===== verification/Scheduler_Runs.thy ===== *)
theory Scheduler_Runs
  imports Scheduler_Facts
begin

text \<open>
  The runs of whole histories: what one check does to one job, and from it that a one-shot job runs
  at most once and that the runs of an interval job keep their distance, whatever the other
  processes and the jobs themselves do to the table (adding the job anew excepted).
\<close>

section \<open>One job through a history\<close>

definition adds :: "string \<Rightarrow> sched_op \<Rightarrow> bool" where
  "adds i op = (case op of AddOp j _ \<Rightarrow> jb_id j = i | _ \<Rightarrow> False)"

definition runs_of :: "string \<Rightarrow> run_log \<Rightarrow> time list" where
  "runs_of i runs = map snd (filter (\<lambda>r. fst r = i) runs)"

text \<open>The job is the one it was, up to what \<open>P\<close> allows for its last run; or it is gone.\<close>

definition kept :: "string \<Rightarrow> (job \<Rightarrow> string \<Rightarrow> bool) \<Rightarrow> table \<Rightarrow> table \<Rightarrow> bool" where
  "kept i P t t' \<longleftrightarrow>
    (\<forall>j'. mget (fst t') i = Some j' \<longrightarrow>
      (\<exists>j. mget (fst t) i = Some j \<and> jb_schedule j' = jb_schedule j \<and> P j (jb_lastRun j')))"

definition same_run :: "job \<Rightarrow> string \<Rightarrow> bool" where
  "same_run j r \<longleftrightarrow> r = jb_lastRun j"

lemma kept_refl [intro]: "(\<And>j. P j (jb_lastRun j)) \<Longrightarrow> kept i P t t"
  by (simp add: kept_def)

lemma kept_same_trans: "kept i same_run t1 t2 \<Longrightarrow> kept i same_run t2 t3 \<Longrightarrow> kept i same_run t1 t3"
  unfolding kept_def same_run_def by metis

lemma keyed_result: "keyed (fst t) \<Longrightarrow> changes f c \<Longrightarrow> keyed (fst (snd (spec_result c t)))"
proof -
  assume k: "keyed (fst t)" and ch: "changes f c"
  let ?s = "\<lparr>st_jobs = fst t, st_paused = snd t, st_seen = (0, 0)\<rparr>"
  have t: "table_of ?s = t" by (simp add: table_of_def)
  show ?thesis
  proof (cases "f ?s")
    case (Inl e)
    from changes_Inl [OF ch this] k show ?thesis by (simp add: spec_result_def t)
  next
    case (Inr s')
    from changes_Inr [OF ch this] k show ?thesis by (simp add: spec_result_def t) (simp add: table_of_def)
  qed
qed

lemma keyed_op: "keyed (fst t) \<Longrightarrow> keyed (fst (snd (spec_op op t)))"
  using keyed_result [OF _ put_changes] keyed_result [OF _ remove_changes] keyed_result [OF _ pause_changes]
    keyed_result [OF _ update_changes]
  by (auto simp: spec_op_def split: sched_op.split option.split)

lemma op_keeps: "\<not> adds i op \<Longrightarrow> kept i same_run t (snd (spec_op op t))"
  by (auto simp: kept_def same_run_def adds_def spec_op_def spec_result_def spec_put_def spec_remove_def
      spec_pause_def spec_update_def mget_mput mget_mdel split: sched_op.split option.splits sum.splits if_splits)

lemma ops_keep:
  "keyed (fst t) \<Longrightarrow> list_all (\<lambda>op. \<not> adds i op) ops \<Longrightarrow>
   keyed (fst (fold (\<lambda>op t. snd (spec_op op t)) ops t)) \<and>
   kept i same_run t (fold (\<lambda>op t. snd (spec_op op t)) ops t)"
proof (induction ops arbitrary: t)
  case Nil
  then show ?case by (auto simp: kept_def same_run_def)
next
  case (Cons op ops)
  then have "keyed (fst (snd (spec_op op t)))" "kept i same_run t (snd (spec_op op t))"
    by (simp_all add: keyed_op op_keeps)
  with Cons.IH [of "snd (spec_op op t)"] Cons.prems kept_same_trans show ?case by fastforce
qed

section \<open>One check\<close>

definition due_now :: "bool \<Rightarrow> time \<Rightarrow> job \<Rightarrow> bool" where
  "due_now skip now j =
    (jb_enabled j \<and> (case nextDue j now of Inr (True, _) \<Rightarrow> \<not> (skip \<and> isMissedRun j now) | _ \<Rightarrow> False))"

text \<open>The marking of a missed run.\<close>

definition missed_or_same :: "time \<Rightarrow> job \<Rightarrow> string \<Rightarrow> bool" where
  "missed_or_same now j r \<longleftrightarrow> r = jb_lastRun j \<or> isMissedRun j now \<and> r = format_rfc3339 now"

definition mark_missed :: "bool \<Rightarrow> time \<Rightarrow> job \<Rightarrow> table \<Rightarrow> table" where
  "mark_missed skip now j t =
    (case nextDue j now of
       Inr (True, d) \<Rightarrow>
         if jb_enabled j \<and> skip \<and> isMissedRun j now
         then snd (spec_result (spec_update (jb_id j) (mark_run now d)) t) else t
     | _ \<Rightarrow> t)"

lemma collect_Cons:
  "map fst (fst (spec_collect skip now (j # js) t)) =
     (if due_now skip now j then [j] else []) @ map fst (fst (spec_collect skip now js (mark_missed skip now j t)))"
  "snd (spec_collect skip now (j # js) t) = snd (spec_collect skip now js (mark_missed skip now j t))"
proof -
  consider (idle) "\<not> jb_enabled j \<or> (\<forall>d. nextDue j now \<noteq> Inr (True, d))"
    | (due) d where "jb_enabled j" "nextDue j now = Inr (True, d)" by blast
  then have "map fst (fst (spec_collect skip now (j # js) t)) =
      (if due_now skip now j then [j] else []) @ map fst (fst (spec_collect skip now js (mark_missed skip now j t))) \<and>
    snd (spec_collect skip now (j # js) t) = snd (spec_collect skip now js (mark_missed skip now j t))"
  proof cases
    case idle
    then show ?thesis
      by (cases "nextDue j now") (auto simp: due_now_def mark_missed_def split: bool.splits)
  next
    case due
    then show ?thesis by (simp add: due_now_def mark_missed_def split_beta)
  qed
  then show "map fst (fst (spec_collect skip now (j # js) t)) =
      (if due_now skip now j then [j] else []) @ map fst (fst (spec_collect skip now js (mark_missed skip now j t)))"
    "snd (spec_collect skip now (j # js) t) = snd (spec_collect skip now js (mark_missed skip now j t))"
    by blast+
qed

lemma collect_due_jobs: "map fst (fst (spec_collect skip now js t)) = filter (due_now skip now) js"
  by (induction js arbitrary: t) (simp_all only: collect_Cons(1), simp_all)

lemma collect_marks: "snd (spec_collect skip now js t) = fold (mark_missed skip now) js t"
  by (induction js arbitrary: t) (simp_all only: collect_Cons(2), simp_all)

lemma mark_missed_keyed: "keyed (fst t) \<Longrightarrow> keyed (fst (mark_missed skip now j t))"
proof -
  assume k: "keyed (fst t)"
  have "keyed (fst (snd (spec_result (spec_update (jb_id j) (mark_run now d)) t)))" for d
    by (rule keyed_result [OF k update_changes]) simp
  with k show ?thesis
    by (cases "nextDue j now") (auto simp: mark_missed_def split: prod.split bool.split)
qed

lemma marked_lookup:
  "mget (fst (snd (spec_result (spec_update k f) t))) i =
     (if i = k then map_option f (mget (fst t) i) else mget (fst t) i)"
  by (auto simp: spec_result_def spec_update_def mget_mput split: option.split)

lemma mark_missed_other: "i \<noteq> jb_id j \<Longrightarrow> mget (fst (mark_missed skip now j t)) i = mget (fst t) i"
  by (cases "nextDue j now") (auto simp: mark_missed_def marked_lookup split: prod.split bool.split)

lemma mark_missed_self:
  "mget (fst t) (jb_id j) = Some j \<Longrightarrow>
   \<exists>j'. mget (fst (mark_missed skip now j t)) (jb_id j) = Some j' \<and> jb_schedule j' = jb_schedule j \<and>
     missed_or_same now j (jb_lastRun j') \<and> (due_now skip now j \<longrightarrow> j' = j)"
  by (cases "nextDue j now")
    (auto simp: mark_missed_def marked_lookup missed_or_same_def due_now_def split: prod.split bool.split)

text \<open>The pass over the jobs of the table marks each of them on its own.\<close>

lemma collect_lookup:
  assumes "distinct (map jb_id js)" "\<And>j. j \<in> set js \<Longrightarrow> mget (fst t) (jb_id j) = Some j" "keyed (fst t)"
  shows "keyed (fst (fold (mark_missed skip now) js t)) \<and>
    (\<forall>i. i \<notin> jb_id ` set js \<longrightarrow> mget (fst (fold (mark_missed skip now) js t)) i = mget (fst t) i) \<and>
    (\<forall>j. j \<in> set js \<longrightarrow>
      (\<exists>j'. mget (fst (fold (mark_missed skip now) js t)) (jb_id j) = Some j' \<and> jb_schedule j' = jb_schedule j \<and>
         missed_or_same now j (jb_lastRun j') \<and> (due_now skip now j \<longrightarrow> j' = j)))"
  using assms
proof (induction js arbitrary: t)
  case (Cons a js)
  let ?t = "mark_missed skip now a t"
  have k: "keyed (fst ?t)" using Cons.prems by (simp add: mark_missed_keyed)
  have others: "mget (fst ?t) (jb_id j) = Some j" if "j \<in> set js" for j
  proof -
    have "jb_id j \<in> jb_id ` set js" using that by simp
    then have "jb_id j \<noteq> jb_id a" using Cons.prems(1) by auto
    with that Cons.prems show ?thesis by (simp add: mark_missed_other)
  qed
  have d: "distinct (map jb_id js)" "jb_id a \<notin> jb_id ` set js" using Cons.prems by simp_all
  note IH = Cons.IH [OF d(1) others k]
  have self: "mget (fst (fold (mark_missed skip now) js ?t)) (jb_id a) = mget (fst ?t) (jb_id a)"
    using IH d(2) by blast
  have "mget (fst t) (jb_id a) = Some a" using Cons.prems(2) by simp
  from mark_missed_self [OF this, of skip now] IH self mark_missed_other [of _ a skip now t]
  show ?case by simp
qed simp

section \<open>What a check does to one job\<close>

lemma keyed_values:
  assumes "keyed m"
  shows "distinct (map jb_id (mvals m))" "j \<in> set (mvals m) \<longleftrightarrow> mget m (jb_id j) = Some j"
    "mget m i = Some j \<Longrightarrow> j \<in> set (mvals m) \<and> jb_id j = i"
proof -
  have ids: "map jb_id (mvals m) = mkeys m"
    using arg_cong [OF keyed_entries [OF assms], of "map fst"] by (simp add: mkeys_def comp_def)
  then show "distinct (map jb_id (mvals m))" using assms by (simp add: keyed_def wf_distinct)
  show "mget m i = Some j \<Longrightarrow> j \<in> set (mvals m) \<and> jb_id j = i"
    using assms mget_in [of m i j] by (force simp: keyed_def mvals_def)
  moreover have "mget m (jb_id j) = Some j" if "j \<in> set (mvals m)"
  proof -
    from that obtain k where "(k, j) \<in> set m" by (auto simp: mvals_def)
    then have "mget m k = Some j" using assms by (simp add: keyed_def in_mget)
    with assms show ?thesis by (auto simp: keyed_def)
  qed
  ultimately show "j \<in> set (mvals m) \<longleftrightarrow> mget m (jb_id j) = Some j"
    using assms mget_in [of m "jb_id j" j] by (force simp: mvals_def)
qed

lemma updates_lookup:
  assumes "\<And>u. u \<in> set us \<Longrightarrow> up_runAt u = now" "mget (fold apply_update us m) i = Some j'"
  shows "\<exists>j. mget m i = Some j \<and> jb_schedule j' = jb_schedule j \<and>
    jb_lastRun j' = (if i \<in> up_jobID ` set us then format_rfc3339 now else jb_lastRun j)"
  using assms
proof (induction us arbitrary: m)
  case (Cons u us)
  from Cons.IH [of "apply_update u m"] Cons.prems obtain j where
    j: "mget (apply_update u m) i = Some j" "jb_schedule j' = jb_schedule j"
    "jb_lastRun j' = (if i \<in> up_jobID ` set us then format_rfc3339 now else jb_lastRun j)" by auto
  have now: "up_runAt u = now" using Cons.prems(1) by simp
  show ?case
  proof (cases "up_jobID u = i")
    case True
    with j now show ?thesis by (auto simp: apply_update_def mget_mput split: option.splits)
  next
    case False
    with j(1) have "mget m i = Some j" by (auto simp: apply_update_def mget_mput split: option.splits)
    with j False show ?thesis by auto
  qed
qed simp

lemma runs_effect:
  assumes "keyed (fst t)" "\<And>j. list_all (\<lambda>op. \<not> adds i op) (act j now)"
  shows "\<exists>t'. fold (spec_run act now \<circ> fst) done_jobs (t, runs) = (t', runs @ map (\<lambda>x. (jb_id (fst x), now)) done_jobs) \<and>
    keyed (fst t') \<and> kept i same_run t t'"
  using assms(1)
proof (induction done_jobs arbitrary: t runs)
  case Nil
  then show ?case by (auto simp: kept_def same_run_def)
next
  case (Cons x done_jobs)
  let ?t = "fold (\<lambda>op t. snd (spec_op op t)) (act (fst x) now) t"
  have k: "keyed (fst ?t)" "kept i same_run t ?t" using ops_keep [OF Cons.prems assms(2)] by simp_all
  obtain t' where t': "fold (spec_run act now \<circ> fst) done_jobs (?t, runs @ [(jb_id (fst x), now)]) =
      (t', (runs @ [(jb_id (fst x), now)]) @ map (\<lambda>x. (jb_id (fst x), now)) done_jobs)" "keyed (fst t')" "kept i same_run ?t t'"
    using Cons.IH [OF k(1)] by blast
  have "fold (spec_run act now \<circ> fst) (x # done_jobs) (t, runs) =
      fold (spec_run act now \<circ> fst) done_jobs (?t, runs @ [(jb_id (fst x), now)])"
    by (simp add: spec_run_def)
  with t' kept_same_trans [OF k(2) t'(3)] show ?case by (intro exI [of _ t']) (simp only: list.map append_assoc append.simps)
qed

lemma runs_of_append:
  assumes "distinct (map jb_id js)"
  shows "runs_of i (runs @ map (\<lambda>j. (jb_id j, now)) js) = runs_of i runs @ (if i \<in> jb_id ` set js then [now] else [])"
proof -
  have "map snd (filter (\<lambda>r. fst r = i) (map (\<lambda>j. (jb_id j, now)) js)) = (if i \<in> jb_id ` set js then [now] else [])"
    using assms by (induction js) auto
  then show ?thesis by (simp add: runs_of_def)
qed

lemma check_one_job:
  assumes order: "\<And>xs. mset (order xs) = mset xs"
    and act: "\<And>j. list_all (\<lambda>op. \<not> adds i op) (act j now)"
    and k: "keyed (fst t)"
    and ch: "spec_check order (spec_run act now) now ex (t, runs) = (ex', t', runs')"
  shows "keyed (fst t') \<and>
    (runs_of i runs' = runs_of i runs \<and> kept i (missed_or_same now) t t' \<or>
     runs_of i runs' = runs_of i runs @ [now] \<and> kept i (\<lambda>_ r. r = format_rfc3339 now) t t' \<and>
       (\<exists>j skip. mget (fst t) i = Some j \<and> due_now skip now j))"
proof (cases "snd t")
  case True
  with ch k show ?thesis by (auto simp: spec_check_def kept_def missed_or_same_def)
next
  case False
  define skip where "skip = (ex_firstCheck ex \<and> \<not> ex_catchUp ex)"
  let ?js = "mvals (fst t)"
  obtain due t1 where col: "spec_collect skip now ?js t = (due, t1)" by (rule prod.exhaust)
  note vals = keyed_values [OF k]
  have due: "map fst due = filter (due_now skip now) ?js" using collect_due_jobs [of skip now ?js t] by (simp add: col)
  have t1: "t1 = fold (mark_missed skip now) ?js t" using collect_marks [of skip now ?js t] by (simp add: col)
  note eff = collect_lookup [OF vals(1) _ k, of skip now, folded t1]
  have eff: "keyed (fst t1)" "\<And>i. i \<notin> jb_id ` set ?js \<Longrightarrow> mget (fst t1) i = mget (fst t) i"
    "\<And>j. j \<in> set ?js \<Longrightarrow> \<exists>j'. mget (fst t1) (jb_id j) = Some j' \<and> jb_schedule j' = jb_schedule j \<and>
         missed_or_same now j (jb_lastRun j') \<and> (due_now skip now j \<longrightarrow> j' = j)"
    using eff vals(2) by blast+
  have first: "kept i (missed_or_same now) t t1"
  proof (cases "mget (fst t) i")
    case None
    then have "i \<notin> jb_id ` set ?js" using vals(2) by force
    with eff(2) None show ?thesis by (simp add: kept_def)
  next
    case (Some j)
    with vals(3) have "j \<in> set ?js" "jb_id j = i" by blast+
    with eff(3) [of j] Some show ?thesis by (auto simp: kept_def)
  qed
  show ?thesis
  proof (cases "due = []")
    case True
    with ch False col have "t' = t1" "runs' = runs" by (simp_all add: spec_check_def skip_def)
    with eff(1) first show ?thesis by simp
  next
    case False
    define done_jobs where "done_jobs = order due"
    obtain t2 where t2: "fold (spec_run act now \<circ> fst) done_jobs (t1, runs) = (t2, runs @ map (\<lambda>x. (jb_id (fst x), now)) done_jobs)"
      "keyed (fst t2)" "kept i same_run t1 t2"
      using runs_effect [where act = act and done_jobs = done_jobs and runs = runs, OF eff(1) act] by blast
    let ?us = "map (update_of now) done_jobs"
    have fin: "t' = (fold apply_update ?us (fst t2), snd t2)" "runs' = runs @ map (\<lambda>x. (jb_id (fst x), now)) done_jobs"
      using ch \<open>\<not> snd t\<close> False col t2(1) by (simp_all add: spec_check_def skip_def done_jobs_def Let_def)
    have js: "mset (map fst done_jobs) = mset (filter (due_now skip now) ?js)"
      unfolding done_jobs_def due [symmetric] mset_map order ..
    then have set: "set (map fst done_jobs) = {j \<in> set ?js. due_now skip now j}"
      by (metis set_filter set_mset_mset)
    have "distinct (map jb_id (filter (due_now skip now) ?js))" using vals(1) by (simp add: distinct_map_filter)
    moreover have "mset (map jb_id (map fst done_jobs)) = mset (map jb_id (filter (due_now skip now) ?js))"
      using js by (metis mset_map)
    ultimately have "distinct (map jb_id (map fst done_jobs))" by (metis mset_eq_imp_distinct_iff)
    from runs_of_append [OF this, of i runs now]
    have log: "runs_of i runs' = runs_of i runs @ (if i \<in> jb_id ` set (map fst done_jobs) then [now] else [])"
      by (simp add: fin comp_def)
    have ids: "up_jobID ` set ?us = jb_id ` set (map fst done_jobs)" by (force simp: update_of_def)
    have last: "kept i (\<lambda>j r. r = (if i \<in> jb_id ` set (map fst done_jobs) then format_rfc3339 now else jb_lastRun j)) t2 t'"
      unfolding kept_def
    proof (intro allI impI)
      have at: "up_runAt u = now" if "u \<in> set ?us" for u using that by (auto simp: update_of_def)
      fix j' assume "mget (fst t') i = Some j'"
      then show "\<exists>j. mget (fst t2) i = Some j \<and> jb_schedule j' = jb_schedule j \<and>
          jb_lastRun j' = (if i \<in> jb_id ` set (map fst done_jobs) then format_rfc3339 now else jb_lastRun j)"
        using updates_lookup [of ?us now "fst t2" i j', OF at] by (simp only: fin ids fst_conv)
    qed
    have k': "keyed (fst t')" using keyed_updates [OF t2(2)] by (simp add: fin)
    show ?thesis
    proof (cases "i \<in> jb_id ` set (map fst done_jobs)")
      case True
      with set vals(2) obtain j where "mget (fst t) i = Some j" "due_now skip now j" by auto
      moreover have "kept i (\<lambda>_ r. r = format_rfc3339 now) t t'"
        using first t2(3) last True unfolding kept_def same_run_def by (metis (no_types, lifting))
      ultimately show ?thesis using log True k' by auto
    next
      case False
      have "kept i (missed_or_same now) t t'"
        using first t2(3) last False unfolding kept_def same_run_def by (metis (no_types, lifting))
      then show ?thesis using log False k' by simp
    qed
  qed
qed

section \<open>Histories of one job\<close>

text \<open>Checks happen at times RFC3339 can write, and nobody adds the job anew.\<close>

definition good_event :: "string \<Rightarrow> event \<Rightarrow> bool" where
  "good_event i ev =
    (case ev of Tick now \<Rightarrow> four_digit_year now \<and> ns_per_sec \<le> now | Ask n op \<Rightarrow> \<not> adds i op)"

definition whole_seconds :: "time \<Rightarrow> time" where
  "whole_seconds t = t - t mod ns_per_sec"

lemma marked_last_run:
  assumes "four_digit_year now" "ns_per_sec \<le> now"
  shows "parseLastRun (format_rfc3339 now) = Inr (whole_seconds now)" "0 < whole_seconds now"
proof -
  have p: "parse_rfc3339 (format_rfc3339 now) = Some (whole_seconds now)"
    using parse_format_rfc3339 [OF assms(1)] by (simp add: whole_seconds_def)
  have "parse_rfc3339 [] = None" by code_simp
  with p have "format_rfc3339 now \<noteq> []" by auto
  with p show "parseLastRun (format_rfc3339 now) = Inr (whole_seconds now)" by (simp add: parseLastRun_def)
  have "now mod ns_per_sec < ns_per_sec" by (simp add: ns_per_sec_def)
  with assms(2) show "0 < whole_seconds now" by (simp add: whole_seconds_def)
qed

lemma event_one_job:
  assumes order: "\<And>xs. mset (order xs) = mset xs"
    and act: "\<And>j now. list_all (\<lambda>op. \<not> adds i op) (act j now)"
    and k: "keyed (fst t)" and good: "good_event i ev"
    and st: "spec_event order act ev (ex, t, runs) = (ex', t', runs')"
  obtains (none) "keyed (fst t')" "runs_of i runs' = runs_of i runs" "kept i same_run t t'"
    | (miss) now where "ev = Tick now" "keyed (fst t')" "runs_of i runs' = runs_of i runs"
        "kept i (missed_or_same now) t t'" "four_digit_year now" "ns_per_sec \<le> now"
    | (run) now j skip where "ev = Tick now" "keyed (fst t')" "runs_of i runs' = runs_of i runs @ [now]"
        "kept i (\<lambda>_ r. r = format_rfc3339 now) t t'" "mget (fst t) i = Some j" "due_now skip now j"
        "four_digit_year now" "ns_per_sec \<le> now"
proof (cases ev)
  case (Tick now)
  then have "spec_check order (spec_run act now) now ex (t, runs) = (ex', t', runs')"
    using st by (simp add: spec_event_def)
  from check_one_job [OF order act k this] Tick good miss run show ?thesis
    unfolding good_event_def by auto
next
  case (Ask n op)
  with st good k none keyed_op [of t op] op_keeps [of i op t] show ?thesis
    by (auto simp: spec_event_def good_event_def)
qed

lemma history_invariant:
  assumes sf: "shared_file dk seen extra"
    and start: "P (shared_file.file_table dk w) []"
    and step: "\<And>ex t runs ev ex' t' runs'. P t runs \<Longrightarrow> ev \<in> set evs \<Longrightarrow>
      spec_event order act ev (ex, t, runs) = (ex', t', runs') \<Longrightarrow> P t' runs'"
  shows "\<exists>t. P t (history dk order act ex evs w)"
proof -
  have "\<exists>t'. P t' (snd (snd (fold (spec_event order act) evs (ex, t, runs))))" if "P t runs" for ex t runs
    using that step
  proof (induction evs arbitrary: ex t runs)
    case (Cons ev evs)
    obtain ex1 t1 runs1 where e: "spec_event order act ev (ex, t, runs) = (ex1, t1, runs1)"
      by (cases "spec_event order act ev (ex, t, runs)") auto
    have p: "P t1 runs1" by (rule Cons.prems(2) [OF Cons.prems(1) _ e]) simp
    have q: "P t' runs'" if "P t runs" "ev \<in> set evs" "spec_event order act ev (ex, t, runs) = (ex', t', runs')"
      for ex t runs ev ex' t' runs'
      by (rule Cons.prems(2) [OF that(1) _ that(3)]) (simp add: that(2))
    have "\<exists>t'. P t' (snd (snd (fold (spec_event order act) evs (ex1, t1, runs1))))"
      by (rule Cons.IH [OF p]) (rule q)
    then show ?case by (simp add: e)
  qed auto
  from this [OF start] show ?thesis by (simp add: history_table [OF sf] spec_history_def)
qed

section \<open>One-shot jobs\<close>

definition one_shot_job :: "job \<Rightarrow> bool" where
  "one_shot_job j \<longleftrightarrow> every_duration (normalizeSchedule (jb_schedule j)) = None"

definition never_again :: "job \<Rightarrow> bool" where
  "never_again j \<longleftrightarrow> (\<exists>x. parseLastRun (jb_lastRun j) = Inr x \<and> x \<noteq> 0)"

lemma one_shot_done: "one_shot_job j \<Longrightarrow> never_again j \<Longrightarrow> \<not> due_now skip now j"
  by (auto simp: due_now_def one_shot_job_def never_again_def nextDue_def Let_def split: option.split)

definition one_shot_state :: "string \<Rightarrow> table \<Rightarrow> run_log \<Rightarrow> bool" where
  "one_shot_state i t runs \<longleftrightarrow> keyed (fst t) \<and> length (runs_of i runs) \<le> 1 \<and>
    (\<forall>j. mget (fst t) i = Some j \<longrightarrow> one_shot_job j \<and> (runs_of i runs \<noteq> [] \<longrightarrow> never_again j))"

lemma one_shot_step:
  assumes "\<And>xs. mset (order xs) = mset xs" "\<And>j now. list_all (\<lambda>op. \<not> adds i op) (act j now)"
    and "one_shot_state i t runs" "good_event i ev" "spec_event order act ev (ex, t, runs) = (ex', t', runs')"
  shows "one_shot_state i t' runs'"
proof -
  from assms(3) have inv: "keyed (fst t)" "length (runs_of i runs) \<le> 1"
    "\<And>j. mget (fst t) i = Some j \<Longrightarrow> one_shot_job j"
    "\<And>j. mget (fst t) i = Some j \<Longrightarrow> runs_of i runs \<noteq> [] \<Longrightarrow> never_again j"
    by (auto simp: one_shot_state_def)
  have same: "one_shot_job j' \<longleftrightarrow> one_shot_job j" if "jb_schedule j' = jb_schedule j" for j j'
    using that by (simp add: one_shot_job_def)
  have mark: "never_again j" if "jb_lastRun j = format_rfc3339 now" "four_digit_year now" "ns_per_sec \<le> now" for j now
    using marked_last_run [OF that(2,3)] that(1) by (auto simp: never_again_def)
  from assms(1,2) inv(1) assms(4,5) show ?thesis
  proof (cases rule: event_one_job)
    case none
    then show ?thesis
      using inv same unfolding one_shot_state_def kept_def same_run_def never_again_def by metis
  next
    case (miss now)
    have "never_again j'" if "runs_of i runs \<noteq> []" "mget (fst t) i = Some j"
      "missed_or_same now j (jb_lastRun j')" for j j'
      using that inv(4) mark [OF _ miss(5,6)] by (auto simp: missed_or_same_def never_again_def)
    with miss inv same show ?thesis unfolding one_shot_state_def kept_def by metis
  next
    case (run now j skip)
    have "runs_of i runs = []"
      using one_shot_done [OF inv(3)] inv(4) run(5,6) by blast
    with run inv(3) same mark [OF _ run(7,8)] show ?thesis
      unfolding one_shot_state_def kept_def by (metis append_Nil le_numeral_extra(4) length_Cons list.size(3) One_nat_def)
  qed
qed


section \<open>Interval jobs\<close>

definition interval_job :: "int \<Rightarrow> job \<Rightarrow> bool" where
  "interval_job d j \<longleftrightarrow> 0 < d \<and>
    (case every_duration (normalizeSchedule (jb_schedule j)) of None \<Rightarrow> False | Some raw \<Rightarrow> parse_duration raw = Some d)"

lemma whole_seconds_mono: "whole_seconds a \<le> b \<Longrightarrow> whole_seconds a \<le> whole_seconds b"
proof -
  assume a: "whole_seconds a \<le> b"
  have w: "whole_seconds t = ns_per_sec * (t div ns_per_sec)" for t
    by (simp add: whole_seconds_def minus_mod_eq_mult_div)
  have "ns_per_sec * (a div ns_per_sec) div ns_per_sec \<le> b div ns_per_sec"
    by (rule zdiv_mono1) (use a in \<open>simp_all add: w ns_per_sec_def\<close>)
  then show ?thesis by (simp add: w ns_per_sec_def)
qed

lemma time_sub_le: "0 < d \<Longrightarrow> d \<le> time_sub t u \<Longrightarrow> u + d \<le> t"
  by (auto simp: time_sub_def min_duration_def max_def min_def split: if_splits)

lemma interval_due:
  assumes "interval_job d j" "parseLastRun (jb_lastRun j) = Inr x" "x \<noteq> 0"
  shows "due_now skip now j \<Longrightarrow> x + d \<le> now" "isMissedRun j now \<Longrightarrow> x + d \<le> now"
  using assms time_sub_le [of d now x]
  by (auto simp: interval_job_def due_now_def nextDue_def isMissedRun_def Let_def split: option.splits if_splits bool.splits)

definition spaced :: "int \<Rightarrow> time list \<Rightarrow> bool" where
  "spaced d ts \<longleftrightarrow> successively (\<lambda>a b. whole_seconds a + d \<le> b) ts"

text \<open>The last run in the table is no earlier than the last run in the log.\<close>

definition up_to_date :: "time list \<Rightarrow> job \<Rightarrow> bool" where
  "up_to_date ts j \<longleftrightarrow> ts \<noteq> [] \<longrightarrow>
    (\<exists>x. parseLastRun (jb_lastRun j) = Inr x \<and> x \<noteq> 0 \<and> whole_seconds (last ts) \<le> x)"

definition interval_state :: "string \<Rightarrow> int \<Rightarrow> table \<Rightarrow> run_log \<Rightarrow> bool" where
  "interval_state i d t runs \<longleftrightarrow> keyed (fst t) \<and> spaced d (runs_of i runs) \<and>
    (\<forall>j. mget (fst t) i = Some j \<longrightarrow> interval_job d j \<and> up_to_date (runs_of i runs) j)"

lemma interval_step:
  assumes "\<And>xs. mset (order xs) = mset xs" "\<And>j now. list_all (\<lambda>op. \<not> adds i op) (act j now)"
    and "interval_state i d t runs" "good_event i ev" "spec_event order act ev (ex, t, runs) = (ex', t', runs')"
  shows "interval_state i d t' runs'"
proof -
  from assms(3) have inv: "keyed (fst t)" "spaced d (runs_of i runs)"
    "\<And>j. mget (fst t) i = Some j \<Longrightarrow> interval_job d j"
    "\<And>j. mget (fst t) i = Some j \<Longrightarrow> up_to_date (runs_of i runs) j"
    by (auto simp: interval_state_def)
  have same: "interval_job d j' \<longleftrightarrow> interval_job d j" if "jb_schedule j' = jb_schedule j" for j j'
    using that by (simp add: interval_job_def)
  from assms(1,2) inv(1) assms(4,5) show ?thesis
  proof (cases rule: event_one_job)
    case none
    then show ?thesis
      using inv same unfolding interval_state_def kept_def same_run_def up_to_date_def by metis
  next
    case (miss now)
    have "up_to_date (runs_of i runs) j'" if j: "mget (fst t) i = Some j" "missed_or_same now j (jb_lastRun j')" for j j'
    proof (cases "jb_lastRun j' = jb_lastRun j")
      case True
      with inv(4) [OF j(1)] show ?thesis by (simp add: up_to_date_def)
    next
      case False
      with j(2) have m: "isMissedRun j now" "jb_lastRun j' = format_rfc3339 now" by (simp_all add: missed_or_same_def)
      show ?thesis unfolding up_to_date_def
      proof (intro impI exI conjI)
        show "parseLastRun (jb_lastRun j') = Inr (whole_seconds now)" using marked_last_run(1) [OF miss(5,6)] m(2) by simp
        show "whole_seconds now \<noteq> 0" using marked_last_run(2) [OF miss(5,6)] by simp
        assume "runs_of i runs \<noteq> []"
        with inv(4) [OF j(1)] obtain x where x: "parseLastRun (jb_lastRun j) = Inr x" "x \<noteq> 0"
          "whole_seconds (last (runs_of i runs)) \<le> x" by (auto simp: up_to_date_def)
        have "0 < d" using inv(3) [OF j(1)] by (simp add: interval_job_def)
        then have "whole_seconds (last (runs_of i runs)) \<le> now"
          using interval_due(2) [OF inv(3) [OF j(1)] x(1,2) m(1)] x(3) by linarith
        then show "whole_seconds (last (runs_of i runs)) \<le> whole_seconds now" by (rule whole_seconds_mono)
      qed
    qed
    with miss inv(2,3) same show ?thesis unfolding interval_state_def kept_def by metis
  next
    case (run now j skip)
    have "whole_seconds (last (runs_of i runs)) + d \<le> now" if "runs_of i runs \<noteq> []"
    proof -
      from inv(4) [OF run(5)] that obtain x where x: "parseLastRun (jb_lastRun j) = Inr x" "x \<noteq> 0"
        "whole_seconds (last (runs_of i runs)) \<le> x" by (auto simp: up_to_date_def)
      from interval_due(1) [OF inv(3) [OF run(5)] x(1,2) run(6)] x(3) show ?thesis by linarith
    qed
    then have "spaced d (runs_of i runs')"
      using inv(2) by (auto simp: run(3) spaced_def successively_append_iff)
    moreover have "up_to_date (runs_of i runs') j'" if "jb_lastRun j' = format_rfc3339 now" for j'
      using that marked_last_run [OF run(7,8)] by (simp add: up_to_date_def run(3))
    ultimately show ?thesis
      using run(2,4) inv(3) same unfolding interval_state_def kept_def by metis
  qed
qed


section \<open>A file that is replaced as a whole\<close>

text \<open>
  The file of the store as fsutil.WriteFileAtomic leaves it: the world is the list of its versions,
  the last first, and every version has a modification time of its own.
\<close>

definition whole_file :: "persisted_jobs list disk" where
  "whole_file =
    \<lparr>dk_stat = (\<lambda>w. if w = [] then Missing else Present (int (length w), 1)),
     dk_read = (\<lambda>w. case w of [] \<Rightarrow> ReadFailed | p # _ \<Rightarrow> Document p),
     dk_write = (\<lambda>p w. (True, p # w))\<rparr>"

definition whole_seen :: "persisted_jobs list \<Rightarrow> stamp \<Rightarrow> bool" where
  "whole_seen w st \<longleftrightarrow> fst st \<le> int (length w)"

interpretation wf: shared_file whole_file whole_seen "\<lambda>_. ()"
  by unfold_locales (auto simp: whole_file_def whole_seen_def neq_Nil_conv split: if_splits)

lemma wf_file: "shared_file whole_file whole_seen (\<lambda>_. ())"
  by unfold_locales

definition sample_job :: "string \<Rightarrow> string \<Rightarrow> job" where
  "sample_job i schedule =
    \<lparr>jb_id = i, jb_schedule = schedule, jb_agentID = ''a'', jb_message = ''m'', jb_channel = [],
     jb_userID = [], jb_roomID = [], jb_sessionID = [], jb_enabled = True, jb_lastRun = []\<rparr>"

definition sample_file :: "persisted_jobs list" where
  "sample_file = [\<lparr>pj_paused = False,
     pj_jobs = [sample_job ''once'' ''2024-01-01T00:00:00Z'', sample_job ''often'' ''@every 90s'']\<rparr>]"

text \<open>2024-01-01T00:00:00Z\<close>

definition sample_time :: time where
  "sample_time = 63839664000000000000"

definition sample_events :: "event list" where
  "sample_events = [Tick (sample_time - ns_per_sec), Tick (sample_time + 1), Ask 1 (EnableOp ''once'' True),
     Tick (sample_time + 2 * ns_per_sec), Tick (sample_time + 89 * ns_per_sec)]"

lemma sample_runs:
  "history whole_file id (\<lambda>_ _. []) (newExecutor 1 True) sample_events sample_file =
     [(''often'', sample_time - ns_per_sec), (''once'', sample_time + 1), (''often'', sample_time + 89 * ns_per_sec)]"
  by code_simp

lemma sample_good:
  "list_all (good_event ''once'') sample_events" "list_all (good_event ''often'') sample_events"
  by code_simp+

definition sample_table :: table where
  "sample_table =
    ([(''often'', sample_job ''often'' ''@every 90s''),
      (''once'', sample_job ''once'' ''2024-01-01T00:00:00Z'')], False)"

lemma sample_file_table: "wf.file_table sample_file = sample_table"
proof -
  have "wf.file_table (p # ps) = (jobs_of (pj_jobs p), pj_paused p)" for p ps
    by (simp add: wf.file_table_def) (simp add: whole_file_def)
  moreover have "sample_file = [hd sample_file]" by code_simp
  moreover have "(jobs_of (pj_jobs (hd sample_file)), pj_paused (hd sample_file)) = sample_table" by code_simp
  ultimately show ?thesis by metis
qed

lemma sample_schedules:
  "mget (fst sample_table) ''once'' = Some (sample_job ''once'' ''2024-01-01T00:00:00Z'')"
  "mget (fst sample_table) ''often'' = Some (sample_job ''often'' ''@every 90s'')"
  by code_simp+



section \<open>One table behind many stores\<close>

text \<open>What a sequence of operations answers, each through the store of its process.\<close>

fun answers :: "'w disk \<Rightarrow> (nat \<times> sched_op) list \<Rightarrow> (nat \<Rightarrow> store) \<Rightarrow> 'w \<Rightarrow> (sched_error option \<times> job list) list" where
  "answers dk [] ss w = []"
| "answers dk ((n, op) # ops) ss w =
     (case run_op dk op (ss n) w of (a, s', w') \<Rightarrow> a # answers dk ops (ss(n := s')) w')"

fun table_answers :: "(nat \<times> sched_op) list \<Rightarrow> table \<Rightarrow> (sched_error option \<times> job list) list" where
  "table_answers [] t = []"
| "table_answers ((n, op) # ops) t = fst (spec_op op t) # table_answers ops (snd (spec_op op t))"

lemma answers_coherent:
  assumes "shared_file dk seen extra" "\<And>n. shared_file.coherent dk seen (ss n) w"
  shows "answers dk ops ss w = table_answers ops (shared_file.file_table dk w)"
  using assms(2)
proof (induction ops arbitrary: ss w)
  case (Cons nop ops)
  obtain n op where nop: "nop = (n, op)" by force
  obtain s' w' where st: "run_op dk op (ss n) w = (fst (spec_op op (shared_file.file_table dk w)), s', w')"
    "shared_file.file_table dk w' = snd (spec_op op (shared_file.file_table dk w))"
    "shared_file.coherent dk seen s' w'"
    "\<And>t. shared_file.coherent dk seen t w \<Longrightarrow> shared_file.coherent dk seen t w'"
    by (rule shared_file.ops_table [OF assms(1) Cons.prems [of n], of op]) blast
  have c: "shared_file.coherent dk seen ((ss(n := s')) m) w'" for m using st(3,4) Cons.prems by simp
  have "answers dk ops (ss(n := s')) w' = table_answers ops (shared_file.file_table dk w')"
    by (rule Cons.IH) (rule c)
  with st(1,2) show ?case by (simp add: nop)
qed simp



section \<open>What a check runs\<close>

text \<open>
  The first check of a process runs nothing when the table is paused; otherwise it runs each job
  that is enabled and due, and not a missed run to be skipped, exactly once, with any number of
  workers.
\<close>

theorem check_runs_due_jobs:
  assumes "shared_file dk seen extra" "\<And>xs. mset (order xs) = mset xs"
  shows "mset (history dk order act ex [Tick now] w) =
    (let t = shared_file.file_table dk w in
     if snd t then {#}
     else image_mset (\<lambda>j. (jb_id j, now))
       (mset (filter (due_now (ex_firstCheck ex \<and> \<not> ex_catchUp ex) now) (mvals (fst t)))))"
proof -
  define t where "t = shared_file.file_table dk w"
  define skip where "skip = (ex_firstCheck ex \<and> \<not> ex_catchUp ex)"
  obtain due t1 where col: "spec_collect skip now (mvals (fst t)) t = (due, t1)" by (rule prod.exhaust)
  have due: "map fst due = filter (due_now skip now) (mvals (fst t))"
    using collect_due_jobs [of skip now "mvals (fst t)" t] by (simp add: col)
  have logged: "snd (fold (spec_run act now \<circ> fst) js (t1, runs)) = runs @ map (\<lambda>x. (jb_id (fst x), now)) js" for js t1 runs
    by (induction js arbitrary: t1 runs) (simp_all add: spec_run_def)
  have "history dk order act ex [Tick now] w =
      (if snd t then [] else if due = [] then [] else map (\<lambda>x. (jb_id (fst x), now)) (order due))"
    using col logged [of "order due" t1 "[]"]
    by (simp add: history_table [OF assms(1)] spec_history_def spec_event_def spec_check_def t_def [symmetric]
        skip_def [symmetric] Let_def split_beta)
  then show ?thesis
    using assms(2) [of due] arg_cong [OF due, of "\<lambda>js. image_mset (\<lambda>j. (jb_id j, now)) (mset js)"]
    by (auto simp: Let_def t_def [symmetric] skip_def [symmetric] image_mset.compositionality comp_def)
qed

theorem check_runs_due_jobs_witness:
  "mset (history whole_file rev (\<lambda>_ _. []) (newExecutor 4 True) [Tick (sample_time + 1)] sample_file) =
   {#(''once'', sample_time + 1), (''often'', sample_time + 1)#}"
proof -
  have ord: "mset (rev xs) = mset xs" for xs :: "(job \<times> bool) list" by simp
  have "filter (due_now (ex_firstCheck (newExecutor 4 True) \<and> \<not> ex_catchUp (newExecutor 4 True)) (sample_time + 1))
      (mvals (fst sample_table)) =
    [sample_job ''often'' ''@every 90s'', sample_job ''once'' ''2024-01-01T00:00:00Z'']" by code_simp
  moreover have "snd sample_table = False" by code_simp
  ultimately show ?thesis
    using check_runs_due_jobs [OF wf_file, of rev "\<lambda>_ _. []" "newExecutor 4 True" "sample_time + 1" sample_file, OF ord]
    by (simp add: Let_def sample_job_def add_mset_commute sample_file_table)
qed

section \<open>A failed write\<close>

text \<open>
  When the file cannot be written, Add reports the error but leaves the job in the memory of the store,
  which still agrees with the stamp of the file: the job is listed and will be run.
\<close>

definition full_disk :: "persisted_jobs list disk" where
  "full_disk = whole_file\<lparr>dk_write := (\<lambda>_ w. (False, w))\<rparr>"

lemma failed_add_stays:
  "case newStore full_disk sample_file of Inr s \<Rightarrow>
     (case addJob full_disk (sample_job ''new'' ''@every 1h'') sample_time s sample_file of
        (e, s', w') \<Rightarrow> e = Some WriteStore \<and> map jb_id (fst (listJobs full_disk s' w')) = [''new'', ''often'', ''once''])
   | Inl _ \<Rightarrow> False"
  by code_simp

text \<open>
  A job that schedules its own next run under its id, one day on: the update after the run marks the
  new job as run and disables it, so it never runs.
\<close>

lemma readded_job_lost:
  "history whole_file id
     (\<lambda>j now. if jb_id j = ''once'' then [AddOp (sample_job ''once'' ''2024-01-02T00:00:00Z'') now] else [])
     (newExecutor 1 True) [Tick sample_time, Tick (sample_time + 2 * 86400 * ns_per_sec)]
     [\<lparr>pj_paused = False, pj_jobs = [sample_job ''once'' ''2024-01-01T00:00:00Z'']\<rparr>] =
   [(''once'', sample_time)]"
  by code_simp

end
