(* ===== verification/Tool_Parse_Back.thy ===== *)
theory Tool_Parse_Back
  imports Tool_Parse
begin

text \<open>
  What a model writes is what the parser reads: the encoding of a call object (Go_Json's
  \<open>marshal\<close>), put anywhere in plain text, is the one candidate the balanced-bracket scan finds,
  and it is decoded to the same call. The lemmas follow the scan through an encoded value: strings
  with their escapes, numbers, nested arrays and objects.
\<close>

section \<open>The scan passes over an encoded value\<close>

fun json_depth :: "json \<Rightarrow> nat" where
  "json_depth (JArr vs) = Suc (fold max (map json_depth vs) 0)"
| "json_depth (JObj es) = Suc (fold max (map (\<lambda>(k, v). json_depth v) es) 0)"
| "json_depth v = 0"

lemma fold_max_le: "fold max xs (a::nat) \<le> n \<longleftrightarrow> a \<le> n \<and> (\<forall>x \<in> set xs. x \<le> n)"
  by (induction xs arbitrary: a) auto

lemma fold_max_ge: "x \<in> set xs \<Longrightarrow> x \<le> fold max xs (a::nat)"
  using fold_max_le [of xs a "fold max xs a"] by simp

lemma member_depth: "(k, v) \<in> set es \<Longrightarrow> json_depth v \<le> fold max (map (\<lambda>(k, v). json_depth v) es) 0"
  by (rule fold_max_ge) force

text \<open>Text that neither opens nor closes anything and quotes nothing.\<close>

definition plain_char :: "char \<Rightarrow> bool" where
  "plain_char c \<longleftrightarrow> c \<noteq> CHR 0x22 \<and> \<not> is_open c \<and> \<not> is_close c"

definition plain_text :: "string \<Rightarrow> bool" where
  "plain_text s = list_all plain_char s"

lemma plain_text_simps [simp]:
  "plain_text []" "plain_text (c # s) \<longleftrightarrow> plain_char c \<and> plain_text s"
  "plain_text (s @ t) \<longleftrightarrow> plain_text s \<and> plain_text t"
  by (simp_all add: plain_text_def)

lemma digit_plain: "is_digit_char c \<Longrightarrow> plain_char c"
  by (auto simp: plain_char_def is_open_def is_close_def is_digit_char_def)

lemma plain_chars [simp]:
  "plain_char CHR ''0''" "plain_char CHR ''.''" "plain_char CHR ''e''" "plain_char CHR ''E''"
  "plain_char CHR ''+''" "plain_char CHR ''-''" "plain_char CHR '',''" "plain_char CHR '':''"
  "plain_text ''null''" "plain_text ''true''" "plain_text ''false''"
  by (simp_all add: plain_char_def is_open_def is_close_def)

lemma scan_plain:
  "plain_text s \<Longrightarrow> \<not> sc_inString st \<Longrightarrow>
   scan_from content i (s @ r) st = scan_from content (i + length s) r st"
  by (induction s arbitrary: i) (simp_all add: plain_char_def scan_step_def)

lemma scan_in_string:
  assumes "\<And>c. c \<in> set s \<Longrightarrow> c \<noteq> CHR 0x22 \<and> c \<noteq> CHR 0x5C" and "sc_inString st" and "\<not> sc_escaped st"
  shows "scan_from content i (s @ r) st = scan_from content (i + length s) r st"
  using assms by (induction s arbitrary: i) (simp_all add: scan_step_def)

lemma scan_escape:
  assumes "sc_inString st" and "\<not> sc_escaped st"
  shows "scan_from content i (CHR 0x5C # c # r) st = scan_from content (i + 2) r st"
proof -
  have eq: "st\<lparr>sc_escaped := False\<rparr> = st" using assms by (cases st) simp
  show ?thesis using assms by (simp add: scan_step_def eq)
qed

lemma hex_digit_plain: "n < 16 \<Longrightarrow> hex_digit n \<noteq> CHR 0x22 \<and> hex_digit n \<noteq> CHR 0x5C"
proof -
  assume n: "n < 16"
  have "hex_val (hex_digit n) = Some n" using n by (rule hex_val_digit)
  moreover have "hex_val CHR 0x22 = None" "hex_val CHR 0x5C = None" by (simp_all add: hex_val_def)
  ultimately show ?thesis by auto
qed

lemma scan_u_escape:
  assumes "sc_inString st" and "\<not> sc_escaped st"
  shows "scan_from content i (u_escape n @ r) st = scan_from content (i + length (u_escape n)) r st"
proof -
  have "scan_from content (i + 2) (drop 2 (u_escape n) @ r) st =
      scan_from content (i + 2 + length (drop 2 (u_escape n))) r st"
    by (rule scan_in_string [OF _ assms]) (auto simp: u_escape_def hex_digit_plain)
  moreover have "scan_from content i (u_escape n @ r) st =
      scan_from content (i + 2) (drop 2 (u_escape n) @ r) st"
    using scan_escape [OF assms, of content i "CHR ''u''" "drop 2 (u_escape n) @ r"]
    by (simp add: u_escape_def)
  ultimately show ?thesis by (simp add: u_escape_def)
qed

lemma scan_enc_char:
  assumes "sc_inString st" and "\<not> sc_escaped st"
  shows "scan_from content i (enc_char c @ r) st = scan_from content (i + length (enc_char c)) r st"
  using scan_escape [OF assms] scan_u_escape [OF assms] scan_in_string [OF _ assms, of "[c]"]
  by (auto simp: enc_char_def Let_def simp del: scan_from.simps)

lemma rune_text_high:
  assumes "scalar r" and "128 \<le> r" and "c \<in> set (rune_text r)"
  shows "128 \<le> (of_char c :: int)"
proof -
  have b: "128 \<le> (of_char (char_of v) :: int)" if "128 \<le> v" "v < 256" for v :: int
    using byte_of [of v] that by simp
  have m: "0 \<le> v mod 64 \<and> v mod 64 < 64" for v :: int by simp
  have q: "r < 2048 \<longrightarrow> r div 64 < 32" "r < 65536 \<longrightarrow> r div 4096 < 16" "r div 262144 < 5"
    "0 \<le> r div 64" "0 \<le> r div 4096" "0 \<le> r div 262144"
    using assms(1,2) by (auto simp: scalar_def)
  from assms(2,3) show ?thesis
    by (auto simp: rune_text_def split: if_splits intro!: b)
      (use m q in \<open>auto simp: add_increasing2 intro: order.strict_trans2 [OF add_strict_left_mono [OF conjunct2 [OF m]]]\<close>)
qed

lemma high_byte: "128 \<le> (of_char c :: int) \<Longrightarrow> c \<noteq> CHR 0x22 \<and> c \<noteq> CHR 0x5C"
  by auto

lemma scan_enc_rune:
  assumes "sc_inString st" and "\<not> sc_escaped st" and d: "decode_rune (c # s) = (u, n)" and c: "\<not> (of_char c :: int) < 128"
  shows "scan_from content i (enc_rune u n @ r) st = scan_from content (i + length (enc_rune u n)) r st"
proof (cases "u = 65533 \<and> n = 1 \<or> u = 8232 \<or> u = 8233")
  case True
  then have "\<exists>m. enc_rune u n = u_escape m" by (auto simp: enc_rune_def)
  then show ?thesis using scan_u_escape [OF assms(1,2)] by auto
next
  case False
  then have e: "enc_rune u n = rune_text u" by (auto simp: enc_rune_def)
  from d have "scalar u \<and> 128 \<le> u"
  proof (cases rule: decode_cases)
    case bad
    then show ?thesis by (simp add: scalar_replacement)
  next
    case (ok t)
    have "\<not> u < 128"
    proof
      assume "u < 128"
      then have "c = char_of u" "0 \<le> u" using ok by (simp_all add: rune_text_def scalar_def)
      with \<open>u < 128\<close> c byte_of [of u] show False by simp
    qed
    with ok show ?thesis by simp
  qed
  then show ?thesis
    unfolding e by (intro scan_in_string [OF _ assms(1,2)] high_byte) (auto dest: rune_text_high)
qed

lemma scan_enc_chars:
  assumes "sc_inString st" and "\<not> sc_escaped st"
  shows "scan_from content i (enc_chars s @ r) st = scan_from content (i + length (enc_chars s)) r st"
proof (induction s arbitrary: i rule: enc_chars.induct)
  case 1
  then show ?case by simp
next
  case (2 c s)
  then show ?case
    using scan_enc_char [OF assms] scan_enc_rune [OF assms]
    by (auto simp: add.assoc split: prod.split)
qed

lemma scan_enc_string:
  assumes "\<not> sc_inString st" and "\<not> sc_escaped st"
  shows "scan_from content i (enc_string s @ r) st = scan_from content (i + length (enc_string s)) r st"
proof -
  let ?st = "st\<lparr>sc_inString := True\<rparr>"
  have "scan_from content i (enc_string s @ r) st =
      scan_from content (Suc i) (enc_chars s @ CHR 0x22 # r) ?st"
    using assms by (simp add: enc_string_def scan_step_def)
  also have "\<dots> = scan_from content (Suc i + length (enc_chars s)) (CHR 0x22 # r) ?st"
    by (rule scan_enc_chars) (use assms in simp_all)
  also have "\<dots> = scan_from content (i + length (enc_string s)) r (?st\<lparr>sc_inString := False\<rparr>)"
    using assms by (simp add: enc_string_def scan_step_def)
  also have "?st\<lparr>sc_inString := False\<rparr> = st" using assms by simp
  finally show ?thesis .
qed

text \<open>A value inside an open bracket is passed over without a trace.\<close>

definition scan_idle :: "scan_state \<Rightarrow> nat \<Rightarrow> bool" where
  "scan_idle st d \<longleftrightarrow> \<not> sc_inString st \<and> \<not> sc_escaped st \<and> sc_stack st \<noteq> [] \<and>
     length (sc_stack st) + d \<le> maxJSONNestingDepth"

lemma scan_open_close:
  assumes idle: "scan_idle st (Suc d)" and oc: "is_open opn" "is_close cls" "closes cls opn"
    and inner: "scan_from content (Suc i) (inner @ cls # r) (st\<lparr>sc_stack := opn # sc_stack st\<rparr>) =
        scan_from content (Suc i + length inner) (cls # r) (st\<lparr>sc_stack := opn # sc_stack st\<rparr>)"
  shows "scan_from content i (opn # inner @ cls # r) st =
    scan_from content (i + length (opn # inner @ [cls])) r st"
proof -
  have ne: "sc_stack st \<noteq> []" "\<not> sc_inString st" "\<not> maxJSONNestingDepth < Suc (length (sc_stack st))"
    "opn \<noteq> CHR 0x22" "cls \<noteq> CHR 0x22" "\<not> is_open cls"
    using idle oc by (auto simp: scan_idle_def is_open_def is_close_def)
  have "scan_step content i opn st = st\<lparr>sc_stack := opn # sc_stack st\<rparr>"
    using ne oc by (simp add: scan_step_def Let_def)
  moreover have "scan_step content j cls (st\<lparr>sc_stack := opn # sc_stack st\<rparr>) = st" for j
    using ne oc by (simp add: scan_step_def split: option.split)
  ultimately show ?thesis using inner by simp
qed

lemma scan_idle_push:
  "scan_idle st (Suc d) \<Longrightarrow> scan_idle (st\<lparr>sc_stack := c # sc_stack st\<rparr>) d"
  by (simp add: scan_idle_def)

lemma scan_idle_mono: "scan_idle st d \<Longrightarrow> d' \<le> d \<Longrightarrow> scan_idle st d'"
  by (simp add: scan_idle_def)

lemma scan_join:
  assumes "\<not> sc_inString st"
    and "\<And>x i r. x \<in> set xs \<Longrightarrow> scan_from content i (f x @ r) st = scan_from content (i + length (f x)) r st"
  shows "scan_from content i (join_with '','' (map f xs) @ r) st =
    scan_from content (i + length (join_with '','' (map f xs))) r st"
  using assms(2)
proof (induction xs arbitrary: i rule: induct_list012)
  case (3 x y zs)
  have "scan_from content j (CHR '','' # t) st = scan_from content (Suc j) t st" for j t
    using scan_plain [of "'',''" st content j t] assms(1) by simp
  with 3 show ?case by (simp add: add.assoc del: scan_from.simps)
qed simp_all

lemma take_digits_plain: "take_digits s = (d, r) \<Longrightarrow> plain_text d"
  by (induction s arbitrary: d r) (auto simp: digit_plain split: if_splits prod.splits)

lemma p_unsigned_plain:
  assumes "p_unsigned s = Some (n, r)"
  shows "plain_text n"
proof -
  have i: "plain_text a" if "p_int_part t = Some (a, u)" for t a u
    using that by (auto simp: p_int_part_def simp del: take_digits.simps split: list.splits if_splits
        dest: take_digits_plain)
  have f: "plain_text a" if "p_frac_part t = Some (a, u)" for t a u
    using that by (auto simp: p_frac_part_def split: list.splits if_splits prod.splits
        dest: take_digits_plain)
  have g: "plain_text a" if "p_sign t = (a, u)" for t a u
    using that by (auto simp: p_sign_def split: list.splits if_splits)
  have e: "plain_text a" if "p_exp_part t = Some (a, u)" for t a u
    using that by (auto simp: p_exp_part_def split: list.splits if_splits prod.splits
        dest: take_digits_plain g)
  from assms i f e show ?thesis by (auto simp: p_unsigned_def split: option.splits prod.splits)
qed

lemma num_lit_plain: "num_lit n \<Longrightarrow> plain_text n"
  by (auto simp: num_lit_def p_number_def split: list.splits if_splits dest: p_unsigned_plain)

abbreviation member_text :: "string \<times> json \<Rightarrow> string" where
  "member_text \<equiv> \<lambda>(k, v). enc_string k @ '':'' @ marshal v"

lemma scan_members:
  assumes st: "\<not> sc_inString st" "\<not> sc_escaped st"
    and vals: "\<And>k v i r. (k, v) \<in> set es \<Longrightarrow>
      scan_from content i (marshal v @ r) st = scan_from content (i + length (marshal v)) r st"
  shows "scan_from content i (join_with '','' (map member_text es) @ r) st =
    scan_from content (i + length (join_with '','' (map member_text es))) r st"
proof (rule scan_join [OF st(1)])
  fix x j t
  assume x: "x \<in> set es"
  obtain k v where kv: "x = (k, v)" by force
  have "scan_from content j' (CHR '':'' # t') st = scan_from content (Suc j') t' st" for j' t'
    using scan_plain [of "'':''" st content j' t'] st by simp
  then show "scan_from content j (member_text x @ t) st = scan_from content (j + length (member_text x)) t st"
    using scan_enc_string [OF st, of content j k] vals [of k v] x
    by (simp add: kv add.assoc del: scan_from.simps)
qed

lemma scan_marshal:
  "json_ok d v \<Longrightarrow> scan_idle st (json_depth v) \<Longrightarrow>
   scan_from content i (marshal v @ r) st = scan_from content (i + length (marshal v)) r st"
proof (induction v arbitrary: d st i r rule: marshal.induct)
  case 1
  then show ?case using scan_plain [of "''null''" st content i r] by (simp add: scan_idle_def del: scan_from.simps plain_text_simps)
next
  case (2 b)
  then show ?case using scan_plain [of "''true''" st content i r] scan_plain [of "''false''" st content i r]
    by (simp add: scan_idle_def del: scan_from.simps plain_text_simps)
next
  case (3 s)
  then show ?case using scan_plain num_lit_plain by (simp add: scan_idle_def)
next
  case (4 s)
  then show ?case by (simp add: scan_enc_string scan_idle_def)
next
  case (5 vs)
  let ?st = "st\<lparr>sc_stack := CHR ''['' # sc_stack st\<rparr>"
  let ?d = "fold max (map json_depth vs) 0"
  have idle: "scan_idle ?st ?d" using 5(3) by (intro scan_idle_push) simp
  have "scan_from content (Suc i) (join_with '','' (map marshal vs) @ CHR '']'' # r) ?st =
      scan_from content (Suc i + length (join_with '','' (map marshal vs))) (CHR '']'' # r) ?st"
  proof (rule scan_join)
    fix x j t
    assume x: "x \<in> set vs"
    have "json_depth x \<le> ?d" using x by (intro fold_max_ge) simp
    with idle have "scan_idle ?st (json_depth x)" by (rule scan_idle_mono)
    with 5(1) [OF x, of "d - 1" ?st j t] 5(2) x
    show "scan_from content j (marshal x @ t) ?st = scan_from content (j + length (marshal x)) t ?st"
      by (simp add: list_all_iff)
  qed (use idle in \<open>simp add: scan_idle_def\<close>)
  from scan_open_close [OF _ _ _ _ this, of ?d] 5(3) show ?case
    by (simp add: is_open_def is_close_def closes_def)
next
  case (6 es)
  let ?st = "st\<lparr>sc_stack := CHR 0x7B # sc_stack st\<rparr>"
  let ?d = "fold max (map (\<lambda>(k, v). json_depth v) es) 0"
  have idle: "scan_idle ?st ?d" using 6(3) by (intro scan_idle_push) simp
  have "scan_from content (Suc i) (join_with '','' (map member_text es) @ CHR 0x7D # r) ?st =
      scan_from content (Suc i + length (join_with '','' (map member_text es))) (CHR 0x7D # r) ?st"
  proof (rule scan_members)
    fix k v j t
    assume x: "(k, v) \<in> set es"
    have "json_depth v \<le> ?d"
      using x by (rule member_depth)
    with idle have "scan_idle ?st (json_depth v)" by (rule scan_idle_mono)
    then show "scan_from content j (marshal v @ t) ?st = scan_from content (j + length (marshal v)) t ?st"
      using 6(1) [OF x refl, of "d - 1" ?st j t] 6(2) x by (auto simp: list_all_iff)
  qed (use idle in \<open>simp_all add: scan_idle_def\<close>)
  from scan_open_close [OF _ _ _ _ this, of ?d] 6(3) show ?case
    by (simp add: is_open_def is_close_def closes_def)
qed


lemma scan_fences_none: "\<not> contains s ''```'' \<Longrightarrow> scan_fences s = ([], s)"
proof (induction s)
  case Nil
  then show ?case by (simp add: scan_fences.simps fence_at_def)
next
  case (Cons c s)
  have np: "\<not> prefix ''```'' (c # s)" and "\<not> contains s ''```''"
    using Cons.prems by (auto simp: contains_sublist sublist_Cons_right)
  then have "fence_at (c # s) = None" "scan_fences s = ([], s)"
    using Cons.IH by (simp_all only: fence_at_def if_False simp_thms)
  then show ?case by (simp add: scan_fences.simps [of "c # s"])
qed

text \<open>The one top-level object of a text whose surroundings are plain is its one candidate.\<close>

lemma scan_embedded:
  assumes ok: "json_ok d (JObj es)" and depth: "json_depth (JObj es) \<le> maxJSONNestingDepth"
    and plain: "plain_text pre" "plain_text post"
  shows "sc_found (scan_from (pre @ marshal (JObj es) @ post) 0 (pre @ marshal (JObj es) @ post) scan_init)
    = [trim_space (marshal (JObj es))]"
proof -
  let ?m = "join_with '','' (map member_text es)"
  let ?c = "pre @ marshal (JObj es) @ post"
  let ?n = "length pre"
  let ?o = "scan_init\<lparr>sc_start := Some ?n, sc_stack := [CHR 0x7B]\<rparr>"
  have "scan_from ?c 0 ?c scan_init = scan_from ?c ?n (CHR 0x7B # ?m @ CHR 0x7D # post) scan_init"
    using scan_plain [OF plain(1), of scan_init ?c 0 "marshal (JObj es) @ post"] by (simp add: scan_init_def)
  also have "\<dots> = scan_from ?c (Suc ?n) (?m @ CHR 0x7D # post) ?o"
    by (simp add: scan_step_def scan_init_def is_open_def maxJSONNestingDepth_def)
  also have "\<dots> = scan_from ?c (Suc ?n + length ?m) (CHR 0x7D # post) ?o"
  proof (rule scan_members)
    fix k v j t
    assume x: "(k, v) \<in> set es"
    have "json_depth v \<le> fold max (map (\<lambda>(k, v). json_depth v) es) 0"
      using x by (rule member_depth)
    then have "scan_idle ?o (json_depth v)" using depth by (simp add: scan_idle_def scan_init_def)
    then show "scan_from ?c j (marshal v @ t) ?o = scan_from ?c (j + length (marshal v)) t ?o"
      using ok x by (intro scan_marshal [of "d - 1"]) (auto simp: list_all_iff)
  qed (simp_all add: scan_init_def)
  also have "\<dots> = scan_from ?c (Suc (Suc ?n + length ?m)) post
      (scan_init\<lparr>sc_found := [trim_space (marshal (JObj es))]\<rparr>)"
    by (simp add: scan_step_def scan_init_def is_open_def is_close_def closes_def)
  also have "sc_found \<dots> = [trim_space (marshal (JObj es))]"
    using scan_plain [OF plain(2), of _ _ _ "[]"] by (simp add: scan_init_def)
  finally show ?thesis .
qed


lemma trim_marshal_obj: "trim_space (marshal (JObj es)) = marshal (JObj es)"
  by (rule trim_space_trim_left_space) (simp_all add: lead_seq_def space_bytes_def)

lemma collect_embedded:
  assumes "json_ok d (JObj es)" "json_depth (JObj es) \<le> maxJSONNestingDepth"
    and "plain_text pre" "plain_text post"
    and "\<not> contains (pre @ marshal (JObj es) @ post) ''```''"
  shows "collectCandidates (pre @ marshal (JObj es) @ post) = [(marshal (JObj es), marshal (JObj es))]"
proof -
  have "CHR 0x7B \<in> set (trim_space (pre @ marshal (JObj es) @ post))"
    by (rule in_trim_space) (simp_all add: space_bytes_def)
  then have "trim_space (pre @ marshal (JObj es) @ post) \<noteq> []" by auto
  then have "extractBalancedJSONCandidates (pre @ marshal (JObj es) @ post) = [marshal (JObj es)]"
    using scan_embedded [OF assms(1-4)] trim_marshal_obj by (simp add: extractBalancedJSONCandidates_def)
  with scan_fences_none [OF assms(5)] show ?thesis
    using trim_marshal_obj [of es] by (simp add: collectCandidates_def)
qed

text \<open>
  C23: A model that writes one tool call as the encoding of a JSON object with tool_name and
  arguments (and no id), surrounded by any text without brackets, quotes or fences, is read exactly:
  the parser returns that one call, under the canonical name, with the encoded arguments and the
  first generated id, and rejects nothing, provided the name is allowed and the object nests at
  most 64 levels deep.
\<close>

theorem embedded_call_parsed:
  assumes "json_ok 10000 (JObj es)" and "json_depth (JObj es) \<le> maxJSONNestingDepth"
    and "mget es ''tool_name'' = Some (JStr n)" and "canonicalToolName n = Some t"
    and "isAllowed t allowed" and "mget es ''arguments'' = Some (JObj args)" and "mget es ''id'' = None"
    and "plain_text pre" and "plain_text post"
    and "\<not> contains (pre @ marshal (JObj es) @ post) ''```''"
  shows "parseToolCalls (pre @ marshal (JObj es) @ post) allowed =
    ([\<lparr>tc_id = ''tool-json-1'', tc_name = t, tc_arguments = marshal (JObj args)\<rparr>],
     \<lparr>pd_candidates = [\<lparr>ex_raw = marshal (JObj es), ex_tool = t, ex_args = marshal (JObj args),
        ex_accepted = True, ex_reason = NoReason\<rparr>], pd_rejected = []\<rparr>)"
proof -
  let ?m = "marshal (JObj es)"
  have t: "t \<noteq> []" "t \<noteq> ''tool.result''" using assms(5) by (auto simp: isAllowed_def)
  have one: "itoa 1 = ''1''" by code_simp
  have "parseToolObject ?m es allowed 1 =
      ((\<lparr>ex_raw = ?m, ex_tool = t, ex_args = marshal (JObj args), ex_accepted = True, ex_reason = NoReason\<rparr>,
        Some \<lparr>tc_id = ''tool-json-1'', tc_name = t, tc_arguments = marshal (JObj args)\<rparr>), 2)"
    using assms(3-7) t
    by (simp add: parseToolObject_def Let_def parseCallID_def rejected_def one
        trim_marshal_obj del: marshal.simps)
  moreover have "decodeJSONCandidate ?m = Inr (JObj es)"
    using assms(1) by (simp add: decodeJSONCandidate_def unmarshal_marshal del: marshal.simps)
  moreover have "?m \<noteq> []" by simp
  ultimately have "parseCandidateBlock (?m, ?m) allowed 1 =
      (([\<lparr>ex_raw = ?m, ex_tool = t, ex_args = marshal (JObj args), ex_accepted = True, ex_reason = NoReason\<rparr>],
        [\<lparr>tc_id = ''tool-json-1'', tc_name = t, tc_arguments = marshal (JObj args)\<rparr>]), 2)"
    by (simp add: parseCandidateBlock_def Let_def trim_marshal_obj del: marshal.simps)
  with collect_embedded [OF assms(1,2,8-10)] show ?thesis
    by (simp add: parseToolCalls_def parseToolCallsMax_def defaultMaxToolCallsPerReply_def del: marshal.simps)
qed


theorem embedded_call_parsed_witness:
  "parseToolCalls (''Let me check, please. '' @ marshal (JObj
       [(''arguments'', JObj [(''zone'', JStr ''a}\"b'')]), (''tool_name'', JStr ''Time.Now'')]) @ '' Done.'') [] =
    ([\<lparr>tc_id = ''tool-json-1'', tc_name = ''time.now'', tc_arguments = marshal (JObj [(''zone'', JStr ''a}\"b'')])\<rparr>],
     \<lparr>pd_candidates = [\<lparr>ex_raw = marshal (JObj
         [(''arguments'', JObj [(''zone'', JStr ''a}\"b'')]), (''tool_name'', JStr ''Time.Now'')]),
        ex_tool = ''time.now'', ex_args = marshal (JObj [(''zone'', JStr ''a}\"b'')]),
        ex_accepted = True, ex_reason = NoReason\<rparr>], pd_rejected = []\<rparr>)"
proof (rule embedded_call_parsed)
  show "canonicalToolName ''Time.Now'' = Some ''time.now''" by code_simp
  show "isAllowed ''time.now'' []" by code_simp
  show "\<not> contains (''Let me check, please. '' @ marshal (JObj
       [(''arguments'', JObj [(''zone'', JStr ''a}\"b'')]), (''tool_name'', JStr ''Time.Now'')]) @ '' Done.'') ''```''"
    by code_simp
  show "plain_text ''Let me check, please. ''" "plain_text '' Done.''" by code_simp+
  show "json_depth (JObj [(''arguments'', JObj [(''zone'', JStr ''a}\"b'')]),
      (''tool_name'', JStr ''Time.Now'')]) \<le> maxJSONNestingDepth" by code_simp
  show "json_ok 10000 (JObj [(''arguments'', JObj [(''zone'', JStr ''a}\"b'')]),
      (''tool_name'', JStr ''Time.Now'')])" by code_simp
qed code_simp+

end
