(* ===== verification/Spec2Isabelle.thy ===== *)
theory Spec2Isabelle
  imports Chat_Bridge_Facts Chat_Connector_Facts Core_Tools_Facts Delegation_Facts Model_Context_Facts Patch_Facts Prompt_Lint_Facts Prompt_Versions Redact Roles_Facts Run_Invariants Scheduler_Runs Tool_Parse_Back
begin

text \<open>
  A verification library for openclawssy, a runtime for LLM agents written in Go. The model reads a
  request, the runtime asks a language model for a reply, parses tool calls out of it, executes them
  under guards and feeds the results back, until there is an answer. This library models that core.

  Theories, from the bottom:

  \<^item> Go_Strings, Go_Float, Go_Map, Go_Json: the Go library the program uses: byte strings with
    strings.TrimSpace and the like, float64 with rounding, maps (the locale go_map) and
    encoding/json.
  \<^item> Tool_Parse, Tool_Parse_Back: internal/toolparse/parser.go. What is returned is admissible;
    what is encoded is parsed back.
  \<^item> Run_Keys, Run_Types, Run_Tools: the keys, the data and the tool engine (executeTools) of
    internal/agent/run_state.go with types.go, ledger.go and prompt.go. Run_Tools_Facts shows what a
    batch of calls does and the invariant of the calls that reach the executor.
  \<^item> Run_Texts: error classification, directives and fallback texts of internal/agent/runner.go.
  \<^item> Roles, Roles_Facts: internal/roles: templates, store and router.
  \<^item> Delegation, Delegation_Run, Delegation_Facts: complexity.go, decomposer.go, planner.go and the
    delegated execution of runner.go; the dependency order is sound and complete.
  \<^item> Run_Loop, Run_Loop_Facts, Run_Invariants: runLoop and Run. A turn is \<open>turn\<close>, a run \<open>run\<close>.
    Every run returns; the locale run_invariant lifts what every tool call keeps to whole runs.
  \<^item> Run_Trackers: internal/runtime/run_tracker.go and internal/channels/http/run_cancel_tracker.go.
  \<^item> Chat_Limits: the rate limiter and allow list of internal/channels/chat.
  \<^item> Go_Path, Policy, Policy_Facts: filepath.Clean, Join, Rel and the like; internal/policy: the
    capability enforcer and the path guard. The file system is the record \<open>file_system\<close>; resolved
    paths stay in the workspace whatever its symbolic links are.
  \<^item> Tool_Registry, Tool_Registry_Facts: internal/tools/registry.go and errors.go: a call's way through
    Execute. Handlers run exactly for admissible calls, secret values are not audited.
  \<^item> Go_Time: package time: calendar, RFC3339, durations. Scheduler, Scheduler_Facts, Scheduler_Runs:
    internal/scheduler. The locale shared_file refines stores on one file to one job table; histories
    of checks on that table give the properties of one-shot and interval jobs.
  \<^item> Go_Regexp, Go_Text: package regexp as a matcher and a compiler of patterns; more of strings and fmt.
    Redact: internal/policy/redact.go; no long token passes a redaction.
  \<^item> Prompt_Stack, Prompt_Store, Prompt_Lint: internal/promptstack. A diff replays both texts and keeps
    most lines; Prompt_Store_Facts and Prompt_Versions show that the version store on files refines a
    table of version lists (the locale layer_files); Prompt_Lint_Facts that the linter is exact.
  \<^item> Message_Content, Http_Runs, Http_Events, Http_Queue: internal/messagecontent and the runs of
    internal/channels/http: store.go, filestore.go, events.go, pipeline.go. Http_Runs_Facts has the
    contract of the stores (the locale run_store) and what compaction drops, Http_Events_Facts the
    invariant of the bus, Http_Queue_Facts how every queued run ends.
  \<^item> Tool_Args, File_Edits: internal/tools/builtins.go: reading arguments and the three modes of
    fs.edit. File_Edits_Facts: line edits as replacements from the bottom up; Patch_Facts: when a
    unified diff applies and what it gives, and that printed patches are read back.
  \<^item> Shell_Tool, Shell_Tool_Facts: shell.exec; matching by compiled patterns is glob matching, and
    only allowed commands reach the shell. File_Tools, File_Tools_Facts: the eight fs tools over a
    record \<open>files\<close> of operations, each of which may fail with any text and change the world in any way.
  \<^item> Core_Tools, Core_Tools_Facts: their registration, and calls of them through the registry: what
    they can change and the types of what they return.
  \<^item> Reverse_Scanner, Reverse_Scanner_Facts: internal/chatstore/reverse_scanner.go against the lines
    of the file from its end.
  \<^item> Chat_Bridge, Chat_Bridge_Facts: internal/channels/chat/bridge_helpers.go and errors.go: what the
    bots share. Splitting loses only white space; waiting for a run ends with the first round that ends it.
  \<^item> Chat_Store, Chat_Store_Facts: internal/chatstore/store.go: sessions, logs of messages and pointers
    in files (the record \<open>chat_disk\<close>). What is appended is read back (the locale chat_log).
  \<^item> Chat_Connector, Chat_Connector_Facts: internal/channels/chat/connector.go: from a message to a queued
    run, which is always one of an open session of the sender's own chat.
  \<^item> Go_Runes, Model_Context, Model_Context_Facts: runes; the request part of internal/runtime/model.go:
    the messages sent to a provider and their compaction, which keeps the last message and the budget.
  State and effects. A mutated Go struct is a record passed through and returned; what the program
  asks of the outside (model, tool executor, sub-agent runner, callbacks) is a function parameter
  that reads and returns a world of any type \<open>'w\<close>, so nothing is assumed of it. Strings are lists of
  bytes. An error is a value of a sum or option type.

  Bounds. \<open>runLoop\<close> runs its turns with the fuel \<open>10 * toolCap + 60\<close>: every turn that goes on uses
  up a tool iteration, a reprompt or a step without progress, all capped, and \<open>run_returns\<close> shows
  that more fuel gives the same result. Other loops terminate by their measures.

  Approximations. Numbers in JSON values keep their literal text; as integer arguments, those above 2^53
  are read exactly and not as fmt prints their nearest float. Case mapping covers ASCII letters.
  Times of records are left out, and so are sleeps between retries and log lines. The order of a Go
  map range is a parameter where the result depends on it. Stores serialise their operations with a
  mutex, so their histories are sequences of whole operations; the event bus, whose readers the mutex
  does not stop, has the relation reachable_bus, in which they read between any two steps and within
  a send, too. Its numbers are 64-bit; the properties assume fewer than 2^63 events of a run.

  Not modelled: HTTP, SQLite, Docker, the operations of the file system themselves and encryption, and
  the code that only calls them; PROJECT.json lists every component and why it is left out.
\<close>

end
